(* ===== verification/Maas_Prelude.thy ===== *)
theory Maas_Prelude
  imports Main "HOL-Library.Word" "HOL-Library.AList" "HOL-Library.Multiset"
begin

text \<open>
  Shared vocabulary of the development: the error values of the service (msg/msg.go and the
  database errors the data access layer tells apart), computations that pass a state explicitly
  and may fail, and the proof rules for them.

  A Go function that returns \<open>(T, error)\<close> and reads or writes the database is a value of
  type \<open>('s, 'a) io\<close>: it maps a state to either an error (\<open>Inl\<close>) or a result (\<open>Inr\<close>), with
  the state it leaves.  \<open>bind_io\<close> is the early return on \<open>err != nil\<close>; \<open>attempt_io\<close> is a
  call whose error is inspected by the caller; \<open>wrap_io\<close> is \<open>utils.LogError\<close> or
  \<open>fmt.Errorf\<close> with \<open>%w\<close>; \<open>opaque_io\<close> is the same with \<open>%v\<close>, which loses the sentinel.
  \<open>GoPanic\<close> is a runtime panic (a nil dereference): no caller can inspect it.
\<close>

named_theorems keeps_intros \<open>rules that derive the preservation of a predicate by a computation\<close>
named_theorems run_simps \<open>equations that execute a computation on a given state\<close>

section \<open>Errors\<close>

datatype err =
    BadRequest | AuthError | NotFound | Conflict | Gone | UnauthorizedError
  | RecordNotFound | RecordNotFoundInCache
  | UniqueViolation | ForeignKeyViolation | TxAborted | PgReadOnly
  | UnexpectedEOF | ConnectionLost | CacheReadOnly
  | DatabaseIsNotActive | DatabaseIsReadonly
  | MasterDatabaseUnavailable | MasterDatabaseUnavailableForUpdate
  | TopicAlreadyExists | InstanceNotFound | DependencyNotFound
  | ClassifierUniqIndex | DesignatorUniqIndex | DesignatorForeignKey
  | TemplateAlreadyExists | TemplateInUse | EmptySearchCriteria
  | HttpStatus nat | EntityNotFound | VersEntitiesExist
  | Generic | GoPanic

text \<open>
  Wrapping an error with \<open>%w\<close> keeps every sentinel visible to \<open>errors.Is\<close>.  The one test of
  the program that compares the whole text of an error, \<open>IsMasterAvailabilityError\<close>, no longer
  recognises a wrapped error; nor does a type assertion on an error of an HTTP status.
\<close>

fun wrapped :: "err \<Rightarrow> err" where
  "wrapped UnexpectedEOF = ConnectionLost"
| "wrapped (HttpStatus c) = Generic"
| "wrapped e = e"

fun opaque :: "err \<Rightarrow> err" where
  "opaque GoPanic = GoPanic"
| "opaque _ = Generic"

lemma wrapped_panic [simp]: "wrapped e = GoPanic \<longleftrightarrow> e = GoPanic"
  by (cases e) auto

section \<open>Computations\<close>

type_synonym 'a outcome = "err + 'a"
type_synonym ('s, 'a) io = "'s \<Rightarrow> 'a outcome \<times> 's"

definition ret_io :: "'a \<Rightarrow> ('s, 'a) io" where
  "ret_io a s = (Inr a, s)"

definition raise_io :: "err \<Rightarrow> ('s, 'a) io" where
  "raise_io e s = (Inl e, s)"

definition bind_io :: "('s, 'a) io \<Rightarrow> ('a \<Rightarrow> ('s, 'b) io) \<Rightarrow> ('s, 'b) io" where
  "bind_io m f s = (case m s of (Inl e, s') \<Rightarrow> (Inl e, s') | (Inr a, s') \<Rightarrow> f a s')"

definition then_io :: "('s, 'a) io \<Rightarrow> ('s, 'b) io \<Rightarrow> ('s, 'b) io" where
  "then_io m k = bind_io m (\<lambda>_. k)"

definition attempt_io :: "('s, 'a) io \<Rightarrow> ('s, 'a outcome) io" where
  "attempt_io m s = (case m s of (r, s') \<Rightarrow> (if r = Inl GoPanic then Inl GoPanic else Inr r, s'))"

definition map_err_io :: "(err \<Rightarrow> err) \<Rightarrow> ('s, 'a) io \<Rightarrow> ('s, 'a) io" where
  "map_err_io h m s = (case m s of (r, s') \<Rightarrow> (map_sum h id r, s'))"

definition wrap_io :: "('s, 'a) io \<Rightarrow> ('s, 'a) io" where
  "wrap_io = map_err_io wrapped"

definition opaque_io :: "('s, 'a) io \<Rightarrow> ('s, 'a) io" where
  "opaque_io = map_err_io opaque"

definition gets_io :: "('s \<Rightarrow> 'a) \<Rightarrow> ('s, 'a) io" where
  "gets_io f s = (Inr (f s), s)"

definition modify_io :: "('s \<Rightarrow> 's) \<Rightarrow> ('s, unit) io" where
  "modify_io f s = (Inr (), f s)"

definition lift_io :: "'a outcome \<Rightarrow> ('s, 'a) io" where
  "lift_io r s = (r, s)"

definition when_io :: "bool \<Rightarrow> ('s, unit) io \<Rightarrow> ('s, unit) io" where
  "when_io b m = (if b then m else ret_io ())"

text \<open>\<open>for _, x := range xs\<close> whose body returns on the first error.\<close>

primrec for_each :: "('a \<Rightarrow> ('s, unit) io) \<Rightarrow> 'a list \<Rightarrow> ('s, unit) io" where
  "for_each f [] = ret_io ()"
| "for_each f (x # xs) = then_io (f x) (for_each f xs)"

primrec map_io :: "('a \<Rightarrow> ('s, 'b) io) \<Rightarrow> 'a list \<Rightarrow> ('s, 'b list) io" where
  "map_io f [] = ret_io []"
| "map_io f (x # xs) = bind_io (f x) (\<lambda>y. bind_io (map_io f xs) (\<lambda>ys. ret_io (y # ys)))"

text \<open>A dereference of a nil pointer panics.\<close>

definition deref_io :: "'a option \<Rightarrow> ('s, 'a) io" where
  "deref_io p = (case p of None \<Rightarrow> raise_io GoPanic | Some a \<Rightarrow> ret_io a)"

lemma ret_io_run [simp, run_simps]: "ret_io a s = (Inr a, s)"
  by (simp add: ret_io_def)

lemma raise_io_run [simp, run_simps]: "raise_io e s = (Inl e, s)"
  by (simp add: raise_io_def)

lemma bind_io_run [run_simps]:
  "bind_io m f s = (case m s of (Inl e, s') \<Rightarrow> (Inl e, s') | (Inr a, s') \<Rightarrow> f a s')"
  by (simp add: bind_io_def)

lemma then_io_run [run_simps]:
  "then_io m k s = (case m s of (Inl e, s') \<Rightarrow> (Inl e, s') | (Inr a, s') \<Rightarrow> k s')"
  by (simp add: then_io_def bind_io_def)

lemma bind_io_Inr [simp]: "m s = (Inr a, s') \<Longrightarrow> bind_io m f s = f a s'"
  by (simp add: bind_io_def)

lemma bind_io_Inl [simp]: "m s = (Inl e, s') \<Longrightarrow> bind_io m f s = (Inl e, s')"
  by (simp add: bind_io_def)

lemma then_io_Inr [simp]: "m s = (Inr a, s') \<Longrightarrow> then_io m k s = k s'"
  by (simp add: then_io_def)

lemma then_io_Inl [simp]: "m s = (Inl e, s') \<Longrightarrow> then_io m k s = (Inl e, s')"
  by (simp add: then_io_def)

lemma wrap_io_run [run_simps]:
  "wrap_io m s = (case m s of (Inl e, s') \<Rightarrow> (Inl (wrapped e), s') | (Inr a, s') \<Rightarrow> (Inr a, s'))"
  by (simp add: wrap_io_def map_err_io_def split: prod.split sum.split)

lemma opaque_io_run [run_simps]:
  "opaque_io m s = (case m s of (Inl e, s') \<Rightarrow> (Inl (opaque e), s') | (Inr a, s') \<Rightarrow> (Inr a, s'))"
  by (simp add: opaque_io_def map_err_io_def split: prod.split sum.split)

lemma wrap_io_Inr [simp]: "m s = (Inr a, s') \<Longrightarrow> wrap_io m s = (Inr a, s')"
  by (simp add: wrap_io_run)

lemma wrap_io_Inl [simp]: "m s = (Inl e, s') \<Longrightarrow> wrap_io m s = (Inl (wrapped e), s')"
  by (simp add: wrap_io_run)

lemma attempt_io_run [run_simps]:
  "attempt_io m s = (case m s of (r, s') \<Rightarrow> (if r = Inl GoPanic then Inl GoPanic else Inr r, s'))"
  by (simp add: attempt_io_def)

lemma attempt_io_Inr [simp]: "m s = (Inr a, s') \<Longrightarrow> attempt_io m s = (Inr (Inr a), s')"
  by (simp add: attempt_io_def)

lemma gets_io_run [simp, run_simps]: "gets_io f s = (Inr (f s), s)"
  by (simp add: gets_io_def)

lemma modify_io_run [simp, run_simps]: "modify_io f s = (Inr (), f s)"
  by (simp add: modify_io_def)

lemma lift_io_run [simp, run_simps]: "lift_io r s = (r, s)"
  by (simp add: lift_io_def)

lemma when_io_run [run_simps]: "when_io b m s = (if b then m s else (Inr (), s))"
  by (simp add: when_io_def)

lemma deref_io_run [simp, run_simps]:
  "deref_io None s = (Inl GoPanic, s)" "deref_io (Some a) s = (Inr a, s)"
  by (simp_all add: deref_io_def)

section \<open>Preservation\<close>

text \<open>
  \<open>keeps P m\<close>: every run of \<open>m\<close> from a state with \<open>P\<close> ends in one with \<open>P\<close>, whether it
  returns a result, an error, or panics.  The rules follow the syntax of a computation.
\<close>

definition keeps :: "('s \<Rightarrow> bool) \<Rightarrow> ('s, 'a) io \<Rightarrow> bool" where
  "keeps P m \<longleftrightarrow> (\<forall>s. P s \<longrightarrow> P (snd (m s)))"

lemma keepsI: "(\<And>s r s'. P s \<Longrightarrow> m s = (r, s') \<Longrightarrow> P s') \<Longrightarrow> keeps P m"
  unfolding keeps_def by (metis prod.collapse)

lemma keepsD: "keeps P m \<Longrightarrow> m s = (r, s') \<Longrightarrow> P s \<Longrightarrow> P s'"
  unfolding keeps_def by (metis snd_conv)

lemma keeps_ret [keeps_intros]: "keeps P (ret_io a)"
  by (simp add: keeps_def)

lemma keeps_raise [keeps_intros]: "keeps P (raise_io e)"
  by (simp add: keeps_def)

lemma keeps_lift [keeps_intros]: "keeps P (lift_io r)"
  by (simp add: keeps_def)

lemma keeps_gets [keeps_intros]: "keeps P (gets_io f)"
  by (simp add: keeps_def)

lemma keeps_bind [keeps_intros]:
  "keeps P m \<Longrightarrow> (\<And>a. keeps P (f a)) \<Longrightarrow> keeps P (bind_io m f)"
  by (auto simp: keeps_def bind_io_def split: prod.split sum.split)

lemma keeps_then [keeps_intros]:
  "keeps P m \<Longrightarrow> keeps P k \<Longrightarrow> keeps P (then_io m k)"
  unfolding then_io_def by (rule keeps_bind)

lemma keeps_map_err [keeps_intros]: "keeps P m \<Longrightarrow> keeps P (map_err_io h m)"
  by (auto simp: keeps_def map_err_io_def split: prod.split)

lemma keeps_wrap [keeps_intros]: "keeps P m \<Longrightarrow> keeps P (wrap_io m)"
  by (simp add: wrap_io_def keeps_map_err)

lemma keeps_opaque [keeps_intros]: "keeps P m \<Longrightarrow> keeps P (opaque_io m)"
  by (simp add: opaque_io_def keeps_map_err)

lemma keeps_attempt [keeps_intros]: "keeps P m \<Longrightarrow> keeps P (attempt_io m)"
  by (auto simp: keeps_def attempt_io_def split: prod.split)

lemma keeps_when [keeps_intros]: "keeps P m \<Longrightarrow> keeps P (when_io b m)"
  by (simp add: when_io_def keeps_ret)

lemma keeps_deref [keeps_intros]: "keeps P (deref_io p)"
  by (cases p) (auto simp: keeps_def)

lemma keeps_if [keeps_intros]:
  "(b \<Longrightarrow> keeps P m) \<Longrightarrow> (\<not> b \<Longrightarrow> keeps P k) \<Longrightarrow> keeps P (if b then m else k)"
  by simp

lemma keeps_option [keeps_intros]:
  "keeps P m \<Longrightarrow> (\<And>a. keeps P (f a)) \<Longrightarrow> keeps P (case x of None \<Rightarrow> m | Some a \<Rightarrow> f a)"
  by (cases x) auto

lemma keeps_sum [keeps_intros]:
  "(\<And>e. keeps P (g e)) \<Longrightarrow> (\<And>a. keeps P (f a)) \<Longrightarrow> keeps P (case x of Inl e \<Rightarrow> g e | Inr a \<Rightarrow> f a)"
  by (cases x) auto

lemma keeps_prod [keeps_intros]:
  "(\<And>a b. keeps P (f a b)) \<Longrightarrow> keeps P (case x of (a, b) \<Rightarrow> f a b)"
  by (cases x) auto

lemma keeps_list [keeps_intros]:
  "keeps P m \<Longrightarrow> (\<And>a as. keeps P (f a as)) \<Longrightarrow> keeps P (case x of [] \<Rightarrow> m | a # as \<Rightarrow> f a as)"
  by (cases x) auto

lemma keeps_let [keeps_intros]: "(\<And>x. keeps P (f x)) \<Longrightarrow> keeps P (let x = a in f x)"
  by simp

lemma keeps_for_each [keeps_intros]:
  "(\<And>x. x \<in> set xs \<Longrightarrow> keeps P (f x)) \<Longrightarrow> keeps P (for_each f xs)"
  by (induction xs) (auto intro: keeps_intros)

lemma keeps_map_io [keeps_intros]:
  "(\<And>x. x \<in> set xs \<Longrightarrow> keeps P (f x)) \<Longrightarrow> keeps P (map_io f xs)"
  by (induction xs) (auto intro!: keeps_intros)

lemma keeps_conj: "keeps P m \<Longrightarrow> keeps Q m \<Longrightarrow> keeps (\<lambda>s. P s \<and> Q s) m"
  by (simp add: keeps_def)

section \<open>Association lists as Go maps\<close>

definition keys :: "('a \<times> 'b) list \<Rightarrow> 'a list" where
  "keys kvs = map fst kvs"

text \<open>Two Go maps are equal when they hold the same bindings.\<close>

definition same_map :: "('a \<times> 'b) list \<Rightarrow> ('a \<times> 'b) list \<Rightarrow> bool" where
  "same_map m1 m2 \<longleftrightarrow>
     (\<forall>k \<in> set (keys m1). map_of m1 k = map_of m2 k) \<and>
     (\<forall>k \<in> set (keys m2). map_of m1 k = map_of m2 k)"

lemma same_map_iff: "same_map m1 m2 \<longleftrightarrow> map_of m1 = map_of m2"
proof
  assume h: "same_map m1 m2"
  show "map_of m1 = map_of m2"
  proof
    fix k
    show "map_of m1 k = map_of m2 k"
      using h by (cases "k \<in> fst ` set m1 \<or> k \<in> fst ` set m2")
        (auto simp: same_map_def keys_def map_of_eq_None_iff, metis map_of_eq_None_iff)
  qed
qed (auto simp: same_map_def)

lemma same_map_refl [simp]: "same_map m m"
  by (simp add: same_map_iff)

lemma same_map_sym: "same_map m1 m2 \<Longrightarrow> same_map m2 m1"
  by (simp add: same_map_iff)

lemma same_map_trans: "same_map m1 m2 \<Longrightarrow> same_map m2 m3 \<Longrightarrow> same_map m1 m3"
  by (simp add: same_map_iff)

section \<open>Lists\<close>

text \<open>\<open>slices.Contains\<close> and set membership as a computation.\<close>

definition contains :: "'a list \<Rightarrow> 'a \<Rightarrow> bool" where
  "contains xs x \<longleftrightarrow> List.member xs x"

lemma contains_iff [simp]: "contains xs x \<longleftrightarrow> x \<in> set xs"
  by (simp add: contains_def)

lemma find_Some_iff2: "find P xs = Some x \<Longrightarrow> P x \<and> x \<in> set xs"
  by (metis find_Some_iff nth_mem)

lemma find_None_all: "find P xs = None \<Longrightarrow> x \<in> set xs \<Longrightarrow> \<not> P x"
  by (simp add: find_None_iff)

lemma find_unique:
  assumes "x \<in> set xs" "P x" and uniq: "\<And>y. y \<in> set xs \<Longrightarrow> P y \<Longrightarrow> y = x"
  shows "find P xs = Some x"
proof (cases "find P xs")
  case None
  from find_None_all [OF this assms(1)] assms(2) show ?thesis by contradiction
next
  case (Some y)
  from find_Some_iff2 [OF this] have "y = x" by (blast intro: uniq)
  with Some show ?thesis by (simp only:)
qed

end
