(* ===== verification/Maas_Utils.thy ===== *)
theory Maas_Utils
  imports Maas_Prelude
begin

text \<open>
  utils/utils.go: the string, slice and map helpers the services share, with the parts of the Go
  standard library they use (\<open>strings\<close>, \<open>strconv.Atoi\<close>, \<open>path.Match\<close>).  A Go string is a
  list of characters; a nil map and an empty map are both the empty association list, since the
  code only ever asks for their length or a key.
\<close>

section \<open>Strings\<close>

definition lower_char :: "char \<Rightarrow> char" where
  "lower_char c = (let n = of_char c :: nat in if 65 \<le> n \<and> n \<le> 90 then char_of (n + 32) else c)"

definition to_lower :: "string \<Rightarrow> string" where
  "to_lower s = map lower_char s"

definition is_space :: "char \<Rightarrow> bool" where
  "is_space c \<longleftrightarrow> (of_char c :: nat) \<in> {9, 10, 11, 12, 13, 32}"

definition is_digit :: "char \<Rightarrow> bool" where
  "is_digit c \<longleftrightarrow> 48 \<le> (of_char c :: nat) \<and> (of_char c :: nat) \<le> 57"

definition digit_val :: "char \<Rightarrow> nat" where
  "digit_val c = of_char c - 48"

definition trim_space :: "string \<Rightarrow> string" where
  "trim_space s = rev (dropWhile is_space (rev (dropWhile is_space s)))"

definition has_prefix :: "string \<Rightarrow> string \<Rightarrow> bool" where
  "has_prefix s p \<longleftrightarrow> take (length p) s = p"

text \<open>\<open>strings.Split(s, sep)\<close> for a separator of one character.\<close>

fun split_on :: "char \<Rightarrow> string \<Rightarrow> string list" where
  "split_on c [] = [[]]"
| "split_on c (x # xs) = (if x = c then [] # split_on c xs
     else case split_on c xs of [] \<Rightarrow> [[x]] | w # ws \<Rightarrow> (x # w) # ws)"

fun join_with :: "char \<Rightarrow> string list \<Rightarrow> string" where
  "join_with c [] = []"
| "join_with c [w] = w"
| "join_with c (w # v # ws) = w @ [c] @ join_with c (v # ws)"

definition minus_char :: char where "minus_char = CHR ''-''"
definition plus_char :: char where "plus_char = CHR ''+''"

definition digits_val :: "string \<Rightarrow> nat" where
  "digits_val s = fold (\<lambda>c n. 10 * n + digit_val c) s 0"

text \<open>\<open>strconv.Atoi\<close> on a 64-bit platform: optional sign, decimal digits, range error outside int64.\<close>

definition atoi :: "string \<Rightarrow> int option" where
  "atoi s = (let neg = (s \<noteq> [] \<and> hd s = minus_char);
                 ds = (if s \<noteq> [] \<and> (hd s = minus_char \<or> hd s = plus_char) then tl s else s);
                 n = (if neg then - int (digits_val ds) else int (digits_val ds))
             in if ds \<noteq> [] \<and> list_all is_digit ds \<and> - (2 ^ 63) \<le> n \<and> n < 2 ^ 63 then Some n else None)"

text \<open>\<open>fmt.Sprint\<close> of an integer.\<close>

fun nat_digits :: "nat \<Rightarrow> string" where
  "nat_digits n = (if n < 10 then [char_of (48 + n)] else nat_digits (n div 10) @ [char_of (48 + n mod 10)])"

declare nat_digits.simps [simp del]

definition int_digits :: "int \<Rightarrow> string" where
  "int_digits i = (if i < 0 then minus_char # nat_digits (nat (- i)) else nat_digits (nat i))"

lemma split_on_ne [simp]: "split_on c s \<noteq> []"
  by (cases s) (auto split: list.split)

lemma join_split: "join_with c (split_on c s) = s"
proof (induction s)
  case (Cons x xs)
  then show ?case by (cases "split_on c xs" rule: list.exhaust [case_product list.exhaust])
      (auto split: list.split elim: join_with.elims, (metis append_Cons append_Nil join_with.simps list.exhaust)+)
qed simp

lemma split_on_no_sep: "w \<in> set (split_on c s) \<Longrightarrow> c \<notin> set w"
  by (induction s arbitrary: w) (auto split: if_splits list.splits)

lemma trim_space_idem: "trim_space (trim_space s) = trim_space s"
proof -
  have d: "dropWhile is_space (dropWhile is_space xs) = dropWhile is_space xs" for xs
    by (induction xs) auto
  have h: "t = [] \<or> \<not> is_space (hd t)" if "t = dropWhile is_space s" for t
    using that hd_dropWhile [of is_space s] by (metis dropWhile_eq_Nil_conv)
  define t where "t = dropWhile is_space s"
  have "dropWhile is_space (rev (dropWhile is_space (rev t))) = rev (dropWhile is_space (rev t))"
  proof (cases "dropWhile is_space (rev t)")
    case (Cons a as)
    obtain pre where "rev t = pre @ a # as"
      using Cons by (metis takeWhile_dropWhile_id)
    then have "t = rev as @ [a] @ rev pre"
      by (metis append_assoc rev.simps(2) rev_append rev_rev_ident append_Nil append_Cons)
    then have "hd t = hd (rev (a # as))" "t \<noteq> []"
      by (cases "rev as"; simp)+
    then have "\<not> is_space (hd (rev (a # as)))" using h [OF t_def] by metis
    then show ?thesis using Cons by (metis dropWhile.simps(2) list.collapse rev_is_Nil_conv list.distinct(1))
  next
    case Nil
    then show ?thesis by (simp only: rev.simps dropWhile.simps)
  qed
  then show ?thesis unfolding trim_space_def t_def [symmetric] by (simp add: d)
qed

lemma digit_char [simp]: "n < 10 \<Longrightarrow> is_digit (char_of (48 + n :: nat))" "n < 10 \<Longrightarrow> digit_val (char_of (48 + n)) = n"
  by (simp_all add: is_digit_def digit_val_def of_char_of)

lemma nat_digits_all: "list_all is_digit (nat_digits n)"
proof (induction n rule: nat_digits.induct)
  case (1 n)
  then show ?case by (subst nat_digits.simps) (auto simp del: nat_digits.simps)
qed

lemma nat_digits_ne [simp]: "nat_digits n \<noteq> []"
  by (subst nat_digits.simps) simp

lemma digits_val_snoc: "digits_val (s @ [c]) = 10 * digits_val s + digit_val c"
  by (simp add: digits_val_def)

lemma digits_val_nat_digits: "digits_val (nat_digits n) = n"
proof (induction n rule: nat_digits.induct)
  case (1 n)
  then show ?case
    by (cases "n < 10"; subst nat_digits.simps) (auto simp: digits_val_snoc, simp add: digits_val_def)
qed

lemma digit_not_sign: "is_digit c \<Longrightarrow> c \<noteq> minus_char \<and> c \<noteq> plus_char"
  by (auto simp: is_digit_def minus_char_def plus_char_def)

lemma atoi_int_digits: "- (2 ^ 63) \<le> i \<Longrightarrow> i < 2 ^ 63 \<Longrightarrow> atoi (int_digits i) = Some i"
proof (cases "i < 0")
  case True
  then show "- (2 ^ 63) \<le> i \<Longrightarrow> i < 2 ^ 63 \<Longrightarrow> ?thesis"
    by (simp add: atoi_def int_digits_def Let_def nat_digits_all digits_val_nat_digits)
next
  case False
  have "hd (nat_digits (nat i)) \<noteq> minus_char \<and> hd (nat_digits (nat i)) \<noteq> plus_char"
    using nat_digits_all [of "nat i"] digit_not_sign by (metis hd_in_set list_all_iff nat_digits_ne)
  with False show "- (2 ^ 63) \<le> i \<Longrightarrow> i < 2 ^ 63 \<Longrightarrow> ?thesis"
    by (simp add: atoi_def int_digits_def Let_def nat_digits_all digits_val_nat_digits)
qed

section \<open>Slices and maps\<close>

definition SlicesAreEqualInt32 :: "32 word list \<Rightarrow> 32 word list \<Rightarrow> bool" where
  "SlicesAreEqualInt32 s1 s2 = (length s1 = length s2 \<and>
     (\<forall>i \<in> set [0 ..< length s1]. s2 ! i = s1 ! i))"

definition StringMapsAreEqual :: "('a \<times> 'b) list \<Rightarrow> ('a \<times> 'b) list \<Rightarrow> bool" where
  "StringMapsAreEqual m1 m2 =
     (if length m1 \<noteq> length m2 then False
      else if length m1 = 0 then True
      else list_all (\<lambda>(k, v). case map_of m2 k of None \<Rightarrow> False | Some v2 \<Rightarrow> v = v2) m1)"

definition CheckForChangesByRequest :: "('a \<times> 'b) list \<Rightarrow> ('a \<times> 'b) list \<Rightarrow> bool" where
  "CheckForChangesByRequest originalSet requestSet =
     (if requestSet = [] then True
      else if originalSet = [] then False
      else list_all (\<lambda>(k, v). case map_of originalSet k of None \<Rightarrow> False | Some v2 \<Rightarrow> v = v2) requestSet)"

definition SubstractStringsArray :: "'a list \<Rightarrow> 'a list \<Rightarrow> 'a list" where
  "SubstractStringsArray a b = [x \<leftarrow> a. x \<notin> set b]"

text \<open>
  \<open>rand.Perm\<close> is the parameter \<open>perm\<close>: it returns a permutation of \<open>[0 ..< n]\<close>.
\<close>

definition RandomSubSequence :: "(nat \<Rightarrow> nat list) \<Rightarrow> 'a list \<Rightarrow> nat \<Rightarrow> 'a list outcome" where
  "RandomSubSequence perm src len =
     (if length src < len then Inl Generic else Inr (map (\<lambda>p. src ! p) (perm len)))"

definition Iff :: "bool \<Rightarrow> 'a \<Rightarrow> 'a \<Rightarrow> 'a" where
  "Iff b x y = (if b then x else y)"

lemma SlicesAreEqualInt32_iff [simp]: "SlicesAreEqualInt32 s1 s2 \<longleftrightarrow> s1 = s2"
proof
  assume h: "SlicesAreEqualInt32 s1 s2"
  show "s1 = s2"
  proof (rule nth_equalityI)
    show "length s1 = length s2" using h by (simp only: SlicesAreEqualInt32_def)
    show "s1 ! i = s2 ! i" if "i < length s1" for i
      using h that by (simp add: SlicesAreEqualInt32_def)
  qed
qed (simp add: SlicesAreEqualInt32_def)

lemma bindings_iff:
  "list_all (\<lambda>(k, v). case map_of m2 k of None \<Rightarrow> False | Some v2 \<Rightarrow> v = v2) m1 \<longleftrightarrow>
   (\<forall>(k, v) \<in> set m1. map_of m2 k = Some v)"
  unfolding list_all_iff by (rule ball_cong) (auto split: option.splits)

lemma bindings_submap:
  assumes "distinct (keys m1)"
  shows "(\<forall>(k, v) \<in> set m1. map_of m2 k = Some v) \<longleftrightarrow> map_of m1 \<subseteq>\<^sub>m map_of m2"
proof
  assume h: "\<forall>(k, v) \<in> set m1. map_of m2 k = Some v"
  show "map_of m1 \<subseteq>\<^sub>m map_of m2"
    unfolding map_le_def using h by (force dest: map_of_SomeD)
next
  assume h: "map_of m1 \<subseteq>\<^sub>m map_of m2"
  have "map_of m2 k = Some v" if "(k, v) \<in> set m1" for k v
  proof -
    have "map_of m1 k = Some v" using that assms by (simp add: keys_def)
    then show ?thesis using h unfolding map_le_def by (metis domI)
  qed
  then show "\<forall>(k, v) \<in> set m1. map_of m2 k = Some v" by blast
qed

lemma CheckForChangesByRequest_iff:
  assumes "distinct (keys requestSet)"
  shows "CheckForChangesByRequest originalSet requestSet \<longleftrightarrow> map_of requestSet \<subseteq>\<^sub>m map_of originalSet"
proof -
  have "CheckForChangesByRequest originalSet requestSet \<longleftrightarrow>
      (\<forall>(k, v) \<in> set requestSet. map_of originalSet k = Some v)"
    unfolding CheckForChangesByRequest_def bindings_iff
    by (cases requestSet; cases originalSet) auto
  then show ?thesis using bindings_submap [OF assms] by simp
qed

lemma StringMapsAreEqual_iff:
  assumes d1: "distinct (keys m1)" and d2: "distinct (keys m2)"
  shows "StringMapsAreEqual m1 m2 \<longleftrightarrow> map_of m1 = map_of m2"
proof
  have card: "card (set m1) = length m1" "card (set m2) = length m2"
    using d1 d2 by (simp_all add: keys_def distinct_card distinct_map)
  {
    assume h: "StringMapsAreEqual m1 m2"
    have len: "length m1 = length m2" using h by (auto simp: StringMapsAreEqual_def split: if_splits)
    have "\<forall>(k, v) \<in> set m1. map_of m2 k = Some v"
      using h unfolding StringMapsAreEqual_def bindings_iff by (auto split: if_splits)
    then have "set m1 \<subseteq> set m2" by (auto dest: map_of_SomeD)
    with len card have "set m1 = set m2" by (metis card_subset_eq finite_set)
    then show "map_of m1 = map_of m2" using d1 d2 by (simp add: keys_def map_of_inject_set)
  next
    assume h: "map_of m1 = map_of m2"
    then have "set m1 = set m2" using d1 d2 by (simp add: keys_def map_of_inject_set)
    with card have "length m1 = length m2" by simp
    moreover have "\<forall>(k, v) \<in> set m1. map_of m2 k = Some v"
      using bindings_submap [OF d1, of m2] h by simp
    ultimately show "StringMapsAreEqual m1 m2"
      unfolding StringMapsAreEqual_def bindings_iff by auto
  }
qed

section \<open>Glob patterns\<close>

text \<open>
  \<open>path.Match\<close>: \<open>*\<close> and \<open>?\<close> do not match a slash, \<open>[\<close> opens a class of characters and
  ranges, a backslash quotes the next character.  \<open>MatchPattern\<close> turns a malformed pattern
  into a mismatch, so the matcher only has to say when a pattern matches.
\<close>

definition star_char :: char where "star_char = CHR ''*''"
definition quest_char :: char where "quest_char = CHR ''?''"
definition lbrack_char :: char where "lbrack_char = CHR ''[''"
definition rbrack_char :: char where "rbrack_char = CHR '']''"
definition caret_char :: char where "caret_char = CHR 0x5E"
definition back_char :: char where "back_char = CHR 0x5C"
definition slash_char :: char where "slash_char = CHR ''/''"

text \<open>One (possibly quoted) character of a class; \<open>-\<close> and \<open>]\<close> need quoting.\<close>

fun class_char :: "string \<Rightarrow> (char \<times> string) option" where
  "class_char [] = None"
| "class_char (c # cs) =
     (if c = minus_char \<or> c = rbrack_char then None
      else if c = back_char then (case cs of [] \<Rightarrow> None | d # ds \<Rightarrow> Some (d, ds))
      else Some (c, cs))"

lemma class_char_shorter: "class_char cs = Some (c, ds) \<Longrightarrow> length ds < length cs"
  by (cases cs) (auto split: if_splits list.splits)

text \<open>The ranges of a class up to its closing bracket: whether \<open>x\<close> is in one, and the rest.\<close>

function class_ranges :: "char \<Rightarrow> bool \<Rightarrow> string \<Rightarrow> (bool \<times> string) option" where
  "class_ranges x first cs =
     (if \<not> first \<and> cs \<noteq> [] \<and> hd cs = rbrack_char then Some (False, tl cs)
      else case class_char cs of
        None \<Rightarrow> None
      | Some (lo, ds) \<Rightarrow>
          (if ds \<noteq> [] \<and> hd ds = minus_char then
             (case class_char (tl ds) of
                None \<Rightarrow> None
              | Some (hi, es) \<Rightarrow>
                  map_option (\<lambda>(b, r). (b \<or> (of_char lo :: nat) \<le> of_char x \<and> (of_char x :: nat) \<le> of_char hi, r))
                    (class_ranges x False es))
           else map_option (\<lambda>(b, r). (b \<or> x = lo, r)) (class_ranges x False ds)))"
  by pat_completeness auto
termination
proof (relation "measure (\<lambda>(x, first, cs). length cs)", goal_cases)
  case (2 x first cs p lo ds q hi es)
  then show ?case
    by (auto dest!: class_char_shorter)
next
  case (3 x first cs p lo ds)
  then show ?case by (auto dest!: class_char_shorter)
qed simp

declare class_ranges.simps [simp del]

lemma class_ranges_shorter: "class_ranges x first cs = Some (b, r) \<Longrightarrow> length r < length cs"
proof (induction x first cs arbitrary: b r rule: class_ranges.induct)
  case (1 x first cs)
  show ?case
  proof (cases "\<not> first \<and> cs \<noteq> [] \<and> hd cs = rbrack_char")
    case True
    with "1.prems" show ?thesis by (subst (asm) class_ranges.simps) (cases cs; auto)
  next
    case False
    with "1.prems" obtain lo ds where c: "class_char cs = Some (lo, ds)"
      by (subst (asm) class_ranges.simps) (auto split: option.splits)
    note sh = class_char_shorter [OF c]
    show ?thesis
    proof (cases "ds \<noteq> [] \<and> hd ds = minus_char")
      case T: True
      with "1.prems" False c obtain hi es b' where
        c2: "class_char (tl ds) = Some (hi, es)" and r: "class_ranges x False es = Some (b', r)"
        by (subst (asm) class_ranges.simps) (auto split: option.splits prod.splits)
      have "length r < length es" using "1.IH"(1) False c T c2 r by simp
      with class_char_shorter [OF c2] sh show ?thesis by simp
    next
      case F: False
      with "1.prems" False c obtain b' where r: "class_ranges x False ds = Some (b', r)"
        by (subst (asm) class_ranges.simps) (auto split: option.splits prod.splits)
      have "length r < length ds" using "1.IH"(2) False c F r by simp
      with sh show ?thesis by simp
    qed
  qed
qed

fun class_match :: "char \<Rightarrow> string \<Rightarrow> (bool \<times> string) option" where
  "class_match x cs =
     (if cs \<noteq> [] \<and> hd cs = caret_char then map_option (\<lambda>(b, r). (\<not> b, r)) (class_ranges x True (tl cs))
      else class_ranges x True cs)"

lemma class_match_shorter: "class_match x cs = Some (b, r) \<Longrightarrow> length r < length cs"
  by (cases cs) (auto split: if_splits dest!: class_ranges_shorter)

declare class_match.simps [simp del]

function glob :: "string \<Rightarrow> string \<Rightarrow> bool" where
  "glob [] s = (s = [])"
| "glob (p # ps) s =
     (if p = star_char then glob ps s \<or> (if s = [] \<or> hd s = slash_char then False else glob (p # ps) (tl s))
      else case s of
        [] \<Rightarrow> False
      | c # cs \<Rightarrow>
          if p = quest_char then c \<noteq> slash_char \<and> glob ps cs
          else if p = lbrack_char then
            (case class_match c ps of None \<Rightarrow> False | Some (b, rest) \<Rightarrow> b \<and> glob rest cs)
          else if p = back_char then
            (case ps of [] \<Rightarrow> False | q # qs \<Rightarrow> q = c \<and> glob qs cs)
          else p = c \<and> glob ps cs)"
  by pat_completeness auto
termination
  by (relation "measure (\<lambda>(p, s). length p + length s)")
     (auto dest!: class_match_shorter simp: neq_Nil_conv)

declare glob.simps(2) [simp del]

definition MatchPattern :: "string \<Rightarrow> string \<Rightarrow> bool" where
  "MatchPattern pattern v = glob pattern v"

text \<open>A pattern without meta characters matches only itself.\<close>

definition plain_pattern :: "string \<Rightarrow> bool" where
  "plain_pattern p \<longleftrightarrow> set p \<inter> {star_char, quest_char, lbrack_char, back_char} = {}"

lemma glob_plain: "plain_pattern p \<Longrightarrow> glob p s \<longleftrightarrow> s = p"
proof (induction p arbitrary: s)
  case (Cons c p)
  then have "plain_pattern p" and "c \<notin> {star_char, quest_char, lbrack_char, back_char}"
    by (auto simp: plain_pattern_def)
  then show ?case using Cons.IH by (cases s) (auto simp: glob.simps(2))
qed simp

lemma glob_star: "slash_char \<notin> set s \<Longrightarrow> glob [star_char] s"
proof (induction s)
  case Nil
  show ?case by (subst glob.simps(2)) simp
next
  case (Cons c s)
  then show ?case by (subst glob.simps(2)) auto
qed

section \<open>Authorization headers\<close>

text \<open>
  \<open>ParseAuthHeader\<close>: the scheme is matched without regard to case, then white space, then
  one run of characters that are not white space up to the end of the header.
\<close>

definition auth_scheme :: "string \<Rightarrow> string \<Rightarrow> (string \<times> string) option" where
  "auth_scheme scheme h =
     (let n = length scheme; rest = drop n h; creds = dropWhile is_space rest
      in if to_lower (take n h) = scheme \<and> rest \<noteq> [] \<and> is_space (hd rest)
            \<and> creds \<noteq> [] \<and> (\<forall>c \<in> set creds. \<not> is_space c)
         then Some (take n h, creds) else None)"

definition ParseAuthHeader :: "string \<Rightarrow> (string \<times> string) option" where
  "ParseAuthHeader h = (case auth_scheme ''basic'' h of Some r \<Rightarrow> Some r | None \<Rightarrow> auth_scheme ''bearer'' h)"

lemma ParseAuthHeader_sound:
  "ParseAuthHeader h = Some (scheme, creds) \<Longrightarrow>
     to_lower scheme \<in> {''basic'', ''bearer''} \<and> creds \<noteq> [] \<and> (\<forall>c \<in> set creds. \<not> is_space c)"
  by (auto simp: ParseAuthHeader_def auth_scheme_def Let_def split: if_splits option.splits)

section \<open>Broadcast\<close>

text \<open>
  utils/broadcast: listeners under increasing ids.  \<open>sync.Map\<close> does not fix the order in which
  \<open>ExecuteListeners\<close> visits them; the model visits them in the order of their ids.
\<close>

record 'c broadcast =
  bc_counter :: nat
  bc_listeners :: "(nat \<times> 'c) list"

definition broadcast_new :: "'c broadcast" where
  "broadcast_new = \<lparr>bc_counter = 0, bc_listeners = []\<rparr>"

definition AddListener :: "'c \<Rightarrow> 'c broadcast \<Rightarrow> nat \<times> 'c broadcast" where
  "AddListener cb b = (let n = Suc (bc_counter b)
     in (n, b\<lparr>bc_counter := n, bc_listeners := bc_listeners b @ [(n, cb)]\<rparr>))"

definition RemoveListener :: "nat \<Rightarrow> 'c broadcast \<Rightarrow> 'c broadcast" where
  "RemoveListener n b = b\<lparr>bc_listeners := [(i, c) \<leftarrow> bc_listeners b. i \<noteq> n]\<rparr>"

definition ExecuteListeners :: "('a \<Rightarrow> ('s, unit) io) broadcast \<Rightarrow> 'a \<Rightarrow> ('s, unit) io" where
  "ExecuteListeners b d = for_each (\<lambda>(i, cb). cb d) (bc_listeners b)"

lemma keeps_ExecuteListeners [keeps_intros]:
  "(\<And>i cb. (i, cb) \<in> set (bc_listeners b) \<Longrightarrow> keeps P (cb d)) \<Longrightarrow> keeps P (ExecuteListeners b d)"
  unfolding ExecuteListeners_def by (rule keeps_for_each) auto

definition broadcast_wf :: "'c broadcast \<Rightarrow> bool" where
  "broadcast_wf b \<longleftrightarrow> distinct (keys (bc_listeners b)) \<and> (\<forall>i \<in> set (keys (bc_listeners b)). i \<le> bc_counter b)"

lemma broadcast_wf_new: "broadcast_wf broadcast_new"
  by (simp add: broadcast_wf_def broadcast_new_def keys_def)

lemma broadcast_wf_add: "broadcast_wf b \<Longrightarrow> AddListener cb b = (n, b') \<Longrightarrow> broadcast_wf b'"
  by (force simp: broadcast_wf_def AddListener_def keys_def Let_def)

lemma broadcast_remove_add:
  "broadcast_wf b \<Longrightarrow> AddListener cb b = (n, b') \<Longrightarrow> bc_listeners (RemoveListener n b') = bc_listeners b"
  by (force simp: broadcast_wf_def AddListener_def RemoveListener_def keys_def Let_def filter_id_conv)

end
