(* ===== verification/Maas_Model.thy ===== *)
theory Maas_Model
  imports Maas_Utils
begin

text \<open>
  The parts of the package model every component uses: accounts and roles, the security and
  request contexts, classifiers and versions.
\<close>

section \<open>Accounts (model/model.go)\<close>

definition ManagerAccountNamespace :: string where "ManagerAccountNamespace = ''_GLOBAL''"
definition ManagerRole :: string where "ManagerRole = ''manager''"
definition AgentRole :: string where "AgentRole = ''agent''"
definition BgOperatorRole :: string where "BgOperatorRole = ''bgoperator''"
definition AnonymousRole :: string where "AnonymousRole = ''anonymous''"

text \<open>A nil role list (refused on creation) is told from an empty one.\<close>

record account =
  a_username :: string
  a_roles :: "string list option"
  a_salt :: string
  a_password :: string
  a_namespace :: string
  a_domain_namespaces :: "string list"

definition IsAttachedTo :: "account \<Rightarrow> string \<Rightarrow> bool" where
  "IsAttachedTo acc ns = contains (a_domain_namespaces acc) ns"

definition roles_of :: "account \<Rightarrow> string list" where
  "roles_of acc = (case a_roles acc of None \<Rightarrow> [] | Some rs \<Rightarrow> rs)"

definition HasRoles :: "account \<Rightarrow> string list \<Rightarrow> bool" where
  "HasRoles acc expectedRoles = list_ex (\<lambda>p. list_ex (\<lambda>e. p = e) expectedRoles) (roles_of acc)"

definition comma_char :: char where "comma_char = CHR '',''"

definition GetNamespaces :: "account \<Rightarrow> string list" where
  "GetNamespaces acc = split_on comma_char (a_namespace acc)"

definition HasAccessToNamespace :: "account option \<Rightarrow> string \<Rightarrow> bool" where
  "HasAccessToNamespace acc ns = (case acc of None \<Rightarrow> False
     | Some a \<Rightarrow> if a_namespace a = ManagerAccountNamespace then True
                else list_ex (\<lambda>n. ns = n) (GetNamespaces a))"

lemma HasRoles_iff: "HasRoles acc rs \<longleftrightarrow> set (roles_of acc) \<inter> set rs \<noteq> {}"
  by (auto simp: HasRoles_def list_ex_iff)

lemma HasRoles_mono: "HasRoles acc rs \<Longrightarrow> set rs \<subseteq> set rs' \<Longrightarrow> HasRoles acc rs'"
  by (auto simp: HasRoles_iff)

section \<open>Request and security contexts (model/security_context.go, model/request_context.go)\<close>

record security_context =
  sc_account :: "account option"
  sc_isolation_disabled :: bool

record request_context =
  rc_namespace :: string
  rc_microservice :: string
  rc_version :: string

text \<open>The values a \<open>context.Context\<close> carries; reading an absent one gives nil.\<close>

record ctx =
  ctx_security :: "security_context option"
  ctx_request :: "request_context option"

definition UserHasRoles :: "security_context option \<Rightarrow> string list \<Rightarrow> bool" where
  "UserHasRoles sc rs = (case sc of None \<Rightarrow> False | Some s \<Rightarrow>
     (case sc_account s of None \<Rightarrow> False | Some a \<Rightarrow> HasRoles a rs))"

definition UserHasAccessToNamespace :: "security_context option \<Rightarrow> string \<Rightarrow> bool" where
  "UserHasAccessToNamespace sc ns = (case sc of None \<Rightarrow> False | Some s \<Rightarrow>
     (case sc_account s of None \<Rightarrow> False | Some a \<Rightarrow> HasAccessToNamespace (Some a) ns))"

definition IsCompositeIsolationDisabled :: "security_context option \<Rightarrow> bool" where
  "IsCompositeIsolationDisabled sc = (case sc of None \<Rightarrow> False | Some s \<Rightarrow> sc_isolation_disabled s)"

section \<open>Classifiers (model/classifier.go)\<close>

record classifier =
  c_name :: string
  c_namespace :: string
  c_tenant :: string

definition CheckAllowedNamespaces :: "classifier \<Rightarrow> string list \<Rightarrow> unit outcome" where
  "CheckAllowedNamespaces cl allowed =
     (if length allowed = 0 then Inl BadRequest
      else if \<not> contains allowed (c_namespace cl) then Inl AuthError
      else Inr ())"

definition classifier_IsEmpty :: "classifier \<Rightarrow> bool" where
  "classifier_IsEmpty cl = (c_name cl = [] \<and> c_namespace cl = [] \<and> c_tenant cl = [])"

definition ValidateClassifier :: "classifier \<Rightarrow> unit outcome" where
  "ValidateClassifier cl = (if c_name cl \<noteq> [] \<and> c_namespace cl \<noteq> [] then Inr () else Inl BadRequest)"

lemma CheckAllowedNamespaces_ok: "CheckAllowedNamespaces cl allowed = Inr () \<longleftrightarrow> c_namespace cl \<in> set allowed"
  by (auto simp: CheckAllowedNamespaces_def)

section \<open>Versions\<close>

text \<open>\<open>ParseVersion\<close>: the regular expression is an optional \<open>v\<close> and at least one digit.\<close>

definition v_char :: char where "v_char = CHR ''v''"

definition ParseVersion :: "string \<Rightarrow> string outcome" where
  "ParseVersion version =
     (let v = trim_space version;
          ds = (if v \<noteq> [] \<and> hd v = v_char then tl v else v)
      in if v = [] then Inr []
         else if ds \<noteq> [] \<and> list_all is_digit ds then Inr (v_char # ds)
         else Inl Generic)"

text \<open>
  \<open>bgVersionValidation\<close> (validator/validation.go): the class \<open>[V,v]\<close> of its regular
  expression also holds the comma.
\<close>

definition bgVersionValidation :: "string \<Rightarrow> bool" where
  "bgVersionValidation v =
     (v \<noteq> [] \<and> hd v \<in> {CHR ''V'', comma_char, v_char} \<and> tl v \<noteq> [] \<and> list_all is_digit (tl v))"

lemma digit_not_space: "is_digit c \<Longrightarrow> \<not> is_space c"
  by (auto simp: is_digit_def is_space_def)

lemma trim_no_space: "(\<And>c. c \<in> set s \<Longrightarrow> \<not> is_space c) \<Longrightarrow> trim_space s = s"
proof -
  assume ns: "\<And>c. c \<in> set s \<Longrightarrow> \<not> is_space c"
  have d: "dropWhile is_space t = t" if "set t \<subseteq> set s" for t
    using that ns by (cases t) auto
  show ?thesis by (simp add: trim_space_def d)
qed

lemma ParseVersion_canonical:
  assumes "ParseVersion s = Inr v" "v \<noteq> []"
  shows "\<exists>ds. v = v_char # ds \<and> ds \<noteq> [] \<and> list_all is_digit ds"
  using assms by (auto simp: ParseVersion_def Let_def split: if_splits)

lemma ParseVersion_fix:
  assumes "ds \<noteq> []" "list_all is_digit ds"
  shows "ParseVersion (v_char # ds) = Inr (v_char # ds)"
proof -
  have "\<not> is_space v_char" by (simp add: is_space_def v_char_def)
  then have "trim_space (v_char # ds) = v_char # ds"
    using assms by (intro trim_no_space) (auto simp: list_all_iff digit_not_space)
  then show ?thesis using assms by (simp add: ParseVersion_def)
qed

end
