(* ===== verification/Maas_Topic_Model.thy ===== *)
theory Maas_Topic_Model
  imports Maas_Model
begin

text \<open>
  The kafka part of the package model: topic settings and their comparison
  (model/kafka_model.go), instances and registrations, and the conversion of a registration
  request to a topic or to a topic definition and back (model/dto.go).  \<open>*int32\<close> and
  \<open>*int16\<close> are optional words.
\<close>

section \<open>Topic settings (model/kafka_model.go)\<close>

type_synonym int32 = "32 word"
type_synonym int16 = "16 word"
type_synonym configs = "(string \<times> string option) list"
type_synonym assignment = "(int32 \<times> int32 list) list"

record topic_settings =
  num_partitions :: "int32 option"
  min_num_partitions :: "int32 option"
  replication_factor :: "int16 option"
  replica_assignment :: assignment
  configs :: configs
  versioned :: bool

definition IsEmpty :: "'w::len word option \<Rightarrow> bool" where
  "IsEmpty p = (p = None \<or> p = Some (- 1) \<or> p = Some 0)"

text \<open>
  The comparison of two optional numbers the code repeats for each of them: nil and -1 are the
  same.  Equal pointers hold equal numbers, so the comparison of values covers that test.
\<close>

definition num_eq :: "'w::len word option \<Rightarrow> 'w word option \<Rightarrow> bool" where
  "num_eq a b =
     (if a = None \<or> a = Some (- 1)
      then \<not> (b \<noteq> None \<and> b \<noteq> Some (- 1))
      else \<not> (b = None \<or> a \<noteq> b))"

definition assignments_equal :: "assignment \<Rightarrow> assignment \<Rightarrow> bool" where
  "assignments_equal m1 m2 =
     (if length m1 \<noteq> length m2 then False
      else if length m1 > 0 then
        list_all (\<lambda>(k, v). case map_of m2 k of None \<Rightarrow> False | Some v2 \<Rightarrow> SlicesAreEqualInt32 v v2) m1
      else True)"

definition ReadOnlySettingsAreEqual :: "topic_settings \<Rightarrow> topic_settings option \<Rightarrow> bool" where
  "ReadOnlySettingsAreEqual s a = (case a of None \<Rightarrow> False | Some t \<Rightarrow>
     num_eq (num_partitions s) (num_partitions t) \<and>
     num_eq (min_num_partitions s) (min_num_partitions t) \<and>
     num_eq (replication_factor s) (replication_factor t) \<and>
     assignments_equal (replica_assignment s) (replica_assignment t))"

definition ConfigsAreEqual :: "topic_settings \<Rightarrow> topic_settings \<Rightarrow> bool" where
  "ConfigsAreEqual s t = StringMapsAreEqual (configs s) (configs t)"

definition settings_Equals :: "topic_settings \<Rightarrow> topic_settings option \<Rightarrow> bool" where
  "settings_Equals s a =
     (if \<not> ReadOnlySettingsAreEqual s a then False
      else case a of None \<Rightarrow> False | Some t \<Rightarrow> ConfigsAreEqual s t)"

definition ActualNumPartitions :: "topic_settings \<Rightarrow> int32" where
  "ActualNumPartitions s =
     (if \<not> IsEmpty (min_num_partitions s) then the (min_num_partitions s)
      else if \<not> IsEmpty (num_partitions s) then the (num_partitions s)
      else 1)"

text \<open>\<open>GetSettings\<close> of a registration and of a template leaves \<open>Versioned\<close> at its zero value.\<close>

definition GetSettings :: "topic_settings \<Rightarrow> topic_settings" where
  "GetSettings s = s\<lparr>versioned := False\<rparr>"

definition SetSettings :: "topic_settings \<Rightarrow> topic_settings \<Rightarrow> topic_settings" where
  "SetSettings topic new = topic\<lparr>num_partitions := num_partitions new,
     min_num_partitions := min_num_partitions new, replication_factor := replication_factor new,
     replica_assignment := replica_assignment new, configs := configs new\<rparr>"

section \<open>Kafka instances\<close>

datatype kafka_role = Admin | Client

record kafka_credentials =
  kc_type :: string
  kc_username :: string
  kc_password :: string
  kc_client_key :: string
  kc_client_cert :: string

record kafka_instance =
  ki_id :: string
  ki_addresses :: "(string \<times> string list) list"
  ki_default :: bool
  ki_protocol :: string
  ki_ca_cert :: string
  ki_credentials :: "(kafka_role \<times> kafka_credentials list) list"

definition Plaintext :: string where "Plaintext = ''PLAINTEXT''"

definition kafka_FillDefaults :: "kafka_instance \<Rightarrow> kafka_instance" where
  "kafka_FillDefaults i = (if length (ki_protocol i) = 0 then i\<lparr>ki_protocol := Plaintext\<rparr> else i)"

record classifier_match =
  cm_name :: string
  cm_namespace :: string
  cm_tenant :: string
  cm_instance :: string

section \<open>Registration requests (model/dto.go)\<close>

text \<open>
  The dynamic type of a number field of a request (\<open>interface{}\<close>): a string, an int, a pointer
  to an int, a \<open>json.Number\<close>, or a float64.  Of a float the code uses its truncation and its
  \<open>%v\<close> text, so the model keeps these two.
\<close>

datatype req_num = RNil | RStr string | RInt int | RPtr int | RNumber string | RFloat int string

record reg_dto =
  rq_name :: string
  rq_classifier :: classifier
  rq_externally_managed :: bool
  rq_instance :: string
  rq_num_partitions :: req_num
  rq_min_num_partitions :: req_num
  rq_replication_factor :: req_num
  rq_replica_assignment :: assignment
  rq_configs :: configs
  rq_template :: string
  rq_versioned :: bool

record topic_template =
  tt_id :: nat
  tt_name :: string
  tt_namespace :: string
  tt_settings :: topic_settings
  tt_domain_namespaces :: "string list"

text \<open>
  A registered topic.  The request it was created by is kept as JSON; the model keeps the request
  itself, \<open>None\<close> for the empty string.
\<close>

record topic =
  t_id :: nat
  t_classifier :: classifier
  t_topic :: string
  t_instance :: string
  t_namespace :: string
  t_externally_managed :: bool
  t_settings :: topic_settings
  t_template :: "nat option"
  t_dirty :: bool
  t_tenant :: "nat option"
  t_create_req :: "reg_dto option"
  t_instance_ref :: "kafka_instance option"

definition SettingsAreEqual :: "topic \<Rightarrow> topic \<Rightarrow> bool" where
  "SettingsAreEqual topic another =
     (if t_template topic \<noteq> t_template another then False
      else if \<not> num_eq (num_partitions (t_settings topic)) (num_partitions (t_settings another)) then False
      else if \<not> num_eq (min_num_partitions (t_settings topic)) (min_num_partitions (t_settings another)) then False
      else if \<not> num_eq (replication_factor (t_settings topic)) (replication_factor (t_settings another)) then False
      else if \<not> assignments_equal (replica_assignment (t_settings topic)) (replica_assignment (t_settings another)) then False
      else if versioned (t_settings topic) \<noteq> versioned (t_settings another) then False
      else StringMapsAreEqual (configs (t_settings topic)) (configs (t_settings another)))"

definition topic_Equals :: "topic \<Rightarrow> topic option \<Rightarrow> bool" where
  "topic_Equals topic a = (case a of None \<Rightarrow> False | Some another \<Rightarrow>
     if t_topic topic \<noteq> t_topic another \<or> t_instance topic \<noteq> t_instance another then False
     else SettingsAreEqual topic another)"

record topic_dto =
  td_addresses :: "(string \<times> string list) list"
  td_name :: string
  td_classifier :: classifier
  td_namespace :: string
  td_externally_managed :: bool
  td_instance :: string
  td_ca_cert :: string
  td_credentials :: "(kafka_role \<times> kafka_credentials list) list"
  td_instance_ref :: "kafka_instance option"
  td_requested :: topic_settings
  td_actual :: topic_settings
  td_template :: string
  td_versioned :: bool

definition no_settings :: topic_settings where
  "no_settings = \<lparr>num_partitions = None, min_num_partitions = None, replication_factor = None,
     replica_assignment = [], configs = [], versioned = False\<rparr>"

text \<open>\<open>ToResponseDto\<close> panics on a topic whose instance was not loaded.\<close>

definition ToResponseDto :: "topic \<Rightarrow> topic_dto outcome" where
  "ToResponseDto t = (case t_instance_ref t of
      None \<Rightarrow> Inl GoPanic
    | Some i \<Rightarrow> Inr \<lparr>td_addresses = ki_addresses i, td_name = t_topic t, td_classifier = t_classifier t,
        td_namespace = t_namespace t, td_externally_managed = t_externally_managed t,
        td_instance = t_instance t, td_ca_cert = ki_ca_cert i,
        td_credentials = (case map_of (ki_credentials i) Client of
            Some (c # cs) \<Rightarrow> [(Client, c # cs)] | _ \<Rightarrow> []),
        td_instance_ref = Some i,
        td_requested = (t_settings t)\<lparr>versioned := False\<rparr>, td_actual = no_settings,
        td_template = [], td_versioned = versioned (t_settings t)\<rparr>)"

section \<open>Requests to registrations and definitions\<close>

text \<open>The text \<open>fmt.Sprintf\<close> gives for a number field; a nil field has none.\<close>

fun num_text :: "req_num \<Rightarrow> string" where
  "num_text RNil = []"
| "num_text (RStr s) = s"
| "num_text (RInt i) = int_digits i"
| "num_text (RPtr i) = int_digits i"
| "num_text (RNumber s) = s"
| "num_text (RFloat i s) = s"

definition getNumPartitionsFromRequest :: "req_num \<Rightarrow> int32 option outcome" where
  "getNumPartitionsFromRequest v =
     (if num_text v = [] \<or> num_text v = ''0'' then Inr (Some 0)
      else case atoi (num_text v) of
        Some n \<Rightarrow> Inr (Some (word_of_int n))
      | None \<Rightarrow> Inl Generic)"

definition getMinNumPartitionsFromRequest :: "req_num \<Rightarrow> int32 option outcome" where
  "getMinNumPartitionsFromRequest v =
     (if num_text v = [] \<or> num_text v = ''0'' then Inr (Some 0)
      else case atoi (num_text v) of
        Some n \<Rightarrow> Inr (Some (word_of_int n))
      | None \<Rightarrow> Inl Generic)"

definition getReplicationFactorFromRequest :: "req_num \<Rightarrow> int16 option outcome" where
  "getReplicationFactorFromRequest v =
     (if num_text v = [] \<or> num_text v = ''0'' then Inr (Some 0)
      else if num_text v = ''inherit'' then Inr None
      else case atoi (num_text v) of
        Some n \<Rightarrow> Inr (Some (word_of_int n))
      | None \<Rightarrow> Inl Generic)"

definition requested_settings :: "reg_dto \<Rightarrow> topic_settings outcome" where
  "requested_settings r =
     (case getNumPartitionsFromRequest (rq_num_partitions r) of Inl e \<Rightarrow> Inl e | Inr n \<Rightarrow>
      case getMinNumPartitionsFromRequest (rq_min_num_partitions r) of Inl e \<Rightarrow> Inl e | Inr mn \<Rightarrow>
      case getReplicationFactorFromRequest (rq_replication_factor r) of Inl e \<Rightarrow> Inl e | Inr rf \<Rightarrow>
      Inr \<lparr>num_partitions = n, min_num_partitions = mn, replication_factor = rf,
           replica_assignment = rq_replica_assignment r, configs = rq_configs r,
           versioned = rq_versioned r\<rparr>)"

definition BuildTopicRegFromReq :: "reg_dto \<Rightarrow> topic_template option \<Rightarrow> topic outcome" where
  "BuildTopicRegFromReq r tmpl =
     (case (if rq_template r \<noteq> [] then
              (case tmpl of None \<Rightarrow> Inl BadRequest
               | Some t \<Rightarrow> Inr (GetSettings (tt_settings t), tt_id t))
            else (case requested_settings r of Inl e \<Rightarrow> Inl e | Inr s \<Rightarrow> Inr (s, 0))) of
        Inl e \<Rightarrow> Inl e
      | Inr (settings, templateId) \<Rightarrow>
          Inr \<lparr>t_id = 0, t_classifier = rq_classifier r, t_topic = rq_name r, t_instance = rq_instance r,
               t_namespace = c_namespace (rq_classifier r),
               t_externally_managed = rq_externally_managed r, t_settings = settings,
               t_template = (if templateId = 0 then None else Some templateId),
               t_dirty = False, t_tenant = None, t_create_req = Some r, t_instance_ref = None\<rparr>)"

record topic_definition =
  df_id :: nat
  df_classifier :: classifier
  df_namespace :: string
  df_name :: string
  df_instance :: string
  df_num_partitions :: int
  df_min_num_partitions :: int
  df_replication_factor :: int
  df_replica_assignment :: assignment
  df_configs :: configs
  df_template :: string
  df_kind :: string
  df_versioned :: bool

definition TopicDefinitionKindLazy :: string where "TopicDefinitionKindLazy = ''lazy''"
definition TopicDefinitionKindTenant :: string where "TopicDefinitionKindTenant = ''tenant''"

text \<open>
  The type switch of \<open>ToTopicDefinition\<close>: a string or a \<open>json.Number\<close> is parsed, an int and a
  float are converted, every other type is left at zero.
\<close>

fun num_of_req :: "req_num \<Rightarrow> int outcome" where
  "num_of_req (RStr s) = (case atoi s of Some n \<Rightarrow> Inr n | None \<Rightarrow> Inl Generic)"
| "num_of_req (RNumber s) = (case atoi s of Some n \<Rightarrow> Inr n | None \<Rightarrow> Inl Generic)"
| "num_of_req (RInt i) = Inr i"
| "num_of_req (RFloat i s) = Inr i"
| "num_of_req RNil = Inr 0"
| "num_of_req (RPtr i) = Inr 0"

definition repl_of_req :: "req_num \<Rightarrow> int outcome" where
  "repl_of_req v = (if v = RStr ''inherit'' then Inr (- 1) else num_of_req v)"

definition ToTopicDefinition :: "reg_dto \<Rightarrow> string \<Rightarrow> string \<Rightarrow> topic_definition outcome" where
  "ToTopicDefinition r namespace kind =
     (case num_of_req (rq_num_partitions r) of Inl e \<Rightarrow> Inl e | Inr n \<Rightarrow>
      case repl_of_req (rq_replication_factor r) of Inl e \<Rightarrow> Inl e | Inr rf \<Rightarrow>
      case num_of_req (rq_min_num_partitions r) of Inl e \<Rightarrow> Inl e | Inr mn \<Rightarrow>
      Inr \<lparr>df_id = 0, df_classifier = rq_classifier r, df_namespace = namespace, df_name = rq_name r,
           df_instance = rq_instance r, df_num_partitions = n, df_min_num_partitions = mn,
           df_replication_factor = rf, df_replica_assignment = rq_replica_assignment r,
           df_configs = rq_configs r, df_template = rq_template r, df_kind = kind,
           df_versioned = rq_versioned r\<rparr>)"

definition zeroToNil :: "int \<Rightarrow> req_num" where
  "zeroToNil v = (if v = 0 then RNil else RInt v)"

text \<open>The classifier goes through JSON and back, which gives the same three strings.\<close>

definition MakeTopicDefinitionResponse :: "topic_definition \<Rightarrow> reg_dto" where
  "MakeTopicDefinitionResponse d =
     \<lparr>rq_name = df_name d, rq_classifier = df_classifier d, rq_externally_managed = False,
      rq_instance = df_instance d,
      rq_num_partitions = zeroToNil (Iff (df_num_partitions d = 0 \<and> df_min_num_partitions d = 0) 1 (df_num_partitions d)),
      rq_min_num_partitions = zeroToNil (df_min_num_partitions d),
      rq_replication_factor = RInt (Iff (df_replication_factor d = 0) 1 (df_replication_factor d)),
      rq_replica_assignment = df_replica_assignment d, rq_configs = df_configs d,
      rq_template = df_template d, rq_versioned = df_versioned d\<rparr>"

record topic_search =
  ts_classifier :: classifier
  ts_topic :: string
  ts_namespace :: string
  ts_instance :: string
  ts_template :: nat
  ts_leave_intact :: bool
  ts_versioned :: "bool option"

definition search_IsEmpty :: "topic_search \<Rightarrow> bool" where
  "search_IsEmpty r = (classifier_IsEmpty (ts_classifier r) \<and> ts_topic r = [] \<and>
     ts_namespace r = [] \<and> ts_instance r = [] \<and> ts_template r = 0)"

section \<open>Comparison of settings\<close>

definition norm_num :: "'w::len word option \<Rightarrow> 'w word option" where
  "norm_num p = (if p = Some (- 1) then None else p)"

lemma num_eq_iff: "num_eq a b \<longleftrightarrow> norm_num a = norm_num b"
  by (auto simp: num_eq_def norm_num_def)

lemma assignments_equal_iff:
  assumes "distinct (keys m1)" "distinct (keys m2)"
  shows "assignments_equal m1 m2 \<longleftrightarrow> map_of m1 = map_of m2"
proof -
  have "SlicesAreEqualInt32 v w = (v = w)" for v w by simp
  then have "assignments_equal m1 m2 = StringMapsAreEqual m1 m2"
    by (simp only: assignments_equal_def StringMapsAreEqual_def) simp
  then show ?thesis using StringMapsAreEqual_iff [OF assms] by simp
qed

text \<open>Keys of a Go map are distinct.\<close>

definition settings_wf :: "topic_settings \<Rightarrow> bool" where
  "settings_wf s \<longleftrightarrow> distinct (keys (replica_assignment s)) \<and> distinct (keys (configs s))"

text \<open>What two registrations are compared by: the specification of \<open>SettingsAreEqual\<close>.\<close>

definition settings_view ::
  "topic \<Rightarrow> nat option \<times> int32 option \<times> int32 option \<times> int16 option \<times>
     (int32 \<rightharpoonup> int32 list) \<times> bool \<times> (string \<rightharpoonup> string option)" where
  "settings_view t = (let s = t_settings t in
     (t_template t, norm_num (num_partitions s), norm_num (min_num_partitions s),
      norm_num (replication_factor s), map_of (replica_assignment s), versioned s, map_of (configs s)))"

lemma SettingsAreEqual_view:
  assumes "settings_wf (t_settings t)" "settings_wf (t_settings u)"
  shows "SettingsAreEqual t u \<longleftrightarrow> settings_view t = settings_view u"
  using assms
  by (auto simp: SettingsAreEqual_def settings_view_def Let_def num_eq_iff settings_wf_def
      assignments_equal_iff StringMapsAreEqual_iff)

lemma SettingsAreEqual_refl: "settings_wf (t_settings t) \<Longrightarrow> SettingsAreEqual t t"
  by (simp add: SettingsAreEqual_view)

section \<open>Requests and definitions\<close>

definition int64 :: "int \<Rightarrow> bool" where
  "int64 n \<longleftrightarrow> - (2 ^ 63) \<le> n \<and> n < 2 ^ 63"

text \<open>The forms a number has after JSON decoding; an int stays an int, a float is integral.\<close>

fun plain_num :: "req_num \<Rightarrow> bool" where
  "plain_num (RPtr i) = False"
| "plain_num (RInt i) = int64 i"
| "plain_num (RFloat i s) = (int64 i \<and> s = int_digits i)"
| "plain_num _ = True"

lemma atoi_range: "atoi s = Some n \<Longrightarrow> int64 n"
  by (auto simp: atoi_def int64_def Let_def split: if_splits)

lemma atoi_zero [simp]: "atoi ''0'' = Some n \<longleftrightarrow> n = 0"
  by (auto simp: atoi_def digits_val_def digit_val_def is_digit_def minus_char_def plus_char_def)

lemma atoi_empty [simp]: "atoi [] = None"
  by (simp add: atoi_def)

lemma int_digits_ne [simp]: "int_digits i \<noteq> []"
  by (simp add: int_digits_def)

lemma int_digits_atoi: "int64 i \<Longrightarrow> atoi (int_digits i) = Some i"
  by (simp add: int64_def atoi_int_digits)

lemma int_digits_not_inherit: "int_digits i \<noteq> ''inherit''"
proof
  assume h: "int_digits i = ''inherit''"
  have "hd (int_digits i) = minus_char \<or> is_digit (hd (int_digits i))"
    using nat_digits_all [of "nat i"] by (auto simp: int_digits_def list_all_iff)
  then show False by (simp add: h minus_char_def is_digit_def)
qed

lemma req_num_atoi:
  assumes "plain_num v" "num_of_req v = Inr n"
  shows "int64 n \<and> (num_text v = [] \<and> n = 0 \<or> num_text v \<noteq> [] \<and> atoi (num_text v) = Some n)"
  using assms by (cases v) (auto split: option.splits simp: int64_def [of 0] int_digits_atoi dest: atoi_range)

lemma getNumPartitions_req:
  assumes "plain_num v" "num_of_req v = Inr n"
  shows "getNumPartitionsFromRequest v = Inr (Some (word_of_int n))"
  using req_num_atoi [OF assms] by (auto simp: getNumPartitionsFromRequest_def)

lemma getMinNumPartitions_req:
  assumes "plain_num v" "num_of_req v = Inr n"
  shows "getMinNumPartitionsFromRequest v = Inr (Some (word_of_int n))"
  using req_num_atoi [OF assms] by (auto simp: getMinNumPartitionsFromRequest_def)

lemma getReplication_req:
  assumes "plain_num v" "repl_of_req v = Inr n"
  shows "getReplicationFactorFromRequest v = Inr (if v = RStr ''inherit'' then None else Some (word_of_int n))"
proof (cases "v = RStr ''inherit''")
  case False
  with assms(2) have n: "num_of_req v = Inr n" by (simp add: repl_of_req_def)
  have "num_text v \<noteq> ''inherit''"
  proof
    assume t: "num_text v = ''inherit''"
    have "atoi ''inherit'' = None" by (simp add: atoi_def is_digit_def minus_char_def plus_char_def)
    with req_num_atoi [OF assms(1) n] t show False by simp
  qed
  with req_num_atoi [OF assms(1) n] False show ?thesis
    by (auto simp: getReplicationFactorFromRequest_def)
qed (simp add: getReplicationFactorFromRequest_def)

lemma num_of_zeroToNil [simp]: "num_of_req (zeroToNil n) = Inr n"
  by (simp add: zeroToNil_def)

lemma plain_zeroToNil [simp]: "int64 n \<Longrightarrow> plain_num (zeroToNil n)"
  by (simp add: zeroToNil_def)

lemma int64_Iff: "int64 n \<Longrightarrow> int64 (Iff b 1 n)"
  by (simp add: Iff_def int64_def)

text \<open>The settings of a request and of the definition made from it.\<close>

lemma requested_settings_req:
  assumes "plain_num (rq_num_partitions r)" "plain_num (rq_min_num_partitions r)" "plain_num (rq_replication_factor r)"
    and "ToTopicDefinition r ns kind = Inr d"
  shows "requested_settings r = Inr \<lparr>num_partitions = Some (word_of_int (df_num_partitions d)),
      min_num_partitions = Some (word_of_int (df_min_num_partitions d)),
      replication_factor = (if rq_replication_factor r = RStr ''inherit'' then None
                            else Some (word_of_int (df_replication_factor d))),
      replica_assignment = df_replica_assignment d, configs = df_configs d, versioned = df_versioned d\<rparr>"
    and "int64 (df_num_partitions d) \<and> int64 (df_min_num_partitions d) \<and> int64 (df_replication_factor d)"
    and "rq_replication_factor r = RStr ''inherit'' \<longrightarrow> df_replication_factor d = - 1"
  using assms req_num_atoi
  by (auto simp: ToTopicDefinition_def requested_settings_def getNumPartitions_req getMinNumPartitions_req
      getReplication_req repl_of_req_def int64_def [of "- 1"] split: sum.splits if_splits)

lemma requested_settings_definition:
  assumes "int64 (df_num_partitions d)" "int64 (df_min_num_partitions d)" "int64 (df_replication_factor d)"
  shows "requested_settings (MakeTopicDefinitionResponse d) = Inr \<lparr>
      num_partitions = Some (word_of_int (if df_num_partitions d = 0 \<and> df_min_num_partitions d = 0 then 1 else df_num_partitions d)),
      min_num_partitions = Some (word_of_int (df_min_num_partitions d)),
      replication_factor = Some (word_of_int (if df_replication_factor d = 0 then 1 else df_replication_factor d)),
      replica_assignment = df_replica_assignment d, configs = df_configs d, versioned = df_versioned d\<rparr>"
proof -
  let ?n = "Iff (df_num_partitions d = 0 \<and> df_min_num_partitions d = 0) 1 (df_num_partitions d)"
  let ?r = "Iff (df_replication_factor d = 0) 1 (df_replication_factor d)"
  have 1: "getNumPartitionsFromRequest (zeroToNil ?n) = Inr (Some (word_of_int ?n))"
    by (rule getNumPartitions_req) (simp_all add: assms int64_Iff)
  have 2: "getMinNumPartitionsFromRequest (zeroToNil (df_min_num_partitions d)) = Inr (Some (word_of_int (df_min_num_partitions d)))"
    by (rule getMinNumPartitions_req) (simp_all add: assms)
  have 3: "getReplicationFactorFromRequest (RInt ?r) = Inr (Some (word_of_int ?r))"
    by (subst getReplication_req [where n = ?r]) (simp_all add: repl_of_req_def assms int64_Iff)
  show ?thesis unfolding requested_settings_def MakeTopicDefinitionResponse_def
    by (simp add: 1 2 3) (simp add: Iff_def)
qed

end
