(* ===== verification/Maas_Json.thy ===== *)
theory Maas_Json
  imports Maas_Topic_Model
begin

text \<open>
  JSON values as the code handles them (\<open>interface{}\<close>, \<open>map[string]interface{}\<close>), and the fields
  it extracts from entities of RabbitMQ (utils/utils.go).  Numbers are kept as their text.  An
  object lists its fields by their names in order, as \<open>json.Marshal\<close> writes a map, so that equal
  objects are equal values.
\<close>

datatype json = JNull | JBool bool | JNum string | JStr string | JArr "json list" | JObj "(string \<times> json) list"

type_synonym jobject = "(string \<times> json) list"

primrec insert_field :: "string \<Rightarrow> json \<Rightarrow> jobject \<Rightarrow> jobject" where
  "insert_field k v [] = [(k, v)]"
| "insert_field k v (f # fs) =
     (if k = fst f then (k, v) # fs
      else if ord_class.lexordp (map (of_char :: char \<Rightarrow> nat) k) (map of_char (fst f)) then (k, v) # f # fs
      else f # insert_field k v fs)"

definition object_of :: "(string \<times> json) list \<Rightarrow> jobject" where
  "object_of fs = fold (\<lambda>(k, v). insert_field k v) fs []"

text \<open>
  Reading a field into a string: the decoder matches names without regard to case, the last
  match counts, null leaves the zero value and any other type is an error.
\<close>

definition text_field :: "string \<Rightarrow> jobject \<Rightarrow> string outcome" where
  "text_field n fs = foldl (\<lambda>r (k, v). case r of Inl e \<Rightarrow> Inl e | Inr s \<Rightarrow>
      if to_lower k = n then (case v of JStr x \<Rightarrow> Inr x | JNull \<Rightarrow> Inr s | _ \<Rightarrow> Inl Generic) else Inr s) (Inr []) fs"

definition text_of :: "string \<Rightarrow> json \<Rightarrow> string outcome" where
  "text_of n x = (case x of JObj fs \<Rightarrow> text_field n fs | JNull \<Rightarrow> Inr [] | _ \<Rightarrow> Inl Generic)"

definition ExtractName :: "json \<Rightarrow> string outcome" where
  "ExtractName x = (case text_of ''name'' x of Inl e \<Rightarrow> Inl e | Inr n \<Rightarrow> if n \<noteq> [] then Inr n else Inl BadRequest)"

definition ExtractSourceAndDestination :: "json \<Rightarrow> (string \<times> string) outcome" where
  "ExtractSourceAndDestination x =
     (case text_of ''source'' x of Inl e \<Rightarrow> Inl e | Inr s \<Rightarrow>
      (case text_of ''destination'' x of Inl e \<Rightarrow> Inl e | Inr d \<Rightarrow>
        if s \<noteq> [] \<and> d \<noteq> [] then Inr (s, d) else Inl Generic))"

definition ExtractPropKey :: "json \<Rightarrow> string outcome" where
  "ExtractPropKey x =
     (case x of
        JObj fs \<Rightarrow> (case map_of fs ''properties_key'' of
            None \<Rightarrow> Inl Generic | Some JNull \<Rightarrow> Inl Generic | Some (JStr s) \<Rightarrow> Inr s | Some _ \<Rightarrow> Inl GoPanic)
      | JNull \<Rightarrow> Inl Generic
      | _ \<Rightarrow> Inl Generic)"

text \<open>The value of a field of a decoded map, nil when there is none.\<close>

definition field_of :: "string \<Rightarrow> jobject \<Rightarrow> json" where
  "field_of n fs = (case map_of fs n of None \<Rightarrow> JNull | Some v \<Rightarrow> v)"

text \<open>\<open>m[n].(string)\<close> panics on anything but a string.\<close>

definition string_field :: "string \<Rightarrow> jobject \<Rightarrow> string outcome" where
  "string_field n fs = (case field_of n fs of JStr s \<Rightarrow> Inr s | _ \<Rightarrow> Inl GoPanic)"

lemma insert_field_lookup: "map_of (insert_field k v fs) = (map_of fs)(k \<mapsto> v)"
  by (induction fs) auto

lemma insert_field_idem: "insert_field k v (insert_field k v' fs) = insert_field k v fs"
proof (induction fs)
  case (Cons f fs)
  then show ?case by (cases f) simp
qed simp

end
