(* ===== verification/Maas_Tables.thy ===== *)
theory Maas_Tables
  imports Maas_Json
begin

text \<open>
  The rows of the database, by the entities that map them (gorm) and the migrations that create
  the tables (dao/schema).  Serial keys are drawn from one counter; a rolled back transaction
  gives its numbers back, which no code can tell from a gap.
\<close>

record bg_namespace =
  ns_name :: string
  ns_state :: string
  ns_version :: string

record bg_domain_row =
  d_id :: nat
  d_controller :: "string option"
  d_origin :: string
  d_peer :: string

record bg_state_row =
  s_id :: nat
  s_domain :: nat
  s_origin :: bg_namespace
  s_peer :: bg_namespace
  s_time :: int

record composite_row =
  cr_id :: nat
  cr_base :: string
  cr_namespace :: string

record composite_property =
  cp_composite :: nat
  cp_modify_index :: nat

record topic_classifier_row =
  tc_id :: nat
  tc_topic :: nat
  tc_classifier :: classifier

record definition_classifier_row =
  dc_id :: nat
  dc_definition :: nat
  dc_classifier :: classifier

record designator_row =
  dg_id :: nat
  dg_namespace :: string
  dg_default :: "string option"

record selector_row =
  sl_id :: nat
  sl_designator :: nat
  sl_match :: classifier_match
  sl_instance :: string

record rabbit_instance =
  ri_id :: string
  ri_api_url :: string
  ri_amqp_url :: string
  ri_user :: string
  ri_password :: string
  ri_default :: bool

record tenant =
  tn_id :: nat
  tn_namespace :: string
  tn_external_id :: string

text \<open>
  Custom resources waiting for a dependency.  The specification is kept as its JSON text, the
  reason as the error whose text is stored.
\<close>

record custom_resource =
  rs_api_version :: string
  rs_kind :: string
  rs_sub_kind :: string
  rs_name :: string
  rs_namespace :: string
  rs_spec :: string

datatype wait_status = NotStarted | InProgress | Completed | Failed | Terminated

record wait_row =
  wt_id :: nat
  wt_resource :: custom_resource
  wt_namespace :: string
  wt_reason :: err
  wt_status :: wait_status

text \<open>
  Virtual hosts and what was declared in them.  The column \<open>classifier\<close> holds the JSON text of a
  classifier, which tells classifiers apart; a nullable text is an option, and so is a JSON column
  (a missing entity is stored as null).
\<close>

record vhost =
  vh_id :: nat
  vh_vhost :: string
  vh_user :: string
  vh_password :: string
  vh_namespace :: string
  vh_instance :: string
  vh_classifier :: classifier

datatype entity_type = ExchangeType | QueueType | BindingType

record rabbit_entity =
  re_id :: nat
  re_vhost :: nat
  re_namespace :: string
  re_classifier :: classifier
  re_type :: entity_type
  re_name :: "string option"
  re_source :: "string option"
  re_destination :: "string option"
  re_client :: "jobject option"
  re_rabbit :: "jobject option"

text \<open>Configurations of microservices for a version, and the entities they declare (dao/schema/10).\<close>

record ms_config =
  mc_id :: nat
  mc_namespace :: string
  mc_name :: string
  mc_vhost :: nat
  mc_candidate :: string
  mc_actual :: string

record versioned_entity =
  ve_id :: nat
  ve_config :: nat
  ve_type :: entity_type
  ve_name :: string
  ve_source :: string
  ve_destination :: string
  ve_client :: "jobject option"
  ve_rabbit :: "jobject option"

text \<open>How often a service asked for a topic or a virtual host, and the status of the first blue/green scheme.\<close>

datatype stat_type = EntityTypeTopic | EntityTypeVhost

record request_stat =
  es_namespace :: string
  es_microservice :: string
  es_type :: stat_type
  es_name :: string
  es_instance :: string
  es_last :: int
  es_total :: nat

record bg_status =
  sb_id :: nat
  sb_namespace :: string
  sb_time :: int
  sb_active :: string
  sb_legacy :: string
  sb_candidates :: "string list"

record tables =
  next_id :: nat
  bg_domains :: "bg_domain_row list"
  bg_states :: "bg_state_row list"
  composites :: "composite_row list"
  composite_props :: "composite_property list"
  accounts :: "account list"
  kafka_instances :: "kafka_instance list"
  designators :: "designator_row list"
  selectors :: "selector_row list"
  rabbit_instances :: "rabbit_instance list"
  rabbit_designators :: "designator_row list"
  rabbit_selectors :: "selector_row list"
  topics :: "topic list"
  topic_classifiers :: "topic_classifier_row list"
  topic_definitions :: "topic_definition list"
  definition_classifiers :: "definition_classifier_row list"
  topic_templates :: "topic_template list"
  tenants :: "tenant list"
  vhosts :: "vhost list"
  rabbit_entities :: "rabbit_entity list"
  ms_configs :: "ms_config list"
  vers_entities :: "versioned_entity list"
  waits :: "wait_row list"
  request_stats :: "request_stat list"
  bg_statuses :: "bg_status list"

definition empty_tables :: tables where
  "empty_tables = \<lparr>next_id = 1, bg_domains = [], bg_states = [], composites = [], composite_props = [],
     accounts = [], kafka_instances = [], designators = [], selectors = [], rabbit_instances = [],
     rabbit_designators = [], rabbit_selectors = [],
     topics = [], topic_classifiers = [], topic_definitions = [], definition_classifiers = [],
     topic_templates = [], tenants = [], vhosts = [], rabbit_entities = [], ms_configs = [], vers_entities = [], waits = [], request_stats = [], bg_statuses = []\<rparr>"

text \<open>
  \<open>order by key limit 1\<close> over the rows a query selects, as \<open>First\<close> of gorm asks for: the
  first of the rows whose key is least.
\<close>

primrec first_by :: "('a \<Rightarrow> 'b::linorder) \<Rightarrow> 'a list \<Rightarrow> 'a option" where
  "first_by key [] = None"
| "first_by key (x # xs) = (case first_by key xs of
      None \<Rightarrow> Some x
    | Some y \<Rightarrow> if key x \<le> key y then Some x else Some y)"

lemma first_by_None [simp]: "first_by key xs = None \<longleftrightarrow> xs = []"
  by (cases xs) (auto split: option.splits)

lemma first_by_Some: "first_by key xs = Some x \<Longrightarrow> x \<in> set xs \<and> (\<forall>y \<in> set xs. key x \<le> key y)"
  by (induction xs arbitrary: x) (fastforce split: option.splits if_splits)+

lemma first_by_unique:
  assumes "x \<in> set xs" and "\<And>y. y \<in> set xs \<Longrightarrow> y \<noteq> x \<Longrightarrow> key x < key y"
  shows "first_by key xs = Some x"
proof (cases "first_by key xs")
  case (Some y)
  have "y = x"
  proof (rule ccontr)
    assume "y \<noteq> x"
    with first_by_Some [OF Some] assms show False by (meson not_le)
  qed
  with Some show ?thesis by simp
qed (use assms in simp)

lemma first_by_single [simp]: "first_by key [x] = Some x"
  by simp

section \<open>Constraints checked at the end of a transaction\<close>

text \<open>
  The deferred trigger \<open>composite_namespaces_v2_guard\<close> (dao/schema/27): every base namespace
  of the table is a member of its own composite.  It fires when the transaction changed rows of
  that table.
\<close>

definition composite_guard :: "tables \<Rightarrow> bool" where
  "composite_guard t \<longleftrightarrow>
     list_all (\<lambda>b. list_ex (\<lambda>r. cr_base r = cr_base b \<and> cr_namespace r = cr_base r) (composites t)) (composites t)"

definition deferred_ok :: "tables \<Rightarrow> tables \<Rightarrow> bool" where
  "deferred_ok old new \<longleftrightarrow> composites new = composites old \<or> composite_guard new"

lemma deferred_ok_refl [simp]: "deferred_ok t t"
  by (simp add: deferred_ok_def)

lemma deferred_ok_same: "composites t' = composites t \<Longrightarrow> deferred_ok t t'"
  by (simp add: deferred_ok_def)

end
