(* ===== verification/Maas_World.thy ===== *)
theory Maas_World
  imports Maas_Tables
begin

text \<open>
  The data access layer (dao/dao.go, dao/tx.go, dao/disaster_recovery_aware.go, dr/mode.go): the
  state every operation runs in, SQL statements that may fail, the routing of a request to the
  master or to the in-memory cache, and transactions.

  The transaction of a request travels in its \<open>context.Context\<close>; the model keeps it in the
  state (\<open>txc\<close>), where \<open>with_tx_ctx\<close> puts it and takes it away.  \<open>faults\<close> is the future of
  the connection: each statement consumes one entry, and fails with the error it names.  The
  state of the message brokers is \<open>broker\<close>, of any type: no transaction undoes what happened
  there.
\<close>

section \<open>State\<close>

datatype dr_mode = Active | Standby | Disabled

definition IsActive :: "dr_mode \<Rightarrow> bool" where
  "IsActive d = (d = Active)"

definition ModeFromString :: "string \<Rightarrow> dr_mode outcome" where
  "ModeFromString m =
     (if m = ''active'' then Inr Active
      else if m = ''standby'' then Inr Standby
      else if m = ''disabled'' then Inr Disabled
      else Inl GoPanic)"

datatype connection = Master | Cache

text \<open>
  \<open>TransactionContext\<close>: the nesting depth, and once a statement needed it the transaction that
  was begun, with the tables it started from and the database it runs on.  \<open>tx_dead\<close> is the
  aborted state of a PostgreSQL transaction after a failed statement.
\<close>

record txctx =
  nesting :: nat
  begun :: "(tables \<times> connection) option"
  tx_dead :: bool

record 'k world =
  tabs :: tables
  txc :: "txctx option"
  conn :: connection
  master_alive :: bool
  cache :: "tables option"
  dr_mode :: dr_mode
  faults :: "err option list"
  broker :: 'k

type_synonym ('k, 'a) dbio = "('k world, 'a) io"

definition mk_world :: "tables \<Rightarrow> 'k \<Rightarrow> 'k world" where
  "mk_world t k = \<lparr>tabs = t, txc = None, conn = Master, master_alive = True, cache = None,
     dr_mode = Active, faults = [], broker = k\<rparr>"

section \<open>Statements\<close>

definition kill_tx :: "'k world \<Rightarrow> 'k world" where
  "kill_tx w = (case txc w of
      Some c \<Rightarrow> if begun c \<noteq> None then w\<lparr>txc := Some (c\<lparr>tx_dead := True\<rparr>)\<rparr> else w
    | None \<Rightarrow> w)"

definition dead :: "'k world \<Rightarrow> bool" where
  "dead w = (case txc w of Some c \<Rightarrow> tx_dead c | None \<Rightarrow> False)"

definition in_tx :: "'k world \<Rightarrow> bool" where
  "in_tx w = (case txc w of Some c \<Rightarrow> begun c \<noteq> None | None \<Rightarrow> False)"

definition pop_fault :: "'k world \<Rightarrow> 'k world" where
  "pop_fault w = w\<lparr>faults := tl (faults w)\<rparr>"

definition sql_read :: "(tables \<Rightarrow> 'a) \<Rightarrow> ('k, 'a) dbio" where
  "sql_read q w =
     (let w1 = pop_fault w in
      case faults w of
        Some e # _ \<Rightarrow> (Inl e, kill_tx w1)
      | _ \<Rightarrow>
          if dead w then (Inl TxAborted, w1)
          else if conn w = Cache then
            (case cache w of None \<Rightarrow> (Inl Generic, w1) | Some t \<Rightarrow> (Inr (q t), w1))
          else (Inr (q (tabs w)), w1))"

text \<open>
  A statement that writes.  Outside a transaction it commits by itself, so the deferred
  constraints are checked at its end.
\<close>

definition sql_write :: "(tables \<Rightarrow> (err + 'a \<times> tables)) \<Rightarrow> ('k, 'a) dbio" where
  "sql_write f w =
     (let w1 = pop_fault w in
      case faults w of
        Some e # _ \<Rightarrow> (Inl e, kill_tx w1)
      | _ \<Rightarrow>
          if dead w then (Inl TxAborted, w1)
          else if conn w = Cache then (Inl CacheReadOnly, w1)
          else (case f (tabs w) of
                  Inl e \<Rightarrow> (Inl e, kill_tx w1)
                | Inr (a, t) \<Rightarrow>
                    if in_tx w \<or> deferred_ok (tabs w) t then (Inr a, w1\<lparr>tabs := t\<rparr>)
                    else (Inl UniqueViolation, w1)))"

text \<open>\<open>First\<close> and \<open>Take\<close> report a missing row as an error of the client, not of the database.\<close>

definition sql_first :: "(tables \<Rightarrow> 'a option) \<Rightarrow> ('k, 'a) dbio" where
  "sql_first q = bind_io (sql_read q) (\<lambda>r. case r of None \<Rightarrow> raise_io RecordNotFound | Some a \<Rightarrow> ret_io a)"

section \<open>Routing (dao.go: UsingDb)\<close>

definition IsMasterAvailabilityError :: "err \<Rightarrow> bool" where
  "IsMasterAvailabilityError e = (e = UnexpectedEOF)"

fun translateDRModeError :: "dr_mode \<Rightarrow> err \<Rightarrow> err" where
  "translateDRModeError d PgReadOnly = (if \<not> IsActive d then DatabaseIsNotActive else DatabaseIsReadonly)"
| "translateDRModeError d e = e"

definition is_record_not_found :: "err \<Rightarrow> bool" where
  "is_record_not_found e = (e = RecordNotFound \<or> e = RecordNotFoundInCache)"

definition on_conn :: "connection \<Rightarrow> ('k, 'a) dbio \<Rightarrow> ('k, 'a) dbio" where
  "on_conn c m w = (case m (w\<lparr>conn := c\<rparr>) of (r, w') \<Rightarrow> (r, w'\<lparr>conn := conn w\<rparr>))"

text \<open>
  The connection of a request: the transaction's when one was begun, else the master.  A request
  the master did not serve goes to the cache, if there is one.
\<close>

definition tx_conn :: "'k world \<Rightarrow> connection" where
  "tx_conn w = (case txc w of
      Some c \<Rightarrow> (case begun c of Some (_, cn) \<Rightarrow> cn | None \<Rightarrow> Master)
    | None \<Rightarrow> Master)"

definition cache_answer :: "dr_mode \<Rightarrow> err \<Rightarrow> err" where
  "cache_answer d e =
     (if e = GoPanic then GoPanic
      else if e = CacheReadOnly then MasterDatabaseUnavailableForUpdate
      else if \<not> is_record_not_found e then MasterDatabaseUnavailable
      else translateDRModeError d RecordNotFoundInCache)"

text \<open>
  \<open>zero\<close> is what the variables \<open>f\<close> would fill hold if it never runs.  That happens: while the
  master is known to be down and no cache was started, neither branch of \<open>UsingDb\<close> runs \<open>f\<close>
  and the error is still nil.
\<close>

definition using_db :: "'a \<Rightarrow> ('k, 'a) dbio \<Rightarrow> ('k, 'a) dbio" where
  "using_db zero f w =
     (let (r, w1) = (if master_alive w then on_conn (tx_conn w) f w else (Inr zero, w)) in
      if (\<not> master_alive w \<or> (case r of Inl e \<Rightarrow> IsMasterAvailabilityError e | Inr _ \<Rightarrow> False)) \<and> cache w1 \<noteq> None
      then (case on_conn Cache f w1 of
               (Inr a, w2) \<Rightarrow> (Inr a, w2)
             | (Inl e2, w2) \<Rightarrow> (Inl (cache_answer (dr_mode w) e2), w2))
      else (map_sum (translateDRModeError (dr_mode w)) id r, w1))"

section \<open>Transactions (dao/tx.go)\<close>

text \<open>\<open>Begin\<close> opens the transaction on the first call, on the connection at hand.\<close>

definition tx_begin :: "('k, unit) dbio" where
  "tx_begin w = (case txc w of
      None \<Rightarrow> (Inl GoPanic, w)
    | Some c \<Rightarrow> (case begun c of
        None \<Rightarrow> (Inr (), w\<lparr>txc := Some (c\<lparr>begun := Some (tabs w, conn w), tx_dead := False\<rparr>)\<rparr>)
      | Some (_, cn) \<Rightarrow> (Inr (), w\<lparr>conn := cn\<rparr>)))"

text \<open>
  The end of the outermost transaction context.  Committing a dead transaction, a failing commit
  and a violated deferred constraint leave the tables as they were at \<open>Begin\<close>; so does a
  rollback, whose own failure only wraps the error.  A panic never reaches \<open>Commit\<close>.
\<close>

definition tx_commit :: "tables \<Rightarrow> 'k world \<Rightarrow> err option \<times> 'k world" where
  "tx_commit old w =
     (let w1 = pop_fault w\<lparr>txc := None\<rparr> in
      case faults w of
        Some e # _ \<Rightarrow> (Some e, w1\<lparr>tabs := old\<rparr>)
      | _ \<Rightarrow>
          if dead w then (Some TxAborted, w1\<lparr>tabs := old\<rparr>)
          else if \<not> deferred_ok old (tabs w) then (Some UniqueViolation, w1\<lparr>tabs := old\<rparr>)
          else (None, w1))"

definition tx_end :: "'a outcome \<Rightarrow> 'k world \<Rightarrow> 'a outcome \<times> 'k world" where
  "tx_end r w = (case txc w of
      None \<Rightarrow> (r, w)
    | Some c \<Rightarrow> (case begun c of
        None \<Rightarrow> (r, w\<lparr>txc := None\<rparr>)
      | Some (old, cn) \<Rightarrow>
          (case r of
             Inl e \<Rightarrow> (Inl e, w\<lparr>txc := None, tabs := old\<rparr>)
           | Inr a \<Rightarrow>
               (case tx_commit old w of
                  (None, w') \<Rightarrow> (Inr a, w')
                | (Some e, w') \<Rightarrow> (Inl e, w')))))"

definition with_tx_ctx :: "('k, 'a) dbio \<Rightarrow> ('k, 'a) dbio" where
  "with_tx_ctx f w = (case txc w of
      None \<Rightarrow> (case f (w\<lparr>txc := Some \<lparr>nesting = 1, begun = None, tx_dead = False\<rparr>\<rparr>) of
                (r, w') \<Rightarrow> tx_end r w')
    | Some c \<Rightarrow> (case f (w\<lparr>txc := Some (c\<lparr>nesting := nesting c + 1\<rparr>)\<rparr>) of
                (r, w') \<Rightarrow> (r, (case txc w' of
                    None \<Rightarrow> w'
                  | Some c' \<Rightarrow> w'\<lparr>txc := Some (c'\<lparr>nesting := nesting c' - 1\<rparr>)\<rparr>))))"

text \<open>\<open>WithTx\<close>: in the transaction of the context, or in one of its own.\<close>

definition with_tx :: "'a \<Rightarrow> ('k, 'a) dbio \<Rightarrow> ('k, 'a) dbio" where
  "with_tx zero f w =
     (let exec = using_db zero (then_io tx_begin f)
      in if txc w = None then with_tx_ctx exec w else exec w)"

text \<open>
  \<open>WithLock\<close> takes the advisory lock of a hash of the id until the transaction ends.  Requests
  are sequential here, so the lock only adds its statement.
\<close>

definition with_lock :: "string \<Rightarrow> ('k, unit) dbio \<Rightarrow> ('k, unit) dbio" where
  "with_lock lockId f = with_tx () (then_io (wrap_io (sql_read (\<lambda>_. ()))) f)"

definition IsUniqIntegrityViolation :: "err \<Rightarrow> bool" where
  "IsUniqIntegrityViolation e = (e = UniqueViolation)"

definition IsForeignKeyIntegrityViolation :: "err \<Rightarrow> bool" where
  "IsForeignKeyIntegrityViolation e = (e = ForeignKeyViolation)"

section \<open>Runs on a healthy database\<close>

text \<open>
  \<open>serves w\<close>: the master serves the request and no statement is going to fail.  The transaction
  is then in one of three states: no context (\<open>healthy\<close>), a context in which nothing was begun
  yet (\<open>opened\<close>), or a transaction under way (\<open>live\<close>).
\<close>

definition serves :: "'k world \<Rightarrow> bool" where
  "serves w \<longleftrightarrow> master_alive w \<and> conn w = Master \<and> faults w = [] \<and> \<not> dead w \<and> tx_conn w = Master"

definition healthy :: "'k world \<Rightarrow> bool" where
  "healthy w \<longleftrightarrow> serves w \<and> txc w = None"

definition opened :: "'k world \<Rightarrow> bool" where
  "opened w \<longleftrightarrow> serves w \<and> txc w \<noteq> None \<and> \<not> in_tx w"

definition live :: "'k world \<Rightarrow> bool" where
  "live w \<longleftrightarrow> serves w \<and> in_tx w"

lemma mk_world_sel [simp]:
  "tabs (mk_world t k) = t" "broker (mk_world t k) = k" "faults (mk_world t k) = []" "txc (mk_world t k) = None"
  "conn (mk_world t k) = Master" "master_alive (mk_world t k)"
  by (simp_all add: mk_world_def)

lemma healthy_mk [simp]: "healthy (mk_world t k)"
  by (simp add: healthy_def serves_def dead_def tx_conn_def)

lemma pop_fault_none [simp]: "faults w = [] \<Longrightarrow> pop_fault w = w"
  by (simp add: pop_fault_def)

lemma conn_same [simp]: "conn w = c \<Longrightarrow> w\<lparr>conn := c\<rparr> = w"
  by (cases w) simp

lemma serves_facts:
  assumes "serves w"
  shows "master_alive w" "conn w = Master" "faults w = []" "\<not> dead w" "tx_conn w = Master"
  using assms by (simp_all add: serves_def)

lemma state_serves [simp]: "live w \<Longrightarrow> serves w" "healthy w \<Longrightarrow> serves w" "opened w \<Longrightarrow> serves w"
  by (simp_all add: live_def healthy_def opened_def)

lemma live_in_tx: "live w \<Longrightarrow> in_tx w"
  by (simp add: live_def)

lemma in_tx_upd [simp]:
  "in_tx (w\<lparr>tabs := t\<rparr>) = in_tx w" "in_tx (w\<lparr>broker := k\<rparr>) = in_tx w" "in_tx (w\<lparr>conn := c\<rparr>) = in_tx w"
  "in_tx (w\<lparr>faults := fs\<rparr>) = in_tx w"
  by (simp_all add: in_tx_def)

lemma serves_upd [simp]: "serves (w\<lparr>tabs := t\<rparr>) = serves w" "serves (w\<lparr>broker := k\<rparr>) = serves w"
  by (simp_all add: serves_def dead_def tx_conn_def)

lemma state_upd [simp]:
  "live (w\<lparr>tabs := t\<rparr>) = live w" "live (w\<lparr>broker := k\<rparr>) = live w"
  "healthy (w\<lparr>tabs := t\<rparr>) = healthy w" "healthy (w\<lparr>broker := k\<rparr>) = healthy w"
  "opened (w\<lparr>tabs := t\<rparr>) = opened w" "opened (w\<lparr>broker := k\<rparr>) = opened w"
  by (simp_all add: live_def healthy_def opened_def del: state_serves)

lemma sql_read_serves [run_simps]: "serves w \<Longrightarrow> sql_read q w = (Inr (q (tabs w)), w)"
  by (simp add: sql_read_def serves_facts Let_def)

lemma sql_first_serves [run_simps]:
  "serves w \<Longrightarrow> sql_first q w =
     (case q (tabs w) of None \<Rightarrow> (Inl RecordNotFound, w) | Some a \<Rightarrow> (Inr a, w))"
  by (simp add: sql_first_def bind_io_run sql_read_serves split: option.split)

text \<open>In a begun transaction the deferred constraints wait for the commit.\<close>

lemma sql_write_live [run_simps]:
  "live w \<Longrightarrow> f (tabs w) = Inr (a, t) \<Longrightarrow> sql_write f w = (Inr a, w\<lparr>tabs := t\<rparr>)"
  by (simp add: sql_write_def serves_facts live_in_tx Let_def)

lemma sql_write_serves [run_simps]:
  "serves w \<Longrightarrow> f (tabs w) = Inr (a, t) \<Longrightarrow> deferred_ok (tabs w) t \<Longrightarrow> sql_write f w = (Inr a, w\<lparr>tabs := t\<rparr>)"
  by (simp add: sql_write_def serves_facts Let_def)

lemma sql_write_err [run_simps]:
  "serves w \<Longrightarrow> f (tabs w) = Inl e \<Longrightarrow> sql_write f w = (Inl e, kill_tx w)"
  by (simp add: sql_write_def serves_facts Let_def)

lemma kill_tx_sel [simp]:
  "conn (kill_tx w) = conn w" "tabs (kill_tx w) = tabs w" "broker (kill_tx w) = broker w"
  by (simp_all add: kill_tx_def split: option.split)

lemma kill_healthy [simp]: "healthy w \<Longrightarrow> kill_tx w = w"
  by (simp add: healthy_def kill_tx_def del: state_serves)

text \<open>A served request is its body, up to the translation of its error.\<close>

definition plain_err :: "err \<Rightarrow> bool" where
  "plain_err e \<longleftrightarrow> e \<noteq> UnexpectedEOF \<and> e \<noteq> PgReadOnly"

lemma plain_err_simps [simp]:
  "plain_err BadRequest" "plain_err AuthError" "plain_err NotFound" "plain_err Conflict" "plain_err Gone"
  "plain_err RecordNotFound" "plain_err UniqueViolation" "plain_err ForeignKeyViolation" "plain_err Generic"
  "plain_err TemplateAlreadyExists" "plain_err TemplateInUse" "plain_err EmptySearchCriteria"
  "plain_err GoPanic" "plain_err TopicAlreadyExists" "plain_err DependencyNotFound" "plain_err TxAborted"
  by (simp_all add: plain_err_def)

lemma translate_plain: "plain_err e \<Longrightarrow> translateDRModeError d e = e"
  by (cases e) (simp_all add: plain_err_def)

lemma using_db_Inr [run_simps]:
  assumes "serves w" "f w = (Inr a, w')" "conn w' = Master"
  shows "using_db zero f w = (Inr a, w')"
  using assms by (simp add: using_db_def on_conn_def serves_facts)

lemma using_db_Inl [run_simps]:
  assumes "serves w" "f w = (Inl e, w')" "conn w' = Master" "plain_err e"
  shows "using_db zero f w = (Inl e, w')"
  using assms translate_plain [of e "dr_mode w"]
  by (simp add: using_db_def on_conn_def serves_facts IsMasterAvailabilityError_def plain_err_def)

text \<open>\<open>Begin\<close> takes an opened context to a transaction that started from the present tables.\<close>

definition begin_tx :: "'k world \<Rightarrow> 'k world" where
  "begin_tx w = (case txc w of None \<Rightarrow> w
     | Some c \<Rightarrow> (if begun c = None then w\<lparr>txc := Some (c\<lparr>begun := Some (tabs w, Master), tx_dead := False\<rparr>)\<rparr> else w))"

lemma begin_tx_sel [simp]:
  "tabs (begin_tx w) = tabs w" "broker (begin_tx w) = broker w" "conn (begin_tx w) = conn w"
  by (simp_all add: begin_tx_def split: option.split)

lemma live_begin [simp]: "opened w \<Longrightarrow> live (begin_tx w)"
  by (auto simp: opened_def live_def serves_def begin_tx_def in_tx_def dead_def tx_conn_def simp del: state_serves split: option.splits)

lemma begin_live [simp]: "live w \<Longrightarrow> begin_tx w = w"
  by (auto simp: live_def in_tx_def begin_tx_def simp del: state_serves split: option.splits)

lemma tx_begin_run [run_simps]: "live w \<or> opened w \<Longrightarrow> tx_begin w = (Inr (), begin_tx w)"
  by (auto simp: tx_begin_def live_def opened_def in_tx_def serves_def tx_conn_def begin_tx_def simp del: state_serves split: option.splits)

lemma in_context: "live w \<or> opened w \<Longrightarrow> txc w \<noteq> None \<and> serves w"
  by (auto simp: live_def opened_def in_tx_def simp del: state_serves split: option.splits)

lemma with_tx_Inr [run_simps]:
  assumes "live w \<or> opened w" "f (begin_tx w) = (Inr a, w')" "conn w' = Master"
  shows "with_tx zero f w = (Inr a, w')"
proof -
  note in_context [OF assms(1)]
  then show ?thesis using assms
    by (simp only: with_tx_def Let_def if_False) (simp add: using_db_Inr tx_begin_run)
qed

lemma with_tx_Inl [run_simps]:
  assumes "live w \<or> opened w" "f (begin_tx w) = (Inl e, w')" "conn w' = Master" "plain_err e"
  shows "with_tx zero f w = (Inl e, w')"
proof -
  note in_context [OF assms(1)]
  then show ?thesis using assms
    by (simp only: with_tx_def Let_def if_False) (simp add: using_db_Inl tx_begin_run)
qed

section \<open>What a computation preserves\<close>

text \<open>
  \<open>committed w\<close>: the tables a failure of the transaction would leave.  \<open>in_ctx T\<close>: inside a
  transaction context whose failure leaves the tables \<open>T\<close>; \<open>in_begun T\<close>: the same, and the
  transaction was begun.  \<open>all_tabs I\<close>: the present tables and those a rollback would restore
  satisfy \<open>I\<close>.
\<close>

definition committed :: "'k world \<Rightarrow> tables" where
  "committed w = (case txc w of
      Some c \<Rightarrow> (case begun c of Some (b, _) \<Rightarrow> b | None \<Rightarrow> tabs w)
    | None \<Rightarrow> tabs w)"

definition in_ctx :: "tables \<Rightarrow> 'k world \<Rightarrow> bool" where
  "in_ctx T w \<longleftrightarrow> txc w \<noteq> None \<and> committed w = T"

definition in_begun :: "tables \<Rightarrow> 'k world \<Rightarrow> bool" where
  "in_begun T w \<longleftrightarrow> in_tx w \<and> committed w = T"

definition all_tabs :: "(tables \<Rightarrow> bool) \<Rightarrow> 'k world \<Rightarrow> bool" where
  "all_tabs I w \<longleftrightarrow> I (tabs w) \<and> I (committed w)"

lemma in_begun_ctx: "in_begun T w \<Longrightarrow> in_ctx T w"
  by (auto simp: in_begun_def in_ctx_def in_tx_def split: option.splits)

lemma in_tx_cases: "in_tx w \<longleftrightarrow> (\<exists>c b. txc w = Some c \<and> begun c = Some b)"
  by (auto simp: in_tx_def split: option.splits)

lemma committed_upd [simp]:
  "committed (w\<lparr>conn := c\<rparr>) = committed w" "committed (w\<lparr>faults := fs\<rparr>) = committed w"
  "committed (w\<lparr>broker := k\<rparr>) = committed w"
  by (simp_all add: committed_def split: option.split)

lemma committed_begun [simp]: "in_tx w \<Longrightarrow> committed (w\<lparr>tabs := t\<rparr>) = committed w"
  by (auto simp: committed_def in_tx_cases)

lemma committed_plain [simp]:
  "\<not> in_tx w \<Longrightarrow> committed w = tabs w" "\<not> in_tx w \<Longrightarrow> committed (w\<lparr>tabs := t\<rparr>) = t"
  by (auto simp: committed_def in_tx_def split: option.splits)

lemma pop_fault_sel [simp]:
  "tabs (pop_fault w) = tabs w" "txc (pop_fault w) = txc w" "committed (pop_fault w) = committed w"
  "in_tx (pop_fault w) = in_tx w" "broker (pop_fault w) = broker w"
  by (simp_all add: pop_fault_def)

lemma kill_tx_txc [simp]: "txc (kill_tx w) = None \<longleftrightarrow> txc w = None"
  "committed (kill_tx w) = committed w" "in_tx (kill_tx w) = in_tx w"
  by (auto simp: kill_tx_def committed_def in_tx_def split: option.splits)

text \<open>Every predicate that depends only on the tables and the transaction is untouched by a read.\<close>

lemma sql_read_frame:
  "sql_read q w = (r, w') \<Longrightarrow>
     tabs w' = tabs w \<and> committed w' = committed w \<and> (txc w' = None \<longleftrightarrow> txc w = None) \<and> in_tx w' = in_tx w"
  by (auto simp: sql_read_def Let_def split: list.splits option.splits if_splits)

lemma sql_write_frame:
  "sql_write f w = (r, w') \<Longrightarrow>
     (txc w' = None \<longleftrightarrow> txc w = None) \<and> in_tx w' = in_tx w \<and> (in_tx w \<longrightarrow> committed w' = committed w) \<and>
     (tabs w' = tabs w \<and> committed w' = committed w \<or>
      (\<exists>a. f (tabs w) = Inr (a, tabs w')) \<and> (in_tx w \<or> committed w' = tabs w'))"
  unfolding sql_write_def Let_def
  by (cases "in_tx w") (auto split: list.splits option.splits if_splits sum.splits prod.splits)

lemma keeps_sql_read [keeps_intros]:
  "keeps (in_ctx T) (sql_read q)" "keeps (in_begun T) (sql_read q)" "keeps (all_tabs I) (sql_read q)"
  by (rule keepsI; drule sql_read_frame; simp add: in_ctx_def in_begun_def all_tabs_def)+

lemma keeps_sql_first [keeps_intros]:
  "keeps (in_ctx T) (sql_first q)" "keeps (in_begun T) (sql_first q)" "keeps (all_tabs I) (sql_first q)"
  unfolding sql_first_def by (auto intro!: keeps_intros)

lemma keeps_sql_write [keeps_intros]: "keeps (in_begun T) (sql_write f)"
  by (rule keepsI; drule sql_write_frame; auto simp: in_begun_def)

lemma keeps_sql_write_inv [keeps_intros]:
  "(\<And>t a t'. I t \<Longrightarrow> f t = Inr (a, t') \<Longrightarrow> I t') \<Longrightarrow> keeps (all_tabs I) (sql_write f)"
  by (rule keepsI; drule sql_write_frame; force simp: all_tabs_def)

lemma keeps_on_conn:
  "(\<And>w c. P (w\<lparr>conn := c\<rparr>) = P w) \<Longrightarrow> keeps P m \<Longrightarrow> keeps P (on_conn cn m)"
  by (rule keepsI) (auto simp: on_conn_def split: prod.splits dest!: keepsD)

lemma keeps_using_db_gen:
  assumes c: "\<And>w c. P (w\<lparr>conn := c\<rparr>) = P w" and m: "keeps P m"
  shows "keeps P (using_db zero m)"
proof (rule keepsI)
  fix s r s'
  assume P: "P s" and run: "using_db zero m s = (r, s')"
  note k = keeps_on_conn [OF c m]
  obtain r1 w1 where 1: "(if master_alive s then on_conn (tx_conn s) m s else (Inr zero, s)) = (r1, w1)"
    by (metis surj_pair)
  have P1: "P w1" using 1 P k by (auto split: if_splits dest: keepsD)
  obtain r2 w2 where 2: "on_conn Cache m w1 = (r2, w2)" by (metis surj_pair)
  have P2: "P w2" using 2 P1 k by (auto dest: keepsD)
  from run 1 2 P1 P2 show "P s'"
    unfolding using_db_def by (auto split: if_splits sum.splits)
qed

lemma keeps_using_db [keeps_intros]:
  "keeps (in_ctx T) m \<Longrightarrow> keeps (in_ctx T) (using_db zero m)"
  "keeps (in_begun T) m \<Longrightarrow> keeps (in_begun T) (using_db zero m)"
  "keeps (all_tabs I) m \<Longrightarrow> keeps (all_tabs I) (using_db zero m)"
  by (rule keeps_using_db_gen; simp add: in_ctx_def in_begun_def all_tabs_def)+

lemma tx_begin_frame:
  "tx_begin w = (r, w') \<Longrightarrow> txc w \<noteq> None \<Longrightarrow>
     r = Inr () \<and> tabs w' = tabs w \<and> committed w' = committed w \<and> in_tx w'"
  by (auto simp: tx_begin_def committed_def in_tx_def split: option.splits)

text \<open>After \<open>Begin\<close> the body runs in a begun transaction.\<close>

lemma keeps_begin_then:
  assumes "keeps (in_begun T) f"
  shows "keeps (in_ctx T) (then_io tx_begin f)"
proof (rule keepsI)
  fix w r w'
  assume c: "in_ctx T w" and run: "then_io tx_begin f w = (r, w')"
  obtain r1 w1 where b: "tx_begin w = (r1, w1)" by (metis surj_pair)
  have "txc w \<noteq> None" "committed w = T" using c by (auto simp: in_ctx_def)
  with tx_begin_frame [OF b] have r1: "r1 = Inr ()" and "in_begun T w1" by (simp_all add: in_begun_def)
  with run b have "f w1 = (r, w')" by simp
  from keepsD [OF assms this \<open>in_begun T w1\<close>] show "in_ctx T w'" by (rule in_begun_ctx)
qed

lemma tx_begin_inv: "keeps (all_tabs I) tx_begin"
  by (rule keepsI) (auto simp: tx_begin_def all_tabs_def committed_def split: option.splits)

lemma keeps_tx_begin [keeps_intros]: "keeps (in_begun T) tx_begin" "keeps (all_tabs I) tx_begin"
  by (rule keepsI, auto simp: in_begun_def in_tx_cases tx_begin_def split: option.splits) (rule tx_begin_inv)

text \<open>The end of a transaction context.\<close>

lemma tx_commit_frame:
  "tx_commit old w = (e, w') \<Longrightarrow>
     txc w' = None \<and> (e = None \<longrightarrow> tabs w' = tabs w) \<and> (e \<noteq> None \<longrightarrow> tabs w' = old)"
  by (auto simp: tx_commit_def Let_def split: list.splits option.splits if_splits)

lemma tx_end_frame:
  "tx_end r w = (r', w') \<Longrightarrow> txc w' = None \<and>
     (case r' of Inl e \<Rightarrow> tabs w' = committed w | Inr a \<Rightarrow> r = Inr a \<and> tabs w' = tabs w)"
  unfolding tx_end_def committed_def
  by (auto split: option.splits sum.splits prod.splits dest!: tx_commit_frame)

lemma with_tx_ctx_top:
  assumes "txc w = None" "with_tx_ctx f w = (r, w')"
  obtains r1 w1 where "f (w\<lparr>txc := Some \<lparr>nesting = 1, begun = None, tx_dead = False\<rparr>\<rparr>) = (r1, w1)"
    and "tx_end r1 w1 = (r, w')"
  using assms by (auto simp: with_tx_ctx_def split: prod.splits)

lemma in_ctx_open:
  "in_ctx (tabs w) (w\<lparr>txc := Some \<lparr>nesting = n, begun = None, tx_dead = d\<rparr>\<rparr>)"
  by (simp add: in_ctx_def committed_def)

text \<open>
  Atomicity: a transaction context that returns an error leaves the tables as they were, if its
  body writes only inside transactions.
\<close>

theorem with_tx_ctx_atomic:
  assumes "txc w = None" "keeps (in_ctx (tabs w)) f" "with_tx_ctx f w = (Inl e, w')"
  shows "tabs w' = tabs w \<and> txc w' = None"
proof -
  obtain r1 w1 where 1: "f (w\<lparr>txc := Some \<lparr>nesting = 1, begun = None, tx_dead = False\<rparr>\<rparr>) = (r1, w1)"
    and 2: "tx_end r1 w1 = (Inl e, w')"
    using with_tx_ctx_top [OF assms(1,3)] .
  have "in_ctx (tabs w) w1" using keepsD [OF assms(2) 1 in_ctx_open] .
  with tx_end_frame [OF 2] show ?thesis by (simp add: in_ctx_def)
qed

theorem with_tx_atomic:
  assumes "txc w = None" "keeps (in_begun (tabs w)) f" "with_tx zero f w = (Inl e, w')"
  shows "tabs w' = tabs w \<and> txc w' = None"
proof -
  have "with_tx_ctx (using_db zero (then_io tx_begin f)) w = (Inl e, w')"
    using assms(1,3) by (simp add: with_tx_def Let_def)
  then show ?thesis
    using assms(1,2) by (intro with_tx_ctx_atomic [OF assms(1)]) (auto intro: keeps_intros keeps_begin_then)
qed

lemma keeps_with_tx_ctx [keeps_intros]:
  "keeps (in_ctx T) f \<Longrightarrow> keeps (in_ctx T) (with_tx_ctx f)"
  "keeps (in_begun T) f \<Longrightarrow> keeps (in_begun T) (with_tx_ctx f)"
proof -
  have nest: "in_ctx T (w\<lparr>txc := Some (c\<lparr>nesting := n\<rparr>)\<rparr>) = in_ctx T w"
    "in_begun T (w\<lparr>txc := Some (c\<lparr>nesting := n\<rparr>)\<rparr>) = in_begun T w" if "txc w = Some c" for w :: "'a world" and c n
    using that by (auto simp: in_ctx_def in_begun_def committed_def in_tx_def split: option.splits)
  show "keeps (in_ctx T) (with_tx_ctx f)" if k: "keeps (in_ctx T) f"
  proof (rule keepsI)
    fix w r w'
    assume c: "in_ctx T w" and run: "with_tx_ctx f w = (r, w')"
    obtain x where x: "txc w = Some x" using c by (auto simp: in_ctx_def)
    obtain r1 w1 where 1: "f (w\<lparr>txc := Some (x\<lparr>nesting := nesting x + 1\<rparr>)\<rparr>) = (r1, w1)" by (metis surj_pair)
    have "in_ctx T w1" using keepsD [OF k 1] c nest(1) [OF x] by simp
    with run x 1 nest(1) show "in_ctx T w'"
      by (auto simp: with_tx_ctx_def in_ctx_def split: option.splits)
  qed
  show "keeps (in_begun T) (with_tx_ctx f)" if k: "keeps (in_begun T) f"
  proof (rule keepsI)
    fix w r w'
    assume c: "in_begun T w" and run: "with_tx_ctx f w = (r, w')"
    obtain x where x: "txc w = Some x" using c by (auto simp: in_begun_def in_tx_cases)
    obtain r1 w1 where 1: "f (w\<lparr>txc := Some (x\<lparr>nesting := nesting x + 1\<rparr>)\<rparr>) = (r1, w1)" by (metis surj_pair)
    have "in_begun T w1" using keepsD [OF k 1] c nest(2) [OF x] by simp
    with run x 1 nest(2) show "in_begun T w'"
      by (auto simp: with_tx_ctx_def split: option.splits)
  qed
qed

lemma keeps_with_tx [keeps_intros]:
  assumes "keeps (in_begun T) f"
  shows "keeps (in_ctx T) (with_tx zero f)" "keeps (in_begun T) (with_tx zero f)"
proof -
  have 1: "keeps (in_ctx T) (using_db zero (then_io tx_begin f))"
    using assms by (intro keeps_intros keeps_begin_then)
  have 2: "keeps (in_begun T) (using_db zero (then_io tx_begin f))"
    using assms by (intro keeps_intros)
  show "keeps (in_ctx T) (with_tx zero f)"
    by (rule keepsI) (auto simp: with_tx_def Let_def in_ctx_def split: if_splits dest: keepsD [OF 1, unfolded in_ctx_def])
  show "keeps (in_begun T) (with_tx zero f)"
    by (rule keepsI) (auto simp: with_tx_def Let_def in_tx_cases split: if_splits
        dest: keepsD [OF 2] simp: in_begun_def)
qed

lemma keeps_with_lock [keeps_intros]:
  assumes "keeps (in_begun T) f"
  shows "keeps (in_ctx T) (with_lock l f)" "keeps (in_begun T) (with_lock l f)"
  unfolding with_lock_def using assms by (auto intro!: keeps_intros)

text \<open>Table invariants hold through transactions: a rollback restores tables that satisfied them.\<close>

lemma keeps_with_tx_ctx_inv [keeps_intros]:
  assumes k: "keeps (all_tabs I) f"
  shows "keeps (all_tabs I) (with_tx_ctx f)"
proof (rule keepsI)
  fix w r w'
  assume i: "all_tabs I w" and run: "with_tx_ctx f w = (r, w')"
  show "all_tabs I w'"
  proof (cases "txc w")
    case None
    obtain r1 w1 where 1: "f (w\<lparr>txc := Some \<lparr>nesting = 1, begun = None, tx_dead = False\<rparr>\<rparr>) = (r1, w1)"
      and 2: "tx_end r1 w1 = (r, w')"
      using with_tx_ctx_top [OF None run] .
    have "all_tabs I w1" using keepsD [OF k 1] i None by (simp add: all_tabs_def committed_def)
    with tx_end_frame [OF 2] show ?thesis by (auto simp: all_tabs_def committed_def split: sum.splits)
  next
    case (Some x)
    obtain r1 w1 where 1: "f (w\<lparr>txc := Some (x\<lparr>nesting := nesting x + 1\<rparr>)\<rparr>) = (r1, w1)" by (metis surj_pair)
    have "all_tabs I w1" using keepsD [OF k 1] i Some by (cases "begun x") (auto simp: all_tabs_def committed_def)
    with run Some 1 show ?thesis
      by (auto simp: with_tx_ctx_def all_tabs_def committed_def split: option.splits)
  qed
qed

lemma keeps_with_tx_inv [keeps_intros]:
  assumes "keeps (all_tabs I) f"
  shows "keeps (all_tabs I) (with_tx zero f)"
proof -
  have 1: "keeps (all_tabs I) (using_db zero (then_io tx_begin f))"
    using assms by (intro keeps_intros)
  have 2: "keeps (all_tabs I) (with_tx_ctx (using_db zero (then_io tx_begin f)))"
    using 1 by (rule keeps_with_tx_ctx_inv)
  show ?thesis
    by (rule keepsI) (auto simp: with_tx_def Let_def split: if_splits dest: keepsD [OF 1] keepsD [OF 2])
qed

lemma keeps_with_lock_inv [keeps_intros]:
  "keeps (all_tabs I) f \<Longrightarrow> keeps (all_tabs I) (with_lock l f)"
  unfolding with_lock_def by (auto intro!: keeps_intros)

text \<open>
  \<open>transactional m\<close>: inside a transaction context, \<open>m\<close> writes only what a failure of that
  context undoes.  Every operation whose writes go through \<open>WithTx\<close> is.
\<close>

definition transactional :: "('k, 'a) dbio \<Rightarrow> bool" where
  "transactional m \<longleftrightarrow> (\<forall>T. keeps (in_ctx T) m \<and> keeps (in_begun T) m)"

lemma transactionalI:
  "(\<And>T. keeps (in_ctx T) m) \<Longrightarrow> (\<And>T. keeps (in_begun T) m) \<Longrightarrow> transactional m"
  by (simp add: transactional_def)

lemma transactionalD:
  "transactional m \<Longrightarrow> keeps (in_ctx T) m" "transactional m \<Longrightarrow> keeps (in_begun T) m"
  by (simp_all add: transactional_def)

section \<open>Frames of statements and requests\<close>

lemma using_db_conn: "using_db z f w = (r, w') \<Longrightarrow> conn w' = conn w"
  unfolding using_db_def on_conn_def Let_def by (auto split: prod.splits if_splits sum.splits)

lemma sql_first_Inr: "sql_first q w = (Inr d, w') \<Longrightarrow> tabs w' = tabs w \<and> (conn w = Master \<longrightarrow> q (tabs w) = Some d)"
  by (auto simp: sql_first_def bind_io_def sql_read_def Let_def split: list.splits option.splits if_splits)

lemma sql_first_tabs: "sql_first q w = (r, w') \<Longrightarrow> tabs w' = tabs w"
  by (auto simp: sql_first_def bind_io_def sql_read_def Let_def split: list.splits option.splits if_splits)

lemma dead_pop [simp]: "dead (pop_fault w) = dead w" "dead (w\<lparr>conn := c\<rparr>) = dead w" "dead (w\<lparr>tabs := t\<rparr>) = dead w"
  by (simp_all add: dead_def pop_fault_def)

lemma dead_kill: "in_tx w \<Longrightarrow> dead (kill_tx w)" "dead w \<Longrightarrow> dead (kill_tx w)"
  by (auto simp: dead_def kill_tx_def in_tx_def split: option.splits)

lemma sql_first_dead: "dead w \<Longrightarrow> sql_first q w = (r, w') \<Longrightarrow> dead w'"
  by (auto simp: sql_first_def bind_io_def sql_read_def Let_def dead_kill split: list.splits option.splits if_splits)

lemma sql_first_eof: "sql_first q w = (Inl UnexpectedEOF, w') \<Longrightarrow> in_tx w \<Longrightarrow> dead w'"
  by (auto simp: sql_first_def bind_io_def sql_read_def Let_def dead_kill split: list.splits option.splits if_splits)

lemma using_db_first:
  assumes run: "using_db z (sql_first q) w = (Inr d, w')" and "in_tx w"
    and c: "conn w = Cache \<or> master_alive w \<and> tx_conn w = Master"
  shows "tabs w' = tabs w \<and> (conn w' = Cache \<or> dead w' \<or> q (tabs w') = Some d)"
proof (cases "conn w = Cache")
  case True
  have "keeps (\<lambda>v. tabs v = tabs w) (sql_first q)"
    by (rule keepsI) (simp add: sql_first_tabs)
  then have "keeps (\<lambda>v. tabs v = tabs w) (using_db z (sql_first q))"
    by (intro keeps_using_db_gen) simp_all
  from keepsD [OF this run] using_db_conn [OF run] True show ?thesis by simp
next
  case False
  then have m: "master_alive w" "tx_conn w = Master" "conn w = Master" using c by (auto intro: connection.exhaust)
  obtain r1 w1 where 1: "sql_first q w = (r1, w1)" by (metis surj_pair)
  obtain r2 w2 where 2: "sql_first q (w1\<lparr>conn := Cache\<rparr>) = (r2, w2)" by (metis surj_pair)
  have t1: "tabs w1 = tabs w" "tabs w2 = tabs w1"
    using sql_first_tabs [OF 1] sql_first_tabs [OF 2] by simp_all
  show ?thesis
  proof (cases r1)
    case (Inr a)
    with run m 1 have "d = a" "w' = w1\<lparr>conn := Master\<rparr>" by (auto simp: using_db_def on_conn_def)
    with sql_first_Inr [of q w a w1] 1 Inr m t1 show ?thesis by simp
  next
    case (Inl e)
    with run m 1 have e: "e = UnexpectedEOF"
      by (auto simp: using_db_def on_conn_def IsMasterAvailabilityError_def split: if_splits)
    then have "dead w1" using sql_first_eof 1 Inl assms(2) by blast
    then have "dead w2" using sql_first_dead 2 by (metis dead_pop(2))
    moreover have "w' = w2\<lparr>conn := Master\<rparr>"
      using run m 1 2 Inl e using_db_conn [OF run]
      by (auto simp: using_db_def on_conn_def IsMasterAvailabilityError_def split: if_splits sum.splits)
    ultimately show ?thesis using t1 by simp
  qed
qed

text \<open>Statements leave the transaction where it is.\<close>

definition same_tx :: "'k world \<Rightarrow> 'k world \<Rightarrow> bool" where
  "same_tx w v \<longleftrightarrow> master_alive v = master_alive w \<and> in_tx v = in_tx w \<and> tx_conn v = tx_conn w \<and>
     (txc v = None \<longleftrightarrow> txc w = None)"

lemma same_tx_upd [simp]: "same_tx w (v\<lparr>conn := c\<rparr>) = same_tx w v" "same_tx w (v\<lparr>tabs := t\<rparr>) = same_tx w v"
  "same_tx w (pop_fault v) = same_tx w v" "same_tx w (kill_tx v) = same_tx w v"
  by (auto simp: same_tx_def tx_conn_def pop_fault_def kill_tx_def in_tx_def split: option.splits)

lemma keeps_same_tx_read [keeps_intros]: "keeps (same_tx w) (sql_read q)"
  by (rule keepsI) (auto simp: sql_read_def Let_def split: list.splits option.splits if_splits)

lemma keeps_same_tx_write [keeps_intros]: "keeps (same_tx w) (sql_write f)"
  by (rule keepsI) (auto simp: sql_write_def Let_def split: list.splits option.splits if_splits sum.splits)

lemma keeps_same_tx_first [keeps_intros]: "keeps (same_tx w) (sql_first q)"
  unfolding sql_first_def by (intro keeps_intros)

lemma keeps_same_tx_using_db [keeps_intros]: "keeps (same_tx w) m \<Longrightarrow> keeps (same_tx w) (using_db zero m)"
  by (rule keeps_using_db_gen) simp_all

lemma sql_write_blocked:
  "conn w = Cache \<or> dead w \<Longrightarrow> sql_write f w = (r, w') \<Longrightarrow> tabs w' = tabs w \<and> committed w' = committed w"
  by (auto simp: sql_write_def Let_def split: list.splits option.splits if_splits sum.splits)

text \<open>A routed request runs on the cache, or on a living master in the transaction at hand.\<close>

lemma keeps_using_db_conn:
  assumes c: "\<And>w c. P (w\<lparr>conn := c\<rparr>) = P w"
    and m: "\<And>w r w'. P w \<Longrightarrow> conn w = Cache \<or> master_alive w \<Longrightarrow> m w = (r, w') \<Longrightarrow> P w'"
  shows "keeps P (using_db zero m)"
proof (rule keepsI)
  fix s r s'
  assume P: "P s" and run: "using_db zero m s = (r, s')"
  have on: "P w'" if "P w" "cn = Cache \<or> master_alive w" "on_conn cn m w = (r, w')" for w w' cn r
  proof -
    obtain r1 w1 where 1: "m (w\<lparr>conn := cn\<rparr>) = (r1, w1)" by (metis surj_pair)
    have "P w1" by (rule m [OF _ _ 1]) (use that c in auto)
    with that 1 c show ?thesis by (auto simp: on_conn_def)
  qed
  obtain r1 w1 where 1: "(if master_alive s then on_conn (tx_conn s) m s else (Inr zero, s)) = (r1, w1)"
    by (metis surj_pair)
  have P1: "P w1" using 1 P on by (auto split: if_splits)
  obtain r2 w2 where 2: "on_conn Cache m w1 = (r2, w2)" by (metis surj_pair)
  have P2: "P w2" using 2 P1 on by blast
  from run 1 2 P1 P2 show "P s'"
    unfolding using_db_def by (auto split: if_splits sum.splits)
qed

lemma tx_begin_cases:
  assumes "tx_begin w = (r, w1)" "txc w \<noteq> None"
  shows "tabs w1 = tabs w" "committed w1 = committed w" "in_tx w1" "master_alive w1 = master_alive w"
    "if in_tx w then conn w1 = tx_conn w \<and> tx_conn w1 = tx_conn w else conn w1 = conn w \<and> tx_conn w1 = conn w"
  using assms by (auto simp: tx_begin_def committed_def in_tx_def tx_conn_def split: option.splits)

lemma top_inv:
  assumes "keeps (all_tabs I) m" "keeps (\<lambda>w. txc w = None) m" "all_tabs I w \<and> txc w = None" "m w = (r, w')"
  shows "all_tabs I w' \<and> txc w' = None"
  using keepsD [OF assms(1) assms(4)] keepsD [OF assms(2) assms(4)] assms(3) by simp

lemma keeps_top_using_db [keeps_intros]: "keeps (\<lambda>w. txc w = None) m \<Longrightarrow> keeps (\<lambda>w. txc w = None) (using_db z m)"
  by (rule keeps_using_db_gen) simp_all

lemma keeps_top_read [keeps_intros]: "keeps (\<lambda>w. txc w = None) (sql_read q)"
  by (rule keepsI) (auto dest: sql_read_frame)

lemma keeps_top_first [keeps_intros]: "keeps (\<lambda>w. txc w = None) (sql_first q)"
  unfolding sql_first_def by (intro keeps_intros)

lemma keeps_top_write [keeps_intros]: "keeps (\<lambda>w. txc w = None) (sql_write q)"
  by (rule keepsI) (auto dest: sql_write_frame)

lemma keeps_top_with_tx_ctx [keeps_intros]: "keeps (\<lambda>w. txc w = None) (with_tx_ctx m)"
  by (rule keepsI) (auto elim!: with_tx_ctx_top dest: tx_end_frame)

lemma keeps_top_with_tx [keeps_intros]: "keeps (\<lambda>w. txc w = None) (with_tx z m)"
  by (rule keepsI) (auto simp: with_tx_def Let_def dest: keepsD [OF keeps_top_with_tx_ctx])

section \<open>Transactions on a healthy database\<close>

definition open_ctx :: "'k world \<Rightarrow> 'k world" where
  "open_ctx w = w\<lparr>txc := Some \<lparr>nesting = 1, begun = None, tx_dead = False\<rparr>\<rparr>"

definition enter_tx :: "'k world \<Rightarrow> 'k world" where
  "enter_tx w = w\<lparr>txc := Some \<lparr>nesting = 1, begun = Some (tabs w, Master), tx_dead = False\<rparr>\<rparr>"

lemma enter_tx_sel [simp]:
  "tabs (enter_tx w) = tabs w" "broker (enter_tx w) = broker w" "faults (enter_tx w) = faults w"
  "conn (enter_tx w) = conn w" "tabs (open_ctx w) = tabs w" "broker (open_ctx w) = broker w"
  "conn (open_ctx w) = conn w" "committed (enter_tx w) = tabs w" "in_tx (enter_tx w)"
  by (simp_all add: enter_tx_def open_ctx_def committed_def in_tx_def)

lemma enter_states [simp]: "healthy w \<Longrightarrow> live (enter_tx w)" "healthy w \<Longrightarrow> opened (open_ctx w)"
  by (auto simp: healthy_def live_def opened_def serves_def enter_tx_def open_ctx_def in_tx_def dead_def tx_conn_def
      simp del: state_serves)

lemma begin_open [simp]: "begin_tx (open_ctx w) = enter_tx w"
  by (simp add: begin_tx_def open_ctx_def enter_tx_def)

lemma leave_tx [simp]:
  "healthy w \<Longrightarrow> enter_tx w\<lparr>txc := None\<rparr> = w"
  "healthy w \<Longrightarrow> enter_tx w\<lparr>tabs := t, txc := None\<rparr> = w\<lparr>tabs := t\<rparr>"
  "healthy w \<Longrightarrow> enter_tx w\<lparr>tabs := t, broker := k, txc := None\<rparr> = w\<lparr>tabs := t, broker := k\<rparr>"
  "healthy w \<Longrightarrow> open_ctx w\<lparr>txc := None\<rparr> = w"
  by (cases w; simp add: healthy_def enter_tx_def open_ctx_def del: state_serves)+

lemma tx_end_live:
  "live w \<Longrightarrow> deferred_ok (committed w) (tabs w) \<Longrightarrow> tx_end (Inr a) w = (Inr a, w\<lparr>txc := None\<rparr>)"
  by (auto simp: tx_end_def tx_commit_def committed_def live_def in_tx_def serves_def dead_def Let_def
      simp del: state_serves split: option.splits)

lemma tx_end_Inl: "in_tx w \<Longrightarrow> tx_end (Inl e) w = (Inl e, w\<lparr>txc := None, tabs := committed w\<rparr>)"
  by (auto simp: tx_end_def committed_def in_tx_def split: option.splits)

lemma tx_end_opened: "opened w \<Longrightarrow> tx_end r w = (r, w\<lparr>txc := None\<rparr>)"
  by (auto simp: tx_end_def opened_def in_tx_def simp del: state_serves split: option.splits)

lemma with_tx_ctx_open: "txc w = None \<Longrightarrow> with_tx_ctx f w = (case f (open_ctx w) of (r, w') \<Rightarrow> tx_end r w')"
  by (simp add: with_tx_ctx_def open_ctx_def)

lemma healthy_txc: "healthy w \<Longrightarrow> txc w = None"
  by (simp add: healthy_def del: state_serves)

lemma with_tx_open:
  assumes "healthy w"
  shows "with_tx z f w = (case with_tx z f (open_ctx w) of (r, w') \<Rightarrow> tx_end r w')"
proof -
  have "with_tx z f (open_ctx w) = using_db z (then_io tx_begin f) (open_ctx w)"
    by (simp add: with_tx_def Let_def open_ctx_def)
  moreover have "with_tx z f w = with_tx_ctx (using_db z (then_io tx_begin f)) w"
    using healthy_txc [OF assms] by (simp add: with_tx_def Let_def)
  ultimately show ?thesis using healthy_txc [OF assms] by (simp add: with_tx_ctx_open)
qed

lemma with_tx_healthy [run_simps]:
  assumes "healthy w" "f (enter_tx w) = (Inr a, w')" "live w'" "committed w' = tabs w" "deferred_ok (tabs w) (tabs w')"
  shows "with_tx z f w = (Inr a, w'\<lparr>txc := None\<rparr>)"
proof -
  have "with_tx z f (open_ctx w) = (Inr a, w')"
    using assms by (intro with_tx_Inr) (simp_all add: serves_facts)
  then show ?thesis using assms by (simp add: with_tx_open tx_end_live)
qed

lemma with_tx_healthy_Inl [run_simps]:
  assumes "healthy w" "f (enter_tx w) = (Inl e, w')" "conn w' = Master" "plain_err e" "in_tx w'" "committed w' = tabs w"
  shows "with_tx z f w = (Inl e, w'\<lparr>txc := None, tabs := tabs w\<rparr>)"
proof -
  have "with_tx z f (open_ctx w) = (Inl e, w')"
    using assms by (intro with_tx_Inl) simp_all
  then show ?thesis using assms by (simp add: with_tx_open tx_end_Inl)
qed

end
