(* ===== verification/Maas_Hoare.thy ===== *)
theory Maas_Hoare
  imports Maas_World
begin

text \<open>
  Reasoning about the body of a transaction under arbitrary failures.  \<open>tx_rule P f Q\<close> states
  two things of a run of \<open>f\<close> inside a begun transaction.  Its discipline: the transaction, its
  connection and what a rollback restores stay the same, a dead transaction stays dead, nothing
  is written through the cache, and a lost master has killed the transaction.  Its effect: when
  the run returns a result and the transaction can still commit, \<open>P\<close> of the tables before gives
  \<open>Q\<close> of the result and the tables after.
\<close>

definition tx_rule :: "(tables \<Rightarrow> bool) \<Rightarrow> ('k, 'a) dbio \<Rightarrow> ('a \<Rightarrow> tables \<Rightarrow> bool) \<Rightarrow> bool" where
  "tx_rule P f Q \<longleftrightarrow> (\<forall>w r w'. in_tx w \<and> f w = (r, w') \<longrightarrow>
     (in_tx w' \<and> conn w' = conn w \<and> tx_conn w' = tx_conn w \<and> master_alive w' = master_alive w \<and>
      committed w' = committed w \<and> (dead w \<longrightarrow> dead w') \<and>
      (conn w = Cache \<and> tx_conn w = Cache \<longrightarrow> tabs w' = tabs w) \<and>
      (r = Inl UnexpectedEOF \<longrightarrow> dead w')) \<and>
     (\<forall>a. r = Inr a \<and> conn w = Master \<and> tx_conn w = Master \<and> master_alive w \<and> \<not> dead w' \<and> P (tabs w) \<longrightarrow> Q a (tabs w')))"

named_theorems tx_rules \<open>rules of the logic for transaction bodies\<close>

lemma tx_ruleI:
  assumes "\<And>w r w'. in_tx w \<Longrightarrow> f w = (r, w') \<Longrightarrow>
      in_tx w' \<and> conn w' = conn w \<and> tx_conn w' = tx_conn w \<and> master_alive w' = master_alive w \<and>
      committed w' = committed w \<and> (dead w \<longrightarrow> dead w') \<and> (conn w = Cache \<and> tx_conn w = Cache \<longrightarrow> tabs w' = tabs w) \<and>
      (r = Inl UnexpectedEOF \<longrightarrow> dead w')"
    and "\<And>w a w'. in_tx w \<Longrightarrow> f w = (Inr a, w') \<Longrightarrow> conn w = Master \<Longrightarrow> tx_conn w = Master \<Longrightarrow> master_alive w \<Longrightarrow>
      \<not> dead w' \<Longrightarrow> P (tabs w) \<Longrightarrow> Q a (tabs w')"
  shows "tx_rule P f Q"
  using assms unfolding tx_rule_def by blast

lemma tx_disciplined:
  assumes "tx_rule P f Q" "in_tx w" "f w = (r, w')"
  shows "in_tx w'" "conn w' = conn w" "tx_conn w' = tx_conn w" "master_alive w' = master_alive w"
    "committed w' = committed w" "dead w \<Longrightarrow> dead w'" "conn w = Cache \<Longrightarrow> tx_conn w = Cache \<Longrightarrow> tabs w' = tabs w"
    "r = Inl UnexpectedEOF \<Longrightarrow> dead w'"
  using assms unfolding tx_rule_def by blast+

lemma tx_effect:
  assumes "tx_rule P f Q" "in_tx w" "f w = (Inr a, w')" "conn w = Master" "tx_conn w = Master" "master_alive w"
    "\<not> dead w'" "P (tabs w)"
  shows "Q a (tabs w')"
  using assms unfolding tx_rule_def by blast

lemma tx_weaken: "tx_rule P f Q \<Longrightarrow> (\<And>t. P' t \<Longrightarrow> P t) \<Longrightarrow> (\<And>a t. Q a t \<Longrightarrow> Q' a t) \<Longrightarrow> tx_rule P' f Q'"
  unfolding tx_rule_def by blast

lemma tx_pure: "tx_rule P f Q \<Longrightarrow> tx_rule (\<lambda>t. P t \<and> b) f (\<lambda>a t. Q a t \<and> b)"
  unfolding tx_rule_def by blast

section \<open>Rules of the syntax\<close>

lemma tx_ret [tx_rules]: "(\<And>t. P t \<Longrightarrow> Q a t) \<Longrightarrow> tx_rule P (ret_io a) Q"
  by (rule tx_ruleI) auto

lemma tx_raise [tx_rules]: "e \<noteq> UnexpectedEOF \<Longrightarrow> tx_rule P (raise_io e) Q"
  by (rule tx_ruleI) auto

lemma tx_bind:
  assumes m: "tx_rule P m R" and f: "\<And>a. tx_rule (R a) (f a) Q"
  shows "tx_rule P (bind_io m f) Q"
proof (rule tx_ruleI)
  fix w r w'
  assume t: "in_tx w" and run: "bind_io m f w = (r, w')"
  obtain r1 w1 where 1: "m w = (r1, w1)" by (metis surj_pair)
  note d1 = tx_disciplined [OF m t 1]
  show "in_tx w' \<and> conn w' = conn w \<and> tx_conn w' = tx_conn w \<and> master_alive w' = master_alive w \<and>
      committed w' = committed w \<and> (dead w \<longrightarrow> dead w') \<and> (conn w = Cache \<and> tx_conn w = Cache \<longrightarrow> tabs w' = tabs w) \<and>
      (r = Inl UnexpectedEOF \<longrightarrow> dead w')"
  proof (cases r1)
    case (Inl e)
    with run 1 d1 show ?thesis by (auto simp: bind_io_def)
  next
    case (Inr a)
    with run 1 have 2: "f a w1 = (r, w')" by simp
    from d1 tx_disciplined [OF f d1(1) 2] show ?thesis by simp
  qed
next
  fix w a w'
  assume t: "in_tx w" and run: "bind_io m f w = (Inr a, w')" and c: "conn w = Master" "tx_conn w = Master" "master_alive w"
    and nd: "\<not> dead w'" and P: "P (tabs w)"
  obtain b w1 where 1: "m w = (Inr b, w1)" and 2: "f b w1 = (Inr a, w')"
    using run by (auto simp: bind_io_def split: prod.splits sum.splits)
  note d1 = tx_disciplined [OF m t 1]
  have nd1: "\<not> dead w1" using tx_disciplined(6) [OF f d1(1) 2] nd by blast
  have "R b (tabs w1)" by (rule tx_effect [OF m t 1 c nd1 P])
  then show "Q a (tabs w')" by (intro tx_effect [OF f d1(1) 2]) (use d1 c nd in auto)
qed

lemma tx_then: "tx_rule P m (\<lambda>_. R) \<Longrightarrow> tx_rule R k Q \<Longrightarrow> tx_rule P (then_io m k) Q"
  unfolding then_io_def by (rule tx_bind)

lemma tx_map_err [tx_rules]:
  assumes h: "\<And>e. h e = UnexpectedEOF \<Longrightarrow> e = UnexpectedEOF" and m: "tx_rule P m Q"
  shows "tx_rule P (map_err_io h m) Q"
proof (rule tx_ruleI)
  fix w r w'
  assume t: "in_tx w" and run: "map_err_io h m w = (r, w')"
  obtain r1 where 1: "m w = (r1, w')" "r = map_sum h id r1" using run by (auto simp: map_err_io_def split: prod.splits)
  have "r = Inl UnexpectedEOF \<Longrightarrow> r1 = Inl UnexpectedEOF" using 1(2) h by (cases r1) auto
  with tx_disciplined [OF m t 1(1)] show "in_tx w' \<and> conn w' = conn w \<and> tx_conn w' = tx_conn w \<and> master_alive w' = master_alive w \<and>
      committed w' = committed w \<and> (dead w \<longrightarrow> dead w') \<and> (conn w = Cache \<and> tx_conn w = Cache \<longrightarrow> tabs w' = tabs w) \<and>
      (r = Inl UnexpectedEOF \<longrightarrow> dead w')" by simp
next
  fix w a w'
  assume t: "in_tx w" and run: "map_err_io h m w = (Inr a, w')"
    and c: "conn w = Master" "tx_conn w = Master" "master_alive w" "\<not> dead w'" "P (tabs w)"
  obtain r1 where 1: "m w = (r1, w')" "Inr a = map_sum h id r1" using run by (auto simp: map_err_io_def split: prod.splits)
  then have "m w = (Inr a, w')" by (cases r1) simp_all
  from tx_effect [OF m t this c] show "Q a (tabs w')" .
qed

lemma tx_wrap [tx_rules]: "tx_rule P m Q \<Longrightarrow> tx_rule P (wrap_io m) Q"
proof -
  have "wrapped e = UnexpectedEOF \<Longrightarrow> e = UnexpectedEOF" for e by (cases e) auto
  then show "tx_rule P m Q \<Longrightarrow> ?thesis" unfolding wrap_io_def by (rule tx_map_err)
qed

lemma tx_opaque [tx_rules]: "tx_rule P m Q \<Longrightarrow> tx_rule P (opaque_io m) Q"
proof -
  have "opaque e = UnexpectedEOF \<Longrightarrow> e = UnexpectedEOF" for e by (cases e) auto
  then show "tx_rule P m Q \<Longrightarrow> ?thesis" unfolding opaque_io_def by (rule tx_map_err)
qed

lemma tx_attempt [tx_rules]:
  "tx_rule P m (\<lambda>a. Q (Inr a)) \<Longrightarrow> (\<And>e t. Q (Inl e) t) \<Longrightarrow> tx_rule P (attempt_io m) Q"
proof (rule tx_ruleI)
  fix w :: "'a world" and r w'
  assume m: "tx_rule P m (\<lambda>a. Q (Inr a))" and t: "in_tx w" and run: "attempt_io m w = (r, w')"
  obtain r1 where "m w = (r1, w')" using run by (auto simp: attempt_io_run split: prod.splits if_splits)
  from tx_disciplined [OF m t this] run show "in_tx w' \<and> conn w' = conn w \<and> tx_conn w' = tx_conn w \<and> master_alive w' = master_alive w \<and>
      committed w' = committed w \<and> (dead w \<longrightarrow> dead w') \<and> (conn w = Cache \<and> tx_conn w = Cache \<longrightarrow> tabs w' = tabs w) \<and>
      (r = Inl UnexpectedEOF \<longrightarrow> dead w')"
    by (auto simp: attempt_io_run split: prod.splits if_splits)
next
  fix w :: "'a world" and a w'
  assume m: "tx_rule P m (\<lambda>a. Q (Inr a))" and E: "\<And>e t. Q (Inl e) t"
    and h: "in_tx w" "attempt_io m w = (Inr a, w')" "conn w = Master" "tx_conn w = Master" "master_alive w" "\<not> dead w'" "P (tabs w)"
  then have 1: "m w = (a, w')" by (auto simp: attempt_io_run split: prod.splits if_splits)
  show "Q a (tabs w')"
  proof (cases a)
    case (Inr b)
    with tx_effect [OF m h(1) 1 [unfolded Inr] h(3-7)] show ?thesis by simp
  qed (use E in simp)
qed

lemma tx_if [tx_rules]: "(b \<Longrightarrow> tx_rule P m Q) \<Longrightarrow> (\<not> b \<Longrightarrow> tx_rule P k Q) \<Longrightarrow> tx_rule P (if b then m else k) Q"
  by simp

lemma tx_option [tx_rules]:
  "(x = None \<Longrightarrow> tx_rule P m Q) \<Longrightarrow> (\<And>a. x = Some a \<Longrightarrow> tx_rule P (f a) Q) \<Longrightarrow>
   tx_rule P (case x of None \<Rightarrow> m | Some a \<Rightarrow> f a) Q"
  by (cases x) auto

lemma tx_sum [tx_rules]:
  "(\<And>e. x = Inl e \<Longrightarrow> tx_rule P (g e) Q) \<Longrightarrow> (\<And>a. x = Inr a \<Longrightarrow> tx_rule P (f a) Q) \<Longrightarrow>
   tx_rule P (case x of Inl e \<Rightarrow> g e | Inr a \<Rightarrow> f a) Q"
  by (cases x) auto

lemma tx_when [tx_rules]:
  "(b \<Longrightarrow> tx_rule P m (\<lambda>_. Q)) \<Longrightarrow> (\<And>t. \<not> b \<Longrightarrow> P t \<Longrightarrow> Q t) \<Longrightarrow> tx_rule P (when_io b m) (\<lambda>_. Q)"
  by (simp add: when_io_def tx_ret)

section \<open>Statements\<close>

lemma stmt_frame_read:
  "sql_read q w = (r, w') \<Longrightarrow> in_tx w \<Longrightarrow>
     in_tx w' \<and> conn w' = conn w \<and> tx_conn w' = tx_conn w \<and> master_alive w' = master_alive w \<and>
     committed w' = committed w \<and> (dead w \<longrightarrow> dead w') \<and> tabs w' = tabs w \<and> (\<forall>e. r = Inl e \<longrightarrow> dead w' \<or> conn w = Cache \<and> e = Generic)"
  by (auto simp: sql_read_def Let_def dead_kill tx_conn_def kill_tx_def pop_fault_def in_tx_def committed_def dead_def
      split: list.splits option.splits if_splits)

lemma tx_read:
  assumes q: "\<And>t. P t \<Longrightarrow> Q (q t) t"
  shows "tx_rule P (sql_read q) Q"
proof (rule tx_ruleI)
  fix w r w'
  assume "in_tx w" "sql_read q w = (r, w')"
  with stmt_frame_read [of q w r w'] show "in_tx w' \<and> conn w' = conn w \<and> tx_conn w' = tx_conn w \<and> master_alive w' = master_alive w \<and>
      committed w' = committed w \<and> (dead w \<longrightarrow> dead w') \<and> (conn w = Cache \<and> tx_conn w = Cache \<longrightarrow> tabs w' = tabs w) \<and>
      (r = Inl UnexpectedEOF \<longrightarrow> dead w')" by auto
next
  fix w a w'
  assume run: "sql_read q w = (Inr a, w')" and "conn w = Master" "P (tabs w)"
  then have "a = q (tabs w)" "tabs w' = tabs w"
    by (auto simp: sql_read_def Let_def split: list.splits option.splits if_splits)
  with q \<open>P (tabs w)\<close> show "Q a (tabs w')" by simp
qed

lemma tx_write:
  assumes f: "\<And>t a t'. P t \<Longrightarrow> f t = Inr (a, t') \<Longrightarrow> Q a t'"
  shows "tx_rule P (sql_write f) Q"
proof (rule tx_ruleI)
  fix w r w'
  assume t: "in_tx w" and run: "sql_write f w = (r, w')"
  then show "in_tx w' \<and> conn w' = conn w \<and> tx_conn w' = tx_conn w \<and> master_alive w' = master_alive w \<and>
      committed w' = committed w \<and> (dead w \<longrightarrow> dead w') \<and> (conn w = Cache \<and> tx_conn w = Cache \<longrightarrow> tabs w' = tabs w) \<and>
      (r = Inl UnexpectedEOF \<longrightarrow> dead w')"
    unfolding sql_write_def Let_def
    by (auto simp: dead_kill tx_conn_def kill_tx_def pop_fault_def in_tx_def committed_def dead_def
        split: list.splits option.splits if_splits sum.splits)
next
  fix w a w'
  assume run: "sql_write f w = (Inr a, w')" and "P (tabs w)"
  then have "f (tabs w) = Inr (a, tabs w')"
    by (auto simp: sql_write_def Let_def split: list.splits option.splits if_splits sum.splits)
  with f \<open>P (tabs w)\<close> show "Q a (tabs w')" by blast
qed

lemma tx_first:
  assumes "\<And>t a. P t \<Longrightarrow> q t = Some a \<Longrightarrow> Q a t"
  shows "tx_rule P (sql_first q) Q"
  unfolding sql_first_def
  by (rule tx_bind [where R = "\<lambda>a t. P t \<and> a = q t"])
    (auto intro!: tx_read tx_rules assms simp: tx_raise split: option.split)

section \<open>Requests inside a transaction\<close>

text \<open>
  A routed request inside a transaction runs on the transaction's connection; when the master is
  lost there the transaction is dead, and what the cache answers cannot be committed.
\<close>

lemma in_tx_begun: "in_tx w \<Longrightarrow> (\<exists>c b. txc w = Some c \<and> begun c = Some (b, tx_conn w))"
  by (auto simp: in_tx_def tx_conn_def split: option.splits)

definition disciplined_run :: "(tables \<Rightarrow> bool) \<Rightarrow> ('a \<Rightarrow> tables \<Rightarrow> bool) \<Rightarrow> connection \<Rightarrow> 'k world \<Rightarrow> 'a outcome \<Rightarrow> 'k world \<Rightarrow> bool" where
  "disciplined_run P Q c w r w' \<longleftrightarrow>
     in_tx w' \<and> conn w' = conn w \<and> tx_conn w' = tx_conn w \<and> master_alive w' = master_alive w \<and>
     committed w' = committed w \<and> (dead w \<longrightarrow> dead w') \<and> (tx_conn w = Cache \<longrightarrow> tabs w' = tabs w) \<and>
     (r = Inl UnexpectedEOF \<longrightarrow> dead w') \<and>
     (\<forall>a. r = Inr a \<and> c = Master \<and> tx_conn w = Master \<and> master_alive w \<and> \<not> dead w' \<and> P (tabs w) \<longrightarrow> Q a (tabs w'))"

lemma tx_on_conn:
  assumes m: "tx_rule P m Q" and t: "in_tx w" and run: "on_conn c m w = (r, w')" and c: "c = tx_conn w \<or> c = Cache"
  shows "disciplined_run P Q c w r w'"
proof -
  obtain w1 where 1: "m (w\<lparr>conn := c\<rparr>) = (r, w1)" and w': "w' = w1\<lparr>conn := conn w\<rparr>"
    using run by (auto simp: on_conn_def split: prod.splits)
  have t1: "in_tx (w\<lparr>conn := c\<rparr>)" using t by simp
  note d = tx_disciplined [OF m t1 1]
  have u: "tx_conn (w\<lparr>conn := c\<rparr>) = tx_conn w" "tx_conn (w1\<lparr>conn := conn w\<rparr>) = tx_conn w1"
    by (simp_all add: tx_conn_def)
  show ?thesis using d u tx_effect [OF m t1] 1 c unfolding w' disciplined_run_def by auto
qed

text \<open>A nested \<open>WithTx\<close> runs on the connection of the transaction under way.\<close>

lemma tx_on_conn_begin:
  assumes m: "tx_rule P m Q" and t: "in_tx w" and run: "on_conn c (then_io tx_begin m) w = (r, w')" and c: "c = tx_conn w \<or> c = Cache"
  shows "disciplined_run P Q c w r w'"
proof -
  have "tx_begin (w\<lparr>conn := c\<rparr>) = (Inr (), w\<lparr>conn := tx_conn w\<rparr>)"
    using in_tx_begun [OF t] by (auto simp: tx_begin_def)
  with run have "on_conn (tx_conn w) m w = (r, w')" by (simp add: on_conn_def)
  from tx_on_conn [OF m t this] have "disciplined_run P Q (tx_conn w) w r w'" by simp
  then show ?thesis unfolding disciplined_run_def by simp
qed

lemma tx_using_db_gen:
  assumes on: "\<And>c w r w'. in_tx w \<Longrightarrow> on_conn c g w = (r, w') \<Longrightarrow> c = tx_conn w \<or> c = Cache \<Longrightarrow> disciplined_run P Q c w r w'"
  shows "tx_rule P (using_db z g) Q"
proof (rule tx_ruleI)
  fix w r w'
  assume t: "in_tx w" and run: "using_db z g w = (r, w')"
  obtain r1 w1 where 1: "(if master_alive w then on_conn (tx_conn w) g w else (Inr z, w)) = (r1, w1)" by (metis surj_pair)
  have d1: "in_tx w1 \<and> conn w1 = conn w \<and> tx_conn w1 = tx_conn w \<and> master_alive w1 = master_alive w \<and>
      committed w1 = committed w \<and> (dead w \<longrightarrow> dead w1) \<and> (tx_conn w = Cache \<longrightarrow> tabs w1 = tabs w) \<and> (r1 = Inl UnexpectedEOF \<longrightarrow> dead w1)"
  proof (cases "master_alive w")
    case True
    with 1 have "on_conn (tx_conn w) g w = (r1, w1)" by simp
    from on [OF t this] show ?thesis unfolding disciplined_run_def by simp
  qed (use 1 t in auto)
  obtain r2 w2 where 2: "on_conn Cache g w1 = (r2, w2)" by (metis surj_pair)
  have d2: "disciplined_run P Q Cache w1 r2 w2" using on [OF _ 2] d1 by blast
  have tr: "translateDRModeError (dr_mode w) e = UnexpectedEOF \<Longrightarrow> e = UnexpectedEOF" for e
    by (cases e) (auto split: if_splits)
  have ca: "cache_answer (dr_mode w) e \<noteq> UnexpectedEOF" for e
    by (auto simp: cache_answer_def split: if_splits)
  from run 1 2 have "w' = w1 \<and> r = map_sum (translateDRModeError (dr_mode w)) id r1 \<or>
      w' = w2 \<and> r = map_sum (cache_answer (dr_mode w)) id r2"
    unfolding using_db_def by (auto split: if_splits sum.splits)
  then show "in_tx w' \<and> conn w' = conn w \<and> tx_conn w' = tx_conn w \<and> master_alive w' = master_alive w \<and>
      committed w' = committed w \<and> (dead w \<longrightarrow> dead w') \<and> (conn w = Cache \<and> tx_conn w = Cache \<longrightarrow> tabs w' = tabs w) \<and>
      (r = Inl UnexpectedEOF \<longrightarrow> dead w')"
  proof
    assume "w' = w1 \<and> r = map_sum (translateDRModeError (dr_mode w)) id r1"
    then show ?thesis using d1 tr by (cases r1) auto
  next
    assume "w' = w2 \<and> r = map_sum (cache_answer (dr_mode w)) id r2"
    then show ?thesis using d1 d2 ca by (cases r2) (auto simp: disciplined_run_def)
  qed
next
  fix w a w'
  assume t: "in_tx w" and run: "using_db z g w = (Inr a, w')" and c: "conn w = Master" "tx_conn w = Master" "master_alive w"
    and nd: "\<not> dead w'" and P: "P (tabs w)"
  obtain r1 w1 where 1: "on_conn Master g w = (r1, w1)" by (metis surj_pair)
  have d1: "disciplined_run P Q Master w r1 w1" using on [OF t 1] c(2) by simp
  show "Q a (tabs w')"
  proof (cases r1)
    case (Inr b)
    with run 1 c have "a = b" "w' = w1" by (auto simp: using_db_def)
    with d1 Inr c nd P show ?thesis by (simp add: disciplined_run_def)
  next
    case (Inl e)
    with run 1 c have e: "e = UnexpectedEOF"
      by (auto simp: using_db_def IsMasterAvailabilityError_def split: if_splits)
    with d1 Inl have dd: "dead w1" "in_tx w1" by (auto simp: disciplined_run_def)
    obtain r2 w2 where 2: "on_conn Cache g w1 = (r2, w2)" by (metis surj_pair)
    have "w' = w2" using run 1 2 Inl e c
      by (auto simp: using_db_def IsMasterAvailabilityError_def split: if_splits sum.splits)
    moreover have "dead w2" using on [OF dd(2) 2] dd(1) by (simp add: disciplined_run_def)
    ultimately show ?thesis using nd by simp
  qed
qed

lemma tx_using_db [tx_rules]: "tx_rule P m Q \<Longrightarrow> tx_rule P (using_db z m) Q"
  by (rule tx_using_db_gen) (rule tx_on_conn)

lemma tx_cong:
  assumes e: "\<And>w. in_tx w \<Longrightarrow> f w = g w" and g: "tx_rule P g Q"
  shows "tx_rule P f Q"
proof (rule tx_ruleI)
  fix w r w'
  assume t: "in_tx w" and "f w = (r, w')"
  then have "g w = (r, w')" using e by simp
  from tx_disciplined [OF g t this] show "in_tx w' \<and> conn w' = conn w \<and> tx_conn w' = tx_conn w \<and> master_alive w' = master_alive w \<and>
      committed w' = committed w \<and> (dead w \<longrightarrow> dead w') \<and> (conn w = Cache \<and> tx_conn w = Cache \<longrightarrow> tabs w' = tabs w) \<and>
      (r = Inl UnexpectedEOF \<longrightarrow> dead w')" by blast
next
  fix w a w'
  assume t: "in_tx w" and "f w = (Inr a, w')" and h: "conn w = Master" "tx_conn w = Master" "master_alive w" "\<not> dead w'" "P (tabs w)"
  then have "g w = (Inr a, w')" using e by simp
  from tx_effect [OF g t this h] show "Q a (tabs w')" .
qed

lemma tx_with_tx [tx_rules]: "tx_rule P m Q \<Longrightarrow> tx_rule P (with_tx z m) Q"
proof -
  assume "tx_rule P m Q"
  then have "tx_rule P (using_db z (then_io tx_begin m)) Q"
    by (intro tx_using_db_gen) (rule tx_on_conn_begin)
  moreover have "with_tx z m w = using_db z (then_io tx_begin m) w" if "in_tx w" for w
    using that by (auto simp: with_tx_def Let_def in_tx_def split: option.splits)
  ultimately show ?thesis by (rule tx_cong [rotated])
qed

lemma tx_with_tx_ctx [tx_rules]:
  assumes m: "tx_rule P m Q"
  shows "tx_rule P (with_tx_ctx m) Q"
proof (rule tx_ruleI)
  fix w r w'
  assume t: "in_tx w" and run: "with_tx_ctx m w = (r, w')"
  then obtain x w1 where x: "txc w = Some x" and 1: "m (w\<lparr>txc := Some (x\<lparr>nesting := nesting x + 1\<rparr>)\<rparr>) = (r, w1)"
    and w': "w' = (case txc w1 of None \<Rightarrow> w1 | Some c' \<Rightarrow> w1\<lparr>txc := Some (c'\<lparr>nesting := nesting c' - 1\<rparr>)\<rparr>)"
    by (auto simp: with_tx_ctx_def in_tx_def split: option.splits prod.splits)
  let ?v = "w\<lparr>txc := Some (x\<lparr>nesting := nesting x + 1\<rparr>)\<rparr>"
  have v: "in_tx ?v" "conn ?v = conn w" "tx_conn ?v = tx_conn w" "committed ?v = committed w" "dead ?v = dead w"
    using t x by (auto simp: in_tx_def tx_conn_def committed_def dead_def)
  have u: "in_tx w' = in_tx w1" "conn w' = conn w1" "tx_conn w' = tx_conn w1" "committed w' = committed w1" "dead w' = dead w1"
    "tabs w' = tabs w1" "master_alive w' = master_alive w1"
    unfolding w' by (auto simp: in_tx_def tx_conn_def committed_def dead_def split: option.splits)
  from tx_disciplined [OF m v(1) 1] u v show "in_tx w' \<and> conn w' = conn w \<and> tx_conn w' = tx_conn w \<and> master_alive w' = master_alive w \<and>
      committed w' = committed w \<and> (dead w \<longrightarrow> dead w') \<and> (conn w = Cache \<and> tx_conn w = Cache \<longrightarrow> tabs w' = tabs w) \<and>
      (r = Inl UnexpectedEOF \<longrightarrow> dead w')" by simp
next
  fix w a w'
  assume t: "in_tx w" and run: "with_tx_ctx m w = (Inr a, w')" and c: "conn w = Master" "tx_conn w = Master" "master_alive w"
    and nd: "\<not> dead w'" and P: "P (tabs w)"
  then obtain x w1 where x: "txc w = Some x" and 1: "m (w\<lparr>txc := Some (x\<lparr>nesting := nesting x + 1\<rparr>)\<rparr>) = (Inr a, w1)"
    and w': "w' = (case txc w1 of None \<Rightarrow> w1 | Some c' \<Rightarrow> w1\<lparr>txc := Some (c'\<lparr>nesting := nesting c' - 1\<rparr>)\<rparr>)"
    by (auto simp: with_tx_ctx_def in_tx_def split: option.splits prod.splits)
  let ?v = "w\<lparr>txc := Some (x\<lparr>nesting := nesting x + 1\<rparr>)\<rparr>"
  have v: "in_tx ?v" "tx_conn ?v = tx_conn w" using t x by (auto simp: in_tx_def tx_conn_def)
  have u: "dead w' = dead w1" "tabs w' = tabs w1" unfolding w' by (auto simp: dead_def split: option.splits)
  show "Q a (tabs w')" using tx_effect [OF m v(1) 1] v c nd P u by simp
qed

section \<open>Whole transactions\<close>

lemma tx_end_alive: "tx_end r w = (Inr a, w') \<Longrightarrow> r = Inr a \<and> tabs w' = tabs w \<and> txc w' = None \<and> (in_tx w \<longrightarrow> \<not> dead w)"
  by (auto simp: tx_end_def tx_commit_def in_tx_def dead_def Let_def
      split: option.splits sum.splits prod.splits list.splits if_splits)

lemma begin_open_ctx:
  assumes "txc v = Some c" "begun c = None"
  obtains b where "tx_begin v = (Inr (), b)" "in_tx b" "conn b = conn v" "tx_conn b = conn v" "\<not> dead b"
    "tabs b = tabs v" "committed b = tabs v" "master_alive b = master_alive v"
  using assms by (auto simp: tx_begin_def in_tx_def tx_conn_def dead_def committed_def intro!: that)

lemma committed_conn_irrel: "tx_conn (w\<lparr>conn := c\<rparr>) = tx_conn w" "in_tx (w\<lparr>conn := c\<rparr>) = in_tx w"
  by (simp_all add: tx_conn_def in_tx_def)

text \<open>
  A transaction of its own, under any failures: either the tables are as before, or it returned
  a result and the tables are what its body promises; while the master is alive, a result always
  comes with that promise.
\<close>

lemma with_tx_sound_alive:
  assumes f: "tx_rule P f Q" and top: "txc w = None" and run: "with_tx z f w = (r, w')" and P: "P (tabs w)"
  shows "txc w' = None \<and> (tabs w' = tabs w \<or> (\<exists>a. r = Inr a \<and> Q a (tabs w'))) \<and>
    (master_alive w \<longrightarrow> (\<forall>a. r = Inr a \<longrightarrow> Q a (tabs w')))"
proof -
  let ?v = "w\<lparr>txc := Some \<lparr>nesting = 1, begun = None, tx_dead = False\<rparr>\<rparr>" and ?g = "then_io tx_begin f"
  have v: "tx_conn ?v = Master" "tabs ?v = tabs w" "committed ?v = tabs w" "\<not> in_tx ?v"
    by (simp_all add: tx_conn_def committed_def in_tx_def)
  have "with_tx_ctx (using_db z ?g) w = (r, w')" using run top by (simp add: with_tx_def Let_def)
  then obtain r2 w2 where u: "using_db z ?g ?v = (r2, w2)" and e: "tx_end r2 w2 = (r, w')"
    using with_tx_ctx_top [OF top] by metis
  have first: "on_conn c ?g ?v = (r1, w1) \<longrightarrow> in_tx w1 \<and> tx_conn w1 = c \<and> committed w1 = tabs w \<and>
      (r1 = Inl UnexpectedEOF \<longrightarrow> dead w1) \<and> (c = Cache \<longrightarrow> tabs w1 = tabs w) \<and>
      (c = Master \<and> master_alive w \<and> \<not> dead w1 \<longrightarrow> (\<forall>a. r1 = Inr a \<longrightarrow> Q a (tabs w1)))" for c r1 w1
  proof -
    obtain b where b: "tx_begin (?v\<lparr>conn := c\<rparr>) = (Inr (), b)" "in_tx b" "conn b = c" "tx_conn b = c" "\<not> dead b"
      "tabs b = tabs w" "committed b = tabs w" "master_alive b = master_alive w"
      using begin_open_ctx [of "?v\<lparr>conn := c\<rparr>" "\<lparr>nesting = 1, begun = None, tx_dead = False\<rparr>"] by auto
    obtain r3 w3 where 3: "f b = (r3, w3)" by (metis surj_pair)
    note d = tx_disciplined [OF f b(2) 3]
    have q: "Q a (tabs w3)" if "r3 = Inr a" "c = Master" "master_alive w" "\<not> dead w3" for a
      by (rule tx_effect [OF f b(2)]) (use 3 that b P in auto)
    show ?thesis
      using b 3 d q by (auto simp: on_conn_def committed_conn_irrel)
  qed
  have cases: "(\<not> master_alive w \<and> tabs w2 = tabs w \<and> committed w2 = tabs w) \<or> in_tx w2 \<and> committed w2 = tabs w \<and> (\<not> dead w2 \<longrightarrow> (\<forall>a. r2 = Inr a \<longrightarrow> Q a (tabs w2)))"
  proof (cases "master_alive w")
    case False
    obtain r3 w3 where 3: "on_conn Cache ?g ?v = (r3, w3)" by (metis surj_pair)
    have "w2 = ?v \<or> w2 = w3" using u 3 False unfolding using_db_def by (auto split: if_splits sum.splits)
    with first [of Cache r3 w3] 3 v False show ?thesis by auto
  next
    case True
    obtain r1 w1 where 1: "on_conn Master ?g ?v = (r1, w1)" by (metis surj_pair)
    note f1 = first [of Master r1 w1]
    obtain r3 w3 where 3: "on_conn Cache ?g w1 = (r3, w3)" by (metis surj_pair)
    have "w2 = w1 \<and> (\<forall>a. r2 = Inr a \<longrightarrow> r1 = Inr a) \<or> r1 = Inl UnexpectedEOF \<and> w2 = w3"
      using u 1 3 True v unfolding using_db_def
      by (auto simp: IsMasterAvailabilityError_def split: if_splits sum.splits)
    then show ?thesis
    proof
      assume "w2 = w1 \<and> (\<forall>a. r2 = Inr a \<longrightarrow> r1 = Inr a)"
      with f1 1 True show ?thesis by auto
    next
      assume h: "r1 = Inl UnexpectedEOF \<and> w2 = w3"
      then have "in_tx w1" "dead w1" "committed w1 = tabs w" using f1 1 by auto
      with tx_on_conn_begin [OF f _ 3] h show ?thesis by (simp add: disciplined_run_def)
    qed
  qed
  show ?thesis
  proof (cases r)
    case (Inl x)
    with tx_end_frame [OF e] cases show ?thesis by auto
  next
    case (Inr a)
    with tx_end_alive [of r2 w2 a w'] e cases show ?thesis by auto
  qed
qed

theorem with_tx_sound:
  assumes "tx_rule P f Q" "txc w = None" "with_tx z f w = (r, w')" "P (tabs w)"
  shows "txc w' = None \<and> (tabs w' = tabs w \<or> (\<exists>a. r = Inr a \<and> Q a (tabs w')))"
  using with_tx_sound_alive [OF assms] by blast

theorem with_tx_alive:
  assumes "tx_rule P f Q" "txc w = None" "with_tx z f w = (Inr a, w')" "P (tabs w)" "master_alive w"
  shows "Q a (tabs w')"
  using with_tx_sound_alive [OF assms(1-4)] assms(5) by blast

lemma tx_anyway: "tx_rule P f Q \<Longrightarrow> tx_rule (\<lambda>_. True) f (\<lambda>_ _. True)"
  unfolding tx_rule_def by blast

text \<open>A \<open>WithTransactionContext\<close> around one \<open>WithTx\<close> adds nothing at the top.\<close>

lemma with_tx_ctx_with_tx: "txc w = None \<Longrightarrow> with_tx_ctx (with_tx z f) w = with_tx z f w"
  by (simp add: with_tx_def with_tx_ctx_def Let_def)

section \<open>Bodies that keep an assertion\<close>

text \<open>
  \<open>stays P m\<close>: inside a transaction, \<open>m\<close> is disciplined, and whatever it returns it keeps
  \<open>P\<close> while the transaction can still commit.  Reads keep every assertion, so the rules below
  carry an assertion through a whole operation, also under \<open>attempt_io\<close>.
\<close>

definition stays :: "(tables \<Rightarrow> bool) \<Rightarrow> ('k, 'a) dbio \<Rightarrow> bool" where
  "stays P m \<longleftrightarrow> tx_rule (\<lambda>_. True) m (\<lambda>_ _. True) \<and>
     (\<forall>w r w'. in_tx w \<and> m w = (r, w') \<and> conn w = Master \<and> tx_conn w = Master \<and> master_alive w \<and>
        \<not> dead w' \<and> P (tabs w) \<longrightarrow> P (tabs w'))"

named_theorems stays_intros \<open>rules that carry an assertion through a transaction body\<close>

lemma staysI:
  assumes "tx_rule (\<lambda>_. True) m (\<lambda>_ _. True)"
    and "\<And>w r w'. in_tx w \<Longrightarrow> m w = (r, w') \<Longrightarrow> conn w = Master \<Longrightarrow> tx_conn w = Master \<Longrightarrow> master_alive w \<Longrightarrow>
      \<not> dead w' \<Longrightarrow> P (tabs w) \<Longrightarrow> P (tabs w')"
  shows "stays P m"
  using assms unfolding stays_def by blast

lemma stays_disciplined: "stays P m \<Longrightarrow> tx_rule (\<lambda>_. True) m (\<lambda>_ _. True)"
  by (simp add: stays_def)

lemma stays_keeps:
  assumes "stays P m" "in_tx w" "m w = (r, w')" "conn w = Master" "tx_conn w = Master" "master_alive w" "\<not> dead w'" "P (tabs w)"
  shows "P (tabs w')"
  using assms unfolding stays_def by blast

lemma stays_tx:
  assumes m: "stays P m"
  shows "tx_rule P m (\<lambda>_. P)"
proof (rule tx_ruleI)
  fix w r w'
  assume "in_tx w" "m w = (r, w')"
  from tx_disciplined [OF stays_disciplined [OF m] this]
  show "in_tx w' \<and> conn w' = conn w \<and> tx_conn w' = tx_conn w \<and> master_alive w' = master_alive w \<and>
      committed w' = committed w \<and> (dead w \<longrightarrow> dead w') \<and> (conn w = Cache \<and> tx_conn w = Cache \<longrightarrow> tabs w' = tabs w) \<and>
      (r = Inl UnexpectedEOF \<longrightarrow> dead w')" by blast
next
  fix w a w'
  assume "in_tx w" "m w = (Inr a, w')" "conn w = Master" "tx_conn w = Master" "master_alive w" "\<not> dead w'" "P (tabs w)"
  from stays_keeps [OF m this] show "P (tabs w')" .
qed

lemma stays_ret [stays_intros]: "stays P (ret_io a)"
  by (rule staysI) (auto intro: tx_ret)

lemma stays_raise [stays_intros]: "e \<noteq> UnexpectedEOF \<Longrightarrow> stays P (raise_io e)"
  by (rule staysI) (auto intro: tx_raise)

lemma stays_lift [stays_intros]: "r \<noteq> Inl UnexpectedEOF \<Longrightarrow> stays P (lift_io r)"
proof (rule staysI)
  assume r: "r \<noteq> Inl UnexpectedEOF"
  show "tx_rule (\<lambda>_. True) (lift_io r) (\<lambda>_ _. True)"
    by (rule tx_ruleI) (use r in \<open>auto simp: lift_io_def\<close>)
qed (simp add: lift_io_def)

lemma stays_bind [stays_intros]:
  assumes m: "stays P m" and f: "\<And>a. stays P (f a)"
  shows "stays P (bind_io m f)"
proof (rule staysI)
  show "tx_rule (\<lambda>_. True) (bind_io m f) (\<lambda>_ _. True)"
    by (rule tx_bind [OF stays_disciplined [OF m]]) (rule stays_disciplined [OF f])
  fix w r w'
  assume t: "in_tx w" and run: "bind_io m f w = (r, w')" and c: "conn w = Master" "tx_conn w = Master" "master_alive w"
    and nd: "\<not> dead w'" and P: "P (tabs w)"
  obtain r1 w1 where 1: "m w = (r1, w1)" by (metis surj_pair)
  note d1 = tx_disciplined [OF stays_disciplined [OF m] t 1]
  show "P (tabs w')"
  proof (cases r1)
    case (Inl e)
    with run 1 have "w' = w1" by (simp add: bind_io_def)
    with stays_keeps [OF m t 1 c] nd P show ?thesis by simp
  next
    case (Inr a)
    with run 1 have 2: "f a w1 = (r, w')" by simp
    have "\<not> dead w1" using tx_disciplined(6) [OF stays_disciplined [OF f] d1(1) 2] nd by blast
    from stays_keeps [OF m t 1 c this P] have "P (tabs w1)" .
    then show ?thesis by (intro stays_keeps [OF f d1(1) 2]) (use d1 c nd in simp_all)
  qed
qed

lemma stays_then [stays_intros]: "stays P m \<Longrightarrow> stays P k \<Longrightarrow> stays P (then_io m k)"
  unfolding then_io_def by (rule stays_bind)

lemma stays_map_err [stays_intros]:
  assumes h: "\<And>e. h e = UnexpectedEOF \<Longrightarrow> e = UnexpectedEOF" and m: "stays P m"
  shows "stays P (map_err_io h m)"
proof (rule staysI)
  show "tx_rule (\<lambda>_. True) (map_err_io h m) (\<lambda>_ _. True)" by (rule tx_map_err [OF h stays_disciplined [OF m]])
  fix w r w'
  assume c: "in_tx w" "conn w = Master" "tx_conn w = Master" "master_alive w" "\<not> dead w'" "P (tabs w)"
    and "map_err_io h m w = (r, w')"
  then obtain r1 where 1: "m w = (r1, w')" by (auto simp: map_err_io_def split: prod.splits)
  from stays_keeps [OF m c(1) 1] c show "P (tabs w')" by blast
qed

lemma stays_wrap [stays_intros]: "stays P m \<Longrightarrow> stays P (wrap_io m)"
proof -
  have "wrapped e = UnexpectedEOF \<Longrightarrow> e = UnexpectedEOF" for e by (cases e) auto
  then show "stays P m \<Longrightarrow> ?thesis" unfolding wrap_io_def by (rule stays_map_err)
qed

lemma stays_attempt [stays_intros]:
  assumes m: "stays P m"
  shows "stays P (attempt_io m)"
proof (rule staysI)
  show "tx_rule (\<lambda>_. True) (attempt_io m) (\<lambda>_ _. True)" by (rule tx_attempt [OF stays_disciplined [OF m]]) simp
  fix w r w'
  assume c: "in_tx w" "conn w = Master" "tx_conn w = Master" "master_alive w" "\<not> dead w'" "P (tabs w)"
    and "attempt_io m w = (r, w')"
  then obtain r1 where 1: "m w = (r1, w')" by (auto simp: attempt_io_run split: prod.splits if_splits)
  from stays_keeps [OF m c(1) 1] c show "P (tabs w')" by blast
qed

lemma stays_if [stays_intros]: "(b \<Longrightarrow> stays P m) \<Longrightarrow> (\<not> b \<Longrightarrow> stays P k) \<Longrightarrow> stays P (if b then m else k)"
  by simp

lemma stays_when [stays_intros]: "(b \<Longrightarrow> stays P m) \<Longrightarrow> stays P (when_io b m)"
  by (simp add: when_io_def stays_ret)

lemma stays_option [stays_intros]:
  "(x = None \<Longrightarrow> stays P m) \<Longrightarrow> (\<And>a. x = Some a \<Longrightarrow> stays P (f a)) \<Longrightarrow> stays P (case x of None \<Rightarrow> m | Some a \<Rightarrow> f a)"
  by (cases x) auto

lemma stays_sum [stays_intros]:
  "(\<And>e. x = Inl e \<Longrightarrow> stays P (g e)) \<Longrightarrow> (\<And>a. x = Inr a \<Longrightarrow> stays P (f a)) \<Longrightarrow> stays P (case x of Inl e \<Rightarrow> g e | Inr a \<Rightarrow> f a)"
  by (cases x) auto

lemma stays_prod [stays_intros]: "(\<And>a b. x = (a, b) \<Longrightarrow> stays P (f a b)) \<Longrightarrow> stays P (case x of (a, b) \<Rightarrow> f a b)"
  by (cases x) auto

lemma stays_list [stays_intros]:
  "(x = [] \<Longrightarrow> stays P m) \<Longrightarrow> (\<And>a as. x = a # as \<Longrightarrow> stays P (f a as)) \<Longrightarrow> stays P (case x of [] \<Rightarrow> m | a # as \<Rightarrow> f a as)"
  by (cases x) auto

lemma stays_let [stays_intros]: "(\<And>a. stays P (f a)) \<Longrightarrow> stays P (let x = b in f x)"
  by simp

lemma stays_deref [stays_intros]: "stays P (deref_io p)"
  unfolding deref_io_def by (intro stays_intros) simp

text \<open>An error that is looked at and raised again as it is.\<close>

lemma stays_reraise:
  assumes m: "stays P m" and f: "\<And>a. stays P (f a)" and g: "\<And>e. e \<noteq> UnexpectedEOF \<Longrightarrow> stays P (g e)"
    and eof: "g UnexpectedEOF = raise_io UnexpectedEOF"
  shows "stays P (bind_io (attempt_io m) (\<lambda>res. case res of Inl e \<Rightarrow> g e | Inr a \<Rightarrow> f a))" (is "stays P ?l")
proof -
  let ?g = "\<lambda>e. if e = UnexpectedEOF then raise_io Generic else g e"
  let ?r = "bind_io (attempt_io m) (\<lambda>res. case res of Inl e \<Rightarrow> ?g e | Inr a \<Rightarrow> f a)"
  have r: "stays P ?r"
    by (intro stays_bind stays_attempt m stays_sum f) (simp add: g stays_raise)
  have run: "m w = (Inl UnexpectedEOF, w') \<or> ?r w = (x, w')" if "?l w = (x, w')" for w x w'
    using that eof by (auto simp: bind_io_run attempt_io_run split: prod.splits sum.splits if_splits)
  show ?thesis
  proof (rule staysI)
    show "tx_rule (\<lambda>_. True) ?l (\<lambda>_ _. True)"
    proof (rule tx_ruleI)
      fix w x w'
      assume t: "in_tx w" and l: "?l w = (x, w')"
      from run [OF l] show "in_tx w' \<and> conn w' = conn w \<and> tx_conn w' = tx_conn w \<and> master_alive w' = master_alive w \<and>
        committed w' = committed w \<and> (dead w \<longrightarrow> dead w') \<and> (conn w = Cache \<and> tx_conn w = Cache \<longrightarrow> tabs w' = tabs w) \<and>
        (x = Inl UnexpectedEOF \<longrightarrow> dead w')"
      proof
        assume "m w = (Inl UnexpectedEOF, w')"
        from tx_disciplined [OF stays_disciplined [OF m] t this] show ?thesis by simp
      next
        assume "?r w = (x, w')"
        from tx_disciplined [OF stays_disciplined [OF r] t this] show ?thesis by simp
      qed
    qed simp
    fix w x w'
    assume t: "in_tx w" and l: "?l w = (x, w')" and c: "conn w = Master" "tx_conn w = Master" "master_alive w" "\<not> dead w'" "P (tabs w)"
    from run [OF l] show "P (tabs w')" using stays_keeps [OF m t _ c] stays_keeps [OF r t _ c] by blast
  qed
qed

lemma stays_map_io [stays_intros]: "(\<And>x. x \<in> set xs \<Longrightarrow> stays P (f x)) \<Longrightarrow> stays P (map_io f xs)"
  by (induction xs) (auto intro!: stays_intros)

lemma stays_for_each [stays_intros]: "(\<And>x. x \<in> set xs \<Longrightarrow> stays P (f x)) \<Longrightarrow> stays P (for_each f xs)"
  by (induction xs) (auto intro!: stays_intros)

lemma stays_read [stays_intros]: "stays P (sql_read q)"
  by (rule staysI) (auto intro: tx_read dest: stmt_frame_read)

lemma stays_first [stays_intros]: "stays P (sql_first q)"
  unfolding sql_first_def by (intro stays_intros) simp

lemma stays_write:
  assumes "\<And>t a t'. P t \<Longrightarrow> f t = Inr (a, t') \<Longrightarrow> P t'"
  shows "stays P (sql_write f)"
proof (rule staysI)
  show "tx_rule (\<lambda>_. True) (sql_write f) (\<lambda>_ _. True)" by (rule tx_write) simp
  fix w r w'
  assume "sql_write f w = (r, w')" "P (tabs w)"
  then show "P (tabs w')" using assms
    by (auto simp: sql_write_def Let_def split: list.splits option.splits if_splits sum.splits)
qed

lemma stays_begun: "stays P m \<Longrightarrow> in_tx w \<Longrightarrow> then_io tx_begin m w = (r, w') \<Longrightarrow> conn w = Master \<Longrightarrow> tx_conn w = Master \<Longrightarrow>
    master_alive w \<Longrightarrow> \<not> dead w' \<Longrightarrow> P (tabs w) \<Longrightarrow> P (tabs w')"
proof -
  assume m: "stays P m" and t: "in_tx w" and run: "then_io tx_begin m w = (r, w')"
    and c: "conn w = Master" "tx_conn w = Master" "master_alive w" "\<not> dead w'" "P (tabs w)"
  have "tx_begin w = (Inr (), w)" using in_tx_begun [OF t] c by (auto simp: tx_begin_def)
  with run have "m w = (r, w')" by simp
  from stays_keeps [OF m t this c] show "P (tabs w')" .
qed

text \<open>
  A lost master has killed the transaction, so the answer of the cache cannot be committed.
\<close>

lemma stays_routed:
  assumes d: "tx_rule (\<lambda>_. True) (using_db z g) (\<lambda>_ _. True)"
    and g: "\<And>w r w'. in_tx w \<Longrightarrow> g w = (r, w') \<Longrightarrow> conn w = Master \<Longrightarrow> tx_conn w = Master \<Longrightarrow> master_alive w \<Longrightarrow>
      \<not> dead w' \<Longrightarrow> P (tabs w) \<Longrightarrow> P (tabs w')"
    and on: "\<And>c w r w'. in_tx w \<Longrightarrow> on_conn c g w = (r, w') \<Longrightarrow> c = tx_conn w \<or> c = Cache \<Longrightarrow> disciplined_run (\<lambda>_. True) (\<lambda>_ _. True) c w r w'"
  shows "stays P (using_db z g)"
proof (rule staysI [OF d])
  fix w r w'
  assume t: "in_tx w" and run: "using_db z g w = (r, w')" and c: "conn w = Master" "tx_conn w = Master" "master_alive w"
    and nd: "\<not> dead w'" and P: "P (tabs w)"
  obtain r1 w1 where 1: "on_conn Master g w = (r1, w1)" by (metis surj_pair)
  have d1: "disciplined_run (\<lambda>_. True) (\<lambda>_ _. True) Master w r1 w1" using on [OF t 1] c(2) by simp
  obtain r2 w2 where 2: "on_conn Cache g w1 = (r2, w2)" by (metis surj_pair)
  have "w' = w1 \<or> r1 = Inl UnexpectedEOF \<and> w' = w2" using run 1 2 c
    by (auto simp: using_db_def IsMasterAvailabilityError_def split: if_splits sum.splits)
  then show "P (tabs w')"
  proof
    assume "w' = w1"
    moreover obtain v where "g w = (r1, v)" "w1 = v\<lparr>conn := Master\<rparr>"
      using 1 c(1) by (auto simp: on_conn_def split: prod.splits)
    ultimately show ?thesis using g [OF t _ c, of r1 v] nd P by simp
  next
    assume h: "r1 = Inl UnexpectedEOF \<and> w' = w2"
    then have "in_tx w1" "dead w1" using d1 by (auto simp: disciplined_run_def)
    then have "dead w2" using on [OF _ 2] by (simp add: disciplined_run_def)
    with h nd show ?thesis by simp
  qed
qed

lemma stays_using_db [stays_intros]:
  assumes m: "stays P m"
  shows "stays P (using_db z m)"
proof (rule stays_routed)
  show "tx_rule (\<lambda>_. True) (using_db z m) (\<lambda>_ _. True)" by (rule tx_using_db [OF stays_disciplined [OF m]])
  show "disciplined_run (\<lambda>_. True) (\<lambda>_ _. True) c w r w'"
    if "in_tx w" "on_conn c m w = (r, w')" "c = tx_conn w \<or> c = Cache" for c w r w'
    by (rule tx_on_conn [OF stays_disciplined [OF m] that])
qed (rule stays_keeps [OF m])

lemma stays_cong: "(\<And>w. in_tx w \<Longrightarrow> f w = g w) \<Longrightarrow> stays P g \<Longrightarrow> stays P f"
  by (rule staysI) (auto intro: tx_cong [OF _ stays_disciplined] stays_keeps)

lemma stays_with_tx [stays_intros]:
  assumes m: "stays P m"
  shows "stays P (with_tx z m)"
proof (rule stays_cong)
  show "with_tx z m w = using_db z (then_io tx_begin m) w" if "in_tx w" for w
    using that by (auto simp: with_tx_def Let_def in_tx_def split: option.splits)
  have on: "disciplined_run (\<lambda>_. True) (\<lambda>_ _. True) c w r w'"
    if "in_tx w" "on_conn c (then_io tx_begin m) w = (r, w')" "c = tx_conn w \<or> c = Cache" for c w r w'
    by (rule tx_on_conn_begin [OF stays_disciplined [OF m] that])
  show "stays P (using_db z (then_io tx_begin m))"
  proof (rule stays_routed)
    show "tx_rule (\<lambda>_. True) (using_db z (then_io tx_begin m)) (\<lambda>_ _. True)"
      by (rule tx_using_db_gen) (rule on)
  qed (rule stays_begun [OF m], assumption+, rule on)
qed

lemma stays_with_tx_ctx [stays_intros]:
  assumes m: "stays P m"
  shows "stays P (with_tx_ctx m)"
proof (rule staysI)
  show "tx_rule (\<lambda>_. True) (with_tx_ctx m) (\<lambda>_ _. True)" by (rule tx_with_tx_ctx [OF stays_disciplined [OF m]])
  fix w r w'
  assume t: "in_tx w" and run: "with_tx_ctx m w = (r, w')" and c: "conn w = Master" "tx_conn w = Master" "master_alive w"
    and nd: "\<not> dead w'" and P: "P (tabs w)"
  then obtain x w1 where x: "txc w = Some x" and 1: "m (w\<lparr>txc := Some (x\<lparr>nesting := nesting x + 1\<rparr>)\<rparr>) = (r, w1)"
    and w': "w' = (case txc w1 of None \<Rightarrow> w1 | Some c' \<Rightarrow> w1\<lparr>txc := Some (c'\<lparr>nesting := nesting c' - 1\<rparr>)\<rparr>)"
    by (auto simp: with_tx_ctx_def in_tx_def split: option.splits prod.splits)
  let ?v = "w\<lparr>txc := Some (x\<lparr>nesting := nesting x + 1\<rparr>)\<rparr>"
  have v: "in_tx ?v" "tx_conn ?v = tx_conn w" using t x by (auto simp: in_tx_def tx_conn_def)
  have u: "dead w' = dead w1" "tabs w' = tabs w1" unfolding w' by (auto simp: dead_def split: option.splits)
  show "P (tabs w')" using stays_keeps [OF m v(1) 1] v c nd P u by simp
qed

lemma stays_locked_with [stays_intros]: "stays P f \<Longrightarrow> stays P (with_lock l f)"
  unfolding with_lock_def by (intro stays_intros)

end
