(* ===== verification/Maas_Domain.thy ===== *)
theory Maas_Domain
  imports Maas_World
begin

text \<open>
  Blue/green domains (service/bg2/domain, with the trigger of dao/schema/22 and 25): pairs of
  namespaces with an optional controller, and the history of their states.  The data access
  functions carry the prefix \<open>dao_\<close>, the service functions the names of the source.
\<close>

section \<open>Values\<close>

record bg_namespaces =
  n_origin :: string
  n_peer :: string
  n_controller :: string

text \<open>The pointers \<open>Origin\<close> and \<open>Peer\<close> of a state are required by its validation.\<close>

record bg_state =
  st_controller :: string
  st_origin :: bg_namespace
  st_peer :: bg_namespace
  st_time :: int

definition GetActiveNamespace :: "bg_state \<Rightarrow> bg_namespace option" where
  "GetActiveNamespace s =
     (if ns_state (st_origin s) = ''active'' then Some (st_origin s)
      else if ns_state (st_peer s) = ''active'' then Some (st_peer s)
      else None)"

definition GetNotActiveNamespace :: "bg_state \<Rightarrow> bg_namespace option" where
  "GetNotActiveNamespace s =
     (if ns_state (st_origin s) \<noteq> ''active'' then Some (st_origin s)
      else if ns_state (st_peer s) \<noteq> ''active'' then Some (st_peer s)
      else None)"

definition IsMember :: "bg_namespaces \<Rightarrow> string \<Rightarrow> bool" where
  "IsMember n ns = (ns = n_controller n \<or> ns = n_origin n \<or> ns = n_peer n)"

text \<open>\<open>sql.NullString\<close>: the text of NULL is empty.\<close>

definition null_text :: "string option \<Rightarrow> string" where
  "null_text c = (case c of None \<Rightarrow> [] | Some s \<Rightarrow> s)"

definition null_string :: "string \<Rightarrow> string option" where
  "null_string s = (if s \<noteq> [] then Some s else None)"

definition toValue :: "bg_domain_row \<Rightarrow> bg_namespaces" where
  "toValue e = \<lparr>n_origin = d_origin e, n_peer = d_peer e, n_controller = null_text (d_controller e)\<rparr>"

definition checkEqual :: "bg_state_row \<Rightarrow> bg_state_row \<Rightarrow> bool" where
  "checkEqual e s2 =
     (ns_state (s_origin e) = ns_state (s_origin s2) \<and> ns_name (s_origin e) = ns_name (s_origin s2) \<and>
      ns_version (s_origin e) = ns_version (s_origin s2) \<and>
      ns_state (s_peer e) = ns_state (s_peer s2) \<and> ns_name (s_peer e) = ns_name (s_peer s2) \<and>
      ns_version (s_peer e) = ns_version (s_peer s2))"

section \<open>The table bg_domains\<close>

text \<open>
  The trigger \<open>bg_domains_unique\<close>, before insert only: a comparison with NULL is not true.
  \<open>used_by r x\<close> is \<open>lower(x) in (lower(origin), lower(peer), lower(controller))\<close>.
\<close>

definition used_by :: "bg_domain_row \<Rightarrow> string \<Rightarrow> bool" where
  "used_by r x = (to_lower x = to_lower (d_origin r) \<or> to_lower x = to_lower (d_peer r) \<or>
     (case d_controller r of None \<Rightarrow> False | Some c \<Rightarrow> to_lower x = to_lower c))"

definition bg_domains_unique :: "bg_domain_row list \<Rightarrow> bg_domain_row \<Rightarrow> bool" where
  "bg_domains_unique rows new =
     (if to_lower (d_origin new) = to_lower (d_peer new) \<or>
         (case d_controller new of None \<Rightarrow> False
          | Some c \<Rightarrow> to_lower (d_origin new) = to_lower c \<or> to_lower (d_peer new) = to_lower c)
      then False
      else if list_ex (\<lambda>r. used_by r (d_origin new)) rows then False
      else if list_ex (\<lambda>r. used_by r (d_peer new)) rows then False
      else (case d_controller new of None \<Rightarrow> True
            | Some c \<Rightarrow> \<not> list_ex (\<lambda>r. used_by r c) rows))"

text \<open>\<open>varchar(100)\<close> for the pair and \<open>varchar(63)\<close> for the controller.\<close>

definition domain_fits :: "bg_domain_row \<Rightarrow> bool" where
  "domain_fits r = (length (d_origin r) \<le> 100 \<and> length (d_peer r) \<le> 100 \<and> length (null_text (d_controller r)) \<le> 63)"

definition insert_domain :: "string \<Rightarrow> string \<Rightarrow> string option \<Rightarrow> tables \<Rightarrow> (unit \<times> tables) outcome" where
  "insert_domain orig peer ctr t =
     (let new = \<lparr>d_id = next_id t, d_controller = ctr, d_origin = orig, d_peer = peer\<rparr> in
      if \<not> bg_domains_unique (bg_domains t) new then Inl UniqueViolation
      else if \<not> domain_fits new then Inl Generic
      else Inr ((), t\<lparr>next_id := next_id t + 1, bg_domains := bg_domains t @ [new]\<rparr>))"

definition save_domain :: "bg_domain_row \<Rightarrow> tables \<Rightarrow> (unit \<times> tables) outcome" where
  "save_domain d t =
     (if \<not> domain_fits d then Inl Generic
      else Inr ((), t\<lparr>bg_domains := map (\<lambda>r. if d_id r = d_id d then d else r) (bg_domains t)\<rparr>))"

definition domain_has :: "string \<Rightarrow> bg_domain_row \<Rightarrow> bool" where
  "domain_has ns r = (ns = d_origin r \<or> ns = d_peer r \<or> d_controller r = Some ns)"

definition pair_matches :: "string \<Rightarrow> bg_domain_row \<Rightarrow> bool" where
  "pair_matches ns r = (to_lower ns = to_lower (d_origin r) \<or> to_lower ns = to_lower (d_peer r))"

text \<open>The rows deleted take their states with them (\<open>on delete cascade\<close>).\<close>

definition delete_domains :: "string \<Rightarrow> tables \<Rightarrow> (bg_domain_row list \<times> tables) outcome" where
  "delete_domains ns t =
     (let gone = [r \<leftarrow> bg_domains t. pair_matches ns r] in
      Inr (gone, t\<lparr>bg_domains := [r \<leftarrow> bg_domains t. \<not> pair_matches ns r],
                   bg_states := [s \<leftarrow> bg_states t. s_domain s \<notin> d_id ` set gone]\<rparr>))"

definition set_controller :: "nat \<Rightarrow> string \<Rightarrow> string \<Rightarrow> tables \<Rightarrow> (nat \<times> tables) outcome" where
  "set_controller did orig ctr t =
     (let hit = (\<lambda>r. d_id r = did \<and> pair_matches orig r) in
      if length ctr > 63 \<and> list_ex hit (bg_domains t) then Inl Generic
      else Inr (length [r \<leftarrow> bg_domains t. hit r],
                t\<lparr>bg_domains := map (\<lambda>r. if hit r then r\<lparr>d_controller := Some ctr\<rparr> else r) (bg_domains t)\<rparr>))"

section \<open>Data access (bg_domain_dao.go)\<close>

definition zero_domain :: bg_domain_row where
  "zero_domain = \<lparr>d_id = 0, d_controller = None, d_origin = [], d_peer = []\<rparr>"

definition dao_List :: "('k, bg_domain_row list) dbio" where
  "dao_List = using_db [] (sql_read bg_domains)"

definition dao_FindByNamespace :: "string \<Rightarrow> ('k, bg_domain_row option) dbio" where
  "dao_FindByNamespace ns =
     bind_io (attempt_io (using_db zero_domain
                (sql_first (\<lambda>t. first_by d_id [r \<leftarrow> bg_domains t. domain_has ns r]))))
       (\<lambda>res. case res of
          Inl e \<Rightarrow> if is_record_not_found e then ret_io None else raise_io e
        | Inr d \<Rightarrow> ret_io (Some d))"

definition bind_body :: "string \<Rightarrow> string \<Rightarrow> string \<Rightarrow> ('k, unit) dbio" where
  "bind_body left right controller =
     bind_io (wrap_io (dao_FindByNamespace left)) (\<lambda>bgEntity.
       case bgEntity of
         Some d \<Rightarrow>
           if null_text (d_controller d) = []
           then sql_write (save_domain (d\<lparr>d_controller := null_string controller\<rparr>))
           else sql_write (insert_domain left right (null_string controller))
       | None \<Rightarrow> sql_write (insert_domain left right (null_string controller)))"

definition dao_Bind :: "string \<Rightarrow> string \<Rightarrow> string \<Rightarrow> ('k, unit) dbio" where
  "dao_Bind left right controller = with_tx () (bind_body left right controller)"

text \<open>\<open>RowsAffected\<close> is looked at before the error of the statement, which is then lost.\<close>

definition dao_Unbind :: "string \<Rightarrow> ('k, bg_domain_row) dbio" where
  "dao_Unbind ns =
     with_tx zero_domain (bind_io (attempt_io (sql_write (delete_domains ns))) (\<lambda>res.
       case res of
         Inl e \<Rightarrow> raise_io Generic
       | Inr [] \<Rightarrow> raise_io Generic
       | Inr (d # _) \<Rightarrow> ret_io d))"

definition dao_UpdateController :: "string \<Rightarrow> string \<Rightarrow> ('k, unit) dbio" where
  "dao_UpdateController orig controller =
     with_tx () (bind_io (wrap_io (dao_FindByNamespace orig)) (\<lambda>domain.
       case domain of
         None \<Rightarrow> raise_io BadRequest
       | Some d \<Rightarrow>
           if null_text (d_controller d) = [] then
             bind_io (wrap_io (sql_write (set_controller (d_id d) orig controller)))
               (\<lambda>affected. if affected \<noteq> 1 then raise_io Generic else ret_io ())
           else if null_text (d_controller d) = controller then ret_io ()
           else raise_io BadRequest))"

section \<open>The table bg_states\<close>

definition insert_state :: "nat \<Rightarrow> bg_namespace \<Rightarrow> bg_namespace \<Rightarrow> int \<Rightarrow> tables \<Rightarrow> (unit \<times> tables) outcome" where
  "insert_state did orig peer time t =
     (if \<not> list_ex (\<lambda>r. d_id r = did) (bg_domains t) then Inl ForeignKeyViolation
      else Inr ((), t\<lparr>next_id := next_id t + 1, bg_states := bg_states t @
             [\<lparr>s_id = next_id t, s_domain = did, s_origin = orig, s_peer = peer, s_time = time\<rparr>]\<rparr>))"

text \<open>
  \<open>delete from bg_states where id in (select id from bg_states order by update_time desc offset n)\<close>.
  SQL leaves the order of equal times open; the model keeps their order of insertion.
\<close>

definition newest_first :: "bg_state_row list \<Rightarrow> bg_state_row list" where
  "newest_first rows = sort_key (\<lambda>s. - s_time s) rows"

definition delete_obsolete :: "nat \<Rightarrow> tables \<Rightarrow> (unit \<times> tables) outcome" where
  "delete_obsolete n t =
     (let old = s_id ` set (drop n (newest_first (bg_states t)))
      in Inr ((), t\<lparr>bg_states := [s \<leftarrow> bg_states t. s_id s \<notin> old]\<rparr>))"

definition dao_DeleteObsoleteStates :: "nat \<Rightarrow> ('k, unit) dbio" where
  "dao_DeleteObsoleteStates n = with_tx () (sql_write (delete_obsolete n))"

definition dao_UpdateState :: "nat \<Rightarrow> bg_namespace \<Rightarrow> bg_namespace \<Rightarrow> int \<Rightarrow> ('k, unit) dbio" where
  "dao_UpdateState did orig peer time =
     with_tx () (then_io (wrap_io (sql_write (insert_state did orig peer time)))
                         (wrap_io (dao_DeleteObsoleteStates 100)))"

definition zero_state :: bg_state_row where
  "zero_state = (let n = \<lparr>ns_name = [], ns_state = [], ns_version = []\<rparr>
     in \<lparr>s_id = 0, s_domain = 0, s_origin = n, s_peer = n, s_time = 0\<rparr>)"

text \<open>\<open>First\<close> adds the primary key to the order, so of equal times the oldest row wins.\<close>

definition latest_state :: "nat \<Rightarrow> bg_state_row list \<Rightarrow> bg_state_row option" where
  "latest_state did rows = first_by (\<lambda>s. - s_time s) (sort_key s_id [s \<leftarrow> rows. s_domain s = did])"

definition dao_GetState :: "nat \<Rightarrow> ('k, bg_state_row option) dbio" where
  "dao_GetState did =
     bind_io (attempt_io (using_db zero_state (sql_first (\<lambda>t. latest_state did (bg_states t)))))
       (\<lambda>res. case res of
          Inl e \<Rightarrow> if is_record_not_found e then ret_io None else raise_io e
        | Inr s \<Rightarrow> ret_io (Some s))"

section \<open>Service (bg_domain_service.go)\<close>

definition domain_List :: "('k, bg_namespaces list) dbio" where
  "domain_List = bind_io (wrap_io dao_List) (\<lambda>es. ret_io (map toValue es))"

definition Bind :: "string \<Rightarrow> string \<Rightarrow> string \<Rightarrow> ('k, unit) dbio" where
  "Bind orig peer controller = wrap_io (dao_Bind orig peer controller)"

definition UpdateController :: "string \<Rightarrow> string \<Rightarrow> ('k, unit) dbio" where
  "UpdateController orig controller = wrap_io (dao_UpdateController orig controller)"

definition FindByNamespace :: "string \<Rightarrow> ('k, bg_namespaces option) dbio" where
  "FindByNamespace ns = bind_io (wrap_io (dao_FindByNamespace ns)) (\<lambda>res. ret_io (map_option toValue res))"

definition Unbind :: "string \<Rightarrow> ('k, bg_namespaces) dbio" where
  "Unbind ns = bind_io (wrap_io (dao_Unbind ns)) (\<lambda>d. ret_io (toValue d))"

definition InsertBgState :: "bg_state \<Rightarrow> ('k, unit) dbio" where
  "InsertBgState state =
     bind_io (wrap_io (dao_FindByNamespace (ns_name (st_origin state)))) (\<lambda>domain.
       case domain of
         None \<Rightarrow> raise_io BadRequest
       | Some d \<Rightarrow>
           if d_origin d \<noteq> ns_name (st_origin state) \<or> d_peer d \<noteq> ns_name (st_peer state)
           then raise_io BadRequest
           else wrap_io (dao_UpdateState (d_id d) (st_origin state) (st_peer state) (st_time state)))"

definition GetCurrentBgStateByNamespace :: "string \<Rightarrow> ('k, bg_state option) dbio" where
  "GetCurrentBgStateByNamespace ns =
     bind_io (wrap_io (dao_FindByNamespace ns)) (\<lambda>domain.
       case domain of
         None \<Rightarrow> ret_io None
       | Some d \<Rightarrow>
           bind_io (wrap_io (dao_GetState (d_id d))) (\<lambda>entity.
             ret_io (map_option (\<lambda>e. \<lparr>st_controller = null_text (d_controller d), st_origin = s_origin e,
                                     st_peer = s_peer e, st_time = s_time e\<rparr>) entity)))"

section \<open>Invariant of the tables\<close>

text \<open>
  Domains have distinct ids and share no namespace of their pairs, without regard to case; every
  state belongs to a domain.  Controllers are left out: the trigger guards insertion only, so an
  update can give two domains the same controller.
\<close>

definition pair_of :: "bg_domain_row \<Rightarrow> string set" where
  "pair_of r = {to_lower (d_origin r), to_lower (d_peer r)}"

definition pairs_disjoint :: "bg_domain_row list \<Rightarrow> bool" where
  "pairs_disjoint rows \<longleftrightarrow> distinct (map d_id rows) \<and>
     (\<forall>r \<in> set rows. to_lower (d_origin r) \<noteq> to_lower (d_peer r)) \<and>
     (\<forall>r \<in> set rows. \<forall>r' \<in> set rows. d_id r \<noteq> d_id r' \<longrightarrow> pair_of r \<inter> pair_of r' = {})"

definition domains_inv :: "tables \<Rightarrow> bool" where
  "domains_inv t \<longleftrightarrow> pairs_disjoint (bg_domains t) \<and> (\<forall>r \<in> set (bg_domains t). d_id r < next_id t) \<and>
     distinct (map s_id (bg_states t)) \<and>
     (\<forall>s \<in> set (bg_states t). s_id s < next_id t \<and> s_domain s \<in> set (map d_id (bg_domains t)))"

lemma pair_used: "x \<in> pair_of r \<Longrightarrow> to_lower y = x \<Longrightarrow> used_by r y"
  by (auto simp: pair_of_def used_by_def)

lemma pairs_disjoint_insert:
  assumes "pairs_disjoint rows" "\<forall>r \<in> set rows. d_id r < d_id new" "bg_domains_unique rows new"
  shows "pairs_disjoint (rows @ [new])"
proof -
  have n: "to_lower (d_origin new) \<noteq> to_lower (d_peer new)"
    and u: "\<forall>r \<in> set rows. \<not> used_by r (d_origin new) \<and> \<not> used_by r (d_peer new)"
    using assms(3) by (auto simp: bg_domains_unique_def list_ex_iff split: if_splits option.splits)
  have d: "pair_of r \<inter> pair_of new = {}" if "r \<in> set rows" for r
    using u that by (auto simp: pair_of_def used_by_def)
  show ?thesis using assms(1,2) n d unfolding pairs_disjoint_def
    by (auto simp: Int_commute)
qed

definition same_pairs :: "bg_domain_row list \<Rightarrow> bg_domain_row list \<Rightarrow> bool" where
  "same_pairs rows rows' \<longleftrightarrow>
     map (\<lambda>r. (d_id r, d_origin r, d_peer r)) rows = map (\<lambda>r. (d_id r, d_origin r, d_peer r)) rows'"

lemma same_pairs_map:
  "(\<And>r. r \<in> set rows \<Longrightarrow> d_id (f r) = d_id r \<and> d_origin (f r) = d_origin r \<and> d_peer (f r) = d_peer r) \<Longrightarrow>
     same_pairs rows (map f rows)"
  by (simp add: same_pairs_def)

lemma same_pairs_ids: "same_pairs rows rows' \<Longrightarrow> map d_id rows' = map d_id rows"
  unfolding same_pairs_def by (drule arg_cong [where f = "map fst"]) (simp add: comp_def)

lemma same_pairs_row:
  assumes "same_pairs rows rows'" "r' \<in> set rows'"
  shows "\<exists>r \<in> set rows. d_id r = d_id r' \<and> d_origin r = d_origin r' \<and> d_peer r = d_peer r'"
proof -
  have "set (map (\<lambda>r. (d_id r, d_origin r, d_peer r)) rows) = set (map (\<lambda>r. (d_id r, d_origin r, d_peer r)) rows')"
    using assms(1) unfolding same_pairs_def by (rule arg_cong)
  moreover have "(d_id r', d_origin r', d_peer r') \<in> set (map (\<lambda>r. (d_id r, d_origin r, d_peer r)) rows')"
    using assms(2) by auto
  ultimately have "(d_id r', d_origin r', d_peer r') \<in> set (map (\<lambda>r. (d_id r, d_origin r, d_peer r)) rows)"
    by (simp only:)
  then show ?thesis by auto
qed

lemma pairs_disjoint_same:
  assumes "pairs_disjoint rows" and s: "same_pairs rows rows'"
  shows "pairs_disjoint rows'"
  unfolding pairs_disjoint_def
proof (intro conjI ballI impI)
  show "distinct (map d_id rows')" using assms same_pairs_ids [OF s] by (simp add: pairs_disjoint_def)
  fix r' assume r': "r' \<in> set rows'"
  obtain r where r: "r \<in> set rows" "d_id r = d_id r'" "d_origin r = d_origin r'" "d_peer r = d_peer r'"
    using same_pairs_row [OF s r'] by auto
  show "to_lower (d_origin r') \<noteq> to_lower (d_peer r')"
    using assms(1) r by (auto simp: pairs_disjoint_def)
  fix q' assume q': "q' \<in> set rows'" and ne: "d_id r' \<noteq> d_id q'"
  obtain q where q: "q \<in> set rows" "d_id q = d_id q'" "d_origin q = d_origin q'" "d_peer q = d_peer q'"
    using same_pairs_row [OF s q'] by auto
  have "pair_of r \<inter> pair_of q = {}" using assms(1) r q ne by (simp add: pairs_disjoint_def)
  with r q show "pair_of r' \<inter> pair_of q' = {}" by (simp add: pair_of_def)
qed

lemma domains_inv_same:
  assumes "domains_inv t" "same_pairs (bg_domains t) rows"
  shows "domains_inv (t\<lparr>bg_domains := rows\<rparr>)"
proof -
  have "\<forall>r \<in> set rows. d_id r < next_id t"
    using assms same_pairs_row [OF assms(2)] unfolding domains_inv_def by metis
  moreover have "pairs_disjoint rows"
    using assms pairs_disjoint_same unfolding domains_inv_def by blast
  ultimately show ?thesis using assms same_pairs_ids [OF assms(2)]
    unfolding domains_inv_def by (simp del: set_map)
qed

lemma pairs_disjoint_filter: "pairs_disjoint rows \<Longrightarrow> pairs_disjoint (filter P rows)"
  unfolding pairs_disjoint_def by (auto simp: distinct_map_filter)

lemma inv_insert_domain: "domains_inv t \<Longrightarrow> insert_domain o1 p c t = Inr (a, t') \<Longrightarrow> domains_inv t'"
  unfolding domains_inv_def insert_domain_def Let_def
  by (auto split: if_splits intro!: pairs_disjoint_insert) (fastforce+)

lemma inv_save_domain:
  assumes i: "domains_inv t" and d: "d \<in> set (bg_domains t)"
    and s: "save_domain (d\<lparr>d_controller := c\<rparr>) t = Inr (a, t')"
  shows "domains_inv t'"
proof -
  let ?f = "\<lambda>r. if d_id r = d_id d then d\<lparr>d_controller := c\<rparr> else r"
  have same: "r = d" if "r \<in> set (bg_domains t)" "d_id r = d_id d" for r
    using i d that unfolding domains_inv_def pairs_disjoint_def by (meson distinct_map inj_onD)
  have "same_pairs (bg_domains t) (map ?f (bg_domains t))"
    by (rule same_pairs_map) (use same in force)
  moreover have "t' = t\<lparr>bg_domains := map ?f (bg_domains t)\<rparr>"
    using s by (auto simp: save_domain_def split: if_splits)
  ultimately show ?thesis using domains_inv_same [OF i] by simp
qed

lemma inv_delete_domains:
  assumes "domains_inv t" "delete_domains ns t = Inr (a, t')"
  shows "domains_inv t'"
proof -
  let ?gone = "d_id ` set [r \<leftarrow> bg_domains t. pair_matches ns r]"
  have t': "t' = t\<lparr>bg_domains := [r \<leftarrow> bg_domains t. \<not> pair_matches ns r],
      bg_states := [s \<leftarrow> bg_states t. s_domain s \<notin> ?gone]\<rparr>"
    using assms(2) by (auto simp: delete_domains_def Let_def)
  have "s_domain s \<in> set (map d_id [r \<leftarrow> bg_domains t. \<not> pair_matches ns r])"
    if m: "s \<in> set (bg_states t)" and g: "s_domain s \<notin> ?gone" for s
  proof -
    obtain x where "x \<in> set (bg_domains t)" "s_domain s = d_id x"
      using assms(1) m by (auto simp: domains_inv_def)
    with g show ?thesis by auto
  qed
  then have fk: "\<forall>s \<in> set (bg_states t'). s_domain s \<in> set (map d_id (bg_domains t'))"
    unfolding t' by simp
  show ?thesis unfolding domains_inv_def
  proof (intro conjI)
    show "\<forall>s \<in> set (bg_states t'). s_id s < next_id t' \<and> s_domain s \<in> set (map d_id (bg_domains t'))"
      using assms(1) fk unfolding domains_inv_def t' by auto
  qed (use assms(1) in \<open>auto simp: domains_inv_def t' distinct_map_filter intro!: pairs_disjoint_filter\<close>)
qed

lemma inv_set_controller:
  assumes "domains_inv t" "set_controller i orig c t = Inr (a, t')"
  shows "domains_inv t'"
proof -
  obtain P where "t' = t\<lparr>bg_domains := map (\<lambda>r. if P r then r\<lparr>d_controller := Some c\<rparr> else r) (bg_domains t)\<rparr>"
    using assms(2) by (auto simp: set_controller_def Let_def split: if_splits)
  then show ?thesis using domains_inv_same [OF assms(1) same_pairs_map] by auto
qed

lemma inv_insert_state: "domains_inv t \<Longrightarrow> insert_state i x y z t = Inr (a, t') \<Longrightarrow> domains_inv t'"
  unfolding domains_inv_def insert_state_def Let_def
  by (fastforce simp: list_ex_iff image_iff split: if_splits)

lemma inv_delete_obsolete: "domains_inv t \<Longrightarrow> delete_obsolete n t = Inr (a, t') \<Longrightarrow> domains_inv t'"
  unfolding domains_inv_def delete_obsolete_def Let_def
  by (auto simp: distinct_map_filter)
lemmas domain_table_inv =
  inv_insert_domain inv_set_controller inv_delete_domains inv_insert_state inv_delete_obsolete

section \<open>Preservation\<close>

lemma keeps_dao_Find [keeps_intros]:
  "keeps (in_ctx T) (dao_FindByNamespace ns)" "keeps (in_begun T) (dao_FindByNamespace ns)"
  "keeps (all_tabs I) (dao_FindByNamespace ns)"
  unfolding dao_FindByNamespace_def by (intro keeps_intros)+

lemma transactional_domain:
  "transactional (Bind orig peer c)" "transactional (UpdateController orig c)" "transactional (Unbind ns)"
  "transactional (InsertBgState st)" "transactional (FindByNamespace ns)"
  "transactional (GetCurrentBgStateByNamespace ns)" "transactional domain_List"
  unfolding Bind_def UpdateController_def Unbind_def InsertBgState_def FindByNamespace_def
    GetCurrentBgStateByNamespace_def dao_Bind_def bind_body_def dao_UpdateController_def dao_Unbind_def dao_UpdateState_def
    dao_DeleteObsoleteStates_def dao_GetState_def domain_List_def dao_List_def
  by (rule transactionalI; intro keeps_intros)+

lemma keeps_domain_inv [keeps_intros]:
  "keeps (all_tabs domains_inv) (UpdateController orig c)" "keeps (all_tabs domains_inv) (Unbind ns)"
  "keeps (all_tabs domains_inv) (InsertBgState st)"
  unfolding UpdateController_def Unbind_def InsertBgState_def 
    dao_UpdateController_def dao_Unbind_def dao_UpdateState_def dao_DeleteObsoleteStates_def
  by (intro keeps_intros; erule (1) domain_table_inv)+

lemma find_row:
  assumes run: "dao_FindByNamespace ns w = (Inr (Some d), w')" and "in_tx w"
    and c: "conn w = Cache \<or> master_alive w \<and> tx_conn w = Master"
  shows "conn w' = Cache \<or> dead w' \<or> d \<in> set (bg_domains (tabs w'))"
proof -
  have "using_db zero_domain (sql_first (\<lambda>t. first_by d_id [r \<leftarrow> bg_domains t. domain_has ns r])) w = (Inr d, w')"
    using run by (auto simp: dao_FindByNamespace_def bind_io_def attempt_io_def split: prod.splits sum.splits if_splits)
  from using_db_first [OF this assms(2) c] show ?thesis by (auto dest: first_by_Some)
qed

lemma same_tx_bind_body: "keeps (same_tx w) (bind_body l r c)"
  unfolding bind_body_def dao_FindByNamespace_def by (intro keeps_intros)

lemma inv_save_statement:
  assumes "all_tabs domains_inv w" "conn w = Cache \<or> dead w \<or> d \<in> set (bg_domains (tabs w))"
    and run: "sql_write (save_domain (d\<lparr>d_controller := c\<rparr>)) w = (r, w')"
  shows "all_tabs domains_inv w'"
proof (cases "conn w = Cache \<or> dead w")
  case True
  from sql_write_blocked [OF this run] assms(1) show ?thesis by (simp add: all_tabs_def)
next
  case False
  then have "d \<in> set (bg_domains (tabs w))" using assms(2) by simp
  with sql_write_frame [OF run] assms(1) inv_save_domain show ?thesis
    by (auto simp: all_tabs_def)
qed

lemma inv_bind_body:
  assumes i: "all_tabs domains_inv w" and "in_tx w"
    and c: "conn w = Cache \<or> master_alive w \<and> tx_conn w = Master"
    and run: "bind_body left right controller w = (res, w')"
  shows "all_tabs domains_inv w'"
proof -
  have ins: "keeps (all_tabs domains_inv) (sql_write (insert_domain left right (null_string controller)))"
    by (intro keeps_intros) (erule (1) inv_insert_domain)
  obtain r1 w1 where 1: "dao_FindByNamespace left w = (r1, w1)" by (metis surj_pair)
  have i1: "all_tabs domains_inv w1" using keepsD [OF keeps_dao_Find(3) 1 i] .
  show ?thesis
  proof (cases "\<exists>d. r1 = Inr (Some d) \<and> null_text (d_controller d) = []")
    case True
    then obtain d where d: "r1 = Inr (Some d)" "null_text (d_controller d) = []" by blast
    with run 1 have "sql_write (save_domain (d\<lparr>d_controller := null_string controller\<rparr>)) w1 = (res, w')"
      by (simp add: bind_body_def)
    from inv_save_statement [OF i1 _ this] find_row [OF _ assms(2) c] 1 d show ?thesis by blast
  next
    case False
    with run 1 i1 show ?thesis
      by (cases r1) (auto simp: bind_body_def split: option.splits dest: keepsD [OF ins])
  qed
qed

definition bind_inv :: "'k world \<Rightarrow> bool" where
  "bind_inv w \<longleftrightarrow> all_tabs domains_inv w \<and> txc w \<noteq> None \<and> (in_tx w \<longrightarrow> tx_conn w = Cache \<or> master_alive w)"

lemma inv_bind_exec:
  assumes i: "bind_inv w" and c: "conn w = Cache \<or> master_alive w"
    and run: "then_io tx_begin (bind_body left right controller) w = (res, w')"
  shows "bind_inv w'"
proof -
  obtain r1 w1 where b: "tx_begin w = (r1, w1)" by (metis surj_pair)
  have t: "txc w \<noteq> None" using i by (simp add: bind_inv_def)
  note w1 = tx_begin_cases [OF b t]
  have run1: "bind_body left right controller w1 = (res, w')"
    using run b tx_begin_frame [OF b t] by simp
  have c1: "conn w1 = Cache \<or> master_alive w1 \<and> tx_conn w1 = Master"
    using w1 i c by (auto simp: bind_inv_def split: if_splits intro: connection.exhaust)
  have "all_tabs domains_inv w1" using w1 i by (simp add: bind_inv_def all_tabs_def)
  from inv_bind_body [OF this w1(3) c1 run1] have "all_tabs domains_inv w'" .
  moreover have "same_tx w1 w'"
    by (rule keepsD [OF same_tx_bind_body run1]) (simp add: same_tx_def)
  ultimately show ?thesis using w1 c1 i
    by (auto simp: bind_inv_def same_tx_def in_tx_def split: if_splits option.splits) 
qed

lemma Bind_inv:
  assumes i: "all_tabs domains_inv w" and t: "txc w = None" and run: "Bind orig peer c w = (r, w')"
  shows "all_tabs domains_inv w' \<and> txc w' = None"
proof -
  have k: "keeps bind_inv (using_db () (then_io tx_begin (bind_body orig peer c)))"
    by (rule keeps_using_db_conn) (simp add: bind_inv_def all_tabs_def tx_conn_def, rule inv_bind_exec)
  obtain r1 w1 where 1: "with_tx () (bind_body orig peer c) w = (r1, w1)" by (metis surj_pair)
  then have "with_tx_ctx (using_db () (then_io tx_begin (bind_body orig peer c))) w = (r1, w1)"
    using t by (simp add: with_tx_def Let_def)
  from with_tx_ctx_top [OF t this] obtain r2 w2
    where 2: "using_db () (then_io tx_begin (bind_body orig peer c)) (w\<lparr>txc := Some \<lparr>nesting = 1, begun = None, tx_dead = False\<rparr>\<rparr>) = (r2, w2)"
      and e: "tx_end r2 w2 = (r1, w1)" .
  have "bind_inv w2" using keepsD [OF k 2] i t by (auto simp: bind_inv_def all_tabs_def committed_def in_tx_def)
  with tx_end_frame [OF e] have "all_tabs domains_inv w1 \<and> txc w1 = None"
    by (auto simp: bind_inv_def all_tabs_def committed_def split: sum.splits)
  moreover have "w' = w1" using run 1 by (auto simp: Bind_def dao_Bind_def wrap_io_run split: prod.splits sum.splits)
  ultimately show ?thesis by simp
qed

text \<open>
  A run of the component: any sequence of requests and of changes of the environment (the
  faults to come, the availability of the master, the content of the cache, the brokers) from
  empty tables.  A request starts without a transaction.
\<close>

inductive domain_step :: "'k world \<Rightarrow> 'k world \<Rightarrow> bool" where
  step_bind: "Bind orig peer ctr w = (r, w') \<Longrightarrow> domain_step w w'"
| step_update: "UpdateController orig ctr w = (r, w') \<Longrightarrow> domain_step w w'"
| step_unbind: "Unbind ns w = (u, w') \<Longrightarrow> domain_step w w'"
| step_state: "InsertBgState st w = (r, w') \<Longrightarrow> domain_step w w'"
| step_env: "domain_step w (w\<lparr>faults := fs, master_alive := b, cache := ca, dr_mode := m, broker := k\<rparr>)"

inductive domain_reachable :: "'k world \<Rightarrow> bool" where
  start: "domain_reachable (mk_world empty_tables k)"
| step: "domain_reachable w \<Longrightarrow> domain_step w w' \<Longrightarrow> domain_reachable w'"

inductive_cases domain_stepE: "domain_step w w'"

lemma top_domain:
  "keeps (\<lambda>w. txc w = None) (UpdateController orig c)" "keeps (\<lambda>w. txc w = None) (Unbind ns)"
  "keeps (\<lambda>w. txc w = None) (InsertBgState st)"
  unfolding UpdateController_def Unbind_def InsertBgState_def dao_FindByNamespace_def
    dao_UpdateController_def dao_Unbind_def dao_UpdateState_def 
  by (intro keeps_intros)+

lemma domain_reachable_inv:
  assumes "domain_reachable w"
  shows "all_tabs domains_inv w \<and> txc w = None"
  using assms
proof (induction rule: domain_reachable.induct)
  case (start k)
  show ?case by (simp add: all_tabs_def committed_def domains_inv_def pairs_disjoint_def empty_tables_def)
next
  case (step w w')
  from step.hyps(2) show ?case
  proof (cases rule: domain_step.cases)
    case (step_bind orig peer ctr r)
    with step.IH Bind_inv show ?thesis by blast
  next
    case (step_update orig ctr r)
    show ?thesis by (rule top_inv [OF keeps_domain_inv(1) top_domain(1) step.IH step_update])
  next
    case (step_unbind ns u)
    show ?thesis by (rule top_inv [OF keeps_domain_inv(2) top_domain(2) step.IH step_unbind])
  next
    case (step_state st r)
    show ?thesis by (rule top_inv [OF keeps_domain_inv(3) top_domain(3) step.IH step_state])
  next
    case (step_env fs b ca m k)
    with step.IH show ?thesis by (simp add: all_tabs_def committed_def)
  qed
qed

section \<open>Functional behaviour\<close>

lemma FindByNamespace_run [run_simps]:
  assumes "serves w"
  shows "dao_FindByNamespace ns w = (Inr (first_by d_id [r \<leftarrow> bg_domains (tabs w). domain_has ns r]), w)"
proof -
  let ?q = "\<lambda>t. first_by d_id [r \<leftarrow> bg_domains t. domain_has ns r]"
  show ?thesis
  proof (cases "?q (tabs w)")
    case None
    then have "using_db zero_domain (sql_first ?q) w = (Inl RecordNotFound, w)"
      using assms by (intro using_db_Inl) (simp_all add: sql_first_serves serves_facts)
    with None show ?thesis
      by (simp add: dao_FindByNamespace_def bind_io_run attempt_io_run is_record_not_found_def)
  next
    case (Some d)
    then have "using_db zero_domain (sql_first ?q) w = (Inr d, w)"
      using assms by (intro using_db_Inr) (simp_all add: sql_first_serves serves_facts)
    with Some show ?thesis by (simp add: dao_FindByNamespace_def)
  qed
qed

lemma GetState_run [run_simps]:
  assumes "serves w"
  shows "dao_GetState i w = (Inr (latest_state i (bg_states (tabs w))), w)"
proof (cases "latest_state i (bg_states (tabs w))")
  case None
  then have "using_db zero_state (sql_first (\<lambda>t. latest_state i (bg_states t))) w = (Inl RecordNotFound, w)"
    using assms by (intro using_db_Inl) (simp_all add: sql_first_serves serves_facts)
  with None show ?thesis by (simp add: dao_GetState_def bind_io_run attempt_io_run is_record_not_found_def)
next
  case (Some d)
  then have "using_db zero_state (sql_first (\<lambda>t. latest_state i (bg_states t))) w = (Inr d, w)"
    using assms by (intro using_db_Inr) (simp_all add: sql_first_serves serves_facts)
  with Some show ?thesis by (simp add: dao_GetState_def)
qed

text \<open>The row a namespace of a pair belongs to, when no other domain has it as its controller.\<close>

definition sole_owner :: "string \<Rightarrow> bg_domain_row \<Rightarrow> tables \<Rightarrow> bool" where
  "sole_owner ns r t \<longleftrightarrow> r \<in> set (bg_domains t) \<and> (ns = d_origin r \<or> ns = d_peer r) \<and>
     (\<forall>r' \<in> set (bg_domains t). d_controller r' = Some ns \<longrightarrow> r' = r)"

lemma sole_owner_found:
  assumes "domains_inv t" "sole_owner ns r t"
  shows "first_by d_id [r \<leftarrow> bg_domains t. domain_has ns r] = Some r"
proof (rule first_by_unique)
  show "r \<in> set [r \<leftarrow> bg_domains t. domain_has ns r]" using assms(2) by (auto simp: sole_owner_def domain_has_def)
  fix y assume y: "y \<in> set [r \<leftarrow> bg_domains t. domain_has ns r]" "y \<noteq> r"
  have ids: "d_id y \<noteq> d_id r"
    using assms y by (auto simp: domains_inv_def pairs_disjoint_def sole_owner_def distinct_map dest: inj_onD)
  have "to_lower ns \<in> pair_of r" using assms(2) by (auto simp: sole_owner_def pair_of_def)
  moreover have "to_lower ns \<in> pair_of y" using y assms(2) by (auto simp: sole_owner_def domain_has_def pair_of_def)
  moreover have "pair_of y \<inter> pair_of r = {}"
    using assms y ids by (simp add: domains_inv_def pairs_disjoint_def sole_owner_def)
  ultimately have False by blast
  then show "d_id r < d_id y" ..
qed

text \<open>
  Ordering by descending time: an element beyond the first \<open>n\<close> has more than \<open>n\<close> elements, itself
  included, that are no older.
\<close>

lemma sort_key_drop_count:
  assumes "x \<in> set (drop n (sort_key k xs))"
  shows "n < length [y \<leftarrow> xs. k y \<le> (k x :: 'b::linorder)]"
proof -
  let ?ys = "sort_key k xs"
  obtain i where i: "i < length (drop n ?ys)" "drop n ?ys ! i = x" using assms by (auto simp: in_set_conv_nth)
  define m where "m = n + i"
  have m: "m < length ?ys" "?ys ! m = x" using i by (auto simp: m_def)
  have le: "k y \<le> k x" if y: "y \<in> set (take (Suc m) ?ys)" for y
  proof -
    obtain j where j: "j \<le> m" "?ys ! j = y" using y m by (auto simp: in_set_conv_nth less_Suc_eq_le)
    have "map k ?ys ! j \<le> map k ?ys ! m"
      by (rule sorted_nth_mono) (use j m in auto)
    then show ?thesis using j m by simp
  qed
  have "Suc m = length [y \<leftarrow> take (Suc m) ?ys. k y \<le> k x]"
    using le m(1) by (subst filter_True) auto
  also have "\<dots> \<le> length [y \<leftarrow> ?ys. k y \<le> k x]"
    by (subst (2) append_take_drop_id [of "Suc m" ?ys, symmetric]) (simp only: filter_append length_append le_add1)
  also have "\<dots> = length [y \<leftarrow> xs. k y \<le> k x]"
    by (metis mset_filter mset_sort size_mset)
  finally show ?thesis by (simp add: m_def)
qed

lemma sort_key_take_count:
  assumes "x \<in> set (take n (sort_key k xs))"
  shows "length [y \<leftarrow> xs. k y < (k x :: 'b::linorder)] < n"
proof -
  let ?ys = "sort_key k xs"
  obtain m where m: "m < n" "m < length ?ys" "?ys ! m = x" using assms by (auto simp: in_set_conv_nth)
  have ge: "\<not> k y < k x" if y: "y \<in> set (drop m ?ys)" for y
  proof -
    obtain j where "j < length (drop m ?ys)" "drop m ?ys ! j = y" using y by (auto simp: in_set_conv_nth)
    then have j: "m + j < length ?ys" "?ys ! (m + j) = y" by simp_all
    have "map k ?ys ! m \<le> map k ?ys ! (m + j)"
      by (rule sorted_nth_mono) (use j in auto)
    then show ?thesis using j m by simp
  qed
  have "length [y \<leftarrow> xs. k y < k x] = length [y \<leftarrow> ?ys. k y < k x]"
    by (metis mset_filter mset_sort size_mset)
  also have "\<dots> = length [y \<leftarrow> take m ?ys. k y < k x] + length [y \<leftarrow> drop m ?ys. k y < k x]"
    by (metis append_take_drop_id filter_append length_append)
  also have "[y \<leftarrow> drop m ?ys. k y < k x] = []" using ge by (simp add: filter_empty_conv)
  finally show ?thesis using m length_filter_le [of "\<lambda>y. k y < k x" "take m ?ys"] by simp
qed

lemma delete_obsolete_bound:
  assumes "distinct (map s_id (bg_states t))" "delete_obsolete n t = Inr (u, t')"
  shows "length (bg_states t') \<le> n"
proof -
  let ?ys = "newest_first (bg_states t)"
  let ?P = "\<lambda>s. s_id s \<notin> s_id ` set (drop n ?ys)"
  have "bg_states t' = filter ?P (bg_states t)" using assms(2) by (auto simp: delete_obsolete_def Let_def)
  then have "length (bg_states t') = length (filter ?P ?ys)"
    unfolding newest_first_def by (metis mset_filter mset_sort size_mset)
  also have "\<dots> = length (filter ?P (take n ?ys)) + length (filter ?P (drop n ?ys))"
    by (metis append_take_drop_id filter_append length_append)
  also have "filter ?P (drop n ?ys) = []" by (auto simp: filter_empty_conv)
  finally show ?thesis by (metis add.right_neutral length_filter_le le_trans length_take list.size(3) min.cobounded2)
qed

lemma delete_obsolete_keeps:
  assumes d: "distinct (map s_id (bg_states t))" and "x \<in> set (bg_states t)"
    and few: "length [s \<leftarrow> bg_states t. s_time x \<le> s_time s] \<le> n"
    and run: "delete_obsolete n t = Inr (u, t')"
  shows "x \<in> set (bg_states t')"
proof -
  have "x \<notin> set (drop n (newest_first (bg_states t)))"
    using few sort_key_drop_count [of x n "\<lambda>s. - s_time s" "bg_states t"] by (auto simp: newest_first_def)
  moreover have "set (drop n (newest_first (bg_states t))) \<subseteq> set (bg_states t)"
    using set_drop_subset by (fastforce simp: newest_first_def)
  ultimately have "s_id x \<notin> s_id ` set (drop n (newest_first (bg_states t)))"
    using d assms(2) by (auto simp: distinct_map dest: inj_onD)
  then show ?thesis using run assms(2) by (auto simp: delete_obsolete_def Let_def)
qed

text \<open>The effect of recording a state on the tables.\<close>

definition new_state :: "nat \<Rightarrow> bg_state \<Rightarrow> tables \<Rightarrow> bg_state_row" where
  "new_state i st t = \<lparr>s_id = next_id t, s_domain = i, s_origin = st_origin st, s_peer = st_peer st, s_time = st_time st\<rparr>"

definition record_state :: "nat \<Rightarrow> bg_state \<Rightarrow> tables \<Rightarrow> tables" where
  "record_state i st t =
     (let rows = bg_states t @ [new_state i st t]; old = s_id ` set (drop 100 (newest_first rows))
      in t\<lparr>next_id := next_id t + 1, bg_states := [s \<leftarrow> rows. s_id s \<notin> old]\<rparr>)"

lemma UpdateState_run:
  assumes "healthy w" "\<exists>r \<in> set (bg_domains (tabs w)). d_id r = i"
  shows "dao_UpdateState i (st_origin st) (st_peer st) (st_time st) w = (Inr (), w\<lparr>tabs := record_state i st (tabs w)\<rparr>)"
proof -
  let ?t1 = "(tabs w)\<lparr>next_id := next_id (tabs w) + 1, bg_states := bg_states (tabs w) @ [new_state i st (tabs w)]\<rparr>"
  let ?v = "enter_tx w"
  have "insert_state i (st_origin st) (st_peer st) (st_time st) (tabs w) = Inr ((), ?t1)"
    using assms(2) by (auto simp: insert_state_def list_ex_iff new_state_def)
  then have 1: "sql_write (insert_state i (st_origin st) (st_peer st) (st_time st)) ?v = (Inr (), ?v\<lparr>tabs := ?t1\<rparr>)"
    using assms(1) by (intro sql_write_live) simp_all
  have "delete_obsolete 100 ?t1 = Inr ((), record_state i st (tabs w))"
    by (simp add: delete_obsolete_def record_state_def Let_def)
  then have "sql_write (delete_obsolete 100) (?v\<lparr>tabs := ?t1\<rparr>) = (Inr (), ?v\<lparr>tabs := record_state i st (tabs w)\<rparr>)"
    using assms(1) sql_write_live [of "?v\<lparr>tabs := ?t1\<rparr>" "delete_obsolete 100" "()" "record_state i st (tabs w)"]
    by simp
  then have 2: "dao_DeleteObsoleteStates 100 (?v\<lparr>tabs := ?t1\<rparr>) = (Inr (), ?v\<lparr>tabs := record_state i st (tabs w)\<rparr>)"
    using assms(1) unfolding dao_DeleteObsoleteStates_def
    by (intro with_tx_Inr) (simp_all add: serves_facts)
  show ?thesis unfolding dao_UpdateState_def
    using assms(1) 1 2
    by (subst with_tx_healthy [where w' = "?v\<lparr>tabs := record_state i st (tabs w)\<rparr>"])
       (simp_all add: record_state_def Let_def deferred_ok_same)
qed

lemma InsertBgState_run:
  assumes "healthy w" "domains_inv (tabs w)" "sole_owner (ns_name (st_origin st)) r (tabs w)"
    and "d_origin r = ns_name (st_origin st)" "d_peer r = ns_name (st_peer st)"
  shows "InsertBgState st w = (Inr (), w\<lparr>tabs := record_state (d_id r) st (tabs w)\<rparr>)"
proof -
  have "\<exists>q \<in> set (bg_domains (tabs w)). d_id q = d_id r" using assms(3) by (auto simp: sole_owner_def)
  from UpdateState_run [OF assms(1) this, of st] assms show ?thesis
    by (simp add: InsertBgState_def FindByNamespace_run sole_owner_found)
qed

lemma record_state_domains [simp]: "bg_domains (record_state i st t) = bg_domains t"
  by (simp add: record_state_def Let_def)

lemma record_state_inv: "domains_inv t \<Longrightarrow> \<exists>r \<in> set (bg_domains t). d_id r = i \<Longrightarrow> domains_inv (record_state i st t)"
proof -
  assume i: "domains_inv t" and r: "\<exists>r \<in> set (bg_domains t). d_id r = i"
  have "insert_state i (st_origin st) (st_peer st) (st_time st) t =
      Inr ((), t\<lparr>next_id := next_id t + 1, bg_states := bg_states t @ [new_state i st t]\<rparr>)"
    using r by (auto simp: insert_state_def list_ex_iff new_state_def)
  from inv_insert_state [OF i this] show ?thesis
    by (rule inv_delete_obsolete [where n = 100 and a = "()"]) (simp add: delete_obsolete_def record_state_def Let_def)
qed

lemma GetCurrent_run:
  assumes "serves w" "domains_inv (tabs w)" "sole_owner ns r (tabs w)"
  shows "GetCurrentBgStateByNamespace ns w =
     (Inr (map_option (\<lambda>e. \<lparr>st_controller = null_text (d_controller r), st_origin = s_origin e,
                            st_peer = s_peer e, st_time = s_time e\<rparr>) (latest_state (d_id r) (bg_states (tabs w)))), w)"
  using assms by (simp add: GetCurrentBgStateByNamespace_def FindByNamespace_run sole_owner_found GetState_run)

lemma latest_state_unique:
  assumes "x \<in> set rows" "s_domain x = i"
    and "\<And>y. y \<in> set rows \<Longrightarrow> s_domain y = i \<Longrightarrow> y \<noteq> x \<Longrightarrow> s_time y < s_time x"
  shows "latest_state i rows = Some x"
  unfolding latest_state_def by (rule first_by_unique) (use assms in auto)

lemma record_state_rows: "y \<in> set (bg_states (record_state i st t)) \<Longrightarrow> y = new_state i st t \<or> y \<in> set (bg_states t)"
  by (auto simp: record_state_def Let_def simp del: filter_append)

lemma record_state_latest:
  assumes i: "domains_inv t" and r: "\<exists>r \<in> set (bg_domains t). d_id r = i"
    and new: "\<forall>s \<in> set (bg_states t). s_domain s = i \<longrightarrow> s_time s < st_time st"
    and few: "length [s \<leftarrow> bg_states t. st_time st \<le> s_time s] < 100"
  shows "latest_state i (bg_states (record_state i st t)) = Some (new_state i st t)"
proof (rule latest_state_unique)
  let ?t1 = "t\<lparr>next_id := next_id t + 1, bg_states := bg_states t @ [new_state i st t]\<rparr>"
  have "insert_state i (st_origin st) (st_peer st) (st_time st) t = Inr ((), ?t1)"
    using r by (auto simp: insert_state_def list_ex_iff new_state_def)
  from inv_insert_state [OF i this] have d: "distinct (map s_id (bg_states ?t1))" by (simp add: domains_inv_def)
  show "new_state i st t \<in> set (bg_states (record_state i st t))"
  proof (rule delete_obsolete_keeps [OF d])
    show "delete_obsolete 100 ?t1 = Inr ((), record_state i st t)"
      by (simp add: delete_obsolete_def record_state_def Let_def)
    show "length [s \<leftarrow> bg_states ?t1. s_time (new_state i st t) \<le> s_time s] \<le> 100"
      using few by (simp add: new_state_def)
  qed simp
  show "s_domain (new_state i st t) = i" by (simp add: new_state_def)
  fix y assume y: "y \<in> set (bg_states (record_state i st t))" "s_domain y = i" "y \<noteq> new_state i st t"
  with record_state_rows have "s_time y < st_time st" using new by blast
  then show "s_time y < s_time (new_state i st t)" by (simp add: new_state_def)
qed


text \<open>C3 The housekeeping keeps the 100 newest states of all domains together, so a domain that changes
  state often makes the states of the others disappear: with 100 newer states of other domains,
  a state is dropped by the very call that records it.
\<close>

theorem housekeeping_drops_other_domains:
  assumes "healthy w" "domains_inv (tabs w)"
    and "sole_owner (ns_name (st_origin st)) r (tabs w)"
    and "d_origin r = ns_name (st_origin st)" "d_peer r = ns_name (st_peer st)"
    and "\<forall>s \<in> set (bg_states (tabs w)). s_domain s \<noteq> d_id r"
    and "100 \<le> length [s \<leftarrow> bg_states (tabs w). st_time st < s_time s]"
  shows "\<exists>w'. InsertBgState st w = (Inr (), w') \<and> GetCurrentBgStateByNamespace (ns_name (st_origin st)) w' = (Inr None, w')"
proof (intro exI conjI)
  let ?w = "w\<lparr>tabs := record_state (d_id r) st (tabs w)\<rparr>"
  let ?new = "new_state (d_id r) st (tabs w)"
  let ?rows = "bg_states (tabs w) @ [?new]"
  have m: "\<exists>q \<in> set (bg_domains (tabs w)). d_id q = d_id r" using assms(3) by (auto simp: sole_owner_def)
  show "InsertBgState st w = (Inr (), ?w)" using assms by (intro InsertBgState_run) simp_all
  have "?new \<notin> set (bg_states (tabs ?w))"
  proof
    assume "?new \<in> set (bg_states (tabs ?w))"
    then have "?new \<notin> set (drop 100 (newest_first ?rows))"
      by (auto simp: record_state_def Let_def simp del: filter_append)
    moreover have "?new \<in> set (newest_first ?rows)" by (simp add: newest_first_def)
    ultimately have "?new \<in> set (take 100 (newest_first ?rows))"
      by (metis UnE append_take_drop_id set_append)
    then show False using sort_key_take_count [of ?new 100 "\<lambda>s. - s_time s" ?rows] assms(7)
      by (simp add: newest_first_def new_state_def)
  qed
  then have "latest_state (d_id r) (bg_states (tabs ?w)) = None"
  proof -
    assume n: "?new \<notin> set (bg_states (tabs ?w))"
    have "s_domain y \<noteq> d_id r" if y: "y \<in> set (bg_states (tabs ?w))" for y
      using record_state_rows [of y "d_id r" st "tabs w"] y n assms(6) by auto
    then have "[s \<leftarrow> bg_states (tabs ?w). s_domain s = d_id r] = []" by (simp add: filter_empty_conv)
    then show ?thesis by (simp add: latest_state_def)
  qed
  moreover have "sole_owner (ns_name (st_origin st)) r (tabs ?w)" using assms(3) by (simp add: sole_owner_def)
  ultimately show "GetCurrentBgStateByNamespace (ns_name (st_origin st)) ?w = (Inr None, ?w)"
    using assms(1,2) m by (simp add: GetCurrent_run record_state_inv)
qed

section \<open>Properties\<close>


text \<open>Three requests on empty tables, used by the examples below.\<close>

definition demo_world :: "unit world" where
  "demo_world = snd (Bind ''c'' ''d'' ''x'' (snd (Bind ''a'' ''b'' [] (mk_world empty_tables ()))))"

lemma demo_domains: "bg_domains (tabs demo_world) =
    [\<lparr>d_id = 1, d_controller = None, d_origin = ''a'', d_peer = ''b''\<rparr>,
     \<lparr>d_id = 2, d_controller = Some ''x'', d_origin = ''c'', d_peer = ''d''\<rparr>]"
  by code_simp

lemma demo_world_is: "demo_world = mk_world (empty_tables\<lparr>next_id := 3, bg_domains :=
    [\<lparr>d_id = 1, d_controller = None, d_origin = ''a'', d_peer = ''b''\<rparr>,
     \<lparr>d_id = 2, d_controller = Some ''x'', d_origin = ''c'', d_peer = ''d''\<rparr>]\<rparr>) ()"
  by code_simp

lemma step_snd:
  "domain_reachable w \<Longrightarrow> domain_reachable (snd (Bind orig peer ctr w))"
  "domain_reachable w \<Longrightarrow> domain_reachable (snd (UpdateController orig ctr w))"
  by (metis step step_bind surjective_pairing, metis step step_update surjective_pairing)

lemma demo_reachable: "domain_reachable demo_world"
  unfolding demo_world_def by (intro step_snd start)


text \<open>The trigger guards insertion only: an update gives a domain the controller of another one, and
  the lookup of that controller answers with either of them.
\<close>

lemma controller_shared_by_two_domains:
  "domain_reachable (snd (UpdateController ''a'' ''x'' demo_world)) \<and>
   fst (UpdateController ''a'' ''x'' demo_world) = Inr () \<and>
   map d_controller (bg_domains (tabs (snd (UpdateController ''a'' ''x'' demo_world)))) = [Some ''x'', Some ''x'']"
proof -
  have "fst (UpdateController ''a'' ''x'' demo_world) = Inr ()" by code_simp
  moreover have "map d_controller (bg_domains (tabs (snd (UpdateController ''a'' ''x'' demo_world)))) = [Some ''x'', Some ''x'']"
    by code_simp
  ultimately show ?thesis using step_snd(2) [OF demo_reachable] by simp
qed

lemma demo_inv: "domains_inv (tabs demo_world)"
  using domain_reachable_inv [OF demo_reachable] by (simp add: all_tabs_def)

lemma demo_healthy: "healthy demo_world" by (simp add: demo_world_is)

text \<open>A domain is found by either of its namespaces: when no other domain has that namespace as
  its controller, the lookup returns the domain that owns it and leaves the state as it was.\<close>

theorem find_by_namespace_owner:
  assumes "serves w" "domains_inv (tabs w)" "sole_owner ns r (tabs w)"
  shows "FindByNamespace ns w = (Inr (Some (toValue r)), w)"
  using assms by (simp add: FindByNamespace_def FindByNamespace_run sole_owner_found)

theorem find_by_namespace_owner_witness:
  "FindByNamespace ''d'' demo_world = (Inr (Some \<lparr>n_origin = ''c'', n_peer = ''d'', n_controller = ''x''\<rparr>), demo_world)"
  using find_by_namespace_owner [of demo_world "''d''" "\<lparr>d_id = 2, d_controller = Some ''x'', d_origin = ''c'', d_peer = ''d''\<rparr>"]
    demo_inv demo_healthy by (simp add: demo_domains sole_owner_def toValue_def null_text_def)

definition demo_state :: bg_state where
  "demo_state = \<lparr>st_controller = [], st_origin = \<lparr>ns_name = ''c'', ns_state = ''active'', ns_version = ''v1''\<rparr>,
     st_peer = \<lparr>ns_name = ''d'', ns_state = ''idle'', ns_version = []\<rparr>, st_time = 7\<rparr>"


text \<open>The 101st state of the table is dropped although it is the only one of its domain.\<close>

definition busy_tables :: tables where
  "busy_tables = empty_tables\<lparr>next_id := 200, bg_domains := bg_domains (tabs demo_world),
     bg_states := map (\<lambda>i. \<lparr>s_id = i + 10, s_domain = 1, s_origin = st_origin demo_state,
        s_peer = st_peer demo_state, s_time = 1000 + int i\<rparr>) [0 ..< 100]\<rparr>"

theorem housekeeping_drops_other_domains_witness:
  "\<exists>w'. InsertBgState demo_state (mk_world busy_tables ()) = (Inr (), w') \<and>
     GetCurrentBgStateByNamespace ''c'' w' = (Inr None, w')"
proof -
  have d: "domains_inv busy_tables"
    using demo_inv by (auto simp: domains_inv_def busy_tables_def distinct_map inj_on_def demo_world_is)
  have l: "length [s \<leftarrow> bg_states busy_tables. st_time demo_state < s_time s] = 100"
    by (simp add: busy_tables_def demo_state_def filter_map comp_def)
  show ?thesis
    using housekeeping_drops_other_domains [of "mk_world busy_tables ()" demo_state
        "\<lparr>d_id = 2, d_controller = Some ''x'', d_origin = ''c'', d_peer = ''d''\<rparr>"] d l
    by (simp add: sole_owner_def demo_state_def) (simp add: busy_tables_def demo_world_is)
qed
end
