(* ===== verification/Maas_Kafka_Dao.thy ===== *)
theory Maas_Kafka_Dao
  imports Maas_Hoare Maas_Domain
begin

text \<open>
  The registrations of Kafka topics in the database (service/kafka/kafka_service_dao.go and
  entity.go): topics and the classifiers they are found by, topic templates, and definitions of
  lazy and tenant topics.  Tables, keys and constraints are those of dao/schema 2, 4, 8, 9, 18,
  22 and 26.  The supplier of blue/green domains is the domain service, as server.go wires it.
\<close>

section \<open>Statements on topics\<close>

text \<open>
  The keys of \<open>kafka_topics\<close> are the classifier, the pair of topic and instance, and the number;
  its rows refer to an instance, a template and a tenant.  The instance a registration was
  loaded with is no column.
\<close>

definition topic_clash :: "topic \<Rightarrow> topic \<Rightarrow> bool" where
  "topic_clash r s = (t_classifier r = t_classifier s \<or> t_id r = t_id s \<or>
     (t_topic r = t_topic s \<and> t_instance r = t_instance s))"

definition topic_refs_ok :: "topic \<Rightarrow> tables \<Rightarrow> bool" where
  "topic_refs_ok r t =
     (list_ex (\<lambda>i. ki_id i = t_instance r) (kafka_instances t) \<and>
      (case t_template r of None \<Rightarrow> True | Some n \<Rightarrow> list_ex (\<lambda>x. tt_id x = n) (topic_templates t)) \<and>
      (case t_tenant r of None \<Rightarrow> True | Some n \<Rightarrow> list_ex (\<lambda>x. tn_id x = n) (tenants t)))"

text \<open>\<open>Create\<close> draws the number of a registration that has none, and returns it.\<close>

definition insert_topic :: "topic \<Rightarrow> tables \<Rightarrow> (nat \<times> tables) outcome" where
  "insert_topic reg t =
     (let row = reg\<lparr>t_id := (if t_id reg = 0 then next_id t else t_id reg), t_instance_ref := None\<rparr> in
      if list_ex (topic_clash row) (topics t) then Inl UniqueViolation
      else if \<not> topic_refs_ok row t then Inl ForeignKeyViolation
      else Inr (t_id row, t\<lparr>next_id := next_id t + 1, topics := topics t @ [row]\<rparr>))"

text \<open>\<open>Save\<close> updates the row with the number of the registration, and inserts it when there is none.\<close>

definition save_topic :: "topic \<Rightarrow> tables \<Rightarrow> (unit \<times> tables) outcome" where
  "save_topic reg t =
     (let row = reg\<lparr>t_instance_ref := None\<rparr> in
      if t_id reg = 0 \<or> \<not> list_ex (\<lambda>r. t_id r = t_id reg) (topics t)
      then map_sum id (\<lambda>(n, t'). ((), t')) (insert_topic reg t)
      else if list_ex (\<lambda>r. t_id r \<noteq> t_id reg \<and> topic_clash row r) (topics t) then Inl UniqueViolation
      else if \<not> topic_refs_ok row t then Inl ForeignKeyViolation
      else Inr ((), t\<lparr>topics := map (\<lambda>r. if t_id r = t_id reg then row else r) (topics t)\<rparr>))"

text \<open>A delete without a number is refused by gorm; the classifiers of the topic go with it.\<close>

definition delete_topic :: "nat \<Rightarrow> tables \<Rightarrow> (unit \<times> tables) outcome" where
  "delete_topic n t =
     (if n = 0 then Inl Generic
      else Inr ((), t\<lparr>topics := [r \<leftarrow> topics t. t_id r \<noteq> n],
                      topic_classifiers := [c \<leftarrow> topic_classifiers t. tc_topic c \<noteq> n]\<rparr>))"

definition numbered :: "nat \<Rightarrow> 'a list \<Rightarrow> (nat \<times> 'a) list" where
  "numbered n xs = enumerate n xs"

text \<open>Classifiers are unique, and refer to a topic.\<close>

definition insert_topic_classifiers :: "(nat \<times> classifier) list \<Rightarrow> tables \<Rightarrow> (unit \<times> tables) outcome" where
  "insert_topic_classifiers rows t =
     (if \<not> distinct (map snd rows) \<or>
         list_ex (\<lambda>(n, cl). list_ex (\<lambda>c. tc_classifier c = cl) (topic_classifiers t)) rows then Inl UniqueViolation
      else if \<not> list_all (\<lambda>(n, cl). list_ex (\<lambda>r. t_id r = n) (topics t)) rows then Inl ForeignKeyViolation
      else Inr ((), t\<lparr>next_id := next_id t + length rows, topic_classifiers := topic_classifiers t @
             map (\<lambda>(k, n, cl). \<lparr>tc_id = k, tc_topic = n, tc_classifier = cl\<rparr>) (numbered (next_id t) rows)\<rparr>))"

text \<open>Whether a topic has a classifier that satisfies a condition.\<close>

definition topic_classified :: "tables \<Rightarrow> (classifier \<Rightarrow> bool) \<Rightarrow> topic \<Rightarrow> bool" where
  "topic_classified t P r = list_ex (\<lambda>c. tc_topic c = t_id r \<and> P (tc_classifier c)) (topic_classifiers t)"

text \<open>\<open>migrateAllBg2Kafka\<close>: topics without a row get one with their own classifier.\<close>

definition migrate_topics :: "tables \<Rightarrow> (unit \<times> tables) outcome" where
  "migrate_topics t = insert_topic_classifiers
     (map (\<lambda>r. (t_id r, t_classifier r))
       [r \<leftarrow> topics t. \<not> topic_classified t (\<lambda>_. True) r \<and> \<not> versioned (t_settings r)]) t"

text \<open>The condition of a search; both spellings of a topic's own classifier are looked at.\<close>

definition search_matches :: "topic_search \<Rightarrow> tables \<Rightarrow> topic \<Rightarrow> bool" where
  "search_matches s t r =
     ((classifier_IsEmpty (ts_classifier s) \<or> topic_classified t (\<lambda>c. c = ts_classifier s) r \<or> t_classifier r = ts_classifier s) \<and>
      (ts_instance s = [] \<or> t_instance r = ts_instance s) \<and>
      (ts_topic s = [] \<or> t_topic r = ts_topic s) \<and>
      (ts_namespace s = [] \<or> topic_classified t (\<lambda>c. c_namespace c = ts_namespace s) r \<or> t_namespace r = ts_namespace s) \<and>
      (ts_template s = 0 \<or> t_template r = Some (ts_template s)) \<and>
      (case ts_versioned s of None \<Rightarrow> True | Some v \<Rightarrow> versioned (t_settings r) = v))"

definition search_topics :: "topic_search \<Rightarrow> tables \<Rightarrow> topic list" where
  "search_topics s t = [r \<leftarrow> topics t. search_matches s t r]"

text \<open>
  The statement of \<open>Warmup\<close>: a topic shared by a pair that is known to one of its namespaces
  only gets its own classifier under the other.
\<close>

definition clone_half :: "string \<Rightarrow> string \<Rightarrow> tables \<Rightarrow> (nat \<times> classifier) list" where
  "clone_half from to t =
     map (\<lambda>r. (t_id r, (t_classifier r)\<lparr>c_namespace := to\<rparr>))
       [r \<leftarrow> topics t. topic_classified t (\<lambda>c. c_namespace c = from) r \<and> \<not> versioned (t_settings r) \<and>
          \<not> topic_classified t (\<lambda>c. c_namespace c = to) r]"

definition clone_topics :: "string \<Rightarrow> string \<Rightarrow> tables \<Rightarrow> (unit \<times> tables) outcome" where
  "clone_topics orig peer t = insert_topic_classifiers (remdups (clone_half orig peer t @ clone_half peer orig t)) t"

section \<open>Data access: topics\<close>

text \<open>A namespace outside the pair (the controller's) panics.\<close>

definition createSiblingClassifier :: "classifier \<Rightarrow> bg_namespaces \<Rightarrow> classifier outcome" where
  "createSiblingClassifier cl bg =
     (if c_namespace cl = n_origin bg then Inr (cl\<lparr>c_namespace := n_peer bg\<rparr>)
      else if c_namespace cl = n_peer bg then Inr (cl\<lparr>c_namespace := n_origin bg\<rparr>)
      else Inl GoPanic)"

definition unique_as_conflict :: "err \<Rightarrow> err" where
  "unique_as_conflict e = (if IsUniqIntegrityViolation e then Conflict else wrapped e)"

definition add_sibling :: "nat \<Rightarrow> classifier \<Rightarrow> ('k, unit) dbio" where
  "add_sibling n cl =
     bind_io (wrap_io (FindByNamespace (c_namespace cl))) (\<lambda>found.
       case found of
         None \<Rightarrow> ret_io ()
       | Some bg \<Rightarrow> bind_io (lift_io (createSiblingClassifier cl bg)) (\<lambda>sibling.
           wrap_io (sql_write (insert_topic_classifiers [(n, sibling)]))))"

text \<open>
  The registration, its classifier and that of its sibling, then \<open>ext\<close>, which creates or updates
  the topic of the broker: all in one transaction.
\<close>

definition insert_registration :: "topic \<Rightarrow> (topic \<Rightarrow> ('k, 'a) dbio) \<Rightarrow> ('k, 'a) dbio" where
  "insert_registration reg ext =
     bind_io (map_err_io unique_as_conflict (sql_write (insert_topic reg))) (\<lambda>n.
     then_io (wrap_io (sql_write (insert_topic_classifiers [(n, t_classifier reg)])))
     (then_io (when_io (\<not> versioned (t_settings reg)) (add_sibling n (t_classifier reg)))
       (ext (reg\<lparr>t_id := n\<rparr>))))"

definition InsertTopicRegistration :: "topic \<Rightarrow> (topic \<Rightarrow> ('k, topic_dto option) dbio) \<Rightarrow> ('k, topic_dto option) dbio" where
  "InsertTopicRegistration reg ext = with_tx None (insert_registration reg ext)"

text \<open>\<open>zero\<close> is what the variables captured by \<open>ext\<close> hold before it runs.\<close>

definition UpdateTopicRegistration :: "'a \<Rightarrow> topic \<Rightarrow> (topic \<Rightarrow> ('k, 'a) dbio) \<Rightarrow> ('k, 'a) dbio" where
  "UpdateTopicRegistration zero reg ext = with_tx zero (then_io (sql_write (save_topic reg)) (ext reg))"

definition DeleteTopicRegistration :: "topic \<Rightarrow> (topic \<Rightarrow> ('k, unit) dbio) \<Rightarrow> ('k, unit) dbio" where
  "DeleteTopicRegistration reg ext = with_tx () (then_io (sql_write (delete_topic (t_id reg))) (ext reg))"

text \<open>
  A search also runs the migration.  A query that fails has found nothing, and then its error is
  dropped.
\<close>

definition find_topics_body :: "topic_search \<Rightarrow> ('k, topic list) dbio" where
  "find_topics_body s =
     then_io (wrap_io (sql_write migrate_topics))
       (bind_io (attempt_io (sql_read (search_topics s))) (\<lambda>res.
          ret_io (case res of Inl e \<Rightarrow> [] | Inr found \<Rightarrow> found)))"

definition FindTopicsBySearchRequest :: "topic_search \<Rightarrow> ('k, topic list) dbio" where
  "FindTopicsBySearchRequest s = with_tx [] (find_topics_body s)"

section \<open>Data access: templates\<close>

definition zero_template :: topic_template where
  "zero_template = \<lparr>tt_id = 0, tt_name = [], tt_namespace = [], tt_settings = no_settings, tt_domain_namespaces = []\<rparr>"

definition template_clash :: "topic_template \<Rightarrow> topic_template \<Rightarrow> bool" where
  "template_clash x y = (tt_id x = tt_id y \<or> (tt_name x = tt_name y \<and> tt_namespace x = tt_namespace y))"

definition insert_template :: "topic_template \<Rightarrow> tables \<Rightarrow> (nat \<times> tables) outcome" where
  "insert_template x t =
     (let row = x\<lparr>tt_id := (if tt_id x = 0 then next_id t else tt_id x)\<rparr> in
      if list_ex (template_clash row) (topic_templates t) then Inl UniqueViolation
      else Inr (tt_id row, t\<lparr>next_id := next_id t + 1, topic_templates := topic_templates t @ [row]\<rparr>))"

definition save_template :: "topic_template \<Rightarrow> tables \<Rightarrow> (unit \<times> tables) outcome" where
  "save_template x t =
     (if tt_id x = 0 \<or> \<not> list_ex (\<lambda>y. tt_id y = tt_id x) (topic_templates t)
      then map_sum id (\<lambda>(n, t'). ((), t')) (insert_template x t)
      else if list_ex (\<lambda>y. tt_id y \<noteq> tt_id x \<and> template_clash x y) (topic_templates t) then Inl UniqueViolation
      else Inr ((), t\<lparr>topic_templates := map (\<lambda>y. if tt_id y = tt_id x then x else y) (topic_templates t)\<rparr>))"

text \<open>Topics hold on to their template.\<close>

definition delete_templates :: "(topic_template \<Rightarrow> bool) \<Rightarrow> tables \<Rightarrow> (unit \<times> tables) outcome" where
  "delete_templates P t =
     (if list_ex (\<lambda>x. P x \<and> list_ex (\<lambda>r. t_template r = Some (tt_id x)) (topics t)) (topic_templates t)
      then Inl ForeignKeyViolation
      else Inr ((), t\<lparr>topic_templates := [x \<leftarrow> topic_templates t. \<not> P x]\<rparr>))"

definition mark_dirty :: "nat \<Rightarrow> tables \<Rightarrow> (unit \<times> tables) outcome" where
  "mark_dirty n t = Inr ((), t\<lparr>topics := map (\<lambda>r. if t_template r = Some n then r\<lparr>t_dirty := True\<rparr> else r) (topics t)\<rparr>)"

text \<open>Of an empty array \<open>array_length\<close> is null, which is not less than 2.\<close>

definition attach_templates :: "string \<Rightarrow> string \<Rightarrow> tables \<Rightarrow> (unit \<times> tables) outcome" where
  "attach_templates orig peer t = Inr ((), t\<lparr>topic_templates :=
     map (\<lambda>x. if tt_namespace x = orig \<and> length (tt_domain_namespaces x) = 1
              then x\<lparr>tt_domain_namespaces := [orig, peer]\<rparr> else x) (topic_templates t)\<rparr>)"

definition FindTopicTemplateByNameAndNamespace :: "string \<Rightarrow> string \<Rightarrow> ('k, topic_template option) dbio" where
  "FindTopicTemplateByNameAndNamespace name ns =
     using_db (Some zero_template) (sql_read (\<lambda>t. first_by tt_id
       [x \<leftarrow> topic_templates t. tt_name x = name \<and> (contains (tt_domain_namespaces x) ns \<or> tt_namespace x = ns)]))"

definition template_owner :: "bg_namespaces option \<Rightarrow> topic_template \<Rightarrow> topic_template" where
  "template_owner found x = (case found of
      None \<Rightarrow> x\<lparr>tt_domain_namespaces := [tt_namespace x]\<rparr>
    | Some bg \<Rightarrow> x\<lparr>tt_namespace := n_origin bg, tt_domain_namespaces := [n_origin bg, n_peer bg]\<rparr>)"

definition unique_as_template_exists :: "err \<Rightarrow> err" where
  "unique_as_template_exists e = (if IsUniqIntegrityViolation e then TemplateAlreadyExists else e)"

definition InsertTopicTemplate :: "topic_template \<Rightarrow> ('k, topic_template) dbio" where
  "InsertTopicTemplate x = with_tx x
     (bind_io (FindByNamespace (tt_namespace x)) (\<lambda>found.
      bind_io (map_err_io unique_as_template_exists (sql_write (insert_template (template_owner found x)))) (\<lambda>n.
        ret_io ((template_owner found x)\<lparr>tt_id := n\<rparr>))))"

definition dao_UpdateTopicTemplate :: "topic_template \<Rightarrow> ('k, unit) dbio" where
  "dao_UpdateTopicTemplate x = with_tx () (map_err_io unique_as_template_exists (sql_write (save_template x)))"

definition dao_MakeTopicsDirtyByTemplate :: "topic_template \<Rightarrow> ('k, unit) dbio" where
  "dao_MakeTopicsDirtyByTemplate x = with_tx () (map_err_io unique_as_template_exists (sql_write (mark_dirty (tt_id x))))"

definition FindTopicsByTemplate :: "topic_template \<Rightarrow> ('k, topic list) dbio" where
  "FindTopicsByTemplate x = using_db [] (sql_read (\<lambda>t. [r \<leftarrow> topics t. t_template r = Some (tt_id x)]))"

definition FindAllTopicTemplatesByNamespace :: "string \<Rightarrow> ('k, topic_template list) dbio" where
  "FindAllTopicTemplatesByNamespace ns = wrap_io (using_db [] (sql_read (\<lambda>t. [x \<leftarrow> topic_templates t. tt_namespace x = ns])))"

definition template_in_use :: "err \<Rightarrow> err" where
  "template_in_use e = (if IsForeignKeyIntegrityViolation e then TemplateInUse else e)"

definition dao_DeleteTopicTemplate :: "topic_template \<Rightarrow> ('k, unit) dbio" where
  "dao_DeleteTopicTemplate x = map_err_io template_in_use (with_tx ()
     (if tt_id x = 0 then raise_io Generic else sql_write (delete_templates (\<lambda>y. tt_id y = tt_id x))))"

definition DeleteTopicTemplatesByNamespace :: "string \<Rightarrow> ('k, unit) dbio" where
  "DeleteTopicTemplatesByNamespace ns = map_err_io template_in_use (with_tx ()
     (sql_write (delete_templates (\<lambda>y. tt_namespace y = ns))))"

definition FindTopicTemplateById :: "nat \<Rightarrow> ('k, topic_template) dbio" where
  "FindTopicTemplateById n = using_db zero_template (sql_first (\<lambda>t. find (\<lambda>x. tt_id x = n) (topic_templates t)))"

definition topicTemplateAttachNamespace :: "string \<Rightarrow> string \<Rightarrow> ('k, unit) dbio" where
  "topicTemplateAttachNamespace orig peer = with_tx () (sql_write (attach_templates orig peer))"

section \<open>Data access: definitions\<close>

definition zero_definition :: topic_definition where
  "zero_definition = \<lparr>df_id = 0, df_classifier = \<lparr>c_name = [], c_namespace = [], c_tenant = []\<rparr>, df_namespace = [],
     df_name = [], df_instance = [], df_num_partitions = 0, df_min_num_partitions = 0, df_replication_factor = 0,
     df_replica_assignment = [], df_configs = [], df_template = [], df_kind = [], df_versioned = False\<rparr>"

definition definition_clash :: "topic_definition \<Rightarrow> topic_definition \<Rightarrow> bool" where
  "definition_clash d e = (df_id d = df_id e \<or> (df_classifier d = df_classifier e \<and> df_namespace d = df_namespace e))"

definition insert_definition :: "topic_definition \<Rightarrow> tables \<Rightarrow> (nat \<times> tables) outcome" where
  "insert_definition d t =
     (let row = d\<lparr>df_id := (if df_id d = 0 then next_id t else df_id d)\<rparr> in
      if list_ex (definition_clash row) (topic_definitions t) then Inl UniqueViolation
      else Inr (df_id row, t\<lparr>next_id := next_id t + 1, topic_definitions := topic_definitions t @ [row]\<rparr>))"

definition save_definition :: "topic_definition \<Rightarrow> tables \<Rightarrow> (unit \<times> tables) outcome" where
  "save_definition d t =
     (if df_id d = 0 \<or> \<not> list_ex (\<lambda>e. df_id e = df_id d) (topic_definitions t)
      then map_sum id (\<lambda>(n, t'). ((), t')) (insert_definition d t)
      else if list_ex (\<lambda>e. df_id e \<noteq> df_id d \<and> definition_clash d e) (topic_definitions t) then Inl UniqueViolation
      else Inr ((), t\<lparr>topic_definitions := map (\<lambda>e. if df_id e = df_id d then d else e) (topic_definitions t)\<rparr>))"

definition insert_definition_classifiers :: "(nat \<times> classifier) list \<Rightarrow> tables \<Rightarrow> (unit \<times> tables) outcome" where
  "insert_definition_classifiers rows t =
     (if \<not> distinct (map snd rows) \<or>
         list_ex (\<lambda>(n, cl). list_ex (\<lambda>c. dc_classifier c = cl) (definition_classifiers t)) rows then Inl UniqueViolation
      else if \<not> list_all (\<lambda>(n, cl). list_ex (\<lambda>d. df_id d = n) (topic_definitions t)) rows then Inl ForeignKeyViolation
      else Inr ((), t\<lparr>next_id := next_id t + length rows, definition_classifiers := definition_classifiers t @
             map (\<lambda>(k, n, cl). \<lparr>dc_id = k, dc_definition = n, dc_classifier = cl\<rparr>) (numbered (next_id t) rows)\<rparr>))"

definition definition_classified :: "tables \<Rightarrow> (classifier \<Rightarrow> bool) \<Rightarrow> topic_definition \<Rightarrow> bool" where
  "definition_classified t P d = list_ex (\<lambda>c. dc_definition c = df_id d \<and> P (dc_classifier c)) (definition_classifiers t)"

definition migrate_definitions :: "tables \<Rightarrow> (unit \<times> tables) outcome" where
  "migrate_definitions t = insert_definition_classifiers
     (map (\<lambda>d. (df_id d, df_classifier d))
       [d \<leftarrow> topic_definitions t. \<not> definition_classified t (\<lambda>_. True) d \<and> \<not> df_versioned d]) t"

definition clone_definition_half :: "string \<Rightarrow> string \<Rightarrow> tables \<Rightarrow> (nat \<times> classifier) list" where
  "clone_definition_half from to t =
     map (\<lambda>d. (df_id d, (df_classifier d)\<lparr>c_namespace := to\<rparr>))
       [d \<leftarrow> topic_definitions t. definition_classified t (\<lambda>c. c_namespace c = from) d \<and> \<not> df_versioned d \<and>
          \<not> definition_classified t (\<lambda>c. c_namespace c = to) d]"

definition clone_definitions :: "string \<Rightarrow> string \<Rightarrow> tables \<Rightarrow> (unit \<times> tables) outcome" where
  "clone_definitions orig peer t =
     insert_definition_classifiers (remdups (clone_definition_half orig peer t @ clone_definition_half peer orig t)) t"

definition delete_definitions :: "(topic_definition \<Rightarrow> bool) \<Rightarrow> tables \<Rightarrow> (topic_definition list \<times> tables) outcome" where
  "delete_definitions P t =
     (let gone = filter P (topic_definitions t) in
      Inr (gone, t\<lparr>topic_definitions := [d \<leftarrow> topic_definitions t. \<not> P d],
                   definition_classifiers := [c \<leftarrow> definition_classifiers t. dc_definition c \<notin> df_id ` set gone]\<rparr>))"

definition dao_UpdateTopicDefinition :: "topic_definition \<Rightarrow> ('k, unit) dbio" where
  "dao_UpdateTopicDefinition d = with_tx () (sql_write (save_definition d))"

text \<open>
  The copy that \<open>createSiblingDefinitionClassifier\<close> makes shares the classifier of the definition
  (it copies the pointer), so setting the namespace of the sibling renames the classifier the
  caller passed: that is the definition returned here.
\<close>

definition createSiblingDefinitionClassifier :: "classifier \<Rightarrow> bg_namespaces \<Rightarrow> classifier outcome" where
  "createSiblingDefinitionClassifier cl bg =
     (if c_namespace cl = n_origin bg then Inr (cl\<lparr>c_namespace := n_peer bg\<rparr>)
      else if c_namespace cl = n_peer bg then Inr (cl\<lparr>c_namespace := n_origin bg\<rparr>)
      else Inl GoPanic)"

definition add_definition_sibling :: "topic_definition \<Rightarrow> ('k, topic_definition) dbio" where
  "add_definition_sibling d =
     bind_io (wrap_io (FindByNamespace (c_namespace (df_classifier d)))) (\<lambda>found.
       case found of
         None \<Rightarrow> ret_io d
       | Some bg \<Rightarrow> bind_io (lift_io (createSiblingDefinitionClassifier (df_classifier d) bg)) (\<lambda>sibling.
           then_io (wrap_io (sql_write (insert_definition_classifiers [(df_id d, sibling)])))
             (ret_io (d\<lparr>df_classifier := sibling\<rparr>))))"

definition unique_as_topic_exists :: "err \<Rightarrow> err" where
  "unique_as_topic_exists e = (if IsUniqIntegrityViolation e then TopicAlreadyExists else e)"

definition insert_definition_body :: "topic_definition \<Rightarrow> ('k, topic_definition) dbio" where
  "insert_definition_body d =
     then_io (wrap_io (sql_write migrate_definitions))
     (bind_io (map_err_io unique_as_topic_exists (sql_write (insert_definition d))) (\<lambda>n.
      then_io (wrap_io (sql_write (insert_definition_classifiers [(n, df_classifier d)])))
        (if \<not> df_versioned d then add_definition_sibling (d\<lparr>df_id := n\<rparr>) else ret_io (d\<lparr>df_id := n\<rparr>))))"

definition InsertTopicDefinition :: "topic_definition \<Rightarrow> ('k, topic_definition) dbio" where
  "InsertTopicDefinition d = with_tx d (insert_definition_body d)"

record definition_search =
  ds_classifier :: "classifier option"
  ds_namespace :: string
  ds_kind :: string

text \<open>The conditions on classifiers gather in one sub-query, which is used in both places.\<close>

definition definition_matches :: "definition_search \<Rightarrow> tables \<Rightarrow> topic_definition \<Rightarrow> bool" where
  "definition_matches s t d =
     (let sub = definition_classified t (\<lambda>c.
            (case ds_classifier s of None \<Rightarrow> True | Some cl \<Rightarrow> c = cl) \<and>
            (ds_namespace s = [] \<or> c_namespace c = ds_namespace s)) d
      in (ds_classifier s = None \<or> sub) \<and>
         (ds_namespace s = [] \<or> sub \<or> df_namespace d = ds_namespace s) \<and>
         (ds_kind s = [] \<or> df_kind d = ds_kind s))"

definition FindTopicDefinitions :: "definition_search \<Rightarrow> ('k, topic_definition list) dbio" where
  "FindTopicDefinitions s = wrap_io (using_db []
     (then_io (wrap_io (sql_write migrate_definitions))
       (sql_read (\<lambda>t. [d \<leftarrow> topic_definitions t. definition_matches s t d]))))"

text \<open>The result is never nil, so the test for it that follows in the code is never true.\<close>

definition dao_DeleteTopicDefinition :: "classifier \<Rightarrow> ('k, topic_definition) dbio" where
  "dao_DeleteTopicDefinition cl = wrap_io (with_tx zero_definition
     (then_io (wrap_io (sql_write migrate_definitions))
     (bind_io (sql_write (\<lambda>t. delete_definitions (definition_classified t (\<lambda>c. c = cl)) t)) (\<lambda>gone.
        ret_io (case gone of [] \<Rightarrow> zero_definition | d # _ \<Rightarrow> d)))))"

definition DeleteTopicDefinitionsByNamespace :: "string \<Rightarrow> ('k, unit) dbio" where
  "DeleteTopicDefinitionsByNamespace ns = with_tx ()
     (bind_io (sql_write (delete_definitions (\<lambda>d. df_namespace d = ns))) (\<lambda>gone. ret_io ()))"

section \<open>Data access: migration and warm-up\<close>

definition migrateBg2KafkaTopicDefinitions :: "string \<Rightarrow> string \<Rightarrow> ('k, unit) dbio" where
  "migrateBg2KafkaTopicDefinitions orig peer = with_tx ()
     (then_io (wrap_io (sql_write migrate_definitions)) (wrap_io (sql_write (clone_definitions orig peer))))"

definition dao_Warmup :: "string \<Rightarrow> string \<Rightarrow> ('k, unit) dbio" where
  "dao_Warmup orig peer = with_tx ()
     (then_io (wrap_io (sql_write migrate_topics))
     (then_io (wrap_io (sql_write (clone_topics orig peer)))
     (then_io (wrap_io (migrateBg2KafkaTopicDefinitions orig peer))
       (wrap_io (topicTemplateAttachNamespace orig peer)))))"

definition dao_Migrate :: "('k, unit) dbio" where
  "dao_Migrate = with_tx ()
     (then_io (wrap_io (sql_write migrate_definitions)) (wrap_io (sql_write migrate_topics)))"

end
