(* ===== verification/Maas_Instance.thy ===== *)
theory Maas_Instance
  imports Maas_Hoare Maas_Domain
begin

text \<open>
  The registries of Kafka and RabbitMQ instances (service/instance, tables of dao/schema/2, 3
  and 11): registration, the default instance, and the designators that choose an instance for a
  classifier.  The functions of the two registries carry the prefixes \<open>k_\<close> and \<open>r_\<close>, those of
  the data access layers \<open>k_dao_\<close> and \<open>r_dao_\<close>.

  Parameters: \<open>health\<close> (a connection attempt), \<open>uuid\<close> (a fresh identifier), and the listeners
  of instance updates.
\<close>

section \<open>Designators\<close>

record 'i selector =
  se_match :: classifier_match
  se_instance_id :: string
  se_instance :: "'i option"

record 'i designator =
  de_namespace :: string
  de_default_id :: "string option"
  de_selectors :: "'i selector list"
  de_default :: "'i option"

definition zero_designator :: "'i designator" where
  "zero_designator = \<lparr>de_namespace = [], de_default_id = None, de_selectors = [], de_default = None\<rparr>"

text \<open>An empty field of the match, an equal value or a glob pattern of the value.\<close>

definition field_matches :: "string \<Rightarrow> string \<Rightarrow> bool" where
  "field_matches pat v \<longleftrightarrow> \<not> (pat \<noteq> [] \<and> (pat \<noteq> v \<and> \<not> MatchPattern pat v))"

definition selector_matches :: "classifier \<Rightarrow> string \<Rightarrow> classifier_match \<Rightarrow> bool" where
  "selector_matches cl ns m \<longleftrightarrow>
     field_matches (cm_name m) (c_name cl) \<and> field_matches (cm_namespace m) ns \<and> field_matches (cm_tenant m) (c_tenant cl)"

text \<open>The loop of \<open>MatchDesignator\<close>; the namespace is asked for again for each selector.\<close>

primrec match_selectors :: "(string \<Rightarrow> ('k, string) dbio) \<Rightarrow> classifier \<Rightarrow> 'i selector list \<Rightarrow> ('k, 'i selector option) dbio" where
  "match_selectors supplier cl [] = ret_io None"
| "match_selectors supplier cl (s # ss) =
     bind_io (supplier (c_namespace cl)) (\<lambda>ns.
       if selector_matches cl ns (se_match s) then ret_io (Some s) else match_selectors supplier cl ss)"

text \<open>
  The supplier of the two broker services: the origin of the blue/green domain of the namespace.
  Then \<open>MatchDesignator\<close>, which returns the instance of the first match.
\<close>

definition domain_origin :: "string \<Rightarrow> ('k, string) dbio" where
  "domain_origin ns = bind_io (attempt_io (FindByNamespace ns)) (\<lambda>res.
     case res of
       Inl e \<Rightarrow> ret_io ns
     | Inr None \<Rightarrow> ret_io ns
     | Inr (Some d) \<Rightarrow> ret_io (n_origin d))"

definition MatchDesignator :: "classifier \<Rightarrow> 'i designator \<Rightarrow> ('k, 'i option \<times> bool) dbio" where
  "MatchDesignator cl d = bind_io (match_selectors domain_origin cl (de_selectors d)) (\<lambda>s.
     case s of None \<Rightarrow> ret_io (None, False) | Some sel \<Rightarrow> ret_io (se_instance sel, True))"

section \<open>Statements on kafka_instances\<close>

text \<open>The primary key, and the unique column \<open>addresses\<close>, compared as JSON objects.\<close>

definition kafka_clash :: "kafka_instance \<Rightarrow> kafka_instance \<Rightarrow> bool" where
  "kafka_clash i j \<longleftrightarrow> ki_id i = ki_id j \<or> same_map (ki_addresses i) (ki_addresses j)"

definition insert_kafka :: "kafka_instance \<Rightarrow> tables \<Rightarrow> (unit \<times> tables) outcome" where
  "insert_kafka i t =
     (if list_ex (kafka_clash i) (kafka_instances t) then Inl UniqueViolation
      else Inr ((), t\<lparr>kafka_instances := kafka_instances t @ [i]\<rparr>))"

definition save_kafka :: "kafka_instance \<Rightarrow> tables \<Rightarrow> (unit \<times> tables) outcome" where
  "save_kafka i t =
     (if list_ex (\<lambda>j. ki_id j \<noteq> ki_id i \<and> kafka_clash i j) (kafka_instances t) then Inl UniqueViolation
      else if list_ex (\<lambda>j. ki_id j = ki_id i) (kafka_instances t)
      then Inr ((), t\<lparr>kafka_instances := map (\<lambda>j. if ki_id j = ki_id i then i else j) (kafka_instances t)\<rparr>)
      else Inr ((), t\<lparr>kafka_instances := kafka_instances t @ [i]\<rparr>))"

definition clear_kafka_default :: "tables \<Rightarrow> tables" where
  "clear_kafka_default t = t\<lparr>kafka_instances := map (\<lambda>j. j\<lparr>ki_default := False\<rparr>) (kafka_instances t)\<rparr>"

definition mark_kafka_default :: "string \<Rightarrow> tables \<Rightarrow> tables" where
  "mark_kafka_default iid t =
     t\<lparr>kafka_instances := map (\<lambda>j. if ki_id j = iid then j\<lparr>ki_default := True\<rparr> else j) (kafka_instances t)\<rparr>"

text \<open>\<open>Update ... returning *\<close> by the primary key, which gorm requires not to be empty.\<close>

definition update_kafka_default :: "string \<Rightarrow> tables \<Rightarrow> (kafka_instance option \<times> tables) outcome" where
  "update_kafka_default iid t =
     (if iid = [] then Inl Generic
      else Inr (find (\<lambda>j. ki_id j = iid) (kafka_instances (mark_kafka_default iid t)), mark_kafka_default iid t))"

definition kafka_referenced :: "string \<Rightarrow> tables \<Rightarrow> bool" where
  "kafka_referenced iid t \<longleftrightarrow>
     list_ex (\<lambda>x. t_instance x = iid) (topics t) \<or> list_ex (\<lambda>x. dg_default x = Some iid) (designators t) \<or>
     list_ex (\<lambda>x. sl_instance x = iid) (selectors t)"

definition delete_kafka :: "string \<Rightarrow> tables \<Rightarrow> (nat \<times> tables) outcome" where
  "delete_kafka iid t =
     (if kafka_referenced iid t \<and> list_ex (\<lambda>j. ki_id j = iid) (kafka_instances t) then Inl ForeignKeyViolation
      else Inr (length [j \<leftarrow> kafka_instances t. ki_id j = iid],
                t\<lparr>kafka_instances := [j \<leftarrow> kafka_instances t. ki_id j \<noteq> iid]\<rparr>))"

section \<open>Kafka registry, data access (kafka_instances_dao.go)\<close>

definition zero_kafka :: kafka_instance where
  "zero_kafka = \<lparr>ki_id = [], ki_addresses = [], ki_default = False, ki_protocol = [], ki_ca_cert = [], ki_credentials = []\<rparr>"

definition unique_as_bad_request :: "err \<Rightarrow> err" where
  "unique_as_bad_request e = (if IsUniqIntegrityViolation e then BadRequest else e)"

definition k_dao_GetKafkaInstanceRegistrations :: "('k, kafka_instance list) dbio" where
  "k_dao_GetKafkaInstanceRegistrations = using_db [] (sql_read kafka_instances)"

definition k_dao_GetInstanceById :: "string \<Rightarrow> ('k, kafka_instance option) dbio" where
  "k_dao_GetInstanceById iid =
     bind_io (attempt_io (using_db zero_kafka (sql_first (\<lambda>t. find (\<lambda>j. ki_id j = iid) (kafka_instances t))))) (\<lambda>res.
       case res of
         Inl e \<Rightarrow> if is_record_not_found e then ret_io None else raise_io (wrapped e)
       | Inr i \<Rightarrow> ret_io (Some i))"

text \<open>The number of updated rows is looked at before the error.\<close>

definition k_default_body :: "kafka_instance \<Rightarrow> ('k, kafka_instance) dbio" where
  "k_default_body i =
     then_io (wrap_io (sql_write (\<lambda>t. Inr ((), clear_kafka_default t))))
       (bind_io (attempt_io (sql_write (update_kafka_default (ki_id i)))) (\<lambda>ret.
          case ret of
            Inl e \<Rightarrow> raise_io Generic
          | Inr None \<Rightarrow> raise_io Generic
          | Inr (Some row) \<Rightarrow> ret_io row))"

definition k_dao_SetDefaultInstance :: "kafka_instance \<Rightarrow> ('k, kafka_instance) dbio" where
  "k_dao_SetDefaultInstance i = with_tx i (k_default_body i)"

definition k_insert_body :: "kafka_instance \<Rightarrow> ('k, kafka_instance) dbio" where
  "k_insert_body i =
     bind_io (sql_read (\<lambda>t. length (kafka_instances t) = 0)) (\<lambda>registrationsNotFound.
     then_io (map_err_io unique_as_bad_request (sql_write (insert_kafka i)))
       (if ki_default i \<or> registrationsNotFound then k_dao_SetDefaultInstance i else ret_io i))"

definition k_dao_InsertInstanceRegistration :: "kafka_instance \<Rightarrow> ('k, kafka_instance) dbio" where
  "k_dao_InsertInstanceRegistration i = wrap_io (with_tx_ctx (with_tx i (k_insert_body i)))"

definition k_update_body :: "kafka_instance \<Rightarrow> ('k, kafka_instance) dbio" where
  "k_update_body i =
     bind_io (k_dao_GetInstanceById (ki_id i)) (\<lambda>existing.
       case existing of
         None \<Rightarrow> raise_io NotFound
       | Some old \<Rightarrow>
           if ki_default old \<and> \<not> ki_default i then raise_io BadRequest
           else then_io (wrap_io (sql_write (save_kafka i)))
                  (if ki_default i then wrap_io (k_dao_SetDefaultInstance i) else ret_io i))"

definition k_dao_UpdateInstanceRegistration :: "kafka_instance \<Rightarrow> ('k, kafka_instance) dbio" where
  "k_dao_UpdateInstanceRegistration i = with_tx_ctx (with_tx i (k_update_body i))"

text \<open>
  \<open>defaultInstance\<close> (default_instance.go), for either registry: the cache having no row is told from there being
  no default.
\<close>

definition defaultInstance :: "'i \<Rightarrow> (tables \<Rightarrow> 'i option) \<Rightarrow> ('k, 'i option) dbio" where
  "defaultInstance zero q =
     bind_io (attempt_io (with_tx zero (sql_first q))) (\<lambda>res.
       case res of
         Inl e \<Rightarrow> if e = RecordNotFoundInCache then raise_io MasterDatabaseUnavailable
                  else if is_record_not_found e then ret_io None
                  else raise_io (wrapped e)
       | Inr i \<Rightarrow> ret_io (Some i))"

definition k_dao_GetDefaultInstance :: "('k, kafka_instance option) dbio" where
  "k_dao_GetDefaultInstance = defaultInstance zero_kafka (\<lambda>t. find ki_default (kafka_instances t))"

definition k_remove_body :: "string \<Rightarrow> ('k, kafka_instance) dbio" where
  "k_remove_body iid =
     bind_io (wrap_io (k_dao_GetInstanceById iid)) (\<lambda>found.
       case found of
         None \<Rightarrow> raise_io NotFound
       | Some i \<Rightarrow>
           bind_io (wrap_io k_dao_GetKafkaInstanceRegistrations) (\<lambda>registrations.
             if ki_default i \<and> length registrations > 1 then raise_io BadRequest
             else bind_io (map_err_io (\<lambda>e. if IsForeignKeyIntegrityViolation e then BadRequest else wrapped e)
                             (sql_write (delete_kafka (ki_id i))))
                    (\<lambda>affected. if affected \<noteq> 1 then raise_io Generic else ret_io i)))"

definition k_dao_RemoveInstanceRegistration :: "string \<Rightarrow> ('k, kafka_instance) dbio" where
  "k_dao_RemoveInstanceRegistration iid = wrap_io (with_tx_ctx (with_tx zero_kafka (k_remove_body iid)))"

section \<open>Kafka designators, data access\<close>

text \<open>
  A designator is inserted, or replaces the row of its namespace; its selectors are inserted
  after it, in a statement of their own.  Foreign keys lead to the instances.
\<close>

definition upsert_designator :: "'i designator \<Rightarrow> tables \<Rightarrow> (nat \<times> tables) outcome" where
  "upsert_designator d t =
     (if (case de_default_id d of None \<Rightarrow> False | Some i \<Rightarrow> \<not> list_ex (\<lambda>j. ki_id j = i) (kafka_instances t)) then Inl ForeignKeyViolation
      else case find (\<lambda>r. dg_namespace r = de_namespace d) (designators t) of
        Some row \<Rightarrow> Inr (dg_id row, t\<lparr>designators :=
            map (\<lambda>r. if dg_namespace r = de_namespace d then r\<lparr>dg_default := de_default_id d\<rparr> else r) (designators t)\<rparr>)
      | None \<Rightarrow> Inr (next_id t, t\<lparr>next_id := next_id t + 1, designators := designators t @
            [\<lparr>dg_id = next_id t, dg_namespace = de_namespace d, dg_default = de_default_id d\<rparr>]\<rparr>))"

definition insert_selectors :: "nat \<Rightarrow> 'i selector list \<Rightarrow> tables \<Rightarrow> (unit \<times> tables) outcome" where
  "insert_selectors did sels t =
     (if \<not> list_all (\<lambda>s. list_ex (\<lambda>j. ki_id j = se_instance_id s) (kafka_instances t)) sels then Inl ForeignKeyViolation
      else Inr ((), t\<lparr>next_id := next_id t + length sels, selectors := selectors t @
             map (\<lambda>(n, s). \<lparr>sl_id = next_id t + n, sl_designator = did, sl_match = se_match s, sl_instance = se_instance_id s\<rparr>)
               (enumerate 0 sels)\<rparr>))"

definition delete_designator :: "string \<Rightarrow> tables \<Rightarrow> (unit \<times> tables) outcome" where
  "delete_designator ns t =
     (let gone = dg_id ` set [r \<leftarrow> designators t. dg_namespace r = ns]
      in Inr ((), t\<lparr>designators := [r \<leftarrow> designators t. dg_namespace r \<noteq> ns],
                   selectors := [s \<leftarrow> selectors t. sl_designator s \<notin> gone]\<rparr>))"

definition k_dao_GetKafkaInstanceDesignatorByNamespace :: "string \<Rightarrow> ('k, kafka_instance designator option) dbio" where
  "k_dao_GetKafkaInstanceDesignatorByNamespace namespace =
     bind_io (dao_FindByNamespace namespace) (\<lambda>domainEntity.
     let ns = (case domainEntity of None \<Rightarrow> namespace | Some e \<Rightarrow> d_origin e) in
     bind_io (attempt_io (using_db zero_designator
         (bind_io (sql_first (\<lambda>t. find (\<lambda>r. dg_namespace r = ns) (designators t))) (\<lambda>row.
          bind_io (sql_read (\<lambda>t. [s \<leftarrow> selectors t. sl_designator s = dg_id row])) (\<lambda>sels.
          bind_io (case dg_default row of
                     None \<Rightarrow> ret_io None
                   | Some iid \<Rightarrow> sql_read (\<lambda>t. find (\<lambda>j. ki_id j = iid) (kafka_instances t))) (\<lambda>inst.
            ret_io \<lparr>de_namespace = dg_namespace row, de_default_id = dg_default row,
                    de_selectors = map (\<lambda>s. \<lparr>se_match = sl_match s, se_instance_id = sl_instance s, se_instance = None\<rparr>) sels,
                    de_default = inst\<rparr>)))))) (\<lambda>res.
       case res of
         Inl e \<Rightarrow> if is_record_not_found e then ret_io None else raise_io e
       | Inr obj \<Rightarrow>
           bind_io (map_io (\<lambda>s. bind_io (wrap_io (k_dao_GetInstanceById (se_instance_id s))) (\<lambda>inst.
                 case inst of None \<Rightarrow> raise_io NotFound | Some i \<Rightarrow> ret_io (s\<lparr>se_instance := Some i\<rparr>))) (de_selectors obj))
             (\<lambda>sels. ret_io (Some (obj\<lparr>de_selectors := sels\<rparr>)))))"

text \<open>Namespaces of the peer of a blue/green pair are replaced by its origin first.\<close>

definition to_origin :: "bg_domain_row option \<Rightarrow> 'i designator \<Rightarrow> 'i designator" where
  "to_origin found d = (case found of None \<Rightarrow> d
     | Some e \<Rightarrow> d\<lparr>de_namespace := (if de_namespace d = d_peer e then d_origin e else de_namespace d),
           de_selectors := map (\<lambda>s. if cm_namespace (se_match s) = d_peer e
              then s\<lparr>se_match := (se_match s)\<lparr>cm_namespace := d_origin e\<rparr>\<rparr> else s) (de_selectors d)\<rparr>)"

definition k_dao_InsertInstanceDesignatorKafka :: "kafka_instance designator \<Rightarrow> ('k, unit) dbio" where
  "k_dao_InsertInstanceDesignatorKafka designator =
     bind_io (attempt_io (dao_FindByNamespace (de_namespace designator))) (\<lambda>found.
     let d = to_origin (case found of Inl e \<Rightarrow> None | Inr e \<Rightarrow> e) designator in
     with_tx_ctx (with_tx ()
       (bind_io (attempt_io (bind_io (sql_write (upsert_designator d)) (\<lambda>did.
                   if de_selectors d = [] then ret_io () else sql_write (insert_selectors did (de_selectors d))))) (\<lambda>res.
          case res of
            Inr _ \<Rightarrow> ret_io ()
          | Inl e \<Rightarrow>
              if IsUniqIntegrityViolation e
              then then_io (k_dao_GetKafkaInstanceDesignatorByNamespace (de_namespace d)) (raise_io DesignatorUniqIndex)
              else if IsForeignKeyIntegrityViolation e then raise_io DesignatorForeignKey
              else raise_io e))))"

definition k_dao_DeleteKafkaInstanceDesignatorByNamespace :: "string \<Rightarrow> ('k, unit) dbio" where
  "k_dao_DeleteKafkaInstanceDesignatorByNamespace ns = with_tx () (sql_write (delete_designator ns))"

section \<open>Kafka registry, service (kafka_instances_service.go)\<close>

type_synonym ('k, 'i) listeners = "('i \<Rightarrow> ('k world, unit) io) broadcast"

definition k_performOperation ::
    "('k, kafka_instance) listeners \<Rightarrow> kafka_instance \<Rightarrow> (kafka_instance \<Rightarrow> ('k, kafka_instance) dbio) \<Rightarrow> ('k, kafka_instance) dbio" where
  "k_performOperation bc i reg =
     (if ki_id i = [] then raise_io Generic
      else bind_io (reg (kafka_FillDefaults i)) (\<lambda>updated. then_io (ExecuteListeners bc updated) (ret_io updated)))"

definition k_Register :: "('k, kafka_instance) listeners \<Rightarrow> (kafka_instance \<Rightarrow> unit outcome) \<Rightarrow> string \<Rightarrow> kafka_instance \<Rightarrow> ('k, kafka_instance) dbio" where
  "k_Register bc health uuid i =
     (let j = (if ki_id i = [] then i\<lparr>ki_id := uuid\<rparr> else i) in
      case health j of
        Inl e \<Rightarrow> raise_io BadRequest
      | Inr _ \<Rightarrow> k_performOperation bc j k_dao_InsertInstanceRegistration)"

definition k_GetKafkaInstances :: "('k, kafka_instance list) dbio" where
  "k_GetKafkaInstances = k_dao_GetKafkaInstanceRegistrations"

definition k_GetById :: "string \<Rightarrow> ('k, kafka_instance option) dbio" where
  "k_GetById iid = wrap_io (k_dao_GetInstanceById iid)"

definition k_Update :: "('k, kafka_instance) listeners \<Rightarrow> (kafka_instance \<Rightarrow> unit outcome) \<Rightarrow> kafka_instance \<Rightarrow> ('k, kafka_instance) dbio" where
  "k_Update bc health i =
     (case health i of
        Inl e \<Rightarrow> raise_io BadRequest
      | Inr _ \<Rightarrow> k_performOperation bc i k_dao_UpdateInstanceRegistration)"

definition k_SetDefault :: "('k, kafka_instance) listeners \<Rightarrow> kafka_instance \<Rightarrow> ('k, kafka_instance) dbio" where
  "k_SetDefault bc i = k_performOperation bc i k_dao_SetDefaultInstance"

definition k_GetDefault :: "('k, kafka_instance option) dbio" where
  "k_GetDefault = k_dao_GetDefaultInstance"

definition k_Unregister :: "('k, kafka_instance) listeners \<Rightarrow> string \<Rightarrow> ('k, kafka_instance) dbio" where
  "k_Unregister bc iid =
     bind_io (k_dao_RemoveInstanceRegistration iid) (\<lambda>i. then_io (ExecuteListeners bc i) (ret_io i))"

definition DeleteKafkaInstanceDesignatorByNamespace :: "string \<Rightarrow> ('k, unit) dbio" where
  "DeleteKafkaInstanceDesignatorByNamespace ns = wrap_io (k_dao_DeleteKafkaInstanceDesignatorByNamespace ns)"

definition UpsertKafkaInstanceDesignator :: "kafka_instance designator \<Rightarrow> string \<Rightarrow> ('k, unit) dbio" where
  "UpsertKafkaInstanceDesignator d ns = with_tx_ctx
     (then_io (DeleteKafkaInstanceDesignatorByNamespace ns) (k_dao_InsertInstanceDesignatorKafka d))"

definition GetKafkaInstanceDesignatorByNamespace :: "string \<Rightarrow> ('k, kafka_instance designator option) dbio" where
  "GetKafkaInstanceDesignatorByNamespace ns = k_dao_GetKafkaInstanceDesignatorByNamespace ns"

section \<open>RabbitMQ registry (rabbit_instances_dao.go, rabbit_instances_service.go)\<close>

definition zero_rabbit :: rabbit_instance where
  "zero_rabbit = \<lparr>ri_id = [], ri_api_url = [], ri_amqp_url = [], ri_user = [], ri_password = [], ri_default = False\<rparr>"

definition rabbit_FillDefaults :: "rabbit_instance \<Rightarrow> rabbit_instance" where
  "rabbit_FillDefaults i =
     (let url = rev (dropWhile (\<lambda>c. c = slash_char) (rev (ri_api_url i)))
      in i\<lparr>ri_api_url := (if has_prefix (rev url) (rev (slash_char # ''api'')) then url else url @ slash_char # ''api'')\<rparr>)"

definition insert_rabbit :: "rabbit_instance \<Rightarrow> tables \<Rightarrow> (unit \<times> tables) outcome" where
  "insert_rabbit i t =
     (if list_ex (\<lambda>j. ri_id j = ri_id i) (rabbit_instances t) then Inl UniqueViolation
      else Inr ((), t\<lparr>rabbit_instances := rabbit_instances t @ [i]\<rparr>))"

definition save_rabbit :: "rabbit_instance \<Rightarrow> tables \<Rightarrow> (unit \<times> tables) outcome" where
  "save_rabbit i t =
     (if list_ex (\<lambda>j. ri_id j = ri_id i) (rabbit_instances t)
      then Inr ((), t\<lparr>rabbit_instances := map (\<lambda>j. if ri_id j = ri_id i then i else j) (rabbit_instances t)\<rparr>)
      else Inr ((), t\<lparr>rabbit_instances := rabbit_instances t @ [i]\<rparr>))"

definition clear_rabbit_default :: "tables \<Rightarrow> tables" where
  "clear_rabbit_default t = t\<lparr>rabbit_instances := map (\<lambda>j. j\<lparr>ri_default := False\<rparr>) (rabbit_instances t)\<rparr>"

definition mark_rabbit_default :: "string \<Rightarrow> tables \<Rightarrow> tables" where
  "mark_rabbit_default iid t =
     t\<lparr>rabbit_instances := map (\<lambda>j. if ri_id j = iid then j\<lparr>ri_default := True\<rparr> else j) (rabbit_instances t)\<rparr>"

definition update_rabbit_default :: "string \<Rightarrow> tables \<Rightarrow> (nat \<times> tables) outcome" where
  "update_rabbit_default iid t =
     (if iid = [] then Inl Generic
      else Inr (length [j \<leftarrow> rabbit_instances t. ri_id j = iid], mark_rabbit_default iid t))"

definition rabbit_referenced :: "string \<Rightarrow> tables \<Rightarrow> bool" where
  "rabbit_referenced iid t \<longleftrightarrow>
     list_ex (\<lambda>v. vh_instance v = iid) (vhosts t) \<or> list_ex (\<lambda>x. dg_default x = Some iid) (rabbit_designators t) \<or>
     list_ex (\<lambda>x. sl_instance x = iid) (rabbit_selectors t)"

definition delete_rabbit :: "string \<Rightarrow> tables \<Rightarrow> (nat \<times> tables) outcome" where
  "delete_rabbit iid t =
     (if rabbit_referenced iid t \<and> list_ex (\<lambda>j. ri_id j = iid) (rabbit_instances t) then Inl ForeignKeyViolation
      else Inr (length [j \<leftarrow> rabbit_instances t. ri_id j = iid],
                t\<lparr>rabbit_instances := [j \<leftarrow> rabbit_instances t. ri_id j \<noteq> iid]\<rparr>))"

definition r_dao_GetRabbitInstanceRegistrations :: "('k, rabbit_instance list) dbio" where
  "r_dao_GetRabbitInstanceRegistrations = using_db [] (sql_read rabbit_instances)"

definition r_dao_GetInstanceById :: "string \<Rightarrow> ('k, rabbit_instance option) dbio" where
  "r_dao_GetInstanceById iid =
     bind_io (attempt_io (using_db zero_rabbit (sql_first (\<lambda>t. find (\<lambda>j. ri_id j = iid) (rabbit_instances t))))) (\<lambda>res.
       case res of
         Inl e \<Rightarrow> if is_record_not_found e then ret_io None else raise_io (wrapped e)
       | Inr i \<Rightarrow> ret_io (Some i))"

text \<open>Without \<open>returning\<close>, only the flag of the instance at hand is updated.\<close>

definition r_default_body :: "rabbit_instance \<Rightarrow> ('k, rabbit_instance) dbio" where
  "r_default_body i =
     then_io (wrap_io (sql_write (\<lambda>t. Inr ((), clear_rabbit_default t))))
       (bind_io (attempt_io (sql_write (update_rabbit_default (ri_id i)))) (\<lambda>ret.
          case ret of
            Inl e \<Rightarrow> raise_io Generic
          | Inr affected \<Rightarrow> if affected \<noteq> 1 then raise_io Generic else ret_io (i\<lparr>ri_default := True\<rparr>)))"

definition r_dao_SetDefaultInstance :: "rabbit_instance \<Rightarrow> ('k, rabbit_instance) dbio" where
  "r_dao_SetDefaultInstance i = with_tx i (r_default_body i)"

definition r_insert_body :: "rabbit_instance \<Rightarrow> ('k, rabbit_instance) dbio" where
  "r_insert_body i =
     bind_io (sql_read (\<lambda>t. length (rabbit_instances t) = 0)) (\<lambda>registrationsNotFound.
     then_io (map_err_io unique_as_bad_request (sql_write (insert_rabbit i)))
       (if ri_default i \<or> registrationsNotFound then r_dao_SetDefaultInstance i else ret_io i))"

definition r_dao_InsertInstanceRegistration :: "rabbit_instance \<Rightarrow> ('k, rabbit_instance) dbio" where
  "r_dao_InsertInstanceRegistration i = wrap_io (with_tx_ctx (with_tx i (r_insert_body i)))"

text \<open>Here the default is moved first, and the instance saved after it.\<close>

definition r_update_body :: "rabbit_instance \<Rightarrow> ('k, rabbit_instance) dbio" where
  "r_update_body i =
     bind_io (r_dao_GetInstanceById (ri_id i)) (\<lambda>existing.
       case existing of
         None \<Rightarrow> raise_io BadRequest
       | Some old \<Rightarrow>
           if ri_default old \<and> \<not> ri_default i then raise_io BadRequest
           else bind_io (if ri_default i then r_dao_SetDefaultInstance i else ret_io i) (\<lambda>j.
                  then_io (wrap_io (sql_write (save_rabbit j))) (ret_io j)))"

definition r_dao_UpdateInstanceRegistration :: "rabbit_instance \<Rightarrow> ('k, rabbit_instance) dbio" where
  "r_dao_UpdateInstanceRegistration i = with_tx_ctx (with_tx i (r_update_body i))"

definition r_dao_GetDefaultInstance :: "('k, rabbit_instance option) dbio" where
  "r_dao_GetDefaultInstance = defaultInstance zero_rabbit (\<lambda>t. find ri_default (rabbit_instances t))"

text \<open>
  A missing instance, or an error of the lookup, is a nil pointer whose identifier is read for
  the message: a panic.
\<close>

definition r_remove_body :: "string \<Rightarrow> ('k, rabbit_instance) dbio" where
  "r_remove_body iid =
     bind_io (attempt_io (r_dao_GetInstanceById iid)) (\<lambda>found.
       case found of
         Inl e \<Rightarrow> raise_io GoPanic
       | Inr None \<Rightarrow> raise_io GoPanic
       | Inr (Some i) \<Rightarrow>
           bind_io (wrap_io r_dao_GetRabbitInstanceRegistrations) (\<lambda>registrations.
             if ri_default i \<and> length registrations > 1 then raise_io BadRequest
             else bind_io (map_err_io (\<lambda>e. if IsForeignKeyIntegrityViolation e then BadRequest else wrapped e)
                             (sql_write (delete_rabbit (ri_id i))))
                    (\<lambda>affected. if affected \<noteq> 1 then raise_io Generic else ret_io i)))"

definition r_dao_RemoveInstanceRegistration :: "string \<Rightarrow> ('k, rabbit_instance) dbio" where
  "r_dao_RemoveInstanceRegistration iid = wrap_io (with_tx_ctx (with_tx zero_rabbit (r_remove_body iid)))"

definition r_performOperation ::
    "('k, rabbit_instance) listeners \<Rightarrow> rabbit_instance \<Rightarrow> (rabbit_instance \<Rightarrow> ('k, rabbit_instance) dbio) \<Rightarrow> ('k, rabbit_instance) dbio" where
  "r_performOperation bc i reg =
     (if ri_id i = [] then raise_io Generic
      else bind_io (reg (rabbit_FillDefaults i)) (\<lambda>updated. then_io (ExecuteListeners bc updated) (ret_io updated)))"

definition r_Register :: "('k, rabbit_instance) listeners \<Rightarrow> (rabbit_instance \<Rightarrow> unit outcome) \<Rightarrow> string \<Rightarrow> rabbit_instance \<Rightarrow> ('k, rabbit_instance) dbio" where
  "r_Register bc health uuid i =
     (let j = (if ri_id i = [] then i\<lparr>ri_id := uuid\<rparr> else i) in
      case health j of
        Inl e \<Rightarrow> raise_io BadRequest
      | Inr _ \<Rightarrow> r_performOperation bc j r_dao_InsertInstanceRegistration)"

definition r_Update :: "('k, rabbit_instance) listeners \<Rightarrow> (rabbit_instance \<Rightarrow> unit outcome) \<Rightarrow> rabbit_instance \<Rightarrow> ('k, rabbit_instance) dbio" where
  "r_Update bc health i =
     (case health i of
        Inl e \<Rightarrow> raise_io BadRequest
      | Inr _ \<Rightarrow> r_performOperation bc i r_dao_UpdateInstanceRegistration)"

definition r_SetDefault :: "('k, rabbit_instance) listeners \<Rightarrow> rabbit_instance \<Rightarrow> ('k, rabbit_instance) dbio" where
  "r_SetDefault bc i = r_performOperation bc i r_dao_SetDefaultInstance"

definition r_GetById :: "string \<Rightarrow> ('k, rabbit_instance option) dbio" where
  "r_GetById iid = wrap_io (r_dao_GetInstanceById iid)"

definition r_Unregister :: "('k, rabbit_instance) listeners \<Rightarrow> string \<Rightarrow> ('k, rabbit_instance) dbio" where
  "r_Unregister bc iid =
     bind_io (r_dao_RemoveInstanceRegistration iid) (\<lambda>i. then_io (ExecuteListeners bc i) (ret_io i))"

definition r_GetDefault :: "('k, rabbit_instance option) dbio" where
  "r_GetDefault = r_dao_GetDefaultInstance"

definition r_GetRabbitInstances :: "('k, rabbit_instance list) dbio" where
  "r_GetRabbitInstances = r_dao_GetRabbitInstanceRegistrations"

section \<open>RabbitMQ designators\<close>

text \<open>
  As those of Kafka, on the tables of their own, but without the blue/green domain: the namespace
  is used as it is, and an instance a selector names but that is missing leaves the selector
  without one.
\<close>

definition upsert_rabbit_designator :: "'i designator \<Rightarrow> tables \<Rightarrow> (nat \<times> tables) outcome" where
  "upsert_rabbit_designator d t =
     (if (case de_default_id d of None \<Rightarrow> False | Some i \<Rightarrow> \<not> list_ex (\<lambda>j. ri_id j = i) (rabbit_instances t)) then Inl ForeignKeyViolation
      else case find (\<lambda>r. dg_namespace r = de_namespace d) (rabbit_designators t) of
        Some row \<Rightarrow> Inr (dg_id row, t\<lparr>rabbit_designators :=
            map (\<lambda>r. if dg_namespace r = de_namespace d then r\<lparr>dg_default := de_default_id d\<rparr> else r) (rabbit_designators t)\<rparr>)
      | None \<Rightarrow> Inr (next_id t, t\<lparr>next_id := next_id t + 1, rabbit_designators := rabbit_designators t @
            [\<lparr>dg_id = next_id t, dg_namespace = de_namespace d, dg_default = de_default_id d\<rparr>]\<rparr>))"

definition insert_rabbit_selectors :: "nat \<Rightarrow> 'i selector list \<Rightarrow> tables \<Rightarrow> (unit \<times> tables) outcome" where
  "insert_rabbit_selectors did sels t =
     (if \<not> list_all (\<lambda>s. list_ex (\<lambda>j. ri_id j = se_instance_id s) (rabbit_instances t)) sels then Inl ForeignKeyViolation
      else Inr ((), t\<lparr>next_id := next_id t + length sels, rabbit_selectors := rabbit_selectors t @
             map (\<lambda>(n, s). \<lparr>sl_id = next_id t + n, sl_designator = did, sl_match = se_match s, sl_instance = se_instance_id s\<rparr>)
               (enumerate 0 sels)\<rparr>))"

definition delete_rabbit_designator :: "string \<Rightarrow> tables \<Rightarrow> (unit \<times> tables) outcome" where
  "delete_rabbit_designator ns t =
     (let gone = dg_id ` set [r \<leftarrow> rabbit_designators t. dg_namespace r = ns]
      in Inr ((), t\<lparr>rabbit_designators := [r \<leftarrow> rabbit_designators t. dg_namespace r \<noteq> ns],
                   rabbit_selectors := [s \<leftarrow> rabbit_selectors t. sl_designator s \<notin> gone]\<rparr>))"

definition r_dao_GetRabbitInstanceDesignatorByNamespace :: "string \<Rightarrow> ('k, rabbit_instance designator option) dbio" where
  "r_dao_GetRabbitInstanceDesignatorByNamespace ns =
     bind_io (attempt_io (using_db zero_designator
         (bind_io (sql_first (\<lambda>t. find (\<lambda>r. dg_namespace r = ns) (rabbit_designators t))) (\<lambda>row.
          bind_io (sql_read (\<lambda>t. [s \<leftarrow> rabbit_selectors t. sl_designator s = dg_id row])) (\<lambda>sels.
          bind_io (case dg_default row of
                     None \<Rightarrow> ret_io None
                   | Some iid \<Rightarrow> sql_read (\<lambda>t. find (\<lambda>j. ri_id j = iid) (rabbit_instances t))) (\<lambda>inst.
            ret_io \<lparr>de_namespace = dg_namespace row, de_default_id = dg_default row,
                    de_selectors = map (\<lambda>s. \<lparr>se_match = sl_match s, se_instance_id = sl_instance s, se_instance = None\<rparr>) sels,
                    de_default = inst\<rparr>)))))) (\<lambda>res.
       case res of
         Inl e \<Rightarrow> if is_record_not_found e then ret_io None else raise_io e
       | Inr obj \<Rightarrow>
           bind_io (map_io (\<lambda>s. bind_io (r_dao_GetInstanceById (se_instance_id s)) (\<lambda>inst. ret_io (s\<lparr>se_instance := inst\<rparr>)))
                (de_selectors obj))
             (\<lambda>sels. ret_io (Some (obj\<lparr>de_selectors := sels\<rparr>))))"

text \<open>The message about a foreign key dereferences the default instance, which may be nil.\<close>

definition r_dao_InsertInstanceDesignatorRabbit :: "rabbit_instance designator \<Rightarrow> ('k, unit) dbio" where
  "r_dao_InsertInstanceDesignatorRabbit d =
     with_tx ()
       (bind_io (attempt_io (bind_io (sql_write (upsert_rabbit_designator d)) (\<lambda>did.
                   if de_selectors d = [] then ret_io () else sql_write (insert_rabbit_selectors did (de_selectors d))))) (\<lambda>res.
          case res of
            Inr _ \<Rightarrow> ret_io ()
          | Inl e \<Rightarrow>
              if IsUniqIntegrityViolation e
              then then_io (r_dao_GetRabbitInstanceDesignatorByNamespace (de_namespace d)) (raise_io DesignatorUniqIndex)
              else if IsForeignKeyIntegrityViolation e
              then then_io (deref_io (de_default_id d)) (raise_io DesignatorForeignKey)
              else raise_io e))"

definition r_dao_DeleteRabbitInstanceDesignatorByNamespace :: "string \<Rightarrow> ('k, unit) dbio" where
  "r_dao_DeleteRabbitInstanceDesignatorByNamespace ns = with_tx () (sql_write (delete_rabbit_designator ns))"

definition UpsertRabbitInstanceDesignator :: "rabbit_instance designator \<Rightarrow> string \<Rightarrow> ('k, unit) dbio" where
  "UpsertRabbitInstanceDesignator d ns = with_tx_ctx
     (then_io (r_dao_DeleteRabbitInstanceDesignatorByNamespace ns) (r_dao_InsertInstanceDesignatorRabbit d))"

definition GetRabbitInstanceDesignatorByNamespace :: "string \<Rightarrow> ('k, rabbit_instance designator option) dbio" where
  "GetRabbitInstanceDesignatorByNamespace ns = r_dao_GetRabbitInstanceDesignatorByNamespace ns"

definition DeleteRabbitInstanceDesignatorByNamespace :: "string \<Rightarrow> ('k, unit) dbio" where
  "DeleteRabbitInstanceDesignatorByNamespace ns = r_dao_DeleteRabbitInstanceDesignatorByNamespace ns"

section \<open>The interface of a registry\<close>

text \<open>
  What the default of a registry depends on: the identifier and the flag of each instance.  At
  most one instance of an empty registry, and exactly one of any other, is the default.
\<close>

definition one_default :: "(string \<times> bool) list \<Rightarrow> bool" where
  "one_default fs \<longleftrightarrow> distinct (map fst fs) \<and> (fs = [] \<or> length (filter snd fs) = 1)"

lemma one_default_distinct: "one_default fs \<Longrightarrow> distinct (map fst fs)"
  by (simp add: one_default_def)

lemma one_default_mark:
  assumes "distinct (map fst fs)" "i \<in> fst ` set fs"
  shows "one_default (map (\<lambda>(k, d). (k, d \<or> k = i)) (map (\<lambda>(k, d). (k, False)) fs))"
proof -
  have "length (filter (\<lambda>x. fst x = i) fs) = 1"
    using assms by (induction fs) (auto simp: filter_empty_conv image_iff)
  then have "length (filter snd (map (\<lambda>(k, d). (k, d \<or> k = i)) (map (\<lambda>(k, d). (k, False)) fs))) = 1"
    by (simp add: filter_map comp_def case_prod_beta)
  then show ?thesis using assms(1) by (simp add: one_default_def comp_def case_prod_beta)
qed

lemma one_default_more: "one_default fs \<Longrightarrow> fs \<noteq> [] \<Longrightarrow> k \<notin> fst ` set fs \<Longrightarrow> one_default (fs @ [(k, False)])"
  by (simp add: one_default_def)

lemma one_default_same:
  assumes "one_default fs" "(k, d) \<in> set fs"
  shows "map (\<lambda>(k', d'). if k' = k then (k', d) else (k', d')) fs = fs"
proof -
  have "d' = d" if "(k, d') \<in> set fs" for d'
    using eq_key_imp_eq_value [OF one_default_distinct [OF assms(1)] that assms(2)] .
  then show ?thesis by (intro map_idI) auto
qed

lemma one_default_less:
  assumes "one_default fs" "(k, False) \<in> set fs"
  shows "one_default (filter (\<lambda>x. fst x \<noteq> k) fs)"
proof -
  have "\<not> d" if "(k, d) \<in> set fs" for d
    using eq_key_imp_eq_value [OF one_default_distinct [OF assms(1)] that assms(2)] by simp
  then have "filter snd (filter (\<lambda>x. fst x \<noteq> k) fs) = filter snd fs"
    unfolding filter_filter by (intro filter_cong refl) (metis prod.collapse)
  moreover have "distinct (map fst (filter (\<lambda>x. fst x \<noteq> k) fs))"
    using one_default_distinct [OF assms(1)] by (rule distinct_map_filter)
  moreover have "fs \<noteq> []" using assms(2) by auto
  ultimately show ?thesis using assms(1) unfolding one_default_def by simp
qed

lemma one_default_last:
  assumes "length fs \<le> 1" "(k, d) \<in> set fs"
  shows "filter (\<lambda>x. fst x \<noteq> k) fs = []"
  using assms by (cases fs) auto

text \<open>
  A registry offers the statements of its table; the laws say what they do to the flags and that
  they leave \<open>others\<close>, a view of the rest, alone.
\<close>

locale default_registry =
  fixes flags :: "tables \<Rightarrow> (string \<times> bool) list"
    and others :: "tables \<Rightarrow> 'o"
    and ident :: "'i \<Rightarrow> string"
    and dflt :: "'i \<Rightarrow> bool"
    and clear :: "tables \<Rightarrow> tables"
    and mark :: "string \<Rightarrow> tables \<Rightarrow> tables"
    and add :: "'i \<Rightarrow> tables \<Rightarrow> (unit \<times> tables) outcome"
    and save :: "'i \<Rightarrow> tables \<Rightarrow> (unit \<times> tables) outcome"
    and remove :: "string \<Rightarrow> tables \<Rightarrow> (nat \<times> tables) outcome"
  assumes clear: "flags (clear t) = map (\<lambda>(k, d). (k, False)) (flags t) \<and> others (clear t) = others t"
    and mark: "flags (mark i t) = map (\<lambda>(k, d). (k, d \<or> k = i)) (flags t) \<and> others (mark i t) = others t"
    and add: "add x t = Inr (u, t') \<Longrightarrow>
      ident x \<notin> fst ` set (flags t) \<and> flags t' = flags t @ [(ident x, dflt x)] \<and> others t' = others t"
    and save: "save x t = Inr (u, t') \<Longrightarrow> ident x \<in> fst ` set (flags t) \<Longrightarrow>
      flags t' = map (\<lambda>(k, d). if k = ident x then (k, dflt x) else (k, d)) (flags t) \<and> others t' = others t"
    and remove: "remove i t = Inr (n, t') \<Longrightarrow> flags t' = filter (\<lambda>x. fst x \<noteq> i) (flags t) \<and> others t' = others t"
begin

lemma moved:
  "distinct (map fst (flags t)) \<Longrightarrow> i \<in> fst ` set (flags t) \<Longrightarrow> one_default (flags (mark i (clear t))) \<and> others (mark i (clear t)) = others t"
  using mark [of i "clear t"] clear [of t] one_default_mark [of "flags t" i] by simp

lemma added:
  assumes "one_default (flags t)" "add x t = Inr (u, t')"
  shows "distinct (map fst (flags t')) \<and> others t' = others t \<and> (flags t \<noteq> [] \<and> \<not> dflt x \<longrightarrow> one_default (flags t'))"
proof -
  note a = add [OF assms(2)]
  have "distinct (map fst (flags t'))" using a one_default_distinct [OF assms(1)] by simp
  moreover have "one_default (flags t')" if "flags t \<noteq> []" "\<not> dflt x"
    using a one_default_more [OF assms(1) that(1), of "ident x"] that(2) by simp
  ultimately show ?thesis using a by blast
qed

lemma saved:
  assumes "one_default (flags t)" "save x t = Inr (u, t')" "(ident x, d) \<in> set (flags t)"
  shows "map fst (flags t') = map fst (flags t) \<and> others t' = others t \<and> (d = dflt x \<longrightarrow> one_default (flags t'))"
proof -
  have "ident x \<in> fst ` set (flags t)" using assms(3) by force
  note s = save [OF assms(2) this]
  have "map fst (map (\<lambda>(k, d). if k = ident x then (k, dflt x) else (k, d)) (flags t)) = map fst (flags t)"
    by (auto simp: case_prod_beta)
  with s one_default_same [of "flags t" "ident x" d] assms(1,3) show ?thesis by auto
qed

lemma removed:
  assumes "one_default (flags t)" "remove i t = Inr (n, t')" "(i, d) \<in> set (flags t)" "d \<longrightarrow> length (flags t) \<le> 1"
  shows "one_default (flags t') \<and> others t' = others t"
proof (cases d)
  case True
  with assms one_default_last [of "flags t" i True] remove [OF assms(2)] show ?thesis by (simp add: one_default_def)
next
  case False
  with assms one_default_less [of "flags t" i] remove [OF assms(2)] show ?thesis by simp
qed

end

definition k_flags :: "tables \<Rightarrow> (string \<times> bool) list" where
  "k_flags t = map (\<lambda>i. (ki_id i, ki_default i)) (kafka_instances t)"

definition r_flags :: "tables \<Rightarrow> (string \<times> bool) list" where
  "r_flags t = map (\<lambda>i. (ri_id i, ri_default i)) (rabbit_instances t)"

interpretation kafka: default_registry k_flags r_flags ki_id ki_default clear_kafka_default mark_kafka_default
  insert_kafka save_kafka delete_kafka
proof
  fix t t' x i and u :: unit and n :: nat
  show "k_flags (clear_kafka_default t) = map (\<lambda>(k, d). (k, False)) (k_flags t) \<and> r_flags (clear_kafka_default t) = r_flags t"
    by (simp add: k_flags_def r_flags_def clear_kafka_default_def)
  show "k_flags (mark_kafka_default i t) = map (\<lambda>(k, d). (k, d \<or> k = i)) (k_flags t) \<and> r_flags (mark_kafka_default i t) = r_flags t"
    by (auto simp: k_flags_def r_flags_def mark_kafka_default_def)
  show "insert_kafka x t = Inr (u, t') \<Longrightarrow>
      ki_id x \<notin> fst ` set (k_flags t) \<and> k_flags t' = k_flags t @ [(ki_id x, ki_default x)] \<and> r_flags t' = r_flags t"
    by (auto simp: insert_kafka_def k_flags_def r_flags_def list_ex_iff kafka_clash_def split: if_splits)
  show "k_flags t' = map (\<lambda>(k, d). if k = ki_id x then (k, ki_default x) else (k, d)) (k_flags t) \<and> r_flags t' = r_flags t"
    if a: "save_kafka x t = Inr (u, t')" and m: "ki_id x \<in> fst ` set (k_flags t)"
  proof -
    have "list_ex (\<lambda>j. ki_id j = ki_id x) (kafka_instances t)" using m by (auto simp: k_flags_def list_ex_iff)
    with a have "t' = t\<lparr>kafka_instances := map (\<lambda>j. if ki_id j = ki_id x then x else j) (kafka_instances t)\<rparr>"
      by (simp add: save_kafka_def split: if_splits)
    then show ?thesis by (auto simp: k_flags_def r_flags_def)
  qed
  show "delete_kafka i t = Inr (n, t') \<Longrightarrow> k_flags t' = filter (\<lambda>x. fst x \<noteq> i) (k_flags t) \<and> r_flags t' = r_flags t"
    by (auto simp: delete_kafka_def k_flags_def r_flags_def filter_map comp_def split: if_splits)
qed

interpretation rabbit: default_registry r_flags k_flags ri_id ri_default clear_rabbit_default mark_rabbit_default
  insert_rabbit save_rabbit delete_rabbit
proof
  fix t t' x i and u :: unit and n :: nat
  show "r_flags (clear_rabbit_default t) = map (\<lambda>(k, d). (k, False)) (r_flags t) \<and> k_flags (clear_rabbit_default t) = k_flags t"
    by (simp add: k_flags_def r_flags_def clear_rabbit_default_def)
  show "r_flags (mark_rabbit_default i t) = map (\<lambda>(k, d). (k, d \<or> k = i)) (r_flags t) \<and> k_flags (mark_rabbit_default i t) = k_flags t"
    by (auto simp: k_flags_def r_flags_def mark_rabbit_default_def)
  show "insert_rabbit x t = Inr (u, t') \<Longrightarrow>
      ri_id x \<notin> fst ` set (r_flags t) \<and> r_flags t' = r_flags t @ [(ri_id x, ri_default x)] \<and> k_flags t' = k_flags t"
    by (auto simp: insert_rabbit_def k_flags_def r_flags_def list_ex_iff split: if_splits)
  show "r_flags t' = map (\<lambda>(k, d). if k = ri_id x then (k, ri_default x) else (k, d)) (r_flags t) \<and> k_flags t' = k_flags t"
    if a: "save_rabbit x t = Inr (u, t')" and m: "ri_id x \<in> fst ` set (r_flags t)"
  proof -
    have "list_ex (\<lambda>j. ri_id j = ri_id x) (rabbit_instances t)" using m by (auto simp: r_flags_def list_ex_iff)
    with a have "t' = t\<lparr>rabbit_instances := map (\<lambda>j. if ri_id j = ri_id x then x else j) (rabbit_instances t)\<rparr>"
      by (simp add: save_rabbit_def split: if_splits)
    then show ?thesis by (auto simp: k_flags_def r_flags_def)
  qed
  show "delete_rabbit i t = Inr (n, t') \<Longrightarrow> r_flags t' = filter (\<lambda>x. fst x \<noteq> i) (r_flags t) \<and> k_flags t' = k_flags t"
    by (auto simp: delete_rabbit_def k_flags_def r_flags_def filter_map comp_def split: if_splits)
qed

section \<open>The bodies of the registry transactions\<close>

definition both_ok :: "tables \<Rightarrow> bool" where
  "both_ok t \<longleftrightarrow> one_default (k_flags t) \<and> one_default (r_flags t)"

text \<open>Ready for a move of the default: identifiers are distinct, and the other registry is in order.\<close>

definition k_ready :: "tables \<Rightarrow> bool" where
  "k_ready t \<longleftrightarrow> distinct (map fst (k_flags t)) \<and> one_default (r_flags t)"

definition r_ready :: "tables \<Rightarrow> bool" where
  "r_ready t \<longleftrightarrow> distinct (map fst (r_flags t)) \<and> one_default (k_flags t)"

lemma both_ready: "both_ok t \<Longrightarrow> k_ready t" "both_ok t \<Longrightarrow> r_ready t"
  by (simp_all add: both_ok_def k_ready_def r_ready_def one_default_distinct)

lemma kafka_marked:
  assumes "k_ready t" "update_kafka_default i (clear_kafka_default t) = Inr (Some row, t')"
  shows "both_ok t'"
proof -
  have f: "find (\<lambda>j. ki_id j = i) (kafka_instances (mark_kafka_default i (clear_kafka_default t))) = Some row"
    and t': "t' = mark_kafka_default i (clear_kafka_default t)"
    using assms(2) by (auto simp: update_kafka_default_def split: if_splits)
  have "ki_id row = i" "row \<in> set (kafka_instances (mark_kafka_default i (clear_kafka_default t)))"
    using find_Some_iff2 [OF f] by auto
  then have "i \<in> fst ` set (k_flags (mark_kafka_default i (clear_kafka_default t)))" by (force simp: k_flags_def)
  then have "i \<in> fst ` set (k_flags t)"
    using kafka.mark [of i "clear_kafka_default t"] kafka.clear [of t] by (simp add: image_image case_prod_beta)
  with kafka.moved [of t i] assms(1) t' show ?thesis by (simp add: both_ok_def k_ready_def)
qed

lemma tx_k_default_body:
  "tx_rule k_ready (k_default_body i) (\<lambda>_. both_ok)"
  unfolding k_default_body_def
  by (intro tx_rules tx_then [where R = "\<lambda>t. \<exists>s. k_ready s \<and> t = clear_kafka_default s"]
      tx_bind [where R = "\<lambda>r t. \<forall>row. r = Inr (Some row) \<longrightarrow> both_ok t"] tx_write)
    (auto dest: kafka_marked)

lemma tx_k_SetDefault: "tx_rule k_ready (k_dao_SetDefaultInstance i) (\<lambda>_. both_ok)"
  unfolding k_dao_SetDefaultInstance_def by (rule tx_with_tx [OF tx_k_default_body])

lemma tx_k_insert: "tx_rule both_ok (k_insert_body i) (\<lambda>_. both_ok)"
  unfolding k_insert_body_def
proof (rule tx_bind [where R = "\<lambda>b t. both_ok t \<and> b = (k_flags t = [])"])
  show "tx_rule both_ok (sql_read (\<lambda>t. length (kafka_instances t) = 0)) (\<lambda>b t. both_ok t \<and> b = (k_flags t = []))"
    by (rule tx_read) (simp add: k_flags_def)
  fix b
  show "tx_rule (\<lambda>t. both_ok t \<and> b = (k_flags t = [])) (then_io (map_err_io unique_as_bad_request (sql_write (insert_kafka i)))
      (if ki_default i \<or> b then k_dao_SetDefaultInstance i else ret_io i)) (\<lambda>_. both_ok)"
  proof (rule tx_then [where R = "\<lambda>t. k_ready t \<and> (\<not> (ki_default i \<or> b) \<longrightarrow> both_ok t)"])
    show "tx_rule (\<lambda>t. both_ok t \<and> b = (k_flags t = [])) (map_err_io unique_as_bad_request (sql_write (insert_kafka i)))
       (\<lambda>_ t. k_ready t \<and> (\<not> (ki_default i \<or> b) \<longrightarrow> both_ok t))"
      by (intro tx_rules tx_write) (auto simp: unique_as_bad_request_def both_ok_def k_ready_def dest: kafka.added split: if_splits)
    show "tx_rule (\<lambda>t. k_ready t \<and> (\<not> (ki_default i \<or> b) \<longrightarrow> both_ok t))
       (if ki_default i \<or> b then k_dao_SetDefaultInstance i else ret_io i) (\<lambda>_. both_ok)"
      by (intro tx_rules tx_weaken [OF tx_k_SetDefault]) auto
  qed
qed

text \<open>A lookup inside a transaction returns a row of the table, or none.\<close>

lemma wrapped_not_eof [simp]: "wrapped e \<noteq> UnexpectedEOF"
  by (cases e) simp_all

lemma tx_lookup:
  assumes f: "\<And>t i. P t \<Longrightarrow> q t = Some i \<Longrightarrow> Q i t"
  shows "tx_rule P (bind_io (attempt_io (using_db z (sql_first q))) (\<lambda>res. case res of
       Inl e \<Rightarrow> if is_record_not_found e then ret_io None else raise_io (wrapped e)
     | Inr i \<Rightarrow> ret_io (Some i))) (\<lambda>r t. \<forall>i. r = Some i \<longrightarrow> Q i t)"
proof (rule tx_bind [where R = "\<lambda>r t. \<forall>i. r = Inr i \<longrightarrow> Q i t"])
  show "tx_rule P (attempt_io (using_db z (sql_first q))) (\<lambda>r t. \<forall>i. r = Inr i \<longrightarrow> Q i t)"
    by (rule tx_attempt, rule tx_using_db, rule tx_first) (use f in simp_all)
  show "tx_rule (\<lambda>t. \<forall>i. res = Inr i \<longrightarrow> Q i t) (case res of
       Inl e \<Rightarrow> if is_record_not_found e then ret_io None else raise_io (wrapped e)
     | Inr i \<Rightarrow> ret_io (Some i)) (\<lambda>r t. \<forall>i. r = Some i \<longrightarrow> Q i t)" for res
    by (cases res) (simp_all add: tx_ret tx_raise)
qed

lemma tx_k_GetById:
  "tx_rule P (k_dao_GetInstanceById iid) (\<lambda>r t. \<forall>i. r = Some i \<longrightarrow> P t \<and> (iid, ki_default i) \<in> set (k_flags t) \<and> ki_id i = iid)"
  unfolding k_dao_GetInstanceById_def
  by (rule tx_lookup) (auto simp: k_flags_def dest!: find_Some_iff2)

lemma tx_k_update: "tx_rule both_ok (k_update_body i) (\<lambda>_. both_ok)"
  unfolding k_update_body_def
proof (rule tx_bind [OF tx_k_GetById], rule tx_option, goal_cases)
  case 1
  show ?case by (rule tx_raise) simp
next
  case (2 found old)
  let ?P = "\<lambda>t. both_ok t \<and> (ki_id i, ki_default old) \<in> set (k_flags t)"
  have "tx_rule ?P (then_io (wrap_io (sql_write (save_kafka i)))
         (if ki_default i then wrap_io (k_dao_SetDefaultInstance i) else ret_io i)) (\<lambda>_. both_ok)"
    if n: "\<not> (ki_default old \<and> \<not> ki_default i)"
  proof (rule tx_then [where R = "\<lambda>t. k_ready t \<and> (\<not> ki_default i \<longrightarrow> both_ok t)"])
    have "k_ready t' \<and> (\<not> ki_default i \<longrightarrow> both_ok t')"
      if "both_ok t" "(ki_id i, ki_default old) \<in> set (k_flags t)" "save_kafka i t = Inr (u, t')" for t t' u
      using kafka.saved [OF _ that(3,2)] that(1) n by (auto simp: both_ok_def k_ready_def one_default_distinct)
    then show "tx_rule ?P (wrap_io (sql_write (save_kafka i))) (\<lambda>_ t. k_ready t \<and> (\<not> ki_default i \<longrightarrow> both_ok t))"
      by (intro tx_rules tx_write) blast
    show "tx_rule (\<lambda>t. k_ready t \<and> (\<not> ki_default i \<longrightarrow> both_ok t))
       (if ki_default i then wrap_io (k_dao_SetDefaultInstance i) else ret_io i) (\<lambda>_. both_ok)"
      by (intro tx_rules tx_weaken [OF tx_k_SetDefault]) auto
  qed
  then show ?case using 2
    by (intro tx_if tx_raise) (auto elim!: tx_weaken)
qed

lemma not_eof_map [simp]:
  "(if IsForeignKeyIntegrityViolation e then BadRequest else wrapped e) \<noteq> UnexpectedEOF"
  "unique_as_bad_request e = UnexpectedEOF \<longleftrightarrow> e = UnexpectedEOF"
  by (simp_all add: unique_as_bad_request_def IsUniqIntegrityViolation_def)

lemma tx_k_remove: "tx_rule both_ok (k_remove_body iid) (\<lambda>_. both_ok)"
  unfolding k_remove_body_def
proof (rule tx_bind [OF tx_wrap [OF tx_k_GetById]], rule tx_option, goal_cases)
  case 1
  show ?case by (rule tx_raise) simp
next
  case (2 found i)
  let ?P = "\<lambda>t. both_ok t \<and> (ki_id i, ki_default i) \<in> set (k_flags t)"
  have "tx_rule ?P (bind_io (wrap_io k_dao_GetKafkaInstanceRegistrations) (\<lambda>registrations.
             if ki_default i \<and> length registrations > 1 then raise_io BadRequest
             else bind_io (map_err_io (\<lambda>e. if IsForeignKeyIntegrityViolation e then BadRequest else wrapped e)
                             (sql_write (delete_kafka (ki_id i))))
                    (\<lambda>affected. if affected \<noteq> 1 then raise_io Generic else ret_io i))) (\<lambda>_. both_ok)"
  proof (rule tx_bind [where R = "\<lambda>rs t. ?P t \<and> length rs = length (k_flags t)"])
    show "tx_rule ?P (wrap_io k_dao_GetKafkaInstanceRegistrations) (\<lambda>rs t. ?P t \<and> length rs = length (k_flags t))"
      unfolding k_dao_GetKafkaInstanceRegistrations_def by (intro tx_wrap tx_using_db tx_read) (simp add: k_flags_def)
    fix rs :: "kafka_instance list"
    have del: "both_ok t'" if "?P t \<and> length rs = length (k_flags t)" "\<not> (ki_default i \<and> length rs > 1)"
        "delete_kafka (ki_id i) t = Inr (n, t')" for t t' n
      using that kafka.removed [of t "ki_id i" n t' "ki_default i"] by (auto simp: both_ok_def)
    show "tx_rule (\<lambda>t. ?P t \<and> length rs = length (k_flags t)) (if ki_default i \<and> length rs > 1 then raise_io BadRequest
             else bind_io (map_err_io (\<lambda>e. if IsForeignKeyIntegrityViolation e then BadRequest else wrapped e)
                             (sql_write (delete_kafka (ki_id i))))
                    (\<lambda>affected. if affected \<noteq> 1 then raise_io Generic else ret_io i)) (\<lambda>_. both_ok)"
      by (intro tx_if tx_raise tx_bind [where R = "\<lambda>_. both_ok"] tx_map_err tx_write tx_ret) (erule (2) del | simp)+
  qed
  then show ?case by (rule tx_weaken) (use 2 in auto)
qed

lemma rabbit_marked:
  assumes "r_ready t" "update_rabbit_default i (clear_rabbit_default t) = Inr (n, t')" "n = 1"
  shows "both_ok t'"
proof -
  have n: "[j \<leftarrow> rabbit_instances (clear_rabbit_default t). ri_id j = i] \<noteq> []"
    and t': "t' = mark_rabbit_default i (clear_rabbit_default t)"
    using assms(2,3) by (auto simp: update_rabbit_default_def split: if_splits)
  then have "i \<in> fst ` set (r_flags (clear_rabbit_default t))" by (auto simp: r_flags_def filter_empty_conv image_iff)
  then have "i \<in> fst ` set (r_flags t)" using rabbit.clear [of t] by (simp add: image_image case_prod_beta)
  with rabbit.moved [of t i] assms(1) t' show ?thesis by (simp add: both_ok_def r_ready_def)
qed

lemma tx_r_default_body: "tx_rule r_ready (r_default_body i) (\<lambda>j t. both_ok t \<and> j = i\<lparr>ri_default := True\<rparr> \<and> (ri_id i, True) \<in> set (r_flags t))"
proof -
  have hit: "(ri_id i, True) \<in> set (r_flags t')" if "update_rabbit_default (ri_id i) t = Inr (1, t')" for t t'
  proof -
    have "[j \<leftarrow> rabbit_instances t. ri_id j = ri_id i] \<noteq> []" and t': "t' = mark_rabbit_default (ri_id i) t"
      using that by (auto simp: update_rabbit_default_def split: if_splits)
    then obtain x where "x \<in> set (rabbit_instances t)" "ri_id x = ri_id i" by (auto simp: filter_empty_conv)
    then have "(ri_id i, ri_default x) \<in> set (r_flags t)" by (auto simp: r_flags_def intro!: image_eqI [of _ _ x])
    then show ?thesis using rabbit.mark [of "ri_id i" t] t' by force
  qed
  show ?thesis unfolding r_default_body_def
  proof (rule tx_then [where R = "\<lambda>t. \<exists>s. r_ready s \<and> t = clear_rabbit_default s"])
    show "tx_rule r_ready (wrap_io (sql_write (\<lambda>t. Inr ((), clear_rabbit_default t)))) (\<lambda>_ t. \<exists>s. r_ready s \<and> t = clear_rabbit_default s)"
      by (intro tx_wrap tx_write) auto
    have "both_ok t' \<and> (ri_id i, True) \<in> set (r_flags t')"
      if "\<exists>s. r_ready s \<and> t = clear_rabbit_default s" "update_rabbit_default (ri_id i) t = Inr (1, t')" for t t'
      using that rabbit_marked hit by blast
    then show "tx_rule (\<lambda>t. \<exists>s. r_ready s \<and> t = clear_rabbit_default s)
        (bind_io (attempt_io (sql_write (update_rabbit_default (ri_id i)))) (\<lambda>ret.
          case ret of Inl e \<Rightarrow> raise_io Generic
          | Inr affected \<Rightarrow> if affected \<noteq> 1 then raise_io Generic else ret_io (i\<lparr>ri_default := True\<rparr>)))
        (\<lambda>j t. both_ok t \<and> j = i\<lparr>ri_default := True\<rparr> \<and> (ri_id i, True) \<in> set (r_flags t))"
      by (intro tx_bind [where R = "\<lambda>r t. r = Inr 1 \<longrightarrow> both_ok t \<and> (ri_id i, True) \<in> set (r_flags t)"] tx_attempt tx_write tx_sum tx_if tx_raise tx_ret)
        auto
  qed
qed

lemma tx_r_SetDefault: "tx_rule r_ready (r_dao_SetDefaultInstance i) (\<lambda>j t. both_ok t \<and> j = i\<lparr>ri_default := True\<rparr> \<and> (ri_id i, True) \<in> set (r_flags t))"
  unfolding r_dao_SetDefaultInstance_def by (rule tx_with_tx [OF tx_r_default_body])

lemma tx_r_insert: "tx_rule both_ok (r_insert_body i) (\<lambda>_. both_ok)"
  unfolding r_insert_body_def
proof (rule tx_bind [where R = "\<lambda>b t. both_ok t \<and> b = (r_flags t = [])"])
  show "tx_rule both_ok (sql_read (\<lambda>t. length (rabbit_instances t) = 0)) (\<lambda>b t. both_ok t \<and> b = (r_flags t = []))"
    by (rule tx_read) (simp add: r_flags_def)
  fix b
  show "tx_rule (\<lambda>t. both_ok t \<and> b = (r_flags t = [])) (then_io (map_err_io unique_as_bad_request (sql_write (insert_rabbit i)))
      (if ri_default i \<or> b then r_dao_SetDefaultInstance i else ret_io i)) (\<lambda>_. both_ok)"
  proof (rule tx_then [where R = "\<lambda>t. r_ready t \<and> (\<not> (ri_default i \<or> b) \<longrightarrow> both_ok t)"])
    show "tx_rule (\<lambda>t. both_ok t \<and> b = (r_flags t = [])) (map_err_io unique_as_bad_request (sql_write (insert_rabbit i)))
       (\<lambda>_ t. r_ready t \<and> (\<not> (ri_default i \<or> b) \<longrightarrow> both_ok t))"
      by (intro tx_rules tx_write) (auto simp: unique_as_bad_request_def both_ok_def r_ready_def dest: rabbit.added split: if_splits)
    show "tx_rule (\<lambda>t. r_ready t \<and> (\<not> (ri_default i \<or> b) \<longrightarrow> both_ok t))
       (if ri_default i \<or> b then r_dao_SetDefaultInstance i else ret_io i) (\<lambda>_. both_ok)"
      by (intro tx_rules tx_weaken [OF tx_r_SetDefault]) auto
  qed
qed

lemma tx_r_GetById:
  "tx_rule P (r_dao_GetInstanceById iid) (\<lambda>r t. \<forall>i. r = Some i \<longrightarrow> P t \<and> (iid, ri_default i) \<in> set (r_flags t) \<and> ri_id i = iid)"
  unfolding r_dao_GetInstanceById_def
  by (rule tx_lookup) (auto simp: r_flags_def dest!: find_Some_iff2)

lemma tx_r_save:
  "tx_rule (\<lambda>t. both_ok t \<and> (ri_id j, ri_default j) \<in> set (r_flags t))
     (then_io (wrap_io (sql_write (save_rabbit j))) (ret_io j)) (\<lambda>_. both_ok)"
proof -
  have "both_ok t'" if "both_ok t \<and> (ri_id j, ri_default j) \<in> set (r_flags t)" "save_rabbit j t = Inr (u, t')" for t t' u
    using rabbit.saved [OF _ that(2)] that(1) by (auto simp: both_ok_def)
  then show ?thesis by (intro tx_then [where R = both_ok] tx_rules tx_write) blast+
qed

lemma tx_r_update: "tx_rule both_ok (r_update_body i) (\<lambda>_. both_ok)"
  unfolding r_update_body_def
proof (rule tx_bind [OF tx_r_GetById], rule tx_option, goal_cases)
  case 1
  show ?case by (rule tx_raise) simp
next
  case (2 found old)
  let ?P = "\<lambda>t. both_ok t \<and> (ri_id i, ri_default old) \<in> set (r_flags t)"
  have "tx_rule ?P (bind_io (if ri_default i then r_dao_SetDefaultInstance i else ret_io i) (\<lambda>j.
                  then_io (wrap_io (sql_write (save_rabbit j))) (ret_io j))) (\<lambda>_. both_ok)"
    if n: "\<not> (ri_default old \<and> \<not> ri_default i)"
  proof (rule tx_bind [where R = "\<lambda>j t. both_ok t \<and> (ri_id j, ri_default j) \<in> set (r_flags t)"])
    show "tx_rule ?P (if ri_default i then r_dao_SetDefaultInstance i else ret_io i)
       (\<lambda>j t. both_ok t \<and> (ri_id j, ri_default j) \<in> set (r_flags t))"
      by (intro tx_if tx_weaken [OF tx_r_SetDefault] tx_ret) (use n both_ready in auto)
  qed (rule tx_r_save)
  then show ?case using 2
    by (intro tx_if tx_raise) (auto elim!: tx_weaken)
qed

lemma tx_r_remove: "tx_rule both_ok (r_remove_body iid) (\<lambda>_. both_ok)"
  unfolding r_remove_body_def
proof (rule tx_bind [where R = "\<lambda>r t. \<forall>i. r = Inr (Some i) \<longrightarrow> both_ok t \<and> (iid, ri_default i) \<in> set (r_flags t) \<and> ri_id i = iid"])
  show "tx_rule both_ok (attempt_io (r_dao_GetInstanceById iid))
     (\<lambda>r t. \<forall>i. r = Inr (Some i) \<longrightarrow> both_ok t \<and> (iid, ri_default i) \<in> set (r_flags t) \<and> ri_id i = iid)"
    by (rule tx_attempt, rule tx_weaken [OF tx_r_GetById]) auto
  fix res :: "rabbit_instance option outcome"
  have main: "tx_rule (\<lambda>t. both_ok t \<and> (ri_id i, ri_default i) \<in> set (r_flags t))
     (bind_io (wrap_io r_dao_GetRabbitInstanceRegistrations) (\<lambda>registrations.
             if ri_default i \<and> length registrations > 1 then raise_io BadRequest
             else bind_io (map_err_io (\<lambda>e. if IsForeignKeyIntegrityViolation e then BadRequest else wrapped e)
                             (sql_write (delete_rabbit (ri_id i))))
                    (\<lambda>affected. if affected \<noteq> 1 then raise_io Generic else ret_io i))) (\<lambda>_. both_ok)" (is "tx_rule ?P _ _") for i
  proof (rule tx_bind [where R = "\<lambda>rs t. ?P t \<and> length rs = length (r_flags t)"])
    show "tx_rule ?P (wrap_io r_dao_GetRabbitInstanceRegistrations) (\<lambda>rs t. ?P t \<and> length rs = length (r_flags t))"
      unfolding r_dao_GetRabbitInstanceRegistrations_def by (intro tx_wrap tx_using_db tx_read) (simp add: r_flags_def)
    fix rs :: "rabbit_instance list"
    have del: "both_ok t'" if "?P t \<and> length rs = length (r_flags t)" "\<not> (ri_default i \<and> length rs > 1)"
        "delete_rabbit (ri_id i) t = Inr (n, t')" for t t' n
      using that rabbit.removed [of t "ri_id i" n t' "ri_default i"] by (auto simp: both_ok_def)
    show "tx_rule (\<lambda>t. ?P t \<and> length rs = length (r_flags t)) (if ri_default i \<and> length rs > 1 then raise_io BadRequest
             else bind_io (map_err_io (\<lambda>e. if IsForeignKeyIntegrityViolation e then BadRequest else wrapped e)
                             (sql_write (delete_rabbit (ri_id i))))
                    (\<lambda>affected. if affected \<noteq> 1 then raise_io Generic else ret_io i)) (\<lambda>_. both_ok)"
      by (intro tx_if tx_raise tx_bind [where R = "\<lambda>_. both_ok"] tx_map_err tx_write tx_ret) (erule (2) del | simp)+
  qed
  show "tx_rule (\<lambda>t. \<forall>i. res = Inr (Some i) \<longrightarrow> both_ok t \<and> (iid, ri_default i) \<in> set (r_flags t) \<and> ri_id i = iid)
     (case res of Inl e \<Rightarrow> raise_io GoPanic | Inr None \<Rightarrow> raise_io GoPanic
       | Inr (Some i) \<Rightarrow> bind_io (wrap_io r_dao_GetRabbitInstanceRegistrations) (\<lambda>registrations.
             if ri_default i \<and> length registrations > 1 then raise_io BadRequest
             else bind_io (map_err_io (\<lambda>e. if IsForeignKeyIntegrityViolation e then BadRequest else wrapped e)
                             (sql_write (delete_rabbit (ri_id i))))
                    (\<lambda>affected. if affected \<noteq> 1 then raise_io Generic else ret_io i))) (\<lambda>_. both_ok)"
    by (intro tx_sum tx_option tx_raise tx_weaken [OF main]) auto
qed

section \<open>Runs of the registries\<close>

definition registries_ok :: "'k world \<Rightarrow> bool" where
  "registries_ok w \<longleftrightarrow> txc w = None \<and> both_ok (tabs w)"

lemma keeps_registry_tx [keeps_intros]:
  assumes f: "tx_rule both_ok f (\<lambda>_. both_ok)"
  shows "keeps registries_ok (with_tx z f)" "keeps registries_ok (with_tx_ctx (with_tx z f))"
proof -
  have 1: "registries_ok w'" if "registries_ok w" "with_tx z f w = (r, w')" for w w' r
    using with_tx_sound [OF f _ that(2)] that(1) by (auto simp: registries_ok_def)
  show "keeps registries_ok (with_tx z f)" by (rule keepsI) (rule 1)
  show "keeps registries_ok (with_tx_ctx (with_tx z f))"
    by (rule keepsI) (metis 1 with_tx_ctx_with_tx registries_ok_def)
qed

lemma keeps_registry:
  "keeps registries_ok (k_dao_InsertInstanceRegistration i)" "keeps registries_ok (k_dao_UpdateInstanceRegistration i)"
  "keeps registries_ok (k_dao_RemoveInstanceRegistration n)"
  "keeps registries_ok (r_dao_InsertInstanceRegistration j)" "keeps registries_ok (r_dao_UpdateInstanceRegistration j)"
  "keeps registries_ok (r_dao_RemoveInstanceRegistration n)"
  unfolding k_dao_InsertInstanceRegistration_def k_dao_UpdateInstanceRegistration_def k_dao_RemoveInstanceRegistration_def
    r_dao_InsertInstanceRegistration_def r_dao_UpdateInstanceRegistration_def r_dao_RemoveInstanceRegistration_def
  by (intro keeps_wrap keeps_registry_tx tx_k_insert tx_k_update tx_k_remove tx_r_insert tx_r_update tx_r_remove)+

lemma keeps_set_default:
  "keeps registries_ok (k_dao_SetDefaultInstance i)" "keeps registries_ok (r_dao_SetDefaultInstance j)"
  unfolding k_dao_SetDefaultInstance_def r_dao_SetDefaultInstance_def
  by (intro keeps_registry_tx tx_weaken [OF tx_k_default_body] tx_weaken [OF tx_r_default_body]; simp add: both_ready)+

text \<open>Listeners refresh connections to the brokers; they leave the database alone.\<close>

definition quiet :: "('k, 'i) listeners \<Rightarrow> bool" where
  "quiet bc \<longleftrightarrow> (\<forall>(n, cb) \<in> set (bc_listeners bc). \<forall>d w. tabs (snd (cb d w)) = tabs w \<and> txc (snd (cb d w)) = txc w)"

lemma keeps_listeners: "quiet bc \<Longrightarrow> keeps registries_ok (ExecuteListeners bc d)"
  by (rule keeps_ExecuteListeners) (fastforce simp: quiet_def keeps_def registries_ok_def)

lemma keeps_registry_services:
  assumes "quiet kb" "quiet rb"
  shows "keeps registries_ok (k_Register kb kh uuid i)" "keeps registries_ok (k_Update kb kh i)"
    "keeps registries_ok (k_SetDefault kb i)" "keeps registries_ok (k_Unregister kb n)"
    "keeps registries_ok (r_Register rb rh uuid j)" "keeps registries_ok (r_Update rb rh j)"
    "keeps registries_ok (r_SetDefault rb j)" "keeps registries_ok (r_Unregister rb n)"
proof -
  note k = keeps_listeners [OF assms(1)] and r = keeps_listeners [OF assms(2)]
  show "keeps registries_ok (k_Register kb kh uuid i)" "keeps registries_ok (k_Update kb kh i)"
    "keeps registries_ok (k_SetDefault kb i)" "keeps registries_ok (k_Unregister kb n)"
    "keeps registries_ok (r_Register rb rh uuid j)" "keeps registries_ok (r_Update rb rh j)"
    "keeps registries_ok (r_SetDefault rb j)" "keeps registries_ok (r_Unregister rb n)"
    unfolding k_Register_def k_Update_def k_SetDefault_def k_Unregister_def k_performOperation_def
      r_Register_def r_Update_def r_SetDefault_def r_Unregister_def r_performOperation_def
    by (intro keeps_intros keeps_registry keeps_set_default k r)+
qed

inductive registry_reachable :: "'k world \<Rightarrow> bool" where
  reg_start: "registry_reachable (mk_world empty_tables k)"
| reg_kafka: "registry_reachable w \<Longrightarrow> quiet kb \<Longrightarrow>
    op \<in> {k_Register kb kh uuid i, k_Update kb kh i, k_SetDefault kb i, k_Unregister kb n} \<Longrightarrow>
    op w = (ki, w') \<Longrightarrow> registry_reachable w'"
| reg_rabbit: "registry_reachable w \<Longrightarrow> quiet rb \<Longrightarrow>
    op \<in> {r_Register rb rh uuid j, r_Update rb rh j, r_SetDefault rb j, r_Unregister rb n} \<Longrightarrow>
    op w = (ri, w') \<Longrightarrow> registry_reachable w'"
| reg_env: "registry_reachable w \<Longrightarrow>
    registry_reachable (w\<lparr>faults := fs, master_alive := a, cache := ca, dr_mode := dm, broker := k\<rparr>)"

lemma registry_reachable_ok: "registry_reachable w \<Longrightarrow> registries_ok w"
proof (induction rule: registry_reachable.induct)
  case (reg_start k)
  show ?case by (simp add: registries_ok_def both_ok_def one_default_def k_flags_def r_flags_def empty_tables_def)
next
  case (reg_kafka w kb op kh uuid i n ki w')
  have "keeps registries_ok op" using reg_kafka.hyps(3) keeps_registry_services(1-4) [OF reg_kafka.hyps(2), of broadcast_new]
    by (auto simp: quiet_def broadcast_new_def)
  from keepsD [OF this reg_kafka.hyps(4) reg_kafka.IH] show ?case .
next
  case (reg_rabbit w rb op rh uuid j n ri w')
  have "keeps registries_ok op" using reg_rabbit.hyps(3) keeps_registry_services(5-8) [OF _ reg_rabbit.hyps(2), of broadcast_new]
    by (auto simp: quiet_def broadcast_new_def)
  from keepsD [OF this reg_rabbit.hyps(4) reg_rabbit.IH] show ?case .
next
  case (reg_env w fs a ca dm k)
  then show ?case by (simp add: registries_ok_def)
qed

text \<open>
  C11 In every state the registries can reach, whatever statements fail, whichever database
  answers and in whatever order instances are registered, updated, made default and removed:
  identifiers are unique, and each registry that is not empty has exactly one default instance.
\<close>

theorem exactly_one_default:
  assumes "registry_reachable w"
  shows "distinct (map ki_id (kafka_instances (tabs w))) \<and> distinct (map ri_id (rabbit_instances (tabs w))) \<and>
    (kafka_instances (tabs w) \<noteq> [] \<longrightarrow> length [i \<leftarrow> kafka_instances (tabs w). ki_default i] = 1) \<and>
    (rabbit_instances (tabs w) \<noteq> [] \<longrightarrow> length [i \<leftarrow> rabbit_instances (tabs w). ri_default i] = 1)"
  using registry_reachable_ok [OF assms]
  by (auto simp: registries_ok_def both_ok_def one_default_def k_flags_def r_flags_def comp_def filter_map)

section \<open>Functional behaviour\<close>

lemma domain_origin_run [run_simps]:
  assumes "serves w"
  shows "domain_origin ns w = (Inr (case first_by d_id [r \<leftarrow> bg_domains (tabs w). domain_has ns r] of
     None \<Rightarrow> ns | Some d \<Rightarrow> d_origin d), w)"
  using assms
  by (simp add: domain_origin_def FindByNamespace_def FindByNamespace_run bind_io_run attempt_io_run toValue_def split: option.split)

text \<open>
  On a healthy database a designator chooses the instance of its first selector whose name,
  namespace and tenant patterns all match, where the namespace of the classifier counts as the
  origin of its blue/green domain; and no instance when none matches.
\<close>

theorem designator_first_match:
  fixes d :: "'i designator"
  assumes "healthy w"
  shows "MatchDesignator cl d w =
    (let ns = (case first_by d_id [r \<leftarrow> bg_domains (tabs w). domain_has (c_namespace cl) r] of
                 None \<Rightarrow> c_namespace cl | Some dd \<Rightarrow> d_origin dd)
     in case find (\<lambda>s. selector_matches cl ns (se_match s)) (de_selectors d) of
          None \<Rightarrow> (Inr (None, False), w)
        | Some s \<Rightarrow> (Inr (se_instance s, True), w))"
proof -
  let ?ns = "case first_by d_id [r \<leftarrow> bg_domains (tabs w). domain_has (c_namespace cl) r] of
                 None \<Rightarrow> c_namespace cl | Some dd \<Rightarrow> d_origin dd"
  have s: "serves w" using assms by simp
  have "match_selectors domain_origin cl sels w = (Inr (find (\<lambda>s. selector_matches cl ?ns (se_match s)) sels), w)" for sels :: "'i selector list"
    by (induction sels) (simp_all add: bind_io_run domain_origin_run [OF s])
  then show ?thesis by (simp add: MatchDesignator_def Let_def split: option.split)
qed

definition pair_world :: "unit world" where
  "pair_world = mk_world (empty_tables\<lparr>bg_domains := [\<lparr>d_id = 1, d_controller = None, d_origin = ''org'', d_peer = ''peer''\<rparr>]\<rparr>) ()"

definition two_selectors :: "string designator" where
  "two_selectors = \<lparr>de_namespace = ''org'', de_default_id = None, de_selectors =
     [\<lparr>se_match = \<lparr>cm_name = ''orders'', cm_namespace = [], cm_tenant = [], cm_instance = []\<rparr>, se_instance_id = ''a'', se_instance = Some ''A''\<rparr>,
      \<lparr>se_match = \<lparr>cm_name = ''*'', cm_namespace = ''org'', cm_tenant = [], cm_instance = []\<rparr>, se_instance_id = ''b'', se_instance = Some ''B''\<rparr>], de_default = None\<rparr>"

theorem designator_first_match_witness:
  "fst (MatchDesignator \<lparr>c_name = ''bills'', c_namespace = ''peer'', c_tenant = []\<rparr> two_selectors pair_world) = Inr (Some ''B'', True)"
proof -
  let ?cl = "\<lparr>c_name = ''bills'', c_namespace = ''peer'', c_tenant = []\<rparr>"
  have "healthy pair_world" by (simp add: pair_world_def)
  moreover have "first_by d_id [r \<leftarrow> bg_domains (tabs pair_world). domain_has (c_namespace ?cl) r] =
      Some \<lparr>d_id = 1, d_controller = None, d_origin = ''org'', d_peer = ''peer''\<rparr>" by code_simp
  moreover have "map_option se_instance (find (\<lambda>s. selector_matches ?cl ''org'' (se_match s)) (de_selectors two_selectors)) = Some (Some ''B'')"
    by code_simp
  ultimately show ?thesis by (auto simp: designator_first_match)
qed

lemma live_k_default_body:
  assumes l: "live v" and i: "find (\<lambda>j. ki_id j = ki_id i) (kafka_instances (tabs v)) = Some row" "ki_id i \<noteq> []"
  shows "k_default_body i v = (Inr (row\<lparr>ki_default := True\<rparr>),
     v\<lparr>tabs := mark_kafka_default (ki_id i) (clear_kafka_default (tabs v))\<rparr>)"
proof -
  let ?t1 = "clear_kafka_default (tabs v)" and ?t2 = "mark_kafka_default (ki_id i) (clear_kafka_default (tabs v))"
  have f: "find (\<lambda>j. ki_id j = k) (map g xs) = map_option g (find (\<lambda>j. ki_id j = k) xs)"
    if "\<And>j. ki_id (g j) = ki_id j" for g xs k by (induction xs) (simp_all add: that)
  have "find (\<lambda>j. ki_id j = ki_id i) (kafka_instances ?t2) = Some (row\<lparr>ki_default := True\<rparr>)"
    using i(1) find_Some_iff2 [OF i(1)] by (simp add: mark_kafka_default_def clear_kafka_default_def f)
  then have u: "update_kafka_default (ki_id i) ?t1 = Inr (Some (row\<lparr>ki_default := True\<rparr>), ?t2)"
    using i(2) by (simp add: update_kafka_default_def)
  have 1: "sql_write (\<lambda>t. Inr ((), clear_kafka_default t)) v = (Inr (), v\<lparr>tabs := ?t1\<rparr>)"
    using l by (intro sql_write_live) simp_all
  have 2: "sql_write (update_kafka_default (ki_id i)) (v\<lparr>tabs := ?t1\<rparr>) = (Inr (Some (row\<lparr>ki_default := True\<rparr>)), v\<lparr>tabs := ?t2\<rparr>)"
    using l u sql_write_live [of "v\<lparr>tabs := ?t1\<rparr>" "update_kafka_default (ki_id i)" _ ?t2] by simp
  show ?thesis by (simp add: k_default_body_def 1 2)
qed

text \<open>
  Making a registered Kafka instance the default returns its row, and from then on it is the
  default the registry answers with, and the only one.
\<close>

theorem set_default_moves:
  assumes h: "healthy w" and i: "find (\<lambda>j. ki_id j = ki_id i) (kafka_instances (tabs w)) = Some row" "ki_id i \<noteq> []"
    and u: "distinct (map ki_id (kafka_instances (tabs w)))"
  shows "\<exists>w'. k_dao_SetDefaultInstance i w = (Inr (row\<lparr>ki_default := True\<rparr>), w') \<and>
    k_GetDefault w' = (Inr (Some (row\<lparr>ki_default := True\<rparr>)), w') \<and>
    map ki_id (kafka_instances (tabs w')) = map ki_id (kafka_instances (tabs w)) \<and>
    (\<forall>j \<in> set (kafka_instances (tabs w')). ki_default j \<longleftrightarrow> ki_id j = ki_id i)"
proof (intro exI conjI)
  let ?t = "mark_kafka_default (ki_id i) (clear_kafka_default (tabs w))"
  let ?w = "w\<lparr>tabs := ?t\<rparr>" and ?row = "row\<lparr>ki_default := True\<rparr>"
  have "k_default_body i (enter_tx w) = (Inr ?row, enter_tx w\<lparr>tabs := ?t\<rparr>)"
    using live_k_default_body [of "enter_tx w" i row] h i by simp
  moreover have "deferred_ok (tabs w) ?t" by (simp add: deferred_ok_def mark_kafka_default_def clear_kafka_default_def)
  ultimately have "with_tx i (k_default_body i) w = (Inr ?row, enter_tx w\<lparr>tabs := ?t, txc := None\<rparr>)"
    using h by (intro with_tx_healthy) simp_all
  then show "k_dao_SetDefaultInstance i w = (Inr ?row, ?w)" using h by (simp add: k_dao_SetDefaultInstance_def)
  show ids: "map ki_id (kafka_instances (tabs ?w)) = map ki_id (kafka_instances (tabs w))"
    by (auto simp: mark_kafka_default_def clear_kafka_default_def)
  show only: "\<forall>j \<in> set (kafka_instances (tabs ?w)). ki_default j \<longleftrightarrow> ki_id j = ki_id i"
    by (auto simp: mark_kafka_default_def clear_kafka_default_def)
  have r: "ki_id row = ki_id i" "row \<in> set (kafka_instances (tabs w))" using find_Some_iff2 [OF i(1)] by auto
  have mem: "?row \<in> set (kafka_instances ?t)"
    using r by (auto simp: mark_kafka_default_def clear_kafka_default_def image_image image_iff intro!: bexI [of _ row])
  have d: "distinct (map ki_id (kafka_instances ?t))" using u ids by simp
  have "find ki_default (kafka_instances ?t) = Some ?row"
  proof (rule find_unique [OF mem])
    fix y assume "y \<in> set (kafka_instances ?t)" "ki_default y"
    with only r(1) have e: "ki_id y = ki_id ?row" by simp
    have "inj_on ki_id (set (kafka_instances ?t))" using d by (simp add: distinct_map)
    from inj_onD [OF this e \<open>y \<in> _\<close> mem] show "y = ?row" .
  qed simp
  moreover have "healthy ?w" using h by simp
  ultimately have "with_tx zero_kafka (sql_first (\<lambda>t. find ki_default (kafka_instances t))) ?w = (Inr ?row, enter_tx ?w\<lparr>txc := None\<rparr>)"
    by (intro with_tx_healthy) (simp_all add: sql_first_serves)
  then show "k_GetDefault ?w = (Inr (Some ?row), ?w)"
    using h by (simp add: k_GetDefault_def k_dao_GetDefaultInstance_def defaultInstance_def)
qed

definition kafka_a :: kafka_instance where
  "kafka_a = zero_kafka\<lparr>ki_id := ''a'', ki_addresses := [(''PLAINTEXT'', [''a:9092''])], ki_default := True\<rparr>"
definition kafka_b :: kafka_instance where
  "kafka_b = zero_kafka\<lparr>ki_id := ''b'', ki_addresses := [(''PLAINTEXT'', [''b:9092''])]\<rparr>"
definition rabbit_a :: rabbit_instance where
  "rabbit_a = zero_rabbit\<lparr>ri_id := ''a'', ri_api_url := ''http://a/''\<rparr>"

definition instances_world :: "unit world" where
  "instances_world = snd (r_Register broadcast_new (\<lambda>_. Inr ()) ''u'' rabbit_a
     (snd (k_Register broadcast_new (\<lambda>_. Inr ()) ''u'' kafka_b
       (snd (k_Register broadcast_new (\<lambda>_. Inr ()) ''u'' kafka_a (mk_world empty_tables ()))))))"

lemma quiet_new: "quiet broadcast_new" by (simp add: quiet_def broadcast_new_def)

lemma instances_reachable: "registry_reachable instances_world"
proof -
  have k: "registry_reachable (snd (k_Register broadcast_new kh uuid i w))" if "registry_reachable w" for kh uuid i and w :: "unit world"
    by (rule reg_kafka [OF that quiet_new, where op = "k_Register broadcast_new kh uuid i"]) (auto intro: surjective_pairing)
  have r: "registry_reachable (snd (r_Register broadcast_new kh uuid i w))" if "registry_reachable w" for kh uuid i and w :: "unit world"
    by (rule reg_rabbit [OF that quiet_new, where op = "r_Register broadcast_new kh uuid i"]) (auto intro: surjective_pairing)
  show ?thesis unfolding instances_world_def by (intro k r reg_start)
qed

theorem exactly_one_default_witness:
  "length [i \<leftarrow> kafka_instances (tabs instances_world). ki_default i] = 1 \<and> length (kafka_instances (tabs instances_world)) = 2"
proof -
  have "length (kafka_instances (tabs instances_world)) = 2" by code_simp
  with exactly_one_default [OF instances_reachable] show ?thesis by auto
qed

theorem set_default_moves_witness:
  "\<exists>row w'. k_dao_SetDefaultInstance kafka_b (snd (k_Register broadcast_new (\<lambda>_. Inr ()) ''u'' kafka_b (mk_world empty_tables ()))) = (Inr row, w')"
proof -
  let ?w = "mk_world (empty_tables\<lparr>kafka_instances := [kafka_b\<lparr>ki_default := True, ki_protocol := Plaintext\<rparr>]\<rparr>) ()"
  have w: "snd (k_Register broadcast_new (\<lambda>_. Inr ()) ''u'' kafka_b (mk_world empty_tables ())) = ?w" by code_simp
  have "healthy ?w" by simp
  moreover have "find (\<lambda>j. ki_id j = ki_id kafka_b) (kafka_instances (tabs ?w)) = Some (kafka_b\<lparr>ki_default := True, ki_protocol := Plaintext\<rparr>)"
    by simp
  moreover have "ki_id kafka_b \<noteq> []" by (simp add: kafka_b_def)
  moreover have "distinct (map ki_id (kafka_instances (tabs ?w)))" by simp
  ultimately show ?thesis unfolding w using set_default_moves [of ?w kafka_b] by blast
qed

text \<open>
  Unregistering an instance that does not exist is reported as not found by the Kafka registry,
  and panics in the RabbitMQ registry.
\<close>

theorem unregister_missing:
  "fst (k_Unregister broadcast_new ''none'' instances_world) = Inl NotFound \<and>
   fst (r_Unregister broadcast_new ''none'' instances_world) = Inl GoPanic"
  by code_simp

text \<open>
  Replacing the designator under the name of the peer of a blue/green pair keeps the selectors
  the designator of the origin had before.
\<close>

lemma peer_upsert_keeps_selectors:
  "let d = \<lambda>ns cm. \<lparr>de_namespace = ns, de_default_id = None, de_selectors =
         [\<lparr>se_match = \<lparr>cm_name = cm, cm_namespace = [], cm_tenant = [], cm_instance = []\<rparr>, se_instance_id = ''a'', se_instance = None\<rparr>],
         de_default = None\<rparr>;
       w0 = snd (k_Register broadcast_new (\<lambda>_. Inr ()) ''u'' kafka_a pair_world);
       w1 = snd (UpsertKafkaInstanceDesignator (d ''org'' ''old'') ''org'' w0);
       w2 = snd (UpsertKafkaInstanceDesignator (d ''peer'' ''new'') ''peer'' w1)
   in fst (UpsertKafkaInstanceDesignator (d ''peer'' ''new'') ''peer'' w1) = Inr () \<and>
      map (\<lambda>s. cm_name (sl_match s)) (selectors (tabs w2)) = [''old'', ''new''] \<and>
      map_sum id (map_option (\<lambda>r. map (\<lambda>s. cm_name (se_match s)) (de_selectors r)))
        (fst (GetKafkaInstanceDesignatorByNamespace ''peer'' w2)) = Inr (Some [''old'', ''new''])"
  by code_simp

end
