(* ===== verification/Maas_Composite.thy ===== *)
theory Maas_Composite
  imports Maas_World "HOL-Library.List_Lexorder" "HOL-Library.Char_ord" "HOL-Library.Product_Lexorder"
begin

text \<open>
  Composite registrations (service/composite, tables of dao/schema/24, 27 and 30): groups of
  namespaces under a baseline namespace, replaced as a whole, with an optional modify index that
  rejects stale updates.  Text is ordered by character codes, as in the C collation.
\<close>

record composite_registration =
  g_id :: string
  g_namespaces :: "string list"
  g_modify_index :: "nat option"

section \<open>Statements\<close>

definition composite_rows :: "string \<Rightarrow> tables \<Rightarrow> composite_row list" where
  "composite_rows baseline t = [r \<leftarrow> composites t. cr_base r = baseline]"

text \<open>Deleting a row deletes its property (\<open>on delete cascade\<close>).\<close>

definition delete_composite :: "string \<Rightarrow> tables \<Rightarrow> (unit \<times> tables) outcome" where
  "delete_composite baseline t =
     (let gone = cr_id ` set (composite_rows baseline t)
      in Inr ((), t\<lparr>composites := [r \<leftarrow> composites t. cr_base r \<noteq> baseline],
                   composite_props := [p \<leftarrow> composite_props t. cp_composite p \<notin> gone]\<rparr>))"

text \<open>
  The insert of all members in one statement: a namespace is in one composite only
  (\<open>composite_namespaces_v2_namespace\<close>).
\<close>

definition insert_composite :: "string \<Rightarrow> string list \<Rightarrow> tables \<Rightarrow> (unit \<times> tables) outcome" where
  "insert_composite baseline nss t =
     (if length baseline > 63 \<or> list_ex (\<lambda>n. length n > 63) nss then Inl Generic
      else if \<not> distinct (map cr_namespace (composites t) @ nss) then Inl UniqueViolation
      else Inr ((), t\<lparr>next_id := next_id t + length nss,
             composites := composites t @
               map (\<lambda>(i, n). \<lparr>cr_id = next_id t + i, cr_base = baseline, cr_namespace = n\<rparr>) (enumerate 0 nss)\<rparr>))"

definition current_modify_index :: "string \<Rightarrow> tables \<Rightarrow> nat" where
  "current_modify_index baseline t =
     (let ids = cr_id ` set (composite_rows baseline t);
          found = map cp_modify_index [p \<leftarrow> composite_props t. cp_composite p \<in> ids]
      in if found = [] then 0 else last found)"

definition insert_modify_index :: "string \<Rightarrow> nat \<Rightarrow> tables \<Rightarrow> (unit \<times> tables) outcome" where
  "insert_modify_index baseline i t =
     (let new = map (\<lambda>r. \<lparr>cp_composite = cr_id r, cp_modify_index = i\<rparr>)
                  [r \<leftarrow> composites t. cr_base r = baseline \<and> cr_namespace r = baseline]
      in if \<not> distinct (map cp_composite (composite_props t @ new)) then Inl UniqueViolation
         else Inr ((), t\<lparr>composite_props := composite_props t @ new\<rparr>))"

section \<open>Data access (dao.go)\<close>

definition getCurrentModifyIndex :: "string \<Rightarrow> ('k, nat) dbio" where
  "getCurrentModifyIndex compositeId = wrap_io (sql_read (current_modify_index compositeId))"

definition createCurrentModifyIndex :: "string \<Rightarrow> nat \<Rightarrow> ('k, unit) dbio" where
  "createCurrentModifyIndex compositeId i = wrap_io (sql_write (insert_modify_index compositeId i))"

definition DeleteByBaseline :: "string \<Rightarrow> ('k, unit) dbio" where
  "DeleteByBaseline baseline = wrap_io (with_tx () (sql_write (delete_composite baseline)))"

text \<open>gorm refuses to create an empty slice before it reaches the database.\<close>

definition upsert_body :: "composite_registration \<Rightarrow> ('k, unit) dbio" where
  "upsert_body reg =
     then_io
       (case g_modify_index reg of
          None \<Rightarrow> ret_io ()
        | Some i \<Rightarrow> bind_io (getCurrentModifyIndex (g_id reg))
                      (\<lambda>current. if i < current then raise_io BadRequest else ret_io ()))
    (then_io (wrap_io (DeleteByBaseline (g_id reg)))
    (then_io
       (if g_namespaces reg = [] then raise_io Generic
        else wrap_io (sql_write (insert_composite (g_id reg) (g_namespaces reg))))
       (case g_modify_index reg of
          None \<Rightarrow> ret_io ()
        | Some i \<Rightarrow> createCurrentModifyIndex (g_id reg) i)))"

definition Upsert :: "composite_registration \<Rightarrow> ('k, unit) dbio" where
  "Upsert reg = with_lock (g_id reg) (with_tx () (upsert_body reg))"

definition reformat :: "composite_row list \<Rightarrow> composite_registration" where
  "reformat rows = \<lparr>g_id = cr_base (hd rows), g_namespaces = map cr_namespace rows, g_modify_index = None\<rparr>"

definition GetByBaseline :: "string \<Rightarrow> ('k, composite_registration option) dbio" where
  "GetByBaseline baseline =
     bind_io (wrap_io (using_db [] (sql_read (\<lambda>t. sort_key cr_namespace (composite_rows baseline t)))))
       (\<lambda>rows. ret_io (if rows = [] then None else Some (reformat rows)))"

definition rows_by_namespace :: "string \<Rightarrow> tables \<Rightarrow> composite_row list" where
  "rows_by_namespace ns t =
     (case find (\<lambda>r. cr_namespace r = ns) (composites t) of
        None \<Rightarrow> []
      | Some r \<Rightarrow> sort_key cr_namespace (composite_rows (cr_base r) t))"

definition GetByNamespace :: "string \<Rightarrow> ('k, composite_registration option) dbio" where
  "GetByNamespace ns =
     bind_io (wrap_io (using_db [] (sql_read (rows_by_namespace ns))))
       (\<lambda>rows. ret_io (if rows = [] then None else Some (reformat rows)))"

text \<open>The loop of \<open>List\<close> appends to the last registration or starts a new one.\<close>

definition list_step :: "composite_row \<Rightarrow> composite_registration list \<Rightarrow> composite_registration list" where
  "list_step row regs =
     (if regs = [] then [\<lparr>g_id = cr_base row, g_namespaces = [cr_namespace row], g_modify_index = None\<rparr>]
      else let l = last regs in
        if g_id l = cr_base row
        then butlast regs @ [l\<lparr>g_namespaces := g_namespaces l @ [cr_namespace row]\<rparr>]
        else regs @ [\<lparr>g_id = cr_base row, g_namespaces = [cr_namespace row], g_modify_index = None\<rparr>])"

definition composite_List :: "('k, composite_registration list) dbio" where
  "composite_List =
     bind_io (wrap_io (using_db [] (sql_read (\<lambda>t. sort_key (\<lambda>r. (cr_base r, cr_namespace r)) (composites t)))))
       (\<lambda>rows. ret_io (fold list_step rows []))"

section \<open>Service (service.go)\<close>

definition Destroy :: "string \<Rightarrow> ('k, unit) dbio" where
  "Destroy baseline = DeleteByBaseline baseline"

definition composite_CleanupNamespace :: "string \<Rightarrow> ('k, unit) dbio" where
  "composite_CleanupNamespace ns = with_tx_ctx (
     bind_io (GetByNamespace ns) (\<lambda>registration.
       case registration of
         None \<Rightarrow> ret_io ()
       | Some reg \<Rightarrow>
           if g_id reg = ns then wrap_io (DeleteByBaseline (g_id reg))
           else wrap_io (Upsert (reg\<lparr>g_namespaces := [n \<leftarrow> g_namespaces reg. n \<noteq> ns]\<rparr>))))"

section \<open>Preservation\<close>

lemma transactional_composite:
  "transactional (DeleteByBaseline b)" "transactional (Upsert reg)" "transactional (GetByBaseline b)"
  "transactional (GetByNamespace ns)" "transactional composite_List"
  unfolding DeleteByBaseline_def Upsert_def upsert_body_def GetByBaseline_def GetByNamespace_def
    composite_List_def getCurrentModifyIndex_def createCurrentModifyIndex_def
  by (rule transactionalI; intro keeps_intros)+

lemmas [keeps_intros] = transactional_composite [THEN transactionalD(1)] transactional_composite [THEN transactionalD(2)]

lemma transactional_composite_cleanup: "transactional (composite_CleanupNamespace ns)"
  unfolding composite_CleanupNamespace_def by (rule transactionalI; intro keeps_intros)

lemmas [keeps_intros] = transactional_composite_cleanup [THEN transactionalD(1)]
  transactional_composite_cleanup [THEN transactionalD(2)]

text \<open>
  Whatever a computation does with statements and transactions, the deferred trigger keeps every
  committed state guarded.
\<close>

definition guarded :: "'k world \<Rightarrow> bool" where
  "guarded w \<longleftrightarrow> composite_guard (committed w)"

lemma guarded_conn [simp]: "guarded (w\<lparr>conn := c\<rparr>) = guarded w"
  by (simp add: guarded_def)

lemma guarded_read [keeps_intros]: "keeps guarded (sql_read q)"
  by (rule keepsI) (auto simp: guarded_def dest: sql_read_frame)

lemma guarded_first [keeps_intros]: "keeps guarded (sql_first q)"
  unfolding sql_first_def by (intro keeps_intros)

lemma guarded_using_db [keeps_intros]: "keeps guarded m \<Longrightarrow> keeps guarded (using_db z m)"
  by (rule keeps_using_db_gen) simp_all

lemma guarded_write [keeps_intros]: "keeps guarded (sql_write f)"
proof (rule keepsI)
  fix w r w'
  assume g: "guarded w" and run: "sql_write f w = (r, w')"
  show "guarded w'"
  proof (cases "in_tx w")
    case True
    with sql_write_frame [OF run] g show ?thesis by (simp add: guarded_def)
  next
    case False
    then have "deferred_ok (tabs w) (tabs w')"
      using run by (auto simp: sql_write_def Let_def split: list.splits option.splits if_splits sum.splits)
    with False sql_write_frame [OF run] g show ?thesis
      by (auto simp: guarded_def deferred_ok_def composite_guard_def)
  qed
qed

lemma guarded_begin [keeps_intros]: "keeps guarded tx_begin"
  by (rule keepsI) (auto simp: guarded_def tx_begin_def committed_def split: option.splits)

lemma guarded_end: "tx_end r w = (r', w') \<Longrightarrow> guarded w \<Longrightarrow> guarded w'"
proof -
  assume run: "tx_end r w = (r', w')" and g: "guarded w"
  have t: "txc w' = None" using tx_end_frame [OF run] by simp
  have "deferred_ok (committed w) (tabs w')"
    using run by (auto simp: tx_end_def tx_commit_def committed_def Let_def split: list.splits option.splits if_splits sum.splits prod.splits)
  with g t show ?thesis by (auto simp: guarded_def committed_def deferred_ok_def composite_guard_def)
qed

lemma guarded_tx_ctx [keeps_intros]: "keeps guarded m \<Longrightarrow> keeps guarded (with_tx_ctx m)"
proof (rule keepsI)
  fix w r w'
  assume k: "keeps guarded m" and g: "guarded w" and run: "with_tx_ctx m w = (r, w')"
  show "guarded w'"
  proof (cases "txc w")
    case None
    obtain r1 w1 where 1: "m (w\<lparr>txc := Some \<lparr>nesting = 1, begun = None, tx_dead = False\<rparr>\<rparr>) = (r1, w1)"
      and 2: "tx_end r1 w1 = (r, w')"
      using with_tx_ctx_top [OF None run] .
    have "guarded w1" using keepsD [OF k 1] g None by (simp add: guarded_def committed_def)
    from guarded_end [OF 2 this] show ?thesis .
  next
    case (Some x)
    obtain r1 w1 where 1: "m (w\<lparr>txc := Some (x\<lparr>nesting := nesting x + 1\<rparr>)\<rparr>) = (r1, w1)" by (metis surj_pair)
    have "guarded w1" using keepsD [OF k 1] g Some by (cases "begun x") (auto simp: guarded_def committed_def)
    with run Some 1 show ?thesis
      by (auto simp: with_tx_ctx_def guarded_def committed_def split: option.splits)
  qed
qed

lemma guarded_with_tx [keeps_intros]: "keeps guarded m \<Longrightarrow> keeps guarded (with_tx z m)"
proof -
  assume "keeps guarded m"
  then have 1: "keeps guarded (using_db z (then_io tx_begin m))" by (intro keeps_intros)
  then have 2: "keeps guarded (with_tx_ctx (using_db z (then_io tx_begin m)))" by (rule guarded_tx_ctx)
  show ?thesis
    by (rule keepsI) (auto simp: with_tx_def Let_def split: if_splits dest: keepsD [OF 1] keepsD [OF 2])
qed

lemma guarded_lock [keeps_intros]: "keeps guarded m \<Longrightarrow> keeps guarded (with_lock l m)"
  unfolding with_lock_def by (intro keeps_intros)

lemma guarded_composite:
  "keeps guarded (Upsert reg)" "keeps guarded (Destroy b)" "keeps guarded (composite_CleanupNamespace ns)"
  unfolding Upsert_def upsert_body_def Destroy_def DeleteByBaseline_def composite_CleanupNamespace_def GetByNamespace_def
    getCurrentModifyIndex_def createCurrentModifyIndex_def
  by (intro keeps_intros)+

section \<open>Functional behaviour\<close>

definition composite_inv :: "tables \<Rightarrow> bool" where
  "composite_inv t \<longleftrightarrow> distinct (map cr_namespace (composites t)) \<and> distinct (map cr_id (composites t)) \<and>
     (\<forall>r \<in> set (composites t). cr_id r < next_id t) \<and> distinct (map cp_composite (composite_props t)) \<and>
     set (map cp_composite (composite_props t)) \<subseteq> set (map cr_id (composites t))"

text \<open>A request the table accepts: its namespaces fit, are free, and hold the baseline.\<close>

definition acceptable :: "composite_registration \<Rightarrow> tables \<Rightarrow> bool" where
  "acceptable reg t \<longleftrightarrow> g_id reg \<in> set (g_namespaces reg) \<and> distinct (g_namespaces reg) \<and>
     (\<forall>n \<in> set (g_namespaces reg). length n \<le> 63) \<and>
     (\<forall>r \<in> set (composites t). cr_namespace r \<in> set (g_namespaces reg) \<longrightarrow> cr_base r = g_id reg) \<and>
     (\<forall>i. g_modify_index reg = Some i \<longrightarrow> current_modify_index (g_id reg) t \<le> i)"

definition member_rows :: "nat \<Rightarrow> string \<Rightarrow> string list \<Rightarrow> composite_row list" where
  "member_rows k b nss = map (\<lambda>(i, n). \<lparr>cr_id = k + i, cr_base = b, cr_namespace = n\<rparr>) (enumerate 0 nss)"

lemma member_rows_simps [simp]:
  "map cr_namespace (member_rows k b nss) = nss" "map cr_base (member_rows k b nss) = replicate (length nss) b"
  "map cr_id (member_rows k b nss) = map ((+) k) [0 ..< length nss]"
  "r \<in> set (member_rows k b nss) \<Longrightarrow> cr_base r = b \<and> k \<le> cr_id r \<and> cr_id r < k + length nss \<and> cr_namespace r \<in> set nss"
  by (auto simp: member_rows_def comp_def case_prod_beta enumerate_eq_zip in_set_zip map_replicate_const intro: nth_equalityI)

definition upserted :: "composite_registration \<Rightarrow> tables \<Rightarrow> tables" where
  "upserted reg t =
     (let others = [r \<leftarrow> composites t. cr_base r \<noteq> g_id reg];
          new = member_rows (next_id t) (g_id reg) (g_namespaces reg);
          kept = [p \<leftarrow> composite_props t. cp_composite p \<notin> cr_id ` set (composite_rows (g_id reg) t)]
      in t\<lparr>next_id := next_id t + length (g_namespaces reg), composites := others @ new,
           composite_props := kept @ (case g_modify_index reg of None \<Rightarrow> []
              | Some i \<Rightarrow> map (\<lambda>r. \<lparr>cp_composite = cr_id r, cp_modify_index = i\<rparr>) [r \<leftarrow> new. cr_namespace r = g_id reg])\<rparr>)"

lemma insert_modify_index_eq:
  assumes "map (\<lambda>r. \<lparr>cp_composite = cr_id r, cp_modify_index = i\<rparr>)
      [r \<leftarrow> composites t. cr_base r = b \<and> cr_namespace r = b] = new"
    and "distinct (map cp_composite (composite_props t @ new))"
  shows "insert_modify_index b i t = Inr ((), t\<lparr>composite_props := composite_props t @ new\<rparr>)"
  using assms(2) unfolding insert_modify_index_def Let_def assms(1) by (simp only: simp_thms if_False)

lemma upsert_body_run:
  assumes l: "live v" and i: "composite_inv (tabs v)" and a: "acceptable reg (tabs v)"
  shows "upsert_body reg v = (Inr (), v\<lparr>tabs := upserted reg (tabs v)\<rparr>)"
proof -
  let ?t = "tabs v" and ?b = "g_id reg" and ?nss = "g_namespaces reg"
  let ?new = "member_rows (next_id ?t) ?b ?nss"
  let ?kept = "[p \<leftarrow> composite_props ?t. cp_composite p \<notin> cr_id ` set (composite_rows ?b ?t)]"
  let ?others = "[r \<leftarrow> composites ?t. cr_base r \<noteq> ?b]"
  let ?t1 = "?t\<lparr>composites := ?others, composite_props := ?kept\<rparr>"
  let ?t2 = "?t1\<lparr>next_id := next_id ?t + length ?nss, composites := ?others @ ?new\<rparr>"
  have ne: "?nss \<noteq> []" using a unfolding acceptable_def by force
  have 1: "DeleteByBaseline ?b v = (Inr (), v\<lparr>tabs := ?t1\<rparr>)"
  proof -
    have "sql_write (delete_composite ?b) v = (Inr (), v\<lparr>tabs := ?t1\<rparr>)"
      using l by (intro sql_write_live) (simp_all add: delete_composite_def Let_def)
    then have "with_tx () (sql_write (delete_composite ?b)) v = (Inr (), v\<lparr>tabs := ?t1\<rparr>)"
      using l by (intro with_tx_Inr) (simp_all add: serves_facts)
    then show ?thesis by (simp add: DeleteByBaseline_def)
  qed
  have "distinct (map cr_namespace ?others @ ?nss)"
  proof -
    have "distinct (map cr_namespace ?others)" using i by (simp add: composite_inv_def distinct_map_filter)
    moreover have "set (map cr_namespace ?others) \<inter> set ?nss = {}" using a unfolding acceptable_def by auto
    moreover have "distinct ?nss" using a unfolding acceptable_def by blast
    ultimately show ?thesis by simp
  qed
  moreover have "length ?b \<le> 63" "\<not> list_ex (\<lambda>n. length n > 63) ?nss"
    using a unfolding acceptable_def list_ex_iff by (blast, simp add: not_less)
  ultimately have ins: "insert_composite ?b ?nss ?t1 = Inr ((), ?t2)"
    by (simp add: insert_composite_def member_rows_def)
  have 2: "sql_write (insert_composite ?b ?nss) (v\<lparr>tabs := ?t1\<rparr>) = (Inr (), v\<lparr>tabs := ?t2\<rparr>)"
    using l ins sql_write_live [of "v\<lparr>tabs := ?t1\<rparr>" "insert_composite ?b ?nss" "()" ?t2] by simp
  have idx: "createCurrentModifyIndex ?b k (v\<lparr>tabs := ?t2\<rparr>) = (Inr (), v\<lparr>tabs := upserted reg ?t\<rparr>)"
    if k: "g_modify_index reg = Some k" for k
  proof -
    let ?p = "map (\<lambda>r. \<lparr>cp_composite = cr_id r, cp_modify_index = k\<rparr>) [r \<leftarrow> ?new. cr_namespace r = ?b]"
    have p: "[r \<leftarrow> ?others @ ?new. cr_base r = ?b \<and> cr_namespace r = ?b] = [r \<leftarrow> ?new. cr_namespace r = ?b]"
      by (auto simp: filter_empty_conv intro!: filter_cong)
    have "distinct (map cp_composite (?kept @ ?p))"
    proof -
      have new: "map cp_composite ?p = map cr_id [r \<leftarrow> ?new. cr_namespace r = ?b]"
        by (simp add: comp_def)
      have "distinct (map cr_id ?new)" by (simp add: distinct_map)
      then have "distinct (map cp_composite ?p)" unfolding new by (rule distinct_map_filter)
      moreover have "distinct (map cp_composite ?kept)" using i by (simp add: composite_inv_def distinct_map_filter)
      moreover have "x < next_id ?t" if "x \<in> set (map cp_composite ?kept)" for x
        using i that by (auto simp: composite_inv_def)
      moreover have "next_id ?t \<le> x" if "x \<in> set (map cp_composite ?p)" for x
        using that unfolding new by auto
      ultimately show ?thesis by (force simp del: set_map)
    qed
    then have "insert_modify_index ?b k ?t2 = Inr ((), ?t2\<lparr>composite_props := composite_props ?t2 @ ?p\<rparr>)"
    proof (intro insert_modify_index_eq)
      show "map (\<lambda>r. \<lparr>cp_composite = cr_id r, cp_modify_index = k\<rparr>)
        [r \<leftarrow> composites ?t2. cr_base r = ?b \<and> cr_namespace r = ?b] = ?p"
        by (rule arg_cong [where f = "map _"]) (use p in simp)
    qed simp
    then have "insert_modify_index ?b k ?t2 = Inr ((), upserted reg ?t)"
      using k by (simp add: upserted_def Let_def)
    then have "sql_write (insert_modify_index ?b k) (v\<lparr>tabs := ?t2\<rparr>) = (Inr (), v\<lparr>tabs := upserted reg ?t\<rparr>)"
      using l sql_write_live [of "v\<lparr>tabs := ?t2\<rparr>" "insert_modify_index ?b k" "()" "upserted reg ?t"] by simp
    then show ?thesis by (simp add: createCurrentModifyIndex_def)
  qed
  show ?thesis
  proof (cases "g_modify_index reg")
    case None
    then have "?t2 = upserted reg ?t" by (simp add: upserted_def Let_def)
    with None ne 1 2 show ?thesis by (simp add: upsert_body_def)
  next
    case (Some k)
    have "current_modify_index ?b ?t \<le> k" using a Some unfolding acceptable_def by blast
    with Some ne 1 2 idx [OF Some] l show ?thesis
      by (simp add: upsert_body_def getCurrentModifyIndex_def sql_read_serves)
  qed
qed

lemma upserted_guard:
  assumes "composite_guard t" "acceptable reg t"
  shows "composite_guard (upserted reg t)"
proof -
  let ?new = "member_rows (next_id t) (g_id reg) (g_namespaces reg)"
  have "g_id reg \<in> set (map cr_namespace ?new)" using assms(2) by (simp add: acceptable_def)
  then obtain m where m: "m \<in> set ?new" "cr_namespace m = g_id reg" unfolding set_map by (rule imageE) simp
  have c: "composites (upserted reg t) = [r \<leftarrow> composites t. cr_base r \<noteq> g_id reg] @ ?new"
    by (simp add: upserted_def Let_def)
  have "\<exists>r \<in> set (composites (upserted reg t)). cr_base r = cr_base b \<and> cr_namespace r = cr_base r"
    if b: "b \<in> set (composites (upserted reg t))" for b
  proof (cases "cr_base b = g_id reg")
    case True
    have "m \<in> set (composites (upserted reg t))" using m c by simp
    moreover have "cr_base m = g_id reg" using m(1) member_rows_simps(4) by blast
    ultimately show ?thesis using True m(2) by force
  next
    case False
    then have "b \<in> set (composites t)" using b c member_rows_simps(4) by fastforce
    then obtain r where "r \<in> set (composites t)" "cr_base r = cr_base b" "cr_namespace r = cr_base r"
      using assms(1) by (auto simp: composite_guard_def list_all_iff list_ex_iff)
    with False c show ?thesis by (intro bexI [of _ r]) auto
  qed
  then show ?thesis by (simp add: composite_guard_def list_all_iff list_ex_iff)
qed

lemma Upsert_run:
  assumes h: "healthy w" and i: "composite_inv (tabs w)" and g: "composite_guard (tabs w)" and a: "acceptable reg (tabs w)"
  shows "Upsert reg w = (Inr (), w\<lparr>tabs := upserted reg (tabs w)\<rparr>)"
proof -
  let ?v = "enter_tx w"
  let ?body = "then_io (wrap_io (sql_read (\<lambda>_. ()))) (with_tx () (upsert_body reg))"
  have "with_tx () (upsert_body reg) ?v = (Inr (), ?v\<lparr>tabs := upserted reg (tabs w)\<rparr>)"
    using h i a upsert_body_run [of ?v reg] by (intro with_tx_Inr) (simp_all add: serves_facts)
  then have "?body ?v = (Inr (), ?v\<lparr>tabs := upserted reg (tabs w)\<rparr>)"
    using h by (simp add: sql_read_serves)
  moreover have "deferred_ok (tabs w) (upserted reg (tabs w))"
    using upserted_guard [OF g a] by (simp add: deferred_ok_def)
  ultimately have "with_tx () ?body w = (Inr (), ?v\<lparr>tabs := upserted reg (tabs w), txc := None\<rparr>)"
    using h by (intro with_tx_healthy) simp_all
  then show ?thesis using h by (simp add: Upsert_def with_lock_def)
qed

lemma sort_key_map: "map f (sort_key f xs) = sort (map f xs)"
  by (rule properties_for_sort [symmetric]) simp_all

lemma GetByBaseline_run:
  assumes "healthy w"
  shows "GetByBaseline b w = (Inr (let rows = composite_rows b (tabs w) in
     if rows = [] then None else Some \<lparr>g_id = b, g_namespaces = sort (map cr_namespace rows), g_modify_index = None\<rparr>), w)"
proof -
  let ?rows = "composite_rows b (tabs w)" and ?q = "\<lambda>t. sort_key cr_namespace (composite_rows b t)"
  have "using_db [] (sql_read ?q) w = (Inr (?q (tabs w)), w)"
    using assms by (intro using_db_Inr) (simp_all add: sql_read_serves serves_facts)
  moreover have "cr_base (hd (sort_key cr_namespace ?rows)) = b" if "?rows \<noteq> []"
  proof -
    have "hd (sort_key cr_namespace ?rows) \<in> set (sort_key cr_namespace ?rows)"
      using that by (metis hd_in_set length_0_conv length_sort)
    then show ?thesis by (simp add: composite_rows_def)
  qed
  moreover have "sort_key cr_namespace ?rows = [] \<longleftrightarrow> ?rows = []" by (metis length_0_conv length_sort)
  ultimately show ?thesis by (simp add: GetByBaseline_def reformat_def sort_key_map Let_def)
qed

lemma GetByNamespace_run:
  assumes "healthy w" "r \<in> set (composites (tabs w))" "distinct (map cr_namespace (composites (tabs w)))"
  shows "GetByNamespace (cr_namespace r) w = GetByBaseline (cr_base r) w"
proof -
  have "find (\<lambda>x. cr_namespace x = cr_namespace r) (composites (tabs w)) = Some r"
    using assms(2,3) by (intro find_unique) (auto simp: distinct_map inj_on_def)
  then have q: "rows_by_namespace (cr_namespace r) (tabs w) = sort_key cr_namespace (composite_rows (cr_base r) (tabs w))"
    by (simp add: rows_by_namespace_def)
  have "using_db [] (sql_read q) w = (Inr (q (tabs w)), w)" for q :: "tables \<Rightarrow> composite_row list"
    using assms(1) by (intro using_db_Inr) (simp_all add: sql_read_serves serves_facts)
  with q show ?thesis by (simp add: GetByNamespace_def GetByBaseline_def)
qed

lemma composite_rows_upserted:
  "composite_rows (g_id reg) (upserted reg t) = member_rows (next_id t) (g_id reg) (g_namespaces reg)"
  "b \<noteq> g_id reg \<Longrightarrow> composite_rows b (upserted reg t) = composite_rows b t"
proof -
  have "[r \<leftarrow> member_rows k b nss. cr_base r = b] = member_rows k b nss"
    "b' \<noteq> b \<Longrightarrow> [r \<leftarrow> member_rows k b nss. cr_base r = b'] = []" for k b b' nss
    by (auto simp: filter_id_conv filter_empty_conv)
  then show "composite_rows (g_id reg) (upserted reg t) = member_rows (next_id t) (g_id reg) (g_namespaces reg)"
    "b \<noteq> g_id reg \<Longrightarrow> composite_rows b (upserted reg t) = composite_rows b t"
    by (auto simp: composite_rows_def upserted_def Let_def conj_commute intro!: filter_cong)
qed

lemma upserted_index:
  assumes i: "composite_inv t" and a: "acceptable reg t"
  shows "current_modify_index (g_id reg) (upserted reg t) = (case g_modify_index reg of None \<Rightarrow> 0 | Some k \<Rightarrow> k)"
proof -
  let ?new = "member_rows (next_id t) (g_id reg) (g_namespaces reg)"
  let ?ids = "cr_id ` set ?new"
  let ?kept = "[p \<leftarrow> composite_props t. cp_composite p \<notin> cr_id ` set (composite_rows (g_id reg) t)]"
  have old: "cp_composite p \<notin> ?ids" if "p \<in> set ?kept" for p
  proof -
    have "cp_composite p < next_id t" using i that by (auto simp: composite_inv_def)
    then show ?thesis using member_rows_simps(4) by (metis imageE not_less)
  qed
  have kept: "[p \<leftarrow> ?kept. cp_composite p \<in> ?ids] = []" using old by (simp only: filter_empty_conv) blast
  show ?thesis
  proof (cases "g_modify_index reg")
    case None
    then have "composite_props (upserted reg t) = ?kept" by (simp add: upserted_def Let_def)
    with None kept show ?thesis
      unfolding current_modify_index_def Let_def composite_rows_upserted by simp
  next
    case (Some k)
    let ?p = "map (\<lambda>r. \<lparr>cp_composite = cr_id r, cp_modify_index = k\<rparr>) [r \<leftarrow> ?new. cr_namespace r = g_id reg]"
    have p: "composite_props (upserted reg t) = ?kept @ ?p" using Some by (simp add: upserted_def Let_def)
    have "[p \<leftarrow> ?p. cp_composite p \<in> ?ids] = ?p" by (simp add: filter_id_conv)
    with kept have f: "[p \<leftarrow> composite_props (upserted reg t). cp_composite p \<in> ?ids] = ?p"
      unfolding p filter_append by simp
    have "g_id reg \<in> set (map cr_namespace ?new)" using a by (simp add: acceptable_def)
    then have "[r \<leftarrow> ?new. cr_namespace r = g_id reg] \<noteq> []" unfolding set_map filter_empty_conv by (auto elim!: imageE)
    with f Some show ?thesis
      unfolding current_modify_index_def Let_def composite_rows_upserted by (simp add: comp_def map_replicate_const)
  qed
qed

lemma distinct_append_bound:
  "distinct xs \<Longrightarrow> distinct ys \<Longrightarrow> (\<And>x. x \<in> set xs \<Longrightarrow> x < k) \<Longrightarrow> (\<And>y. y \<in> set ys \<Longrightarrow> (k :: nat) \<le> y) \<Longrightarrow>
   distinct (xs @ ys)"
  by (fastforce simp: disjoint_iff)

lemma upserted_inv:
  assumes i: "composite_inv t" and a: "acceptable reg t"
  shows "composite_inv (upserted reg t)"
proof -
  let ?new = "member_rows (next_id t) (g_id reg) (g_namespaces reg)"
  let ?others = "[r \<leftarrow> composites t. cr_base r \<noteq> g_id reg]"
  let ?gone = "cr_id ` set (composite_rows (g_id reg) t)"
  let ?kept = "[p \<leftarrow> composite_props t. cp_composite p \<notin> ?gone]"
  let ?own = "[r \<leftarrow> ?new. cr_namespace r = g_id reg]"
  let ?p = "case g_modify_index reg of None \<Rightarrow> []
              | Some k \<Rightarrow> map (\<lambda>r. \<lparr>cp_composite = cr_id r, cp_modify_index = k\<rparr>) ?own"
  have t: "composites (upserted reg t) = ?others @ ?new" "composite_props (upserted reg t) = ?kept @ ?p"
    "next_id (upserted reg t) = next_id t + length (g_namespaces reg)"
    by (simp_all add: upserted_def Let_def)
  have ns: "distinct (map cr_namespace (?others @ ?new))"
  proof -
    have "distinct (map cr_namespace ?others)" using i by (simp add: composite_inv_def distinct_map_filter)
    moreover have "set (map cr_namespace ?others) \<inter> set (g_namespaces reg) = {}" "distinct (g_namespaces reg)"
      using a unfolding acceptable_def by auto
    ultimately show ?thesis by simp
  qed
  have low: "cr_id r < next_id t" if "r \<in> set ?others" for r using i that by (simp add: composite_inv_def)
  have ids: "distinct (map cr_id (?others @ ?new))"
  proof -
    have "distinct (map cr_id ?others)" using i by (simp add: composite_inv_def distinct_map_filter)
    moreover have "set (map cr_id ?others) \<inter> set (map cr_id ?new) = {}" using low by fastforce
    moreover have "distinct (map cr_id ?new)" by (simp add: distinct_map)
    ultimately show ?thesis by (simp del: set_map)
  qed
  have bound: "cr_id r < next_id t + length (g_namespaces reg)" if "r \<in> set (?others @ ?new)" for r
    using that low member_rows_simps(4) by (fastforce simp del: member_rows_simps)
  have new: "map cp_composite ?p = (if g_modify_index reg = None then [] else map cr_id ?own)"
    by (simp add: comp_def split: option.split)
  have own: "set (map cr_id ?own) \<subseteq> set (map cr_id ?new)" unfolding set_map by (rule image_mono) simp
  then have own2: "next_id t \<le> x" if "x \<in> set (map cr_id ?own)" for x 
  proof -
    have "x \<in> set (map cr_id ?new)" using that own by blast
    then show ?thesis unfolding member_rows_simps by auto
  qed
  have props: "distinct (map cp_composite (?kept @ ?p))"
  proof -
    have "distinct (map cr_id ?new)" by (simp add: distinct_map)
    then have "distinct (map cr_id ?own)" by (rule distinct_map_filter)
    then have "distinct (map cp_composite ?p)" unfolding new by simp
    moreover have "distinct (map cp_composite ?kept)" using i by (simp add: composite_inv_def distinct_map_filter)
    moreover have "x < next_id t" if "x \<in> set (map cp_composite ?kept)" for x
      using i that by (auto simp: composite_inv_def)
    moreover have "next_id t \<le> x" if "x \<in> set (map cp_composite ?p)" for x
      using that own2 unfolding new by (auto split: if_splits)
    ultimately show ?thesis unfolding map_append by (intro distinct_append_bound)
  qed
  have sub: "set (map cp_composite (?kept @ ?p)) \<subseteq> set (map cr_id (?others @ ?new))"
  proof -
    have "cp_composite p \<in> set (map cr_id ?others)" if "p \<in> set ?kept" for p
    proof -
      have "cp_composite p \<in> set (map cr_id (composites t))" using i that by (auto simp: composite_inv_def)
      then obtain r where "r \<in> set (composites t)" "cp_composite p = cr_id r" by auto
      moreover from this have "cr_base r \<noteq> g_id reg" using that by (auto simp: composite_rows_def)
      ultimately show ?thesis by simp
    qed
    then have "set (map cp_composite ?kept) \<subseteq> set (map cr_id ?others)" unfolding set_map [of cp_composite] by blast
    moreover have "set (map cp_composite ?p) \<subseteq> set (map cr_id ?new)"
      unfolding new using own by (simp del: set_map)
    ultimately show ?thesis by (simp del: set_map) blast
  qed
  show ?thesis unfolding composite_inv_def t using ns ids bound props sub by blast
qed

text \<open>
  C4 An accepted upsert is what is read back: the registration by its baseline and by each of its
  namespaces, with its namespaces in order; every other composite reads as before; the stored
  modify index is the one of the request; and the tables stay well formed.
\<close>

theorem upsert_read_back:
  assumes "healthy w" "composite_inv (tabs w)" "composite_guard (tabs w)" "acceptable reg (tabs w)"
  shows "\<exists>w'. Upsert reg w = (Inr (), w') \<and> healthy w' \<and>
    (\<forall>b. GetByBaseline b w' =
       (if b = g_id reg
        then (Inr (Some \<lparr>g_id = b, g_namespaces = sort (g_namespaces reg), g_modify_index = None\<rparr>), w')
        else (fst (GetByBaseline b w), w'))) \<and>
    (\<forall>n \<in> set (g_namespaces reg). GetByNamespace n w' = GetByBaseline (g_id reg) w') \<and>
    current_modify_index (g_id reg) (tabs w') = (case g_modify_index reg of None \<Rightarrow> 0 | Some k \<Rightarrow> k) \<and>
    composite_inv (tabs w') \<and> composite_guard (tabs w')"
proof (intro exI conjI allI ballI)
  let ?t = "upserted reg (tabs w)"
  let ?w = "w\<lparr>tabs := ?t\<rparr>"
  let ?new = "member_rows (next_id (tabs w)) (g_id reg) (g_namespaces reg)"
  have h: "healthy ?w" using assms(1) by simp
  show "Upsert reg w = (Inr (), ?w)" by (rule Upsert_run [OF assms])
  show "healthy ?w" by (rule h)
  have "g_namespaces reg \<noteq> []" using assms(4) by (auto simp: acceptable_def)
  then have "?new \<noteq> []" by (metis member_rows_simps(1) list.simps(8))
  then show "GetByBaseline b ?w =
       (if b = g_id reg
        then (Inr (Some \<lparr>g_id = b, g_namespaces = sort (g_namespaces reg), g_modify_index = None\<rparr>), ?w)
        else (fst (GetByBaseline b w), ?w))" for b
    using GetByBaseline_run [OF h] GetByBaseline_run [OF assms(1)]
    by (simp add: composite_rows_upserted Let_def)
  show inv: "composite_inv (tabs ?w)" using upserted_inv [OF assms(2,4)] by simp
  show "composite_guard (tabs ?w)" using upserted_guard [OF assms(3,4)] by simp
  show "current_modify_index (g_id reg) (tabs ?w) = (case g_modify_index reg of None \<Rightarrow> 0 | Some k \<Rightarrow> k)"
    using upserted_index [OF assms(2,4)] by simp
  show "GetByNamespace n ?w = GetByBaseline (g_id reg) ?w" if n: "n \<in> set (g_namespaces reg)" for n
  proof -
    have "n \<in> set (map cr_namespace ?new)" using n by simp
    then obtain r where r: "r \<in> set ?new" "n = cr_namespace r" unfolding set_map by (rule imageE) simp
    then have "r \<in> set (composite_rows (g_id reg) ?t)" by (simp only: composite_rows_upserted)
    then have "r \<in> set (composites (tabs ?w))" by (simp add: composite_rows_def)
    moreover have "cr_base r = g_id reg" using r(1) member_rows_simps(4) by blast
    moreover have "distinct (map cr_namespace (composites (tabs ?w)))"
      using inv unfolding composite_inv_def by blast
    ultimately show ?thesis using GetByNamespace_run [OF h] r(2) by metis
  qed
qed

definition two_composites :: "unit world" where
  "two_composites = mk_world (empty_tables\<lparr>next_id := 4,
     composites := [\<lparr>cr_id = 1, cr_base = ''a'', cr_namespace = ''a''\<rparr>, \<lparr>cr_id = 2, cr_base = ''a'', cr_namespace = ''b''\<rparr>,
       \<lparr>cr_id = 3, cr_base = ''z'', cr_namespace = ''z''\<rparr>],
     composite_props := [\<lparr>cp_composite = 1, cp_modify_index = 5\<rparr>]\<rparr>) ()"

theorem upsert_read_back_witness:
  "\<exists>w'. Upsert \<lparr>g_id = ''a'', g_namespaces = [''c'', ''a''], g_modify_index = Some 5\<rparr> two_composites = (Inr (), w') \<and>
     GetByNamespace ''c'' w' = (Inr (Some \<lparr>g_id = ''a'', g_namespaces = [''a'', ''c''], g_modify_index = None\<rparr>), w')"
proof -
  let ?r = "\<lparr>g_id = ''a'', g_namespaces = [''c'', ''a''], g_modify_index = Some 5\<rparr>"
  have s: "sort [''c'', ''a''] = [''a'', ''c'' :: string]" by code_simp
  have h: "healthy two_composites" by (simp add: two_composites_def)
  have i: "composite_inv (tabs two_composites)" by code_simp
  have g: "composite_guard (tabs two_composites)" by code_simp
  have a: "acceptable ?r (tabs two_composites)"
    by (simp add: acceptable_def two_composites_def current_modify_index_def composite_rows_def empty_tables_def)
  obtain w' where "Upsert ?r two_composites = (Inr (), w')"
    and b: "\<And>b. GetByBaseline b w' = (if b = ''a''
        then (Inr (Some \<lparr>g_id = b, g_namespaces = sort [''c'', ''a''], g_modify_index = None\<rparr>), w')
        else (fst (GetByBaseline b two_composites), w'))"
    and n: "\<And>n. n \<in> {''c'', ''a''} \<Longrightarrow> GetByNamespace n w' = GetByBaseline ''a'' w'"
    using upsert_read_back [OF h i g a, unfolded composite_registration.simps list.set] by blast
  then show ?thesis unfolding b [of "''a''"] s n [OF insertI1] by (intro exI [of _ w']) simp
qed

section \<open>Listing\<close>

lemma sorted_distinct_adj: "sorted xs \<Longrightarrow> distinct (remdups_adj xs)" for xs :: "'a::linorder list"
proof (induction xs rule: remdups_adj.induct)
  case (3 x y xs)
  then show ?case by (cases "x = y") (auto simp: order.antisym)
qed simp_all

lemma sorted_le_last: "sorted xs \<Longrightarrow> x \<in> set xs \<Longrightarrow> x \<le> last xs" for xs :: "'a::linorder list"
  by (induction xs) auto

lemma remdups_adj_snoc:
  "xs \<noteq> [] \<Longrightarrow> remdups_adj (xs @ [x]) = (if last xs = x then remdups_adj xs else remdups_adj xs @ [x])"
  by (cases xs rule: rev_cases) (simp_all add: remdups_adj_append_two)

definition composite_group :: "composite_row list \<Rightarrow> string \<Rightarrow> composite_registration" where
  "composite_group rows b =
     \<lparr>g_id = b, g_namespaces = map cr_namespace [r \<leftarrow> rows. cr_base r = b], g_modify_index = None\<rparr>"

lemma list_loop:
  "sorted (map cr_base rows) \<Longrightarrow>
     fold list_step rows [] = map (composite_group rows) (remdups_adj (map cr_base rows))"
proof (induction rows rule: rev_induct)
  case (snoc r rows)
  then have s: "sorted (map cr_base rows)" "\<forall>x \<in> set rows. cr_base x \<le> cr_base r" by (auto simp: sorted_append)
  let ?bs = "remdups_adj (map cr_base rows)"
  have f: "fold list_step (rows @ [r]) [] = list_step r (map (composite_group rows) ?bs)"
    using snoc.IH s(1) by simp
  show ?case
  proof (cases "rows = []")
    case True
    then show ?thesis by (simp add: list_step_def composite_group_def)
  next
    case False
    then have ne: "?bs \<noteq> []" "last ?bs = cr_base (last rows)" by (simp_all add: last_map)
    have bs: "?bs = butlast ?bs @ [cr_base (last rows)]" using ne append_butlast_last_id [OF ne(1)] by simp
    have d: "distinct ?bs" by (rule sorted_distinct_adj [OF s(1)])
    have other: "composite_group (rows @ [r]) b = composite_group rows b" if "b \<noteq> cr_base r" for b
      using that by (simp add: composite_group_def)
    have last: "last (map (composite_group rows) ?bs) = composite_group rows (cr_base (last rows))"
      using ne by (simp add: last_map)
    show ?thesis
    proof (cases "cr_base (last rows) = cr_base r")
      case True
      have nb: "cr_base r \<notin> set (butlast ?bs)" using d True by (subst (asm) bs) simp
      have g: "(composite_group rows (cr_base r))\<lparr>g_namespaces := g_namespaces (composite_group rows (cr_base r)) @ [cr_namespace r]\<rparr>
         = composite_group (rows @ [r]) (cr_base r)" by (simp add: composite_group_def)
      have "fold list_step (rows @ [r]) [] = map (composite_group rows) (butlast ?bs) @ [composite_group (rows @ [r]) (cr_base r)]"
        unfolding f list_step_def Let_def last using ne(1) True g by (simp add: map_butlast composite_group_def)
      also have "map (composite_group rows) (butlast ?bs) = map (composite_group (rows @ [r])) (butlast ?bs)"
        using nb other by (intro map_cong refl) metis
      also have "\<dots> @ [composite_group (rows @ [r]) (cr_base r)] = map (composite_group (rows @ [r])) ?bs"
        using True by (subst (2) bs) simp
      finally show ?thesis using True False by (simp add: remdups_adj_snoc last_map)
    next
      case False
      have nb: "cr_base r \<notin> set ?bs"
      proof
        assume "cr_base r \<in> set ?bs"
        then have "cr_base r \<le> cr_base (last rows)"
          using sorted_le_last [OF s(1)] \<open>rows \<noteq> []\<close> by (simp add: last_map)
        moreover have "cr_base (last rows) \<le> cr_base r" using s(2) \<open>rows \<noteq> []\<close> by simp
        ultimately show False using False by simp
      qed
      have "fold list_step (rows @ [r]) [] = map (composite_group rows) ?bs @ [composite_group (rows @ [r]) (cr_base r)]"
        unfolding f list_step_def Let_def last using ne(1) False nb
        by (auto simp: composite_group_def filter_empty_conv image_iff)
      also have "map (composite_group rows) ?bs = map (composite_group (rows @ [r])) ?bs"
        using nb other by (intro map_cong refl) metis
      finally show ?thesis using False \<open>rows \<noteq> []\<close> by (simp add: remdups_adj_snoc last_map)
    qed
  qed
qed simp

lemma sorted_within_base:
  "sorted (map (\<lambda>r. (cr_base r, cr_namespace r)) rows) \<Longrightarrow>
     sorted (map cr_base rows) \<and> sorted (map cr_namespace [r \<leftarrow> rows. cr_base r = b])"
  by (induction rows) (auto simp: less_eq_prod_def less_imp_le)

text \<open>
  Listing the composites yields one registration per baseline, the baselines in order, each
  with all its namespaces in order.
\<close>

theorem list_groups_by_baseline:
  assumes "healthy w"
  shows "composite_List w =
    (Inr (map (\<lambda>b. \<lparr>g_id = b, g_namespaces = sort (map cr_namespace (composite_rows b (tabs w))), g_modify_index = None\<rparr>)
            (sorted_list_of_set (cr_base ` set (composites (tabs w))))), w)"
proof -
  let ?key = "\<lambda>r. (cr_base r, cr_namespace r)"
  let ?q = "\<lambda>t. sort_key ?key (composites t)"
  let ?rows = "?q (tabs w)"
  have s: "sorted (map cr_base ?rows)" "sorted (map cr_namespace [r \<leftarrow> ?rows. cr_base r = b])" for b
    using sorted_within_base [of ?rows b] sorted_sort_key by blast+
  have "using_db [] (sql_read ?q) w = (Inr ?rows, w)"
    using assms by (intro using_db_Inr) (simp_all add: sql_read_serves serves_facts)
  then have "composite_List w = (Inr (fold list_step ?rows []), w)" by (simp add: composite_List_def)
  also have "fold list_step ?rows [] = map (composite_group ?rows) (remdups_adj (map cr_base ?rows))"
    by (rule list_loop [OF s(1)])
  also have "remdups_adj (map cr_base ?rows) = sorted_list_of_set (cr_base ` set (composites (tabs w)))"
    using sorted_list_of_set.idem_if_sorted_distinct [of "remdups_adj (map cr_base ?rows)"] s(1)
      sorted_distinct_adj [OF s(1)] by (simp add: sorted_remdups_adj)
  also have "composite_group ?rows = (\<lambda>b. \<lparr>g_id = b, g_namespaces = sort (map cr_namespace (composite_rows b (tabs w))), g_modify_index = None\<rparr>)"
  proof
    fix b
    have "sort (map cr_namespace (composite_rows b (tabs w))) = map cr_namespace [r \<leftarrow> ?rows. cr_base r = b]"
      using s(2) by (intro properties_for_sort) (simp_all add: composite_rows_def)
    then show "composite_group ?rows b = \<lparr>g_id = b, g_namespaces = sort (map cr_namespace (composite_rows b (tabs w))), g_modify_index = None\<rparr>"
      by (simp add: composite_group_def)
  qed
  finally show ?thesis .
qed

theorem list_groups_by_baseline_witness:
  "\<exists>rs. composite_List two_composites = (Inr rs, two_composites)"
  using list_groups_by_baseline [of two_composites] by (simp add: two_composites_def)

section \<open>Refusals and the guard\<close>

lemma upsert_body_stale:
  assumes "live v" "g_modify_index reg = Some i" "i < current_modify_index (g_id reg) (tabs v)"
  shows "upsert_body reg v = (Inl BadRequest, v)"
  using assms by (simp add: upsert_body_def getCurrentModifyIndex_def sql_read_serves)

text \<open>
  An upsert whose modify index is behind the stored one is refused as a bad request and changes
  nothing.
\<close>

theorem stale_index_refused:
  assumes h: "healthy w" and "g_modify_index reg = Some i" "i < current_modify_index (g_id reg) (tabs w)"
  shows "Upsert reg w = (Inl BadRequest, w)"
proof -
  let ?v = "enter_tx w"
  let ?body = "then_io (wrap_io (sql_read (\<lambda>_. ()))) (with_tx () (upsert_body reg))"
  have "with_tx () (upsert_body reg) ?v = (Inl BadRequest, ?v)"
    using assms upsert_body_stale [of ?v reg i] by (intro with_tx_Inl) (simp_all add: serves_facts)
  then have "?body ?v = (Inl BadRequest, ?v)" using h by (simp add: sql_read_serves)
  then have "with_tx () ?body w = (Inl BadRequest, ?v\<lparr>txc := None, tabs := tabs w\<rparr>)"
    using h by (intro with_tx_healthy_Inl) (simp_all add: serves_facts)
  moreover have "?v\<lparr>txc := None, tabs := tabs w\<rparr> = w"
    using h by (cases w) (simp add: enter_tx_def healthy_def del: state_serves)
  ultimately show ?thesis by (simp add: Upsert_def with_lock_def)
qed

theorem stale_index_refused_witness:
  "Upsert \<lparr>g_id = ''a'', g_namespaces = [''a''], g_modify_index = Some 4\<rparr> two_composites = (Inl BadRequest, two_composites)"
proof (rule stale_index_refused)
  show "healthy two_composites" by (simp add: two_composites_def)
  show "4 < current_modify_index (g_id \<lparr>g_id = ''a'', g_namespaces = [''a''], g_modify_index = Some 4\<rparr>) (tabs two_composites)"
    by code_simp
qed simp

text \<open>
  C5 Whatever statements fail, an upsert, a destruction or a cleanup that returns an error leaves
  the tables as they were, and one that returns leaves every composite with its baseline among
  its members.
\<close>

theorem composite_operations_atomic:
  fixes w :: "'k world"
  assumes top: "txc w = None" and guard: "composite_guard (tabs w)"
    and m: "m = Upsert reg \<or> m = Destroy b \<or> m = composite_CleanupNamespace ns" and run: "m w = (r, w')"
  shows "txc w' = None \<and> composite_guard (tabs w') \<and> (\<forall>e. r = Inl e \<longrightarrow> tabs w' = tabs w)"
proof -
  have k: "keeps guarded m" using m by (elim disjE) (simp_all only: guarded_composite)
  have "guarded w" using top guard by (simp add: guarded_def committed_def)
  from keepsD [OF k run this] have "guarded w'" .
  moreover have k2: "keeps (\<lambda>w. txc w = None) m"
    using m unfolding Upsert_def Destroy_def DeleteByBaseline_def with_lock_def composite_CleanupNamespace_def
    by (elim disjE; simp only:; intro keeps_intros)
  from keepsD [OF k2 run top] have t: "txc w' = None" .
  moreover have "tabs w' = tabs w" if e: "r = Inl e" for e
  proof -
    from m consider "m = Upsert reg" | "m = Destroy b" | "m = composite_CleanupNamespace ns" by blast
    then show ?thesis
    proof cases
      case 1
      let ?body = "then_io (wrap_io (sql_read (\<lambda>_. ()))) (with_tx () (upsert_body reg))"
      have k3: "keeps (in_begun (tabs w)) ?body"
        unfolding upsert_body_def getCurrentModifyIndex_def createCurrentModifyIndex_def by (intro keeps_intros)
      have "with_tx () ?body w = (Inl e, w')" using 1 run e by (simp add: Upsert_def with_lock_def)
      from with_tx_atomic [OF top k3 this] show ?thesis ..
    next
      case 2
      then obtain e1 where "with_tx () (sql_write (delete_composite b)) w = (Inl e1, w')"
        using run e by (auto simp: Destroy_def DeleteByBaseline_def wrap_io_run split: prod.splits sum.splits)
      then show ?thesis by (rule with_tx_atomic [THEN conjunct1, OF top, rotated]) (intro keeps_intros)
    next
      case 3
      let ?body = "bind_io (GetByNamespace ns) (\<lambda>registration. case registration of None \<Rightarrow> ret_io ()
         | Some reg \<Rightarrow> if g_id reg = ns then wrap_io (DeleteByBaseline (g_id reg))
             else wrap_io (Upsert (reg\<lparr>g_namespaces := [n \<leftarrow> g_namespaces reg. n \<noteq> ns]\<rparr>)))"
      have k3: "keeps (in_ctx (tabs w)) ?body" by (intro keeps_intros)
      have "with_tx_ctx ?body w = (Inl e, w')" using 3 run e by (simp add: composite_CleanupNamespace_def)
      from with_tx_ctx_atomic [OF top k3 this] show ?thesis ..
    qed
  qed
  ultimately show ?thesis by (simp add: guarded_def committed_def)
qed

definition failing_commit :: "unit world" where
  "failing_commit = two_composites\<lparr>faults := [None, Some ConnectionLost]\<rparr>"

theorem composite_operations_atomic_witness:
  "fst (Destroy ''a'' failing_commit) = Inl ConnectionLost \<and> tabs (snd (Destroy ''a'' failing_commit)) = tabs failing_commit"
proof -
  obtain r w' where run: "Destroy ''a'' failing_commit = (r, w')" by (metis surj_pair)
  have "fst (Destroy ''a'' failing_commit) = Inl ConnectionLost" by code_simp
  then have r: "r = Inl ConnectionLost" using run by simp
  have t: "txc failing_commit = None" by (simp add: failing_commit_def two_composites_def)
  have g: "composite_guard (tabs failing_commit)" by code_simp
  from composite_operations_atomic [OF t g disjI2 [OF disjI1 [OF refl]] run] run r show ?thesis by simp
qed

text \<open>
  Taking a member namespace out of a composite forgets its modify index, so that a stale upsert
  that was refused before is accepted after it.
\<close>

lemma cleanup_forgets_index:
  "let stale = \<lparr>g_id = ''a'', g_namespaces = [''a'', ''old''], g_modify_index = Some 4\<rparr>;
       w = snd (composite_CleanupNamespace ''b'' two_composites)
   in fst (Upsert stale two_composites) = Inl BadRequest \<and>
      fst (composite_CleanupNamespace ''b'' two_composites) = Inr () \<and> fst (Upsert stale w) = Inr ()"
  by code_simp

end
