(* ===== verification/Maas_Auth.thy ===== *)
theory Maas_Auth
  imports Maas_Domain Maas_Composite
begin

text \<open>
  Accounts and access control (service/auth, table of dao/schema/1): creation of accounts,
  authentication by password or token, the namespaces a request may reach.

  Key derivation (PBKDF2 and base64), the random UUIDs salts are cut from and the OIDC verifier
  are parameters: \<open>kdf password salt\<close>, \<open>uuid\<close> and a record of functions.
\<close>

record client_account =
  ca_username :: string
  ca_password :: string
  ca_namespace :: string
  ca_roles :: "string list option"

record manager_account =
  ma_username :: string
  ma_password :: string

record 't oidc =
  Verify :: "string \<Rightarrow> 't outcome"
  ServiceAccountName :: "'t \<Rightarrow> string outcome"
  TokenNamespace :: "'t \<Rightarrow> string outcome"

definition zero_account :: account where
  "zero_account = \<lparr>a_username = [], a_roles = None, a_salt = [], a_password = [], a_namespace = [], a_domain_namespaces = []\<rparr>"

section \<open>Statements\<close>

text \<open>Names are looked up ignoring case, but the unique index distinguishes it.\<close>

definition find_account :: "string \<Rightarrow> tables \<Rightarrow> account option" where
  "find_account username t =
     first_by a_username [a \<leftarrow> accounts t. to_lower (a_username a) = to_lower username]"

definition account_fits :: "account \<Rightarrow> bool" where
  "account_fits a = (length (a_username a) \<le> 128 \<and> length (a_salt a) \<le> 64 \<and> length (a_namespace a) \<le> 64)"

text \<open>\<open>domain_namespaces\<close> is a read-only field (\<open>->\<close>): an insert leaves it null.\<close>

definition insert_account :: "account \<Rightarrow> tables \<Rightarrow> (unit \<times> tables) outcome" where
  "insert_account a t =
     (if \<not> account_fits a then Inl Generic
      else if a_username a \<in> a_username ` set (accounts t) then Inl UniqueViolation
      else Inr ((), t\<lparr>accounts := accounts t @ [a\<lparr>a_domain_namespaces := []\<rparr>]\<rparr>))"

definition delete_account :: "string \<Rightarrow> tables \<Rightarrow> (nat \<times> tables) outcome" where
  "delete_account username t =
     Inr (length [a \<leftarrow> accounts t. a_username a = username],
          t\<lparr>accounts := [a \<leftarrow> accounts t. a_username a \<noteq> username]\<rparr>)"

text \<open>\<open>Updates\<close> with a struct sets the fields that are not zero.\<close>

definition update_password :: "string \<Rightarrow> string \<Rightarrow> string \<Rightarrow> tables \<Rightarrow> (nat \<times> tables) outcome" where
  "update_password username password salt t =
     (if length salt > 64 then Inl Generic
      else Inr (length [a \<leftarrow> accounts t. a_username a = username],
          t\<lparr>accounts := map (\<lambda>a. if a_username a = username
              then a\<lparr>a_salt := (if salt = [] then a_salt a else salt),
                     a_password := (if password = [] then a_password a else password)\<rparr>
              else a) (accounts t)\<rparr>))"

section \<open>Data access (auth_service_dao.go)\<close>

definition dao_GetAccountByUsername :: "string \<Rightarrow> ('k, account option) dbio" where
  "dao_GetAccountByUsername username =
     (if username = [] then raise_io BadRequest
      else bind_io (attempt_io (using_db zero_account (sql_first (find_account username)))) (\<lambda>res.
        case res of
          Inl e \<Rightarrow> if e = RecordNotFound \<or> e = RecordNotFoundInCache then ret_io None else raise_io (wrapped e)
        | Inr a \<Rightarrow> ret_io (Some a)))"

definition FindAccountByRoleAndNamespace :: "string \<Rightarrow> string \<Rightarrow> ('k, account list) dbio" where
  "FindAccountByRoleAndNamespace role ns =
     wrap_io (using_db [] (sql_read (\<lambda>t. [a \<leftarrow> accounts t. role \<in> set (roles_of a) \<and> a_namespace a = ns])))"

definition dao_GetAllAccounts :: "('k, account list) dbio" where
  "dao_GetAllAccounts = wrap_io (using_db [] (sql_read accounts))"

definition SaveAccount :: "account \<Rightarrow> ('k, unit) dbio" where
  "SaveAccount a = wrap_io (using_db () (sql_write (insert_account a)))"

definition DeleteAccount :: "string \<Rightarrow> ('k, unit) dbio" where
  "DeleteAccount username =
     (if username = [] then raise_io BadRequest
      else wrap_io (using_db () (bind_io (sql_write (delete_account username))
             (\<lambda>affected. if affected \<noteq> 1 then raise_io NotFound else ret_io ()))))"

text \<open>A failing statement affects no row, and is reported as a missing user.\<close>

definition dao_UpdateUserPassword :: "string \<Rightarrow> string \<Rightarrow> string \<Rightarrow> ('k, unit) dbio" where
  "dao_UpdateUserPassword username password salt =
     with_tx () (bind_io (attempt_io (sql_write (update_password username password salt))) (\<lambda>res.
       case res of
         Inl e \<Rightarrow> raise_io NotFound
       | Inr affected \<Rightarrow> if affected = 0 then raise_io NotFound else ret_io ()))"

section \<open>Service (auth_service.go)\<close>

definition generateSalt :: "string \<Rightarrow> string" where
  "generateSalt uuid = take 10 [c \<leftarrow> uuid. c \<noteq> CHR ''-'']"

definition createAccount :: "(string \<Rightarrow> string \<Rightarrow> string) \<Rightarrow> string \<Rightarrow> account \<Rightarrow> ('k, account) dbio" where
  "createAccount kdf uuid acc =
     (if a_username acc = [] then raise_io BadRequest
      else if a_password acc = [] then raise_io BadRequest
      else if a_namespace acc = [] then raise_io BadRequest
      else if a_roles acc = None then raise_io BadRequest
      else let salt = generateSalt uuid in
        then_io (SaveAccount (zero_account\<lparr>a_username := a_username acc, a_salt := salt, a_roles := a_roles acc,
                   a_password := kdf (a_password acc) salt, a_namespace := a_namespace acc\<rparr>))
          (ret_io acc))"

definition CreateUserAccount :: "(string \<Rightarrow> string \<Rightarrow> string) \<Rightarrow> string \<Rightarrow> client_account \<Rightarrow> ('k, bool) dbio" where
  "CreateUserAccount kdf uuid req = with_tx_ctx (
     let acc = zero_account\<lparr>a_username := ca_username req, a_password := ca_password req,
                 a_roles := ca_roles req, a_namespace := ca_namespace req\<rparr> in
     bind_io (wrap_io (dao_GetAccountByUsername (a_username acc))) (\<lambda>found.
       case found of
         Some f \<Rightarrow>
           if a_username acc = a_username f \<and> kdf (a_password acc) (a_salt f) = a_password f \<and>
              a_namespace acc = a_namespace f \<and> a_roles acc = a_roles f
           then ret_io False
           else then_io (createAccount kdf uuid acc) (ret_io True)
       | None \<Rightarrow> then_io (createAccount kdf uuid acc) (ret_io True)))"

definition DeleteUserAccount :: "string \<Rightarrow> ('k, unit) dbio" where
  "DeleteUserAccount username = DeleteAccount username"

definition IsFirstAccountManager :: "('k, bool) dbio" where
  "IsFirstAccountManager =
     bind_io (FindAccountByRoleAndNamespace ManagerRole ManagerAccountNamespace) (\<lambda>found. ret_io (length found = 0))"

definition createManagerAccount :: "(string \<Rightarrow> string \<Rightarrow> string) \<Rightarrow> string \<Rightarrow> manager_account \<Rightarrow> ('k, manager_account) dbio" where
  "createManagerAccount kdf uuid req =
     bind_io (createAccount kdf uuid (zero_account\<lparr>a_username := ma_username req, a_password := ma_password req,
                a_roles := Some [ManagerRole], a_namespace := ManagerAccountNamespace\<rparr>))
       (\<lambda>acc. ret_io \<lparr>ma_username = a_username acc, ma_password = a_password acc\<rparr>)"

definition CreateNewManager :: "(string \<Rightarrow> string \<Rightarrow> string) \<Rightarrow> string \<Rightarrow> manager_account \<Rightarrow> ('k, manager_account) dbio" where
  "CreateNewManager kdf uuid req = with_tx_ctx (
     bind_io (wrap_io (dao_GetAccountByUsername (ma_username req))) (\<lambda>found.
       case found of
         Some _ \<Rightarrow> raise_io Conflict
       | None \<Rightarrow> wrap_io (createManagerAccount kdf uuid req)))"

definition checkAccountPermissions :: "account \<Rightarrow> string \<Rightarrow> string list \<Rightarrow> ('k, account) dbio" where
  "checkAccountPermissions acc ns roles =
     then_io
       (if HasRoles acc [ManagerRole, BgOperatorRole] then ret_io ()
        else if ns = [] then raise_io BadRequest
        else if HasAccessToNamespace (Some acc) ns then ret_io ()
        else bind_io (attempt_io (FindByNamespace (a_namespace acc))) (\<lambda>res.
          case res of
            Inl e \<Rightarrow> raise_io AuthError
          | Inr None \<Rightarrow> raise_io AuthError
          | Inr (Some namespaces) \<Rightarrow> if \<not> IsMember namespaces ns then raise_io AuthError else ret_io ()))
       (if \<not> HasRoles acc roles then raise_io AuthError else ret_io acc)"

definition IsAccessGrantedWithBasic ::
    "(string \<Rightarrow> string \<Rightarrow> string) \<Rightarrow> string \<Rightarrow> string \<Rightarrow> string \<Rightarrow> string list \<Rightarrow> ('k, account) dbio" where
  "IsAccessGrantedWithBasic kdf username password ns roles =
     bind_io (wrap_io (dao_GetAccountByUsername username)) (\<lambda>found.
       case found of
         None \<Rightarrow> raise_io AuthError
       | Some acc \<Rightarrow>
           if kdf password (a_salt acc) \<noteq> a_password acc then raise_io AuthError
           else checkAccountPermissions acc ns roles)"

definition IsAccessGrantedWithToken :: "'t oidc \<Rightarrow> string \<Rightarrow> string list \<Rightarrow> ('k, account) dbio" where
  "IsAccessGrantedWithToken oidc rawToken roles =
     (case Verify oidc rawToken of
        Inl e \<Rightarrow> raise_io AuthError
      | Inr tok \<Rightarrow>
          (case ServiceAccountName oidc tok of
             Inl e \<Rightarrow> raise_io AuthError
           | Inr username \<Rightarrow>
               (case TokenNamespace oidc tok of
                  Inl e \<Rightarrow> raise_io AuthError
                | Inr ns \<Rightarrow> checkAccountPermissions
                    (zero_account\<lparr>a_username := username, a_roles := Some [AgentRole], a_namespace := ns\<rparr>) ns roles)))"

definition GetAllAccounts :: "('k, account list) dbio" where
  "GetAllAccounts = wrap_io dao_GetAllAccounts"

definition UpdateUserPassword :: "(string \<Rightarrow> string \<Rightarrow> string) \<Rightarrow> string \<Rightarrow> string \<Rightarrow> string \<Rightarrow> ('k, unit) dbio" where
  "UpdateUserPassword kdf uuid username password = with_tx_ctx (
     if password = [] then raise_io BadRequest
     else let salt = generateSalt uuid in wrap_io (dao_UpdateUserPassword username (kdf password salt) salt))"

definition GetAllowedNamespaces :: "string \<Rightarrow> ('k, string list) dbio" where
  "GetAllowedNamespaces ns =
     bind_io (wrap_io (GetByNamespace ns)) (\<lambda>compositeRegistration.
     bind_io (wrap_io (FindByNamespace ns)) (\<lambda>bgNamespaces.
       let allowed = (case compositeRegistration of None \<Rightarrow> [] | Some reg \<Rightarrow> g_namespaces reg)
       in ret_io (case bgNamespaces of
            Some b \<Rightarrow> allowed @ [n_origin b, n_peer b]
          | None \<Rightarrow> allowed @ [ns])))"

definition CheckSecurityForBoundNamespaces :: "string \<Rightarrow> classifier \<Rightarrow> ('k, unit) dbio" where
  "CheckSecurityForBoundNamespaces ns cl =
     bind_io (GetAllowedNamespaces ns) (\<lambda>namespaces. wrap_io (lift_io (CheckAllowedNamespaces cl namespaces)))"

definition CheckSecurityForSingleNamespace :: "string \<Rightarrow> classifier \<Rightarrow> ('k, unit) dbio" where
  "CheckSecurityForSingleNamespace ns cl = wrap_io (lift_io (CheckAllowedNamespaces cl [ns]))"

section \<open>What is granted\<close>

text \<open>
  What a routed \<open>First\<close> returns stands in the tables of the master or of the cache, or is the
  zero value of an unserved request.
\<close>

lemma sql_first_source:
  "sql_first q w = (r, w') \<Longrightarrow> tabs w' = tabs w \<and> cache w' = cache w \<and>
     (\<forall>a. r = Inr a \<longrightarrow> q (tabs w) = Some a \<or> (\<exists>c. cache w = Some c \<and> q c = Some a))"
  by (auto simp: sql_first_def bind_io_def sql_read_def Let_def kill_tx_def pop_fault_def
      split: list.splits option.splits if_splits)

lemma on_conn_first_source:
  "on_conn cn (sql_first q) w = (r, w') \<Longrightarrow> tabs w' = tabs w \<and> cache w' = cache w \<and>
     (\<forall>a. r = Inr a \<longrightarrow> q (tabs w) = Some a \<or> (\<exists>c. cache w = Some c \<and> q c = Some a))"
  by (auto simp: on_conn_def split: prod.splits dest!: sql_first_source)

lemma using_db_source:
  assumes run: "using_db z (sql_first q) w = (r, w')"
  shows "tabs w' = tabs w \<and> cache w' = cache w \<and>
    (\<forall>a. r = Inr a \<longrightarrow> a = z \<or> q (tabs w) = Some a \<or> (\<exists>c. cache w = Some c \<and> q c = Some a))"
proof -
  obtain r1 w1 where 1: "(if master_alive w then on_conn (tx_conn w) (sql_first q) w else (Inr z, w)) = (r1, w1)"
    by (metis surj_pair)
  have s1: "tabs w1 = tabs w \<and> cache w1 = cache w \<and>
      (\<forall>a. r1 = Inr a \<longrightarrow> a = z \<or> q (tabs w) = Some a \<or> (\<exists>c. cache w = Some c \<and> q c = Some a))"
    using 1 by (auto split: if_splits dest: on_conn_first_source)
  obtain r2 w2 where 2: "on_conn Cache (sql_first q) w1 = (r2, w2)" by (metis surj_pair)
  note s2 = on_conn_first_source [OF 2]
  from run 1 2 s1 s2 show ?thesis
    unfolding using_db_def by (auto split: if_splits sum.splits)
qed

definition sees :: "'k world \<Rightarrow> (tables \<Rightarrow> bool) \<Rightarrow> bool" where
  "sees w P \<longleftrightarrow> P (tabs w) \<or> (\<exists>c. cache w = Some c \<and> P c)"

lemma using_db_unserved:
  "\<not> master_alive w \<Longrightarrow> cache w = None \<Longrightarrow> using_db z m w = (Inr z, w)"
  by (simp add: using_db_def)

definition served :: "'k world \<Rightarrow> bool" where
  "served w \<longleftrightarrow> master_alive w \<or> cache w \<noteq> None"

lemma FindByNamespace_source:
  assumes "FindByNamespace ns w = (Inr (Some n), w')"
  shows "n = toValue zero_domain \<or> sees w (\<lambda>t. \<exists>d \<in> set (bg_domains t). domain_has ns d \<and> n = toValue d)"
proof -
  let ?q = "\<lambda>t. first_by d_id [r \<leftarrow> bg_domains t. domain_has ns r]"
  obtain d where d: "using_db zero_domain (sql_first ?q) w = (Inr d, w')" "n = toValue d"
    using assms unfolding FindByNamespace_def dao_FindByNamespace_def
    by (auto simp: bind_io_run attempt_io_run wrap_io_run split: prod.splits sum.splits if_splits option.splits)
  from using_db_source [OF d(1)]
  have "d = zero_domain \<or> ?q (tabs w) = Some d \<or> (\<exists>c. cache w = Some c \<and> ?q c = Some d)" by simp
  with d(2) show ?thesis by (fastforce simp: sees_def dest!: first_by_Some)
qed

text \<open>The permissions an account must have, over the tables a request can see.\<close>

definition reaches :: "'k world \<Rightarrow> account \<Rightarrow> string \<Rightarrow> bool" where
  "reaches w acc ns \<longleftrightarrow> HasRoles acc [ManagerRole, BgOperatorRole] \<or>
     ns \<noteq> [] \<and> (HasAccessToNamespace (Some acc) ns \<or>
       sees w (\<lambda>t. \<exists>d \<in> set (bg_domains t). domain_has (a_namespace acc) d \<and> IsMember (toValue d) ns))"

lemma checkAccountPermissions_sound:
  assumes "checkAccountPermissions acc ns roles w = (Inr a, w')"
  shows "a = acc \<and> HasRoles acc roles \<and> reaches w acc ns"
proof -
  have "ns \<noteq> [] \<Longrightarrow> \<not> IsMember (toValue zero_domain) ns"
    by (simp add: IsMember_def toValue_def zero_domain_def null_text_def)
  then show ?thesis
    using assms FindByNamespace_source [of "a_namespace acc" w]
    unfolding checkAccountPermissions_def reaches_def
    by (fastforce simp: then_io_run bind_io_run attempt_io_run sees_def
        split: if_splits sum.splits prod.splits option.splits)
qed

lemma granted_with_password:
  assumes "IsAccessGrantedWithBasic kdf username password ns roles w = (Inr acc, w')"
  shows "served w \<and> sees w (\<lambda>t. acc \<in> set (accounts t)) \<and> to_lower (a_username acc) = to_lower username \<and>
    kdf password (a_salt acc) = a_password acc \<and> HasRoles acc roles \<and> reaches w acc ns"
proof -
  obtain a w1 where a: "using_db zero_account (sql_first (find_account username)) w = (Inr a, w1)"
    and p: "kdf password (a_salt a) = a_password a" "checkAccountPermissions a ns roles w1 = (Inr acc, w')"
    using assms unfolding IsAccessGrantedWithBasic_def dao_GetAccountByUsername_def
    by (auto simp: bind_io_run attempt_io_run wrap_io_run split: prod.splits sum.splits if_splits option.splits)
  note s = using_db_source [OF a]
  note c = checkAccountPermissions_sound [OF p(2)]
  have nz: "acc \<noteq> zero_account" using c by (auto simp: HasRoles_def roles_of_def zero_account_def)
  then have "served w" using a c using_db_unserved [of w zero_account "sql_first (find_account username)"] by (auto simp: served_def)
  from nz s c have "sees w (\<lambda>t. find_account username t = Some acc)" by (auto simp: sees_def)
  moreover have "acc \<in> set (accounts t) \<and> to_lower (a_username acc) = to_lower username"
    if "find_account username t = Some acc" for t
    using first_by_Some [OF that [unfolded find_account_def]] by simp
  ultimately have "sees w (\<lambda>t. acc \<in> set (accounts t) \<and> to_lower (a_username acc) = to_lower username)"
    by (auto simp: sees_def)
  moreover have "reaches w acc ns" using c s by (simp add: reaches_def sees_def)
  ultimately show ?thesis using c p(1) \<open>served w\<close> by (auto simp: sees_def)
qed

text \<open>
  C6 Whatever fails and whichever database answers: a request that is granted with a name and a
  password was made for an account stored under that name (up to case) with a matching
  password, holds one of the roles asked for, and reaches the namespace by its role, by its own
  namespaces, or through a blue/green domain.  While the master is down and no cache was started, nothing is granted.
\<close>

theorem basic_access_sound:
  assumes "IsAccessGrantedWithBasic kdf username password ns roles w = (Inr acc, w')"
  shows "served w \<and> sees w (\<lambda>t. acc \<in> set (accounts t)) \<and> to_lower (a_username acc) = to_lower username \<and>
    kdf password (a_salt acc) = a_password acc \<and> HasRoles acc roles \<and> reaches w acc ns"
  by (rule granted_with_password [OF assms])


section \<open>Functional behaviour\<close>

lemma GetAccount_run [run_simps]:
  assumes "serves w"
  shows "dao_GetAccountByUsername u w =
    (if u = [] then (Inl BadRequest, w) else (Inr (find_account u (tabs w)), w))"
proof (cases "find_account u (tabs w)")
  case None
  then have "using_db zero_account (sql_first (find_account u)) w = (Inl RecordNotFound, w)"
    using assms by (intro using_db_Inl) (simp_all add: sql_first_serves serves_facts)
  with None show ?thesis by (simp add: dao_GetAccountByUsername_def bind_io_run attempt_io_run)
next
  case (Some a)
  then have "using_db zero_account (sql_first (find_account u)) w = (Inr a, w)"
    using assms by (intro using_db_Inr) (simp_all add: sql_first_serves serves_facts)
  with Some show ?thesis by (simp add: dao_GetAccountByUsername_def)
qed

lemma domain_Find_run [run_simps]:
  "serves w \<Longrightarrow> FindByNamespace ns w =
     (Inr (map_option toValue (first_by d_id [r \<leftarrow> bg_domains (tabs w). domain_has ns r])), w)"
  by (simp add: FindByNamespace_def FindByNamespace_run split: option.split)

definition domain_of :: "string \<Rightarrow> tables \<Rightarrow> bg_namespaces option" where
  "domain_of ns t = map_option toValue (first_by d_id [r \<leftarrow> bg_domains t. domain_has ns r])"

definition may_reach :: "tables \<Rightarrow> account \<Rightarrow> string \<Rightarrow> bool" where
  "may_reach t acc ns \<longleftrightarrow> HasAccessToNamespace (Some acc) ns \<or>
     (case domain_of (a_namespace acc) t of None \<Rightarrow> False | Some n \<Rightarrow> IsMember n ns)"

lemma checkAccountPermissions_run [run_simps]:
  assumes "serves w"
  shows "checkAccountPermissions acc ns roles w =
    (if \<not> HasRoles acc [ManagerRole, BgOperatorRole] \<and> ns = [] then Inl BadRequest
     else if (HasRoles acc [ManagerRole, BgOperatorRole] \<or> may_reach (tabs w) acc ns) \<and> HasRoles acc roles
     then Inr acc else Inl AuthError, w)"
  using assms
  by (simp add: checkAccountPermissions_def then_io_run bind_io_run attempt_io_run domain_Find_run may_reach_def domain_of_def
      split: option.split)

text \<open>
  C7 On a healthy database the answer to a request with a name and a password is determined by the
  stored account, its password, its namespaces and domain, and its roles, in this order.
\<close>

theorem basic_access_decision:
  assumes "healthy w"
  shows "IsAccessGrantedWithBasic kdf username password ns roles w =
    (case (if username = [] then None else find_account username (tabs w)) of
       None \<Rightarrow> Inl (if username = [] then BadRequest else AuthError)
     | Some acc \<Rightarrow>
         if kdf password (a_salt acc) \<noteq> a_password acc then Inl AuthError
         else if HasRoles acc [ManagerRole, BgOperatorRole] then
           (if HasRoles acc roles then Inr acc else Inl AuthError)
         else if ns = [] then Inl BadRequest
         else if may_reach (tabs w) acc ns \<and> HasRoles acc roles then Inr acc else Inl AuthError, w)"
  using assms
  by (simp add: IsAccessGrantedWithBasic_def wrap_io_run GetAccount_run bind_io_run checkAccountPermissions_run
      split: option.split)

section \<open>The table of accounts\<close>

text \<open>
  Distinct names; every account has a name, a namespace and roles, and its password is derived
  with its own salt.
\<close>

definition accounts_inv :: "(string \<Rightarrow> string \<Rightarrow> string) \<Rightarrow> tables \<Rightarrow> bool" where
  "accounts_inv kdf t \<longleftrightarrow> distinct (map a_username (accounts t)) \<and>
     (\<forall>a \<in> set (accounts t). a_username a \<noteq> [] \<and> a_namespace a \<noteq> [] \<and> a_roles a \<noteq> None \<and>
        (\<exists>p. p \<noteq> [] \<and> a_password a = kdf p (a_salt a)))"

lemma inv_insert_account:
  "accounts_inv kdf t \<Longrightarrow> insert_account a t = Inr (u, t') \<Longrightarrow> a_username a \<noteq> [] \<Longrightarrow> a_namespace a \<noteq> [] \<Longrightarrow>
   a_roles a \<noteq> None \<Longrightarrow> \<exists>p. p \<noteq> [] \<and> a_password a = kdf p (a_salt a) \<Longrightarrow> accounts_inv kdf t'"
  by (auto simp: accounts_inv_def insert_account_def split: if_splits; blast)

lemma inv_delete_account: "accounts_inv kdf t \<Longrightarrow> delete_account n t = Inr (u, t') \<Longrightarrow> accounts_inv kdf t'"
  by (auto simp: accounts_inv_def delete_account_def distinct_map_filter)

lemma inv_update_password:
  assumes "accounts_inv kdf t" "update_password n (kdf p s) s t = Inr (u, t')" "p \<noteq> []" "s \<noteq> []" "kdf p s \<noteq> []"
  shows "accounts_inv kdf t'"
proof -
  let ?f = "\<lambda>a. if a_username a = n then a\<lparr>a_salt := s, a_password := kdf p s\<rparr> else a"
  have t: "t' = t\<lparr>accounts := map ?f (accounts t)\<rparr>"
    using assms(2,4,5) by (auto simp: update_password_def split: if_splits)
  have "map a_username (map ?f (accounts t)) = map a_username (accounts t)" by simp
  then show ?thesis using assms(1,3) unfolding t accounts_inv_def by (auto simp del: map_map)
qed

lemma keeps_accounts [keeps_intros]:
  "keeps (all_tabs (accounts_inv kdf)) (dao_GetAccountByUsername n)" "keeps (all_tabs (accounts_inv kdf)) (DeleteAccount n)"
  unfolding dao_GetAccountByUsername_def DeleteAccount_def by (intro keeps_intros; erule inv_delete_account; assumption)+

lemma keeps_createAccount [keeps_intros]:
  "keeps (all_tabs (accounts_inv kdf)) (createAccount kdf uuid a)"
  unfolding createAccount_def SaveAccount_def Let_def
  by (intro keeps_intros; erule (1) inv_insert_account; auto simp: zero_account_def)

lemma keeps_auth:
  "keeps (all_tabs (accounts_inv kdf)) (CreateUserAccount kdf uuid req)"
  "keeps (all_tabs (accounts_inv kdf)) (CreateNewManager kdf uuid mreq)"
  "keeps (all_tabs (accounts_inv kdf)) (DeleteUserAccount n)"
  unfolding CreateUserAccount_def CreateNewManager_def createManagerAccount_def DeleteUserAccount_def Let_def
  by (intro keeps_intros)+

lemma keeps_update_password:
  assumes "\<And>p s. kdf p s \<noteq> []" "generateSalt uuid \<noteq> []"
  shows "keeps (all_tabs (accounts_inv kdf)) (UpdateUserPassword kdf uuid n p)"
  unfolding UpdateUserPassword_def dao_UpdateUserPassword_def Let_def
  by (intro keeps_intros; rule inv_update_password [where p = p and s = "generateSalt uuid"]) (use assms in auto)

lemma top_auth:
  "keeps (\<lambda>w. txc w = None) (CreateUserAccount kdf uuid req)" "keeps (\<lambda>w. txc w = None) (CreateNewManager kdf uuid mreq)"
  "keeps (\<lambda>w. txc w = None) (DeleteUserAccount n)" "keeps (\<lambda>w. txc w = None) (UpdateUserPassword kdf uuid n p)"
  unfolding CreateUserAccount_def CreateNewManager_def UpdateUserPassword_def DeleteUserAccount_def DeleteAccount_def
  by (intro keeps_intros)+

text \<open>Runs of the component: requests in any order, under any environment.\<close>

inductive auth_reachable :: "(string \<Rightarrow> string \<Rightarrow> string) \<Rightarrow> 'k world \<Rightarrow> bool" for kdf where
  auth_start: "auth_reachable kdf (mk_world empty_tables k)"
| auth_create: "auth_reachable kdf w \<Longrightarrow> CreateUserAccount kdf uuid req w = (b, w') \<Longrightarrow> auth_reachable kdf w'"
| auth_manager: "auth_reachable kdf w \<Longrightarrow> CreateNewManager kdf uuid mreq w = (m, w') \<Longrightarrow> auth_reachable kdf w'"
| auth_delete: "auth_reachable kdf w \<Longrightarrow> DeleteUserAccount n w = (u, w') \<Longrightarrow> auth_reachable kdf w'"
| auth_password: "auth_reachable kdf w \<Longrightarrow> generateSalt uuid \<noteq> [] \<Longrightarrow>
    UpdateUserPassword kdf uuid n p w = (u, w') \<Longrightarrow> auth_reachable kdf w'"
| auth_env: "auth_reachable kdf w \<Longrightarrow>
    auth_reachable kdf (w\<lparr>faults := fs, master_alive := a, cache := ca, dr_mode := dm, broker := k\<rparr>)"

lemma auth_reachable_inv:
  assumes kdf: "\<And>p s. kdf p s \<noteq> []" and "auth_reachable kdf w"
  shows "all_tabs (accounts_inv kdf) w \<and> txc w = None"
  using assms(2)
proof (induction rule: auth_reachable.induct)
  case (auth_start k)
  show ?case by (simp add: all_tabs_def committed_def accounts_inv_def empty_tables_def)
next
  case (auth_create w uuid req b w')
  show ?case by (rule top_inv [OF keeps_auth(1) top_auth(1) auth_create.IH auth_create.hyps(2)])
next
  case (auth_manager w uuid mreq m w')
  show ?case by (rule top_inv [OF keeps_auth(2) top_auth(2) auth_manager.IH auth_manager.hyps(2)])
next
  case (auth_delete w n u w')
  show ?case by (rule top_inv [OF keeps_auth(3) top_auth(3) auth_delete.IH auth_delete.hyps(2)])
next
  case (auth_password w uuid n p u w')
  show ?case by (rule top_inv [OF keeps_update_password [OF kdf auth_password.hyps(2)] top_auth(4) auth_password.IH auth_password.hyps(3)])
next
  case (auth_env w fs a ca dm k)
  then show ?case by (simp add: all_tabs_def committed_def)
qed

text \<open>
  C8 In every state the service can reach, whatever fails, no two accounts have the same name,
  every account has a namespace and roles, and no stored password is readable: it is derived
  from a non-empty password with the salt stored beside it.
\<close>

theorem accounts_well_formed:
  assumes "\<And>p s. kdf p s \<noteq> []" and "auth_reachable kdf w"
  shows "distinct (map a_username (accounts (tabs w))) \<and>
    (\<forall>a \<in> set (accounts (tabs w)). a_username a \<noteq> [] \<and> a_namespace a \<noteq> [] \<and> a_roles a \<noteq> None \<and>
       (\<exists>p. p \<noteq> [] \<and> a_password a = kdf p (a_salt a)))"
  using auth_reachable_inv [OF assms] by (simp add: all_tabs_def accounts_inv_def)

section \<open>Creation and login\<close>

definition stored_account :: "(string \<Rightarrow> string \<Rightarrow> string) \<Rightarrow> string \<Rightarrow> client_account \<Rightarrow> account" where
  "stored_account kdf uuid req = \<lparr>a_username = ca_username req, a_roles = ca_roles req, a_salt = generateSalt uuid,
     a_password = kdf (ca_password req) (generateSalt uuid), a_namespace = ca_namespace req, a_domain_namespaces = []\<rparr>"

definition complete_request :: "client_account \<Rightarrow> bool" where
  "complete_request req \<longleftrightarrow> ca_username req \<noteq> [] \<and> ca_password req \<noteq> [] \<and> ca_namespace req \<noteq> [] \<and>
     ca_roles req \<noteq> None \<and> length (ca_username req) \<le> 128 \<and> length (ca_namespace req) \<le> 64"

definition name_free :: "string \<Rightarrow> tables \<Rightarrow> bool" where
  "name_free n t \<longleftrightarrow> (\<forall>a \<in> set (accounts t). to_lower (a_username a) \<noteq> to_lower n)"

lemma find_account_added:
  "name_free (a_username a) t \<Longrightarrow> to_lower n = to_lower (a_username a) \<Longrightarrow>
     find_account n (t\<lparr>accounts := accounts t @ [a]\<rparr>) = Some a"
  by (auto simp: find_account_def name_free_def filter_empty_conv)

lemma find_account_free: "name_free n t \<Longrightarrow> find_account n t = None"
  by (auto simp: find_account_def name_free_def filter_empty_conv)

lemma in_open_ctx: "healthy w \<Longrightarrow> f (open_ctx w) = (r, open_ctx w\<lparr>tabs := t\<rparr>) \<Longrightarrow> with_tx_ctx f w = (r, w\<lparr>tabs := t\<rparr>)"
  by (cases w) (simp add: with_tx_ctx_open healthy_def tx_end_opened open_ctx_def tx_end_def del: state_serves)

lemma in_open_ctx_same: "healthy w \<Longrightarrow> f (open_ctx w) = (r, open_ctx w) \<Longrightarrow> with_tx_ctx f w = (r, w)"
  by (cases w) (simp add: with_tx_ctx_open healthy_def tx_end_opened open_ctx_def tx_end_def del: state_serves)

lemma SaveAccount_run [run_simps]:
  assumes "serves w" "account_fits a" "a_username a \<notin> a_username ` set (accounts (tabs w))"
  shows "SaveAccount a w = (Inr (), w\<lparr>tabs := (tabs w)\<lparr>accounts := accounts (tabs w) @ [a\<lparr>a_domain_namespaces := []\<rparr>]\<rparr>\<rparr>)"
proof -
  let ?t = "(tabs w)\<lparr>accounts := accounts (tabs w) @ [a\<lparr>a_domain_namespaces := []\<rparr>]\<rparr>"
  have "sql_write (insert_account a) w = (Inr (), w\<lparr>tabs := ?t\<rparr>)"
    using assms by (intro sql_write_serves) (simp_all add: insert_account_def deferred_ok_def)
  then have "using_db () (sql_write (insert_account a)) w = (Inr (), w\<lparr>tabs := ?t\<rparr>)"
    using assms by (intro using_db_Inr) (simp_all add: serves_facts)
  then show ?thesis by (simp add: SaveAccount_def)
qed

lemma createAccount_run [run_simps]:
  assumes "serves w" "complete_request req" "name_free (ca_username req) (tabs w)"
  shows "createAccount kdf uuid (zero_account\<lparr>a_username := ca_username req, a_password := ca_password req,
                 a_roles := ca_roles req, a_namespace := ca_namespace req\<rparr>) w =
    (Inr (zero_account\<lparr>a_username := ca_username req, a_password := ca_password req,
                 a_roles := ca_roles req, a_namespace := ca_namespace req\<rparr>),
     w\<lparr>tabs := (tabs w)\<lparr>accounts := accounts (tabs w) @ [stored_account kdf uuid req]\<rparr>\<rparr>)"
proof -
  have "account_fits (stored_account kdf uuid req)"
    using assms(2) by (simp add: account_fits_def stored_account_def complete_request_def generateSalt_def)
  moreover have "ca_username req \<notin> a_username ` set (accounts (tabs w))" using assms(3) by (auto simp: name_free_def)
  ultimately show ?thesis using assms(1,2) SaveAccount_run [of w "stored_account kdf uuid req"]
    by (auto simp: createAccount_def zero_account_def stored_account_def complete_request_def Let_def)
qed

lemma CreateUserAccount_new:
  assumes h: "healthy w" and "complete_request req" "name_free (ca_username req) (tabs w)"
  shows "CreateUserAccount kdf uuid req w =
    (Inr True, w\<lparr>tabs := (tabs w)\<lparr>accounts := accounts (tabs w) @ [stored_account kdf uuid req]\<rparr>\<rparr>)"
  unfolding CreateUserAccount_def
  by (rule in_open_ctx [OF h])
    (use assms in \<open>simp add: Let_def wrap_io_run GetAccount_run find_account_free complete_request_def bind_io_run
       createAccount_run then_io_run\<close>)

lemma CreateUserAccount_again:
  assumes h: "healthy w" and "complete_request req" and "find_account (ca_username req) (tabs w) = Some (stored_account kdf uuid req)"
  shows "CreateUserAccount kdf uuid' req w = (Inr False, w)"
  unfolding CreateUserAccount_def
  by (rule in_open_ctx_same [OF h])
    (use assms in \<open>simp add: Let_def wrap_io_run GetAccount_run complete_request_def bind_io_run stored_account_def zero_account_def\<close>)

text \<open>
  C9 A complete request for a free name creates an account with which, and only with whose
  password, one logs in under any spelling of the name; repeating the request finds it and changes nothing.
\<close>

theorem create_then_login:
  assumes "healthy w" "complete_request req" "name_free (ca_username req) (tabs w)"
    and n: "to_lower name = to_lower (ca_username req)" and role: "role \<in> set (the (ca_roles req))"
    and ns: "ns \<noteq> []" "ns \<in> set (split_on comma_char (ca_namespace req))"
  shows "\<exists>w'. CreateUserAccount kdf uuid req w = (Inr True, w') \<and>
    accounts (tabs w') = accounts (tabs w) @ [stored_account kdf uuid req] \<and>
    CreateUserAccount kdf uuid' req w' = (Inr False, w') \<and>
    (\<forall>pw. fst (IsAccessGrantedWithBasic kdf name pw ns [role] w') =
       (if kdf pw (generateSalt uuid) = kdf (ca_password req) (generateSalt uuid)
        then Inr (stored_account kdf uuid req) else Inl AuthError))"
proof (intro exI conjI allI)
  let ?a = "stored_account kdf uuid req" and ?w = "w\<lparr>tabs := (tabs w)\<lparr>accounts := accounts (tabs w) @ [stored_account kdf uuid req]\<rparr>\<rparr>"
  show "CreateUserAccount kdf uuid req w = (Inr True, ?w)" by (rule CreateUserAccount_new [OF assms(1-3)])
  show "accounts (tabs ?w) = accounts (tabs w) @ [?a]" by simp
  have a: "a_username ?a = ca_username req" by (simp add: stored_account_def)
  have f: "find_account m (tabs ?w) = Some ?a" if "to_lower m = to_lower (ca_username req)" for m
    using find_account_added [of ?a "tabs w" m] that assms(3) a by simp
  then show "CreateUserAccount kdf uuid' req ?w = (Inr False, ?w)"
    using assms(1,2) by (intro CreateUserAccount_again) simp_all
  fix pw
  have "name \<noteq> []" using n assms(2) by (auto simp: complete_request_def to_lower_def)
  moreover have "HasRoles ?a [role]" using role assms(2)
    by (auto simp: HasRoles_iff roles_of_def stored_account_def complete_request_def)
  moreover have "may_reach (tabs ?w) ?a ns"
    using ns by (simp add: may_reach_def HasAccessToNamespace_def GetNamespaces_def stored_account_def list_ex_iff)
  ultimately show "fst (IsAccessGrantedWithBasic kdf name pw ns [role] ?w) =
       (if kdf pw (generateSalt uuid) = kdf (ca_password req) (generateSalt uuid) then Inr ?a else Inl AuthError)"
    using assms(1) f [OF n] ns(1)
    by (simp add: IsAccessGrantedWithBasic_def wrap_io_run GetAccount_run bind_io_run checkAccountPermissions_run stored_account_def)
qed

definition demo_kdf :: "string \<Rightarrow> string \<Rightarrow> string" where
  "demo_kdf p s = s @ ''#'' @ p"

definition bob :: client_account where
  "bob = \<lparr>ca_username = ''Bob'', ca_password = ''secret'', ca_namespace = ''ns1,ns2'', ca_roles = Some [''agent'']\<rparr>"

definition accounts_world :: "unit world" where
  "accounts_world = mk_world empty_tables ()"

lemma bob_complete: "complete_request bob" "name_free (ca_username bob) (tabs accounts_world)"
  by (simp_all add: bob_def complete_request_def name_free_def accounts_world_def empty_tables_def)

theorem create_then_login_witness:
  "\<exists>w'. CreateUserAccount demo_kdf ''0123456789ab'' bob accounts_world = (Inr True, w') \<and>
     fst (IsAccessGrantedWithBasic demo_kdf ''BOB'' ''secret'' ''ns2'' [''agent''] w') = Inr (stored_account demo_kdf ''0123456789ab'' bob) \<and>
     fst (IsAccessGrantedWithBasic demo_kdf ''bob'' ''guess'' ''ns2'' [''agent''] w') = Inl AuthError"
proof -
  have h: "healthy accounts_world" by (simp add: accounts_world_def)
  have n: "to_lower ''BOB'' = to_lower (ca_username bob)" "to_lower ''bob'' = to_lower (ca_username bob)" by code_simp+
  have s: "''ns2'' \<in> set (split_on comma_char (ca_namespace bob))" by code_simp
  have r: "''agent'' \<in> set (the (ca_roles bob))" by (simp add: bob_def)
  have k: "demo_kdf ''guess'' s \<noteq> demo_kdf (ca_password bob) s" for s by (simp add: demo_kdf_def bob_def)
  note t = create_then_login [OF h bob_complete _ r _ s, where uuid = "''0123456789ab''" and kdf = demo_kdf]
  obtain w1 where 1: "CreateUserAccount demo_kdf ''0123456789ab'' bob accounts_world = (Inr True, w1)"
    and g: "\<And>pw. fst (IsAccessGrantedWithBasic demo_kdf ''BOB'' pw ''ns2'' [''agent''] w1) =
       (if demo_kdf pw (generateSalt ''0123456789ab'') = demo_kdf (ca_password bob) (generateSalt ''0123456789ab'')
        then Inr (stored_account demo_kdf ''0123456789ab'' bob) else Inl AuthError)"
    using t [OF n(1)] by blast
  obtain w2 where 2: "CreateUserAccount demo_kdf ''0123456789ab'' bob accounts_world = (Inr True, w2)"
    and d: "\<And>pw. fst (IsAccessGrantedWithBasic demo_kdf ''bob'' pw ''ns2'' [''agent''] w2) =
       (if demo_kdf pw (generateSalt ''0123456789ab'') = demo_kdf (ca_password bob) (generateSalt ''0123456789ab'')
        then Inr (stored_account demo_kdf ''0123456789ab'' bob) else Inl AuthError)"
    using t [OF n(2)] by blast
  have w: "w2 = w1" using 1 2 by simp
  have p: "ca_password bob = ''secret''" by (simp add: bob_def)
  from 1 g [of "''secret''"] d [of "''guess''"] w p k show ?thesis by auto
qed

text \<open>
  Names are looked up ignoring case but stored respecting it: with the accounts Bob and bob both
  created by accepted requests, the lookup always finds the first of them, and the owner of the
  other one cannot log in.
\<close>

lemma second_spelling_locked_out:
  "let other = bob\<lparr>ca_username := ''bob'', ca_password := ''other''\<rparr>;
       w1 = snd (CreateUserAccount demo_kdf ''0123456789ab'' bob accounts_world);
       w2 = snd (CreateUserAccount demo_kdf ''ba9876543210'' other w1)
   in fst (CreateUserAccount demo_kdf ''ba9876543210'' other w1) = Inr True \<and>
      fst (IsAccessGrantedWithBasic demo_kdf ''bob'' ''other'' ''ns1'' [''agent''] w2) = Inl AuthError \<and>
      fst (IsAccessGrantedWithBasic demo_kdf ''bob'' ''secret'' ''ns1'' [''agent''] w2) =
        Inr (stored_account demo_kdf ''0123456789ab'' bob)"
  by code_simp

section \<open>Namespaces of a request\<close>

text \<open>The members of the composite of a namespace, and its blue/green pair or itself.\<close>

definition composite_mates :: "string \<Rightarrow> tables \<Rightarrow> string list" where
  "composite_mates ns t = map cr_namespace
     [r \<leftarrow> composites t. list_ex (\<lambda>q. cr_namespace q = ns \<and> cr_base q = cr_base r) (composites t)]"

definition bound_namespaces :: "string \<Rightarrow> tables \<Rightarrow> string set" where
  "bound_namespaces ns t =
     set (composite_mates ns t) \<union>
     (case domain_of ns t of None \<Rightarrow> {ns} | Some n \<Rightarrow> {n_origin n, n_peer n})"

lemma composite_members:
  assumes "healthy w" "composite_inv (tabs w)"
  obtains reg where "GetByNamespace ns w = (Inr reg, w)"
    and "(case reg of None \<Rightarrow> {} | Some g \<Rightarrow> set (g_namespaces g)) =
      set (composite_mates ns (tabs w))"
proof (cases "\<exists>q \<in> set (composites (tabs w)). cr_namespace q = ns")
  case True
  then obtain q where q: "q \<in> set (composites (tabs w))" "cr_namespace q = ns" by blast
  have d: "distinct (map cr_namespace (composites (tabs w)))" using assms(2) by (simp add: composite_inv_def)
  have one: "p = q" if "p \<in> set (composites (tabs w))" "cr_namespace p = ns" for p
    using d q that by (auto simp: distinct_map dest: inj_onD)
  have run: "GetByNamespace ns w = GetByBaseline (cr_base q) w"
    using GetByNamespace_run [OF assms(1) q(1) d] q(2) by simp
  let ?rows = "composite_rows (cr_base q) (tabs w)"
  have "?rows \<noteq> []" using q(1) by (auto simp: composite_rows_def filter_empty_conv)
  with run have "GetByNamespace ns w =
      (Inr (Some \<lparr>g_id = cr_base q, g_namespaces = sort (map cr_namespace ?rows), g_modify_index = None\<rparr>), w)"
    by (simp add: GetByBaseline_run [OF assms(1)] Let_def)
  moreover have "[r \<leftarrow> composites (tabs w). list_ex (\<lambda>q. cr_namespace q = ns \<and> cr_base q = cr_base r) (composites (tabs w))] = ?rows"
    unfolding composite_rows_def list_ex_iff by (rule filter_cong [OF refl]) (metis one q)
  then have "set (sort (map cr_namespace ?rows)) = set (composite_mates ns (tabs w))"
    by (simp only: composite_mates_def set_sort)
  ultimately show ?thesis by (intro that) (assumption, simp)
next
  case False
  then have "find (\<lambda>r. cr_namespace r = ns) (composites (tabs w)) = None" by (simp add: find_None_iff)
  then have z: "rows_by_namespace ns (tabs w) = []" by (simp add: rows_by_namespace_def)
  have "using_db [] (sql_read q) w = (Inr (q (tabs w)), w)" for q :: "tables \<Rightarrow> composite_row list"
    using assms(1) by (intro using_db_Inr) (simp_all add: sql_read_serves serves_facts)
  then have "GetByNamespace ns w = (Inr None, w)" using z by (simp add: GetByNamespace_def)
  moreover have "composite_mates ns (tabs w) = []" using False by (auto simp: composite_mates_def list_ex_iff filter_empty_conv)
  ultimately show ?thesis by (intro that) (assumption, simp)
qed

text \<open>
  C10 On a healthy database a request may use a classifier exactly when the namespace of the
  classifier is a member of the request's composite or blue/green pair, or the request's own
  namespace when it is in no pair.
\<close>

theorem bound_namespaces_decision:
  assumes "healthy w" "composite_inv (tabs w)"
  shows "CheckSecurityForBoundNamespaces ns cl w =
    (if c_namespace cl \<in> bound_namespaces ns (tabs w) then Inr () else Inl AuthError, w)"
proof -
  obtain reg where r: "GetByNamespace ns w = (Inr reg, w)"
    and m: "(case reg of None \<Rightarrow> {} | Some g \<Rightarrow> set (g_namespaces g)) =
      set (composite_mates ns (tabs w))"
    using composite_members [OF assms] .
  let ?allowed = "(case reg of None \<Rightarrow> [] | Some g \<Rightarrow> g_namespaces g) @
     (case domain_of ns (tabs w) of None \<Rightarrow> [ns] | Some n \<Rightarrow> [n_origin n, n_peer n])"
  have "GetAllowedNamespaces ns w = (Inr ?allowed, w)"
    using assms(1) r domain_Find_run [of w ns, folded domain_of_def]
    by (simp add: GetAllowedNamespaces_def Let_def split: option.split)
  moreover have "?allowed \<noteq> []" by (simp split: option.split)
  moreover have "set ?allowed = bound_namespaces ns (tabs w)"
    unfolding bound_namespaces_def m [symmetric] by (simp split: option.split)
  ultimately show ?thesis
    by (simp add: CheckSecurityForBoundNamespaces_def wrap_io_run CheckAllowedNamespaces_def)
qed

theorem bound_namespaces_decision_witness:
  "fst (CheckSecurityForBoundNamespaces ''b'' \<lparr>c_name = ''t'', c_namespace = ''a'', c_tenant = []\<rparr> two_composites) = Inr () \<and>
   fst (CheckSecurityForBoundNamespaces ''b'' \<lparr>c_name = ''t'', c_namespace = ''z'', c_tenant = []\<rparr> two_composites) = Inl AuthError"
proof -
  have h: "healthy two_composites" by (simp add: two_composites_def)
  have i: "composite_inv (tabs two_composites)" by code_simp
  have "''a'' \<in> bound_namespaces ''b'' (tabs two_composites)" "''z'' \<notin> bound_namespaces ''b'' (tabs two_composites)"
    by code_simp+
  with bound_namespaces_decision [OF h i] show ?thesis by simp
qed

section \<open>Examples\<close>

definition login_world :: "unit world" where
  "login_world = snd (CreateUserAccount demo_kdf ''0123456789ab'' bob accounts_world)"

lemma login_reachable: "auth_reachable demo_kdf login_world"
  unfolding login_world_def accounts_world_def by (metis auth_start auth_create surjective_pairing)

theorem basic_access_sound_witness:
  "reaches login_world (stored_account demo_kdf ''0123456789ab'' bob) ''ns1''"
proof -
  obtain r w' where run: "IsAccessGrantedWithBasic demo_kdf ''bob'' ''secret'' ''ns1'' [''agent''] login_world = (r, w')"
    by (metis surj_pair)
  have "fst (IsAccessGrantedWithBasic demo_kdf ''bob'' ''secret'' ''ns1'' [''agent''] login_world) =
      Inr (stored_account demo_kdf ''0123456789ab'' bob)" by code_simp
  with run have "IsAccessGrantedWithBasic demo_kdf ''bob'' ''secret'' ''ns1'' [''agent''] login_world =
      (Inr (stored_account demo_kdf ''0123456789ab'' bob), w')" by simp
  from basic_access_sound [OF this] show ?thesis by blast
qed

theorem basic_access_decision_witness:
  "IsAccessGrantedWithBasic demo_kdf ''alice'' ''x'' ''ns1'' [''agent''] accounts_world = (Inl AuthError, accounts_world)"
proof -
  have "healthy accounts_world" by (simp add: accounts_world_def)
  moreover have "find_account ''alice'' (tabs accounts_world) = None" by code_simp
  ultimately show ?thesis by (simp add: basic_access_decision)
qed

theorem accounts_well_formed_witness:
  "\<exists>p. p \<noteq> [] \<and> a_password (stored_account demo_kdf ''0123456789ab'' bob) = demo_kdf p (a_salt (stored_account demo_kdf ''0123456789ab'' bob))"
proof -
  have k: "\<And>p s. demo_kdf p s \<noteq> []" by (simp add: demo_kdf_def)
  have "accounts (tabs login_world) = [stored_account demo_kdf ''0123456789ab'' bob]" by code_simp
  with accounts_well_formed [OF k login_reachable] show ?thesis by simp
qed

text \<open>A token grants what its service account may reach, with the role of an agent.\<close>

lemma token_access_sound:
  assumes "IsAccessGrantedWithToken oidc rawToken roles w = (Inr acc, w')"
  shows "\<exists>tok. Verify oidc rawToken = Inr tok \<and> ServiceAccountName oidc tok = Inr (a_username acc) \<and>
    TokenNamespace oidc tok = Inr (a_namespace acc) \<and> AgentRole \<in> set roles \<and> HasRoles acc roles \<and>
    reaches w acc (a_namespace acc)"
proof -
  obtain tok u ns where t: "Verify oidc rawToken = Inr tok" "ServiceAccountName oidc tok = Inr u" "TokenNamespace oidc tok = Inr ns"
    and c: "checkAccountPermissions (zero_account\<lparr>a_username := u, a_roles := Some [AgentRole], a_namespace := ns\<rparr>) ns roles w = (Inr acc, w')"
    using assms by (auto simp: IsAccessGrantedWithToken_def split: sum.splits)
  from checkAccountPermissions_sound [OF c] t show ?thesis by (auto simp: HasRoles_iff roles_of_def)
qed

end
