(* ===== verification/Maas_Kafka.thy ===== *)
theory Maas_Kafka
  imports Maas_Kafka_Dao Maas_Instance Maas_Auth
begin

text \<open>
  The Kafka service (service/kafka/kafka_service.go, prod_mode.go): resolution of names and
  instances, creation, lookup, synchronisation and deletion of topics, templates, definitions,
  and the steps of blue/green operations.

  The Kafka helper is an interface of the code, and its functions are parameters here: they see
  the state of the brokers and nothing else.  Request statistics are written by a goroutine of
  its own, outside the request, and are left out.
\<close>

record 'k kafka_helper =
  h_CreateTopic :: "topic \<Rightarrow> 'k \<Rightarrow> topic_dto outcome \<times> 'k"
  h_DeleteTopic :: "topic \<Rightarrow> 'k \<Rightarrow> unit outcome \<times> 'k"
  h_UpdateTopicSettings :: "topic_dto \<Rightarrow> 'k \<Rightarrow> topic_dto outcome \<times> 'k"
  h_GetTopicSettings :: "topic_dto \<Rightarrow> 'k \<Rightarrow> topic_dto outcome \<times> 'k"
  h_GetExistingTopics :: "kafka_instance option \<Rightarrow> string list \<Rightarrow> 'k \<Rightarrow> string list outcome \<times> 'k"
  h_DoesTopicExistOnKafka :: "kafka_instance option \<Rightarrow> string \<Rightarrow> 'k \<Rightarrow> bool outcome \<times> 'k"
  h_BulkGetTopicSettings :: "topic_dto list \<Rightarrow> 'k \<Rightarrow> topic_dto list outcome \<times> 'k"

definition on_broker :: "('k \<Rightarrow> 'a outcome \<times> 'k) \<Rightarrow> ('k, 'a) dbio" where
  "on_broker f w = (case f (broker w) of (r, k) \<Rightarrow> (r, w\<lparr>broker := k\<rparr>))"

text \<open>\<open>WithLock\<close> around a closure that assigns a variable of its caller, \<open>zero\<close> before it runs.\<close>

definition locked :: "'a \<Rightarrow> ('k, 'a) dbio \<Rightarrow> ('k, 'a) dbio" where
  "locked zero f = with_tx zero (then_io (wrap_io (sql_read (\<lambda>_. ()))) f)"

text \<open>An event is a \<open>pg_notify\<close> on the connection of the request.  Its error is only logged.\<close>

definition broadcast_created :: "('k, unit) dbio" where
  "broadcast_created = bind_io (attempt_io (wrap_io (using_db () (sql_read (\<lambda>_. ()))))) (\<lambda>_. ret_io ())"

datatype on_exists = Fail | Merge | OtherOnExists

section \<open>Names\<close>

text \<open>
  \<open>strings.NewReplacer\<close>: at each position the first of the pairs whose key stands there is
  replaced, and what was inserted is not looked at again.
\<close>

function replace_pairs :: "(string \<times> string) list \<Rightarrow> string \<Rightarrow> string" where
  "replace_pairs ps [] = []"
| "replace_pairs ps (c # cs) =
     (case find (\<lambda>(k, v). k \<noteq> [] \<and> has_prefix (c # cs) k) ps of
        None \<Rightarrow> c # replace_pairs ps cs
      | Some (k, v) \<Rightarrow> v @ replace_pairs ps (drop (length k) (c # cs)))"
  by pat_completeness auto

lemma replaced_key: "find (\<lambda>(k, v). k \<noteq> [] \<and> has_prefix s k) ps = Some (k, v) \<Longrightarrow> k \<noteq> [] \<and> has_prefix s k"
  by (auto simp: find_Some_iff)

termination replace_pairs
  by (relation "measure (\<lambda>(ps, s). length s)") (auto dest: replaced_key)

definition topic_placeholders :: "classifier \<Rightarrow> string \<Rightarrow> (string \<times> string) list" where
  "topic_placeholders cl ns =
     [(''{{name}}'', c_name cl), (''%name%'', c_name cl),
      (''{{tenantId}}'', c_tenant cl), (''%tenantId%'', c_tenant cl),
      (''{{namespace}}'', ns), (''%namespace%'', ns)]"

definition TopicLengthLimit :: nat where "TopicLengthLimit = 249"

definition default_pattern :: "string \<Rightarrow> string" where
  "default_pattern tenantId =
     (if tenantId \<noteq> [] then ''maas.{{namespace}}.{{tenantId}}.{{name}}'' else ''maas.{{namespace}}.{{name}}'')"

definition resolveTopicName :: "string \<Rightarrow> classifier \<Rightarrow> bool \<Rightarrow> ('k, string) dbio" where
  "resolveTopicName nameTemplate cl vers =
     bind_io (if vers then ret_io (c_namespace cl)
              else bind_io (wrap_io (FindByNamespace (c_namespace cl))) (\<lambda>found.
                ret_io (case found of None \<Rightarrow> c_namespace cl | Some bg \<Rightarrow> n_origin bg))) (\<lambda>ns.
     let topicName = replace_pairs (topic_placeholders cl ns)
           (if nameTemplate = [] then default_pattern (c_tenant cl) else nameTemplate) in
     if length topicName > TopicLengthLimit then raise_io Generic else ret_io topicName)"

section \<open>Instances\<close>

definition default_kafka :: "('k, kafka_instance) dbio" where
  "default_kafka = bind_io (wrap_io k_GetDefault) (\<lambda>found.
     case found of None \<Rightarrow> raise_io Conflict | Some i \<Rightarrow> ret_io i)"

text \<open>An instance a request names excludes designators; without either the default is used.\<close>

definition resolveKafkaInstance :: "classifier \<Rightarrow> string \<Rightarrow> string \<Rightarrow> ('k, kafka_instance option) dbio" where
  "resolveKafkaInstance cl reqInstance ns =
     bind_io (GetKafkaInstanceDesignatorByNamespace ns) (\<lambda>designator.
       case designator of
         Some d \<Rightarrow>
           if reqInstance \<noteq> [] then raise_io Conflict
           else bind_io (MatchDesignator cl d) (\<lambda>(matched, _).
             let inst = (if matched = None \<and> de_default_id d \<noteq> None then de_default d else matched) in
             case inst of
               None \<Rightarrow> bind_io default_kafka (\<lambda>i. ret_io (Some i))
             | Some i \<Rightarrow> ret_io (Some i))
       | None \<Rightarrow>
           if reqInstance \<noteq> [] then wrap_io (k_GetById reqInstance)
           else bind_io default_kafka (\<lambda>i. ret_io (Some i)))"

definition setDefaultInstanceIfNeeded :: "topic \<Rightarrow> ('k, topic) dbio" where
  "setDefaultInstanceIfNeeded t =
     (if t_instance t = []
      then bind_io (wrap_io k_GetDefault) (\<lambda>found.
        case found of
          None \<Rightarrow> raise_io NotFound
        | Some i \<Rightarrow> ret_io (t\<lparr>t_instance := ki_id i, t_instance_ref := Some i\<rparr>))
      else ret_io t)"

section \<open>Lookup\<close>

definition no_search :: topic_search where
  "no_search = \<lparr>ts_classifier = \<lparr>c_name = [], c_namespace = [], c_tenant = []\<rparr>, ts_topic = [], ts_namespace = [],
     ts_instance = [], ts_template = 0, ts_leave_intact = False, ts_versioned = None\<rparr>"

definition getTopicByClassifier :: "classifier \<Rightarrow> ('k, topic option) dbio" where
  "getTopicByClassifier cl =
     bind_io (wrap_io (FindTopicsBySearchRequest (no_search\<lparr>ts_classifier := cl\<rparr>))) (\<lambda>found.
       case found of
         [] \<Rightarrow> ret_io None
       | t # _ \<Rightarrow> bind_io (wrap_io (k_GetById (t_instance t))) (\<lambda>inst. ret_io (Some (t\<lparr>t_instance_ref := inst\<rparr>))))"

text \<open>Instances are read once each; the list holds what was read.\<close>

primrec with_instances :: "(string \<times> kafka_instance option) list \<Rightarrow> topic list \<Rightarrow> ('k, topic list) dbio" where
  "with_instances known [] = ret_io []"
| "with_instances known (t # ts) =
     bind_io (case map_of known (t_instance t) of
                Some inst \<Rightarrow> ret_io inst
              | None \<Rightarrow> wrap_io (k_GetById (t_instance t))) (\<lambda>inst.
     bind_io (with_instances ((t_instance t, inst) # known) ts) (\<lambda>us. ret_io (t\<lparr>t_instance_ref := inst\<rparr> # us)))"

definition SearchTopicsInDB :: "topic_search \<Rightarrow> ('k, topic list) dbio" where
  "SearchTopicsInDB s =
     (if search_IsEmpty s then raise_io EmptySearchCriteria
      else bind_io (wrap_io (FindTopicsBySearchRequest s)) (\<lambda>found. with_instances [] found))"

definition SearchTopics :: "'k kafka_helper \<Rightarrow> topic_search \<Rightarrow> ('k, topic_dto list) dbio" where
  "SearchTopics h s =
     bind_io (SearchTopicsInDB s) (\<lambda>found.
       if found = [] then ret_io []
       else bind_io (map_io (\<lambda>t. lift_io (ToResponseDto t)) found) (\<lambda>dtos.
         wrap_io (on_broker (h_BulkGetTopicSettings h dtos))))"

text \<open>
  The check of a request against the namespaces it may reach, unless isolation is disabled; the
  namespace of the request is read from its context, which panics when there is none.
\<close>

definition check_access :: "ctx \<Rightarrow> (string \<Rightarrow> classifier \<Rightarrow> ('k, unit) dbio) \<Rightarrow> classifier \<Rightarrow> ('k, unit) dbio" where
  "check_access c auth cl =
     (if IsCompositeIsolationDisabled (ctx_security c) then ret_io ()
      else bind_io (deref_io (ctx_request c)) (\<lambda>rc. wrap_io (auth (rc_namespace rc) cl)))"

definition GetTopicByClassifier :: "'k kafka_helper \<Rightarrow> ctx \<Rightarrow> classifier \<Rightarrow> ('k, topic_dto option) dbio" where
  "GetTopicByClassifier h c cl =
     then_io (check_access c CheckSecurityForBoundNamespaces cl)
     (bind_io (getTopicByClassifier cl) (\<lambda>found.
       case found of
         None \<Rightarrow> ret_io None
       | Some t \<Rightarrow>
           bind_io (lift_io (ToResponseDto t)) (\<lambda>dto.
           bind_io (on_broker (h_GetTopicSettings h dto)) (\<lambda>result. ret_io (Some result)))))"

definition GetTopicByClassifierWithBgDomain :: "'k kafka_helper \<Rightarrow> ctx \<Rightarrow> classifier \<Rightarrow> ('k, topic_dto option) dbio" where
  "GetTopicByClassifierWithBgDomain h c cl =
     bind_io (wrap_io (FindByNamespace (c_namespace cl))) (\<lambda>found.
       GetTopicByClassifier h c (case found of
           None \<Rightarrow> cl
         | Some bg \<Rightarrow> if c_namespace cl = n_controller bg then cl\<lparr>c_namespace := n_origin bg\<rparr> else cl))"

section \<open>Creation\<close>

definition updateSettings :: "'k kafka_helper \<Rightarrow> topic \<Rightarrow> topic_settings \<Rightarrow> ('k, topic_dto) dbio" where
  "updateSettings h existing new =
     (if \<not> IsEmpty (num_partitions new) \<and> \<not> IsEmpty (min_num_partitions new) then raise_io BadRequest
      else let changed = existing\<lparr>t_settings := new\<rparr> in
        bind_io (lift_io (ToResponseDto changed)) (\<lambda>dto.
          UpdateTopicRegistration dto changed (\<lambda>reg. on_broker (h_UpdateTopicSettings h dto))))"

definition updateTopicSettingsIfNeeded :: "'k kafka_helper \<Rightarrow> topic \<Rightarrow> topic \<Rightarrow> ('k, topic_dto) dbio" where
  "updateTopicSettingsIfNeeded h existing new =
     (if SettingsAreEqual existing new
      then bind_io (lift_io (ToResponseDto existing)) (\<lambda>dto. on_broker (h_GetTopicSettings h dto))
      else updateSettings h (existing\<lparr>t_template := t_template new, t_create_req := t_create_req new\<rparr>) (t_settings new))"

text \<open>
  A topic the broker already has: merged into the registrations, or refused.
\<close>

definition merge_existing :: "'k kafka_helper \<Rightarrow> topic \<Rightarrow> on_exists \<Rightarrow> topic list \<Rightarrow> ('k, topic_dto option) dbio" where
  "merge_existing h t onExists byName =
     (case onExists of
        Merge \<Rightarrow>
          bind_io (map_err_io (\<lambda>e. if e = TopicAlreadyExists \<and> byName \<noteq> [] then Conflict else e)
            (InsertTopicRegistration t (\<lambda>reg.
               bind_io (lift_io (ToResponseDto reg)) (\<lambda>dto.
               bind_io (on_broker (h_UpdateTopicSettings h dto)) (\<lambda>d. ret_io (Some d)))))) (\<lambda>created.
          then_io (deref_io created) (then_io broadcast_created (ret_io created)))
      | Fail \<Rightarrow> raise_io Conflict
      | OtherOnExists \<Rightarrow> raise_io BadRequest)"

definition create_missing :: "'k kafka_helper \<Rightarrow> topic \<Rightarrow> ('k, topic_dto option) dbio" where
  "create_missing h t =
     then_io (lift_io (ValidateClassifier (t_classifier t)))
     (bind_io (InsertTopicRegistration t (\<lambda>reg.
          bind_io (on_broker (h_CreateTopic h reg)) (\<lambda>d. ret_io (Some d)))) (\<lambda>created.
        then_io broadcast_created (ret_io created)))"

text \<open>
  The closure run under the lock of the classifier.  It returns whether the topic was there and
  the answer.
\<close>

definition register_topic :: "'k kafka_helper \<Rightarrow> on_exists \<Rightarrow> bool \<Rightarrow> topic \<Rightarrow> ('k, bool \<times> topic_dto option) dbio" where
  "register_topic h onExists existed topic =
     bind_io (wrap_io (setDefaultInstanceIfNeeded topic)) (\<lambda>t.
     bind_io (wrap_io (on_broker (h_DoesTopicExistOnKafka h (t_instance_ref t) (t_topic t)))) (\<lambda>onKafka.
     bind_io (wrap_io (SearchTopicsInDB (no_search\<lparr>ts_namespace := c_namespace (t_classifier t), ts_topic := t_topic t\<rparr>))) (\<lambda>byName.
     if onKafka \<and> \<not> t_externally_managed t then
       bind_io (merge_existing h t onExists byName) (\<lambda>dto. ret_io (False, dto))
     else if \<not> onKafka \<and> t_externally_managed t then raise_io Gone
     else if onKafka \<and> t_externally_managed t \<and> existed then
       bind_io (lift_io (ToResponseDto t)) (\<lambda>dto. ret_io (False, Some dto))
     else bind_io (create_missing h t) (\<lambda>dto. ret_io (False, dto)))))"

definition get_or_create_body :: "'k kafka_helper \<Rightarrow> on_exists \<Rightarrow> topic \<Rightarrow> ('k, bool \<times> topic_dto option) dbio" where
  "get_or_create_body h onExists topic =
     bind_io (wrap_io (getTopicByClassifier (t_classifier topic))) (\<lambda>existing.
       case existing of
         Some x \<Rightarrow>
           if \<not> t_externally_managed topic then
             (if t_instance topic = [] \<or> t_instance topic = t_instance x
              then bind_io (updateTopicSettingsIfNeeded h x topic) (\<lambda>dto. ret_io (True, Some dto))
              else raise_io BadRequest)
           else register_topic h onExists True topic
       | None \<Rightarrow> register_topic h onExists False topic)"

text \<open>
  The name of the template is filled in after the transaction.  (When the commit itself fails
  the code looks the name up as well; that request fails either way.)
\<close>

definition fill_template :: "topic \<Rightarrow> bool \<times> topic_dto option \<Rightarrow> ('k, bool \<times> topic_dto option) dbio" where
  "fill_template topic res =
     (case res of
        (found, Some dto) \<Rightarrow>
          (case t_template topic of
             Some n \<Rightarrow>
               if td_template dto = []
               then bind_io (FindTopicTemplateById n) (\<lambda>x. ret_io (found, Some (dto\<lparr>td_template := tt_name x\<rparr>)))
               else ret_io res
           | None \<Rightarrow> ret_io res)
      | _ \<Rightarrow> ret_io res)"

definition GetOrCreateTopicWithAuth ::
    "'k kafka_helper \<Rightarrow> ctx \<Rightarrow> topic \<Rightarrow> on_exists \<Rightarrow> (string \<Rightarrow> classifier \<Rightarrow> ('k, unit) dbio) \<Rightarrow> ('k, bool \<times> topic_dto option) dbio" where
  "GetOrCreateTopicWithAuth h c topic onExists auth =
     then_io (check_access c auth (t_classifier topic))
     (bind_io (wrap_io (resolveTopicName (t_topic topic) (t_classifier topic) (versioned (t_settings topic)))) (\<lambda>name.
      bind_io (wrap_io (resolveKafkaInstance (t_classifier topic) (t_instance topic) (c_namespace (t_classifier topic)))) (\<lambda>inst.
      case inst of
        None \<Rightarrow> raise_io BadRequest
      | Some i \<Rightarrow>
          bind_io (locked (False, None)
            (get_or_create_body h onExists (topic\<lparr>t_topic := name, t_instance := ki_id i, t_instance_ref := Some i\<rparr>)))
            (fill_template topic))))"

definition GetOrCreateTopic :: "'k kafka_helper \<Rightarrow> ctx \<Rightarrow> topic \<Rightarrow> on_exists \<Rightarrow> ('k, bool \<times> topic_dto option) dbio" where
  "GetOrCreateTopic h c topic onExists = GetOrCreateTopicWithAuth h c topic onExists CheckSecurityForBoundNamespaces"

section \<open>Deletion\<close>

definition DeleteTopic :: "'k kafka_helper \<Rightarrow> topic \<Rightarrow> bool \<Rightarrow> ('k, unit) dbio" where
  "DeleteTopic h t leaveRealTopicIntact =
     DeleteTopicRegistration t (\<lambda>reg. if \<not> leaveRealTopicIntact then on_broker (h_DeleteTopic h t) else ret_io ())"

record deletion_resp =
  dr_deleted :: "topic_dto list"
  dr_failed :: "(topic_dto \<times> err) list"

text \<open>Each topic in a transaction of its own, unless the caller has opened one.\<close>

primrec delete_each :: "'k kafka_helper \<Rightarrow> bool \<Rightarrow> topic list \<Rightarrow> deletion_resp \<Rightarrow> ('k, deletion_resp) dbio" where
  "delete_each h leave [] resp = ret_io resp"
| "delete_each h leave (t # ts) resp =
     bind_io (attempt_io (DeleteTopic h t leave)) (\<lambda>res.
     bind_io (lift_io (ToResponseDto t)) (\<lambda>dto.
       delete_each h leave ts (case res of
           Inl e \<Rightarrow> resp\<lparr>dr_failed := dr_failed resp @ [(dto, e)]\<rparr>
         | Inr _ \<Rightarrow> resp\<lparr>dr_deleted := dr_deleted resp @ [dto]\<rparr>)))"

definition DeleteTopics :: "'k kafka_helper \<Rightarrow> topic_search \<Rightarrow> ('k, deletion_resp) dbio" where
  "DeleteTopics h s =
     bind_io (SearchTopicsInDB s) (\<lambda>found. delete_each h (ts_leave_intact s) found \<lparr>dr_deleted = [], dr_failed = []\<rparr>)"

definition kafka_CleanupNamespace :: "'k kafka_helper \<Rightarrow> string \<Rightarrow> ('k, unit) dbio" where
  "kafka_CleanupNamespace h ns =
     bind_io (wrap_io (DeleteTopics h (no_search\<lparr>ts_namespace := ns\<rparr>))) (\<lambda>resp.
       if length (dr_failed resp) > 0 then raise_io Generic
       else then_io (wrap_io (DeleteTopicTemplatesByNamespace ns))
           (then_io (wrap_io (DeleteTopicDefinitionsByNamespace ns))
             (wrap_io (DeleteKafkaInstanceDesignatorByNamespace ns))))"

section \<open>Synchronisation with the brokers\<close>

datatype sync_status = SyncExists | SyncAdded | SyncError err | SyncNotFound

record sync_report =
  sr_name :: string
  sr_classifier :: classifier
  sr_status :: sync_status

definition newKafkaTopicSyncReport :: "topic \<Rightarrow> sync_status \<Rightarrow> sync_report" where
  "newKafkaTopicSyncReport t st = \<lparr>sr_name = t_topic t, sr_classifier = t_classifier t, sr_status = st\<rparr>"

text \<open>One step of the loop: whatever fails for a topic is its entry of the report.\<close>

definition sync_topic :: "'k kafka_helper \<Rightarrow> topic \<Rightarrow> ('k, sync_status) dbio" where
  "sync_topic h t =
     bind_io (attempt_io
       (bind_io (k_GetById (t_instance t)) (\<lambda>inst.
        bind_io (on_broker (h_DoesTopicExistOnKafka h inst (t_topic t))) (\<lambda>onKafka.
          if \<not> onKafka
          then then_io (on_broker (h_CreateTopic h (t\<lparr>t_instance_ref := inst\<rparr>))) (ret_io SyncAdded)
          else ret_io SyncExists)))) (\<lambda>res.
       ret_io (case res of Inl e \<Rightarrow> SyncError e | Inr st \<Rightarrow> st))"

definition SyncAllTopicsToKafka :: "'k kafka_helper \<Rightarrow> string \<Rightarrow> ('k, sync_report list) dbio" where
  "SyncAllTopicsToKafka h ns =
     bind_io (FindTopicsBySearchRequest (no_search\<lparr>ts_namespace := ns\<rparr>)) (\<lambda>found.
       map_io (\<lambda>t. bind_io (sync_topic h t) (\<lambda>st. ret_io (newKafkaTopicSyncReport t st))) found)"

definition SyncTopicToKafka :: "'k kafka_helper \<Rightarrow> ctx \<Rightarrow> classifier \<Rightarrow> ('k, sync_report) dbio" where
  "SyncTopicToKafka h c cl =
     bind_io (deref_io (ctx_request c)) (\<lambda>rc.
     then_io (CheckSecurityForSingleNamespace (rc_namespace rc) cl)
     (bind_io (FindTopicsBySearchRequest (no_search\<lparr>ts_classifier := cl\<rparr>)) (\<lambda>found.
       if length found > 1 then raise_io Generic
       else case found of
         [] \<Rightarrow> ret_io \<lparr>sr_name = [], sr_classifier = cl, sr_status = SyncNotFound\<rparr>
       | t # _ \<Rightarrow>
           bind_io (wrap_io (k_GetById (t_instance t))) (\<lambda>inst.
           bind_io (wrap_io (on_broker (h_DoesTopicExistOnKafka h inst (t_topic t)))) (\<lambda>onKafka.
             if onKafka then ret_io (newKafkaTopicSyncReport t SyncExists)
             else then_io (wrap_io (on_broker (h_CreateTopic h (t\<lparr>t_instance_ref := inst\<rparr>))))
                    (ret_io (newKafkaTopicSyncReport t SyncAdded)))))))"

datatype discrepancy_status = StatusOk | StatusAbsent

record discrepancy_item =
  di_name :: string
  di_classifier :: classifier
  di_status :: discrepancy_status

text \<open>
  The topics of each instance are asked for in one call.  The code walks over a map of the
  instances, in no particular order; the model takes them in the order of their first topic.
\<close>

primrec existing_by_instance :: "'k kafka_helper \<Rightarrow> topic list \<Rightarrow> string list \<Rightarrow> ('k, (string \<times> string list) list) dbio" where
  "existing_by_instance h ts [] = ret_io []"
| "existing_by_instance h ts (i # is) =
     (let group = [t \<leftarrow> ts. t_instance t = i] in
      bind_io (on_broker (h_GetExistingTopics h (t_instance_ref (hd group)) (map t_topic group))) (\<lambda>there.
      bind_io (existing_by_instance h ts is) (\<lambda>rest. ret_io ((i, there) # rest))))"

definition first_instances :: "topic list \<Rightarrow> string list" where
  "first_instances ts = rev (remdups (rev (map t_instance ts)))"

definition filterItems :: "discrepancy_item list \<Rightarrow> (discrepancy_item \<Rightarrow> bool) option \<Rightarrow> discrepancy_item list" where
  "filterItems items fits = (case fits of None \<Rightarrow> items | Some f \<Rightarrow> filter f items)"

definition GetDiscrepancyReport ::
    "'k kafka_helper \<Rightarrow> string \<Rightarrow> (discrepancy_item \<Rightarrow> bool) option \<Rightarrow> ('k, discrepancy_item list) dbio" where
  "GetDiscrepancyReport h ns fits =
     bind_io (SearchTopicsInDB (no_search\<lparr>ts_namespace := ns\<rparr>)) (\<lambda>ts.
     bind_io (existing_by_instance h ts (first_instances ts)) (\<lambda>there.
       let items = map (\<lambda>t. \<lparr>di_name = t_topic t, di_classifier = t_classifier t,
             di_status = (if t_topic t \<in> set (case map_of there (t_instance t) of None \<Rightarrow> [] | Some xs \<Rightarrow> xs)
                          then StatusOk else StatusAbsent)\<rparr>) ts
       in ret_io (filterItems items fits)))"

section \<open>Templates\<close>

definition CreateTopicTemplate :: "topic_template \<Rightarrow> ('k, topic_template) dbio" where
  "CreateTopicTemplate x = InsertTopicTemplate x"

definition MakeTopicsDirtyByTemplate :: "topic_template \<Rightarrow> ('k, unit) dbio" where
  "MakeTopicsDirtyByTemplate x = dao_MakeTopicsDirtyByTemplate x"

definition UpdateTopicSettingsByTemplate :: "'k kafka_helper \<Rightarrow> topic \<Rightarrow> topic_template \<Rightarrow> ('k, topic_dto) dbio" where
  "UpdateTopicSettingsByTemplate h existing x = updateSettings h (existing\<lparr>t_dirty := False\<rparr>) (tt_settings x)"

definition UpdateTopicTemplate :: "topic_template \<Rightarrow> topic_settings \<Rightarrow> ('k, unit) dbio" where
  "UpdateTopicTemplate x new = dao_UpdateTopicTemplate (x\<lparr>tt_settings := SetSettings (tt_settings x) new\<rparr>)"

definition GetTopicTemplateByName :: "string \<Rightarrow> string \<Rightarrow> ('k, topic_template option) dbio" where
  "GetTopicTemplateByName name ns = wrap_io (FindTopicTemplateByNameAndNamespace name ns)"

definition GetKafkaTopicTemplatesByNamespace :: "string \<Rightarrow> ('k, topic_template list) dbio" where
  "GetKafkaTopicTemplatesByNamespace ns = wrap_io (FindAllTopicTemplatesByNamespace ns)"

definition DeleteTopicTemplate :: "string \<Rightarrow> string \<Rightarrow> ('k, topic_template option) dbio" where
  "DeleteTopicTemplate name ns =
     bind_io (FindTopicTemplateByNameAndNamespace name ns) (\<lambda>found.
       case found of
         None \<Rightarrow> ret_io None
       | Some x \<Rightarrow> then_io (dao_DeleteTopicTemplate x) (ret_io (Some x)))"

section \<open>Definitions of lazy and tenant topics\<close>

definition update_definition :: "topic_definition \<Rightarrow> topic_definition \<Rightarrow> topic_definition" where
  "update_definition fresh d = fresh\<lparr>df_num_partitions := df_num_partitions d,
     df_min_num_partitions := df_min_num_partitions d, df_replication_factor := df_replication_factor d,
     df_replica_assignment := df_replica_assignment d, df_configs := df_configs d, df_template := df_template d\<rparr>"

definition GetOrCreateTopicDefinition :: "ctx \<Rightarrow> topic_definition \<Rightarrow> ('k, bool \<times> topic_definition) dbio" where
  "GetOrCreateTopicDefinition c d =
     then_io (lift_io (ValidateClassifier (df_classifier d)))
     (bind_io (wrap_io (FindTopicDefinitions
         \<lparr>ds_classifier = Some (df_classifier d), ds_namespace = [], ds_kind = df_kind d\<rparr>)) (\<lambda>found.
       case found of
         [fresh] \<Rightarrow>
           let changed = update_definition fresh d in
           then_io (wrap_io (dao_UpdateTopicDefinition changed)) (ret_io (True, changed))
       | _ \<Rightarrow>
           bind_io (deref_io (ctx_request c)) (\<lambda>rc.
           then_io (wrap_io (lift_io (CheckAllowedNamespaces (df_classifier d) [rc_namespace rc])))
           (bind_io (InsertTopicDefinition d) (\<lambda>created. ret_io (False, created))))))"

definition GetTopicDefinitionsByNamespaceAndKind :: "string \<Rightarrow> string \<Rightarrow> ('k, topic_definition list) dbio" where
  "GetTopicDefinitionsByNamespaceAndKind ns kind =
     wrap_io (FindTopicDefinitions \<lparr>ds_classifier = None, ds_namespace = ns, ds_kind = kind\<rparr>)"

definition DeleteTopicDefinition :: "classifier \<Rightarrow> ('k, topic_definition) dbio" where
  "DeleteTopicDefinition cl = wrap_io (dao_DeleteTopicDefinition cl)"

text \<open>
  The loop that picks the definitions a classifier is made from.  Without a domain every
  namespace passes; the query has restricted it already.
\<close>

primrec compatible_definitions :: "classifier \<Rightarrow> topic_definition list \<Rightarrow> ('k, topic_definition list) dbio" where
  "compatible_definitions cl [] = ret_io []"
| "compatible_definitions cl (d # ds) =
     (let dc = df_classifier d in
      if c_name dc \<noteq> [] \<and> c_name dc \<noteq> c_name cl then compatible_definitions cl ds
      else bind_io (wrap_io (FindByNamespace (c_namespace dc))) (\<lambda>bg.
        if c_namespace dc \<noteq> [] \<and>
           (case bg of None \<Rightarrow> False | Some b \<Rightarrow> c_namespace cl \<noteq> n_origin b \<and> c_namespace cl \<noteq> n_peer b)
        then compatible_definitions cl ds
        else if c_tenant dc \<noteq> [] \<and> c_tenant dc \<noteq> c_tenant cl then compatible_definitions cl ds
        else bind_io (compatible_definitions cl ds) (\<lambda>rest. ret_io (d # rest))))"

definition GetOrCreateLazyTopic :: "'k kafka_helper \<Rightarrow> ctx \<Rightarrow> classifier \<Rightarrow> on_exists \<Rightarrow> ('k, bool \<times> topic_dto option) dbio" where
  "GetOrCreateLazyTopic h c cl onExists =
     bind_io (deref_io (ctx_request c)) (\<lambda>rc.
     then_io (CheckSecurityForBoundNamespaces (rc_namespace rc) cl)
     (bind_io (GetTopicDefinitionsByNamespaceAndKind (c_namespace cl) TopicDefinitionKindLazy) (\<lambda>lazy.
      bind_io (compatible_definitions cl lazy) (\<lambda>fits.
      case fits of
        [] \<Rightarrow> raise_io BadRequest
      | [d] \<Rightarrow>
          bind_io (FindTopicTemplateByNameAndNamespace (df_template d) (c_namespace cl)) (\<lambda>tmpl.
          bind_io (lift_io (BuildTopicRegFromReq (MakeTopicDefinitionResponse (d\<lparr>df_classifier := cl\<rparr>)) tmpl)) (\<lambda>reg.
            GetOrCreateTopic h c reg onExists))
      | _ \<Rightarrow> raise_io Conflict))))"

definition tenant_settings :: "topic_definition \<Rightarrow> topic_template option \<Rightarrow> topic_settings" where
  "tenant_settings d tmpl = (case tmpl of
      Some x \<Rightarrow> GetSettings (tt_settings x)
    | None \<Rightarrow> \<lparr>num_partitions = Some (word_of_int (df_num_partitions d)),
        min_num_partitions = Some (word_of_int (df_min_num_partitions d)),
        replication_factor = Some (word_of_int (df_replication_factor d)),
        replica_assignment = df_replica_assignment d, configs = df_configs d, versioned = df_versioned d\<rparr>)"

definition null_id :: "nat \<Rightarrow> nat option" where
  "null_id n = (if n = 0 then None else Some n)"

definition CreateTopicByTenantTopic :: "'k kafka_helper \<Rightarrow> ctx \<Rightarrow> topic_definition \<Rightarrow> tenant \<Rightarrow> ('k, topic_dto option) dbio" where
  "CreateTopicByTenantTopic h c d tn =
     (let cl = (df_classifier d)\<lparr>c_tenant := tn_external_id tn\<rparr> in
      then_io (lift_io (ValidateClassifier cl))
      (bind_io (k_GetById (df_instance d)) (\<lambda>inst.
       bind_io (GetTopicTemplateByName (df_template d) (df_namespace d)) (\<lambda>tmpl.
       bind_io (resolveTopicName (df_name d) cl (df_versioned d)) (\<lambda>name.
       bind_io (GetOrCreateTopic h c
           \<lparr>t_id = 0, t_classifier = cl, t_topic = name, t_instance = df_instance d, t_namespace = df_namespace d,
            t_externally_managed = False, t_settings = tenant_settings d tmpl,
            t_template = (case tmpl of None \<Rightarrow> None | Some x \<Rightarrow> null_id (tt_id x)), t_dirty = False,
            t_tenant = null_id (tn_id tn), t_create_req = Some (MakeTopicDefinitionResponse d),
            t_instance_ref = inst\<rparr> Merge) (\<lambda>(found, dto). ret_io dto))))))"

section \<open>Waiting for topics\<close>

text \<open>
  The classifiers of the events that arrive before the timeout are a parameter; so is whether the
  query before that was quick enough, which the model takes for granted.
\<close>

primrec found_topics :: "'k kafka_helper \<Rightarrow> ctx \<Rightarrow> classifier list \<Rightarrow> ('k, topic_dto option list) dbio" where
  "found_topics h c [] = ret_io []"
| "found_topics h c (cl # cls) =
     bind_io (wrap_io (GetTopicByClassifierWithBgDomain h c cl)) (\<lambda>dto.
     bind_io (found_topics h c cls) (\<lambda>rest. ret_io (if dto \<noteq> None then dto # rest else rest)))"

primrec watch_events :: "'k kafka_helper \<Rightarrow> ctx \<Rightarrow> classifier list \<Rightarrow> classifier list \<Rightarrow> ('k, topic_dto option list) dbio" where
  "watch_events h c cls [] = ret_io []"
| "watch_events h c cls (inserted # later) =
     (if contains cls inserted
      then bind_io (wrap_io (GetTopicByClassifierWithBgDomain h c inserted)) (\<lambda>dto. ret_io [dto])
      else watch_events h c cls later)"

definition WatchTopicsCreate :: "'k kafka_helper \<Rightarrow> ctx \<Rightarrow> classifier list \<Rightarrow> classifier list \<Rightarrow> ('k, topic_dto option list) dbio" where
  "WatchTopicsCreate h c cls events =
     (if list_ex (\<lambda>cl. c_tenant cl \<noteq> []) cls then raise_io Generic
      else bind_io (found_topics h c cls) (\<lambda>found.
        if length found > 0 then ret_io found else watch_events h c cls events))"

section \<open>Blue/green operations\<close>

fun has_infix :: "string \<Rightarrow> string \<Rightarrow> bool" where
  "has_infix [] p = (p = [])"
| "has_infix (c # cs) p = (has_prefix (c # cs) p \<or> has_infix cs p)"

text \<open>
  The versioned topics of the active namespace are created again for the other one, from the
  request they were created by; the instance they live on goes into that request.
\<close>

definition versioned_copy :: "string \<Rightarrow> topic \<Rightarrow> topic outcome" where
  "versioned_copy to t =
     (case t_create_req t of
        None \<Rightarrow> Inl BadRequest
      | Some req \<Rightarrow>
          if rq_name req \<noteq> [] \<and> (\<not> has_infix (rq_name req) ''{{namespace}}'' \<and> \<not> has_infix (rq_name req) ''%namespace%'')
          then Inl BadRequest
          else Inr (t\<lparr>t_id := 0, t_classifier := (t_classifier t)\<lparr>c_namespace := to\<rparr>, t_topic := rq_name req,
                      t_namespace := to\<rparr>))"

definition copyVersionedTopics :: "'k kafka_helper \<Rightarrow> ctx \<Rightarrow> string \<Rightarrow> string \<Rightarrow> ('k, unit) dbio" where
  "copyVersionedTopics h c from to =
     bind_io (SearchTopicsInDB (no_search\<lparr>ts_namespace := from, ts_versioned := Some True\<rparr>)) (\<lambda>found.
       for_each (\<lambda>t. bind_io (lift_io (versioned_copy to t)) (\<lambda>copy.
         then_io (GetOrCreateTopicWithAuth h c copy Merge (\<lambda>ns cl. ret_io ())) (ret_io ()))) found)"

definition kafka_Warmup :: "'k kafka_helper \<Rightarrow> ctx \<Rightarrow> bg_state \<Rightarrow> ('k, unit) dbio" where
  "kafka_Warmup h c st =
     then_io (dao_Warmup (ns_name (st_origin st)) (ns_name (st_peer st)))
     (bind_io (deref_io (GetActiveNamespace st)) (\<lambda>from.
      bind_io (deref_io (GetNotActiveNamespace st)) (\<lambda>to.
        copyVersionedTopics h c (ns_name from) (ns_name to))))"

text \<open>Topics that could not be deleted are in the answer, which is dropped.\<close>

definition kafka_Commit :: "'k kafka_helper \<Rightarrow> bg_state \<Rightarrow> ('k, unit) dbio" where
  "kafka_Commit h st =
     bind_io (deref_io (GetNotActiveNamespace st)) (\<lambda>ns.
     then_io (DeleteTopics h (no_search\<lparr>ts_namespace := ns_name ns, ts_versioned := Some True\<rparr>)) (ret_io ()))"

definition kafka_Promote :: "bg_state \<Rightarrow> ('k, unit) dbio" where
  "kafka_Promote st = ret_io ()"

definition kafka_Rollback :: "bg_state \<Rightarrow> ('k, unit) dbio" where
  "kafka_Rollback st = ret_io ()"

definition no_topics_in :: "string \<Rightarrow> ('k, unit) dbio" where
  "no_topics_in ns =
     bind_io (wrap_io (FindTopicsBySearchRequest (no_search\<lparr>ts_namespace := ns\<rparr>))) (\<lambda>found.
       if length found > 0 then raise_io Conflict else ret_io ())"

definition kafka_DestroyDomain :: "bg_namespaces \<Rightarrow> ('k, unit) dbio" where
  "kafka_DestroyDomain n = then_io (no_topics_in (n_origin n)) (no_topics_in (n_peer n))"

definition MigrateKafka :: "('k, unit) dbio" where
  "MigrateKafka = dao_Migrate"

section \<open>Production mode (prod_mode.go)\<close>

definition prod_mode :: "bool \<Rightarrow> ('k, 'a) dbio \<Rightarrow> ('k, 'a) dbio" where
  "prod_mode isProdMode op = (if isProdMode then raise_io BadRequest else op)"

definition prod_DeleteTopics :: "bool \<Rightarrow> 'k kafka_helper \<Rightarrow> topic_search \<Rightarrow> ('k, deletion_resp) dbio" where
  "prod_DeleteTopics isProdMode h s = prod_mode isProdMode (DeleteTopics h s)"

definition prod_DeleteTopic :: "bool \<Rightarrow> 'k kafka_helper \<Rightarrow> topic \<Rightarrow> bool \<Rightarrow> ('k, unit) dbio" where
  "prod_DeleteTopic isProdMode h t leave = prod_mode isProdMode (DeleteTopic h t leave)"

definition prod_DeleteTopicDefinition :: "bool \<Rightarrow> classifier \<Rightarrow> ('k, topic_definition) dbio" where
  "prod_DeleteTopicDefinition isProdMode cl = prod_mode isProdMode (DeleteTopicDefinition cl)"

definition prod_DeleteTopicTemplate :: "bool \<Rightarrow> string \<Rightarrow> string \<Rightarrow> ('k, topic_template option) dbio" where
  "prod_DeleteTopicTemplate isProdMode name ns = prod_mode isProdMode (DeleteTopicTemplate name ns)"

end
