(* ===== verification/Maas_Kafka_Rules.thy ===== *)
theory Maas_Kafka_Rules
  imports Maas_Kafka
begin

text \<open>
  The invariant of the tables of topics, and that every operation of the Kafka service keeps it
  under any failures: a classifier belongs to at most one topic.
\<close>

section \<open>The invariant\<close>

text \<open>Of the two tables the invariant sees which classifier belongs to which number.\<close>

definition topic_keys :: "tables \<Rightarrow> (nat \<times> classifier) list" where
  "topic_keys t = map (\<lambda>r. (t_id r, t_classifier r)) (topics t)"

definition classifier_keys :: "tables \<Rightarrow> (nat \<times> classifier) list" where
  "classifier_keys t = map (\<lambda>c. (tc_topic c, tc_classifier c)) (topic_classifiers t)"

definition keys_ok :: "(nat \<Rightarrow> bool) \<Rightarrow> (nat \<times> classifier) list \<Rightarrow> (nat \<times> classifier) list \<Rightarrow> bool" where
  "keys_ok free ts cs \<longleftrightarrow> distinct (map fst ts) \<and> distinct (map snd ts) \<and> distinct (map snd cs) \<and>
     fst ` set cs \<subseteq> fst ` set ts \<and> (\<forall>p \<in> set ts. free (fst p) \<or> p \<in> set cs)"

definition topics_ok :: "(nat \<Rightarrow> bool) \<Rightarrow> tables \<Rightarrow> bool" where
  "topics_ok free t \<longleftrightarrow> keys_ok free (topic_keys t) (classifier_keys t)"

definition topics_inv :: "tables \<Rightarrow> bool" where
  "topics_inv t \<longleftrightarrow> topics_ok (\<lambda>_. False) t"

text \<open>A classifier that is not empty has a topic.\<close>

definition has_topic :: "classifier \<Rightarrow> tables \<Rightarrow> bool" where
  "has_topic cl t \<longleftrightarrow> topics_inv t \<and> (classifier_IsEmpty cl \<or> cl \<in> snd ` set (classifier_keys t))"

definition stored :: "nat \<Rightarrow> classifier \<Rightarrow> tables \<Rightarrow> bool" where
  "stored n cl t \<longleftrightarrow> (n, cl) \<in> set (topic_keys t)"

lemma in_keys:
  "(n, cl) \<in> set (topic_keys t) \<longleftrightarrow> (\<exists>r \<in> set (topics t). t_id r = n \<and> t_classifier r = cl)"
  "(n, cl) \<in> set (classifier_keys t) \<longleftrightarrow> (\<exists>c \<in> set (topic_classifiers t). tc_topic c = n \<and> tc_classifier c = cl)"
  by (auto simp: topic_keys_def classifier_keys_def)

lemma topics_inv_same:
  "topic_keys t' = topic_keys t \<Longrightarrow> classifier_keys t' = classifier_keys t \<Longrightarrow> topics_inv t' = topics_inv t"
  by (simp add: topics_inv_def topics_ok_def)

lemma pair_unique:
  assumes "distinct (map snd ps)" "(n, a) \<in> set ps" "(m, a) \<in> set ps"
  shows "n = m"
  using assms inj_onD [of snd "set ps" "(n, a)" "(m, a)"] by (simp add: distinct_map)

lemma keys_one:
  assumes "keys_ok F ts cs"
  shows "(n, a) \<in> set ts \<Longrightarrow> (n, b) \<in> set ts \<Longrightarrow> a = b" "(n, a) \<in> set cs \<Longrightarrow> (m, a) \<in> set cs \<Longrightarrow> n = m"
proof -
  show "(n, a) \<in> set ts \<Longrightarrow> (n, b) \<in> set ts \<Longrightarrow> a = b" using assms eq_key_imp_eq_value by (fastforce simp: keys_ok_def)
  show "(n, a) \<in> set cs \<Longrightarrow> (m, a) \<in> set cs \<Longrightarrow> n = m" using assms pair_unique [of cs n a m] by (simp add: keys_ok_def)
qed

lemma insert_topic_keys:
  assumes "insert_topic reg t = Inr (n, t')"
  shows "topic_keys t' = topic_keys t @ [(n, t_classifier reg)]" "classifier_keys t' = classifier_keys t"
    "n \<notin> fst ` set (topic_keys t)" "t_classifier reg \<notin> snd ` set (topic_keys t)"
proof -
  let ?row = "reg\<lparr>t_id := (if t_id reg = 0 then next_id t else t_id reg), t_instance_ref := None\<rparr>"
  have "\<not> list_ex (topic_clash ?row) (topics t)" "n = t_id ?row" "t' = t\<lparr>next_id := next_id t + 1, topics := topics t @ [?row]\<rparr>"
    using assms by (auto simp: insert_topic_def Let_def split: if_splits)
  then show "topic_keys t' = topic_keys t @ [(n, t_classifier reg)]" "classifier_keys t' = classifier_keys t"
    "n \<notin> fst ` set (topic_keys t)" "t_classifier reg \<notin> snd ` set (topic_keys t)"
    by (auto simp: topic_keys_def classifier_keys_def list_ex_iff topic_clash_def simp del: if_split_asm)
qed

lemma insert_topic_ok:
  assumes "topics_inv t" "insert_topic reg t = Inr (n, t')"
  shows "topics_ok (\<lambda>m. m = n) t' \<and> stored n (t_classifier reg) t'"
  using assms(1) insert_topic_keys [OF assms(2)]
  by (auto simp: topics_inv_def topics_ok_def keys_ok_def stored_def)

lemma insert_classifiers_rows:
  assumes "insert_topic_classifiers rows t = Inr (a, t')"
  shows "topic_keys t' = topic_keys t" "classifier_keys t' = classifier_keys t @ rows" "topics t' = topics t"
    "distinct (map snd rows)" "snd ` set rows \<inter> snd ` set (classifier_keys t) = {}" "fst ` set rows \<subseteq> fst ` set (topic_keys t)"
proof -
  have m: "map (\<lambda>x. case x of (k, n, cl) \<Rightarrow> (n, cl)) (enumerate i rows) = rows" for i
    by (induction rows arbitrary: i) auto
  have t': "t' = t\<lparr>next_id := next_id t + length rows, topic_classifiers := topic_classifiers t @
             map (\<lambda>(k, n, cl). \<lparr>tc_id = k, tc_topic = n, tc_classifier = cl\<rparr>) (numbered (next_id t) rows)\<rparr>"
    and c: "distinct (map snd rows)" "\<not> list_ex (\<lambda>(n, cl). list_ex (\<lambda>c. tc_classifier c = cl) (topic_classifiers t)) rows"
      "list_all (\<lambda>(n, cl). list_ex (\<lambda>r. t_id r = n) (topics t)) rows"
    using assms by (auto simp: insert_topic_classifiers_def split: if_splits)
  show "topic_keys t' = topic_keys t" "classifier_keys t' = classifier_keys t @ rows" "topics t' = topics t"
    using m [of "next_id t"] by (simp_all add: t' topic_keys_def classifier_keys_def numbered_def comp_def case_prod_beta)
  show "distinct (map snd rows)" by (fact c)
  show "snd ` set rows \<inter> snd ` set (classifier_keys t) = {}" "fst ` set rows \<subseteq> fst ` set (topic_keys t)"
    using c(2,3) by (force simp: list_ex_iff list_all_iff classifier_keys_def topic_keys_def)+
qed

lemma insert_classifiers_ok:
  assumes "topics_ok F t" "insert_topic_classifiers rows t = Inr (a, t')"
  shows "topics_ok F t'"
  using assms(1) insert_classifiers_rows [OF assms(2)]
  by (auto simp: topics_ok_def keys_ok_def)

lemma own_classifier_ok:
  assumes "topics_ok (\<lambda>m. m = n) t" "stored n cl t" "insert_topic_classifiers [(n, cl)] t = Inr (a, t')"
  shows "has_topic cl t'"
proof -
  note r = insert_classifiers_rows [OF assms(3)]
  have ok: "keys_ok (\<lambda>m. m = n) (topic_keys t') (classifier_keys t')"
    using insert_classifiers_ok [OF assms(1,3)] by (simp add: topics_ok_def)
  have "p \<in> set (classifier_keys t')" if "p \<in> set (topic_keys t')" for p
  proof (cases "fst p = n")
    case True
    with that assms(2) r(1) have "snd p = cl" using keys_one(1) [OF ok, of n "snd p" cl] by (auto simp: stored_def)
    with True r(2) show ?thesis by (cases p) simp
  qed (use that ok in \<open>auto simp: keys_ok_def\<close>)
  with ok have "topics_inv t'" by (auto simp: topics_inv_def topics_ok_def keys_ok_def)
  with r(2) show ?thesis by (simp add: has_topic_def)
qed

lemma insert_classifiers_inv:
  "topics_inv t \<Longrightarrow> insert_topic_classifiers rows t = Inr (a, t') \<Longrightarrow> topics_inv t'"
  unfolding topics_inv_def by (rule insert_classifiers_ok)

lemma insert_classifiers_known:
  "has_topic cl t \<Longrightarrow> insert_topic_classifiers rows t = Inr (a, t') \<Longrightarrow> has_topic cl t'"
  using insert_classifiers_inv insert_classifiers_rows(2) by (auto simp: has_topic_def)

lemma migrate_inv: "topics_inv t \<Longrightarrow> migrate_topics t = Inr (a, t') \<Longrightarrow> topics_inv t'"
  unfolding migrate_topics_def by (rule insert_classifiers_inv)

lemma clone_inv: "topics_inv t \<Longrightarrow> clone_topics orig peer t = Inr (a, t') \<Longrightarrow> topics_inv t'"
  unfolding clone_topics_def by (rule insert_classifiers_inv)

lemma keys_filter: "keys_ok F ts cs \<Longrightarrow> keys_ok F [p \<leftarrow> ts. fst p \<noteq> n] [p \<leftarrow> cs. fst p \<noteq> n]"
  by (auto simp: keys_ok_def distinct_map_filter)

lemma delete_topic_inv: "topics_inv t \<Longrightarrow> delete_topic n t = Inr (a, t') \<Longrightarrow> topics_inv t'"
proof -
  assume inv: "topics_inv t" and "delete_topic n t = Inr (a, t')"
  then have "topic_keys t' = [p \<leftarrow> topic_keys t. fst p \<noteq> n]" "classifier_keys t' = [p \<leftarrow> classifier_keys t. fst p \<noteq> n]"
    by (auto simp: delete_topic_def topic_keys_def classifier_keys_def filter_map comp_def split: if_splits)
  with inv show ?thesis by (simp add: topics_inv_def topics_ok_def keys_filter)
qed

text \<open>Saving over a stored topic with the same classifier.\<close>

lemma save_topic_keys:
  assumes inv: "topics_inv t" and st: "stored (t_id reg) (t_classifier reg) t" and s: "save_topic reg t = Inr (a, t')"
  shows "topic_keys t' = topic_keys t" "classifier_keys t' = classifier_keys t"
proof -
  let ?row = "reg\<lparr>t_instance_ref := None\<rparr>"
  obtain r0 where r0: "r0 \<in> set (topics t)" "t_id r0 = t_id reg" "t_classifier r0 = t_classifier reg"
    using st by (auto simp: stored_def topic_keys_def)
  have uniq: "t_classifier r = t_classifier reg" if "r \<in> set (topics t)" "t_id r = t_id reg" for r
  proof (rule keys_one(1))
    show "keys_ok (\<lambda>_. False) (topic_keys t) (classifier_keys t)" using inv by (simp add: topics_inv_def topics_ok_def)
    show "(t_id reg, t_classifier r) \<in> set (topic_keys t)" using that by (auto simp: in_keys)
    show "(t_id reg, t_classifier reg) \<in> set (topic_keys t)" using st by (simp add: stored_def)
  qed
  have "insert_topic reg t \<noteq> Inr (n, t')" for n
  proof
    assume "insert_topic reg t = Inr (n, t')"
    from insert_topic_keys(4) [OF this] st show False by (force simp: stored_def)
  qed
  then have "t' = t\<lparr>topics := map (\<lambda>r. if t_id r = t_id reg then ?row else r) (topics t)\<rparr>"
    using s r0 by (auto simp: save_topic_def Let_def list_ex_iff map_sum_def split: if_splits sum.splits)
  then show "topic_keys t' = topic_keys t" "classifier_keys t' = classifier_keys t"
    using uniq by (auto simp: topic_keys_def classifier_keys_def)
qed

lemma save_topic_inv:
  "topics_inv t \<Longrightarrow> stored (t_id reg) (t_classifier reg) t \<Longrightarrow> save_topic reg t = Inr (a, t') \<Longrightarrow> topics_inv t'"
  using save_topic_keys topics_inv_same by blast

lemma save_topic_known:
  "has_topic cl t \<Longrightarrow> stored (t_id reg) (t_classifier reg) t \<Longrightarrow> save_topic reg t = Inr (a, t') \<Longrightarrow> has_topic cl t'"
  using save_topic_keys [of t reg a t'] save_topic_inv [of t reg a t'] by (simp add: has_topic_def)

lemma has_topic_inv: "has_topic cl t \<Longrightarrow> topics_inv t"
  by (simp add: has_topic_def)

lemma mark_dirty_inv: "topics_inv t \<Longrightarrow> mark_dirty n t = Inr (a, t') \<Longrightarrow> topics_inv t'"
  using topics_inv_same [of t' t] by (auto simp: mark_dirty_def topic_keys_def classifier_keys_def)

lemmas topic_tables_inv =
  insert_classifiers_inv migrate_inv clone_inv delete_topic_inv mark_dirty_inv

text \<open>The statements on templates, definitions and designators leave both tables alone.\<close>

lemma insert_definition_classifiers_topics:
  "insert_definition_classifiers rows t = Inr (u, t') \<Longrightarrow> topics t' = topics t \<and> topic_classifiers t' = topic_classifiers t"
  by (auto simp: insert_definition_classifiers_def split: if_splits)

lemma topics_inv_frame:
  "topics t' = topics t \<and> topic_classifiers t' = topic_classifiers t \<Longrightarrow> topics_inv t' = topics_inv t"
  by (rule topics_inv_same) (simp_all add: topic_keys_def classifier_keys_def)

lemma other_tables:
  "insert_template x t = Inr (n, t') \<Longrightarrow> topics t' = topics t \<and> topic_classifiers t' = topic_classifiers t"
  "delete_templates P t = Inr (u, t') \<Longrightarrow> topics t' = topics t \<and> topic_classifiers t' = topic_classifiers t"
  "attach_templates a b t = Inr (u, t') \<Longrightarrow> topics t' = topics t \<and> topic_classifiers t' = topic_classifiers t"
  "insert_definition d t = Inr (n, t') \<Longrightarrow> topics t' = topics t \<and> topic_classifiers t' = topic_classifiers t"
  "migrate_definitions t = Inr (u, t') \<Longrightarrow> topics t' = topics t \<and> topic_classifiers t' = topic_classifiers t"
  "clone_definitions a b t = Inr (u, t') \<Longrightarrow> topics t' = topics t \<and> topic_classifiers t' = topic_classifiers t"
  "delete_definitions D t = Inr (gone, t') \<Longrightarrow> topics t' = topics t \<and> topic_classifiers t' = topic_classifiers t"
  "delete_designator ns t = Inr (u, t') \<Longrightarrow> topics t' = topics t \<and> topic_classifiers t' = topic_classifiers t"
  by (auto simp: insert_template_def delete_templates_def attach_templates_def insert_definition_def delete_definitions_def
      delete_designator_def Let_def migrate_definitions_def clone_definitions_def
      dest: insert_definition_classifiers_topics split: if_splits)

lemma other_saves:
  "save_template x t = Inr (u, t') \<Longrightarrow> topics t' = topics t \<and> topic_classifiers t' = topic_classifiers t"
  "save_definition d t = Inr (u, t') \<Longrightarrow> topics t' = topics t \<and> topic_classifiers t' = topic_classifiers t"
  by (auto simp: save_template_def save_definition_def map_sum_def dest: other_tables(1,4) split: if_splits sum.splits)

lemmas other_tables_inv = other_tables [THEN topics_inv_frame] other_saves [THEN topics_inv_frame]
  insert_definition_classifiers_topics [THEN topics_inv_frame]

text \<open>What a search finds by a classifier has a row with it.\<close>

lemma search_owned:
  assumes inv: "topics_inv t" and cl: "\<not> classifier_IsEmpty cl" and r: "r \<in> set (search_topics (no_search\<lparr>ts_classifier := cl\<rparr>) t)"
  shows "r \<in> set (topics t)" "(t_id r, cl) \<in> set (classifier_keys t)"
proof -
  have r: "r \<in> set (topics t)" "search_matches (no_search\<lparr>ts_classifier := cl\<rparr>) t r"
    using r by (auto simp: search_topics_def)
  show "r \<in> set (topics t)" by (fact r(1))
  have "(t_id r, t_classifier r) \<in> set (classifier_keys t)"
    using inv r(1) by (auto simp: topics_inv_def topics_ok_def keys_ok_def topic_keys_def)
  with r cl show "(t_id r, cl) \<in> set (classifier_keys t)"
    by (auto simp: search_matches_def no_search_def topic_classified_def list_ex_iff in_keys)
qed

lemma found_known:
  "topics_inv t \<Longrightarrow> search_topics (no_search\<lparr>ts_classifier := cl\<rparr>) t \<noteq> [] \<Longrightarrow> has_topic cl t"
  using search_owned(2) [of t cl "hd (search_topics (no_search\<lparr>ts_classifier := cl\<rparr>) t)"]
  by (force simp: has_topic_def)

lemma has_topic_found:
  assumes t: "has_topic cl t" and cl: "\<not> classifier_IsEmpty cl"
  shows "search_topics (no_search\<lparr>ts_classifier := cl\<rparr>) t \<noteq> []"
proof -
  obtain n where n: "(n, cl) \<in> set (classifier_keys t)" using t cl by (auto simp: has_topic_def)
  have "keys_ok (\<lambda>_. False) (topic_keys t) (classifier_keys t)"
    using t by (simp add: has_topic_def topics_inv_def topics_ok_def)
  then obtain a where "(n, a) \<in> set (topic_keys t)" using n by (force simp: keys_ok_def)
  then obtain r where r: "r \<in> set (topics t)" "t_id r = n" by (auto simp: in_keys)
  with n have "topic_classified t (\<lambda>c. c = cl) r" by (auto simp: topic_classified_def list_ex_iff in_keys)
  with r show ?thesis by (auto simp: search_topics_def search_matches_def no_search_def filter_empty_conv)
qed

lemma one_topic:
  assumes inv: "topics_inv t" and cl: "\<not> classifier_IsEmpty cl"
  shows "length (search_topics (no_search\<lparr>ts_classifier := cl\<rparr>) t) \<le> 1"
proof (rule ccontr)
  let ?xs = "search_topics (no_search\<lparr>ts_classifier := cl\<rparr>) t"
  have ok: "keys_ok (\<lambda>_. False) (topic_keys t) (classifier_keys t)" using inv by (simp add: topics_inv_def topics_ok_def)
  have "map fst (topic_keys t) = map t_id (topics t)" by (simp add: topic_keys_def comp_def)
  with ok have "distinct (map t_id (topics t))" by (metis keys_ok_def)
  then have d: "distinct (map t_id ?xs)" unfolding search_topics_def by (rule distinct_map_filter)
  assume "\<not> ?thesis"
  then obtain a b rest where xs: "?xs = a # b # rest"
    by (cases "?xs"; cases "tl ?xs") auto
  with search_owned(2) [OF inv cl] have "(t_id a, cl) \<in> set (classifier_keys t)" "(t_id b, cl) \<in> set (classifier_keys t)" by auto
  from keys_one(2) [OF ok this] d xs show False by simp
qed


section \<open>Transaction bodies\<close>

text \<open>Helpers report errors of their own, not the text by which a lost master is recognised.\<close>

definition calm :: "'k kafka_helper \<Rightarrow> bool" where
  "calm h \<longleftrightarrow> (\<forall>k t d i n ns ds.
     fst (h_CreateTopic h t k) \<noteq> Inl UnexpectedEOF \<and> fst (h_DeleteTopic h t k) \<noteq> Inl UnexpectedEOF \<and>
     fst (h_UpdateTopicSettings h d k) \<noteq> Inl UnexpectedEOF \<and> fst (h_GetTopicSettings h d k) \<noteq> Inl UnexpectedEOF \<and>
     fst (h_GetExistingTopics h i ns k) \<noteq> Inl UnexpectedEOF \<and> fst (h_DoesTopicExistOnKafka h i n k) \<noteq> Inl UnexpectedEOF \<and>
     fst (h_BulkGetTopicSettings h ds k) \<noteq> Inl UnexpectedEOF)"

lemma stays_broker:
  assumes "\<And>k. fst (f k) \<noteq> Inl UnexpectedEOF"
  shows "stays P (on_broker f)"
proof (rule staysI)
  show "tx_rule (\<lambda>_. True) (on_broker f) (\<lambda>_ _. True)"
  proof (rule tx_ruleI)
    fix w r w'
    assume "in_tx w" "on_broker f w = (r, w')"
    then show "in_tx w' \<and> conn w' = conn w \<and> tx_conn w' = tx_conn w \<and> master_alive w' = master_alive w \<and>
      committed w' = committed w \<and> (dead w \<longrightarrow> dead w') \<and> (conn w = Cache \<and> tx_conn w = Cache \<longrightarrow> tabs w' = tabs w) \<and>
      (r = Inl UnexpectedEOF \<longrightarrow> dead w')"
      using assms [of "broker w"] by (auto simp: on_broker_def tx_conn_def dead_def split: prod.splits)
  qed simp
qed (auto simp: on_broker_def split: prod.splits)

lemma stays_helper [stays_intros]:
  assumes "calm h"
  shows "stays P (on_broker (h_CreateTopic h t))" "stays P (on_broker (h_DeleteTopic h t))"
    "stays P (on_broker (h_UpdateTopicSettings h d))" "stays P (on_broker (h_GetTopicSettings h d))"
    "stays P (on_broker (h_GetExistingTopics h i ns))" "stays P (on_broker (h_DoesTopicExistOnKafka h i n))"
    "stays P (on_broker (h_BulkGetTopicSettings h ds))"
  using assms by (intro stays_broker; simp add: calm_def)+

lemma outcome_not_eof [simp]:
  "ToResponseDto t \<noteq> Inl UnexpectedEOF" "ValidateClassifier cl \<noteq> Inl UnexpectedEOF"
  "CheckAllowedNamespaces cl ns \<noteq> Inl UnexpectedEOF" "createSiblingClassifier cl bg \<noteq> Inl UnexpectedEOF"
  "createSiblingDefinitionClassifier cl bg \<noteq> Inl UnexpectedEOF" "versioned_copy to t \<noteq> Inl UnexpectedEOF"
  by (auto simp: ToResponseDto_def ValidateClassifier_def CheckAllowedNamespaces_def createSiblingClassifier_def
      createSiblingDefinitionClassifier_def versioned_copy_def split: option.split)

lemma BuildTopicReg_not_eof [simp]: "BuildTopicRegFromReq r t \<noteq> Inl UnexpectedEOF"
  by (auto simp: BuildTopicRegFromReq_def requested_settings_def getNumPartitionsFromRequest_def
      getMinNumPartitionsFromRequest_def getReplicationFactorFromRequest_def split: option.splits sum.splits if_splits)

lemma stays_reads [stays_intros]:
  "stays P (FindByNamespace ns)" "stays P (k_GetById iid)" "stays P k_GetDefault"
  "stays P (GetKafkaInstanceDesignatorByNamespace ns)" "stays P (domain_origin ns)"
  "stays P broadcast_created" "stays P (FindTopicTemplateById n)" "stays P (FindTopicTemplateByNameAndNamespace nm ns)"
proof -
  have f: "stays P (dao_FindByNamespace ns)" for ns
    unfolding dao_FindByNamespace_def by (rule stays_reraise) (auto intro!: stays_intros simp: is_record_not_found_def)
  have i: "stays P (k_dao_GetInstanceById iid)" for iid
    unfolding k_dao_GetInstanceById_def by (intro stays_intros) simp_all
  show fb: "stays P (FindByNamespace ns)" for ns unfolding FindByNamespace_def by (intro stays_intros f)
  show "stays P (k_GetById iid)" unfolding k_GetById_def by (intro stays_intros i)
  show "stays P k_GetDefault" unfolding k_GetDefault_def k_dao_GetDefaultInstance_def defaultInstance_def
    by (intro stays_intros) simp_all
  show "stays P (GetKafkaInstanceDesignatorByNamespace ns)"
    unfolding GetKafkaInstanceDesignatorByNamespace_def k_dao_GetKafkaInstanceDesignatorByNamespace_def Let_def
    by (rule stays_bind [OF f], rule stays_reraise) (auto intro!: stays_intros i simp: is_record_not_found_def)
  show "stays P (domain_origin ns)" unfolding domain_origin_def by (intro stays_intros fb)
  show "stays P broadcast_created" unfolding broadcast_created_def by (intro stays_intros)
  show "stays P (FindTopicTemplateById n)" unfolding FindTopicTemplateById_def by (intro stays_intros)
  show "stays P (FindTopicTemplateByNameAndNamespace nm ns)" unfolding FindTopicTemplateByNameAndNamespace_def by (intro stays_intros)
qed

lemma stays_migrate [stays_intros]: "stays topics_inv (sql_write migrate_topics)"
  by (rule stays_write) (rule migrate_inv)

lemma stays_find [stays_intros]: "stays topics_inv (FindTopicsBySearchRequest s)"
  unfolding FindTopicsBySearchRequest_def find_topics_body_def by (intro stays_intros)

lemma stays_with_instances [stays_intros]: "stays P (with_instances known ts)"
  by (induction ts arbitrary: known) (auto intro!: stays_intros)

lemma stays_search [stays_intros]: "stays topics_inv (SearchTopicsInDB s)"
  unfolding SearchTopicsInDB_def by (intro stays_intros) simp_all

lemma stays_default_instance [stays_intros]: "stays P (setDefaultInstanceIfNeeded t)"
  unfolding setDefaultInstanceIfNeeded_def by (intro stays_intros) simp_all

lemma stays_sibling: "stays (has_topic kl) (add_sibling n cl)"
  unfolding add_sibling_def
  by (intro stays_intros stays_write) (auto intro: insert_classifiers_known)

lemma setDefault_keeps_key: "setDefaultInstanceIfNeeded t w = (Inr u, w') \<Longrightarrow> t_classifier u = t_classifier t"
  by (auto simp: setDefaultInstanceIfNeeded_def bind_io_run split: if_splits prod.splits sum.splits option.splits)

text \<open>A registration: its own classifier restores the invariant its row has broken.\<close>

lemma tx_insert_registration:
  assumes ext: "\<And>reg'. stays (has_topic (t_classifier reg)) (ext reg')"
  shows "tx_rule topics_inv (insert_registration reg ext) (\<lambda>_. has_topic (t_classifier reg))"
  unfolding insert_registration_def
proof (rule tx_bind [where R = "\<lambda>n t. topics_ok (\<lambda>m. m = n) t \<and> stored n (t_classifier reg) t"])
  have "unique_as_conflict e = UnexpectedEOF \<Longrightarrow> e = UnexpectedEOF" for e
    by (auto simp: unique_as_conflict_def split: if_splits)
  then show "tx_rule topics_inv (map_err_io unique_as_conflict (sql_write (insert_topic reg)))
      (\<lambda>n t. topics_ok (\<lambda>m. m = n) t \<and> stored n (t_classifier reg) t)"
    by (rule tx_map_err) (auto intro!: tx_write dest: insert_topic_ok)
  fix n
  show "tx_rule (\<lambda>t. topics_ok (\<lambda>m. m = n) t \<and> stored n (t_classifier reg) t)
     (then_io (wrap_io (sql_write (insert_topic_classifiers [(n, t_classifier reg)])))
       (then_io (when_io (\<not> versioned (t_settings reg)) (add_sibling n (t_classifier reg))) (ext (reg\<lparr>t_id := n\<rparr>))))
     (\<lambda>_. has_topic (t_classifier reg))"
    by (rule tx_then [where R = "has_topic (t_classifier reg)"])
      (auto intro!: tx_wrap tx_write stays_tx stays_intros stays_sibling ext intro: own_classifier_ok)
qed

lemma tx_InsertTopicRegistration:
  "(\<And>reg'. stays (has_topic (t_classifier reg)) (ext reg')) \<Longrightarrow>
     tx_rule topics_inv (InsertTopicRegistration reg ext) (\<lambda>_. has_topic (t_classifier reg))"
  unfolding InsertTopicRegistration_def by (rule tx_with_tx [OF tx_insert_registration])

text \<open>The topic an update is made for stands in the table, and has the classifier it was found by.\<close>

definition holds_row :: "classifier \<Rightarrow> topic \<Rightarrow> tables \<Rightarrow> bool" where
  "holds_row cl x t \<longleftrightarrow> has_topic cl t \<and> stored (t_id x) (t_classifier x) t"

text \<open>A query that fails kills the transaction: what can still be committed was really read.\<close>

lemma tx_attempt_read:
  "tx_rule P (attempt_io (sql_read q)) (\<lambda>res t. P t \<and> res = Inr (q t))"
proof (rule tx_ruleI)
  fix w :: "'k world" and r w'
  assume t: "in_tx w" and run: "attempt_io (sql_read q) w = (r, w')"
  have "stays (\<lambda>_. True) (attempt_io (sql_read q) :: ('k, _) dbio)" by (intro stays_intros)
  from tx_disciplined [OF stays_disciplined [OF this] t run]
  show "in_tx w' \<and> conn w' = conn w \<and> tx_conn w' = tx_conn w \<and> master_alive w' = master_alive w \<and>
      committed w' = committed w \<and> (dead w \<longrightarrow> dead w') \<and> (conn w = Cache \<and> tx_conn w = Cache \<longrightarrow> tabs w' = tabs w) \<and>
      (r = Inl UnexpectedEOF \<longrightarrow> dead w')" by blast
next
  fix w :: "'k world" and a w'
  assume t: "in_tx w" and "attempt_io (sql_read q) w = (Inr a, w')" and c: "conn w = Master" and nd: "\<not> dead w'" and P: "P (tabs w)"
  then have run: "sql_read q w = (a, w')" by (auto simp: attempt_io_run split: prod.splits if_splits)
  show "P (tabs w') \<and> a = Inr (q (tabs w'))"
  proof (cases a)
    case (Inl e)
    with stmt_frame_read [OF run t] c nd show ?thesis by simp
  next
    case (Inr b)
    with run c P show ?thesis by (auto simp: sql_read_def Let_def split: list.splits option.splits if_splits)
  qed
qed

text \<open>Under the invariant the migration has nothing to do.\<close>

lemma migrate_idle: "topics_inv t \<Longrightarrow> migrate_topics t = Inr ((), t)"
proof -
  assume inv: "topics_inv t"
  have "topic_classified t (\<lambda>_. True) r" if "r \<in> set (topics t)" for r
  proof -
    have "(t_id r, t_classifier r) \<in> set (classifier_keys t)"
      using inv that by (auto simp: topics_inv_def topics_ok_def keys_ok_def topic_keys_def)
    then show ?thesis by (auto simp: topic_classified_def list_ex_iff in_keys)
  qed
  then have "[r \<leftarrow> topics t. \<not> topic_classified t (\<lambda>_. True) r \<and> \<not> versioned (t_settings r)] = []"
    by (auto simp: filter_empty_conv)
  then show ?thesis by (simp add: migrate_topics_def insert_topic_classifiers_def numbered_def)
qed

lemma tx_find_body:
  "tx_rule (\<lambda>t. topics_inv t \<and> t = T) (find_topics_body s) (\<lambda>xs t. topics_inv t \<and> t = T \<and> xs = search_topics s T)"
proof -
  have "stays (\<lambda>t. topics_inv t \<and> t = T) (sql_write migrate_topics)"
    by (rule stays_write) (metis migrate_idle migrate_inv snd_conv sum.inject(2))
  then show ?thesis
    unfolding find_topics_body_def
    by (intro tx_then [OF stays_tx [OF stays_wrap]] tx_bind [OF tx_attempt_read] tx_ret) (auto split: sum.splits)
qed

lemma tx_find:
  "tx_rule topics_inv (FindTopicsBySearchRequest s) (\<lambda>xs t. topics_inv t \<and> xs = search_topics s t)"
proof -
  have "tx_rule (\<lambda>t. topics_inv t \<and> t = T) (FindTopicsBySearchRequest s) (\<lambda>xs t. topics_inv t \<and> xs = search_topics s t)" for T
    unfolding FindTopicsBySearchRequest_def by (rule tx_with_tx [OF tx_weaken [OF tx_find_body [of T]]]) auto
  then show ?thesis unfolding tx_rule_def by blast
qed

lemma tx_getTopicByClassifier:
  "tx_rule topics_inv (getTopicByClassifier cl) (\<lambda>r t. topics_inv t \<and> (\<forall>x. r = Some x \<longrightarrow> holds_row cl x t))"
  unfolding getTopicByClassifier_def
proof (rule tx_bind [OF tx_wrap [OF tx_find]])
  fix xs :: "topic list"
  let ?P = "\<lambda>t. topics_inv t \<and> xs = search_topics (no_search\<lparr>ts_classifier := cl\<rparr>) t"
  show "tx_rule ?P (case xs of [] \<Rightarrow> ret_io None
       | t # _ \<Rightarrow> bind_io (wrap_io (k_GetById (t_instance t))) (\<lambda>inst. ret_io (Some (t\<lparr>t_instance_ref := inst\<rparr>))))
     (\<lambda>r t. topics_inv t \<and> (\<forall>x. r = Some x \<longrightarrow> holds_row cl x t))"
  proof (cases xs)
    case (Cons x ys)
    have r: "tx_rule ?P (wrap_io (k_GetById (t_instance x))) (\<lambda>_. ?P)" by (intro stays_tx stays_intros)
    have q: "holds_row cl (x\<lparr>t_instance_ref := i\<rparr>) t" if "?P t" for t i
    proof -
      have "has_topic cl t" by (rule found_known) (use that Cons in auto)
      moreover have "x \<in> set (topics t)" using that Cons by (auto simp: search_topics_def Cons_eq_filter_iff)
      ultimately show ?thesis by (auto simp: holds_row_def stored_def in_keys)
    qed
    from tx_bind [OF r] show ?thesis unfolding Cons list.case
      by (rule meta_mp) (use q Cons in \<open>auto intro!: tx_ret\<close>)
  qed (auto intro!: tx_ret)
qed

lemma tx_updateSettings:
  assumes "calm h"
  shows "tx_rule (holds_row cl x) (updateSettings h x new) (\<lambda>_. has_topic cl)"
  unfolding updateSettings_def Let_def
proof (rule tx_if)
  show "tx_rule (holds_row cl x) (bind_io (lift_io (ToResponseDto (x\<lparr>t_settings := new\<rparr>))) (\<lambda>dto.
          UpdateTopicRegistration dto (x\<lparr>t_settings := new\<rparr>) (\<lambda>reg. on_broker (h_UpdateTopicSettings h dto)))) (\<lambda>_. has_topic cl)"
  proof (rule tx_bind [where R = "\<lambda>_. holds_row cl x"])
    show "tx_rule (holds_row cl x) (lift_io (ToResponseDto (x\<lparr>t_settings := new\<rparr>))) (\<lambda>_. holds_row cl x)"
      by (intro stays_tx stays_intros) simp
    show "tx_rule (holds_row cl x) (UpdateTopicRegistration dto (x\<lparr>t_settings := new\<rparr>)
        (\<lambda>reg. on_broker (h_UpdateTopicSettings h dto))) (\<lambda>_. has_topic cl)" for dto
      unfolding UpdateTopicRegistration_def
      by (intro tx_with_tx tx_then [where R = "has_topic cl"] tx_write stays_tx stays_helper assms)
        (use save_topic_known [of cl _ "x\<lparr>t_settings := new\<rparr>"] in \<open>auto simp: holds_row_def\<close>)
  qed
qed (simp add: tx_raise)

lemma tx_updateIfNeeded:
  assumes h: "calm h"
  shows "tx_rule (holds_row cl x) (updateTopicSettingsIfNeeded h x y) (\<lambda>_. has_topic cl)"
proof -
  let ?x = "x\<lparr>t_template := t_template y, t_create_req := t_create_req y\<rparr>"
  have "holds_row cl ?x = holds_row cl x" by (rule ext) (simp add: holds_row_def)
  then have u: "tx_rule (holds_row cl x) (updateSettings h ?x (t_settings y)) (\<lambda>_. has_topic cl)"
    using tx_updateSettings [OF h, of cl ?x] by simp
  have "tx_rule (holds_row cl x) (bind_io (lift_io (ToResponseDto x)) (\<lambda>dto. on_broker (h_GetTopicSettings h dto))) (\<lambda>_. holds_row cl x)"
    by (intro stays_tx stays_bind stays_lift stays_helper h) simp
  then have "tx_rule (holds_row cl x) (bind_io (lift_io (ToResponseDto x)) (\<lambda>dto. on_broker (h_GetTopicSettings h dto))) (\<lambda>_. has_topic cl)"
    by (rule tx_weaken) (auto simp: holds_row_def)
  then show ?thesis unfolding updateTopicSettingsIfNeeded_def by (rule tx_if) (rule u)
qed

lemma tx_keep_then:
  "tx_rule P m (\<lambda>_. P) \<Longrightarrow> (\<And>a. tx_rule P (f a) Q) \<Longrightarrow> tx_rule P (bind_io m f) Q"
  by (rule tx_bind)

lemma tx_create_missing:
  assumes h: "calm h"
  shows "tx_rule topics_inv (create_missing h t) (\<lambda>_. has_topic (t_classifier t))"
  unfolding create_missing_def
  by (rule tx_then [where R = topics_inv], (intro stays_tx stays_intros; simp), rule tx_bind [OF tx_InsertTopicRegistration])
    (auto intro!: stays_tx stays_intros h)

lemma tx_merge_existing:
  assumes h: "calm h"
  shows "tx_rule topics_inv (merge_existing h t oe byName) (\<lambda>_. has_topic (t_classifier t))"
proof (cases oe)
  case Merge
  show ?thesis unfolding merge_existing_def Merge on_exists.case
  proof (rule tx_bind [where R = "\<lambda>_. has_topic (t_classifier t)"])
    show "tx_rule topics_inv (map_err_io (\<lambda>e. if e = TopicAlreadyExists \<and> byName \<noteq> [] then Conflict else e)
            (InsertTopicRegistration t (\<lambda>reg.
               bind_io (lift_io (ToResponseDto reg)) (\<lambda>dto.
               bind_io (on_broker (h_UpdateTopicSettings h dto)) (\<lambda>d. ret_io (Some d)))))) (\<lambda>_. has_topic (t_classifier t))"
      by (rule tx_map_err [OF _ tx_InsertTopicRegistration]) (auto intro!: stays_intros h split: if_splits)
  qed (auto intro!: stays_tx stays_intros)
qed (simp_all add: merge_existing_def tx_raise)

text \<open>A default instance does not change whose classifier a request is about.\<close>

lemma tx_setDefault:
  "tx_rule P (setDefaultInstanceIfNeeded t) (\<lambda>u s. P s \<and> t_classifier u = t_classifier t)"
proof (rule tx_ruleI)
  fix w :: "'k world" and r w'
  assume t: "in_tx w" and run: "setDefaultInstanceIfNeeded t w = (r, w')"
  have "stays (\<lambda>_. True) (setDefaultInstanceIfNeeded t :: ('k, _) dbio)" by (intro stays_intros)
  from tx_disciplined [OF stays_disciplined [OF this] t run]
  show "in_tx w' \<and> conn w' = conn w \<and> tx_conn w' = tx_conn w \<and> master_alive w' = master_alive w \<and>
      committed w' = committed w \<and> (dead w \<longrightarrow> dead w') \<and> (conn w = Cache \<and> tx_conn w = Cache \<longrightarrow> tabs w' = tabs w) \<and>
      (r = Inl UnexpectedEOF \<longrightarrow> dead w')" by blast
next
  fix w :: "'k world" and a w'
  assume t: "in_tx w" and run: "setDefaultInstanceIfNeeded t w = (Inr a, w')"
    and c: "conn w = Master" "tx_conn w = Master" "master_alive w" "\<not> dead w'" "P (tabs w)"
  have "stays P (setDefaultInstanceIfNeeded t :: ('k, _) dbio)" by (intro stays_intros)
  from tx_effect [OF stays_tx [OF this] t run c] setDefault_keeps_key [OF run]
  show "P (tabs w') \<and> t_classifier a = t_classifier t" by simp
qed

text \<open>What a request knows before it registers a topic: whether its classifier has one.\<close>

definition before_register :: "bool \<Rightarrow> classifier \<Rightarrow> tables \<Rightarrow> bool" where
  "before_register existed cl t \<longleftrightarrow> topics_inv t \<and> (existed \<longrightarrow> has_topic cl t)"

lemma stays_search_before: "stays (before_register ex cl) (SearchTopicsInDB s)"
proof -
  have "stays (before_register ex cl) (sql_write migrate_topics)"
    by (rule stays_write) (auto simp: before_register_def migrate_topics_def intro: insert_classifiers_inv insert_classifiers_known)
  then show ?thesis
    unfolding SearchTopicsInDB_def FindTopicsBySearchRequest_def find_topics_body_def by (intro stays_intros) simp_all
qed

lemma tx_register:
  assumes h: "calm h"
  shows "tx_rule (before_register ex (t_classifier topic)) (register_topic h oe ex topic) (\<lambda>_. has_topic (t_classifier topic))"
  unfolding register_topic_def
proof (rule tx_bind [OF tx_wrap [OF tx_setDefault]])
  fix t :: topic
  let ?P = "before_register ex (t_classifier t)" and ?Q = "\<lambda>_. has_topic (t_classifier t)"
  let ?rest = "bind_io (wrap_io (on_broker (h_DoesTopicExistOnKafka h (t_instance_ref t) (t_topic t)))) (\<lambda>onKafka.
     bind_io (wrap_io (SearchTopicsInDB (no_search\<lparr>ts_namespace := c_namespace (t_classifier t), ts_topic := t_topic t\<rparr>))) (\<lambda>byName.
     if onKafka \<and> \<not> t_externally_managed t then
       bind_io (merge_existing h t oe byName) (\<lambda>dto. ret_io (False, dto))
     else if \<not> onKafka \<and> t_externally_managed t then raise_io Gone
     else if onKafka \<and> t_externally_managed t \<and> ex then
       bind_io (lift_io (ToResponseDto t)) (\<lambda>dto. ret_io (False, Some dto))
     else bind_io (create_missing h t) (\<lambda>dto. ret_io (False, dto))))"
  have ins: "tx_rule ?P (bind_io m (\<lambda>dto. ret_io (False, dto))) ?Q"
    if "tx_rule topics_inv m ?Q" for m :: "('k, topic_dto option) dbio"
    by (rule tx_weaken [OF tx_bind [OF that]]) (auto intro!: tx_ret simp: before_register_def)
  have branches: "tx_rule ?P (if onKafka \<and> \<not> t_externally_managed t then
       bind_io (merge_existing h t oe byName) (\<lambda>dto. ret_io (False, dto))
     else if \<not> onKafka \<and> t_externally_managed t then raise_io Gone
     else if onKafka \<and> t_externally_managed t \<and> ex then
       bind_io (lift_io (ToResponseDto t)) (\<lambda>dto. ret_io (False, Some dto))
     else bind_io (create_missing h t) (\<lambda>dto. ret_io (False, dto))) ?Q" for onKafka byName
  proof (intro tx_if)
    show "tx_rule ?P (bind_io (merge_existing h t oe byName) (\<lambda>dto. ret_io (False, dto))) ?Q"
      by (intro ins tx_merge_existing h)
    show "tx_rule ?P (bind_io (create_missing h t) (\<lambda>dto. ret_io (False, dto))) ?Q"
      by (intro ins tx_create_missing h)
    assume e: "onKafka \<and> t_externally_managed t \<and> ex"
    have "stays ?P (lift_io (ToResponseDto t))" by (intro stays_intros) simp
    from tx_bind [OF stays_tx [OF this]]
    show "tx_rule ?P (bind_io (lift_io (ToResponseDto t)) (\<lambda>dto. ret_io (False, Some dto))) ?Q"
      by (rule meta_mp) (use e in \<open>auto intro!: tx_ret simp: before_register_def\<close>)
  qed (simp add: tx_raise)
  have "tx_rule ?P ?rest ?Q"
    by (rule tx_keep_then, (intro stays_tx stays_intros h), rule tx_keep_then,
        (intro stays_tx stays_intros stays_search_before), rule branches)
  note main = tx_pure [OF this, of "t_classifier t = t_classifier topic"]
  show "tx_rule (\<lambda>s. before_register ex (t_classifier topic) s \<and> t_classifier t = t_classifier topic) ?rest
      (\<lambda>_. has_topic (t_classifier topic))"
    by (rule tx_weaken [OF main]) auto
qed

lemma tx_get_or_create:
  assumes h: "calm h"
  shows "tx_rule topics_inv (get_or_create_body h oe topic) (\<lambda>_. has_topic (t_classifier topic))"
  unfolding get_or_create_body_def
proof (rule tx_bind [OF tx_wrap [OF tx_getTopicByClassifier]], rule tx_option)
  fix existing :: "topic option"
  let ?cl = "t_classifier topic"
  let ?P = "\<lambda>t. topics_inv t \<and> (\<forall>x. existing = Some x \<longrightarrow> holds_row ?cl x t)"
  show "tx_rule ?P (register_topic h oe False topic) (\<lambda>_. has_topic ?cl)"
    by (rule tx_weaken [OF tx_register [OF h]]) (simp_all add: before_register_def)
  fix x
  assume x: "existing = Some x"
  have r: "tx_rule ?P (register_topic h oe True topic) (\<lambda>_. has_topic ?cl)"
    by (rule tx_weaken [OF tx_register [OF h]]) (simp_all add: before_register_def x holds_row_def)
  have "tx_rule (holds_row ?cl x) (bind_io (updateTopicSettingsIfNeeded h x topic) (\<lambda>dto. ret_io (True, Some dto))) (\<lambda>_. has_topic ?cl)"
    by (rule tx_bind [OF tx_updateIfNeeded [OF h]]) (simp add: tx_ret)
  from tx_weaken [OF this, of ?P] x
  have "tx_rule ?P (bind_io (updateTopicSettingsIfNeeded h x topic) (\<lambda>dto. ret_io (True, Some dto))) (\<lambda>_. has_topic ?cl)" by simp
  with r show "tx_rule ?P (if \<not> t_externally_managed topic then
        (if t_instance topic = [] \<or> t_instance topic = t_instance x
         then bind_io (updateTopicSettingsIfNeeded h x topic) (\<lambda>dto. ret_io (True, Some dto))
         else raise_io BadRequest)
      else register_topic h oe True topic) (\<lambda>_. has_topic ?cl)"
    by (simp add: tx_raise)
qed

section \<open>Whole operations\<close>

definition at_rest :: "(tables \<Rightarrow> bool) \<Rightarrow> 'k world \<Rightarrow> bool" where
  "at_rest I w \<longleftrightarrow> txc w = None \<and> I (tabs w)"

lemma rest_with_tx: "tx_rule I f (\<lambda>_. I) \<Longrightarrow> keeps (at_rest I) (with_tx z f)"
  by (rule keepsI) (auto simp: at_rest_def dest: with_tx_sound)

lemma rest_tx [keeps_intros]: "stays I f \<Longrightarrow> keeps (at_rest I) (with_tx z f)"
  by (rule rest_with_tx) (rule stays_tx)

lemma rest_tx_ctx_tx [keeps_intros]: "stays I f \<Longrightarrow> keeps (at_rest I) (with_tx_ctx (with_tx z f))"
  by (rule keepsI) (metis at_rest_def keepsD rest_tx with_tx_ctx_with_tx)

lemma rest_read [keeps_intros]: "keeps (at_rest I) (sql_read q)" "keeps (at_rest I) (sql_first g)"
  by (rule keepsI, auto simp: at_rest_def sql_read_def sql_first_def bind_io_run kill_tx_def pop_fault_def Let_def
      split: list.splits option.splits if_splits)+

lemma rest_write:
  assumes "\<And>t a t'. I t \<Longrightarrow> f t = Inr (a, t') \<Longrightarrow> I t'"
  shows "keeps (at_rest I) (sql_write f)"
  using assms
  by (intro keepsI) (auto simp: at_rest_def sql_write_def kill_tx_def pop_fault_def Let_def
      split: list.splits option.splits if_splits sum.splits)

lemma rest_using_db [keeps_intros]: "keeps (at_rest I) m \<Longrightarrow> keeps (at_rest I) (using_db z m)"
  by (rule keeps_using_db_gen) (simp_all add: at_rest_def)

lemma rest_broker [keeps_intros]: "keeps (at_rest I) (on_broker f)"
  by (rule keepsI) (auto simp: at_rest_def on_broker_def split: prod.splits)

lemma rest_reads [keeps_intros]:
  "keeps (at_rest I) (FindByNamespace ns)" "keeps (at_rest I) (k_GetById iid)" "keeps (at_rest I) k_GetDefault"
  "keeps (at_rest I) (GetKafkaInstanceDesignatorByNamespace ns)" "keeps (at_rest I) (domain_origin ns)"
  "keeps (at_rest I) broadcast_created" "keeps (at_rest I) (FindTopicTemplateById n)"
  "keeps (at_rest I) (FindTopicTemplateByNameAndNamespace nm ns)" "keeps (at_rest I) (GetByNamespace ns)"
proof -
  have f: "keeps (at_rest I) (dao_FindByNamespace ns)" for ns
    unfolding dao_FindByNamespace_def by (intro keeps_intros)
  have i: "keeps (at_rest I) (k_dao_GetInstanceById iid)" for iid
    unfolding k_dao_GetInstanceById_def by (intro keeps_intros)
  show fb: "keeps (at_rest I) (FindByNamespace ns)" for ns unfolding FindByNamespace_def by (intro keeps_intros f)
  show "keeps (at_rest I) (k_GetById iid)" unfolding k_GetById_def by (intro keeps_intros i)
  show "keeps (at_rest I) k_GetDefault" unfolding k_GetDefault_def k_dao_GetDefaultInstance_def defaultInstance_def
    by (intro keeps_intros stays_intros)
  show "keeps (at_rest I) (GetKafkaInstanceDesignatorByNamespace ns)"
    unfolding GetKafkaInstanceDesignatorByNamespace_def k_dao_GetKafkaInstanceDesignatorByNamespace_def
    by (intro keeps_intros f i)
  show "keeps (at_rest I) (domain_origin ns)" unfolding domain_origin_def by (intro keeps_intros fb)
  show "keeps (at_rest I) broadcast_created" unfolding broadcast_created_def by (intro keeps_intros)
  show "keeps (at_rest I) (FindTopicTemplateById n)" unfolding FindTopicTemplateById_def by (intro keeps_intros)
  show "keeps (at_rest I) (FindTopicTemplateByNameAndNamespace nm ns)"
    unfolding FindTopicTemplateByNameAndNamespace_def by (intro keeps_intros)
  show "keeps (at_rest I) (GetByNamespace ns)" unfolding GetByNamespace_def by (intro keeps_intros)
qed


lemma rest_names_and_instances [keeps_intros]:
  "keeps (at_rest I) (resolveTopicName nt cl v)" "keeps (at_rest I) (resolveKafkaInstance cl rq ns)"
  "keeps (at_rest I) (CheckSecurityForBoundNamespaces ns cl)" "keeps (at_rest I) (CheckSecurityForSingleNamespace ns cl)"
  "keeps (at_rest I) (with_instances known ts)" "keeps (at_rest I) (compatible_definitions cl ds)"
proof -
  have m: "keeps (at_rest I) (match_selectors domain_origin cl ss)" for ss :: "kafka_instance selector list"
    by (induction ss) (unfold match_selectors.simps, (intro keeps_intros; assumption?)+)
  have d: "keeps (at_rest I) default_kafka" unfolding default_kafka_def by (intro keeps_intros)
  show "keeps (at_rest I) (resolveTopicName nt cl v)" unfolding resolveTopicName_def Let_def by (intro keeps_intros)
  show "keeps (at_rest I) (resolveKafkaInstance cl rq ns)"
    unfolding resolveKafkaInstance_def MatchDesignator_def Let_def by (intro keeps_intros m d)
  show "keeps (at_rest I) (CheckSecurityForBoundNamespaces ns cl)"
    unfolding CheckSecurityForBoundNamespaces_def GetAllowedNamespaces_def Let_def by (intro keeps_intros)
  show "keeps (at_rest I) (CheckSecurityForSingleNamespace ns cl)"
    unfolding CheckSecurityForSingleNamespace_def by (intro keeps_intros)
  show "keeps (at_rest I) (with_instances known ts)"
    by (induction ts arbitrary: known) (unfold with_instances.simps, (intro keeps_intros; assumption?)+)
  show "keeps (at_rest I) (compatible_definitions cl ds)"
    by (induction ds) (unfold compatible_definitions.simps Let_def, (intro keeps_intros; assumption?)+)
qed

lemma rest_find [keeps_intros]: "keeps (at_rest topics_inv) (FindTopicsBySearchRequest s)"
  unfolding FindTopicsBySearchRequest_def find_topics_body_def by (intro keeps_intros stays_intros)

lemma rest_search [keeps_intros]: "keeps (at_rest topics_inv) (SearchTopicsInDB s)"
  unfolding SearchTopicsInDB_def by (intro keeps_intros)

lemma rest_delete [keeps_intros]:
  assumes "calm h"
  shows "keeps (at_rest topics_inv) (DeleteTopic h t leave)" "keeps (at_rest topics_inv) (DeleteTopics h s)"
proof -
  show d: "keeps (at_rest topics_inv) (DeleteTopic h t leave)" for t leave
    unfolding DeleteTopic_def DeleteTopicRegistration_def
    by (intro keeps_intros stays_intros stays_write assms) (auto intro: delete_topic_inv)
  have "keeps (at_rest topics_inv) (delete_each h leave ts resp)" for leave ts resp
    by (induction ts arbitrary: resp) (unfold delete_each.simps, (intro keeps_intros d; assumption?)+)
  then show "keeps (at_rest topics_inv) (DeleteTopics h s)"
    unfolding DeleteTopics_def by (intro keeps_intros)
qed

definition plain_auth :: "(string \<Rightarrow> classifier \<Rightarrow> ('k, unit) dbio) \<Rightarrow> bool" where
  "plain_auth auth \<longleftrightarrow> auth = CheckSecurityForBoundNamespaces \<or> auth = (\<lambda>ns cl. ret_io ())"

lemma rest_get_or_create [keeps_intros]:
  assumes h: "calm h" and a: "plain_auth auth"
  shows "keeps (at_rest topics_inv) (GetOrCreateTopicWithAuth h c topic oe auth)"
proof -
  have au: "keeps (at_rest topics_inv) (auth ns cl)" for ns cl
    using a by (auto simp: plain_auth_def intro!: keeps_intros)
  have b: "tx_rule topics_inv (get_or_create_body h oe t) (\<lambda>_. topics_inv)" for t
    by (rule tx_weaken [OF tx_get_or_create [OF h]]) (auto dest: has_topic_inv)
  have l: "keeps (at_rest topics_inv) (locked z (get_or_create_body h oe t))" for z t
    unfolding locked_def by (intro rest_with_tx tx_then [OF _ b] stays_tx stays_intros)
  have f: "keeps (at_rest topics_inv) (fill_template topic r)" for r
    unfolding fill_template_def by (intro keeps_intros)
  show ?thesis unfolding GetOrCreateTopicWithAuth_def check_access_def
    by (intro keeps_intros au l f)
qed

lemma stays_template_writes [stays_intros]:
  "stays topics_inv (sql_write (insert_template x))" "stays topics_inv (sql_write (save_template x))"
  "stays topics_inv (sql_write (delete_templates P))" "stays topics_inv (sql_write (attach_templates o1 p))"
  "stays topics_inv (sql_write (insert_definition d))" "stays topics_inv (sql_write (save_definition d))"
  "stays topics_inv (sql_write migrate_definitions)" "stays topics_inv (sql_write (clone_definitions o1 p))"
  "stays topics_inv (sql_write (insert_definition_classifiers rows))"
  "stays topics_inv (sql_write (delete_definitions D))" "stays topics_inv (sql_write (delete_designator ns))"
  "stays topics_inv (sql_write (clone_topics o1 p))" "stays topics_inv (sql_write (mark_dirty n))"
  "stays topics_inv (sql_write (\<lambda>t. delete_definitions (DD t) t))"
  by (rule stays_write, simp add: other_tables_inv | erule (1) clone_inv mark_dirty_inv)+

lemma not_eof_template [simp]:
  "unique_as_template_exists e = UnexpectedEOF \<longleftrightarrow> e = UnexpectedEOF"
  "unique_as_topic_exists e = UnexpectedEOF \<longleftrightarrow> e = UnexpectedEOF"
  by (auto simp: unique_as_template_exists_def unique_as_topic_exists_def IsUniqIntegrityViolation_def)

lemma rest_templates [keeps_intros]:
  "keeps (at_rest topics_inv) (CreateTopicTemplate x)" "keeps (at_rest topics_inv) (UpdateTopicTemplate x new)"
  "keeps (at_rest topics_inv) (MakeTopicsDirtyByTemplate x)" "keeps (at_rest topics_inv) (DeleteTopicTemplate n ns)"
  "keeps (at_rest topics_inv) (DeleteTopicTemplatesByNamespace ns)"
  unfolding CreateTopicTemplate_def InsertTopicTemplate_def UpdateTopicTemplate_def dao_UpdateTopicTemplate_def
    MakeTopicsDirtyByTemplate_def dao_MakeTopicsDirtyByTemplate_def DeleteTopicTemplate_def dao_DeleteTopicTemplate_def
    DeleteTopicTemplatesByNamespace_def
  by (intro keeps_intros stays_intros; simp)+

lemma rest_definitions [keeps_intros]:
  "keeps (at_rest topics_inv) (FindTopicDefinitions ds)" "keeps (at_rest topics_inv) (InsertTopicDefinition d)"
  "keeps (at_rest topics_inv) (dao_UpdateTopicDefinition d)" "keeps (at_rest topics_inv) (DeleteTopicDefinition cl)"
  "keeps (at_rest topics_inv) (DeleteTopicDefinitionsByNamespace ns)"
  "keeps (at_rest topics_inv) (GetOrCreateTopicDefinition c d)"
  "keeps (at_rest topics_inv) (DeleteKafkaInstanceDesignatorByNamespace ns)"
proof -
  show f: "keeps (at_rest topics_inv) (FindTopicDefinitions ds)" for ds
    unfolding FindTopicDefinitions_def by (intro keeps_intros rest_write) (simp add: other_tables_inv)
  show i: "keeps (at_rest topics_inv) (InsertTopicDefinition d)" for d
    unfolding InsertTopicDefinition_def insert_definition_body_def add_definition_sibling_def
    by (intro keeps_intros stays_intros; simp)
  show u: "keeps (at_rest topics_inv) (dao_UpdateTopicDefinition d)" for d
    unfolding dao_UpdateTopicDefinition_def by (intro keeps_intros stays_intros)
  show "keeps (at_rest topics_inv) (DeleteTopicDefinition cl)"
    unfolding DeleteTopicDefinition_def dao_DeleteTopicDefinition_def by (intro keeps_intros stays_intros)
  show "keeps (at_rest topics_inv) (DeleteTopicDefinitionsByNamespace ns)"
    unfolding DeleteTopicDefinitionsByNamespace_def by (intro keeps_intros stays_intros)
  show "keeps (at_rest topics_inv) (GetOrCreateTopicDefinition c d)"
    unfolding GetOrCreateTopicDefinition_def Let_def by (intro keeps_intros f i u)
  show "keeps (at_rest topics_inv) (DeleteKafkaInstanceDesignatorByNamespace ns)"
    unfolding DeleteKafkaInstanceDesignatorByNamespace_def k_dao_DeleteKafkaInstanceDesignatorByNamespace_def
    by (intro keeps_intros stays_intros)
qed

lemma rest_operations:
  assumes h: "calm h"
  shows "keeps (at_rest topics_inv) (GetOrCreateLazyTopic h c cl oe)"
    "keeps (at_rest topics_inv) (CreateTopicByTenantTopic h c d tn)"
    "keeps (at_rest topics_inv) (kafka_CleanupNamespace h ns)"
    "keeps (at_rest topics_inv) (kafka_Warmup h c st)" "keeps (at_rest topics_inv) (kafka_Commit h st)"
    "keeps (at_rest topics_inv) MigrateKafka"
proof -
  have g: "keeps (at_rest topics_inv) (GetOrCreateTopic h c t oe)" for t oe
    unfolding GetOrCreateTopic_def by (intro keeps_intros h) (simp add: plain_auth_def)
  show "keeps (at_rest topics_inv) (GetOrCreateLazyTopic h c cl oe)"
    unfolding GetOrCreateLazyTopic_def GetTopicDefinitionsByNamespaceAndKind_def by (intro keeps_intros g)
  show "keeps (at_rest topics_inv) (CreateTopicByTenantTopic h c d tn)"
    unfolding CreateTopicByTenantTopic_def GetTopicTemplateByName_def Let_def by (intro keeps_intros g)
  show "keeps (at_rest topics_inv) (kafka_CleanupNamespace h ns)"
    unfolding kafka_CleanupNamespace_def by (intro keeps_intros h)
  show "keeps (at_rest topics_inv) (kafka_Commit h st)"
    unfolding kafka_Commit_def by (intro keeps_intros h)
  show "keeps (at_rest topics_inv) MigrateKafka"
    unfolding MigrateKafka_def dao_Migrate_def by (intro keeps_intros stays_intros)
  have w: "keeps (at_rest topics_inv) (dao_Warmup o1 p)" for o1 p
    unfolding dao_Warmup_def migrateBg2KafkaTopicDefinitions_def topicTemplateAttachNamespace_def by (intro keeps_intros stays_intros)
  have cp: "keeps (at_rest topics_inv) (copyVersionedTopics h c a b)" for a b
    unfolding copyVersionedTopics_def by (intro keeps_intros h) (simp add: plain_auth_def)
  show "keeps (at_rest topics_inv) (kafka_Warmup h c st)"
    unfolding kafka_Warmup_def by (intro keeps_intros w cp)
qed

end
