(* ===== verification/Maas_Kafka_Props.thy ===== *)
theory Maas_Kafka_Props
  imports Maas_Kafka_Rules
begin

text \<open>
  What the Kafka service promises of its registrations: one topic for a classifier in every
  reachable state, nothing left behind by a request that fails, a topic for every request that
  succeeds, topics shared by the two namespaces of a domain, and the names topics get.
\<close>

section \<open>Reachable states\<close>

text \<open>
  A service starts with tables that hold no topics.  Its steps are the operations of the service,
  each with any outcome, and what happens around it: faults, a master lost or regained, changes
  of the brokers and of every other table, by other requests and other components.
\<close>

definition around :: "'k world \<Rightarrow> 'k world \<Rightarrow> bool" where
  "around w w' \<longleftrightarrow> txc w' = None \<and> topics (tabs w') = topics (tabs w) \<and> topic_classifiers (tabs w') = topic_classifiers (tabs w)"

inductive kafka_step :: "'k kafka_helper \<Rightarrow> 'k world \<Rightarrow> 'k world \<Rightarrow> bool" for h where
  step_around: "around w w' \<Longrightarrow> kafka_step h w w'"
| step_create: "w' \<in> {snd (GetOrCreateTopic h c t oe w), snd (GetOrCreateLazyTopic h c cl oe w), snd (CreateTopicByTenantTopic h c d tn w)} \<Longrightarrow>
    kafka_step h w w'"
| step_update: "stored (t_id x) (t_classifier x) (tabs w) \<Longrightarrow> w' = snd (UpdateTopicSettingsByTemplate h x tmpl w) \<Longrightarrow> kafka_step h w w'"
| step_look: "w' \<in> {snd (SearchTopics h s w), snd (GetTopicByClassifierWithBgDomain h c cl w), snd (SyncAllTopicsToKafka h ns w),
    snd (SyncTopicToKafka h c cl w), snd (GetDiscrepancyReport h ns fits w)} \<Longrightarrow> kafka_step h w w'"
| step_delete: "w' \<in> {snd (DeleteTopics h s w), snd (DeleteTopic h x leave w), snd (kafka_CleanupNamespace h ns w)} \<Longrightarrow> kafka_step h w w'"
| step_template: "w' \<in> {snd (CreateTopicTemplate tmpl w), snd (UpdateTopicTemplate tmpl new w), snd (MakeTopicsDirtyByTemplate tmpl w),
    snd (DeleteTopicTemplate n ns w)} \<Longrightarrow> kafka_step h w w'"
| step_definition: "w' \<in> {snd (GetOrCreateTopicDefinition c d w), snd (DeleteTopicDefinition cl w)} \<Longrightarrow> kafka_step h w w'"
| step_blue_green: "w' \<in> {snd (kafka_Warmup h c st w), snd (kafka_Commit h st w), snd (kafka_DestroyDomain n2 w), snd (MigrateKafka w)} \<Longrightarrow>
    kafka_step h w w'"

inductive kafka_reachable :: "'k kafka_helper \<Rightarrow> 'k world \<Rightarrow> bool" for h where
  start: "topics (tabs w) = [] \<Longrightarrow> topic_classifiers (tabs w) = [] \<Longrightarrow> txc w = None \<Longrightarrow> kafka_reachable h w"
| step: "kafka_reachable h w \<Longrightarrow> kafka_step h w w' \<Longrightarrow> kafka_reachable h w'"

lemma rest_more [keeps_intros]:
  shows "keeps (at_rest topics_inv) (getTopicByClassifier cl)"
    "keeps (at_rest topics_inv) (GetTopicByClassifierWithBgDomain h c cl)"
    "keeps (at_rest topics_inv) (SearchTopics h s)"
    "keeps (at_rest topics_inv) (SyncAllTopicsToKafka h ns)" "keeps (at_rest topics_inv) (SyncTopicToKafka h c cl)"
    "keeps (at_rest topics_inv) (GetDiscrepancyReport h ns fits)" "keeps (at_rest topics_inv) (kafka_DestroyDomain n)"
proof -
  show g: "keeps (at_rest topics_inv) (getTopicByClassifier cl)" for cl
    unfolding getTopicByClassifier_def by (intro keeps_intros)
  show "keeps (at_rest topics_inv) (GetTopicByClassifierWithBgDomain h c cl)"
    unfolding GetTopicByClassifierWithBgDomain_def GetTopicByClassifier_def check_access_def by (intro keeps_intros g)
  show "keeps (at_rest topics_inv) (SearchTopics h s)" unfolding SearchTopics_def by (intro keeps_intros)
  show "keeps (at_rest topics_inv) (SyncAllTopicsToKafka h ns)"
    unfolding SyncAllTopicsToKafka_def sync_topic_def by (intro keeps_intros)
  show "keeps (at_rest topics_inv) (SyncTopicToKafka h c cl)" unfolding SyncTopicToKafka_def by (intro keeps_intros)
  have "keeps (at_rest topics_inv) (existing_by_instance h ts is)" for ts "is"
    by (induction "is") (unfold existing_by_instance.simps Let_def, (intro keeps_intros; assumption?)+)
  then show "keeps (at_rest topics_inv) (GetDiscrepancyReport h ns fits)"
    unfolding GetDiscrepancyReport_def Let_def by (intro keeps_intros)
  show "keeps (at_rest topics_inv) (kafka_DestroyDomain n)"
    unfolding kafka_DestroyDomain_def no_topics_in_def by (intro keeps_intros)
qed

lemma rest_update_by_template:
  assumes h: "calm h" and w: "at_rest topics_inv w" "stored (t_id x) (t_classifier x) (tabs w)"
    and run: "UpdateTopicSettingsByTemplate h x tmpl w = (r, w')"
  shows "at_rest topics_inv w'"
proof -
  let ?y = "x\<lparr>t_dirty := False, t_settings := tt_settings tmpl\<rparr>"
  let ?none = "\<lparr>c_name = [], c_namespace = [], c_tenant = []\<rparr>"
  have none: "has_topic ?none t = topics_inv t" for t by (simp add: has_topic_def classifier_IsEmpty_def)
  have body: "tx_rule (holds_row ?none ?y) (then_io (sql_write (save_topic ?y)) (on_broker (h_UpdateTopicSettings h dto))) (\<lambda>_. topics_inv)" for dto
    by (intro tx_then [where R = topics_inv] tx_write stays_tx stays_helper h)
      (use save_topic_inv [of _ ?y] in \<open>auto simp: holds_row_def none\<close>)
  have "w' = w \<or>
    (\<exists>dto r1. with_tx dto (then_io (sql_write (save_topic ?y)) (on_broker (h_UpdateTopicSettings h dto))) w = (r1, w'))"
    using run by (auto simp: UpdateTopicSettingsByTemplate_def updateSettings_def UpdateTopicRegistration_def
        bind_io_run Let_def split: if_splits prod.splits sum.splits)
  then show ?thesis
  proof (elim disjE exE)
    fix dto r1
    assume "with_tx dto (then_io (sql_write (save_topic ?y)) (on_broker (h_UpdateTopicSettings h dto))) w = (r1, w')"
    from with_tx_sound [OF body _ this] w show ?thesis by (auto simp: at_rest_def holds_row_def none)
  qed (use w in simp)
qed

lemma rest_GetOrCreate: "calm h \<Longrightarrow> keeps (at_rest topics_inv) (GetOrCreateTopic h c t oe)"
  unfolding GetOrCreateTopic_def by (rule rest_get_or_create) (simp_all add: plain_auth_def)

lemma keeps_snd: "keeps P m \<Longrightarrow> P w \<Longrightarrow> P (snd (m w))"
  by (simp add: keeps_def)

lemma step_inv:
  assumes h: "calm h" and "kafka_step h w w'" and w: "at_rest topics_inv w"
  shows "at_rest topics_inv w'"
  using assms(2)
proof cases
  case step_around
  with w show ?thesis using topics_inv_frame [of "tabs w'" "tabs w"] by (simp add: at_rest_def around_def)
next
  case (step_update x tmpl)
  then show ?thesis using rest_update_by_template [OF h w] by (metis prod.collapse)
qed (auto intro!: keeps_snd [of "at_rest topics_inv" _ w, OF _ w] rest_GetOrCreate rest_operations rest_delete rest_templates rest_definitions rest_more h)

lemma reachable_inv: "kafka_reachable h w \<Longrightarrow> calm h \<Longrightarrow> at_rest topics_inv w"
proof (induction rule: kafka_reachable.induct)
  case (start w)
  then show ?case
    by (simp add: at_rest_def topics_inv_def topics_ok_def keys_ok_def topic_keys_def classifier_keys_def)
next
  case (step w w')
  then show ?case using step_inv by blast
qed

section \<open>The master\<close>

text \<open>No request changes whether the master is known to be alive.\<close>

definition alive_is :: "bool \<Rightarrow> 'k world \<Rightarrow> bool" where
  "alive_is b w \<longleftrightarrow> master_alive w = b"

lemma alive_statements [keeps_intros]:
  "keeps (alive_is b) (sql_read q)" "keeps (alive_is b) (sql_write f)" "keeps (alive_is b) (on_broker g)"
  by (rule keepsI, auto simp: alive_is_def sql_read_def sql_write_def on_broker_def kill_tx_def pop_fault_def Let_def
      split: list.splits option.splits if_splits sum.splits prod.splits)+

lemma alive_first [keeps_intros]: "keeps (alive_is b) (sql_first q)"
  unfolding sql_first_def by (intro keeps_intros)

lemma alive_using_db [keeps_intros]: "keeps (alive_is b) m \<Longrightarrow> keeps (alive_is b) (using_db z m)"
  by (rule keeps_using_db_gen) (simp_all add: alive_is_def)

lemma alive_tx_ctx [keeps_intros]: "keeps (alive_is b) m \<Longrightarrow> keeps (alive_is b) (with_tx_ctx m)"
proof (rule keepsI)
  fix w r w'
  assume m: "keeps (alive_is b) m" and w: "alive_is b w" and run: "with_tx_ctx m w = (r, w')"
  have e: "tx_end r1 w1 = (r, w') \<Longrightarrow> alive_is b w1 \<Longrightarrow> alive_is b w'" for r1 w1
    by (auto simp: tx_end_def tx_commit_def alive_is_def pop_fault_def Let_def split: option.splits sum.splits prod.splits list.splits if_splits)
  show "alive_is b w'"
  proof (cases "txc w")
    case None
    with run obtain r1 w1 where "m (w\<lparr>txc := Some \<lparr>nesting = 1, begun = None, tx_dead = False\<rparr>\<rparr>) = (r1, w1)" "tx_end r1 w1 = (r, w')"
      by (auto simp: with_tx_ctx_def split: prod.splits)
    with e keepsD [OF m] w show ?thesis by (fastforce simp: alive_is_def)
  next
    case (Some c)
    with run obtain w1 where 1: "m (w\<lparr>txc := Some (c\<lparr>nesting := nesting c + 1\<rparr>)\<rparr>) = (r, w1)"
      "w' = (case txc w1 of None \<Rightarrow> w1 | Some c' \<Rightarrow> w1\<lparr>txc := Some (c'\<lparr>nesting := nesting c' - 1\<rparr>)\<rparr>)"
      by (auto simp: with_tx_ctx_def split: prod.splits)
    from keepsD [OF m 1(1)] w have "alive_is b w1" by (simp add: alive_is_def)
    with 1(2) show ?thesis by (auto simp: alive_is_def split: option.splits)
  qed
qed

lemma alive_with_tx [keeps_intros]: "keeps (alive_is b) m \<Longrightarrow> keeps (alive_is b) (with_tx z m)"
proof (rule keepsI)
  fix w r w'
  assume m: "keeps (alive_is b) m" and w: "alive_is b w" and run: "with_tx z m w = (r, w')"
  have "keeps (alive_is b) tx_begin" by (rule keepsI) (auto simp: tx_begin_def alive_is_def split: option.splits prod.splits)
  then have "keeps (alive_is b) (using_db z (then_io tx_begin m))" by (intro keeps_intros m)
  with run w show "alive_is b w'"
    unfolding with_tx_def Let_def by (metis alive_tx_ctx keepsD)
qed

lemma alive_reads [keeps_intros]:
  "keeps (alive_is b) (FindByNamespace ns)" "keeps (alive_is b) (k_GetById iid)" "keeps (alive_is b) k_GetDefault"
  "keeps (alive_is b) (GetKafkaInstanceDesignatorByNamespace ns)" "keeps (alive_is b) (domain_origin ns)"
  "keeps (alive_is b) (GetByNamespace ns)"
proof -
  have f: "keeps (alive_is b) (dao_FindByNamespace ns)" for ns unfolding dao_FindByNamespace_def by (intro keeps_intros)
  have i: "keeps (alive_is b) (k_dao_GetInstanceById iid)" for iid unfolding k_dao_GetInstanceById_def by (intro keeps_intros)
  show fb: "keeps (alive_is b) (FindByNamespace ns)" for ns unfolding FindByNamespace_def by (intro keeps_intros f)
  show "keeps (alive_is b) (k_GetById iid)" unfolding k_GetById_def by (intro keeps_intros i)
  show "keeps (alive_is b) k_GetDefault" unfolding k_GetDefault_def k_dao_GetDefaultInstance_def defaultInstance_def
    by (intro keeps_intros)
  show "keeps (alive_is b) (GetKafkaInstanceDesignatorByNamespace ns)"
    unfolding GetKafkaInstanceDesignatorByNamespace_def k_dao_GetKafkaInstanceDesignatorByNamespace_def by (intro keeps_intros f i)
  show "keeps (alive_is b) (domain_origin ns)" unfolding domain_origin_def by (intro keeps_intros fb)
  show "keeps (alive_is b) (GetByNamespace ns)" unfolding GetByNamespace_def by (intro keeps_intros)
qed

lemma alive_names_and_instances [keeps_intros]:
  "keeps (alive_is b) (resolveTopicName nt cl v)" "keeps (alive_is b) (resolveKafkaInstance cl rq ns)"
  "keeps (alive_is b) (CheckSecurityForBoundNamespaces ns cl)"
proof -
  have m: "keeps (alive_is b) (match_selectors domain_origin cl ss)" for ss :: "kafka_instance selector list"
    by (induction ss) (unfold match_selectors.simps, (intro keeps_intros; assumption?)+)
  have d: "keeps (alive_is b) default_kafka" unfolding default_kafka_def by (intro keeps_intros)
  show "keeps (alive_is b) (resolveTopicName nt cl v)" unfolding resolveTopicName_def Let_def by (intro keeps_intros)
  show "keeps (alive_is b) (resolveKafkaInstance cl rq ns)"
    unfolding resolveKafkaInstance_def MatchDesignator_def Let_def by (intro keeps_intros m d)
  show "keeps (alive_is b) (CheckSecurityForBoundNamespaces ns cl)"
    unfolding CheckSecurityForBoundNamespaces_def GetAllowedNamespaces_def Let_def by (intro keeps_intros)
qed

section \<open>Requests for a topic\<close>

text \<open>
  What comes before the transaction of a request only reads, and so does what comes after it.
\<close>

lemma get_or_create_phases:
  assumes a: "plain_auth auth" and w: "at_rest I w" and run: "GetOrCreateTopicWithAuth h c topic oe auth w = (r, w')"
  obtains (before) e where "r = Inl e" "at_rest I w'"
  | (locked) t w1 r1 w2 where "at_rest I w1" "master_alive w1 = master_alive w" "t_classifier t = t_classifier topic"
      "locked (False, None) (get_or_create_body h oe t) w1 = (r1, w2)"
      "case r1 of Inl e \<Rightarrow> r = Inl e \<and> w' = w2 | Inr x \<Rightarrow> fill_template topic x w2 = (r, w')"
proof -
  have au: "keeps (at_rest I) (auth ns cl)" "keeps (alive_is b) (auth ns cl)" for ns cl b
    using a by (auto simp: plain_auth_def intro!: keeps_intros)
  have ca: "keeps (at_rest I) (check_access c auth cl)" "keeps (alive_is b) (check_access c auth cl)" for cl b
    unfolding check_access_def by (intro keeps_intros au)+
  obtain r0 w0 where 0: "check_access c auth (t_classifier topic) w = (r0, w0)" by (metis surj_pair)
  have p0: "at_rest I w0" "master_alive w0 = master_alive w"
    using keepsD [OF ca(1) 0 w] keepsD [OF ca(2) 0, of "master_alive w"] by (simp_all add: alive_is_def)
  obtain r1 w1 where 1: "wrap_io (resolveTopicName (t_topic topic) (t_classifier topic) (versioned (t_settings topic))) w0 = (r1, w1)"
    by (metis surj_pair)
  have n: "keeps (at_rest I) (wrap_io (resolveTopicName n cl v))" "keeps (alive_is b) (wrap_io (resolveTopicName n cl v))"
    "keeps (at_rest I) (wrap_io (resolveKafkaInstance cl q s))" "keeps (alive_is b) (wrap_io (resolveKafkaInstance cl q s))" for n cl v b q s
    by (intro keeps_intros)+
  have p1: "at_rest I w1" "master_alive w1 = master_alive w"
    using keepsD [OF n(1) 1 p0(1)] keepsD [OF n(2) 1, of "master_alive w"] p0 by (simp_all add: alive_is_def)
  obtain r2 w2 where 2: "wrap_io (resolveKafkaInstance (t_classifier topic) (t_instance topic) (c_namespace (t_classifier topic))) w1 = (r2, w2)"
    by (metis surj_pair)
  have p2: "at_rest I w2" "master_alive w2 = master_alive w"
    using keepsD [OF n(3) 2 p1(1)] keepsD [OF n(4) 2, of "master_alive w"] p1 by (simp_all add: alive_is_def)
  show thesis
  proof (cases "\<exists>name i. r0 = Inr () \<and> r1 = Inr name \<and> r2 = Inr (Some i)")
    case True
    then obtain name i where r: "r0 = Inr ()" "r1 = Inr name" "r2 = Inr (Some i)" by blast
    obtain r3 w3 where 3: "Maas_Kafka.locked (False, None)
        (get_or_create_body h oe (topic\<lparr>t_topic := name, t_instance := ki_id i, t_instance_ref := Some i\<rparr>)) w2 = (r3, w3)"
      by (metis surj_pair)
    have "case r3 of Inl e \<Rightarrow> r = Inl e \<and> w' = w3 | Inr x \<Rightarrow> fill_template topic x w3 = (r, w')"
      using run 0 1 2 3 r by (auto simp: GetOrCreateTopicWithAuth_def bind_io_run then_io_run split: sum.splits)
    from locked [OF p2 _ 3 this] show thesis by simp
  next
    case False
    show thesis
    proof (rule before)
      show "r = Inl (case r of Inl e \<Rightarrow> e)" "at_rest I w'"
        using run 0 1 2 False p0 p1 p2
        by (auto simp: GetOrCreateTopicWithAuth_def bind_io_run then_io_run split: sum.splits option.splits)
    qed
  qed
qed

lemma locked_effect:
  assumes h: "calm h" and w: "at_rest topics_inv w" and run: "locked z (get_or_create_body h oe t) w = (r, w')"
  shows "txc w' = None" "r = Inl e \<Longrightarrow> tabs w' = tabs w" "r = Inr a \<Longrightarrow> master_alive w \<Longrightarrow> has_topic (t_classifier t) (tabs w')"
proof -
  have b: "tx_rule topics_inv (then_io (wrap_io (sql_read (\<lambda>_. ()))) (get_or_create_body h oe t)) (\<lambda>_. has_topic (t_classifier t))"
    by (intro tx_then [OF _ tx_get_or_create [OF h]] stays_tx stays_intros)
  have w: "txc w = None" "topics_inv (tabs w)" using w by (simp_all add: at_rest_def)
  show "txc w' = None" "r = Inl e \<Longrightarrow> tabs w' = tabs w"
    using with_tx_sound [OF b w(1) run [unfolded locked_def] w(2)] by auto
  show "r = Inr a \<Longrightarrow> master_alive w \<Longrightarrow> has_topic (t_classifier t) (tabs w')"
    using with_tx_alive [OF b w(1) _ w(2)] run by (auto simp: locked_def)
qed

lemma rest_fill_template: "keeps (at_rest I) (fill_template topic x)"
  unfolding fill_template_def by (intro keeps_intros)



text \<open>
  C14 A request for a topic that succeeds while the master is alive leaves exactly one topic for
  its classifier, whether it found, merged, updated or created it, whatever failed on the way.
\<close>

theorem requested_topic_exists:
  assumes "calm h" "kafka_reachable h w" "plain_auth auth" "master_alive w" "\<not> classifier_IsEmpty (t_classifier topic)"
    and run: "GetOrCreateTopicWithAuth h c topic oe auth w = (Inr answer, w')"
  shows "length (search_topics (no_search\<lparr>ts_classifier := t_classifier topic\<rparr>) (tabs w')) = 1"
proof -
  let ?cl = "t_classifier topic"
  have w: "at_rest topics_inv w" using reachable_inv assms(1,2) by blast
  have "at_rest (has_topic ?cl) w'"
  proof (cases rule: get_or_create_phases [OF assms(3) w run])
    case (2 t w1 r1 w2)
    obtain x where x: "r1 = Inr x" "fill_template topic x w2 = (Inr answer, w')"
      using 2(5) by (auto split: sum.splits)
    have "at_rest (has_topic ?cl) w2"
      using locked_effect [OF assms(1) 2(1,4)] x(1) 2(2,3) assms(4) by (simp add: at_rest_def)
    then show ?thesis using keepsD [OF rest_fill_template x(2)] by blast
  qed simp
  then have t: "has_topic ?cl (tabs w')" by (simp add: at_rest_def)
  have "search_topics (no_search\<lparr>ts_classifier := ?cl\<rparr>) (tabs w') \<noteq> []" by (rule has_topic_found [OF t assms(5)])
  with one_topic [OF has_topic_inv [OF t] assms(5)] show ?thesis
    by (cases "search_topics (no_search\<lparr>ts_classifier := ?cl\<rparr>) (tabs w')") auto
qed

section \<open>A broker and a domain to run the properties on\<close>

text \<open>The state of this broker is the names of its topics.\<close>

definition demo_helper :: "string list kafka_helper" where
  "demo_helper = \<lparr>
     h_CreateTopic = (\<lambda>t k. if t_topic t \<in> set k then (Inl Generic, k) else (ToResponseDto t, t_topic t # k)),
     h_DeleteTopic = (\<lambda>t k. (Inr (), removeAll (t_topic t) k)),
     h_UpdateTopicSettings = (\<lambda>d k. if td_name d \<in> set k then (Inr d, k) else (Inl Generic, k)),
     h_GetTopicSettings = (\<lambda>d k. if td_name d \<in> set k then (Inr (d\<lparr>td_actual := td_requested d\<rparr>), k) else (Inl Generic, k)),
     h_GetExistingTopics = (\<lambda>i ns k. (Inr [n \<leftarrow> ns. n \<in> set k], k)),
     h_DoesTopicExistOnKafka = (\<lambda>i n k. (Inr (n \<in> set k), k)),
     h_BulkGetTopicSettings = (\<lambda>ds k. (Inr ds, k))\<rparr>"

text \<open>Its deletions can be made to fail.\<close>

definition stuck_helper :: "string list kafka_helper" where
  "stuck_helper = demo_helper\<lparr>h_DeleteTopic := (\<lambda>t k. (Inl Generic, k))\<rparr>"

lemma calm_demo: "calm demo_helper" "calm stuck_helper"
  by (auto simp: calm_def demo_helper_def stuck_helper_def)

definition demo_instance :: kafka_instance where
  "demo_instance = kafka_a\<lparr>ki_addresses := [(''PLAINTEXT'', [''a:9092''])]\<rparr>"

definition demo_start :: "string list world" where
  "demo_start = mk_world (empty_tables\<lparr>kafka_instances := [demo_instance],
     bg_domains := [\<lparr>d_id = 1, d_controller = None, d_origin = ''org'', d_peer = ''peer''\<rparr>]\<rparr>) []"

definition demo_ctx :: ctx where
  "demo_ctx = \<lparr>ctx_security = None, ctx_request = Some \<lparr>rc_namespace = ''org'', rc_microservice = ''svc'', rc_version = ''v1''\<rparr>\<rparr>"

definition demo_topic :: "string \<Rightarrow> string \<Rightarrow> topic" where
  "demo_topic ns n = \<lparr>t_id = 0, t_classifier = \<lparr>c_name = n, c_namespace = ns, c_tenant = []\<rparr>, t_topic = [], t_instance = [],
     t_namespace = ns, t_externally_managed = False, t_settings = no_settings, t_template = None, t_dirty = False,
     t_tenant = None, t_create_req = None, t_instance_ref = None\<rparr>"

definition demo_created :: "string list world" where
  "demo_created = snd (GetOrCreateTopic demo_helper demo_ctx (demo_topic ''org'' ''orders'') Fail demo_start)"

lemma start_reachable: "kafka_reachable h demo_start"
  by (rule start) (simp_all add: demo_start_def empty_tables_def)

lemma orders_reachable: "kafka_reachable demo_helper demo_created"
  by (rule kafka_reachable.step [OF start_reachable]) (auto simp: demo_created_def intro: kafka_step.intros)



theorem requested_topic_exists_witness:
  "length (search_topics (no_search\<lparr>ts_classifier := t_classifier (demo_topic ''org'' ''orders'')\<rparr>)
     (tabs (snd (GetOrCreateTopicWithAuth demo_helper demo_ctx (demo_topic ''org'' ''orders'') Merge CheckSecurityForBoundNamespaces demo_start)))) = 1"
proof -
  let ?run = "GetOrCreateTopicWithAuth demo_helper demo_ctx (demo_topic ''org'' ''orders'') Merge CheckSecurityForBoundNamespaces demo_start"
  have "\<not> isl (fst ?run)" by code_simp
  then obtain answer where e: "?run = (Inr answer, snd ?run)" by (metis prod.collapse sum.collapse(2))
  show ?thesis
    by (rule requested_topic_exists [OF calm_demo(1) start_reachable _ _ _ e])
      (simp_all add: plain_auth_def demo_start_def demo_topic_def classifier_IsEmpty_def)
qed

section \<open>Blue/green operations\<close>

text \<open>
  What a search finds at the top of a request, when it returns at all while the master is alive:
  everything that matches, and nothing is changed.
\<close>

lemma find_top:
  assumes w: "at_rest topics_inv w" and run: "FindTopicsBySearchRequest s w = (r, w')"
  shows "at_rest topics_inv w' \<and> tabs w' = tabs w \<and> (master_alive w \<longrightarrow> (\<forall>xs. r = Inr xs \<longrightarrow> xs = search_topics s (tabs w)))"
proof -
  have w: "txc w = None" "topics_inv (tabs w) \<and> tabs w = tabs w" using w by (simp_all add: at_rest_def)
  note run = run [unfolded FindTopicsBySearchRequest_def]
  have "txc w' = None \<and> tabs w' = tabs w"
    using with_tx_sound [OF tx_find_body [of "tabs w"] w(1) run w(2)] by auto
  moreover have "xs = search_topics s (tabs w)" if "master_alive w" "r = Inr xs" for xs
    using with_tx_alive [OF tx_find_body [of "tabs w"] w(1) _ w(2) that(1)] run that(2) by auto
  ultimately show ?thesis using w by (simp add: at_rest_def)
qed

lemma alive_find [keeps_intros]: "keeps (alive_is b) (FindTopicsBySearchRequest s)"
  unfolding FindTopicsBySearchRequest_def find_topics_body_def by (intro keeps_intros)

definition in_namespace :: "string \<Rightarrow> tables \<Rightarrow> topic \<Rightarrow> bool" where
  "in_namespace ns t r \<longleftrightarrow> t_namespace r = ns \<or> topic_classified t (\<lambda>c. c_namespace c = ns) r"

lemma search_in_namespace:
  "search_topics (no_search\<lparr>ts_namespace := ns\<rparr>) t = [] \<Longrightarrow> r \<in> set (topics t) \<Longrightarrow> \<not> in_namespace ns t r"
  by (auto simp: search_topics_def search_matches_def no_search_def filter_empty_conv classifier_IsEmpty_def in_namespace_def)

lemma no_topics_top:
  assumes w: "at_rest topics_inv w" and a: "master_alive w" and run: "no_topics_in ns w = (Inr (), w')"
  shows "at_rest topics_inv w' \<and> tabs w' = tabs w \<and> master_alive w' \<and> (\<forall>r \<in> set (topics (tabs w)). \<not> in_namespace ns (tabs w) r)"
proof -
  obtain xs where xs: "FindTopicsBySearchRequest (no_search\<lparr>ts_namespace := ns\<rparr>) w = (Inr xs, w')" "xs = []"
    using run by (auto simp: no_topics_in_def bind_io_run wrap_io_run split: prod.splits sum.splits if_splits)
  from find_top [OF w xs(1)] keepsD [OF alive_find xs(1), of True] a xs(2) search_in_namespace
  show ?thesis by (auto simp: alive_is_def)
qed

text \<open>
  The Kafka service lets a domain be destroyed, while the master is alive, only when no topic
  has a registration or a classifier in either of its namespaces.
\<close>

theorem destroyed_domain_has_no_topics:
  assumes "calm h" "kafka_reachable h w" "master_alive w" "kafka_DestroyDomain n w = (Inr (), w')"
  shows "tabs w' = tabs w \<and> (\<forall>r \<in> set (topics (tabs w)). \<not> in_namespace (n_origin n) (tabs w) r \<and> \<not> in_namespace (n_peer n) (tabs w) r)"
proof -
  obtain w1 where 1: "no_topics_in (n_origin n) w = (Inr (), w1)" "no_topics_in (n_peer n) w1 = (Inr (), w')"
    using assms(4) by (auto simp: kafka_DestroyDomain_def then_io_run split: prod.splits sum.splits)
  have o: "at_rest topics_inv w1 \<and> tabs w1 = tabs w \<and> master_alive w1 \<and> (\<forall>r \<in> set (topics (tabs w)). \<not> in_namespace (n_origin n) (tabs w) r)"
    by (rule no_topics_top [OF reachable_inv [OF assms(2,1)] assms(3) 1(1)])
  with no_topics_top [OF _ _ 1(2)] show ?thesis by auto
qed

theorem destroyed_domain_has_no_topics_witness:
  "topics (tabs demo_created) \<noteq> [] \<and>
   [r \<leftarrow> topics (tabs demo_created). in_namespace ''green'' (tabs demo_created) r] = [] \<and>
   [r \<leftarrow> topics (tabs demo_created). in_namespace ''blue'' (tabs demo_created) r] = []"
proof
  let ?n = "\<lparr>n_origin = ''green'', n_peer = ''blue'', n_controller = []\<rparr>"
  let ?run = "kafka_DestroyDomain ?n demo_created"
  show "topics (tabs demo_created) \<noteq> []" by code_simp
  have "fst ?run = Inr ()" by code_simp
  then have e: "?run = (Inr (), snd ?run)" by (metis prod.collapse)
  have a: "master_alive demo_created" by code_simp
  from destroyed_domain_has_no_topics [OF calm_demo(1) orders_reachable a e]
  show "[r \<leftarrow> topics (tabs demo_created). in_namespace ''green'' (tabs demo_created) r] = [] \<and>
   [r \<leftarrow> topics (tabs demo_created). in_namespace ''blue'' (tabs demo_created) r] = []"
    by (simp add: filter_empty_conv)
qed

text \<open>A topic that is not versioned is known in both namespaces or in none.\<close>

definition shared :: "string \<Rightarrow> string \<Rightarrow> tables \<Rightarrow> bool" where
  "shared orig peer t \<longleftrightarrow> (\<forall>r \<in> set (topics t). \<not> versioned (t_settings r) \<longrightarrow>
     topic_classified t (\<lambda>c. c_namespace c = orig) r = topic_classified t (\<lambda>c. c_namespace c = peer) r)"

lemma classified_keys: "topic_classified t P r \<longleftrightarrow> (\<exists>cl. (t_id r, cl) \<in> set (classifier_keys t) \<and> P cl)"
  by (auto simp: topic_classified_def list_ex_iff in_keys)

lemma clone_shares:
  assumes "clone_topics orig peer t = Inr (a, t')"
  shows "shared orig peer t'"
proof -
  let ?rows = "remdups (clone_half orig peer t @ clone_half peer orig t)"
  note r = insert_classifiers_rows [OF assms [unfolded clone_topics_def]]
  have half: "topic_classified t' (\<lambda>c. c_namespace c = b) x"
    if x: "x \<in> set (topics t)" "\<not> versioned (t_settings x)" "topic_classified t' (\<lambda>c. c_namespace c = a) x"
      and ab: "set (clone_half a b t) \<union> set (clone_half b a t) = set ?rows" for a b x
  proof -
    have keys: "set (classifier_keys t') = set (classifier_keys t) \<union> set (clone_half a b t) \<union> set (clone_half b a t)"
      using r(2) ab by auto
    obtain cl where cl: "(t_id x, cl) \<in> set (classifier_keys t')" "c_namespace cl = a" using x(3) by (auto simp: classified_keys)
    then consider "(t_id x, cl) \<in> set (classifier_keys t)" | "(t_id x, cl) \<in> set (clone_half a b t)" | "(t_id x, cl) \<in> set (clone_half b a t)"
      using keys by auto
    then show ?thesis
    proof cases
      case 1
      show ?thesis
      proof (cases "topic_classified t (\<lambda>c. c_namespace c = b) x")
        case False
        with 1 cl x have "(t_id x, (t_classifier x)\<lparr>c_namespace := b\<rparr>) \<in> set (clone_half a b t)"
          by (auto simp: clone_half_def classified_keys)
        with keys show ?thesis by (force simp: classified_keys)
      qed (use keys in \<open>auto simp: classified_keys\<close>)
    next
      case 2
      with cl have "b = a" by (auto simp: clone_half_def)
      with x show ?thesis by simp
    next
      case 3
      then have "topic_classified t (\<lambda>c. c_namespace c = b) x" by (auto simp: clone_half_def classified_keys)
      with keys show ?thesis by (auto simp: classified_keys)
    qed
  qed
  show ?thesis unfolding shared_def r(3) using half [of _ orig peer] half [of _ peer orig] by auto
qed

lemma shared_frame:
  "topics t' = topics t \<and> topic_classifiers t' = topic_classifiers t \<Longrightarrow> shared o1 p t' = shared o1 p t"
  by (simp add: shared_def topic_classified_def)

lemmas other_tables_shared = other_tables [THEN shared_frame]

lemma tx_dao_Warmup_body:
  "tx_rule (\<lambda>t. topics t = T)
     (then_io (wrap_io (sql_write migrate_topics)) (then_io (wrap_io (sql_write (clone_topics orig peer)))
     (then_io (wrap_io (migrateBg2KafkaTopicDefinitions orig peer)) (wrap_io (topicTemplateAttachNamespace orig peer)))))
     (\<lambda>_ t. topics t = T \<and> shared orig peer t)"
proof (rule tx_then [where R = "\<lambda>t. topics t = T"])
  let ?Q = "\<lambda>t. topics t = T \<and> shared orig peer t"
  show "tx_rule (\<lambda>t. topics t = T) (wrap_io (sql_write migrate_topics)) (\<lambda>_ t. topics t = T)"
    by (intro tx_wrap tx_write) (auto simp: migrate_topics_def dest: insert_classifiers_rows(3))
  have k: "stays ?Q (sql_write f)" if "\<And>t a t'. f t = Inr (a, t') \<Longrightarrow> topics t' = topics t \<and> topic_classifiers t' = topic_classifiers t"
    for f :: "tables \<Rightarrow> (unit \<times> tables) outcome"
    by (rule stays_write) (use that shared_frame in blast)
  have s: "stays ?Q (migrateBg2KafkaTopicDefinitions orig peer)" "stays ?Q (topicTemplateAttachNamespace orig peer)"
    unfolding migrateBg2KafkaTopicDefinitions_def topicTemplateAttachNamespace_def
    by (intro stays_intros k other_tables; assumption)+
  show "tx_rule (\<lambda>t. topics t = T) (then_io (wrap_io (sql_write (clone_topics orig peer)))
     (then_io (wrap_io (migrateBg2KafkaTopicDefinitions orig peer)) (wrap_io (topicTemplateAttachNamespace orig peer)))) (\<lambda>_. ?Q)"
  proof (rule tx_then [where R = ?Q])
    show "tx_rule (\<lambda>t. topics t = T) (wrap_io (sql_write (clone_topics orig peer))) (\<lambda>_. ?Q)"
      by (intro tx_wrap tx_write) (auto simp: clone_shares clone_topics_def dest: insert_classifiers_rows(3) intro: clone_shares [unfolded clone_topics_def])
    show "tx_rule ?Q (then_io (wrap_io (migrateBg2KafkaTopicDefinitions orig peer)) (wrap_io (topicTemplateAttachNamespace orig peer))) (\<lambda>_. ?Q)"
      by (intro stays_tx stays_intros s)
  qed
qed


definition lonely_start :: "string list world" where
  "lonely_start = demo_start\<lparr>tabs := (tabs demo_start)\<lparr>bg_domains := []\<rparr>\<rparr>"

definition lonely_created :: "string list world" where
  "lonely_created = snd (GetOrCreateTopic demo_helper demo_ctx (demo_topic ''org'' ''orders'') Fail lonely_start)"


section \<open>Deletion\<close>

text \<open>The rows a deletion leaves.\<close>

definition without :: "nat set \<Rightarrow> tables \<Rightarrow> tables" where
  "without ns t = t\<lparr>topics := [r \<leftarrow> topics t. t_id r \<notin> ns],
     topic_classifiers := [c \<leftarrow> topic_classifiers t. tc_topic c \<notin> ns]\<rparr>"

lemma without_empty [simp]: "without {} t = t"
  by (simp add: without_def)

lemma without_more: "delete_topic n (without ns t) = Inr ((), t') \<Longrightarrow> t' = without (insert n ns) t"
  by (auto simp: delete_topic_def without_def conj_commute split: if_splits)

text \<open>One topic: its rows go exactly when the answer says so.\<close>

lemma delete_top:
  assumes h: "calm h" and w: "txc w = None" "master_alive w" and run: "DeleteTopic h x leave w = (r, w')"
  shows "txc w' = None \<and> master_alive w' \<and> (\<forall>e. r = Inl e \<longrightarrow> tabs w' = tabs w) \<and>
    (r = Inr () \<longrightarrow> delete_topic (t_id x) (tabs w) = Inr ((), tabs w'))"
proof -
  let ?body = "then_io (sql_write (delete_topic (t_id x))) (if \<not> leave then on_broker (h_DeleteTopic h x) else ret_io ())"
  let ?Q = "\<lambda>_ t. delete_topic (t_id x) (tabs w) = Inr ((), t)"
  have "stays (\<lambda>t. ?Q () t) (if \<not> leave then on_broker (h_DeleteTopic h x) else ret_io ())" by (intro stays_intros h)
  then have b: "tx_rule (\<lambda>t. t = tabs w) ?body ?Q" by (intro tx_then [where R = "?Q ()"] tx_write stays_tx) auto
  note run = run [unfolded DeleteTopic_def DeleteTopicRegistration_def]
  have a: "keeps (alive_is True) (with_tx () ?body)" by (intro keeps_intros)
  from with_tx_sound [OF b w(1) run refl] with_tx_alive [OF b w(1) _ refl w(2)] run keepsD [OF a run] w(2)
  show ?thesis by (auto simp: alive_is_def)
qed

text \<open>\<open>marked b ts bs\<close>: the topics the answer puts on side \<open>b\<close>.\<close>

definition marked :: "bool \<Rightarrow> 'a list \<Rightarrow> bool list \<Rightarrow> 'a list" where
  "marked b ts bs = map fst [p \<leftarrow> zip ts bs. snd p = b]"

lemma marked_simps [simp]:
  "marked b [] bs = []" "marked b (t # ts) (c # bs) = (if c = b then t # marked b ts bs else marked b ts bs)"
  by (simp_all add: marked_def)

lemma delete_each_run:
  assumes h: "calm h"
  shows "txc w = None \<Longrightarrow> master_alive w \<Longrightarrow> tabs w = without ns T \<Longrightarrow> delete_each h leave ts resp w = (Inr resp', w') \<Longrightarrow>
    \<exists>ok. length ok = length ts \<and> tabs w' = without (t_id ` set (marked True ts ok) \<union> ns) T \<and>
      map td_classifier (dr_deleted resp') = map td_classifier (dr_deleted resp) @ map t_classifier (marked True ts ok) \<and>
      map (\<lambda>p. td_classifier (fst p)) (dr_failed resp') = map (\<lambda>p. td_classifier (fst p)) (dr_failed resp) @ map t_classifier (marked False ts ok)"
proof (induction ts arbitrary: w ns resp)
  case (Cons t ts)
  obtain res w1 where 1: "DeleteTopic h t leave w = (res, w1)" by (metis surj_pair)
  note d = delete_top [OF h Cons.prems(1,2) 1]
  obtain dto where dto: "ToResponseDto t = Inr dto" and
    2: "delete_each h leave ts (case res of Inl e \<Rightarrow> resp\<lparr>dr_failed := dr_failed resp @ [(dto, e)]\<rparr>
         | Inr _ \<Rightarrow> resp\<lparr>dr_deleted := dr_deleted resp @ [dto]\<rparr>) w1 = (Inr resp', w')"
    using Cons.prems(4) 1 by (cases "ToResponseDto t") (auto simp: bind_io_run attempt_io_run split: if_splits)
  have cl: "td_classifier dto = t_classifier t"
    using dto by (auto simp: ToResponseDto_def split: option.splits)
  show ?case
  proof (cases res)
    case (Inl e)
    with d Cons.prems(3) have "tabs w1 = without ns T" by simp
    from Cons.IH [OF _ _ this 2] d obtain ok where ok: "length ok = length ts"
      "tabs w' = without (t_id ` set (marked True ts ok) \<union> ns) T"
      "map td_classifier (dr_deleted resp') = map td_classifier (dr_deleted resp) @ map t_classifier (marked True ts ok)"
      "map (\<lambda>p. td_classifier (fst p)) (dr_failed resp') = map (\<lambda>p. td_classifier (fst p)) (dr_failed resp) @ t_classifier t # map t_classifier (marked False ts ok)"
      by (auto simp: Inl cl)
    then show ?thesis by (intro exI [of _ "False # ok"]) simp
  next
    case (Inr u)
    with d Cons.prems(3) without_more have "tabs w1 = without (insert (t_id t) ns) T" by simp
    from Cons.IH [OF _ _ this 2] d obtain ok where ok: "length ok = length ts"
      "tabs w' = without (t_id ` set (marked True ts ok) \<union> insert (t_id t) ns) T"
      "map td_classifier (dr_deleted resp') = map td_classifier (dr_deleted resp) @ t_classifier t # map t_classifier (marked True ts ok)"
      "map (\<lambda>p. td_classifier (fst p)) (dr_failed resp') = map (\<lambda>p. td_classifier (fst p)) (dr_failed resp) @ map t_classifier (marked False ts ok)"
      by (auto simp: Inr cl)
    then show ?thesis by (intro exI [of _ "True # ok"]) simp
  qed
qed simp

lemma alive_with_instances: "keeps (alive_is b) (with_instances k xs)"
  by (induction xs arbitrary: k) (unfold with_instances.simps, (intro keeps_intros; assumption?)+)

lemma with_instances_result: "with_instances known ts w = (Inr us, w') \<Longrightarrow>
    length us = length ts \<and> map t_id us = map t_id ts \<and> map t_classifier us = map t_classifier ts"
  by (induction ts arbitrary: known us w) (fastforce simp: bind_io_run split: prod.splits sum.splits)+

lemma marked_map: "map f us = map f ts \<Longrightarrow> map f (marked b us ok) = map f (marked b ts ok)"
proof -
  have m: "map f (marked b xs ok) = map fst [p \<leftarrow> zip (map f xs) ok. snd p = b]" for xs
    by (simp add: marked_def zip_map1 filter_map comp_def case_prod_beta)
  show "map f us = map f ts \<Longrightarrow> ?thesis" by (simp only: m)
qed

text \<open>
  C16 The answer to a deletion accounts for every topic that matched, once, in order, and it is
  true: the topics it calls deleted are gone with their classifiers, those it calls failed and
  all others stand as before, whatever failed on the way.
\<close>

theorem deletion_report_is_accurate:
  assumes "calm h" "kafka_reachable h w" "master_alive w" "DeleteTopics h s w = (Inr resp, w')"
  shows "\<exists>ok. let found = search_topics s (tabs w) in length ok = length found \<and>
    map td_classifier (dr_deleted resp) = map t_classifier (marked True found ok) \<and>
    map (\<lambda>p. td_classifier (fst p)) (dr_failed resp) = map t_classifier (marked False found ok) \<and>
    topics (tabs w') = [r \<leftarrow> topics (tabs w). t_id r \<notin> t_id ` set (marked True found ok)] \<and>
    topic_classifiers (tabs w') = [c \<leftarrow> topic_classifiers (tabs w). tc_topic c \<notin> t_id ` set (marked True found ok)]"
proof -
  let ?found = "search_topics s (tabs w)"
  have w: "at_rest topics_inv w" using reachable_inv assms(1,2) by blast
  obtain us w2 where 1: "SearchTopicsInDB s w = (Inr us, w2)"
    and 2: "delete_each h (ts_leave_intact s) us \<lparr>dr_deleted = [], dr_failed = []\<rparr> w2 = (Inr resp, w')"
    using assms(4) by (auto simp: DeleteTopics_def bind_io_run split: prod.splits sum.splits)
  obtain ts w1 where 3: "FindTopicsBySearchRequest s w = (Inr ts, w1)" "with_instances [] ts w1 = (Inr us, w2)"
    using 1 by (auto simp: SearchTopicsInDB_def bind_io_run wrap_io_run split: prod.splits sum.splits if_splits)
  have f: "at_rest topics_inv w1" "tabs w1 = tabs w" "ts = ?found" using find_top [OF w 3(1)] assms(3) by auto
  have "at_rest (\<lambda>t. t = tabs w) w1" using f by (simp add: at_rest_def)
  then have "at_rest (\<lambda>t. t = tabs w) w2" using keepsD [OF rest_names_and_instances(5) [of "\<lambda>t. t = tabs w"] 3(2)] by blast
  then have w2: "txc w2 = None" "tabs w2 = without {} (tabs w)" by (simp_all add: at_rest_def)
  have a: "master_alive w2"
    using keepsD [OF alive_with_instances [of True] 3(2)] keepsD [OF alive_find 3(1), of True] assms(3) by (simp add: alive_is_def)
  from delete_each_run [OF assms(1) w2(1) a w2(2) 2] obtain ok where ok: "length ok = length us"
      "tabs w' = without (t_id ` set (marked True us ok)) (tabs w)"
      "map td_classifier (dr_deleted resp) = map t_classifier (marked True us ok)"
      "map (\<lambda>p. td_classifier (fst p)) (dr_failed resp) = map t_classifier (marked False us ok)" by auto
  note i = with_instances_result [OF 3(2)]
  have m: "map t_classifier (marked b us ok) = map t_classifier (marked b ?found ok)"
    "t_id ` set (marked b us ok) = t_id ` set (marked b ?found ok)" for b
    using i f(3) marked_map [of t_classifier us ts b ok] marked_map [of t_id us ts b ok] by (metis list.set_map)+
  show ?thesis using ok i f(3) by (intro exI [of _ ok]) (simp add: m without_def)
qed

theorem deletion_report_is_accurate_witness:
  "\<exists>resp ok. fst (DeleteTopics demo_helper (no_search\<lparr>ts_namespace := ''peer''\<rparr>) demo_created) = Inr resp \<and>
     map td_classifier (dr_deleted resp) = [\<lparr>c_name = ''orders'', c_namespace = ''org'', c_tenant = []\<rparr>] \<and> ok = [True] \<and>
     topics (tabs (snd (DeleteTopics demo_helper (no_search\<lparr>ts_namespace := ''peer''\<rparr>) demo_created))) = []"
proof -
  let ?s = "no_search\<lparr>ts_namespace := ''peer''\<rparr>"
  let ?run = "DeleteTopics demo_helper ?s demo_created"
  have a: "master_alive demo_created" by code_simp
  have f: "map t_classifier (search_topics ?s (tabs demo_created)) = [\<lparr>c_name = ''orders'', c_namespace = ''org'', c_tenant = []\<rparr>]"
    "map t_id (search_topics ?s (tabs demo_created)) = map t_id (topics (tabs demo_created))" by code_simp+
  have r: "case fst ?run of Inr resp \<Rightarrow> dr_failed resp = [] | Inl e \<Rightarrow> False" by code_simp
  then obtain resp where n: "fst ?run = Inr resp" "dr_failed resp = []" by (cases "fst ?run") simp_all
  have e: "?run = (Inr resp, snd ?run)" by (simp add: prod_eq_iff n)
  obtain ok where ok: "length ok = length (search_topics ?s (tabs demo_created))"
    "map td_classifier (dr_deleted resp) = map t_classifier (marked True (search_topics ?s (tabs demo_created)) ok)"
    "map (\<lambda>p. td_classifier (fst p)) (dr_failed resp) = map t_classifier (marked False (search_topics ?s (tabs demo_created)) ok)"
    "topics (tabs (snd ?run)) = [r \<leftarrow> topics (tabs demo_created). t_id r \<notin> t_id ` set (marked True (search_topics ?s (tabs demo_created)) ok)]"
    using deletion_report_is_accurate [OF calm_demo(1) orders_reachable a e] by (auto simp: Let_def)
  obtain x where x: "search_topics ?s (tabs demo_created) = [x]" "t_classifier x = \<lparr>c_name = ''orders'', c_namespace = ''org'', c_tenant = []\<rparr>"
    using f(1) by auto
  have "ok = [True]" using ok(1,3) n(2) x by (cases ok) (auto split: if_splits)
  moreover have "topics (tabs (snd ?run)) = []"
  proof -
    have "t_id r = t_id x" if "r \<in> set (topics (tabs demo_created))" for r
      using that f(2) [unfolded x(1)] by (cases "topics (tabs demo_created)") auto
    then show ?thesis using ok(4) x(1) \<open>ok = [True]\<close> by (simp add: filter_empty_conv)
  qed
  moreover have "map td_classifier (dr_deleted resp) = [\<lparr>c_name = ''orders'', c_namespace = ''org'', c_tenant = []\<rparr>]"
    using ok(2) x \<open>ok = [True]\<close> by simp
  ultimately show ?thesis using n(1) by (intro exI [of _ resp] exI [of _ ok]) simp
qed

end
