(* ===== verification/Maas_Kafka_Names.thy ===== *)
theory Maas_Kafka_Names
  imports Maas_Kafka_Props
begin

text \<open>
  The names topics get and the instances they are placed on: what \<open>resolveTopicName\<close> and
  \<open>resolveKafkaInstance\<close> compute on a healthy database, against reference definitions over the
  tables.
\<close>

section \<open>Names\<close>

text \<open>The namespace a name is built from: the origin of the domain, unless the topic is versioned.\<close>

definition home :: "tables \<Rightarrow> string \<Rightarrow> string" where
  "home t ns = (case domain_of ns t of None \<Rightarrow> ns | Some bg \<Rightarrow> n_origin bg)"

definition home_of :: "tables \<Rightarrow> bool \<Rightarrow> classifier \<Rightarrow> string" where
  "home_of t vers cl = (if vers then c_namespace cl else home t (c_namespace cl))"

definition full_name :: "string \<Rightarrow> classifier \<Rightarrow> string" where
  "full_name ns cl = ''maas.'' @ ns @ ''.'' @ (if c_tenant cl = [] then [] else c_tenant cl @ ''.'') @ c_name cl"

lemma resolve_run:
  assumes "serves w"
  shows "resolveTopicName nt cl v w =
    (let n = replace_pairs (topic_placeholders cl (home_of (tabs w) v cl)) (if nt = [] then default_pattern (c_tenant cl) else nt)
     in if length n > 249 then (Inl Generic, w) else (Inr n, w))"
  using assms
  by (simp add: resolveTopicName_def home_of_def home_def domain_of_def bind_io_run wrap_io_run domain_Find_run
      Let_def TopicLengthLimit_def split: option.split)

lemma replace_default:
  "replace_pairs (topic_placeholders cl ns) (default_pattern (c_tenant cl)) = full_name ns cl"
  by (simp add: topic_placeholders_def default_pattern_def full_name_def has_prefix_def)

lemma resolve_default:
  "serves w \<Longrightarrow> resolveTopicName [] cl v w =
     (let n = full_name (home_of (tabs w) v cl) cl in if length n > 249 then (Inl Generic, w) else (Inr n, w))"
  by (simp add: resolve_run replace_default Let_def)

definition dotless :: "string \<Rightarrow> bool" where
  "dotless s \<longleftrightarrow> CHR ''.'' \<notin> set s"

lemma dotless_split: "dotless a \<Longrightarrow> dotless b \<Longrightarrow> a @ CHR ''.'' # x = b @ CHR ''.'' # y \<Longrightarrow> a = b \<and> x = y"
  by (induction a arbitrary: b; case_tac b) (auto simp: dotless_def)

lemma full_name_inj:
  assumes d: "dotless ns" "dotless (c_tenant a)" "dotless (c_name a)" "dotless ms" "dotless (c_tenant b)" "dotless (c_name b)"
    and e: "full_name ns a = full_name ms b"
  shows "ns = ms \<and> c_tenant a = c_tenant b \<and> c_name a = c_name b"
proof -
  let ?x = "(if c_tenant a = [] then [] else c_tenant a @ ''.'') @ c_name a"
  let ?y = "(if c_tenant b = [] then [] else c_tenant b @ ''.'') @ c_name b"
  have "ns @ CHR ''.'' # ?x = ms @ CHR ''.'' # ?y" using e by (simp only: full_name_def same_append_eq append_Cons append_Nil list.inject simp_thms)
  from dotless_split [OF d(1) d(4) this] have 1: "ns = ms" "?x = ?y" by (rule conjunct1, rule conjunct2)
  show ?thesis
  proof (cases "c_tenant a = []"; cases "c_tenant b = []")
    assume "c_tenant a = []" "c_tenant b \<noteq> []"
    with 1(2) have "CHR ''.'' \<in> set (c_name a)" by simp
    with d show ?thesis by (simp add: dotless_def)
  next
    assume "c_tenant a \<noteq> []" "c_tenant b = []"
    with 1(2) [symmetric] have "CHR ''.'' \<in> set (c_name b)" by simp
    with d show ?thesis by (simp add: dotless_def)
  next
    assume "c_tenant a \<noteq> []" "c_tenant b \<noteq> []"
    with 1 dotless_split [OF d(2) d(5)] show ?thesis by simp
  qed (use 1 in simp)
qed

text \<open>
  C17 Two requests without a name pattern get the same topic name exactly when they agree on the
  name, the tenant and the home namespace, where the two namespaces of a domain have one home;
  a name never has more than 249 characters, and a longer one is refused.  (Kubernetes names have
  no dots; with dots the equivalence fails.)
\<close>

theorem default_names_identify_topics:
  assumes "healthy w"
    and "dotless (home_of (tabs w) va a)" "dotless (c_tenant a)" "dotless (c_name a)"
    and "dotless (home_of (tabs w) vb b)" "dotless (c_tenant b)" "dotless (c_name b)"
    and a: "resolveTopicName [] a va w = (Inr n, w)" and b: "resolveTopicName [] b vb w = (Inr m, w)"
  shows "length n \<le> 249 \<and>
    (n = m \<longleftrightarrow> home_of (tabs w) va a = home_of (tabs w) vb b \<and> c_tenant a = c_tenant b \<and> c_name a = c_name b)"
proof -
  have s: "serves w" using assms(1) by simp
  have "n = full_name (home_of (tabs w) va a) a" "length n \<le> 249" "m = full_name (home_of (tabs w) vb b) b"
    using a b by (auto simp: resolve_default [OF s] Let_def split: if_splits)
  with full_name_inj [OF assms(2-7)] show ?thesis by (auto simp: full_name_def)
qed

theorem default_names_identify_topics_witness:
  "fst (resolveTopicName [] \<lparr>c_name = ''orders'', c_namespace = ''org'', c_tenant = []\<rparr> False demo_start) =
   fst (resolveTopicName [] \<lparr>c_name = ''orders'', c_namespace = ''peer'', c_tenant = []\<rparr> False demo_start)"
proof -
  let ?a = "\<lparr>c_name = ''orders'', c_namespace = ''org'', c_tenant = []\<rparr>" and ?b = "\<lparr>c_name = ''orders'', c_namespace = ''peer'', c_tenant = []\<rparr>"
  have h: "healthy demo_start" by (simp add: demo_start_def)
  have s: "serves demo_start" using h by simp
  have o: "home_of (tabs demo_start) False ?a = ''org''" "home_of (tabs demo_start) False ?b = ''org''" by code_simp+
  have r: "resolveTopicName [] ?a False demo_start = (Inr ''maas.org.orders'', demo_start)"
    "resolveTopicName [] ?b False demo_start = (Inr ''maas.org.orders'', demo_start)"
    by (simp_all add: resolve_default [OF s] o full_name_def Let_def)
  from default_names_identify_topics [OF h _ _ _ _ _ _ r] show ?thesis
    by (simp add: o dotless_def r)
qed

text \<open>
  With dots in names two different classifiers, both valid, get the same topic name: the
  request of the second for a new topic is refused because of the first.
\<close>

lemma dotted_names_collide:
  "let a = \<lparr>c_name = ''eu.orders'', c_namespace = ''org'', c_tenant = []\<rparr>; b = \<lparr>c_name = ''orders'', c_namespace = ''org'', c_tenant = ''eu''\<rparr>;
       w = snd (GetOrCreateTopic demo_helper demo_ctx ((demo_topic ''org'' [])\<lparr>t_classifier := a\<rparr>) Fail demo_start)
   in ValidateClassifier a = Inr () \<and> ValidateClassifier b = Inr () \<and> length (topics (tabs w)) = 1 \<and>
      fst (GetOrCreateTopic demo_helper demo_ctx ((demo_topic ''org'' [])\<lparr>t_classifier := b\<rparr>) Fail w) = Inl Conflict"
  by code_simp

section \<open>Instances\<close>

lemma GetById_run [run_simps]:
  assumes "serves w"
  shows "k_GetById iid w = (Inr (find (\<lambda>j. ki_id j = iid) (kafka_instances (tabs w))), w)"
    "k_dao_GetInstanceById iid w = (Inr (find (\<lambda>j. ki_id j = iid) (kafka_instances (tabs w))), w)"
proof -
  let ?q = "\<lambda>t. find (\<lambda>j. ki_id j = iid) (kafka_instances t)"
  have "using_db zero_kafka (sql_first ?q) w = (case ?q (tabs w) of None \<Rightarrow> (Inl RecordNotFound, w) | Some i \<Rightarrow> (Inr i, w))"
    using assms by (cases "?q (tabs w)") (simp_all add: using_db_Inr using_db_Inl sql_first_serves serves_facts)
  then show "k_dao_GetInstanceById iid w = (Inr (?q (tabs w)), w)"
    by (simp add: k_dao_GetInstanceById_def bind_io_run attempt_io_run is_record_not_found_def split: option.split)
  then show "k_GetById iid w = (Inr (?q (tabs w)), w)" by (simp add: k_GetById_def)
qed

lemma GetDefault_run [run_simps]:
  assumes h: "healthy w"
  shows "k_GetDefault w = (Inr (find ki_default (kafka_instances (tabs w))), w)"
proof -
  let ?q = "\<lambda>t. find ki_default (kafka_instances t)"
  have l: "serves (enter_tx w)" using h by simp
  have "with_tx zero_kafka (sql_first ?q) w = (case ?q (tabs w) of None \<Rightarrow> (Inl RecordNotFound, w) | Some i \<Rightarrow> (Inr i, w))"
  proof (cases "?q (tabs w)")
    case None
    have "with_tx zero_kafka (sql_first ?q) w = (Inl RecordNotFound, enter_tx w\<lparr>txc := None, tabs := tabs w\<rparr>)"
      using h None l by (intro with_tx_healthy_Inl) (simp_all add: sql_first_serves serves_facts)
    with None h show ?thesis by (cases w) (simp add: enter_tx_def healthy_def del: state_serves)
  next
    case (Some i)
    have "with_tx zero_kafka (sql_first ?q) w = (Inr i, enter_tx w\<lparr>txc := None\<rparr>)"
      using h Some l by (intro with_tx_healthy) (simp_all add: sql_first_serves)
    with Some h show ?thesis by simp
  qed
  then show ?thesis
    by (simp add: k_GetDefault_def k_dao_GetDefaultInstance_def defaultInstance_def bind_io_run attempt_io_run
        is_record_not_found_def split: option.split)
qed

text \<open>
  The instance a topic goes to, as a function of the tables: the designator of the home of the
  request's namespace decides, if there is one, and then the request may name no instance.
\<close>

definition default_instance :: "tables \<Rightarrow> kafka_instance option outcome" where
  "default_instance t = (case find ki_default (kafka_instances t) of None \<Rightarrow> Inl Conflict | Some i \<Rightarrow> Inr (Some i))"

definition instance_by_id :: "tables \<Rightarrow> string \<Rightarrow> kafka_instance option" where
  "instance_by_id t iid = find (\<lambda>j. ki_id j = iid) (kafka_instances t)"

definition chosen_instance :: "tables \<Rightarrow> classifier \<Rightarrow> string \<Rightarrow> string \<Rightarrow> kafka_instance option outcome" where
  "chosen_instance t cl req ns =
     (case find (\<lambda>r. dg_namespace r = home t ns) (designators t) of
        None \<Rightarrow> if req \<noteq> [] then Inr (instance_by_id t req) else default_instance t
      | Some row \<Rightarrow>
          if req \<noteq> [] then Inl Conflict
          else (case find (\<lambda>s. sl_designator s = dg_id row \<and> selector_matches cl (home t (c_namespace cl)) (sl_match s)) (selectors t) of
              Some s \<Rightarrow> Inr (instance_by_id t (sl_instance s))
            | None \<Rightarrow> (case dg_default row of
                Some iid \<Rightarrow> Inr (instance_by_id t iid)
              | None \<Rightarrow> default_instance t)))"

text \<open>The references of the schema: selectors and designators name instances that exist.\<close>

definition designators_ok :: "tables \<Rightarrow> bool" where
  "designators_ok t \<longleftrightarrow> (\<forall>s \<in> set (selectors t). instance_by_id t (sl_instance s) \<noteq> None) \<and>
     (\<forall>r \<in> set (designators t). \<forall>iid. dg_default r = Some iid \<longrightarrow> instance_by_id t iid \<noteq> None)"

definition loaded_designator :: "tables \<Rightarrow> designator_row \<Rightarrow> kafka_instance designator" where
  "loaded_designator t row = \<lparr>de_namespace = dg_namespace row, de_default_id = dg_default row,
     de_selectors = map (\<lambda>s. \<lparr>se_match = sl_match s, se_instance_id = sl_instance s, se_instance = instance_by_id t (sl_instance s)\<rparr>)
       [s \<leftarrow> selectors t. sl_designator s = dg_id row],
     de_default = (case dg_default row of None \<Rightarrow> None | Some iid \<Rightarrow> instance_by_id t iid)\<rparr>"

lemma load_selectors:
  assumes "serves w" "\<forall>s \<in> set ss. instance_by_id (tabs w) (se_instance_id s) \<noteq> None"
  shows "map_io (\<lambda>s. bind_io (wrap_io (k_dao_GetInstanceById (se_instance_id s))) (\<lambda>inst.
      case inst of None \<Rightarrow> raise_io NotFound | Some i \<Rightarrow> ret_io (s\<lparr>se_instance := Some i\<rparr>))) ss w =
    (Inr (map (\<lambda>s. s\<lparr>se_instance := instance_by_id (tabs w) (se_instance_id s)\<rparr>) ss), w)"
  using assms(2)
  by (induction ss) (auto simp: bind_io_run wrap_io_run GetById_run(2) [OF assms(1)] instance_by_id_def split: option.split)

lemma origin_home: "serves w \<Longrightarrow>
    (case first_by d_id [r \<leftarrow> bg_domains (tabs w). domain_has ns r] of None \<Rightarrow> ns | Some e \<Rightarrow> d_origin e) = home (tabs w) ns"
  by (simp add: home_def domain_of_def toValue_def split: option.split)

lemma find_mapped: "find P (map f xs) = map_option f (find (\<lambda>x. P (f x)) xs)"
  by (induction xs) auto

lemma find_filter: "find P (filter Q xs) = find (\<lambda>x. Q x \<and> P x) xs"
  by (induction xs) auto

lemma GetDesignator_run:
  assumes s: "serves w" and ok: "designators_ok (tabs w)"
  shows "GetKafkaInstanceDesignatorByNamespace ns w =
    (Inr (map_option (loaded_designator (tabs w)) (find (\<lambda>r. dg_namespace r = home (tabs w) ns) (designators (tabs w)))), w)"
proof -
  let ?q = "\<lambda>t. find (\<lambda>r. dg_namespace r = home (tabs w) ns) (designators t)"
  let ?load = "bind_io (sql_first ?q) (\<lambda>row.
          bind_io (sql_read (\<lambda>t. [s \<leftarrow> selectors t. sl_designator s = dg_id row])) (\<lambda>sels.
          bind_io (case dg_default row of
                     None \<Rightarrow> ret_io None
                   | Some iid \<Rightarrow> sql_read (\<lambda>t. find (\<lambda>j. ki_id j = iid) (kafka_instances t))) (\<lambda>inst.
            ret_io \<lparr>de_namespace = dg_namespace row, de_default_id = dg_default row,
                    de_selectors = map (\<lambda>s. \<lparr>se_match = sl_match s, se_instance_id = sl_instance s, se_instance = None\<rparr>) sels,
                    de_default = inst\<rparr>)))"
  show ?thesis
  proof (cases "?q (tabs w)")
    case None
    then have "using_db zero_designator ?load w = (Inl RecordNotFound, w)"
      using s by (intro using_db_Inl) (simp_all add: bind_io_run sql_first_serves serves_facts)
    with None s show ?thesis
      by (simp add: GetKafkaInstanceDesignatorByNamespace_def k_dao_GetKafkaInstanceDesignatorByNamespace_def Let_def
          bind_io_run attempt_io_run FindByNamespace_run origin_home is_record_not_found_def)
  next
    case (Some row)
    let ?sels = "map (\<lambda>s. \<lparr>se_match = sl_match s, se_instance_id = sl_instance s, se_instance = None\<rparr>) [s \<leftarrow> selectors (tabs w). sl_designator s = dg_id row]"
    let ?d = "\<lparr>de_namespace = dg_namespace row, de_default_id = dg_default row, de_selectors = ?sels,
      de_default = (case dg_default row of None \<Rightarrow> None | Some iid \<Rightarrow> instance_by_id (tabs w) iid)\<rparr>"
    have u: "using_db zero_designator ?load w = (Inr ?d, w)"
      using s Some by (intro using_db_Inr) (auto simp: bind_io_run sql_first_serves sql_read_serves serves_facts instance_by_id_def split: option.split)
    have l: "\<forall>x \<in> set ?sels. instance_by_id (tabs w) (se_instance_id x) \<noteq> None"
      using ok by (auto simp: designators_ok_def)
    show ?thesis using s Some u load_selectors [OF s l]
      by (simp add: GetKafkaInstanceDesignatorByNamespace_def k_dao_GetKafkaInstanceDesignatorByNamespace_def Let_def
          bind_io_run attempt_io_run FindByNamespace_run origin_home loaded_designator_def comp_def)
  qed
qed

lemma match_run:
  fixes d :: "'i designator"
  assumes "serves w"
  shows "MatchDesignator cl d w = (Inr (case find (\<lambda>s. selector_matches cl (home (tabs w) (c_namespace cl)) (se_match s)) (de_selectors d) of
      None \<Rightarrow> (None, False) | Some s \<Rightarrow> (se_instance s, True)), w)"
proof -
  have "match_selectors domain_origin cl sels w =
      (Inr (find (\<lambda>s. selector_matches cl (home (tabs w) (c_namespace cl)) (se_match s)) sels), w)" for sels :: "'i selector list"
    using assms by (induction sels) (simp_all add: bind_io_run domain_origin_run origin_home)
  then show ?thesis by (simp add: MatchDesignator_def bind_io_run split: option.split)
qed

text \<open>
  On a healthy database whose designators refer to instances that exist, a topic goes to the
  instance the reference definition chooses: that of the first matching selector of the
  designator of the home namespace, else the designator's default, else the default of the
  registry; a request that names an instance is refused when there is a designator.
\<close>

theorem resolved_instance_is_chosen:
  assumes h: "healthy w" and ok: "designators_ok (tabs w)"
  shows "resolveKafkaInstance cl req ns w = (chosen_instance (tabs w) cl req ns, w)"
proof -
  have s: "serves w" using h by simp
  have d: "default_kafka w = (case find ki_default (kafka_instances (tabs w)) of None \<Rightarrow> (Inl Conflict, w) | Some i \<Rightarrow> (Inr i, w))"
    by (simp add: default_kafka_def bind_io_run wrap_io_run GetDefault_run [OF h] split: option.split)
  let ?row = "find (\<lambda>r. dg_namespace r = home (tabs w) ns) (designators (tabs w))"
  show ?thesis
  proof (cases ?row)
    case None
    then show ?thesis
      by (simp add: resolveKafkaInstance_def chosen_instance_def bind_io_run GetDesignator_run [OF s ok] GetById_run [OF s] d
          instance_by_id_def default_instance_def wrap_io_run split: option.split)
  next
    case (Some row)
    let ?sel = "find (\<lambda>s. sl_designator s = dg_id row \<and> selector_matches cl (home (tabs w) (c_namespace cl)) (sl_match s)) (selectors (tabs w))"
    have r: "row \<in> set (designators (tabs w))" using Some by (auto simp: find_Some_iff)
    have m: "find (\<lambda>s. selector_matches cl (home (tabs w) (c_namespace cl)) (se_match s)) (de_selectors (loaded_designator (tabs w) row)) =
      map_option (\<lambda>s. \<lparr>se_match = sl_match s, se_instance_id = sl_instance s, se_instance = instance_by_id (tabs w) (sl_instance s)\<rparr>) ?sel"
      by (simp add: loaded_designator_def find_mapped find_filter comp_def) 
    have e: "sel \<in> set (selectors (tabs w)) \<Longrightarrow> \<exists>i. instance_by_id (tabs w) (sl_instance sel) = Some i" for sel
      using ok by (auto simp: designators_ok_def)
    have f: "dg_default row = Some iid \<Longrightarrow> \<exists>i. instance_by_id (tabs w) iid = Some i" for iid
      using ok r by (auto simp: designators_ok_def)
    show ?thesis
    proof (cases ?sel)
      case None
      then show ?thesis using Some m f
        by (auto simp: resolveKafkaInstance_def chosen_instance_def bind_io_run GetDesignator_run [OF s ok] match_run [OF s] d
            Let_def loaded_designator_def default_instance_def split: option.split)
    next
      case (Some sel)
      then have "sel \<in> set (selectors (tabs w))" by (auto simp: find_Some_iff)
      with e obtain i where "instance_by_id (tabs w) (sl_instance sel) = Some i" by blast
      with Some \<open>?row = Some row\<close> m show ?thesis
        by (simp add: resolveKafkaInstance_def chosen_instance_def bind_io_run GetDesignator_run [OF s ok] match_run [OF s] Let_def)
    qed
  qed
qed

definition placed_start :: "string list world" where
  "placed_start = demo_start\<lparr>tabs := (tabs demo_start)\<lparr>
     kafka_instances := [demo_instance, kafka_b],
     designators := [\<lparr>dg_id = 1, dg_namespace = ''org'', dg_default = None\<rparr>],
     selectors := [\<lparr>sl_id = 2, sl_designator = 1, sl_match = \<lparr>cm_name = ''ord*'', cm_namespace = [], cm_tenant = [], cm_instance = []\<rparr>, sl_instance = ''b''\<rparr>]\<rparr>\<rparr>"

theorem resolved_instance_is_chosen_witness:
  "resolveKafkaInstance \<lparr>c_name = ''orders'', c_namespace = ''peer'', c_tenant = []\<rparr> [] ''peer'' placed_start = (Inr (Some kafka_b), placed_start) \<and>
   resolveKafkaInstance \<lparr>c_name = ''orders'', c_namespace = ''peer'', c_tenant = []\<rparr> ''a'' ''peer'' placed_start = (Inl Conflict, placed_start) \<and>
   resolveKafkaInstance \<lparr>c_name = ''bills'', c_namespace = ''peer'', c_tenant = []\<rparr> [] ''peer'' placed_start = (Inr (Some demo_instance), placed_start)"
proof -
  have h: "healthy placed_start" by (simp add: placed_start_def demo_start_def)
  have ok: "designators_ok (tabs placed_start)"
    by (simp add: designators_ok_def placed_start_def instance_by_id_def demo_instance_def kafka_a_def kafka_b_def)
  have "chosen_instance (tabs placed_start) \<lparr>c_name = ''orders'', c_namespace = ''peer'', c_tenant = []\<rparr> [] ''peer'' = Inr (Some kafka_b)"
    "chosen_instance (tabs placed_start) \<lparr>c_name = ''orders'', c_namespace = ''peer'', c_tenant = []\<rparr> ''a'' ''peer'' = Inl Conflict"
    "chosen_instance (tabs placed_start) \<lparr>c_name = ''bills'', c_namespace = ''peer'', c_tenant = []\<rparr> [] ''peer'' = Inr (Some demo_instance)"
    by code_simp+
  then show ?thesis by (simp add: resolved_instance_is_chosen [OF h ok])
qed

section \<open>Requests that are repeated\<close>

lemma find_live:
  assumes l: "live v" and inv: "topics_inv (tabs v)"
  shows "FindTopicsBySearchRequest s v = (Inr (search_topics s (tabs v)), v)"
proof -
  have "sql_write migrate_topics v = (Inr (), v)"
    using sql_write_live [OF l, of migrate_topics, OF migrate_idle [OF inv]] by simp
  then have "find_topics_body s v = (Inr (search_topics s (tabs v)), v)"
    using l by (simp add: find_topics_body_def then_io_run bind_io_run wrap_io_run attempt_io_run sql_read_serves)
  then show ?thesis unfolding FindTopicsBySearchRequest_def
    using l by (intro with_tx_Inr) (simp_all add: serves_facts)
qed



end
