(* ===== verification/Maas_Rabbit_Http.thy ===== *)
theory Maas_Rabbit_Http
  imports Maas_Kafka
begin

text \<open>
  The helper for the management API of RabbitMQ (helper/rabbit_helper.go, rabbit_httphelper.go).
  The HTTP client with the broker behind it is a parameter: it answers a request with an error of
  the transport or with a reply, of which the code looks at the status, the text of the body, its
  JSON value if it has one, and the Location header.  A computation of the helper runs on the
  state of the broker alone.
\<close>

section \<open>Requests\<close>

datatype http_method = PUT | POST | GET | DELETE

record http_request =
  hq_method :: http_method
  hq_url :: string
  hq_user :: string
  hq_password :: string
  hq_body :: "json option"

record http_reply =
  hr_code :: nat
  hr_text :: string
  hr_json :: "json option"
  hr_location :: string

type_synonym 'k http_client = "http_request \<Rightarrow> 'k \<Rightarrow> http_reply outcome \<times> 'k"

datatype http_failure = NoReply err | BadStatus http_reply

definition intInSlice :: "nat \<Rightarrow> nat list \<Rightarrow> bool" where
  "intInSlice a xs = list_ex (\<lambda>b. b = a) xs"

definition DoRequest :: "'k http_client \<Rightarrow> http_request \<Rightarrow> nat list \<Rightarrow> 'k \<Rightarrow> (http_failure + http_reply) \<times> 'k" where
  "DoRequest http q allowed k =
     (case http q k of
        (Inl e, k') \<Rightarrow> (Inl (NoReply e), k')
      | (Inr r, k') \<Rightarrow> (if intInSlice (hr_code r) allowed then Inr r else Inl (BadStatus r), k'))"

text \<open>A failed request as an error: the status is what a later type assertion sees.\<close>

primrec http_err :: "http_failure \<Rightarrow> err" where
  "http_err (NoReply e) = e"
| "http_err (BadStatus r) = HttpStatus (hr_code r)"

definition request_io :: "'k http_client \<Rightarrow> http_request \<Rightarrow> nat list \<Rightarrow> ('k, http_reply) io" where
  "request_io http q allowed k = (case DoRequest http q allowed k of (r, k') \<Rightarrow> (map_sum http_err id r, k'))"

text \<open>
  A helper is made for an instance and a virtual host; the password is decoded.  \<open>rh_depth\<close>
  bounds how often the recreation of an entity may start over, which the code leaves to its stack.
\<close>

record 'k rabbit_helper =
  rh_http :: "'k http_client"
  rh_depth :: nat
  rh_instance :: rabbit_instance
  rh_vhost :: vhost

definition has_suffix :: "string \<Rightarrow> string \<Rightarrow> bool" where
  "has_suffix s p = has_prefix (rev s) (rev p)"

definition trim_prefix :: "string \<Rightarrow> string \<Rightarrow> string" where
  "trim_prefix s p = (if has_prefix s p then drop (length p) s else s)"

definition GetDecodedPassword :: "vhost \<Rightarrow> string" where
  "GetDecodedPassword v = trim_prefix (vh_password v) ''plain:''"

definition NewRabbitHelper :: "'k http_client \<Rightarrow> nat \<Rightarrow> rabbit_instance \<Rightarrow> vhost \<Rightarrow> 'k rabbit_helper" where
  "NewRabbitHelper http depth inst v =
     \<lparr>rh_http = http, rh_depth = depth, rh_instance = inst, rh_vhost = v\<lparr>vh_password := GetDecodedPassword v\<rparr>\<rparr>"

definition api_url :: "'k rabbit_helper \<Rightarrow> string \<Rightarrow> string" where
  "api_url h path = ri_api_url (rh_instance h) @ ''/'' @ path"

definition as_admin :: "'k rabbit_helper \<Rightarrow> http_method \<Rightarrow> string \<Rightarrow> json option \<Rightarrow> http_request" where
  "as_admin h m path body = \<lparr>hq_method = m, hq_url = api_url h path, hq_user = ri_user (rh_instance h),
     hq_password = ri_password (rh_instance h), hq_body = body\<rparr>"

definition as_user :: "'k rabbit_helper \<Rightarrow> http_method \<Rightarrow> string \<Rightarrow> json option \<Rightarrow> http_request" where
  "as_user h m path body = \<lparr>hq_method = m, hq_url = api_url h path, hq_user = vh_user (rh_vhost h),
     hq_password = vh_password (rh_vhost h), hq_body = body\<rparr>"

definition vhost_name :: "'k rabbit_helper \<Rightarrow> string" where
  "vhost_name h = vh_vhost (rh_vhost h)"

section \<open>Virtual hosts and users\<close>

definition user_body :: "string \<Rightarrow> string \<Rightarrow> json" where
  "user_body user password = JObj [(''password'', JStr password), (''tags'', JStr ''management''), (''username'', JStr user)]"

definition CreateOrUpdateUser :: "'k rabbit_helper \<Rightarrow> string \<Rightarrow> string \<Rightarrow> ('k, unit) io" where
  "CreateOrUpdateUser h user password =
     then_io (wrap_io (request_io (rh_http h) (as_admin h PUT (''users/'' @ user) (Some (user_body user password))) [201, 200, 204])) (ret_io ())"

definition permissions_body :: "string \<Rightarrow> string \<Rightarrow> json" where
  "permissions_body v u = JObj [(''configure'', JStr ''.*''), (''read'', JStr ''.*''), (''username'', JStr u), (''vhost'', JStr v), (''write'', JStr ''.*'')]"

definition CreateVHostAndReturnStatus :: "'k rabbit_helper \<Rightarrow> ('k, nat) io" where
  "CreateVHostAndReturnStatus h =
     (let v = vhost_name h; u = vh_user (rh_vhost h); p = vh_password (rh_vhost h) in
      bind_io (request_io (rh_http h) (as_admin h PUT (''vhosts/'' @ v) (Some (JObj [(''name'', JStr v)]))) [201, 204]) (\<lambda>response.
      then_io (wrap_io (CreateOrUpdateUser h u p))
      (then_io (request_io (rh_http h) (as_admin h PUT (''users/'' @ u) (Some (user_body u p))) [201, 200, 204])
      (then_io (request_io (rh_http h) (as_admin h PUT (''permissions/'' @ v @ ''/'' @ u) (Some (permissions_body v u))) [204, 201, 200])
        (ret_io (hr_code response))))))"

definition CreateVHost :: "'k rabbit_helper \<Rightarrow> ('k, unit) io" where
  "CreateVHost h = then_io (CreateVHostAndReturnStatus h) (ret_io ())"

definition helper_DeleteVHost :: "'k rabbit_helper \<Rightarrow> ('k, unit) io" where
  "helper_DeleteVHost h =
     then_io (request_io (rh_http h) (as_admin h DELETE (''users/'' @ vh_user (rh_vhost h)) None) [204, 404])
     (then_io (request_io (rh_http h) (as_admin h DELETE (''vhosts/'' @ vhost_name h) None) [204, 404])
       (ret_io ()))"

definition FormatCnnUrl :: "'k rabbit_helper \<Rightarrow> string \<Rightarrow> string" where
  "FormatCnnUrl h v = ri_amqp_url (rh_instance h) @ ''/'' @ v"

section \<open>Entities\<close>

text \<open>
  What \<open>getEntity\<close> is asked to decode a reply into.  A body that does not fit, and one of two
  characters (an empty object or list), is no entity.
\<close>

datatype shape = AnObject | AList | Objects | Shovels | VhostInfos

text \<open>The elements of a list of objects, null among them being a nil map or a zero structure.\<close>

definition fields_of :: "json \<Rightarrow> jobject outcome" where
  "fields_of x = (case x of JObj fs \<Rightarrow> Inr fs | JNull \<Rightarrow> Inr [] | _ \<Rightarrow> Inl Generic)"

definition texts_fit :: "string list \<Rightarrow> json \<Rightarrow> bool" where
  "texts_fit ns x = list_all (\<lambda>n. case text_of n x of Inl _ \<Rightarrow> False | Inr _ \<Rightarrow> True) ns"

definition shovel_fits :: "json \<Rightarrow> bool" where
  "shovel_fits x =
     (texts_fit [''vhost'', ''name''] x \<and>
      (case fields_of x of
         Inl _ \<Rightarrow> False
       | Inr fs \<Rightarrow> list_all (\<lambda>(k, v). to_lower k = ''value'' \<longrightarrow>
           texts_fit [''src-protocol'', ''src-uri'', ''src-queue'', ''dest-protocol'', ''dest-uri'', ''dest-queue'', ''dest-exchange''] v) fs))"

fun fits :: "shape \<Rightarrow> json \<Rightarrow> bool" where
  "fits AnObject x = (case x of JObj fs \<Rightarrow> True | _ \<Rightarrow> False)"
| "fits AList x = (case x of JArr xs \<Rightarrow> True | _ \<Rightarrow> False)"
| "fits Objects x = (case x of JArr xs \<Rightarrow> list_all (\<lambda>y. isl (fields_of y) = False) xs | _ \<Rightarrow> False)"
| "fits Shovels x = (case x of JArr xs \<Rightarrow> list_all shovel_fits xs | _ \<Rightarrow> False)"
| "fits VhostInfos x = (case x of JArr xs \<Rightarrow> list_all (texts_fit [''name'']) xs | _ \<Rightarrow> False)"

definition getEntity :: "'k rabbit_helper \<Rightarrow> http_request \<Rightarrow> shape \<Rightarrow> ('k, json option) io" where
  "getEntity h q s =
     bind_io (request_io (rh_http h) q [200, 404]) (\<lambda>r.
       if hr_code r = 404 then ret_io None
       else if hr_text r = [] then raise_io Generic
       else (case hr_json r of
               None \<Rightarrow> ret_io None
             | Some x \<Rightarrow> ret_io (if \<not> fits s x \<or> length (hr_text r) = 2 then None else Some x)))"

definition GetEntity :: "'k rabbit_helper \<Rightarrow> string \<Rightarrow> shape \<Rightarrow> ('k, json option) io" where
  "GetEntity h path s = getEntity h (as_user h GET path None) s"

definition GetAdminEntity :: "'k rabbit_helper \<Rightarrow> string \<Rightarrow> shape \<Rightarrow> ('k, json option) io" where
  "GetAdminEntity h path s = getEntity h (as_admin h GET path None) s"

text \<open>
  The part of a Location after its last slash: the group of \<open>^.*/(.*)$\<close>, whose index panics
  when there is no slash.
\<close>

definition last_segment :: "string \<Rightarrow> string outcome" where
  "last_segment s = (if contains s slash_char then Inr (last (split_on slash_char s)) else Inl GoPanic)"

definition with_key :: "json \<Rightarrow> string \<Rightarrow> json outcome" where
  "with_key entity location =
     (case last_segment location of
        Inl e \<Rightarrow> Inl e
      | Inr key \<Rightarrow> (case entity of
          JObj fs \<Rightarrow> Inr (JObj (insert_field ''properties_key'' (JStr key) fs))
        | _ \<Rightarrow> Inl GoPanic))"

text \<open>The reason the broker gave for its refusal.\<close>

definition reason_of :: "http_reply \<Rightarrow> string outcome" where
  "reason_of r = (case hr_json r of Some (JObj fs) \<Rightarrow> string_field ''reason'' fs | _ \<Rightarrow> Inl Generic)"

text \<open>
  \<open>createEntity\<close>: a refusal because of an inequivalent argument deletes the entity and starts
  over.  With the depth used up the stack is.
\<close>

definition inequivalent :: "http_reply \<Rightarrow> bool" where
  "inequivalent r = (hr_code r = 400 \<and> has_infix (hr_text r) ''inequivalent arg'')"

definition created_entity ::
    "json \<Rightarrow> string \<Rightarrow> (json \<Rightarrow> ('k, json option) io) option \<Rightarrow> http_reply \<Rightarrow> ('k, json option \<times> string) io" where
  "created_entity entity url getFunc r =
     bind_io (lift_io (if has_infix url ''/api/bindings/'' then with_key entity (hr_location r) else Inr entity)) (\<lambda>e.
       case getFunc of
         None \<Rightarrow> ret_io (None, [])
       | Some g \<Rightarrow> bind_io (g e) (\<lambda>resp. ret_io (resp, [])))"

primrec createEntity ::
    "nat \<Rightarrow> 'k rabbit_helper \<Rightarrow> (json \<Rightarrow> http_request) \<Rightarrow> (json \<Rightarrow> ('k, json option) io) option \<Rightarrow>
     (json \<Rightarrow> ('k, json option) io) option \<Rightarrow> json \<Rightarrow> ('k, json option \<times> string) io" where
  "createEntity 0 h q getFunc deleteFunc entity = raise_io GoPanic"
| "createEntity (Suc n) h q getFunc deleteFunc entity = (\<lambda>k.
     case DoRequest (rh_http h) (q entity) [200, 201, 204] k of
       (Inr r, k') \<Rightarrow> created_entity entity (hq_url (q entity)) getFunc r k'
     | (Inl failure, k') \<Rightarrow>
         (case (deleteFunc, failure) of
            (Some d, BadStatus r) \<Rightarrow>
              (if inequivalent r
               then bind_io (d entity) (\<lambda>_.
                    bind_io (createEntity n h q getFunc deleteFunc entity) (\<lambda>(response, _).
                    bind_io (lift_io (reason_of r)) (\<lambda>reason. ret_io (response, reason)))) k'
               else (Inl (http_err failure), k'))
          | _ \<Rightarrow> (Inl (http_err failure), k')))"

definition CreateEntity ::
    "'k rabbit_helper \<Rightarrow> string \<Rightarrow> http_method \<Rightarrow> (json \<Rightarrow> ('k, json option) io) option \<Rightarrow>
     (json \<Rightarrow> ('k, json option) io) option \<Rightarrow> json \<Rightarrow> ('k, json option \<times> string) io" where
  "CreateEntity h path m getFunc deleteFunc =
     createEntity (rh_depth h) h (\<lambda>x. as_user h m path (Some x)) getFunc deleteFunc"

definition CreateAdminEntity ::
    "'k rabbit_helper \<Rightarrow> string \<Rightarrow> http_method \<Rightarrow> (json \<Rightarrow> ('k, json option) io) option \<Rightarrow>
     (json \<Rightarrow> ('k, json option) io) option \<Rightarrow> json \<Rightarrow> ('k, json option \<times> string) io" where
  "CreateAdminEntity h path m getFunc deleteFunc =
     createEntity (rh_depth h) h (\<lambda>x. as_admin h m path (Some x)) getFunc deleteFunc"

text \<open>An entity that was not there is reported as nil.\<close>

definition deleteEntity :: "'k rabbit_helper \<Rightarrow> http_request \<Rightarrow> json \<Rightarrow> ('k, json option) io" where
  "deleteEntity h q entity =
     bind_io (request_io (rh_http h) q [404, 204]) (\<lambda>r.
       ret_io (if hr_code r = 204 then Some entity else None))"

definition DeleteEntity :: "'k rabbit_helper \<Rightarrow> string \<Rightarrow> json \<Rightarrow> ('k, json option) io" where
  "DeleteEntity h path entity = deleteEntity h (as_user h DELETE path None) entity"

definition DeleteAdminEntity :: "'k rabbit_helper \<Rightarrow> string \<Rightarrow> json \<Rightarrow> ('k, json option) io" where
  "DeleteAdminEntity h path entity = deleteEntity h (as_admin h DELETE path None) entity"

section \<open>Exchanges, queues and bindings\<close>

definition GetExchange :: "'k rabbit_helper \<Rightarrow> json \<Rightarrow> ('k, json option) io" where
  "GetExchange h x = bind_io (lift_io (ExtractName x)) (\<lambda>n.
     GetEntity h (''exchanges/'' @ vhost_name h @ ''/'' @ n) AnObject)"

definition DeleteExchange :: "'k rabbit_helper \<Rightarrow> json \<Rightarrow> ('k, json option) io" where
  "DeleteExchange h x = bind_io (lift_io (ExtractName x)) (\<lambda>n.
     DeleteEntity h (''exchanges/'' @ vhost_name h @ ''/'' @ n) x)"

definition CreateExchange :: "'k rabbit_helper \<Rightarrow> json \<Rightarrow> ('k, json option \<times> string) io" where
  "CreateExchange h x = bind_io (lift_io (ExtractName x)) (\<lambda>n.
     CreateEntity h (''exchanges/'' @ vhost_name h @ ''/'' @ n) PUT (Some (GetExchange h)) (Some (DeleteExchange h)) x)"

definition GetQueue :: "'k rabbit_helper \<Rightarrow> json \<Rightarrow> ('k, json option) io" where
  "GetQueue h x = bind_io (lift_io (ExtractName x)) (\<lambda>n.
     GetEntity h (''queues/'' @ vhost_name h @ ''/'' @ n) AnObject)"

definition DeleteQueue :: "'k rabbit_helper \<Rightarrow> json \<Rightarrow> ('k, json option) io" where
  "DeleteQueue h x = bind_io (lift_io (ExtractName x)) (\<lambda>n.
     DeleteEntity h (''queues/'' @ vhost_name h @ ''/'' @ n) x)"

definition CreateQueue :: "'k rabbit_helper \<Rightarrow> json \<Rightarrow> ('k, json option \<times> string) io" where
  "CreateQueue h x = bind_io (lift_io (ExtractName x)) (\<lambda>n.
     CreateEntity h (''queues/'' @ vhost_name h @ ''/'' @ n) PUT (Some (GetQueue h)) (Some (DeleteQueue h)) x)"

definition binding_path :: "'k rabbit_helper \<Rightarrow> string \<Rightarrow> string \<Rightarrow> string \<Rightarrow> string" where
  "binding_path h source kind destination =
     ''bindings/'' @ vhost_name h @ ''/e/'' @ source @ ''/'' @ kind @ ''/'' @ destination"

definition GetBinding :: "'k rabbit_helper \<Rightarrow> json \<Rightarrow> ('k, json option) io" where
  "GetBinding h b = bind_io (lift_io (ExtractSourceAndDestination b)) (\<lambda>(s, d).
     bind_io (lift_io (ExtractPropKey b)) (\<lambda>key.
       GetEntity h (binding_path h s ''q'' d @ ''/'' @ key) AnObject))"

definition GetExchangeBinding :: "'k rabbit_helper \<Rightarrow> json \<Rightarrow> ('k, json option) io" where
  "GetExchangeBinding h b = bind_io (lift_io (ExtractSourceAndDestination b)) (\<lambda>(s, d).
     GetEntity h (binding_path h s ''e'' d) Objects)"

text \<open>A missing end of the binding is told apart from other refusals.\<close>

definition CreateBinding :: "'k rabbit_helper \<Rightarrow> json \<Rightarrow> ('k, json option) io" where
  "CreateBinding h b = bind_io (lift_io (ExtractSourceAndDestination b)) (\<lambda>(s, d).
     map_err_io (\<lambda>e. if e = HttpStatus 404 then EntityNotFound else e)
       (bind_io (CreateEntity h (binding_path h s ''q'' d) POST (Some (GetBinding h)) None b) (\<lambda>(result, _).
          ret_io result)))"

definition CreateExchangeBinding :: "'k rabbit_helper \<Rightarrow> json \<Rightarrow> ('k, json option) io" where
  "CreateExchangeBinding h b = bind_io (lift_io (ExtractSourceAndDestination b)) (\<lambda>(s, d).
     bind_io (CreateEntity h (binding_path h s ''e'' d) POST (Some (GetExchangeBinding h)) None b) (\<lambda>(result, _).
       ret_io result))"

text \<open>The exchange of a binding may be missing; the binding is then lazy, and nothing is returned.\<close>

definition CreateNormalOrLazyBinding :: "'k rabbit_helper \<Rightarrow> jobject \<Rightarrow> ('k, jobject option) io" where
  "CreateNormalOrLazyBinding h b = bind_io (lift_io (ExtractSourceAndDestination (JObj b))) (\<lambda>(s, d).
     bind_io (request_io (rh_http h) (as_user h POST (binding_path h s ''q'' d) (Some (JObj b))) [200, 201, 204, 404]) (\<lambda>r.
       if hr_location r \<noteq> []
       then bind_io (lift_io (last_segment (hr_location r))) (\<lambda>key.
              ret_io (Some (insert_field ''properties_key'' (JStr key) b)))
       else ret_io None))"

definition DeleteBinding :: "'k rabbit_helper \<Rightarrow> json \<Rightarrow> ('k, json option) io" where
  "DeleteBinding h b = bind_io (lift_io (ExtractSourceAndDestination b)) (\<lambda>(s, d).
     bind_io (lift_io (ExtractPropKey b)) (\<lambda>key.
       DeleteEntity h (binding_path h s ''q'' d @ ''/'' @ key) b))"

definition DeleteExchangeBinding :: "'k rabbit_helper \<Rightarrow> json \<Rightarrow> ('k, json option) io" where
  "DeleteExchangeBinding h b = bind_io (lift_io (ExtractSourceAndDestination b)) (\<lambda>(s, d).
     bind_io (lift_io (ExtractPropKey b)) (\<lambda>key.
       DeleteEntity h (binding_path h s ''e'' d @ ''/'' @ key) b))"

section \<open>Lists of entities\<close>

definition elements :: "json option \<Rightarrow> json list" where
  "elements x = (case x of Some (JArr xs) \<Rightarrow> xs | _ \<Rightarrow> [])"

record rabbit_entities_dto =
  en_exchanges :: "json list"
  en_queues :: "json list"
  en_bindings :: "json list"

text \<open>No exchanges at all is an error whatever its cause: a virtual host always has some.\<close>

definition GetAllEntities :: "'k rabbit_helper \<Rightarrow> ('k, rabbit_entities_dto) io" where
  "GetAllEntities h =
     bind_io (map_err_io (\<lambda>e. if e = HttpStatus 401 then Generic else e) (GetEntity h (''exchanges/'' @ vhost_name h) AList)) (\<lambda>xs.
     if xs = None then raise_io Generic
     else bind_io (GetEntity h (''queues/'' @ vhost_name h) AList) (\<lambda>qs.
          bind_io (GetEntity h (''bindings/'' @ vhost_name h) AList) (\<lambda>bs.
            ret_io \<lparr>en_exchanges = elements xs, en_queues = elements qs, en_bindings = elements bs\<rparr>)))"

definition GetAllExchanges :: "'k rabbit_helper \<Rightarrow> ('k, json list) io" where
  "GetAllExchanges h = bind_io (GetEntity h (''exchanges/'' @ vhost_name h) AList) (\<lambda>xs.
     if xs = None then raise_io Generic else ret_io (elements xs))"

text \<open>Without a list the assertion on its type panics.  An exchange without a name has the empty one.\<close>

definition GetExchangesStartsWithString :: "'k rabbit_helper \<Rightarrow> string \<Rightarrow> ('k, json list) io" where
  "GetExchangesStartsWithString h prefix = bind_io (GetEntity h (''exchanges/'' @ vhost_name h) AList) (\<lambda>xs.
     bind_io (deref_io xs) (\<lambda>_. ret_io [x \<leftarrow> elements xs. has_prefix (case ExtractName x of Inl e \<Rightarrow> [] | Inr n \<Rightarrow> n) prefix]))"

text \<open>The error of the request is dropped: without bindings the result is nil and no error.\<close>

definition GetExchangeSourceBindings :: "'k rabbit_helper \<Rightarrow> json \<Rightarrow> ('k, json list) io" where
  "GetExchangeSourceBindings h x = bind_io (lift_io (ExtractName x)) (\<lambda>n.
     bind_io (attempt_io (GetEntity h (''exchanges/'' @ vhost_name h @ ''/'' @ n @ ''/bindings/source'') AList)) (\<lambda>res.
       ret_io (case res of Inl e \<Rightarrow> [] | Inr xs \<Rightarrow> elements xs)))"

section \<open>Policies\<close>

definition GetPolicy :: "'k rabbit_helper \<Rightarrow> json \<Rightarrow> ('k, json option) io" where
  "GetPolicy h x = bind_io (lift_io (ExtractName x)) (\<lambda>n.
     GetAdminEntity h (''policies/'' @ vhost_name h @ ''/'' @ n) AnObject)"

definition CreatePolicy :: "'k rabbit_helper \<Rightarrow> json \<Rightarrow> ('k, json option \<times> string) io" where
  "CreatePolicy h x = bind_io (lift_io (ExtractName x)) (\<lambda>n.
     bind_io (CreateAdminEntity h (''policies/'' @ vhost_name h @ ''/'' @ n) PUT (Some (GetPolicy h)) None x) (\<lambda>(result, _).
       ret_io (result, [])))"

definition DeletePolicy :: "'k rabbit_helper \<Rightarrow> json \<Rightarrow> ('k, json option) io" where
  "DeletePolicy h x = bind_io (lift_io (ExtractName x)) (\<lambda>n.
     DeleteAdminEntity h (''policies/'' @ vhost_name h @ ''/'' @ n) x)"

section \<open>Shovels\<close>

definition shovel_path :: "'k rabbit_helper \<Rightarrow> string \<Rightarrow> string" where
  "shovel_path h name = ''parameters/shovel/'' @ vhost_name h @ ''/'' @ name"

definition broker_address :: "'k rabbit_helper \<Rightarrow> string" where
  "broker_address h = trim_prefix (trim_prefix (ri_amqp_url (rh_instance h)) ''amqps://'') ''amqp://''"

definition vhost_uri :: "'k rabbit_helper \<Rightarrow> vhost \<Rightarrow> string" where
  "vhost_uri h v = ''amqp://'' @ vh_user v @ '':'' @ GetDecodedPassword v @ ''@'' @ broker_address h @ ''/'' @ vh_vhost v"

text \<open>A shovel as it is sent: an empty destination is left out, of a queue or of an exchange.\<close>

definition shovel_body :: "string \<Rightarrow> string \<Rightarrow> string \<Rightarrow> string \<Rightarrow> string \<Rightarrow> json" where
  "shovel_body src_uri src_queue dest_uri dest_queue dest_exchange =
     (let opt = (\<lambda>n s. if s = [] then [] else [(n, JStr s)]);
          v = object_of ([(''src-protocol'', JStr ''amqp091''), (''src-uri'', JStr src_uri), (''src-queue'', JStr src_queue),
             (''dest-protocol'', JStr ''amqp091''), (''dest-uri'', JStr dest_uri)]
             @ opt ''dest-queue'' dest_queue @ opt ''dest-exchange'' dest_exchange)
      in JObj (object_of [(''value'', JObj v), (''vhost'', JStr []), (''name'', JStr [])]))"

definition put_shovel :: "'k rabbit_helper \<Rightarrow> string \<Rightarrow> json \<Rightarrow> ('k, unit) io" where
  "put_shovel h name body =
     then_io (wrap_io (CreateAdminEntity h (shovel_path h name) PUT None None body)) (ret_io ())"

definition CreateShovelForExportedQueue :: "'k rabbit_helper \<Rightarrow> vhost list \<Rightarrow> json \<Rightarrow> string list \<Rightarrow> ('k, string list) io" where
  "CreateShovelForExportedQueue h vs queue existing =
     (case ExtractName queue of
        Inl e \<Rightarrow> raise_io Generic
      | Inr qname \<Rightarrow> map_io (\<lambda>v.
          let name = qname @ ''-'' @ vh_namespace v @ ''-exported'' in
          if contains existing name then ret_io name
          else then_io (put_shovel h name (shovel_body (vhost_uri h v) qname (vhost_uri h (rh_vhost h)) qname []))
                 (ret_io name)) vs)"

record vhost_and_version =
  vv_vhost :: vhost
  vv_version :: string

definition shovelQueue :: string where "shovelQueue = ''-sq''"

definition shovel_queue_body :: "string \<Rightarrow> json" where
  "shovel_queue_body qname = JObj (object_of [(''name'', JStr qname), (''durable'', JBool True)])"

definition version_binding :: "string \<Rightarrow> string \<Rightarrow> string \<Rightarrow> json" where
  "version_binding xname qname version =
     JObj (object_of [(''source'', JStr xname), (''destination'', JStr qname),
        (''arguments'', JObj [(''version'', JStr version)]), (''routing_key'', JStr ''*'')])"

definition CreateQueuesAndShovelsForExportedExchange ::
    "'k rabbit_helper \<Rightarrow> vhost_and_version list \<Rightarrow> json \<Rightarrow> string list \<Rightarrow> ('k, string list) io" where
  "CreateQueuesAndShovelsForExportedExchange h vvs exchange existing =
     (case ExtractName exchange of
        Inl e \<Rightarrow> raise_io Generic
      | Inr xname \<Rightarrow> map_io (\<lambda>vv.
          let v = vv_vhost vv; qname = xname @ ''-'' @ vh_namespace v @ shovelQueue;
              name = qname @ ''-'' @ vh_namespace v @ ''-exported'' in
          then_io (wrap_io (CreateQueue h (shovel_queue_body qname)))
          (then_io (wrap_io (CreateBinding h (version_binding xname qname (vv_version vv))))
            (if contains existing name then ret_io name
             else then_io (put_shovel h name (shovel_body (vhost_uri h (rh_vhost h)) qname (vhost_uri h v) [] xname))
                    (ret_io name)))) vvs)"

definition DeleteShovelByName :: "'k rabbit_helper \<Rightarrow> string \<Rightarrow> ('k, unit) io" where
  "DeleteShovelByName h name = then_io (wrap_io (DeleteAdminEntity h (shovel_path h name) JNull)) (ret_io ())"

text \<open>Lists that could not be read are empty.  Of a shovel the code looks at the name.\<close>

definition name_text :: "json \<Rightarrow> string" where
  "name_text x = (case text_of ''name'' x of Inl e \<Rightarrow> [] | Inr n \<Rightarrow> n)"

definition GetVhostShovels :: "'k rabbit_helper \<Rightarrow> ('k, json list) io" where
  "GetVhostShovels h = bind_io (wrap_io (GetAdminEntity h (''parameters/shovel/'' @ vhost_name h) Shovels)) (\<lambda>xs. ret_io (elements xs))"

definition GetVhostQueues :: "'k rabbit_helper \<Rightarrow> ('k, json list) io" where
  "GetVhostQueues h = bind_io (wrap_io (GetAdminEntity h (''queues/'' @ vhost_name h) Objects)) (\<lambda>xs. ret_io (elements xs))"

definition GetVhostExchanges :: "'k rabbit_helper \<Rightarrow> ('k, json list) io" where
  "GetVhostExchanges h = bind_io (wrap_io (GetAdminEntity h (''exchanges/'' @ vhost_name h) Objects)) (\<lambda>xs. ret_io (elements xs))"

definition GetAllVhosts :: "'k rabbit_helper \<Rightarrow> ('k, string list) io" where
  "GetAllVhosts h = bind_io (wrap_io (GetAdminEntity h ''vhosts?columns=name'' VhostInfos)) (\<lambda>xs.
     ret_io (map name_text (elements xs)))"

section \<open>Health\<close>

definition rabbitHealthCheck :: "'k rabbit_helper \<Rightarrow> string \<Rightarrow> ('k, http_reply) io" where
  "rabbitHealthCheck h suffix = rh_http h \<lparr>hq_method = GET, hq_url = ri_api_url (rh_instance h) @ suffix,
     hq_user = ri_user (rh_instance h), hq_password = ri_password (rh_instance h), hq_body = None\<rparr>"

definition interpretRabbitHealthCheckResponse :: "http_reply \<Rightarrow> unit outcome" where
  "interpretRabbitHealthCheckResponse r =
     (if hr_code r = 401 \<or> hr_code r = 403 then Inl Generic
      else if hr_code r \<noteq> 200 \<and> hr_code r \<noteq> 503 then Inl Generic
      else (case hr_json r of
              Some (JObj fs) \<Rightarrow> if field_of ''status'' fs = JStr ''ok'' then Inr () else Inl Generic
            | _ \<Rightarrow> Inl Generic))"

text \<open>Brokers that do not know the first path are asked on the one of older versions.\<close>

definition IsInstanceAvailable :: "'k rabbit_helper \<Rightarrow> ('k, unit) io" where
  "IsInstanceAvailable h =
     bind_io (rabbitHealthCheck h ''/health/checks/alarms'') (\<lambda>r.
     bind_io (if hr_code r = 404 then rabbitHealthCheck h ''/healthchecks/node'' else ret_io r) (\<lambda>r2.
       lift_io (interpretRabbitHealthCheckResponse r2)))"

end
