(* ===== verification/Maas_Rabbit_Dao.thy ===== *)
theory Maas_Rabbit_Dao
  imports Maas_Rabbit_Http
begin

text \<open>
  Virtual host registrations and the entities declared in them, data access
  (rabbit_service_dao.go; tables of dao/schema/3, 10, 13, 15 and 17).  A query without an order
  returns the rows in the order of the table.
\<close>

section \<open>Search\<close>

record search_form =
  sf_vhost :: string
  sf_user :: string
  sf_namespace :: string
  sf_instance :: string
  sf_classifier :: classifier

definition no_classifier :: classifier where
  "no_classifier = \<lparr>c_name = [], c_namespace = [], c_tenant = []\<rparr>"

definition empty_form :: search_form where
  "empty_form = \<lparr>sf_vhost = [], sf_user = [], sf_namespace = [], sf_instance = [], sf_classifier = no_classifier\<rparr>"

definition form_IsEmpty :: "search_form \<Rightarrow> bool" where
  "form_IsEmpty s = (classifier_IsEmpty (sf_classifier s) \<and> sf_vhost s = [] \<and> sf_user s = [] \<and>
     sf_namespace s = [] \<and> sf_instance s = [])"

text \<open>
  The condition on the user is \<open>user=?\<close>, without quotes: to PostgreSQL that is the key word for
  the role of the session, \<open>role\<close>, and not the column.
\<close>

definition vhost_matches :: "string \<Rightarrow> search_form \<Rightarrow> vhost \<Rightarrow> bool" where
  "vhost_matches role s v =
     ((classifier_IsEmpty (sf_classifier s) \<or> vh_classifier v = sf_classifier s) \<and>
      (sf_vhost s = [] \<or> vh_vhost v = sf_vhost s) \<and>
      (sf_user s = [] \<or> role = sf_user s) \<and>
      (sf_instance s = [] \<or> vh_instance v = sf_instance s) \<and>
      (sf_namespace s = [] \<or> vh_namespace v = sf_namespace s))"

definition FindVhostWithSearchForm :: "string \<Rightarrow> search_form \<Rightarrow> ('k, vhost list) dbio" where
  "FindVhostWithSearchForm role s =
     bind_io (using_db [] (sql_read (\<lambda>t. filter (vhost_matches role s) (vhosts t)))) (\<lambda>found.
       if found \<noteq> [] \<and> \<not> classifier_IsEmpty (sf_classifier s) \<and> length found \<noteq> 1 then raise_io Conflict
       else ret_io found)"

definition dao_FindVhostByClassifier :: "string \<Rightarrow> classifier \<Rightarrow> ('k, vhost option) dbio" where
  "dao_FindVhostByClassifier role cl =
     bind_io (wrap_io (FindVhostWithSearchForm role (empty_form\<lparr>sf_classifier := cl\<rparr>))) (\<lambda>found.
       ret_io (case found of [] \<Rightarrow> None | v # _ \<Rightarrow> Some v))"

definition dao_FindVhostsByNamespace :: "string \<Rightarrow> string \<Rightarrow> ('k, vhost list) dbio" where
  "dao_FindVhostsByNamespace role ns =
     (if ns = [] then raise_io BadRequest
      else wrap_io (FindVhostWithSearchForm role (empty_form\<lparr>sf_namespace := ns\<rparr>)))"

section \<open>Registrations\<close>

text \<open>The primary key, the unique index on the classifier, and the foreign key to the instances.\<close>

definition has_instance :: "string \<Rightarrow> tables \<Rightarrow> bool" where
  "has_instance iid t = list_ex (\<lambda>j. ri_id j = iid) (rabbit_instances t)"

definition insert_vhost :: "vhost \<Rightarrow> tables \<Rightarrow> (nat \<times> tables) outcome" where
  "insert_vhost v t =
     (if list_ex (\<lambda>u. vh_id u = next_id t \<or> vh_classifier u = vh_classifier v) (vhosts t) then Inl UniqueViolation
      else if \<not> has_instance (vh_instance v) t then Inl ForeignKeyViolation
      else Inr (next_id t, t\<lparr>next_id := next_id t + 1, vhosts := vhosts t @ [v\<lparr>vh_id := next_id t\<rparr>]\<rparr>))"

definition save_vhost :: "vhost \<Rightarrow> tables \<Rightarrow> (unit \<times> tables) outcome" where
  "save_vhost v t =
     (if list_ex (\<lambda>u. vh_id u \<noteq> vh_id v \<and> vh_classifier u = vh_classifier v) (vhosts t) then Inl UniqueViolation
      else if \<not> has_instance (vh_instance v) t then Inl ForeignKeyViolation
      else if list_ex (\<lambda>u. vh_id u = vh_id v) (vhosts t)
      then Inr ((), t\<lparr>vhosts := map (\<lambda>u. if vh_id u = vh_id v then v else u) (vhosts t)\<rparr>)
      else Inr ((), t\<lparr>vhosts := vhosts t @ [v]\<rparr>))"

text \<open>Foreign keys on delete cascade: the entities and configurations of a virtual host go with it.\<close>

definition delete_configs :: "(ms_config \<Rightarrow> bool) \<Rightarrow> tables \<Rightarrow> tables" where
  "delete_configs gone t =
     t\<lparr>ms_configs := [m \<leftarrow> ms_configs t. \<not> gone m],
       vers_entities := [e \<leftarrow> vers_entities t. \<not> list_ex (\<lambda>m. gone m \<and> mc_id m = ve_config e) (ms_configs t)]\<rparr>"

definition delete_vhost :: "nat \<Rightarrow> tables \<Rightarrow> (unit \<times> tables) outcome" where
  "delete_vhost vid t =
     Inr ((), (delete_configs (\<lambda>m. mc_vhost m = vid) t)
       \<lparr>vhosts := [v \<leftarrow> vhosts t. vh_id v \<noteq> vid], rabbit_entities := [e \<leftarrow> rabbit_entities t. re_vhost e \<noteq> vid]\<rparr>)"

definition unique_as_conflict :: "err \<Rightarrow> err" where
  "unique_as_conflict e = (if IsUniqIntegrityViolation e then Conflict else e)"

definition InsertVhostRegistration :: "vhost \<Rightarrow> (vhost \<Rightarrow> ('k, unit) dbio) \<Rightarrow> ('k, unit) dbio" where
  "InsertVhostRegistration v ext = wrap_io (with_tx ()
     (bind_io (map_err_io unique_as_conflict (sql_write (insert_vhost v))) (\<lambda>vid. ext (v\<lparr>vh_id := vid\<rparr>))))"

definition UpdateVhostRegistration :: "vhost \<Rightarrow> (vhost \<Rightarrow> ('k, unit) dbio) \<Rightarrow> ('k, unit) dbio" where
  "UpdateVhostRegistration v ext = wrap_io (with_tx () (then_io (sql_write (save_vhost v)) (ext v)))"

definition DeleteVhostRegistration :: "vhost \<Rightarrow> ('k, unit) dbio" where
  "DeleteVhostRegistration v = wrap_io (with_tx () (sql_write (delete_vhost (vh_id v))))"

section \<open>Entities\<close>

definition GetRabbitEntitiesByVhostId :: "nat \<Rightarrow> ('k, rabbit_entity list) dbio" where
  "GetRabbitEntitiesByVhostId vid =
     wrap_io (using_db [] (sql_read (\<lambda>t. [e \<leftarrow> rabbit_entities t. re_vhost e = vid])))"

text \<open>
  The unique keys: a JSON object once in a virtual host, and a name once for a type.  Null equals
  nothing.
\<close>

definition same_text :: "'a option \<Rightarrow> 'a option \<Rightarrow> bool" where
  "same_text x y = (x \<noteq> None \<and> x = y)"

definition same_client :: "rabbit_entity \<Rightarrow> rabbit_entity \<Rightarrow> bool" where
  "same_client d e = (re_vhost d = re_vhost e \<and> same_text (re_client d) (re_client e))"

definition same_named :: "rabbit_entity \<Rightarrow> rabbit_entity \<Rightarrow> bool" where
  "same_named d e = (re_vhost d = re_vhost e \<and> re_type d = re_type e \<and> same_text (re_name d) (re_name e))"

definition append_entity :: "rabbit_entity \<Rightarrow> tables \<Rightarrow> (unit \<times> tables) outcome" where
  "append_entity e t =
     (if list_ex (\<lambda>d. re_id d = next_id t) (rabbit_entities t) then Inl UniqueViolation
      else if \<not> list_ex (\<lambda>v. vh_id v = re_vhost e) (vhosts t) then Inl ForeignKeyViolation
      else Inr ((), t\<lparr>next_id := next_id t + 1, rabbit_entities := rabbit_entities t @ [e\<lparr>re_id := next_id t\<rparr>]\<rparr>))"

text \<open>\<open>insert ... on conflict do nothing\<close>\<close>

definition insert_lazy :: "rabbit_entity \<Rightarrow> tables \<Rightarrow> (unit \<times> tables) outcome" where
  "insert_lazy e t =
     (if list_ex (\<lambda>d. same_client d e \<or> same_named d e) (rabbit_entities t) then Inr ((), t) else append_entity e t)"

definition InsertLazyBinding :: "rabbit_entity \<Rightarrow> ('k, unit) dbio" where
  "InsertLazyBinding b = wrap_io (with_tx () (sql_write (insert_lazy b)))"

definition set_rabbit_entity :: "rabbit_entity \<Rightarrow> tables \<Rightarrow> (unit \<times> tables) outcome" where
  "set_rabbit_entity b t = Inr ((), t\<lparr>rabbit_entities :=
     map (\<lambda>e. if re_id e = re_id b then e\<lparr>re_rabbit := re_rabbit b\<rparr> else e) (rabbit_entities t)\<rparr>)"

definition UpdateLazyBinding :: "rabbit_entity \<Rightarrow> ('k, unit) dbio" where
  "UpdateLazyBinding b = wrap_io (with_tx () (sql_write (set_rabbit_entity b)))"

text \<open>\<open>insert ... on conflict (vhost_id, entity_type, entity_name) do update\<close> of the two objects\<close>

definition upsert_named :: "rabbit_entity \<Rightarrow> tables \<Rightarrow> (unit \<times> tables) outcome" where
  "upsert_named e t =
     (if list_ex (\<lambda>d. same_named d e) (rabbit_entities t)
      then (if list_ex (\<lambda>d. same_client d e \<and> \<not> same_named d e) (rabbit_entities t) then Inl UniqueViolation
            else Inr ((), t\<lparr>rabbit_entities := map (\<lambda>d. if same_named d e
                 then d\<lparr>re_client := re_client e, re_rabbit := re_rabbit e\<rparr> else d) (rabbit_entities t)\<rparr>))
      else if list_ex (\<lambda>d. same_client d e) (rabbit_entities t) then Inl UniqueViolation
      else append_entity e t)"

text \<open>
  An object the virtual host already has, of whatever type and name, leaves the table as it is.
\<close>

definition UpsertNamedRabbitEntity :: "rabbit_entity \<Rightarrow> ('k, unit) dbio" where
  "UpsertNamedRabbitEntity e = wrap_io (with_tx ()
     (bind_io (wrap_io (sql_read (\<lambda>t. length [d \<leftarrow> rabbit_entities t. same_client d e]))) (\<lambda>n.
        if n = 1 then ret_io () else sql_write (upsert_named e))))"

definition delete_entities :: "(rabbit_entity \<Rightarrow> bool) \<Rightarrow> tables \<Rightarrow> (unit \<times> tables) outcome" where
  "delete_entities gone t = Inr ((), t\<lparr>rabbit_entities := [e \<leftarrow> rabbit_entities t. \<not> gone e]\<rparr>)"

text \<open>The bindings of an exchange or a queue go with it.\<close>

definition DeleteNamedRabbitEntity :: "rabbit_entity \<Rightarrow> ('k, unit) dbio" where
  "DeleteNamedRabbitEntity x = with_tx ()
     (then_io (when_io (re_type x = ExchangeType) (sql_write (delete_entities (\<lambda>e.
          re_classifier e = re_classifier x \<and> re_type e = BindingType \<and> same_text (re_source e) (re_name x)))))
     (then_io (when_io (re_type x = QueueType) (sql_write (delete_entities (\<lambda>e.
          re_classifier e = re_classifier x \<and> re_type e = BindingType \<and> same_text (re_destination e) (re_name x)))))
       (sql_write (delete_entities (\<lambda>e.
          re_classifier e = re_classifier x \<and> same_text (re_name e) (re_name x) \<and> re_type e = re_type x)))))"

definition GetNotCreatedLazyBindingsByClassifier :: "classifier \<Rightarrow> ('k, rabbit_entity list) dbio" where
  "GetNotCreatedLazyBindingsByClassifier cl = using_db [] (sql_read (\<lambda>t.
     [e \<leftarrow> rabbit_entities t. re_classifier e = cl \<and> re_type e = BindingType \<and> re_rabbit e = None]))"

definition DeleteLazyBindingBySourceAndDestinationAndClassifier :: "classifier \<Rightarrow> json \<Rightarrow> ('k, unit) dbio" where
  "DeleteLazyBindingBySourceAndDestinationAndClassifier cl x =
     bind_io (lift_io (ExtractSourceAndDestination x)) (\<lambda>(s, d). with_tx () (sql_write (delete_entities (\<lambda>e.
       re_classifier e = cl \<and> re_type e = BindingType \<and> re_source e = Some s \<and> re_destination e = Some d))))"

section \<open>Versioned configurations\<close>

definition GetRabbitVersEntitiesByVhost :: "nat \<Rightarrow> ('k, versioned_entity list) dbio" where
  "GetRabbitVersEntitiesByVhost vid = using_db [] (sql_read (\<lambda>t.
     [e \<leftarrow> vers_entities t. list_ex (\<lambda>m. mc_id m = ve_config e \<and> mc_vhost m = vid) (ms_configs t)]))"

definition DeleteMsConfigsByNamespace :: "string \<Rightarrow> ('k, unit) dbio" where
  "DeleteMsConfigsByNamespace ns =
     wrap_io (with_tx () (sql_write (\<lambda>t. Inr ((), delete_configs (\<lambda>m. mc_namespace m = ns) t))))"

section \<open>Entities as rows (model/rabbit_model.go)\<close>

definition fields_or_panic :: "json \<Rightarrow> jobject outcome" where
  "fields_or_panic x = (case x of JObj fs \<Rightarrow> Inr fs | _ \<Rightarrow> Inl GoPanic)"

definition NewRabbitEntity ::
    "json \<Rightarrow> jobject option \<Rightarrow> entity_type \<Rightarrow> nat \<Rightarrow> string \<Rightarrow> classifier \<Rightarrow> rabbit_entity outcome" where
  "NewRabbitEntity client created ty vid ns cl =
     (case (if ty = BindingType
            then (case ExtractSourceAndDestination client of Inl e \<Rightarrow> Inl e | Inr (s, d) \<Rightarrow> Inr ([], s, d))
            else (case ExtractName client of Inl e \<Rightarrow> Inl e | Inr n \<Rightarrow> Inr (n, [], []))) of
        Inl e \<Rightarrow> Inl e
      | Inr (n, s, d) \<Rightarrow> (case fields_or_panic client of
          Inl e \<Rightarrow> Inl e
        | Inr fs \<Rightarrow> Inr \<lparr>re_id = 0, re_vhost = vid, re_namespace = ns, re_classifier = cl, re_type = ty,
            re_name = null_string n, re_source = null_string s, re_destination = null_string d,
            re_client = Some fs, re_rabbit = created\<rparr>))"

end
