(* ===== verification/Maas_Rabbit.thy ===== *)
theory Maas_Rabbit
  imports Maas_Rabbit_Dao
begin

text \<open>
  The RabbitMQ service (rabbit_service.go, prod_mode.go): virtual hosts and the entities declared
  in them.  The blue/green steps are in the theory after this one.  Passwords go through the plain
  key manager (keymanagement/empty.go), the one the server is built with.

  Parameters: the HTTP client, the depth of its helper, the database role, a source of random
  identifiers, and the order in which a map is ranged over.
\<close>

record 'k rabbit_env =
  rb_http :: "'k http_client"
  rb_depth :: nat
  rb_role :: string
  rb_uuid :: "'k \<Rightarrow> string \<times> 'k"
  rb_order :: "string list \<Rightarrow> string list"

definition CompactUuid :: "'k rabbit_env \<Rightarrow> ('k, string) dbio" where
  "CompactUuid e = on_broker (\<lambda>k. case rb_uuid e k of (u, k') \<Rightarrow> (Inr u, k'))"

definition SecurePassword :: "string \<Rightarrow> string" where
  "SecurePassword p = ''plain:'' @ p"

definition new_helper :: "'k rabbit_env \<Rightarrow> rabbit_instance \<Rightarrow> vhost \<Rightarrow> 'k rabbit_helper" where
  "new_helper e inst v = NewRabbitHelper (rb_http e) (rb_depth e) inst v"

section \<open>Instances\<close>

text \<open>The message about a missing instance reads its identifier: a panic.\<close>

definition LoadRabbitInstance :: "vhost \<Rightarrow> ('k, rabbit_instance) dbio" where
  "LoadRabbitInstance v = bind_io (r_GetById (vh_instance v)) deref_io"

definition ResolveRabbitInstanceById :: "string \<Rightarrow> ('k, rabbit_instance option) dbio" where
  "ResolveRabbitInstanceById iid = (if iid = [] then r_GetDefault else r_GetById iid)"

definition resolveRabbitInstance :: "string \<Rightarrow> classifier \<Rightarrow> string \<Rightarrow> ('k, rabbit_instance option) dbio" where
  "resolveRabbitInstance iid cl ns =
     bind_io (GetRabbitInstanceDesignatorByNamespace ns) (\<lambda>designator.
       case designator of
         Some d \<Rightarrow>
           if iid \<noteq> [] then raise_io Generic
           else bind_io (MatchDesignator cl d) (\<lambda>(inst, match).
             ret_io (if inst = None \<and> de_default_id d \<noteq> None then de_default d else inst))
       | None \<Rightarrow> if iid = [] then ret_io None else r_GetById iid)"

definition GetConnectionUrl :: "'k rabbit_env \<Rightarrow> vhost \<Rightarrow> ('k, string) dbio" where
  "GetConnectionUrl e v =
     bind_io (wrap_io (ResolveRabbitInstanceById (vh_instance v))) (\<lambda>inst.
       case inst of
         None \<Rightarrow> raise_io BadRequest
       | Some i \<Rightarrow> ret_io (FormatCnnUrl (new_helper e i v) (vh_vhost v)))"

definition GetApiUrl :: "string \<Rightarrow> ('k, string) dbio" where
  "GetApiUrl iid =
     bind_io (wrap_io (ResolveRabbitInstanceById iid)) (\<lambda>inst.
       case inst of None \<Rightarrow> raise_io BadRequest | Some i \<Rightarrow> ret_io (ri_api_url i))"

section \<open>Virtual hosts\<close>

definition FindVhostByClassifierForHelper :: "'k rabbit_env \<Rightarrow> classifier \<Rightarrow> ('k, vhost option) dbio" where
  "FindVhostByClassifierForHelper e cl = dao_FindVhostByClassifier (rb_role e) cl"

definition FindVhostByClassifier :: "'k rabbit_env \<Rightarrow> ctx \<Rightarrow> classifier \<Rightarrow> ('k, vhost option) dbio" where
  "FindVhostByClassifier e c cl =
     then_io (check_access c CheckSecurityForBoundNamespaces cl) (dao_FindVhostByClassifier (rb_role e) cl)"

definition FindVhostsByNamespace :: "'k rabbit_env \<Rightarrow> string \<Rightarrow> ('k, vhost list) dbio" where
  "FindVhostsByNamespace e ns = dao_FindVhostsByNamespace (rb_role e) ns"

text \<open>\<open>getRabbitHelperByClassifierAndNamespace\<close> without an instance and a virtual host.\<close>

definition helper_for :: "'k rabbit_env \<Rightarrow> classifier \<Rightarrow> ('k, 'k rabbit_helper) dbio" where
  "helper_for e cl =
     bind_io (FindVhostByClassifierForHelper e cl) (\<lambda>found.
       case found of
         None \<Rightarrow> raise_io Generic
       | Some v \<Rightarrow> bind_io (opaque_io (LoadRabbitInstance v)) (\<lambda>i. ret_io (new_helper e i v)))"

definition FormatVHostName :: "classifier \<Rightarrow> string option \<Rightarrow> string" where
  "FormatVHostName cl version =
     ''maas.'' @ c_namespace cl @ (if c_tenant cl \<noteq> [] then ''.'' @ c_tenant cl else []) @ ''.'' @ c_name cl @
     (case version of None \<Rightarrow> [] | Some v \<Rightarrow> if v \<noteq> ''v1'' then ''-'' @ v else [])"

record vhost_response =
  vr_cnn :: string
  vr_username :: string
  vr_password :: string

definition new_vhost :: "rabbit_instance \<Rightarrow> classifier \<Rightarrow> string option \<Rightarrow> string \<Rightarrow> string \<Rightarrow> vhost" where
  "new_vhost i cl version password user = \<lparr>vh_id = 0, vh_vhost = FormatVHostName cl version,
     vh_user = ''maas.'' @ c_namespace cl @ ''.'' @ take 10 user, vh_password = SecurePassword password,
     vh_namespace = c_namespace cl, vh_instance = ri_id i, vh_classifier = cl\<rparr>"

text \<open>
  The registration and the virtual host are made in one transaction, the broker last.  After a
  failure the password is deleted, which the plain key manager has nothing to do for.
\<close>

definition CreateAndRegisterVHost ::
    "'k rabbit_env \<Rightarrow> rabbit_instance \<Rightarrow> classifier \<Rightarrow> string option \<Rightarrow> ('k, vhost_response) dbio" where
  "CreateAndRegisterVHost e i cl version =
     bind_io (CompactUuid e) (\<lambda>password.
     bind_io (CompactUuid e) (\<lambda>user.
       let v = new_vhost i cl version password user; h = new_helper e i v in
       then_io (InsertVhostRegistration v (\<lambda>reg. on_broker (CreateVHost h)))
         (ret_io \<lparr>vr_cnn = FormatCnnUrl h (vh_vhost v), vr_username = vh_user v, vr_password = vh_password v\<rparr>)))"

text \<open>
  The instance a new virtual host goes to: the one resolved, or the default.  An instance asked
  for by an identifier nobody registered is not found, and so the default is taken.
\<close>

definition choose_instance :: "string \<Rightarrow> classifier \<Rightarrow> ('k, rabbit_instance) dbio" where
  "choose_instance iid cl =
     bind_io (wrap_io (resolveRabbitInstance iid cl (c_namespace cl))) (\<lambda>resolved.
       case resolved of
         Some i \<Rightarrow> ret_io i
       | None \<Rightarrow> bind_io (wrap_io r_GetDefault) (\<lambda>d. case d of None \<Rightarrow> raise_io BadRequest | Some i \<Rightarrow> ret_io i))"

definition create_vhost :: "'k rabbit_env \<Rightarrow> string \<Rightarrow> classifier \<Rightarrow> string option \<Rightarrow> ('k, bool \<times> vhost option) dbio" where
  "create_vhost e iid cl version =
     bind_io (choose_instance iid cl) (\<lambda>i.
     then_io (CreateAndRegisterVHost e i cl version)
       (bind_io (dao_FindVhostByClassifier (rb_role e) cl) (\<lambda>found.
          case found of None \<Rightarrow> raise_io Generic | Some v \<Rightarrow> ret_io (False, Some v))))"

definition get_or_create_vhost :: "'k rabbit_env \<Rightarrow> string \<Rightarrow> classifier \<Rightarrow> string option \<Rightarrow> ('k, bool \<times> vhost option) dbio" where
  "get_or_create_vhost e iid cl version =
     bind_io (dao_FindVhostByClassifier (rb_role e) cl) (\<lambda>found.
       case found of
         Some v \<Rightarrow>
           if iid = [] \<or> iid = vh_instance v then ret_io (True, Some v)
           else then_io (DeleteVhostRegistration v) (create_vhost e iid cl version)
       | None \<Rightarrow> create_vhost e iid cl version)"

definition getOrCreateVhostInternal ::
    "'k rabbit_env \<Rightarrow> string \<Rightarrow> classifier \<Rightarrow> string option \<Rightarrow> ('k, bool \<times> vhost option) dbio" where
  "getOrCreateVhostInternal e iid cl version = locked (False, None) (get_or_create_vhost e iid cl version)"

definition GetOrCreateVhost ::
    "'k rabbit_env \<Rightarrow> ctx \<Rightarrow> string \<Rightarrow> classifier \<Rightarrow> string option \<Rightarrow> ('k, bool \<times> vhost option) dbio" where
  "GetOrCreateVhost e c iid cl version =
     bind_io (deref_io (ctx_request c)) (\<lambda>rc.
     then_io (wrap_io (CheckSecurityForSingleNamespace (rc_namespace rc) cl)) (getOrCreateVhostInternal e iid cl version))"

definition CloneVhost ::
    "'k rabbit_env \<Rightarrow> string \<Rightarrow> classifier \<Rightarrow> string option \<Rightarrow> ('k, bool \<times> vhost option) dbio" where
  "CloneVhost e iid cl version = locked (False, None) (get_or_create_vhost e iid cl version)"

section \<open>Deletion\<close>

definition exported_suffix :: string where "exported_suffix = ''-exported''"

definition exported_of :: "string \<Rightarrow> string \<Rightarrow> classifier" where
  "exported_of name ns = \<lparr>c_name = name @ exported_suffix, c_namespace = ns, c_tenant = []\<rparr>"

definition is_exported :: "vhost \<Rightarrow> bool" where
  "is_exported v = has_suffix (c_name (vh_classifier v)) exported_suffix"

text \<open>The shovels of the exported virtual host, if there is one, go before the virtual host they read.\<close>

definition delete_exported_shovels :: "'k rabbit_env \<Rightarrow> classifier \<Rightarrow> ('k, unit) dbio" where
  "delete_exported_shovels e cl =
     (let ecl = exported_of (c_name cl) (c_namespace cl) in
      bind_io (wrap_io (dao_FindVhostByClassifier (rb_role e) ecl)) (\<lambda>found.
        if found = None then ret_io ()
        else bind_io (wrap_io (helper_for e ecl)) (\<lambda>h.
             bind_io (wrap_io (on_broker (GetVhostShovels h))) (\<lambda>shovels.
               for_each (\<lambda>s. wrap_io (on_broker (DeleteShovelByName h (name_text s)))) shovels))))"

definition DeleteVHost :: "'k rabbit_env \<Rightarrow> vhost \<Rightarrow> ('k, unit) dbio" where
  "DeleteVHost e v =
     bind_io (LoadRabbitInstance v) (\<lambda>i.
     then_io (when_io (\<not> is_exported v) (delete_exported_shovels e (vh_classifier v)))
     (then_io (wrap_io (on_broker (helper_DeleteVHost (new_helper e i v))))
       (wrap_io (DeleteVhostRegistration v))))"

definition restricted_form :: "ctx \<Rightarrow> string \<Rightarrow> search_form \<Rightarrow> search_form" where
  "restricted_form c ns s =
     (if \<not> UserHasRoles (ctx_security c) [ManagerRole] \<and> sf_namespace s = [] then s\<lparr>sf_namespace := ns\<rparr> else s)"

definition RemoveVHosts :: "'k rabbit_env \<Rightarrow> ctx \<Rightarrow> search_form \<Rightarrow> string \<Rightarrow> ('k, unit) dbio" where
  "RemoveVHosts e c s defaultNamespace =
     (if form_IsEmpty s then raise_io BadRequest
      else bind_io (wrap_io (FindVhostWithSearchForm (rb_role e) (restricted_form c defaultNamespace s))) (\<lambda>found.
        if found = [] then raise_io NotFound
        else for_each (\<lambda>v. locked () (opaque_io (DeleteVHost e v))) found))"

definition rabbit_CleanupNamespace :: "'k rabbit_env \<Rightarrow> ctx \<Rightarrow> string \<Rightarrow> ('k, unit) dbio" where
  "rabbit_CleanupNamespace e c ns =
     bind_io (deref_io (ctx_request c)) (\<lambda>rc.
     bind_io (attempt_io (RemoveVHosts e c (empty_form\<lparr>sf_namespace := ns\<rparr>) (rc_namespace rc))) (\<lambda>res.
     then_io (case res of
                Inl err \<Rightarrow> if err = NotFound then ret_io () else raise_io (wrapped err)
              | Inr _ \<Rightarrow> ret_io ())
       (wrap_io (DeleteMsConfigsByNamespace ns))))"

definition prod_RemoveVHosts :: "bool \<Rightarrow> 'k rabbit_env \<Rightarrow> ctx \<Rightarrow> search_form \<Rightarrow> string \<Rightarrow> ('k, unit) dbio" where
  "prod_RemoveVHosts isProdMode e c s ns = prod_mode isProdMode (RemoveVHosts e c s ns)"

definition no_vhosts_in :: "'k rabbit_env \<Rightarrow> string \<Rightarrow> ('k, unit) dbio" where
  "no_vhosts_in e ns =
     bind_io (wrap_io (dao_FindVhostsByNamespace (rb_role e) ns)) (\<lambda>found.
       if length found > 0 then raise_io Conflict else ret_io ())"

definition rabbit_DestroyDomain :: "'k rabbit_env \<Rightarrow> bg_namespaces \<Rightarrow> ('k, unit) dbio" where
  "rabbit_DestroyDomain e n = then_io (no_vhosts_in e (n_origin n)) (no_vhosts_in e (n_peer n))"

section \<open>Passwords\<close>

definition rotate_password :: "'k rabbit_env \<Rightarrow> vhost \<Rightarrow> ('k, vhost) dbio" where
  "rotate_password e v =
     bind_io (wrap_io (LoadRabbitInstance v)) (\<lambda>i.
     bind_io (CompactUuid e) (\<lambda>password.
     then_io (wrap_io (UpdateVhostRegistration (v\<lparr>vh_password := SecurePassword password\<rparr>)
         (\<lambda>reg. on_broker (CreateOrUpdateUser (new_helper e i v) (vh_user v) password))))
       (ret_io (v\<lparr>vh_password := ''***''\<rparr>))))"

definition RotatePasswords :: "'k rabbit_env \<Rightarrow> ctx \<Rightarrow> search_form \<Rightarrow> ('k, vhost list) dbio" where
  "RotatePasswords e c s =
     (if form_IsEmpty s then raise_io BadRequest
      else bind_io (if \<not> UserHasRoles (ctx_security c) [ManagerRole] \<and> sf_namespace s = []
                    then bind_io (deref_io (ctx_request c)) (\<lambda>rc. ret_io (s\<lparr>sf_namespace := rc_namespace rc\<rparr>))
                    else ret_io s) (\<lambda>form.
        bind_io (wrap_io (FindVhostWithSearchForm (rb_role e) form)) (\<lambda>found.
          if found = [] then raise_io NotFound else map_io (rotate_password e) found)))"

end
