(* ===== verification/Maas_Rabbit_Entities.thy ===== *)
theory Maas_Rabbit_Entities
  imports Maas_Rabbit
begin

text \<open>
  The RabbitMQ service (rabbit_service.go), configuration of a virtual host: exchanges, queues,
  bindings and policies, and the recovery of what was declared.
\<close>

section \<open>Declaring entities\<close>

text \<open>What was updated because it had to be made anew: the entity and the reason of the broker.\<close>

type_synonym update_status = "json \<times> string"

text \<open>
  An exchange or queue is declared in RabbitMQ, then recorded.  An entity that could not be read
  back is nil, and the assertion on its type panics.
\<close>

definition declare_named ::
    "(json \<Rightarrow> ('k, json option \<times> string) io) \<Rightarrow> entity_type \<Rightarrow> vhost \<Rightarrow> json \<Rightarrow> ('k, json \<times> update_status list) dbio" where
  "declare_named create ty v ent =
     bind_io (on_broker (create ent)) (\<lambda>(created, reason).
     bind_io (deref_io created) (\<lambda>x.
     bind_io (lift_io (fields_or_panic x)) (\<lambda>fs.
     bind_io (lift_io (NewRabbitEntity ent (Some fs) ty (vh_id v) (vh_namespace v) (vh_classifier v))) (\<lambda>row.
     then_io (UpsertNamedRabbitEntity row)
       (ret_io (x, if reason = [] then [] else [(x, reason)]))))))"

text \<open>Bindings that waited for their exchange are tried again.\<close>

definition retry_lazy :: "'k rabbit_helper \<Rightarrow> rabbit_entity \<Rightarrow> ('k, unit) dbio" where
  "retry_lazy h b =
     bind_io (on_broker (CreateNormalOrLazyBinding h (case re_client b of None \<Rightarrow> [] | Some fs \<Rightarrow> fs))) (\<lambda>created.
       if created = None then ret_io () else UpdateLazyBinding (b\<lparr>re_rabbit := created\<rparr>))"

definition binding_row :: "vhost \<Rightarrow> jobject \<Rightarrow> jobject option \<Rightarrow> rabbit_entity" where
  "binding_row v fs created =
     (let (s, d) = (case ExtractSourceAndDestination (JObj fs) of Inl e \<Rightarrow> ([], []) | Inr sd \<Rightarrow> sd)
      in \<lparr>re_id = 0, re_vhost = vh_id v, re_namespace = vh_namespace v, re_classifier = vh_classifier v,
          re_type = BindingType, re_name = None, re_source = null_string s, re_destination = null_string d,
          re_client = Some fs, re_rabbit = created\<rparr>)"

definition declare_binding :: "'k rabbit_helper \<Rightarrow> vhost \<Rightarrow> json \<Rightarrow> ('k, json list) dbio" where
  "declare_binding h v ent =
     bind_io (lift_io (fields_or_panic ent)) (\<lambda>fs.
     bind_io (on_broker (CreateNormalOrLazyBinding h fs)) (\<lambda>created.
     then_io (InsertLazyBinding (binding_row v fs created))
       (ret_io (case created of None \<Rightarrow> [] | Some c \<Rightarrow> [JObj c]))))"

definition CreateOrUpdateEntitiesV1 ::
    "'k rabbit_env \<Rightarrow> vhost \<Rightarrow> rabbit_entities_dto \<Rightarrow> ('k, rabbit_entities_dto option \<times> update_status list) dbio" where
  "CreateOrUpdateEntitiesV1 e v en =
     bind_io (helper_for e (vh_classifier v)) (\<lambda>h.
     bind_io (map_io (declare_named (CreateExchange h) ExchangeType v) (en_exchanges en)) (\<lambda>xs.
     bind_io (GetNotCreatedLazyBindingsByClassifier (vh_classifier v)) (\<lambda>lazies.
     then_io (for_each (retry_lazy h) lazies)
     (bind_io (map_io (declare_named (CreateQueue h) QueueType v) (en_queues en)) (\<lambda>qs.
      bind_io (map_io (declare_binding h v) (en_bindings en)) (\<lambda>bs.
        ret_io (if en_exchanges en = [] \<and> en_queues en = [] \<and> en_bindings en = [] then None
                else Some \<lparr>en_exchanges = map fst xs, en_queues = map fst qs, en_bindings = concat bs\<rparr>,
                concat (map snd (xs @ qs)))))))))"

section \<open>Policies and deletion\<close>

text \<open>\<open>createEntity\<close> and \<open>deleteEntity\<close> of the service around an action of the helper.\<close>

definition entity_created :: "(json \<Rightarrow> ('k, json option \<times> string) io) \<Rightarrow> json \<Rightarrow> ('k, json) io" where
  "entity_created handler ent =
     bind_io (handler ent) (\<lambda>(x, reason). case x of None \<Rightarrow> raise_io Generic | Some y \<Rightarrow> ret_io y)"

definition entity_deleted :: "(json \<Rightarrow> ('k, json option) io) \<Rightarrow> json \<Rightarrow> ('k, json list) io" where
  "entity_deleted handler ent =
     bind_io (handler ent) (\<lambda>x. ret_io (case x of None \<Rightarrow> [] | Some y \<Rightarrow> [y]))"

definition ApplyPolicies :: "'k rabbit_env \<Rightarrow> classifier \<Rightarrow> json list \<Rightarrow> ('k, json list) dbio" where
  "ApplyPolicies e cl ps =
     bind_io (helper_for e cl) (\<lambda>h. map_io (\<lambda>p. on_broker (entity_created (CreatePolicy h) p)) ps)"

text \<open>A section that is missing from a request is nil, which is told from an empty one.\<close>

record rabbit_deletions =
  rd_exchanges :: "json list option"
  rd_queues :: "json list option"
  rd_bindings :: "json list option"
  rd_policies :: "json list option"

definition no_vhost :: vhost where
  "no_vhost = \<lparr>vh_id = 0, vh_vhost = [], vh_user = [], vh_password = [], vh_namespace = [], vh_instance = [], vh_classifier = no_classifier\<rparr>"

definition remove_named :: "(json \<Rightarrow> ('k, json option) io) \<Rightarrow> entity_type \<Rightarrow> classifier \<Rightarrow> json \<Rightarrow> ('k, json list) dbio" where
  "remove_named handler ty cl ent =
     bind_io (on_broker (entity_deleted handler ent)) (\<lambda>gone.
     bind_io (lift_io (NewRabbitEntity ent None ty (vh_id no_vhost) (vh_namespace no_vhost) cl)) (\<lambda>row.
     then_io (DeleteNamedRabbitEntity row) (ret_io gone)))"

definition remove_binding :: "'k rabbit_helper \<Rightarrow> classifier \<Rightarrow> json \<Rightarrow> ('k, json list) dbio" where
  "remove_binding h cl ent =
     bind_io (on_broker (entity_deleted (DeleteBinding h) ent)) (\<lambda>gone.
     then_io (DeleteLazyBindingBySourceAndDestinationAndClassifier cl ent) (ret_io gone))"

definition remove_all :: "(json \<Rightarrow> ('k, json list) dbio) \<Rightarrow> json list option \<Rightarrow> ('k, json list) dbio" where
  "remove_all f ents =
     bind_io (map_io f (case ents of None \<Rightarrow> [] | Some xs \<Rightarrow> xs)) (\<lambda>gone. ret_io (concat gone))"

definition DeleteEntities :: "'k rabbit_env \<Rightarrow> classifier \<Rightarrow> rabbit_deletions \<Rightarrow> ('k, (json list \<times> json list \<times> json list \<times> json list) option) dbio" where
  "DeleteEntities e cl rd =
     bind_io (helper_for e cl) (\<lambda>h.
     bind_io (remove_all (remove_named (DeleteExchange h) ExchangeType cl) (rd_exchanges rd)) (\<lambda>xs.
     bind_io (remove_all (remove_named (DeleteQueue h) QueueType cl) (rd_queues rd)) (\<lambda>qs.
     bind_io (remove_all (remove_binding h cl) (rd_bindings rd)) (\<lambda>bs.
     bind_io (remove_all (\<lambda>p. on_broker (entity_deleted (DeletePolicy h) p)) (rd_policies rd)) (\<lambda>ps.
       ret_io (if rd_exchanges rd = None \<and> rd_queues rd = None \<and> rd_bindings rd = None \<and> rd_policies rd = None
               then None else Some (xs, qs, bs, ps)))))))"

section \<open>Reading and recovery\<close>

definition GetConfig :: "'k rabbit_env \<Rightarrow> classifier \<Rightarrow> ('k, rabbit_entities_dto) dbio" where
  "GetConfig e cl = bind_io (helper_for e cl) (\<lambda>h. on_broker (GetAllEntities h))"

definition GetShovels :: "'k rabbit_env \<Rightarrow> classifier \<Rightarrow> ('k, json list) dbio" where
  "GetShovels e cl = bind_io (helper_for e cl) (\<lambda>h. on_broker (GetVhostShovels h))"

text \<open>The entities of a virtual host as they were declared; a nil map has no fields.\<close>

definition client_json :: "rabbit_entity \<Rightarrow> json" where
  "client_json x = JObj (case re_client x of None \<Rightarrow> [] | Some fs \<Rightarrow> fs)"

definition declared :: "rabbit_entity list \<Rightarrow> rabbit_entities_dto" where
  "declared rows =
     \<lparr>en_exchanges = [client_json x. x \<leftarrow> rows, re_type x = ExchangeType],
      en_queues = [client_json x. x \<leftarrow> rows, re_type x = QueueType],
      en_bindings = [client_json x. x \<leftarrow> rows, re_type x = BindingType]\<rparr>"

text \<open>
  The recovery of the virtual hosts of a namespace.  The versioned entities, which
  \<open>RecoverVhostsByNamespace\<close> restores after all of them, are in a later theory.
\<close>

definition recover_vhost :: "'k rabbit_env \<Rightarrow> vhost \<Rightarrow> ('k, unit) dbio" where
  "recover_vhost e v =
     bind_io (r_GetById (vh_instance v)) (\<lambda>inst.
     bind_io (case inst of Some i \<Rightarrow> ret_io (new_helper e i v) | None \<Rightarrow> helper_for e (vh_classifier v)) (\<lambda>h.
     then_io (on_broker (CreateVHostAndReturnStatus h))
     (bind_io (GetRabbitEntitiesByVhostId (vh_id v)) (\<lambda>rows.
       then_io (CreateOrUpdateEntitiesV1 e v (declared rows)) (ret_io ())))))"

definition recover_vhosts :: "'k rabbit_env \<Rightarrow> string \<Rightarrow> ('k, unit) dbio" where
  "recover_vhosts e ns = bind_io (FindVhostsByNamespace e ns) (\<lambda>vs. for_each (recover_vhost e) vs)"

end
