(* ===== verification/Maas_Rabbit_Bg.thy ===== *)
theory Maas_Rabbit_Bg
  imports Maas_Rabbit_Entities
begin

text \<open>
  The RabbitMQ service (rabbit_service.go), blue/green steps: cloning the virtual hosts of a
  namespace, deleting those of the idle one, and the exported virtual host that stands before a
  pair.  What it does once it has the helper of the exported virtual host runs on the broker
  alone.
\<close>

section \<open>Version routers\<close>

definition getAltExchNameByVersionRouter :: "string \<Rightarrow> string" where
  "getAltExchNameByVersionRouter vr = vr @ ''-'' @ ''ae''"

definition getBg2ShovelQueueNameByNameAndNamespace :: "string \<Rightarrow> string \<Rightarrow> string" where
  "getBg2ShovelQueueNameByNameAndNamespace n ns = n @ ''-'' @ ns @ shovelQueue"

definition named :: "string \<Rightarrow> json" where
  "named n = JObj [(''name'', JStr n)]"

definition alternate_exchange :: "string \<Rightarrow> json" where
  "alternate_exchange vr = JObj (object_of [(''name'', JStr (getAltExchNameByVersionRouter vr)), (''type'', JStr ''fanout'')])"

definition router_exchange :: "string \<Rightarrow> json" where
  "router_exchange vr = JObj (object_of [(''name'', JStr vr), (''type'', JStr ''headers''),
     (''arguments'', JObj (object_of [(''alternate-exchange'', JStr (getAltExchNameByVersionRouter vr)), (''blue-green'', JStr ''true'')]))])"

definition createVersionRouterWithItsAE :: "'k rabbit_helper \<Rightarrow> string \<Rightarrow> ('k, unit) io" where
  "createVersionRouterWithItsAE h vr =
     then_io (entity_created (CreateExchange h) (alternate_exchange vr))
     (then_io (entity_created (CreateExchange h) (router_exchange vr)) (ret_io ()))"

definition alternate_binding :: "string \<Rightarrow> string \<Rightarrow> json" where
  "alternate_binding vr ns = JObj (object_of [(''source'', JStr (getAltExchNameByVersionRouter vr)),
     (''destination'', JStr (getBg2ShovelQueueNameByNameAndNamespace vr ns))])"

definition bind_alternate :: "'k rabbit_helper \<Rightarrow> string \<Rightarrow> string \<Rightarrow> ('k, json) io" where
  "bind_alternate h vr ns =
     entity_created (\<lambda>b. bind_io (CreateBinding h b) (\<lambda>x. ret_io (x, []))) (alternate_binding vr ns)"

text \<open>
  Does the exchange exist, and is it a version router: its alternate exchange exists, and it has
  one of the two arguments of a router.
\<close>

definition checkExistenceOfVersionRouter :: "'k rabbit_helper \<Rightarrow> string \<Rightarrow> ('k, bool \<times> bool) io" where
  "checkExistenceOfVersionRouter h vr =
     bind_io (GetExchange h (named vr)) (\<lambda>exch.
       case exch of
         None \<Rightarrow> ret_io (False, False)
       | Some x \<Rightarrow>
           bind_io (GetExchange h (named (getAltExchNameByVersionRouter vr))) (\<lambda>ae.
             if ae = None then ret_io (True, False)
             else (case x of
                     JObj fs \<Rightarrow> (case field_of ''arguments'' fs of
                         JObj args \<Rightarrow>
                           if field_of ''alternate-exchange'' args \<noteq> JStr (getAltExchNameByVersionRouter vr) \<and>
                              field_of ''blue-green'' args \<noteq> JStr ''true''
                           then raise_io Generic else ret_io (True, True)
                       | _ \<Rightarrow> raise_io Generic)
                   | _ \<Rightarrow> raise_io GoPanic)))"

section \<open>Switching the active namespace\<close>

text \<open>The bindings of the alternate exchange to other queues are deleted, and must have been there.\<close>

definition delete_other_binding :: "'k rabbit_helper \<Rightarrow> string \<Rightarrow> json \<Rightarrow> ('k, unit) io" where
  "delete_other_binding h destination b =
     bind_io (lift_io (fields_or_panic b)) (\<lambda>fs.
     bind_io (lift_io (string_field ''destination'' fs)) (\<lambda>d.
       if d = destination then ret_io ()
       else bind_io (DeleteBinding h b) (\<lambda>gone. if gone = None then raise_io Generic else ret_io ())))"

text \<open>An error of the helper's own type only says that there is no queue for the namespace.\<close>

definition switch_exchange :: "'k rabbit_helper \<Rightarrow> string \<Rightarrow> string \<Rightarrow> ('k, unit) io" where
  "switch_exchange h xname active =
     bind_io (attempt_io (bind_alternate h xname active)) (\<lambda>res.
     then_io (case res of
                Inl e \<Rightarrow> if e = EntityNotFound then ret_io () else raise_io (wrapped e)
              | Inr _ \<Rightarrow> ret_io ())
     (bind_io (GetExchangeSourceBindings h (named (getAltExchNameByVersionRouter xname))) (\<lambda>bs.
       for_each (delete_other_binding h (getBg2ShovelQueueNameByNameAndNamespace xname active)) bs)))"

definition system_exchange :: "string \<Rightarrow> bool" where
  "system_exchange n = (n = [] \<or> has_prefix n ''amq.'')"

definition switch_if_router :: "'k rabbit_helper \<Rightarrow> string \<Rightarrow> json \<Rightarrow> ('k, unit) io" where
  "switch_if_router h active x =
     bind_io (lift_io (fields_or_panic x)) (\<lambda>fs.
     bind_io (lift_io (string_field ''name'' fs)) (\<lambda>n.
       if system_exchange n then ret_io ()
       else bind_io (checkExistenceOfVersionRouter h n) (\<lambda>(exists, router).
              if exists \<and> \<not> router then ret_io () else switch_exchange h n active)))"

definition ChangeExportedExchangesActiveVersionBg2 :: "'k rabbit_env \<Rightarrow> classifier \<Rightarrow> string \<Rightarrow> ('k, unit) dbio" where
  "ChangeExportedExchangesActiveVersionBg2 e cl active =
     bind_io (helper_for e cl) (\<lambda>h.
       on_broker (bind_io (GetAllExchanges h) (\<lambda>xs. for_each (switch_if_router h active) xs)))"

section \<open>What is exported\<close>

text \<open>Maps from names are association lists; \<open>rb_order\<close> says in which order a range visits the names.\<close>

record exports =
  ex_queues :: "(string \<times> json) list"
  ex_queue_vhosts :: "(string \<times> vhost list) list"
  ex_exchanges :: "(string \<times> json) list"
  ex_exchange_vhosts :: "(string \<times> vhost_and_version list) list"
  ex_active :: string

definition no_exports :: "string \<Rightarrow> exports" where
  "no_exports active = \<lparr>ex_queues = [], ex_queue_vhosts = [], ex_exchanges = [], ex_exchange_vhosts = [], ex_active = active\<rparr>"

definition listed :: "string \<Rightarrow> (string \<times> 'a list) list \<Rightarrow> 'a list" where
  "listed n m = (case map_of m n of None \<Rightarrow> [] | Some xs \<Rightarrow> xs)"

definition add_listed :: "string \<Rightarrow> 'a \<Rightarrow> (string \<times> 'a list) list \<Rightarrow> (string \<times> 'a list) list" where
  "add_listed n x m = AList.update n (listed n m @ [x]) m"

definition export_version :: "bg_state option \<Rightarrow> string \<Rightarrow> string" where
  "export_version st ns = (case st of
      None \<Rightarrow> ''v1''
    | Some s \<Rightarrow> if ns = ns_name (st_origin s) then ns_version (st_origin s) else ns_version (st_peer s))"

definition export_active :: "bg_state option \<Rightarrow> string \<Rightarrow> string" where
  "export_active st active = (case st of
      None \<Rightarrow> active
    | Some s \<Rightarrow> if ns_state (st_origin s) = ''active'' then ns_name (st_origin s) else ns_name (st_peer s))"

definition export_entity :: "bg_state option \<Rightarrow> string \<Rightarrow> vhost \<Rightarrow> rabbit_entity \<Rightarrow> exports \<Rightarrow> exports" where
  "export_entity st ns v x acc =
     (let n = null_text (re_name x); fs = (case re_client x of None \<Rightarrow> [] | Some fs \<Rightarrow> fs) in
      if field_of ''exported'' fs \<noteq> JBool True then acc
      else (case re_type x of
              QueueType \<Rightarrow> acc\<lparr>ex_queues := AList.update n (JObj fs) (ex_queues acc),
                 ex_queue_vhosts := add_listed n v (ex_queue_vhosts acc)\<rparr>
            | ExchangeType \<Rightarrow> acc\<lparr>ex_exchanges := AList.update n (JObj fs) (ex_exchanges acc),
                 ex_exchange_vhosts := add_listed n \<lparr>vv_vhost = v, vv_version = export_version st ns\<rparr> (ex_exchange_vhosts acc),
                 ex_active := export_active st (ex_active acc)\<rparr>
            | BindingType \<Rightarrow> acc))"

text \<open>The namespaces of the pair, of which one may have no virtual host after a commit.\<close>

primrec collect_exports :: "'k rabbit_env \<Rightarrow> bg_state option \<Rightarrow> classifier \<Rightarrow> string list \<Rightarrow> exports \<Rightarrow> ('k, exports) dbio" where
  "collect_exports e st cl [] acc = ret_io acc"
| "collect_exports e st cl (ns # rest) acc =
     bind_io (wrap_io (dao_FindVhostByClassifier (rb_role e) (cl\<lparr>c_namespace := ns\<rparr>))) (\<lambda>found.
       case found of
         None \<Rightarrow> collect_exports e st cl rest acc
       | Some v \<Rightarrow>
           bind_io (wrap_io (GetRabbitEntitiesByVhostId (vh_id v))) (\<lambda>rows.
             collect_exports e st cl rest (fold (export_entity st ns v) rows acc)))"

section \<open>The exported virtual host\<close>

definition export_queue :: "'k rabbit_helper \<Rightarrow> exports \<Rightarrow> string list \<Rightarrow> string \<Rightarrow> ('k, string list) io" where
  "export_queue h ex existing n =
     (let q = (case map_of (ex_queues ex) n of None \<Rightarrow> JNull | Some q \<Rightarrow> q) in
      then_io (wrap_io (CreateQueue h q))
        (wrap_io (CreateShovelForExportedQueue h (listed n (ex_queue_vhosts ex)) q existing)))"

text \<open>Queues of the virtual host that are exported no more, but for those of exported exchanges.\<close>

definition unexport_queue :: "'k rabbit_helper \<Rightarrow> exports \<Rightarrow> json \<Rightarrow> ('k, unit) io" where
  "unexport_queue h ex q =
     bind_io (lift_io (fields_or_panic q)) (\<lambda>fs.
     bind_io (lift_io (string_field ''name'' fs)) (\<lambda>n.
       if has_suffix n shovelQueue \<or> map_of (ex_queues ex) n \<noteq> None then ret_io ()
       else then_io (wrap_io (DeleteQueue h q)) (ret_io ())))"

definition export_exchange :: "'k rabbit_helper \<Rightarrow> exports \<Rightarrow> string list \<Rightarrow> string \<Rightarrow> ('k, string list) io" where
  "export_exchange h ex existing n =
     (let x = (case map_of (ex_exchanges ex) n of None \<Rightarrow> JNull | Some x \<Rightarrow> x) in
      then_io (wrap_io (createVersionRouterWithItsAE h n))
      (bind_io (wrap_io (CreateQueuesAndShovelsForExportedExchange h (listed n (ex_exchange_vhosts ex)) x existing)) (\<lambda>names.
       bind_io (attempt_io (bind_alternate h n (ex_active ex))) (\<lambda>res.
         case res of
           Inl err \<Rightarrow> if err = EntityNotFound then ret_io names else raise_io (wrapped err)
         | Inr _ \<Rightarrow> ret_io names))))"

text \<open>
  The queues of an exchange: by its name as a prefix, and the suffix of such queues; with one
  namespace left, those of other namespaces.
\<close>

definition queues_to_delete :: "exports \<Rightarrow> string \<Rightarrow> string \<Rightarrow> bool" where
  "queues_to_delete ex xname qname =
     (let own = has_prefix qname xname \<and> has_suffix qname shovelQueue in
      case map_of (ex_exchange_vhosts ex) xname of
        None \<Rightarrow> own
      | Some [vv] \<Rightarrow> own \<and> \<not> has_infix qname (''-'' @ vh_namespace (vv_vhost vv) @ ''-'')
      | Some _ \<Rightarrow> False)"

definition reads_queue_names :: "exports \<Rightarrow> string \<Rightarrow> bool" where
  "reads_queue_names ex xname = (case map_of (ex_exchange_vhosts ex) xname of None \<Rightarrow> True | Some vvs \<Rightarrow> length vvs = 1)"

definition queue_name :: "json \<Rightarrow> string outcome" where
  "queue_name q = (case fields_or_panic q of Inl e \<Rightarrow> Inl e | Inr fs \<Rightarrow> string_field ''name'' fs)"

definition unexport_exchange :: "'k rabbit_helper \<Rightarrow> exports \<Rightarrow> json list \<Rightarrow> json \<Rightarrow> ('k, unit) io" where
  "unexport_exchange h ex queues x =
     bind_io (lift_io (queue_name x)) (\<lambda>n.
       if system_exchange n \<or> has_suffix n ''-ae'' then ret_io ()
       else
         then_io (when_io (map_of (ex_exchange_vhosts ex) n = None)
             (then_io (wrap_io (DeleteExchange h x))
             (then_io (wrap_io (DeleteExchange h (named (getAltExchNameByVersionRouter n)))) (ret_io ()))))
         (bind_io (if reads_queue_names ex n then map_io (\<lambda>q. lift_io (queue_name q)) queues else ret_io []) (\<lambda>names.
           for_each (\<lambda>(q, qn). when_io (queues_to_delete ex n qn) (then_io (wrap_io (DeleteQueue h q)) (ret_io ())))
             (zip queues names))))"

definition delete_orphan_shovel :: "'k rabbit_helper \<Rightarrow> string list \<Rightarrow> json \<Rightarrow> ('k, unit) io" where
  "delete_orphan_shovel h created s =
     (if \<not> has_suffix (name_text s) exported_suffix \<or> contains created (name_text s) then ret_io ()
      else bind_io (attempt_io (DeleteShovelByName h (name_text s))) (\<lambda>_. ret_io ()))"

text \<open>
  Everything that happens on the broker, in order.  The queues are listed once, before the
  exchanges make theirs.
\<close>

definition sync_exported :: "('k rabbit_env) \<Rightarrow> 'k rabbit_helper \<Rightarrow> exports \<Rightarrow> ('k, unit) io" where
  "sync_exported e h ex =
     bind_io (wrap_io (GetVhostShovels h)) (\<lambda>shovels.
     let existing = map name_text shovels in
     bind_io (map_io (export_queue h ex existing) (rb_order e (map fst (ex_queues ex)))) (\<lambda>created1.
     bind_io (wrap_io (GetVhostQueues h)) (\<lambda>queues.
     then_io (for_each (unexport_queue h ex) queues)
     (bind_io (map_io (export_exchange h ex existing) (rb_order e (map fst (ex_exchanges ex)))) (\<lambda>created2.
      bind_io (wrap_io (GetVhostExchanges h)) (\<lambda>exchanges.
      then_io (for_each (unexport_exchange h ex queues) exchanges)
        (for_each (delete_orphan_shovel h (concat (created1 @ created2))) shovels)))))))"

definition process_exported :: "'k rabbit_env \<Rightarrow> classifier \<Rightarrow> string \<Rightarrow> exports \<Rightarrow> ('k, unit) dbio" where
  "process_exported e ecl iid ex =
     bind_io (dao_FindVhostByClassifier (rb_role e) ecl) (\<lambda>found.
       if found = None \<and> ex_queues ex = [] \<and> ex_exchanges ex = [] then ret_io ()
       else then_io (if found = None then then_io (wrap_io (getOrCreateVhostInternal e iid ecl None)) (ret_io ()) else ret_io ())
         (bind_io (wrap_io (helper_for e ecl)) (\<lambda>h. on_broker (sync_exported e h ex))))"

definition process_vhost :: "'k rabbit_env \<Rightarrow> bg_state option \<Rightarrow> string \<Rightarrow> vhost \<Rightarrow> ('k, unit) dbio" where
  "process_vhost e st ns v =
     (if is_exported v then ret_io ()
      else
        let cl = vh_classifier v;
            namespaces = (case st of None \<Rightarrow> [ns] | Some s \<Rightarrow> [ns_name (st_origin s), ns_name (st_peer s)]);
            ecl = exported_of (c_name cl) (case st of None \<Rightarrow> ns | Some s \<Rightarrow> ns_name (st_origin s)) in
        bind_io (collect_exports e st cl namespaces (no_exports ns)) (\<lambda>ex.
          wrap_io (locked () (process_exported e ecl (vh_instance v) ex))))"

definition ProcessExportedVhost :: "'k rabbit_env \<Rightarrow> string \<Rightarrow> ('k, unit) dbio" where
  "ProcessExportedVhost e ns =
     bind_io (wrap_io (GetCurrentBgStateByNamespace ns)) (\<lambda>st.
     bind_io (wrap_io (FindVhostsByNamespace e ns)) (\<lambda>vs.
       for_each (process_vhost e st ns) vs))"

section \<open>Blue/green steps\<close>

text \<open>The idle namespace, or the active one, of a state: the origin if both are.\<close>

definition namespace_in_state :: "string \<Rightarrow> bg_state \<Rightarrow> string outcome" where
  "namespace_in_state s st =
     (if ns_state (st_origin st) = s then Inr (ns_name (st_origin st))
      else if ns_state (st_peer st) = s then Inr (ns_name (st_peer st))
      else Inl BadRequest)"

definition rabbit_Commit :: "'k rabbit_env \<Rightarrow> bg_state \<Rightarrow> ('k, unit) dbio" where
  "rabbit_Commit e st =
     bind_io (lift_io (namespace_in_state ''idle'' st)) (\<lambda>ns.
     bind_io (wrap_io (FindVhostsByNamespace e ns)) (\<lambda>vs.
     then_io (for_each (\<lambda>v. if is_exported v then ret_io () else wrap_io (DeleteVHost e v)) vs)
       (wrap_io (ProcessExportedVhost e (ns_name (st_origin st))))))"

text \<open>Versioned entities must be gone before; then the virtual host is cloned with what it declares.\<close>

definition clone_with_entities :: "'k rabbit_env \<Rightarrow> string \<Rightarrow> string \<Rightarrow> vhost \<Rightarrow> ('k, unit) dbio" where
  "clone_with_entities e ns version v =
     (if is_exported v \<or> c_name (vh_classifier v) = ''exported'' then ret_io ()
      else
        bind_io (wrap_io (GetRabbitVersEntitiesByVhost (vh_id v))) (\<lambda>versEntities.
          if versEntities \<noteq> [] then raise_io VersEntitiesExist
          else bind_io (wrap_io (CloneVhost e (vh_instance v) ((vh_classifier v)\<lparr>c_namespace := ns\<rparr>) (Some version))) (\<lambda>(found, clone).
               bind_io (wrap_io (GetRabbitEntitiesByVhostId (vh_id v))) (\<lambda>rows.
               bind_io (deref_io clone) (\<lambda>w.
               then_io (wrap_io (CreateOrUpdateEntitiesV1 e w (declared rows))) (ret_io ()))))))"

definition rabbit_Warmup :: "'k rabbit_env \<Rightarrow> bg_state \<Rightarrow> ('k, unit) dbio" where
  "rabbit_Warmup e st =
     (let orig = (ns_state (st_origin st) = ''active'');
          active = (if orig then st_origin st else st_peer st);
          candidate = (if orig then st_peer st else st_origin st) in
      bind_io (wrap_io (dao_FindVhostsByNamespace (rb_role e) (ns_name active))) (\<lambda>vs.
      then_io (for_each (clone_with_entities e (ns_name candidate) (ns_version candidate)) vs)
        (wrap_io (ProcessExportedVhost e (ns_name (st_origin st))))))"

definition switch_exported :: "'k rabbit_env \<Rightarrow> bg_state \<Rightarrow> ('k, unit) dbio" where
  "switch_exported e st =
     bind_io (lift_io (namespace_in_state ''active'' st)) (\<lambda>active.
     bind_io (wrap_io (FindVhostsByNamespace e (ns_name (st_origin st)))) (\<lambda>vs.
       for_each (\<lambda>v. if is_exported v then wrap_io (ChangeExportedExchangesActiveVersionBg2 e (vh_classifier v) active)
                     else ret_io ()) vs))"

definition rabbit_Promote :: "'k rabbit_env \<Rightarrow> bg_state \<Rightarrow> ('k, unit) dbio" where
  "rabbit_Promote e st = switch_exported e st"

definition rabbit_Rollback :: "'k rabbit_env \<Rightarrow> bg_state \<Rightarrow> ('k, unit) dbio" where
  "rabbit_Rollback e st = switch_exported e st"

end
