(* ===== verification/Maas_BgManager.thy ===== *)
theory Maas_BgManager
  imports Maas_Kafka_Props
begin

text \<open>
  The manager of blue/green operations (service/bg2/bg_manager.go): each operation checks that
  the pair of namespaces is a registered domain, records the state, and runs the step of every
  broker service, all in one transaction context.

  The manager is built with a list of broker services and knows their interface only; server.go
  gives it the Kafka and the RabbitMQ service in production mode, which leaves these steps to the
  service it wraps.  The Kafka service is modelled and instantiates the interface; another
  service is a parameter.
\<close>

record 'k broker_service =
  bs_Warmup :: "ctx \<Rightarrow> bg_state \<Rightarrow> ('k, unit) dbio"
  bs_Commit :: "ctx \<Rightarrow> bg_state \<Rightarrow> ('k, unit) dbio"
  bs_Promote :: "ctx \<Rightarrow> bg_state \<Rightarrow> ('k, unit) dbio"
  bs_Rollback :: "ctx \<Rightarrow> bg_state \<Rightarrow> ('k, unit) dbio"
  bs_DestroyDomain :: "ctx \<Rightarrow> bg_namespaces \<Rightarrow> ('k, unit) dbio"

definition kafka_broker :: "'k kafka_helper \<Rightarrow> 'k broker_service" where
  "kafka_broker h = \<lparr>bs_Warmup = kafka_Warmup h, bs_Commit = (\<lambda>c. kafka_Commit h), bs_Promote = (\<lambda>c. kafka_Promote),
     bs_Rollback = (\<lambda>c. kafka_Rollback), bs_DestroyDomain = (\<lambda>c. kafka_DestroyDomain)\<rparr>"

section \<open>Operations\<close>

definition InitDomain :: "bg_state \<Rightarrow> ('k, unit) dbio" where
  "InitDomain state =
     bind_io (wrap_io (FindByNamespace (ns_name (st_origin state)))) (\<lambda>pair.
       if (case pair of None \<Rightarrow> False
           | Some p \<Rightarrow> n_origin p = ns_name (st_origin state) \<and> n_peer p = ns_name (st_peer state))
       then ret_io ()
       else wrap_io (Bind (ns_name (st_origin state)) (ns_name (st_peer state)) (st_controller state)))"

definition validateDomain :: "string \<Rightarrow> string \<Rightarrow> ('k, unit) dbio \<Rightarrow> ('k, unit) dbio" where
  "validateDomain orig peer f =
     bind_io (wrap_io (FindByNamespace orig)) (\<lambda>domain.
       case domain of
         None \<Rightarrow> raise_io NotFound
       | Some d \<Rightarrow> if n_origin d \<noteq> orig \<or> n_peer d \<noteq> peer then raise_io NotFound else f)"

definition record_and_run :: "bg_state \<Rightarrow> ('b \<Rightarrow> ('k, unit) dbio) \<Rightarrow> 'b list \<Rightarrow> ('k, unit) dbio" where
  "record_and_run state step services =
     then_io (wrap_io (InsertBgState state)) (for_each (\<lambda>b. wrap_io (step b)) services)"

definition bg_Warmup :: "'k broker_service list \<Rightarrow> ctx \<Rightarrow> bg_state \<Rightarrow> ('k, unit) dbio" where
  "bg_Warmup services c state = with_tx_ctx
     (validateDomain (ns_name (st_origin state)) (ns_name (st_peer state))
       (then_io (wrap_io (UpdateController (ns_name (st_origin state)) (st_controller state)))
         (record_and_run state (\<lambda>b. bs_Warmup b c state) services)))"

definition bg_Commit :: "'k broker_service list \<Rightarrow> ctx \<Rightarrow> bg_state \<Rightarrow> ('k, unit) dbio" where
  "bg_Commit services c state = with_tx_ctx
     (validateDomain (ns_name (st_origin state)) (ns_name (st_peer state))
       (record_and_run state (\<lambda>b. bs_Commit b c state) services))"

definition bg_Promote :: "'k broker_service list \<Rightarrow> ctx \<Rightarrow> bg_state \<Rightarrow> ('k, unit) dbio" where
  "bg_Promote services c state = with_tx_ctx
     (validateDomain (ns_name (st_origin state)) (ns_name (st_peer state))
       (record_and_run state (\<lambda>b. bs_Promote b c state) services))"

definition bg_Rollback :: "'k broker_service list \<Rightarrow> ctx \<Rightarrow> bg_state \<Rightarrow> ('k, unit) dbio" where
  "bg_Rollback services c state = with_tx_ctx
     (validateDomain (ns_name (st_origin state)) (ns_name (st_peer state))
       (record_and_run state (\<lambda>b. bs_Rollback b c state) services))"

definition bg_DestroyDomain :: "'k broker_service list \<Rightarrow> ctx \<Rightarrow> bg_namespaces \<Rightarrow> ('k, unit) dbio" where
  "bg_DestroyDomain services c n = with_tx_ctx
     (validateDomain (n_origin n) (n_peer n)
       (then_io (for_each (\<lambda>b. wrap_io (bs_DestroyDomain b c n)) services)
         (bind_io (wrap_io (Unbind (n_origin n))) (\<lambda>old. ret_io ()))))"

definition ListDomains :: "('k, bg_namespaces list) dbio" where
  "ListDomains = domain_List"

section \<open>Transactional steps\<close>

named_theorems transactional_intros \<open>rules for steps that run in the transaction of their caller\<close>

lemma transactional_bind [transactional_intros]:
  "transactional m \<Longrightarrow> (\<And>a. transactional (f a)) \<Longrightarrow> transactional (bind_io m f)"
  unfolding transactional_def by (blast intro: keeps_intros)

lemma transactional_then [transactional_intros]:
  "transactional m \<Longrightarrow> transactional k \<Longrightarrow> transactional (then_io m k)"
  unfolding transactional_def by (blast intro: keeps_intros)

lemma transactional_pure [transactional_intros]:
  "transactional (ret_io a)" "transactional (raise_io e)" "transactional (lift_io r)"
  "transactional (sql_read q)"
  unfolding transactional_def by (blast intro: keeps_intros)+

lemma transactional_deref [transactional_intros]: "transactional (deref_io p)"
  unfolding transactional_def by (blast intro: keeps_intros)

lemma transactional_first [transactional_intros]: "transactional (sql_first q)"
  unfolding transactional_def by (blast intro: keeps_intros)

lemma transactional_around [transactional_intros]:
  "transactional m \<Longrightarrow> transactional (wrap_io m)" "transactional m \<Longrightarrow> transactional (map_err_io h m)"
  "transactional m \<Longrightarrow> transactional (using_db z m)"
  unfolding transactional_def by (blast intro: keeps_intros)+

lemma transactional_attempt [transactional_intros]: "transactional m \<Longrightarrow> transactional (attempt_io m)"
  unfolding transactional_def by (blast intro: keeps_intros)

lemma transactional_when [transactional_intros]: "transactional m \<Longrightarrow> transactional (when_io b m)"
  unfolding transactional_def by (blast intro: keeps_intros)

lemma transactional_tx [transactional_intros]: "(\<And>T. keeps (in_begun T) f) \<Longrightarrow> transactional (with_tx z f)"
  unfolding transactional_def by (blast intro: keeps_intros)

lemma transactional_if [transactional_intros]:
  "(b \<Longrightarrow> transactional m) \<Longrightarrow> (\<not> b \<Longrightarrow> transactional k) \<Longrightarrow> transactional (if b then m else k)"
  by simp

lemma transactional_option [transactional_intros]:
  "(x = None \<Longrightarrow> transactional m) \<Longrightarrow> (\<And>a. x = Some a \<Longrightarrow> transactional (f a)) \<Longrightarrow>
   transactional (case x of None \<Rightarrow> m | Some a \<Rightarrow> f a)"
  by (cases x) auto

lemma transactional_sum [transactional_intros]:
  "(\<And>e. x = Inl e \<Longrightarrow> transactional (g e)) \<Longrightarrow> (\<And>a. x = Inr a \<Longrightarrow> transactional (f a)) \<Longrightarrow>
   transactional (case x of Inl e \<Rightarrow> g e | Inr a \<Rightarrow> f a)"
  by (cases x) auto

lemma transactional_prod [transactional_intros]:
  "(\<And>a b. x = (a, b) \<Longrightarrow> transactional (g a b)) \<Longrightarrow> transactional (case x of (a, b) \<Rightarrow> g a b)"
  by (cases x) auto

lemma transactional_list [transactional_intros]:
  "(xs = [] \<Longrightarrow> transactional m) \<Longrightarrow> (\<And>y ys. xs = y # ys \<Longrightarrow> transactional (f y ys)) \<Longrightarrow>
   transactional (case xs of [] \<Rightarrow> m | y # ys \<Rightarrow> f y ys)"
  by (cases xs) auto

lemma transactional_each [transactional_intros]:
  "(\<And>b. b \<in> set bs \<Longrightarrow> transactional (step b)) \<Longrightarrow> transactional (for_each step bs)"
  by (induction bs) (auto intro!: transactional_intros)

lemma transactional_map [transactional_intros]:
  "(\<And>x. transactional (f x)) \<Longrightarrow> transactional (map_io f xs)"
  unfolding transactional_def by (blast intro: keeps_intros)

lemma transactional_validated:
  "transactional f \<Longrightarrow> transactional (validateDomain orig peer f)"
  unfolding validateDomain_def
  by (auto intro!: transactional_intros transactional_domain split: option.split)

lemma transactional_recorded:
  "(\<And>b. b \<in> set bs \<Longrightarrow> transactional (step b)) \<Longrightarrow> transactional (record_and_run state step bs)"
  unfolding record_and_run_def by (intro transactional_intros transactional_domain)

section \<open>The contract of a broker service\<close>

text \<open>
  What the manager relies on: inside the transaction of the manager a step writes only what a
  failure of that transaction undoes.
\<close>

locale brokers =
  fixes services :: "'k broker_service list"
  assumes warmup: "b \<in> set services \<Longrightarrow> transactional (bs_Warmup b c st)"
    and commit: "b \<in> set services \<Longrightarrow> transactional (bs_Commit b c st)"
    and promote: "b \<in> set services \<Longrightarrow> transactional (bs_Promote b c st)"
    and rollback: "b \<in> set services \<Longrightarrow> transactional (bs_Rollback b c st)"
    and destroy: "b \<in> set services \<Longrightarrow> transactional (bs_DestroyDomain b c n)"
begin

lemma one_context:
  "\<exists>m. transactional m \<and> bg_Warmup services c st = with_tx_ctx m"
  "\<exists>m. transactional m \<and> bg_Commit services c st = with_tx_ctx m"
  "\<exists>m. transactional m \<and> bg_Promote services c st = with_tx_ctx m"
  "\<exists>m. transactional m \<and> bg_Rollback services c st = with_tx_ctx m"
  "\<exists>m. transactional m \<and> bg_DestroyDomain services c n = with_tx_ctx m"
  unfolding bg_Warmup_def bg_Commit_def bg_Promote_def bg_Rollback_def bg_DestroyDomain_def
  by (rule exI, rule conjI [OF _ refl], intro transactional_validated transactional_recorded transactional_intros
      transactional_domain warmup commit promote rollback destroy, assumption)+

lemma all_or_nothing:
  assumes op: "op \<in> {bg_Warmup services c st, bg_Commit services c st, bg_Promote services c st, bg_Rollback services c st,
      bg_DestroyDomain services c n}" and w: "txc w = None" and run: "op w = (Inl e, w')"
  shows "tabs w' = tabs w \<and> txc w' = None"
proof -
  obtain m where "transactional m" "op = with_tx_ctx m" using op one_context by blast
  with with_tx_ctx_atomic [OF w transactionalD(1)] run show ?thesis by blast
qed

end

section \<open>The Kafka service keeps the contract\<close>

lemma transactional_broker [transactional_intros]: "transactional (on_broker f)"
  by (rule transactionalI; rule keepsI; auto simp: on_broker_def in_ctx_def in_begun_def in_tx_def committed_def
      split: prod.splits option.splits)

lemma transactional_reads [transactional_intros]:
  "transactional (k_GetById iid)" "transactional k_GetDefault" "transactional (domain_origin ns)"
  "transactional (GetKafkaInstanceDesignatorByNamespace ns)"
  "transactional broadcast_created" "transactional (FindTopicTemplateById n)" "transactional (GetByNamespace ns)"
proof -
  have i: "transactional (k_dao_GetInstanceById iid)" for iid
    unfolding k_dao_GetInstanceById_def by (intro transactional_intros)
  show "transactional (k_GetById iid)" unfolding k_GetById_def by (intro transactional_intros i)
  show "transactional k_GetDefault" unfolding k_GetDefault_def k_dao_GetDefaultInstance_def defaultInstance_def
    by (intro transactional_intros keeps_intros)
  show "transactional (domain_origin ns)" unfolding domain_origin_def by (intro transactional_intros transactional_domain)
  show "transactional (GetKafkaInstanceDesignatorByNamespace ns)"
    unfolding GetKafkaInstanceDesignatorByNamespace_def k_dao_GetKafkaInstanceDesignatorByNamespace_def Let_def
      dao_FindByNamespace_def
    by (intro transactional_intros i)
  show "transactional broadcast_created" unfolding broadcast_created_def by (intro transactional_intros)
  show "transactional (FindTopicTemplateById n)" unfolding FindTopicTemplateById_def by (intro transactional_intros)
  show "transactional (GetByNamespace ns)" by (rule transactional_composite)
qed

lemma transactional_names [transactional_intros]:
  "transactional (resolveTopicName nt cl v)" "transactional (resolveKafkaInstance cl rq ns)"
  "transactional (CheckSecurityForBoundNamespaces ns cl)" "transactional (with_instances known ts)"
proof -
  have m: "transactional (match_selectors domain_origin cl ss)" for ss :: "kafka_instance selector list"
    by (induction ss) (unfold match_selectors.simps, (intro transactional_intros; assumption?)+)
  have d: "transactional default_kafka" unfolding default_kafka_def by (intro transactional_intros)
  show "transactional (resolveTopicName nt cl v)" unfolding resolveTopicName_def Let_def
    by (intro transactional_intros transactional_domain)
  show "transactional (resolveKafkaInstance cl rq ns)"
    unfolding resolveKafkaInstance_def MatchDesignator_def Let_def by (intro transactional_intros m d)
  show "transactional (CheckSecurityForBoundNamespaces ns cl)"
    unfolding CheckSecurityForBoundNamespaces_def GetAllowedNamespaces_def Let_def by (intro transactional_intros transactional_domain)
  show "transactional (with_instances known ts)"
    by (induction ts arbitrary: known) (unfold with_instances.simps, (intro transactional_intros; assumption?)+)
qed

lemma transactional_find [transactional_intros]: "transactional (FindTopicsBySearchRequest s)"
  unfolding FindTopicsBySearchRequest_def find_topics_body_def by (intro transactional_intros keeps_intros)

lemma transactional_search [transactional_intros]: "transactional (SearchTopicsInDB s)"
  unfolding SearchTopicsInDB_def by (intro transactional_intros)

text \<open>Inside a begun transaction.\<close>

lemmas begun_intros = keeps_intros transactional_broker [THEN transactionalD(2)]
  transactional_reads [THEN transactionalD(2)] transactional_names [THEN transactionalD(2)]
  transactional_find [THEN transactionalD(2)] transactional_search [THEN transactionalD(2)]
  transactional_domain [THEN transactionalD(2)]

lemma transactional_delete [transactional_intros]: "transactional (DeleteTopics h s)"
proof -
  have d: "transactional (DeleteTopic h t leave)" for t leave
    unfolding DeleteTopic_def DeleteTopicRegistration_def by (intro transactional_intros begun_intros)
  have "transactional (delete_each h leave ts resp)" for leave ts resp
    by (induction ts arbitrary: resp) (unfold delete_each.simps, (intro transactional_intros d; assumption?)+)
  then show ?thesis unfolding DeleteTopics_def by (intro transactional_intros)
qed

lemma begun_get_or_create: "keeps (in_begun T) (get_or_create_body h oe t)"
proof -
  have s: "keeps (in_begun T) (add_sibling n cl)" for n cl
    unfolding add_sibling_def by (intro begun_intros)
  have i: "keeps (in_begun T) (InsertTopicRegistration r ext)" if "\<And>r. keeps (in_begun T) (ext r)" for r ext
    unfolding InsertTopicRegistration_def insert_registration_def by (intro begun_intros s that)
  have u: "keeps (in_begun T) (updateTopicSettingsIfNeeded h x r)" for x r
    unfolding updateTopicSettingsIfNeeded_def updateSettings_def UpdateTopicRegistration_def Let_def by (intro begun_intros)
  have m: "keeps (in_begun T) (merge_existing h r oe ts)" "keeps (in_begun T) (create_missing h r)" for r ts
    unfolding merge_existing_def create_missing_def by (cases oe; simp; intro begun_intros i) (intro begun_intros i)
  have g: "keeps (in_begun T) (register_topic h oe b r)" for b r
    unfolding register_topic_def setDefaultInstanceIfNeeded_def by (intro begun_intros m)
  show ?thesis unfolding get_or_create_body_def getTopicByClassifier_def by (intro begun_intros u g)
qed

lemma transactional_warmup: "transactional (kafka_Warmup h c st)"
proof -
  have g: "transactional (GetOrCreateTopicWithAuth h c t oe (\<lambda>ns cl. ret_io ()))" for t oe
    unfolding GetOrCreateTopicWithAuth_def check_access_def locked_def fill_template_def
    by (intro transactional_intros begun_intros begun_get_or_create)
  show ?thesis
    unfolding kafka_Warmup_def copyVersionedTopics_def dao_Warmup_def migrateBg2KafkaTopicDefinitions_def
      topicTemplateAttachNamespace_def
    by (intro transactional_intros begun_intros g)
qed

lemma kafka_contract:
  "transactional (bs_Warmup (kafka_broker h) c st)" "transactional (bs_Commit (kafka_broker h) c st)"
  "transactional (bs_Promote (kafka_broker h) c st)" "transactional (bs_Rollback (kafka_broker h) c st)"
  "transactional (bs_DestroyDomain (kafka_broker h) c n)"
  by (simp_all add: kafka_broker_def transactional_warmup)
    (unfold kafka_Commit_def kafka_Promote_def kafka_Rollback_def kafka_DestroyDomain_def no_topics_in_def,
     (intro transactional_intros)+)

interpretation kafka_only: brokers "[kafka_broker h]" for h :: "'k kafka_helper"
  by unfold_locales (simp_all add: kafka_contract)

lemma brokers_Cons: "brokers [b] \<Longrightarrow> brokers bs \<Longrightarrow> brokers (b # bs)"
  by (auto simp: brokers_def)

lemma brokers_Nil: "brokers []"
  by (simp add: brokers_def)

section \<open>Pairs that are no domain\<close>

lemma validate_refuses:
  assumes w: "serves w" and n: "\<forall>r \<in> set (bg_domains (tabs w)). \<not> (d_origin r = orig \<and> d_peer r = peer)"
  shows "validateDomain orig peer f w = (Inl NotFound, w)"
proof (cases "first_by d_id [r \<leftarrow> bg_domains (tabs w). domain_has orig r]")
  case None
  with w show ?thesis by (simp add: validateDomain_def FindByNamespace_def FindByNamespace_run wrap_io_run bind_io_run)
next
  case (Some r)
  then have "r \<in> set (bg_domains (tabs w))" using first_by_Some by fastforce
  with n Some w show ?thesis
    by (auto simp: validateDomain_def FindByNamespace_def FindByNamespace_run wrap_io_run bind_io_run toValue_def)
qed

lemma refused_untouched:
  assumes "healthy w" "\<forall>r \<in> set (bg_domains (tabs w)). \<not> (d_origin r = orig \<and> d_peer r = peer)"
  shows "with_tx_ctx (validateDomain orig peer f) w = (Inl NotFound, w)"
  using assms by (simp add: with_tx_ctx_open healthy_txc validate_refuses tx_end_opened)

text \<open>
  An operation on a pair of namespaces that no domain registers in that order (unknown
  namespaces, the pair swapped, one side of another domain) is refused with NotFound before
  anything happens, in the database or at the brokers.
\<close>

theorem unregistered_pair_refused:
  assumes "healthy w"
    and "\<forall>r \<in> set (bg_domains (tabs w)). \<not> (d_origin r = ns_name (st_origin st) \<and> d_peer r = ns_name (st_peer st))"
    and "n_origin n = ns_name (st_origin st)" "n_peer n = ns_name (st_peer st)"
    and "op \<in> {bg_Warmup services c st, bg_Commit services c st, bg_Promote services c st, bg_Rollback services c st,
      bg_DestroyDomain services c n}"
  shows "op w = (Inl NotFound, w)"
  using assms refused_untouched [OF assms(1,2)]
  unfolding bg_Warmup_def bg_Commit_def bg_Promote_def bg_Rollback_def bg_DestroyDomain_def by auto

section \<open>Concrete runs\<close>

definition pair_state :: "string \<Rightarrow> string \<Rightarrow> string \<Rightarrow> bg_state" where
  "pair_state ctl o1 p = \<lparr>st_controller = ctl, st_origin = \<lparr>ns_name = o1, ns_state = ''active'', ns_version = ''v1''\<rparr>,
     st_peer = \<lparr>ns_name = p, ns_state = ''idle'', ns_version = ''v2''\<rparr>, st_time = 5\<rparr>"

theorem unregistered_pair_refused_witness:
  "bg_Commit [kafka_broker demo_helper] demo_ctx (pair_state [] ''peer'' ''org'') demo_start = (Inl NotFound, demo_start)"
proof (rule unregistered_pair_refused [where n = "\<lparr>n_origin = ''peer'', n_peer = ''org'', n_controller = []\<rparr>"
      and st = "pair_state [] ''peer'' ''org''" and services = "[kafka_broker demo_helper]" and c = demo_ctx])
  show "healthy demo_start" by (simp add: demo_start_def)
qed (simp_all add: demo_start_def pair_state_def)

definition versioned_topic :: topic where
  "versioned_topic = (demo_topic ''peer'' ''orders'')\<lparr>t_settings := no_settings\<lparr>versioned := True\<rparr>\<rparr>"

definition versioned_created :: "string list world" where
  "versioned_created = snd (GetOrCreateTopic demo_helper (demo_ctx\<lparr>ctx_request := Some \<lparr>rc_namespace = ''peer'',
     rc_microservice = ''svc'', rc_version = ''v1''\<rparr>\<rparr>) versioned_topic Fail demo_start)"

text \<open>
  Commit reports success when the broker refuses to delete a versioned topic of the idle
  namespace: the deletion is rolled back nowhere, so the registration is gone and the topic is
  still on the broker, with nothing that names it.
\<close>

lemma commit_orphans_topics:
  "map t_topic (topics (tabs versioned_created)) = [''maas.peer.orders''] \<and> broker versioned_created = [''maas.peer.orders''] \<and>
   fst (bg_Commit [kafka_broker stuck_helper] demo_ctx (pair_state [] ''org'' ''peer'') versioned_created) = Inr () \<and>
   topics (tabs (snd (bg_Commit [kafka_broker stuck_helper] demo_ctx (pair_state [] ''org'' ''peer'') versioned_created))) = [] \<and>
   broker (snd (bg_Commit [kafka_broker stuck_helper] demo_ctx (pair_state [] ''org'' ''peer'') versioned_created)) = [''maas.peer.orders'']"
proof -
  let ?run = "bg_Commit [kafka_broker stuck_helper] demo_ctx (pair_state [] ''org'' ''peer'') versioned_created"
  have "map t_topic (topics (tabs versioned_created)) = [''maas.peer.orders'']" by code_simp
  moreover have "broker versioned_created = [''maas.peer.orders'']" by code_simp
  moreover have "fst ?run = Inr ()" by code_simp
  moreover have "topics (tabs (snd ?run)) = []" by code_simp
  moreover have "broker (snd ?run) = [''maas.peer.orders'']" by code_simp
  ultimately show ?thesis by blast
qed

end
