(* ===== verification/Maas_Rabbit_Broker.thy ===== *)
theory Maas_Rabbit_Broker
  imports Maas_Rabbit_Bg Maas_BgManager
begin

text \<open>
  The RabbitMQ service as a broker service of the blue/green manager: it keeps the contract the
  manager relies on, so that the manager with both services is all or nothing.
\<close>

section \<open>The statements under an operation\<close>

lemmas rabbit_instance_defs = r_GetById_def r_dao_GetInstanceById_def r_GetDefault_def r_dao_GetDefaultInstance_def
  defaultInstance_def GetRabbitInstanceDesignatorByNamespace_def r_dao_GetRabbitInstanceDesignatorByNamespace_def
  LoadRabbitInstance_def

lemmas vhost_search_defs = FindVhostWithSearchForm_def dao_FindVhostByClassifier_def dao_FindVhostsByNamespace_def
  FindVhostByClassifierForHelper_def FindVhostsByNamespace_def

lemmas vhost_creation_defs = resolveRabbitInstance_def choose_instance_def CreateAndRegisterVHost_def CompactUuid_def
  InsertVhostRegistration_def DeleteVhostRegistration_def create_vhost_def get_or_create_vhost_def
  getOrCreateVhostInternal_def CloneVhost_def MatchDesignator_def locked_def

lemmas entity_defs = GetRabbitEntitiesByVhostId_def InsertLazyBinding_def UpdateLazyBinding_def UpsertNamedRabbitEntity_def
  DeleteNamedRabbitEntity_def GetNotCreatedLazyBindingsByClassifier_def
  DeleteLazyBindingBySourceAndDestinationAndClassifier_def GetRabbitVersEntitiesByVhost_def
  declare_named_def retry_lazy_def declare_binding_def

section \<open>In the transaction of a blue/green operation\<close>

lemma transactional_rabbit_reads [transactional_intros]:
  "transactional (r_GetById iid)" "transactional r_GetDefault" "transactional (GetRabbitInstanceDesignatorByNamespace ns)"
  "transactional (LoadRabbitInstance v)" "transactional (dao_FindVhostByClassifier role cl)"
  "transactional (dao_FindVhostsByNamespace role ns)" "transactional (FindVhostsByNamespace e ns)"
  "transactional (FindVhostWithSearchForm role s)"
  unfolding rabbit_instance_defs vhost_search_defs Let_def by (intro transactional_intros keeps_intros)+

lemma transactional_match [transactional_intros]: "transactional (match_selectors domain_origin cl ss)"
  by (induction ss) (unfold match_selectors.simps, (intro transactional_intros; assumption?)+)

lemma transactional_helper [transactional_intros]: "transactional (helper_for e cl)"
  unfolding helper_for_def FindVhostByClassifierForHelper_def opaque_io_def by (intro transactional_intros)

lemmas rabbit_begun = begun_intros transactional_rabbit_reads [THEN transactionalD(2)]
  transactional_match [THEN transactionalD(2)] transactional_helper [THEN transactionalD(2)]

lemma transactional_vhosts [transactional_intros]:
  "transactional (getOrCreateVhostInternal e iid cl version)" "transactional (CloneVhost e iid cl version)"
  "transactional (DeleteVhostRegistration v)"
  unfolding vhost_creation_defs Let_def by (intro transactional_intros rabbit_begun)+


lemma transactional_delete_vhost [transactional_intros]: "transactional (DeleteVHost e v)"
  unfolding DeleteVHost_def delete_exported_shovels_def Let_def by (intro transactional_intros)

lemma transactional_entities [transactional_intros]:
  "transactional (CreateOrUpdateEntitiesV1 e v en)" "transactional (GetRabbitEntitiesByVhostId vid)"
  "transactional (GetRabbitVersEntitiesByVhost vid)"
  unfolding CreateOrUpdateEntitiesV1_def entity_defs Let_def by (intro transactional_intros rabbit_begun)+

lemma transactional_collect [transactional_intros]: "transactional (collect_exports e st cl nss acc)"
  by (induction nss arbitrary: acc) (unfold collect_exports.simps, (intro transactional_intros; assumption?)+)

lemma begun_exported: "keeps (in_begun T) (process_exported e ecl iid ex)"
  unfolding process_exported_def
  by (intro rabbit_begun transactional_vhosts [THEN transactionalD(2)])

lemma transactional_exported [transactional_intros]: "transactional (ProcessExportedVhost e ns)"
  unfolding ProcessExportedVhost_def process_vhost_def locked_def Let_def
  by (intro transactional_intros rabbit_begun begun_exported transactional_domain)

definition rabbit_broker :: "'k rabbit_env \<Rightarrow> 'k broker_service" where
  "rabbit_broker e = \<lparr>bs_Warmup = (\<lambda>c. rabbit_Warmup e), bs_Commit = (\<lambda>c. rabbit_Commit e), bs_Promote = (\<lambda>c. rabbit_Promote e),
     bs_Rollback = (\<lambda>c. rabbit_Rollback e), bs_DestroyDomain = (\<lambda>c. rabbit_DestroyDomain e)\<rparr>"

lemma rabbit_contract:
  "transactional (bs_Warmup (rabbit_broker e) c st)" "transactional (bs_Commit (rabbit_broker e) c st)"
  "transactional (bs_Promote (rabbit_broker e) c st)" "transactional (bs_Rollback (rabbit_broker e) c st)"
  "transactional (bs_DestroyDomain (rabbit_broker e) c n)"
  unfolding rabbit_broker_def broker_service.simps rabbit_Warmup_def rabbit_Commit_def rabbit_Promote_def rabbit_Rollback_def
    rabbit_DestroyDomain_def no_vhosts_in_def clone_with_entities_def switch_exported_def
    ChangeExportedExchangesActiveVersionBg2_def Let_def
  by (intro transactional_intros)+

interpretation both: brokers "[kafka_broker h, rabbit_broker e]" for h :: "'k kafka_helper" and e :: "'k rabbit_env"
  by unfold_locales (auto simp: kafka_contract rabbit_contract)

interpretation rabbit_first: brokers "[rabbit_broker e, kafka_broker h]" for h :: "'k kafka_helper" and e :: "'k rabbit_env"
  by unfold_locales (auto simp: kafka_contract rabbit_contract)

text \<open>
  C19 A blue/green operation of the manager, with the RabbitMQ and the Kafka service, that fails
  leaves the database as it was and the transaction closed, whichever statement failed and in
  whichever service, also when virtual hosts or topics had been cloned or deleted by then.
\<close>

theorem blue_green_all_or_nothing:
  assumes "txc w = None" "op w = (Inl err, w')"
    and "services \<in> {[kafka_broker h, rabbit_broker e], [rabbit_broker e, kafka_broker h]}"
    and "op \<in> {bg_Warmup services c st, bg_Commit services c st, bg_Promote services c st, bg_Rollback services c st,
      bg_DestroyDomain services c n}"
  shows "tabs w' = tabs w \<and> txc w' = None"
  using assms(3)
proof (elim insertE emptyE)
  assume s: "services = [kafka_broker h, rabbit_broker e]"
  show ?thesis by (rule both.all_or_nothing [OF assms(4) [unfolded s] assms(1,2)])
next
  assume s: "services = [rabbit_broker e, kafka_broker h]"
  show ?thesis by (rule rabbit_first.all_or_nothing [OF assms(4) [unfolded s] assms(1,2)])
qed

text \<open>A domain with topics: the Kafka service refuses to let it go after RabbitMQ agreed.\<close>

definition mute_env :: "string list rabbit_env" where
  "mute_env = \<lparr>rb_http = (\<lambda>q k. (Inl Generic, k)), rb_depth = 1, rb_role = ''maas'', rb_uuid = (\<lambda>k. ([], k)), rb_order = id\<rparr>"

theorem blue_green_all_or_nothing_witness:
  "let run = bg_DestroyDomain [rabbit_broker mute_env, kafka_broker demo_helper] demo_ctx
       \<lparr>n_origin = ''org'', n_peer = ''peer'', n_controller = []\<rparr> demo_created
   in fst run = Inl Conflict \<and> tabs (snd run) = tabs demo_created"
proof -
  let ?services = "[rabbit_broker mute_env, kafka_broker demo_helper]"
  let ?op = "bg_DestroyDomain ?services demo_ctx \<lparr>n_origin = ''org'', n_peer = ''peer'', n_controller = []\<rparr>"
  have f: "fst (?op demo_created) = Inl Conflict" by code_simp
  then have e: "?op demo_created = (Inl Conflict, snd (?op demo_created))" by (metis prod.collapse)
  have t: "txc demo_created = None" by code_simp
  have "tabs (snd (?op demo_created)) = tabs demo_created \<and> txc (snd (?op demo_created)) = None"
    by (rule blue_green_all_or_nothing [where op = ?op and services = ?services and h = demo_helper and e = mute_env and c = demo_ctx
        and n = "\<lparr>n_origin = ''org'', n_peer = ''peer'', n_controller = []\<rparr>", OF t e]) simp_all
  with f show ?thesis by simp
qed

end
