(* ===== verification/Maas_Configurator.thy ===== *)
theory Maas_Configurator
  imports Maas_Kafka_Rules Maas_Composite
begin

text \<open>
  Tenants (service/tenant) and the configurator (service/configurator_service): what a
  configuration object does, how an aggregated configuration is taken apart and in which order
  its parts are applied, and the registration of the composite it belongs to.

  Parsing of JSON and YAML is a parameter: the functions here start from the decoded values.  The
  RabbitMQ configurations are handled by functions of the RabbitMQ service, which are parameters
  too.
\<close>

section \<open>Tenants: data access\<close>

text \<open>The presentation of a tenant is a column nothing here reads.\<close>

definition insert_tenant :: "tenant \<Rightarrow> tables \<Rightarrow> (nat \<times> tables) outcome" where
  "insert_tenant tn t =
     (let row = tn\<lparr>tn_id := (if tn_id tn = 0 then next_id t else tn_id tn)\<rparr> in
      if list_ex (\<lambda>r. tn_id r = tn_id row \<or> tn_namespace r = tn_namespace row \<and> tn_external_id r = tn_external_id row) (tenants t)
      then Inl UniqueViolation
      else Inr (tn_id row, t\<lparr>next_id := next_id t + 1, tenants := tenants t @ [row]\<rparr>))"

text \<open>Topics hold on to their tenant.\<close>

definition delete_tenants :: "string \<Rightarrow> tables \<Rightarrow> (unit \<times> tables) outcome" where
  "delete_tenants ns t =
     (if list_ex (\<lambda>x. tn_namespace x = ns \<and> list_ex (\<lambda>r. t_tenant r = Some (tn_id x)) (topics t)) (tenants t)
      then Inl ForeignKeyViolation
      else Inr ((), t\<lparr>tenants := [x \<leftarrow> tenants t. tn_namespace x \<noteq> ns]\<rparr>))"

text \<open>The number of the row goes into the tenant of the caller; a duplicate leaves it as it was.\<close>

definition InsertTenant :: "tenant \<Rightarrow> ('k, tenant) dbio" where
  "InsertTenant tn = wrap_io (with_tx tn
     (bind_io (attempt_io (sql_write (insert_tenant tn))) (\<lambda>res.
        case res of
          Inl e \<Rightarrow> if IsUniqIntegrityViolation e then ret_io tn else raise_io e
        | Inr n \<Rightarrow> ret_io (tn\<lparr>tn_id := n\<rparr>))))"

definition dao_GetTenantsByNamespace :: "string \<Rightarrow> ('k, tenant list) dbio" where
  "dao_GetTenantsByNamespace ns = wrap_io (using_db [] (sql_read (\<lambda>t. [x \<leftarrow> tenants t. tn_namespace x = ns])))"

definition dao_DeleteTenantsByNamespace :: "string \<Rightarrow> ('k, unit) dbio" where
  "dao_DeleteTenantsByNamespace ns = with_tx () (sql_write (delete_tenants ns))"

section \<open>Tenants: service\<close>

text \<open>
  An object of the request: what its \<open>externalId\<close> holds.  A value that is no string panics.
\<close>

datatype external_id = NoExternalId | ExternalId string | OtherExternalId

primrec tenants_of_request :: "string \<Rightarrow> external_id list \<Rightarrow> tenant list outcome" where
  "tenants_of_request ns [] = Inr []"
| "tenants_of_request ns (x # xs) =
     (case x of
        NoExternalId \<Rightarrow> tenants_of_request ns xs
      | OtherExternalId \<Rightarrow> Inl GoPanic
      | ExternalId i \<Rightarrow> map_sum id (Cons \<lparr>tn_id = 0, tn_namespace = ns, tn_external_id = i\<rparr>) (tenants_of_request ns xs))"

definition SubstractTenants :: "tenant list \<Rightarrow> tenant list \<Rightarrow> tenant list" where
  "SubstractTenants a b = [x \<leftarrow> a. tn_external_id x \<notin> tn_external_id ` set b]"

definition GetTenantsByNamespace :: "string \<Rightarrow> ('k, tenant list) dbio" where
  "GetTenantsByNamespace ns = wrap_io (dao_GetTenantsByNamespace ns)"

definition DeleteTenantsByNamespace :: "string \<Rightarrow> ('k, unit) dbio" where
  "DeleteTenantsByNamespace ns = dao_DeleteTenantsByNamespace ns"

definition apply_tenant :: "'k kafka_helper \<Rightarrow> ctx \<Rightarrow> topic_definition list \<Rightarrow> tenant \<Rightarrow> ('k, tenant \<times> topic_dto option list) dbio" where
  "apply_tenant h c defs tn =
     bind_io (InsertTenant tn) (\<lambda>created.
     bind_io (map_io (\<lambda>d. CreateTopicByTenantTopic h c d created) defs) (\<lambda>dtos. ret_io (created, dtos)))"

text \<open>The body of the request is decoded (\<open>None\<close>: it is no list of objects).\<close>

definition ApplyTenants :: "'k kafka_helper \<Rightarrow> ctx \<Rightarrow> external_id list option \<Rightarrow> ('k, (tenant \<times> topic_dto option list) list) dbio" where
  "ApplyTenants h c body =
     (case body of
        None \<Rightarrow> raise_io Generic
      | Some ids \<Rightarrow>
          bind_io (deref_io (ctx_request c)) (\<lambda>rc.
          bind_io (lift_io (tenants_of_request (rc_namespace rc) ids)) (\<lambda>requested.
          bind_io (wrap_io (dao_GetTenantsByNamespace (rc_namespace rc))) (\<lambda>stored.
          bind_io (GetTopicDefinitionsByNamespaceAndKind (rc_namespace rc) TopicDefinitionKindTenant) (\<lambda>defs.
            with_tx_ctx (map_io (apply_tenant h c defs) (SubstractTenants requested stored)))))))"

section \<open>Configuration objects\<close>

text \<open>
  The objects of a configuration (model/config_dto.go).  A pragma or a specification that is
  missing is \<open>None\<close>.
\<close>

record topic_config =
  cfg_on_exists :: "on_exists option"
  cfg_spec :: reg_dto

record template_config =
  tc_name :: string
  tc_settings :: topic_settings

record delete_criteria =
  dl_classifier :: classifier
  dl_leave_intact :: bool

definition BuildTopicTemplateFromReq :: "template_config \<Rightarrow> string \<Rightarrow> topic_template outcome" where
  "BuildTopicTemplateFromReq r ns =
     (let s = tc_settings r in
      if tc_name r = [] then Inl BadRequest
      else if num_partitions s \<noteq> None \<and> min_num_partitions s \<noteq> None then Inl BadRequest
      else Inr \<lparr>tt_id = 0, tt_name = tc_name r, tt_namespace = ns,
             tt_settings = \<lparr>num_partitions = (if num_partitions s = None \<and> min_num_partitions s = None then Some 1 else num_partitions s),
               min_num_partitions = min_num_partitions s,
               replication_factor = (if replication_factor s = None then Some 1 else replication_factor s),
               replica_assignment = replica_assignment s, configs = configs s, versioned = False\<rparr>,
             tt_domain_namespaces = []\<rparr>)"

text \<open>A number field that is set, for the validator: neither nil nor the zero of its type.\<close>

fun num_present :: "req_num \<Rightarrow> bool" where
  "num_present RNil = False"
| "num_present (RStr s) = (s \<noteq> [])"
| "num_present (RInt i) = (i \<noteq> 0)"
| "num_present (RPtr i) = (i \<noteq> 0)"
| "num_present (RNumber s) = (s \<noteq> [])"
| "num_present (RFloat i s) = (s \<noteq> ''0'')"

definition valid_request :: "reg_dto \<Rightarrow> bool" where
  "valid_request r = (c_name (rq_classifier r) \<noteq> [] \<and> c_namespace (rq_classifier r) \<noteq> [] \<and>
     \<not> (rq_externally_managed r \<and> rq_name r = []) \<and>
     \<not> (num_present (rq_num_partitions r) \<and> num_present (rq_min_num_partitions r)))"

section \<open>Kafka objects\<close>

definition ApplyKafkaConfiguration :: "'k kafka_helper \<Rightarrow> ctx \<Rightarrow> topic_config \<Rightarrow> string \<Rightarrow> ('k, topic_dto option) dbio" where
  "ApplyKafkaConfiguration h c cfg ns =
     bind_io (wrap_io (FindTopicTemplateByNameAndNamespace (rq_template (cfg_spec cfg)) (c_namespace (rq_classifier (cfg_spec cfg))))) (\<lambda>tmpl.
     bind_io (wrap_io (lift_io (BuildTopicRegFromReq (cfg_spec cfg) tmpl))) (\<lambda>topic.
     bind_io (GetOrCreateTopic h c topic (case cfg_on_exists cfg of None \<Rightarrow> Fail | Some oe \<Rightarrow> oe)) (\<lambda>(found, dto).
       ret_io dto)))"

record template_resp =
  tr_name :: string
  tr_namespace :: string
  tr_current :: topic_settings
  tr_previous :: "topic_settings option"
  tr_updated :: "topic_dto list"

text \<open>
  A template that changes: all its topics are marked dirty first; each is then updated in a
  transaction of its own, which takes its mark away.
\<close>

definition change_template :: "'k kafka_helper \<Rightarrow> topic_template \<Rightarrow> topic_template \<Rightarrow> ('k, topic_dto list) dbio" where
  "change_template h x fresh =
     bind_io (SearchTopicsInDB (no_search\<lparr>ts_template := tt_id x\<rparr>)) (\<lambda>found.
     then_io (MakeTopicsDirtyByTemplate x)
     (bind_io (map_io (\<lambda>t. UpdateTopicSettingsByTemplate h t fresh) found) (\<lambda>updated.
      then_io (UpdateTopicTemplate x (GetSettings (tt_settings fresh))) (ret_io updated))))"

definition ApplyKafkaTopicTemplate :: "'k kafka_helper \<Rightarrow> template_config \<Rightarrow> string \<Rightarrow> ('k, template_resp) dbio" where
  "ApplyKafkaTopicTemplate h cfg ns =
     bind_io (lift_io (BuildTopicTemplateFromReq cfg ns)) (\<lambda>fresh.
     bind_io (FindTopicTemplateByNameAndNamespace (tt_name fresh) ns) (\<lambda>found.
       let resp = \<lparr>tr_name = tt_name fresh, tr_namespace = tt_namespace fresh, tr_current = GetSettings (tt_settings fresh),
                   tr_previous = None, tr_updated = []\<rparr> in
       case found of
         None \<Rightarrow>
           bind_io (CreateTopicTemplate fresh) (\<lambda>created. ret_io (resp\<lparr>tr_current := GetSettings (tt_settings created)\<rparr>))
       | Some x \<Rightarrow>
           let old = GetSettings (tt_settings x) in
           if \<not> ReadOnlySettingsAreEqual old (Some (GetSettings (tt_settings fresh))) then raise_io Generic
           else if ConfigsAreEqual old (GetSettings (tt_settings fresh))
           then ret_io (resp\<lparr>tr_previous := Some old, tr_current := old\<rparr>)
           else bind_io (change_template h x fresh) (\<lambda>updated.
             ret_io (resp\<lparr>tr_previous := Some old, tr_updated := updated\<rparr>))))"

text \<open>An \<open>AggregateConfigError\<close> does not unwrap: what it was made from is lost.\<close>

definition applyKafkaTopicDefinition :: "ctx \<Rightarrow> topic_config \<Rightarrow> string \<Rightarrow> string \<Rightarrow> ('k, topic_definition) dbio" where
  "applyKafkaTopicDefinition c cfg ns kind =
     (if \<not> valid_request (cfg_spec cfg) then raise_io Generic
      else then_io (lift_io (CheckAllowedNamespaces (rq_classifier (cfg_spec cfg)) [ns]))
        (bind_io (opaque_io (lift_io (ToTopicDefinition (cfg_spec cfg) ns kind))) (\<lambda>d.
         bind_io (GetOrCreateTopicDefinition c d) (\<lambda>(found, stored). ret_io stored))))"

definition ApplyKafkaLazyTopic :: "ctx \<Rightarrow> topic_config \<Rightarrow> string \<Rightarrow> ('k, reg_dto) dbio" where
  "ApplyKafkaLazyTopic c cfg ns =
     bind_io (applyKafkaTopicDefinition c cfg ns TopicDefinitionKindLazy) (\<lambda>d.
       if c_name (df_classifier d) = [] \<or> c_namespace (df_classifier d) = [] then raise_io Generic
       else ret_io (MakeTopicDefinitionResponse d))"

definition ApplyKafkaTenantTopic :: "'k kafka_helper \<Rightarrow> ctx \<Rightarrow> topic_config \<Rightarrow> string \<Rightarrow> ('k, (tenant \<times> topic_dto option) list) dbio" where
  "ApplyKafkaTenantTopic h c cfg ns =
     bind_io (applyKafkaTopicDefinition c cfg ns TopicDefinitionKindTenant) (\<lambda>d.
     bind_io (wrap_io (GetTenantsByNamespace ns)) (\<lambda>tns.
       map_io (\<lambda>tn. bind_io (CreateTopicByTenantTopic h c d tn) (\<lambda>dto. ret_io (tn, dto))) tns))"

definition ApplyKafkaDeleteTopic :: "'k kafka_helper \<Rightarrow> delete_criteria option \<Rightarrow> ('k, deletion_resp) dbio" where
  "ApplyKafkaDeleteTopic h spec =
     bind_io (deref_io spec) (\<lambda>s.
       DeleteTopics h (no_search\<lparr>ts_classifier := dl_classifier s, ts_leave_intact := dl_leave_intact s\<rparr>))"

definition ApplyKafkaDeleteTenantTopic :: "'k kafka_helper \<Rightarrow> delete_criteria option \<Rightarrow> string \<Rightarrow> ('k, deletion_resp list) dbio" where
  "ApplyKafkaDeleteTenantTopic h spec ns =
     bind_io (deref_io spec) (\<lambda>s.
     then_io (DeleteTopicDefinition (dl_classifier s))
     (bind_io (GetTenantsByNamespace ns) (\<lambda>tns.
       map_io (\<lambda>tn. DeleteTopics h (no_search\<lparr>ts_classifier := (dl_classifier s)\<lparr>c_tenant := tn_external_id tn\<rparr>,
         ts_leave_intact := dl_leave_intact s\<rparr>)) tns)))"

definition ApplyKafkaDeleteTopicTemplate :: "string option \<Rightarrow> string \<Rightarrow> ('k, topic_template option) dbio" where
  "ApplyKafkaDeleteTopicTemplate spec ns = bind_io (deref_io spec) (\<lambda>name. DeleteTopicTemplate name ns)"

section \<open>The composite of a configuration\<close>

text \<open>
  The registration that is written when a configuration names its base namespace: the composite
  of the base with the namespace added, or a new one of the base (of its domain, when it has
  one) and the namespace.
\<close>

definition new_composite :: "bg_namespaces option \<Rightarrow> string \<Rightarrow> string \<Rightarrow> composite_registration" where
  "new_composite domain base ns = (case domain of
      Some d \<Rightarrow> \<lparr>g_id = n_origin d, g_namespaces = [n_origin d, n_controller d, n_peer d, ns], g_modify_index = None\<rparr>
    | None \<Rightarrow> \<lparr>g_id = base, g_namespaces = [base, ns], g_modify_index = None\<rparr>)"

definition updateCompositeRegistration :: "string \<Rightarrow> string \<Rightarrow> ('k, unit) dbio" where
  "updateCompositeRegistration ns base =
     bind_io (opaque_io (GetByNamespace base)) (\<lambda>registered.
       case registered of
         None \<Rightarrow>
           bind_io (opaque_io (FindByNamespace base)) (\<lambda>domain. opaque_io (Upsert (new_composite domain base ns)))
       | Some reg \<Rightarrow>
           if contains (g_namespaces reg) ns then ret_io ()
           else opaque_io (Upsert (reg\<lparr>g_namespaces := g_namespaces reg @ [ns]\<rparr>)))"

section \<open>Kinds and their order\<close>

type_synonym kind = "string \<times> string"

definition kafka_v1 :: string where "kafka_v1 = ''nc.maas.kafka/v1''"
definition kafka_v2 :: string where "kafka_v2 = ''nc.maas.kafka/v2''"
definition rabbit_v1 :: string where "rabbit_v1 = ''nc.maas.rabbit/v1''"
definition rabbit_v2 :: string where "rabbit_v2 = ''nc.maas.rabbit/v2''"

definition vhosts_kind :: kind where "vhosts_kind = (rabbit_v2, ''vhost'')"

text \<open>
  The registry, with the rank of each kind (\<open>FirstOrder\<close>, \<open>TopicTemplateOrder\<close>, \<open>NoOrder\<close>).  The
  order of kinds of equal rank is left open by the code, which sorts the keys of a map; here it
  is that of the registration.
\<close>

definition registry :: "(kind \<times> nat) list" where
  "registry = [((kafka_v2, ''topic-delete''), 0), ((kafka_v2, ''tenant-topic-delete''), 0), ((kafka_v2, ''topic-template-delete''), 0),
     ((kafka_v2, ''instance-designator''), 0), ((rabbit_v2, ''instance-designator''), 0),
     ((kafka_v1, ''topic-template''), 1), ((kafka_v2, ''topic-template''), 1),
     ((rabbit_v1, ''vhost''), 2), (vhosts_kind, 2),
     ((kafka_v1, ''topic''), 2), ((kafka_v2, ''topic''), 2), ((kafka_v1, ''lazy-topic''), 2), ((kafka_v2, ''lazy-topic''), 2),
     ((kafka_v1, ''tenant-topic''), 2), ((kafka_v2, ''tenant-topic''), 2)]"

definition registered :: "kind \<Rightarrow> bool" where
  "registered k = (map_of registry k \<noteq> None)"

definition orderedKinds :: "kind list" where
  "orderedKinds = map fst (sort_key snd registry)"

section \<open>Dispatch\<close>

datatype 'v payload =
    Topic topic_config | TopicTemplate template_config | LazyTopic topic_config | TenantTopic topic_config
  | TopicDelete "delete_criteria option" | TenantTopicDelete "delete_criteria option" | TopicTemplateDelete "string option"
  | KafkaDesignator "kafka_instance designator" | RabbitDesignator "rabbit_instance designator" | Vhost 'v

datatype config_result =
    TopicResult "topic_dto option" | TemplateResult template_resp | DefinitionResult reg_dto
  | TenantResults "(tenant \<times> topic_dto option) list" | DeletionResult deletion_resp | DeletionResults "deletion_resp list"
  | DeletedTemplate "topic_template option" | NoResult

record 'v service_config =
  sc_service :: string
  sc_kind :: kind
  sc_payload :: "'v payload option"

text \<open>
  The operations of the RabbitMQ services: a designator, a virtual host, and all the virtual
  hosts of an aggregated configuration, which are applied in one transaction of their own and
  answer for each service.
\<close>

record ('k, 'v) rabbit_ops =
  ro_designator :: "rabbit_instance designator \<Rightarrow> string \<Rightarrow> ('k, unit) dbio"
  ro_vhost :: "ctx \<Rightarrow> 'v \<Rightarrow> string \<Rightarrow> ('k, unit) dbio"
  ro_vhosts :: "ctx \<Rightarrow> string \<Rightarrow> 'v service_config list \<Rightarrow> string \<Rightarrow>
    ('k, ('v service_config \<times> config_result outcome) list \<times> err option) dbio"

text \<open>
  A response to the first version of the API has no minimum of partitions.  A nil response is
  dereferenced by that.
\<close>

definition toV1 :: "kind \<Rightarrow> config_result \<Rightarrow> config_result outcome" where
  "toV1 k res = (if fst k \<noteq> kafka_v1 then Inr res else
     case res of
       TopicResult None \<Rightarrow> Inl GoPanic
     | TopicResult (Some dto) \<Rightarrow> Inr (TopicResult (Some (dto\<lparr>td_requested := (td_requested dto)\<lparr>min_num_partitions := None\<rparr>\<rparr>)))
     | _ \<Rightarrow> Inr res)"

primrec apply_payload :: "'k kafka_helper \<Rightarrow> ('k, 'v) rabbit_ops \<Rightarrow> ctx \<Rightarrow> string \<Rightarrow> 'v payload \<Rightarrow> ('k, config_result) dbio" where
  "apply_payload h r c ns (Topic x) = bind_io (ApplyKafkaConfiguration h c x ns) (\<lambda>dto. ret_io (TopicResult dto))"
| "apply_payload h r c ns (TopicTemplate x) = bind_io (ApplyKafkaTopicTemplate h x ns) (\<lambda>res. ret_io (TemplateResult res))"
| "apply_payload h r c ns (LazyTopic x) = bind_io (ApplyKafkaLazyTopic c x ns) (\<lambda>res. ret_io (DefinitionResult res))"
| "apply_payload h r c ns (TenantTopic x) = bind_io (ApplyKafkaTenantTopic h c x ns) (\<lambda>res. ret_io (TenantResults res))"
| "apply_payload h r c ns (TopicDelete s) = bind_io (ApplyKafkaDeleteTopic h s) (\<lambda>res. ret_io (DeletionResult res))"
| "apply_payload h r c ns (TenantTopicDelete s) = bind_io (ApplyKafkaDeleteTenantTopic h s ns) (\<lambda>res. ret_io (DeletionResults res))"
| "apply_payload h r c ns (TopicTemplateDelete s) = bind_io (ApplyKafkaDeleteTopicTemplate s ns) (\<lambda>res. ret_io (DeletedTemplate res))"
| "apply_payload h r c ns (KafkaDesignator d) = then_io (UpsertKafkaInstanceDesignator d ns) (ret_io NoResult)"
| "apply_payload h r c ns (RabbitDesignator d) = then_io (ro_designator r d ns) (ret_io NoResult)"
| "apply_payload h r c ns (Vhost v) = then_io (ro_vhost r c v ns) (ret_io NoResult)"

text \<open>
  Virtual hosts of the second version come from an aggregated configuration only; sent on their
  own they are refused.
\<close>

definition apply_kind :: "'k kafka_helper \<Rightarrow> ('k, 'v) rabbit_ops \<Rightarrow> ctx \<Rightarrow> string \<Rightarrow> kind \<Rightarrow> 'v payload \<Rightarrow> ('k, config_result) dbio" where
  "apply_kind h r c ns k x =
     (if k = vhosts_kind then raise_io Generic
      else bind_io (apply_payload h r c ns x) (\<lambda>res. lift_io (toV1 k res)))"

section \<open>Aggregated configurations\<close>

text \<open>
  An object after parsing: its kind, empty where a field is missing, and what strict decoding for
  that kind gave.  A section of the configuration is absent, no text, or the objects of its text,
  \<open>None\<close> when it does not parse.
\<close>

record 'v object =
  ob_kind :: kind
  ob_payload :: "'v payload option"

datatype 'v part = Absent | NoText | Text "'v object list option"

record 'v aggregated =
  ag_version :: string
  ag_base :: string
  ag_shared :: "'v part"
  ag_services :: "(string \<times> 'v part) list"

text \<open>\<open>parseInnerConfigsOfMs\<close>: nothing is applied unless everything parses.\<close>

primrec typed_objects :: "string \<Rightarrow> 'v object list \<Rightarrow> 'v service_config list outcome" where
  "typed_objects name [] = Inr []"
| "typed_objects name (x # xs) =
     (if fst (ob_kind x) = [] \<or> snd (ob_kind x) = [] then Inl Generic
      else if \<not> registered (ob_kind x) then Inl Generic
      else case ob_payload x of
        None \<Rightarrow> Inl Generic
      | Some p \<Rightarrow> map_sum id (Cons \<lparr>sc_service = name, sc_kind = ob_kind x, sc_payload = Some p\<rparr>) (typed_objects name xs))"

definition parseInnerConfigsOfMs :: "string \<Rightarrow> 'v object list option \<Rightarrow> 'v service_config list outcome" where
  "parseInnerConfigsOfMs name objs = (case objs of None \<Rightarrow> Inl Generic | Some xs \<Rightarrow> typed_objects name xs)"

definition shared_configs :: "'v part \<Rightarrow> 'v service_config list outcome" where
  "shared_configs s = (case s of Absent \<Rightarrow> Inr [] | NoText \<Rightarrow> Inl Generic | Text objs \<Rightarrow> parseInnerConfigsOfMs [] objs)"

text \<open>
  A service without configuration may have had one: it goes to the virtual hosts as an empty
  one, after those of the other services.  A configuration that is no text panics.
\<close>

primrec service_configs :: "(string \<times> 'v part) list \<Rightarrow> ('v service_config list \<times> string list) outcome" where
  "service_configs [] = Inr ([], [])"
| "service_configs (x # xs) =
     (case snd x of
        Absent \<Rightarrow> map_sum id (\<lambda>(cs, bare). (cs, fst x # bare)) (service_configs xs)
      | NoText \<Rightarrow> Inl GoPanic
      | Text objs \<Rightarrow>
          (case parseInnerConfigsOfMs (fst x) objs of
             Inl e \<Rightarrow> Inl e
           | Inr cs \<Rightarrow> map_sum id (\<lambda>(cs', bare). (cs @ cs', bare)) (service_configs xs)))"

definition empty_vhosts :: "string \<Rightarrow> 'v service_config" where
  "empty_vhosts name = \<lparr>sc_service = name, sc_kind = vhosts_kind, sc_payload = None\<rparr>"

definition collected_configs :: "'v aggregated \<Rightarrow> 'v service_config list outcome" where
  "collected_configs ag =
     (case shared_configs (ag_shared ag) of Inl e \<Rightarrow> Inl e | Inr shared \<Rightarrow>
      case service_configs (ag_services ag) of Inl e \<Rightarrow> Inl e | Inr (cs, bare) \<Rightarrow>
        Inr (shared @ cs @ map empty_vhosts bare))"

section \<open>Application\<close>

text \<open>One object after the other; a failure is its entry of the answer and stops nothing.\<close>

definition respond :: "('v service_config \<Rightarrow> ('k, config_result) dbio) \<Rightarrow> 'v service_config \<Rightarrow> ('k, 'v service_config \<times> config_result outcome) dbio" where
  "respond handler sc = bind_io (attempt_io (handler sc)) (\<lambda>res. ret_io (sc, map_sum opaque id res))"

definition apply_service_config :: "'k kafka_helper \<Rightarrow> ('k, 'v) rabbit_ops \<Rightarrow> ctx \<Rightarrow> string \<Rightarrow> 'v service_config \<Rightarrow> ('k, config_result) dbio" where
  "apply_service_config h r c ns sc = bind_io (deref_io (sc_payload sc)) (apply_kind h r c ns (sc_kind sc))"

definition first_error :: "('v service_config \<times> config_result outcome) list \<Rightarrow> err option" where
  "first_error responses = (case [e. (sc, Inl e) \<leftarrow> responses] of [] \<Rightarrow> None | e # _ \<Rightarrow> Some e)"

definition apply_group :: "'k kafka_helper \<Rightarrow> ('k, 'v) rabbit_ops \<Rightarrow> ctx \<Rightarrow> string \<Rightarrow> string \<Rightarrow> kind \<Rightarrow> 'v service_config list \<Rightarrow>
    ('k, ('v service_config \<times> config_result outcome) list \<times> err option) dbio" where
  "apply_group h r c version ns k scs =
     (if scs = [] then ret_io ([], None)
      else if k = vhosts_kind then
        bind_io (ro_vhosts r c version scs ns) (\<lambda>(responses, overall).
          ret_io (responses, case first_error responses of None \<Rightarrow> overall | Some e \<Rightarrow> Some e))
      else bind_io (map_io (respond (apply_service_config h r c ns)) scs) (\<lambda>responses. ret_io (responses, first_error responses)))"

text \<open>
  The answer: what became of every object, and the first error.  (An overall error of the virtual
  hosts counts when there was none before it.)
\<close>

definition ApplyConfigV2 :: "'k kafka_helper \<Rightarrow> ('k, 'v) rabbit_ops \<Rightarrow> ctx \<Rightarrow> 'v aggregated option \<Rightarrow>
    ('k, ('v service_config \<times> config_result outcome) list \<times> err option) dbio" where
  "ApplyConfigV2 h r c raw =
     bind_io (deref_io (ctx_request c)) (\<lambda>rc.
       case raw of
         None \<Rightarrow> raise_io Generic
       | Some ag \<Rightarrow>
           then_io (when_io (ag_base ag \<noteq> []) (updateCompositeRegistration (rc_namespace rc) (ag_base ag)))
           (bind_io (lift_io (collected_configs ag)) (\<lambda>configs.
            bind_io (map_io (\<lambda>k. apply_group h r c (ag_version ag) (rc_namespace rc) k [sc \<leftarrow> configs. sc_kind sc = k]) orderedKinds) (\<lambda>groups.
              ret_io (concat (map fst groups), (case [e. (_, Some e) \<leftarrow> groups] of [] \<Rightarrow> None | e # _ \<Rightarrow> Some e))))))"

text \<open>
  The first version takes a list of objects and applies them as they come; an object that does
  not decode for its kind ends the request, with what was applied before it.
\<close>

primrec apply_objects :: "'k kafka_helper \<Rightarrow> ('k, 'v) rabbit_ops \<Rightarrow> ctx \<Rightarrow> string \<Rightarrow> 'v object list \<Rightarrow>
    ('k, ('v object \<times> config_result outcome) list \<times> err option) dbio" where
  "apply_objects h r c ns [] = ret_io ([], None)"
| "apply_objects h r c ns (x # xs) =
     (if fst (ob_kind x) = [] \<or> snd (ob_kind x) = [] \<or> \<not> registered (ob_kind x)
      then bind_io (apply_objects h r c ns xs) (\<lambda>(rest, e). ret_io ((x, Inl Generic) # rest, Some Generic))
      else case ob_payload x of
        None \<Rightarrow> ret_io ([], Some Generic)
      | Some p \<Rightarrow>
          bind_io (attempt_io (apply_kind h r c ns (ob_kind x) p)) (\<lambda>res.
          bind_io (apply_objects h r c ns xs) (\<lambda>(rest, e).
            ret_io ((x, map_sum opaque id res) # rest, case res of Inl _ \<Rightarrow> Some Generic | Inr _ \<Rightarrow> e))))"

definition ApplyConfig :: "'k kafka_helper \<Rightarrow> ('k, 'v) rabbit_ops \<Rightarrow> ctx \<Rightarrow> 'v object list option \<Rightarrow> string \<Rightarrow>
    ('k, ('v object \<times> config_result outcome) list \<times> err option) dbio" where
  "ApplyConfig h r c raw ns = (case raw of None \<Rightarrow> raise_io Generic | Some objs \<Rightarrow> apply_objects h r c ns objs)"

section \<open>The order of application\<close>

definition position :: "kind \<Rightarrow> nat" where
  "position k = length (takeWhile (\<lambda>x. x \<noteq> k) orderedKinds)"

definition rank_of :: "kind \<Rightarrow> nat" where
  "rank_of k = (case map_of registry k of Some n \<Rightarrow> n | None \<Rightarrow> 3)"

lemma ordered_distinct: "distinct orderedKinds"
  by code_simp

lemma ordered_ranks: "sorted (map rank_of orderedKinds)"
  by code_simp

lemma ordered_all: "set orderedKinds = fst ` set registry"
  by (simp add: orderedKinds_def)

lemma in_ordered: "k \<in> set orderedKinds \<longleftrightarrow> registered k"
  unfolding ordered_all registered_def map_of_eq_None_iff by simp

lemma index_inj:
  "distinct ks \<Longrightarrow> k \<in> set ks \<Longrightarrow> length (takeWhile (\<lambda>x. x \<noteq> k) ks) = length (takeWhile (\<lambda>x. x \<noteq> l) ks) \<Longrightarrow> l \<in> set ks \<Longrightarrow> k = l"
  by (induction ks) (auto split: if_splits)

lemma grouped_is_sorted:
  assumes "distinct ks" "\<forall>x \<in> set xs. key x \<in> set ks"
  shows "concat (map (\<lambda>k. [x \<leftarrow> xs. key x = k]) ks) = sort_key (\<lambda>x. length (takeWhile (\<lambda>y. y \<noteq> key x) ks)) xs"
    (is "?g = sort_key ?f xs")
proof (rule properties_for_sort_key [symmetric])
  show "mset ?g = mset xs" using assms
  proof (induction ks arbitrary: xs)
    case (Cons k ks)
    let ?r = "[x \<leftarrow> xs. key x \<noteq> k]"
    have "[x \<leftarrow> xs. key x = l] = [x \<leftarrow> ?r. key x = l]" if "l \<in> set ks" for l
      using that Cons.prems by (auto intro: filter_cong)
    then have "concat (map (\<lambda>k. [x \<leftarrow> xs. key x = k]) ks) = concat (map (\<lambda>k. [x \<leftarrow> ?r. key x = k]) ks)"
      by (metis (no_types, lifting) map_cong)
    moreover have "mset (concat (map (\<lambda>k. [x \<leftarrow> ?r. key x = k]) ks)) = mset ?r" using Cons.prems by (intro Cons.IH) auto
    ultimately show ?case by (simp add: mset_filter union_filter_mset_complement)
  qed simp
  show "[x \<leftarrow> ?g. ?f x' = ?f x] = [x \<leftarrow> xs. ?f x' = ?f x]" if "x' \<in> set ?g" for x'
  proof -
    have x': "key x' \<in> set ks" using that assms(2) by auto
    have e: "?f x' = ?f x \<longleftrightarrow> key x = key x'" if "x \<in> set xs" for x
      using index_inj [OF assms(1)] x' assms(2) that by metis
    have one: "[x \<leftarrow> [x \<leftarrow> xs. key x = k]. ?f x' = ?f x] = (if k = key x' then [x \<leftarrow> xs. key x = key x'] else [])" for k
      using e by (auto simp: filter_empty_conv intro: filter_cong)
    have "filter (\<lambda>x. ?f x' = ?f x) ?g = concat (map (\<lambda>k. if k = key x' then [x \<leftarrow> xs. key x = key x'] else []) ks)"
      unfolding filter_concat map_map comp_def one ..
    also have "\<dots> = [x \<leftarrow> xs. key x = key x']" using assms(1) x' by (induction ks) auto
    also have "\<dots> = [x \<leftarrow> xs. ?f x' = ?f x]" using e by (intro filter_cong) auto
    finally show ?thesis .
  qed
  show "sorted (map ?f ?g)" using assms(1)
  proof (induction ks)
    case (Cons k ks)
    have u: "map (\<lambda>x. length (takeWhile (\<lambda>y. y \<noteq> key x) (k # ks))) [x \<leftarrow> xs. key x = l] =
        map Suc (map (\<lambda>x. length (takeWhile (\<lambda>y. y \<noteq> key x) ks)) [x \<leftarrow> xs. key x = l])" if "l \<in> set ks" for l
      using that Cons.prems by auto
    have e1: "map (\<lambda>x. length (takeWhile (\<lambda>y. y \<noteq> key x) (k # ks))) (concat (map (\<lambda>k. [x \<leftarrow> xs. key x = k]) ks)) =
        map Suc (map (\<lambda>x. length (takeWhile (\<lambda>y. y \<noteq> key x) ks)) (concat (map (\<lambda>k. [x \<leftarrow> xs. key x = k]) ks)))"
      unfolding map_concat map_map comp_def using u by (intro arg_cong [where f = concat] map_cong refl) (simp add: comp_def)
    have e0: "map (\<lambda>x. length (takeWhile (\<lambda>y. y \<noteq> key x) (k # ks))) [x \<leftarrow> xs. key x = k] = map (\<lambda>x. 0) [x \<leftarrow> xs. key x = k]"
      by simp
    have e2: "sorted (map Suc ys)" if "sorted ys" for ys using that by (induction ys) auto
    have e3: "sorted (map (\<lambda>x. length (takeWhile (\<lambda>y. y \<noteq> key x) ks)) (concat (map (\<lambda>k. [x \<leftarrow> xs. key x = k]) ks)))"
      using Cons by simp
    have z: "sorted (map (\<lambda>x. 0 :: nat) ys @ map Suc zs)" if "sorted (map Suc zs)" for ys :: "'z list" and zs
      using that by (induction ys) auto
    show ?case unfolding list.map(2) concat.simps map_append e0 e1 by (rule z [OF e2 [OF e3]])
  qed simp
qed

lemma typed_kinds: "typed_objects name xs = Inr cs \<Longrightarrow> sc \<in> set cs \<Longrightarrow> registered (sc_kind sc)"
proof (induction xs arbitrary: cs)
  case (Cons x xs)
  then show ?case by (cases "typed_objects name xs") (auto split: if_splits option.splits)
qed simp

lemma parsed_kinds: "parseInnerConfigsOfMs name objs = Inr cs \<Longrightarrow> sc \<in> set cs \<Longrightarrow> registered (sc_kind sc)"
  by (auto simp: parseInnerConfigsOfMs_def typed_kinds split: option.splits)

lemma service_kinds: "service_configs xs = Inr (cs, bare) \<Longrightarrow> sc \<in> set cs \<Longrightarrow> registered (sc_kind sc)"
proof (induction xs arbitrary: cs bare)
  case (Cons x xs)
  then show ?case
    by (cases "service_configs xs") (auto simp: parsed_kinds split: part.splits sum.splits)
qed simp

lemma collected_kinds: "collected_configs ag = Inr cs \<Longrightarrow> sc \<in> set cs \<Longrightarrow> registered (sc_kind sc)"
proof -
  have v: "registered vhosts_kind" by code_simp
  show "collected_configs ag = Inr cs \<Longrightarrow> sc \<in> set cs \<Longrightarrow> registered (sc_kind sc)"
    by (auto simp: collected_configs_def shared_configs_def empty_vhosts_def v parsed_kinds service_kinds
        split: sum.splits part.splits prod.splits)
qed

lemma first_error_append: "first_error (xs @ ys) = (case first_error xs of None \<Rightarrow> first_error ys | Some e \<Rightarrow> Some e)"
proof -
  have "(case a @ b of [] \<Rightarrow> None | e # _ \<Rightarrow> Some e) =
    (case (case a of [] \<Rightarrow> None | e # _ \<Rightarrow> Some e) of None \<Rightarrow> (case b of [] \<Rightarrow> None | e # _ \<Rightarrow> Some e) | Some e \<Rightarrow> Some e)"
    for a b :: "err list" by (cases a) auto
  then show ?thesis unfolding first_error_def map_append concat_append .
qed

definition group_error :: "('b \<times> err option) list \<Rightarrow> err option" where
  "group_error groups = (case [e. (_, Some e) \<leftarrow> groups] of [] \<Rightarrow> None | e # _ \<Rightarrow> Some e)"

lemma group_error_Cons: "group_error ((rs, e) # gs) = (case e of None \<Rightarrow> group_error gs | Some x \<Rightarrow> Some x)"
  by (auto simp: group_error_def split: option.splits)

lemma map_io_append_run:
  "map_io f (xs @ ys) w = (case map_io f xs w of (Inl e, w') \<Rightarrow> (Inl e, w')
     | (Inr as, w') \<Rightarrow> (case map_io f ys w' of (Inl e, w'') \<Rightarrow> (Inl e, w'') | (Inr bs, w'') \<Rightarrow> (Inr (as @ bs), w'')))"
  by (induction xs arbitrary: w) (simp_all add: bind_io_run split: prod.splits sum.splits)

lemma groups_in_order:
  assumes "vhosts_kind \<notin> sc_kind ` set scs"
  shows "bind_io (map_io (\<lambda>k. apply_group h r c v ns k [sc \<leftarrow> scs. sc_kind sc = k]) ks)
      (\<lambda>groups. ret_io (concat (map fst groups), group_error groups)) =
    bind_io (map_io (respond (apply_service_config h r c ns)) (concat (map (\<lambda>k. [sc \<leftarrow> scs. sc_kind sc = k]) ks)))
      (\<lambda>responses. ret_io (responses, first_error responses))" (is "?l ks = ?r ks")
proof (induction ks)
  case Nil
  show ?case by (simp add: group_error_def first_error_def bind_io_def ret_io_def)
next
  case (Cons k ks)
  let ?k = "[sc \<leftarrow> scs. sc_kind sc = k]"
  let ?R = "respond (apply_service_config h r c ns)"
  have g: "apply_group h r c v ns k ?k = bind_io (map_io ?R ?k) (\<lambda>responses. ret_io (responses, first_error responses))"
  proof (cases "?k = []")
    case True
    then show ?thesis unfolding True by (simp add: apply_group_def first_error_def fun_eq_iff bind_io_run)
  next
    case False
    then have "k \<noteq> vhosts_kind" using assms by (auto simp: filter_empty_conv rev_image_eqI)
    with False show ?thesis by (simp add: apply_group_def)
  qed
  show ?case
  proof
    fix w
    obtain r1 w1 where 1: "map_io ?R ?k w = (r1, w1)" by (metis surj_pair)
    show "?l (k # ks) w = ?r (k # ks) w"
    proof (cases r1)
      case (Inr rs)
      from fun_cong [OF Cons.IH, of w1] 1 Inr show ?thesis
        by (auto simp: bind_io_run g map_io_append_run group_error_Cons first_error_append split: prod.splits sum.splits option.splits)
    qed (simp add: bind_io_run g 1 map_io_append_run)
  qed
qed


definition no_rabbit :: "('k, unit) rabbit_ops" where
  "no_rabbit = \<lparr>ro_designator = (\<lambda>d ns. ret_io ()), ro_vhost = (\<lambda>c v ns. ret_io ()), ro_vhosts = (\<lambda>c v scs ns. ret_io ([], None))\<rparr>"

definition sample_request :: "string \<Rightarrow> string \<Rightarrow> reg_dto" where
  "sample_request n tmpl = \<lparr>rq_name = [], rq_classifier = \<lparr>c_name = n, c_namespace = ''org'', c_tenant = []\<rparr>,
     rq_externally_managed = False, rq_instance = [], rq_num_partitions = RNil, rq_min_num_partitions = RNil,
     rq_replication_factor = RNil, rq_replica_assignment = [], rq_configs = [], rq_template = tmpl, rq_versioned = False\<rparr>"

text \<open>A topic of one service before the template it needs, which stands in another.\<close>

definition sample_config :: "unit aggregated" where
  "sample_config = \<lparr>ag_version = [], ag_base = [], ag_shared = Absent, ag_services =
     [(''billing'', Text (Some [\<lparr>ob_kind = (kafka_v2, ''topic''), ob_payload = Some (Topic \<lparr>cfg_on_exists = None, cfg_spec = sample_request ''orders'' ''big''\<rparr>)\<rparr>])),
      (''platform'', Text (Some [\<lparr>ob_kind = (kafka_v1, ''topic-template''), ob_payload = Some (TopicTemplate \<lparr>tc_name = ''big'', tc_settings = no_settings\<rparr>)\<rparr>]))]\<rparr>"

definition sample_configs :: "unit service_config list" where
  "sample_configs =
     [\<lparr>sc_service = ''billing'', sc_kind = (kafka_v2, ''topic''), sc_payload = Some (Topic \<lparr>cfg_on_exists = None, cfg_spec = sample_request ''orders'' ''big''\<rparr>)\<rparr>,
      \<lparr>sc_service = ''platform'', sc_kind = (kafka_v1, ''topic-template''), sc_payload = Some (TopicTemplate \<lparr>tc_name = ''big'', tc_settings = no_settings\<rparr>)\<rparr>]"

definition sample_ctx :: ctx where
  "sample_ctx = \<lparr>ctx_security = None, ctx_request = Some \<lparr>rc_namespace = ''org'', rc_microservice = ''svc'', rc_version = ''v1''\<rparr>\<rparr>"

text \<open>A broker that cannot be reached.\<close>

definition offline_helper :: "unit kafka_helper" where
  "offline_helper = \<lparr>h_CreateTopic = (\<lambda>t k. (Inl Generic, k)), h_DeleteTopic = (\<lambda>t k. (Inl Generic, k)),
     h_UpdateTopicSettings = (\<lambda>d k. (Inl Generic, k)), h_GetTopicSettings = (\<lambda>d k. (Inl Generic, k)),
     h_GetExistingTopics = (\<lambda>i ns k. (Inl Generic, k)), h_DoesTopicExistOnKafka = (\<lambda>i n k. (Inl Generic, k)),
     h_BulkGetTopicSettings = (\<lambda>ds k. (Inl Generic, k))\<rparr>"


section \<open>The composite of a configuration\<close>

lemma upserted_lookup:
  assumes h: "healthy w" and i: "composite_inv (tabs w)" and a: "acceptable reg (tabs w)" and n: "n \<in> set (g_namespaces reg)"
  shows "GetByNamespace n (w\<lparr>tabs := upserted reg (tabs w)\<rparr>) =
     (Inr (Some \<lparr>g_id = g_id reg, g_namespaces = sort (g_namespaces reg), g_modify_index = None\<rparr>), w\<lparr>tabs := upserted reg (tabs w)\<rparr>)"
proof -
  let ?w = "w\<lparr>tabs := upserted reg (tabs w)\<rparr>"
  let ?new = "member_rows (next_id (tabs w)) (g_id reg) (g_namespaces reg)"
  have h': "healthy ?w" using h by simp
  have "n \<in> set (map cr_namespace ?new)" using n by simp
  then obtain r where r: "r \<in> set ?new" "n = cr_namespace r" unfolding set_map by (rule imageE) simp
  then have "r \<in> set (composite_rows (g_id reg) (upserted reg (tabs w)))" by (simp only: composite_rows_upserted)
  then have in_w: "r \<in> set (composites (tabs ?w))" by (simp add: composite_rows_def)
  have base: "cr_base r = g_id reg" using r(1) member_rows_simps(4) by blast
  have "distinct (map cr_namespace (composites (tabs ?w)))" using upserted_inv [OF i a] unfolding composite_inv_def by simp
  from GetByNamespace_run [OF h' in_w this] have "GetByNamespace n ?w = GetByBaseline (g_id reg) ?w" by (simp only: r(2) base)
  moreover have "?new \<noteq> []" using n by (metis list.simps(8) list.set(1) empty_iff member_rows_simps(1))
  ultimately show ?thesis using GetByBaseline_run [OF h'] by (simp add: composite_rows_upserted Let_def)
qed

definition members_with :: "string \<Rightarrow> tables \<Rightarrow> string set" where
  "members_with base t = cr_namespace ` set [x \<leftarrow> composites t. list_ex (\<lambda>r. cr_namespace r = base \<and> cr_base x = cr_base r) (composites t)]"

text \<open>The namespace can join: it is in no composite, and the column holds its name.\<close>

definition may_join :: "string \<Rightarrow> string \<Rightarrow> tables \<Rightarrow> bool" where
  "may_join ns base t \<longleftrightarrow> composite_inv t \<and> composite_guard t \<and> base \<noteq> ns \<and>
     (\<forall>n \<in> {ns, base} \<union> cr_namespace ` set (composites t). length n \<le> 63) \<and> ns \<notin> cr_namespace ` set (composites t)"

lemma joined_registered:
  assumes h: "healthy w" and m: "may_join ns base (tabs w)" and r: "r \<in> set (composites (tabs w))" "cr_namespace r = base"
  shows "\<exists>reg. acceptable reg (tabs w) \<and> updateCompositeRegistration ns base w = (Inr (), w\<lparr>tabs := upserted reg (tabs w)\<rparr>) \<and>
    set (g_namespaces reg) = {ns, base} \<union> members_with base (tabs w)"
proof -
  let ?rows = "composite_rows (cr_base r) (tabs w)"
  let ?reg = "\<lparr>g_id = cr_base r, g_namespaces = sort (map cr_namespace ?rows) @ [ns], g_modify_index = None\<rparr>"
  have i: "composite_inv (tabs w)" and g: "composite_guard (tabs w)" and free: "ns \<notin> cr_namespace ` set (composites (tabs w))"
    using m by (auto simp: may_join_def)
  have d: "distinct (map cr_namespace (composites (tabs w)))" using i by (simp add: composite_inv_def)
  have ne: "?rows \<noteq> []" using r(1) by (auto simp: composite_rows_def filter_empty_conv)
  have look: "GetByNamespace base w = (Inr (Some (?reg\<lparr>g_namespaces := sort (map cr_namespace ?rows)\<rparr>)), w)"
    using GetByNamespace_run [OF h r(1) d] GetByBaseline_run [OF h, of "cr_base r"] ne r(2) by (simp add: Let_def)
  have own: "cr_base r \<in> cr_namespace ` set ?rows"
    using g r(1) by (force simp: composite_guard_def composite_rows_def list_all_iff list_ex_iff)
  have ns_out: "ns \<notin> cr_namespace ` set ?rows" using free by (auto simp: composite_rows_def)
  have a: "acceptable ?reg (tabs w)"
  proof -
    have "distinct (map cr_namespace ?rows)" using d by (simp add: composite_rows_def distinct_map_filter)
    moreover have "cr_base x = cr_base r" if "x \<in> set (composites (tabs w))" "cr_namespace x \<in> cr_namespace ` set ?rows" for x
      using that d by (auto simp: composite_rows_def distinct_map inj_on_def)
    moreover have "\<forall>n \<in> cr_namespace ` set ?rows. length n \<le> 63" using m by (auto simp: may_join_def composite_rows_def)
    ultimately show ?thesis using own ns_out free m by (auto simp: acceptable_def may_join_def)
  qed
  have "updateCompositeRegistration ns base w = (Inr (), w\<lparr>tabs := upserted ?reg (tabs w)\<rparr>)"
    using Upsert_run [OF h i g a] ns_out
    by (simp add: updateCompositeRegistration_def opaque_io_def map_err_io_def bind_io_run look contains_def)
  moreover have "set (g_namespaces ?reg) = {ns, base} \<union> members_with base (tabs w)"
  proof -
    have "cr_namespace ` set ?rows = insert base (members_with base (tabs w))"
      using r d by (auto simp: members_with_def composite_rows_def list_ex_iff distinct_map inj_on_def)
    then show ?thesis by auto
  qed
  ultimately show ?thesis using a by blast
qed

lemma joined_new:
  assumes h: "healthy w" and m: "may_join ns base (tabs w)" and n: "base \<notin> cr_namespace ` set (composites (tabs w))"
    and d: "[r \<leftarrow> bg_domains (tabs w). domain_has base r] = []"
  shows "\<exists>reg. acceptable reg (tabs w) \<and> updateCompositeRegistration ns base w = (Inr (), w\<lparr>tabs := upserted reg (tabs w)\<rparr>) \<and>
    set (g_namespaces reg) = {ns, base} \<union> members_with base (tabs w)"
proof -
  let ?reg = "\<lparr>g_id = base, g_namespaces = [base, ns], g_modify_index = None\<rparr>"
  have i: "composite_inv (tabs w)" and g: "composite_guard (tabs w)" using m by (auto simp: may_join_def)
  have "find (\<lambda>r. cr_namespace r = base) (composites (tabs w)) = None" using n by (auto simp: find_None_iff)
  then have look: "GetByNamespace base w = (Inr None, w)"
    using h by (simp add: GetByNamespace_def bind_io_run wrap_io_run rows_by_namespace_def using_db_Inr [OF state_serves(2)]
        sql_read_serves serves_facts)
  have a: "acceptable ?reg (tabs w)" using m n by (auto simp: acceptable_def may_join_def)
  have "FindByNamespace base w = (Inr None, w)"
    using h d by (simp add: FindByNamespace_def FindByNamespace_run wrap_io_run bind_io_run)
  then have "updateCompositeRegistration ns base w = (Inr (), w\<lparr>tabs := upserted ?reg (tabs w)\<rparr>)"
    using Upsert_run [OF h i g a]
    by (simp add: updateCompositeRegistration_def opaque_io_def map_err_io_def bind_io_run look new_composite_def)
  moreover have "members_with base (tabs w) = {}" using n by (auto simp: members_with_def list_ex_iff)
  ultimately show ?thesis using a by (intro exI [of _ ?reg]) auto
qed

text \<open>
  A configuration that names its base namespace joins the composite of the base: when the
  namespace is in no composite yet, and the base is in one or in no blue/green domain, then
  afterwards a lookup by either of them returns one registration, whose members are the two and
  the former members of the composite of the base.
\<close>

theorem base_namespace_joined:
  assumes "healthy w" "may_join ns base (tabs w)"
    and "base \<in> cr_namespace ` set (composites (tabs w)) \<or> [r \<leftarrow> bg_domains (tabs w). domain_has base r] = []"
  shows "\<exists>w' reg. updateCompositeRegistration ns base w = (Inr (), w') \<and> GetByNamespace ns w' = (Inr (Some reg), w') \<and>
    GetByNamespace base w' = (Inr (Some reg), w') \<and> set (g_namespaces reg) = {ns, base} \<union> members_with base (tabs w)"
proof -
  obtain reg where a: "acceptable reg (tabs w)" and u: "updateCompositeRegistration ns base w = (Inr (), w\<lparr>tabs := upserted reg (tabs w)\<rparr>)"
    and s: "set (g_namespaces reg) = {ns, base} \<union> members_with base (tabs w)"
  proof (cases "base \<in> cr_namespace ` set (composites (tabs w))")
    case True
    then obtain r where "r \<in> set (composites (tabs w))" "cr_namespace r = base" by auto
    with joined_registered [OF assms(1,2)] that show ?thesis by blast
  next
    case False
    with joined_new [OF assms(1,2)] assms(3) that show ?thesis by blast
  qed
  have i: "composite_inv (tabs w)" using assms(2) by (simp add: may_join_def)
  let ?out = "\<lparr>g_id = g_id reg, g_namespaces = sort (g_namespaces reg), g_modify_index = None :: nat option\<rparr>"
  have "GetByNamespace n (w\<lparr>tabs := upserted reg (tabs w)\<rparr>) = (Inr (Some ?out), w\<lparr>tabs := upserted reg (tabs w)\<rparr>)" if "n \<in> {ns, base}" for n
    using that s by (intro upserted_lookup [OF assms(1) i a]) auto
  with u s show ?thesis by (intro exI [of _ "w\<lparr>tabs := upserted reg (tabs w)\<rparr>"] exI [of _ ?out]) simp
qed

theorem base_namespace_joined_witness:
  "\<exists>w' reg. updateCompositeRegistration ''c'' ''b'' two_composites = (Inr (), w') \<and> GetByNamespace ''c'' w' = (Inr (Some reg), w') \<and>
     set (g_namespaces reg) = {''c'', ''b'', ''a''}"
proof -
  have h: "healthy two_composites" by (simp add: two_composites_def)
  have m: "may_join ''c'' ''b'' (tabs two_composites)"
    by (simp add: may_join_def two_composites_def empty_tables_def composite_inv_def composite_guard_def)
  have b: "''b'' \<in> cr_namespace ` set (composites (tabs two_composites))" by (simp add: two_composites_def)
  have "members_with ''b'' (tabs two_composites) = {''a'', ''b''}"
    by (auto simp: members_with_def two_composites_def)
  with base_namespace_joined [OF h m disjI1 [OF b]] show ?thesis by auto
qed

section \<open>What configurations get wrong\<close>

text \<open>
  The namespace of a designator is a field of the object, and nothing compares it with the
  namespace of the request: one namespace can move the topics of another to other brokers.
\<close>

definition foreign_designator :: "unit service_config" where
  "foreign_designator = \<lparr>sc_service = ''svc'', sc_kind = (kafka_v2, ''instance-designator''),
     sc_payload = Some (KafkaDesignator \<lparr>de_namespace = ''victim'', de_default_id = Some ''a'', de_selectors = [], de_default = None\<rparr>)\<rparr>"

definition one_broker :: "unit world" where
  "one_broker = mk_world (empty_tables\<lparr>kafka_instances := [kafka_a]\<rparr>) ()"

text \<open>
  A designator is stored for the namespace its object names, not for the namespace of the
  caller: applied by the namespace org, it designates instances for the namespace victim, and
  none for org.
\<close>

lemma designator_for_foreign_namespace:
  "fst (apply_service_config h no_rabbit sample_ctx ''org'' foreign_designator one_broker) = Inr NoResult \<and>
   map (\<lambda>d. (dg_namespace d, dg_default d))
     (designators (tabs (snd (apply_service_config h no_rabbit sample_ctx ''org'' foreign_designator one_broker)))) = [(''victim'', Some ''a'')]"
proof -
  let ?run = "then_io (UpsertKafkaInstanceDesignator \<lparr>de_namespace = ''victim'', de_default_id = Some ''a'', de_selectors = [], de_default = None\<rparr> ''org'')
      (ret_io NoResult) one_broker"
  have r: "apply_service_config h no_rabbit sample_ctx ''org'' foreign_designator one_broker =
      (case ?run of (Inl e, w) \<Rightarrow> (Inl e, w) | (Inr res, w) \<Rightarrow> (toV1 (kafka_v2, ''instance-designator'') res, w))"
    by (simp add: apply_service_config_def foreign_designator_def deref_io_def apply_kind_def vhosts_kind_def kafka_v2_def rabbit_v2_def
        bind_io_run lift_io_def split: prod.splits sum.splits)
  have 1: "fst ?run = Inr NoResult" by code_simp
  have 2: "map (\<lambda>d. (dg_namespace d, dg_default d)) (designators (tabs (snd ?run))) = [(''victim'', Some ''a'')]" by code_simp
  have 3: "toV1 (kafka_v2, ''instance-designator'') NoResult = Inr NoResult" by code_simp
  obtain res w where e: "?run = (res, w)" by (metis surj_pair)
  show ?thesis using 1 2 unfolding r e by (simp add: 3)
qed

text \<open>
  A domain without a controller brings the empty name into the composite, where it is unique: the
  second such domain cannot be joined.
\<close>

definition two_domains :: "unit world" where
  "two_domains = mk_world (empty_tables\<lparr>bg_domains :=
     [\<lparr>d_id = 1, d_controller = None, d_origin = ''a'', d_peer = ''b''\<rparr>, \<lparr>d_id = 2, d_controller = None, d_origin = ''c'', d_peer = ''d''\<rparr>]\<rparr>) ()"

lemma second_domain_not_joined:
  "fst (updateCompositeRegistration ''s'' ''a'' two_domains) = Inr () \<and>
   fst (updateCompositeRegistration ''t'' ''c'' (snd (updateCompositeRegistration ''s'' ''a'' two_domains))) = Inl Generic"
proof
  show "fst (updateCompositeRegistration ''s'' ''a'' two_domains) = Inr ()" by code_simp
  show "fst (updateCompositeRegistration ''t'' ''c'' (snd (updateCompositeRegistration ''s'' ''a'' two_domains))) = Inl Generic" by code_simp
qed

text \<open>
  A tenant named twice in one request: the second insert is meant to be skipped, but its failure
  has ended the transaction.
\<close>

lemma tenant_named_twice:
  "fst (ApplyTenants h sample_ctx (Some [ExternalId ''7'', ExternalId ''7'']) (mk_world empty_tables ())) = Inl TxAborted"
  by code_simp

end
