(* ===== verification/Maas_Frames.thy ===== *)
theory Maas_Frames
  imports Maas_Configurator Maas_Kafka_Props
begin

text \<open>
  What the objects of a configuration leave alone.  They write topics, classifiers, templates,
  definitions, designators, virtual hosts and the entities of those; whatever holds of the other tables, now and as a rollback would
  restore it, still holds after them, the availability of the master and the cache are as they
  were, and a request that was outside of every transaction still is.
\<close>

section \<open>Undisturbed surroundings\<close>

definition others :: "tables \<Rightarrow> tables" where
  "others t = t\<lparr>next_id := 0, designators := [], selectors := [], topics := [], topic_classifiers := [],
     topic_definitions := [], definition_classifiers := [], topic_templates := [], rabbit_designators := [],
     rabbit_selectors := [], vhosts := [], rabbit_entities := [], ms_configs := [], vers_entities := []\<rparr>"

definition undisturbed :: "(tables \<Rightarrow> bool) \<Rightarrow> bool \<times> tables option \<Rightarrow> bool \<Rightarrow> 'k world \<Rightarrow> bool" where
  "undisturbed J b i w \<longleftrightarrow> J (others (tabs w)) \<and> J (others (committed w)) \<and> (master_alive w, cache w) = b \<and> (txc w \<noteq> None) = i"

lemma others_sel [simp]: "waits (others t) = waits t" "bg_domains (others t) = bg_domains t" "tenants (others t) = tenants t"
  by (simp_all add: others_def)

lemma undisturbed_conn [simp]: "undisturbed J b i (w\<lparr>conn := c\<rparr>) = undisturbed J b i w"
  by (simp add: undisturbed_def)

lemma undisturbed_read [keeps_intros]: "keeps (undisturbed J b i) (sql_read q)"
  by (rule keepsI) (auto simp: undisturbed_def sql_read_def kill_tx_def pop_fault_def committed_def Let_def
      split: list.splits option.splits if_splits)

lemma undisturbed_write:
  assumes "\<And>t a t'. f t = Inr (a, t') \<Longrightarrow> others t' = others t"
  shows "keeps (undisturbed J b i) (sql_write f)"
  using assms
  by (intro keepsI) (auto simp: undisturbed_def sql_write_def kill_tx_def pop_fault_def committed_def Let_def
      split: list.splits option.splits if_splits sum.splits; metis)

lemma undisturbed_broker [keeps_intros]: "keeps (undisturbed J b i) (on_broker f)"
  by (rule keepsI) (auto simp: on_broker_def undisturbed_def committed_def split: prod.splits option.splits)

lemma undisturbed_first [keeps_intros]: "keeps (undisturbed J b i) (sql_first q)"
  unfolding sql_first_def by (intro keeps_intros)

lemma undisturbed_using_db [keeps_intros]: "keeps (undisturbed J b i) m \<Longrightarrow> keeps (undisturbed J b i) (using_db z m)"
  by (rule keeps_using_db_gen) simp_all

lemma undisturbed_begin [keeps_intros]: "keeps (undisturbed J b i) tx_begin"
  by (rule keepsI) (auto simp: tx_begin_def undisturbed_def committed_def split: option.splits prod.splits)

lemma undisturbed_tx_ctx [keeps_intros]:
  assumes m: "\<And>i. keeps (undisturbed J b i) m"
  shows "keeps (undisturbed J b i) (with_tx_ctx m)"
proof (rule keepsI)
  fix w r w'
  assume w: "undisturbed J b i w" and run: "with_tx_ctx m w = (r, w')"
  show "undisturbed J b i w'"
  proof (cases "txc w")
    case None
    obtain r1 w1 where 1: "m (w\<lparr>txc := Some \<lparr>nesting = 1, begun = None, tx_dead = False\<rparr>\<rparr>) = (r1, w1)"
      and 2: "tx_end r1 w1 = (r, w')"
      using with_tx_ctx_top [OF None run] .
    have "undisturbed J b True w1" by (rule keepsD [OF m 1]) (use w None in \<open>simp add: undisturbed_def committed_def\<close>)
    with 2 w None show ?thesis
      by (auto simp: undisturbed_def tx_end_def tx_commit_def committed_def pop_fault_def Let_def
          split: option.splits sum.splits prod.splits list.splits if_splits)
  next
    case (Some x)
    obtain r1 w1 where 1: "m (w\<lparr>txc := Some (x\<lparr>nesting := nesting x + 1\<rparr>)\<rparr>) = (r1, w1)" by (metis surj_pair)
    have "undisturbed J b True w1"
      by (rule keepsD [OF m 1]) (use w Some in \<open>auto simp: undisturbed_def committed_def split: option.splits\<close>)
    with run Some 1 w show ?thesis
      by (auto simp: with_tx_ctx_def undisturbed_def committed_def split: option.splits)
  qed
qed

lemma undisturbed_with_tx [keeps_intros]:
  assumes m: "\<And>i. keeps (undisturbed J b i) m"
  shows "keeps (undisturbed J b i) (with_tx z m)"
proof (rule keepsI)
  fix w r w'
  assume w: "undisturbed J b i w" and run: "with_tx z m w = (r, w')"
  have e: "keeps (undisturbed J b i) (using_db z (then_io tx_begin m))" for i by (intro keeps_intros m)
  show "undisturbed J b i w'"
  proof (cases "txc w = None")
    case True
    with run have "with_tx_ctx (using_db z (then_io tx_begin m)) w = (r, w')" by (simp add: with_tx_def Let_def)
    from keepsD [OF undisturbed_tx_ctx [OF e] this w] show ?thesis .
  next
    case False
    with run have "using_db z (then_io tx_begin m) w = (r, w')" by (simp add: with_tx_def Let_def)
    from keepsD [OF e this w] show ?thesis .
  qed
qed

lemma undisturbed_lock [keeps_intros]: "(\<And>i. keeps (undisturbed J b i) m) \<Longrightarrow> keeps (undisturbed J b i) (with_lock l m)"
  unfolding with_lock_def by (intro keeps_intros)

section \<open>Statements\<close>

lemma others_upd [simp]:
  "others (t\<lparr>topics := x\<rparr>) = others t" "others (t\<lparr>topic_classifiers := y\<rparr>) = others t"
  "others (t\<lparr>topic_definitions := d\<rparr>) = others t" "others (t\<lparr>definition_classifiers := c\<rparr>) = others t"
  "others (t\<lparr>topic_templates := p\<rparr>) = others t" "others (t\<lparr>next_id := n\<rparr>) = others t"
  "others (t\<lparr>designators := g\<rparr>) = others t" "others (t\<lparr>selectors := l\<rparr>) = others t"
  "others (t\<lparr>rabbit_designators := g\<rparr>) = others t" "others (t\<lparr>rabbit_selectors := l\<rparr>) = others t"
  "others (t\<lparr>vhosts := vs\<rparr>) = others t" "others (t\<lparr>rabbit_entities := es\<rparr>) = others t"
  "others (t\<lparr>ms_configs := ms\<rparr>) = others t" "others (t\<lparr>vers_entities := ve\<rparr>) = others t"
  by (simp_all add: others_def)

lemma others_inserts [simp]:
  "insert_topic reg t = Inr (n, t') \<Longrightarrow> others t' = others t"
  "insert_topic_classifiers rows t = Inr (n1, t') \<Longrightarrow> others t' = others t"
  "insert_definition d t = Inr (n2, t') \<Longrightarrow> others t' = others t"
  "insert_template x t = Inr (n3, t') \<Longrightarrow> others t' = others t"
  "insert_definition_classifiers rows1 t = Inr (n4, t') \<Longrightarrow> others t' = others t"
  by (auto simp: insert_topic_def insert_topic_classifiers_def insert_definition_def insert_template_def
      insert_definition_classifiers_def Let_def split: if_splits)

lemma undisturbed_topic_writes [keeps_intros]:
  "keeps (undisturbed J b i) (sql_write (insert_topic reg))" "keeps (undisturbed J b i) (sql_write (save_topic reg))"
  "keeps (undisturbed J b i) (sql_write (delete_topic n))" "keeps (undisturbed J b i) (sql_write (insert_topic_classifiers rows))"
  "keeps (undisturbed J b i) (sql_write migrate_topics)" "keeps (undisturbed J b i) (sql_write (mark_dirty n))"
  by (rule undisturbed_write, auto simp: save_topic_def delete_topic_def migrate_topics_def mark_dirty_def Let_def map_sum_def
      split: if_splits sum.splits prod.splits)+

lemma undisturbed_template_writes [keeps_intros]:
  "keeps (undisturbed J b i) (sql_write (insert_template x))" "keeps (undisturbed J b i) (sql_write (save_template x))"
  "keeps (undisturbed J b i) (sql_write (delete_templates P))"
  by (rule undisturbed_write, auto simp: save_template_def delete_templates_def Let_def map_sum_def
      split: if_splits sum.splits prod.splits)+

lemma undisturbed_definition_writes [keeps_intros]:
  "keeps (undisturbed J b i) (sql_write (insert_definition d))" "keeps (undisturbed J b i) (sql_write (save_definition d))"
  "keeps (undisturbed J b i) (sql_write (insert_definition_classifiers rows))" "keeps (undisturbed J b i) (sql_write migrate_definitions)"
  "keeps (undisturbed J b i) (sql_write (\<lambda>t. delete_definitions (DD t) t))"
  by (rule undisturbed_write, auto simp: save_definition_def migrate_definitions_def delete_definitions_def Let_def map_sum_def
      split: if_splits sum.splits prod.splits)+

lemma undisturbed_designator_writes [keeps_intros]:
  "keeps (undisturbed J b i) (sql_write (delete_designator ns))" "keeps (undisturbed J b i) (sql_write (upsert_designator d))"
  "keeps (undisturbed J b i) (sql_write (insert_selectors n ss))"
  by (rule undisturbed_write, auto simp: delete_designator_def upsert_designator_def insert_selectors_def Let_def
      split: if_splits option.splits)+

section \<open>Operations\<close>

lemma reads_keep [keeps_intros]:
  "keeps (undisturbed J b i) (FindByNamespace ns)" "keeps (undisturbed J b i) (k_GetById iid)" "keeps (undisturbed J b i) k_GetDefault"
  "keeps (undisturbed J b i) (GetKafkaInstanceDesignatorByNamespace ns)" "keeps (undisturbed J b i) (domain_origin ns)"
  "keeps (undisturbed J b i) broadcast_created" "keeps (undisturbed J b i) (FindTopicTemplateById n)"
  "keeps (undisturbed J b i) (FindTopicTemplateByNameAndNamespace nm ns)" "keeps (undisturbed J b i) (GetByNamespace ns)"
  "keeps (undisturbed J b i) (GetTenantsByNamespace ns)"
proof -
  have f: "keeps (undisturbed J b i) (dao_FindByNamespace ns)" for ns
    unfolding dao_FindByNamespace_def by (intro keeps_intros)
  have gi: "keeps (undisturbed J b i) (k_dao_GetInstanceById iid)" for iid
    unfolding k_dao_GetInstanceById_def by (intro keeps_intros)
  show fb: "keeps (undisturbed J b i) (FindByNamespace ns)" for ns unfolding FindByNamespace_def by (intro keeps_intros f)
  show "keeps (undisturbed J b i) (k_GetById iid)" unfolding k_GetById_def by (intro keeps_intros gi)
  show "keeps (undisturbed J b i) k_GetDefault" unfolding k_GetDefault_def k_dao_GetDefaultInstance_def defaultInstance_def
    by (intro keeps_intros)
  show "keeps (undisturbed J b i) (GetKafkaInstanceDesignatorByNamespace ns)"
    unfolding GetKafkaInstanceDesignatorByNamespace_def k_dao_GetKafkaInstanceDesignatorByNamespace_def
    by (intro keeps_intros f gi)
  show "keeps (undisturbed J b i) (domain_origin ns)" unfolding domain_origin_def by (intro keeps_intros fb)
  show "keeps (undisturbed J b i) broadcast_created" unfolding broadcast_created_def by (intro keeps_intros)
  show "keeps (undisturbed J b i) (FindTopicTemplateById n)" unfolding FindTopicTemplateById_def by (intro keeps_intros)
  show "keeps (undisturbed J b i) (FindTopicTemplateByNameAndNamespace nm ns)"
    unfolding FindTopicTemplateByNameAndNamespace_def by (intro keeps_intros)
  show "keeps (undisturbed J b i) (GetByNamespace ns)" unfolding GetByNamespace_def by (intro keeps_intros)
  show "keeps (undisturbed J b i) (GetTenantsByNamespace ns)"
    unfolding GetTenantsByNamespace_def dao_GetTenantsByNamespace_def by (intro keeps_intros)
qed

lemma names_keep [keeps_intros]:
  "keeps (undisturbed J b i) (resolveTopicName nt cl v)" "keeps (undisturbed J b i) (resolveKafkaInstance cl rq ns)"
  "keeps (undisturbed J b i) (CheckSecurityForBoundNamespaces ns cl)" "keeps (undisturbed J b i) (with_instances known ts)"
proof -
  have m: "keeps (undisturbed J b i) (match_selectors domain_origin cl ss)" for ss :: "kafka_instance selector list"
    by (induction ss) (unfold match_selectors.simps, (intro keeps_intros; assumption?)+)
  have d: "keeps (undisturbed J b i) default_kafka" unfolding default_kafka_def by (intro keeps_intros)
  show "keeps (undisturbed J b i) (resolveTopicName nt cl v)" unfolding resolveTopicName_def Let_def by (intro keeps_intros)
  show "keeps (undisturbed J b i) (resolveKafkaInstance cl rq ns)"
    unfolding resolveKafkaInstance_def MatchDesignator_def Let_def by (intro keeps_intros m d)
  show "keeps (undisturbed J b i) (CheckSecurityForBoundNamespaces ns cl)"
    unfolding CheckSecurityForBoundNamespaces_def GetAllowedNamespaces_def Let_def by (intro keeps_intros)
  show "keeps (undisturbed J b i) (with_instances known ts)"
    by (induction ts arbitrary: known) (unfold with_instances.simps, (intro keeps_intros; assumption?)+)
qed

lemma search_keep [keeps_intros]: "keeps (undisturbed J b i) (FindTopicsBySearchRequest s)" "keeps (undisturbed J b i) (SearchTopicsInDB s)"
  unfolding SearchTopicsInDB_def FindTopicsBySearchRequest_def find_topics_body_def by (intro keeps_intros)+

lemma updates_keep [keeps_intros]:
  "keeps (undisturbed J b i) (updateSettings h x st)"
  unfolding updateSettings_def UpdateTopicRegistration_def Let_def by (intro keeps_intros)

lemma get_or_create_keep [keeps_intros]: "keeps (undisturbed J b i) (GetOrCreateTopic h c t oe)"
proof -
  have s: "keeps (undisturbed J b i) (add_sibling n cl)" for i n cl
    unfolding add_sibling_def by (intro keeps_intros)
  have gi: "keeps (undisturbed J b i) (InsertTopicRegistration r ext)" if "\<And>i r. keeps (undisturbed J b i) (ext r)" for i r ext
    unfolding InsertTopicRegistration_def insert_registration_def by (intro keeps_intros s that)
  have u: "keeps (undisturbed J b i) (updateTopicSettingsIfNeeded h x r)" for i x r
    unfolding updateTopicSettingsIfNeeded_def by (intro keeps_intros)
  have m: "keeps (undisturbed J b i) (merge_existing h r oe ts)" "keeps (undisturbed J b i) (create_missing h r)" for i r ts
    unfolding merge_existing_def create_missing_def by (cases oe; simp; intro keeps_intros gi) (intro keeps_intros gi)
  have g: "keeps (undisturbed J b i) (register_topic h oe q r)" for i q r
    unfolding register_topic_def setDefaultInstanceIfNeeded_def by (intro keeps_intros m)
  have b: "keeps (undisturbed J b i) (get_or_create_body h oe t)" for i t
    unfolding get_or_create_body_def getTopicByClassifier_def by (intro keeps_intros u g)
  show ?thesis
    unfolding GetOrCreateTopic_def GetOrCreateTopicWithAuth_def check_access_def locked_def fill_template_def
    by (intro keeps_intros b)
qed

lemma delete_keep [keeps_intros]: "keeps (undisturbed J b i) (DeleteTopics h s)"
proof -
  have d: "keeps (undisturbed J b i) (DeleteTopic h t leave)" for t leave
    unfolding DeleteTopic_def DeleteTopicRegistration_def by (intro keeps_intros)
  have "keeps (undisturbed J b i) (delete_each h leave ts resp)" for leave ts resp
    by (induction ts arbitrary: resp) (unfold delete_each.simps, (intro keeps_intros d; assumption?)+)
  then show ?thesis unfolding DeleteTopics_def by (intro keeps_intros)
qed

lemma definition_keep [keeps_intros]: "keeps (undisturbed J b i) (applyKafkaTopicDefinition c cfg ns kind)"
proof -
  have s: "keeps (undisturbed J b i) (add_definition_sibling d)" for i d
    unfolding add_definition_sibling_def by (intro keeps_intros)
  have "keeps (undisturbed J b i) (GetOrCreateTopicDefinition c d)" for d
    unfolding GetOrCreateTopicDefinition_def FindTopicDefinitions_def dao_UpdateTopicDefinition_def InsertTopicDefinition_def
      insert_definition_body_def Let_def
    by (intro keeps_intros s)
  then show ?thesis unfolding applyKafkaTopicDefinition_def by (intro keeps_intros)
qed

lemma tenant_topic_keep [keeps_intros]: "keeps (undisturbed J b i) (CreateTopicByTenantTopic h c d tn)"
  unfolding CreateTopicByTenantTopic_def Let_def GetTopicTemplateByName_def by (intro keeps_intros)

lemma template_keep [keeps_intros]: "keeps (undisturbed J b i) (ApplyKafkaTopicTemplate h cfg ns)"
  unfolding ApplyKafkaTopicTemplate_def change_template_def CreateTopicTemplate_def InsertTopicTemplate_def
    MakeTopicsDirtyByTemplate_def dao_MakeTopicsDirtyByTemplate_def UpdateTopicSettingsByTemplate_def
    UpdateTopicTemplate_def dao_UpdateTopicTemplate_def Let_def
  by (intro keeps_intros)

lemma payload_keep:
  assumes r: "\<And>d ns. keeps (undisturbed J b i) (ro_designator r d ns)" "\<And>c v ns. keeps (undisturbed J b i) (ro_vhost r c v ns)"
  shows "keeps (undisturbed J b i) (apply_payload h r c ns p)"
  by (cases p) (simp_all, unfold ApplyKafkaConfiguration_def ApplyKafkaLazyTopic_def ApplyKafkaTenantTopic_def ApplyKafkaDeleteTopic_def
    ApplyKafkaDeleteTenantTopic_def ApplyKafkaDeleteTopicTemplate_def DeleteTopicDefinition_def dao_DeleteTopicDefinition_def
    DeleteTopicTemplate_def dao_DeleteTopicTemplate_def UpsertKafkaInstanceDesignator_def DeleteKafkaInstanceDesignatorByNamespace_def
    k_dao_DeleteKafkaInstanceDesignatorByNamespace_def k_dao_InsertInstanceDesignatorKafka_def
    k_dao_GetKafkaInstanceDesignatorByNamespace_def k_dao_GetInstanceById_def dao_FindByNamespace_def Let_def,
    (intro keeps_intros r)+)


end
