(* ===== verification/Maas_Rabbit_Rules.thy ===== *)
theory Maas_Rabbit_Rules
  imports Maas_Rabbit_Broker Maas_Frames
begin

text \<open>
  The invariants of the virtual host registrations and of the entities recorded in them: each
  statement preserves them, whatever state it runs in, and so does every operation of the service.
\<close>

section \<open>What holds of the tables\<close>

text \<open>
  Registrations: one for an identifier and for a classifier, on an instance that is registered.
\<close>

definition vhosts_ok :: "tables \<Rightarrow> bool" where
  "vhosts_ok t \<longleftrightarrow> distinct (map vh_id (vhosts t)) \<and> distinct (map vh_classifier (vhosts t)) \<and>
     (\<forall>v \<in> set (vhosts t). vh_instance v \<in> ri_id ` set (rabbit_instances t))"

text \<open>
  Entities: an exchange or a queue is recorded under the name its JSON object has, a binding under
  its two ends.
\<close>

definition entity_wf :: "rabbit_entity \<Rightarrow> bool" where
  "entity_wf x \<longleftrightarrow> (\<exists>fs. re_client x = Some fs \<and>
     (if re_type x = BindingType
      then re_name x = None \<and> (\<exists>s d. ExtractSourceAndDestination (JObj fs) = Inr (s, d) \<and>
             re_source x = Some s \<and> re_destination x = Some d)
      else re_source x = None \<and> re_destination x = None \<and>
             (\<exists>n. ExtractName (JObj fs) = Inr n \<and> re_name x = Some n)))"

definition entities_ok :: "tables \<Rightarrow> bool" where
  "entities_ok t \<longleftrightarrow> distinct (map re_id (rabbit_entities t)) \<and>
     (\<forall>x \<in> set (rabbit_entities t). entity_wf x \<and> re_vhost x \<in> vh_id ` set (vhosts t)) \<and>
     (\<forall>x \<in> set (rabbit_entities t). \<forall>y \<in> set (rabbit_entities t).
        re_id x \<noteq> re_id y \<longrightarrow> \<not> same_client x y \<and> \<not> same_named x y)"

definition rabbit_inv :: "tables \<Rightarrow> bool" where
  "rabbit_inv t \<longleftrightarrow> vhosts_ok t \<and> entities_ok t"

lemma same_text_sym: "same_text x y = same_text y x"
  by (auto simp: same_text_def)

lemma same_sym: "same_client x y = same_client y x" "same_named x y = same_named y x"
  by (simp_all add: same_client_def same_named_def same_text_sym [of "re_client x" "re_client y"]
      same_text_sym [of "re_name x" "re_name y"] eq_commute [of "re_vhost x" "re_vhost y"] eq_commute [of "re_type x" "re_type y"])

lemma has_instance_iff [simp]: "has_instance iid t \<longleftrightarrow> iid \<in> ri_id ` set (rabbit_instances t)"
  by (auto simp: has_instance_def list_ex_iff)

lemma rabbit_inv_same:
  "vhosts t' = vhosts t \<Longrightarrow> rabbit_entities t' = rabbit_entities t \<Longrightarrow>
   ri_id ` set (rabbit_instances t) \<subseteq> ri_id ` set (rabbit_instances t') \<Longrightarrow> rabbit_inv t \<Longrightarrow> rabbit_inv t'"
  by (auto simp: rabbit_inv_def vhosts_ok_def entities_ok_def)

section \<open>Statements on registrations\<close>

lemma inv_more_vhosts:
  assumes "rabbit_inv t" "vh_id v \<notin> vh_id ` set (vhosts t)" "vh_classifier v \<notin> vh_classifier ` set (vhosts t)"
    "vh_instance v \<in> ri_id ` set (rabbit_instances t)"
    "vhosts t' = vhosts t @ [v]" "rabbit_entities t' = rabbit_entities t" "rabbit_instances t' = rabbit_instances t"
  shows "rabbit_inv t'"
  using assms by (simp add: rabbit_inv_def vhosts_ok_def entities_ok_def)

lemma inv_insert_vhost: "rabbit_inv t \<Longrightarrow> insert_vhost v t = Inr (n, t') \<Longrightarrow> rabbit_inv t'"
  by (erule inv_more_vhosts [of t "v\<lparr>vh_id := next_id t\<rparr>"])
    (auto simp: insert_vhost_def list_ex_iff image_iff split: if_splits)

text \<open>A row is replaced by one of the same identifier; a second key stays unique.\<close>

lemma distinct_replaced:
  assumes "distinct (map rid vs)" "distinct (map key vs)" "\<And>u. u \<in> set vs \<Longrightarrow> rid u \<noteq> rid v \<Longrightarrow> key u \<noteq> key v"
  shows "distinct (map key (map (\<lambda>u. if rid u = rid v then v else u) vs))"
proof -
  let ?f = "\<lambda>u. if rid u = rid v then v else u"
  have "key (?f u) = key (?f w) \<Longrightarrow> u = w" if "u \<in> set vs" "w \<in> set vs" for u w
    using assms that unfolding distinct_map inj_on_def by (metis (full_types))
  then have "inj_on (\<lambda>u. key (?f u)) (set vs)" unfolding inj_on_def by blast
  moreover have "distinct vs" using assms(1) by (simp add: distinct_map)
  ultimately show ?thesis by (simp add: distinct_map comp_def)
qed

lemma inv_save_vhost:
  assumes i: "rabbit_inv t" and r: "save_vhost v t = Inr (u, t')"
  shows "rabbit_inv t'"
proof (cases "list_ex (\<lambda>u. vh_id u = vh_id v) (vhosts t)")
  case True
  let ?f = "\<lambda>u. if vh_id u = vh_id v then v else u"
  have t: "t' = t\<lparr>vhosts := map ?f (vhosts t)\<rparr>" and c: "\<And>u. u \<in> set (vhosts t) \<Longrightarrow> vh_id u \<noteq> vh_id v \<Longrightarrow> vh_classifier u \<noteq> vh_classifier v"
    and h: "vh_instance v \<in> ri_id ` set (rabbit_instances t)"
    using r True by (simp_all add: save_vhost_def list_ex_iff split: if_splits) (auto)
  have ids: "map vh_id (map ?f (vhosts t)) = map vh_id (vhosts t)" by simp
  have d: "distinct (map vh_id (vhosts t))" "distinct (map vh_classifier (vhosts t))"
    using i by (simp_all add: rabbit_inv_def vhosts_ok_def)
  have "distinct (map vh_classifier (map ?f (vhosts t)))"
    by (rule distinct_replaced [OF d c])
  moreover have "vh_id ` set (map ?f (vhosts t)) = vh_id ` set (vhosts t)" using ids by (metis set_map)
  ultimately show ?thesis using i h d ids unfolding t
    by (auto simp: rabbit_inv_def vhosts_ok_def entities_ok_def simp del: map_map)
next
  case False
  with r show ?thesis
    by (intro inv_more_vhosts [OF i, where v = v])
      (auto simp: save_vhost_def list_ex_iff image_iff split: if_splits)
qed

lemma inv_delete_configs: "rabbit_inv t \<Longrightarrow> rabbit_inv (delete_configs gone t)"
  by (rule rabbit_inv_same) (simp_all add: delete_configs_def)

lemma inv_delete_vhost:
  assumes "rabbit_inv t" "delete_vhost n t = Inr (u, t')"
  shows "rabbit_inv t'"
proof -
  have "i \<in> vh_id ` {v \<in> set (vhosts t). vh_id v \<noteq> n}" if "i \<in> vh_id ` set (vhosts t)" "i \<noteq> n" for i
    using that by blast
  with assms show ?thesis
    by (auto simp: rabbit_inv_def vhosts_ok_def entities_ok_def delete_vhost_def delete_configs_def distinct_map_filter)
qed

section \<open>Statements on entities\<close>

lemma renumbered [simp]:
  "entity_wf (x\<lparr>re_id := n\<rparr>) = entity_wf x" "same_client (x\<lparr>re_id := n\<rparr>) y = same_client x y"
  "same_client x (y\<lparr>re_id := n\<rparr>) = same_client x y" "same_named (x\<lparr>re_id := n\<rparr>) y = same_named x y"
  "same_named x (y\<lparr>re_id := n\<rparr>) = same_named x y"
  by (simp_all add: entity_wf_def same_client_def same_named_def)

lemma inv_append_entity:
  assumes i: "rabbit_inv t" and r: "append_entity x t = Inr (u, t')" and x: "entity_wf x"
    and n: "\<forall>y \<in> set (rabbit_entities t). \<not> same_client y x \<and> \<not> same_named y x"
  shows "rabbit_inv t'"
proof -
  have m: "\<forall>y \<in> set (rabbit_entities t). \<not> same_client x y \<and> \<not> same_named x y" using n by (simp add: same_sym [of x])
  have t: "t' = t\<lparr>next_id := Suc (next_id t), rabbit_entities := rabbit_entities t @ [x\<lparr>re_id := next_id t\<rparr>]\<rparr>"
    and f: "next_id t \<notin> re_id ` set (rabbit_entities t)" "re_vhost x \<in> vh_id ` set (vhosts t)"
    using r by (auto simp: append_entity_def list_ex_iff image_iff split: if_splits) (metis)
  from i m n f x show ?thesis unfolding t
    by (simp add: rabbit_inv_def vhosts_ok_def entities_ok_def ball_Un)
qed

lemma inv_insert_lazy: "rabbit_inv t \<Longrightarrow> insert_lazy x t = Inr (u, t') \<Longrightarrow> entity_wf x \<Longrightarrow> rabbit_inv t'"
  by (auto simp: insert_lazy_def list_ex_iff split: if_splits intro: inv_append_entity)

lemma rabbit_side [simp]:
  "entity_wf (x\<lparr>re_rabbit := r\<rparr>) = entity_wf x" "same_client (x\<lparr>re_rabbit := r\<rparr>) y = same_client x y"
  "same_client x (y\<lparr>re_rabbit := r\<rparr>) = same_client x y" "same_named (x\<lparr>re_rabbit := r\<rparr>) y = same_named x y"
  "same_named x (y\<lparr>re_rabbit := r\<rparr>) = same_named x y"
  by (simp_all add: entity_wf_def same_client_def same_named_def)

lemma inv_set_rabbit_entity: "rabbit_inv t \<Longrightarrow> set_rabbit_entity x t = Inr (u, t') \<Longrightarrow> rabbit_inv t'"
  by (auto simp: rabbit_inv_def vhosts_ok_def entities_ok_def set_rabbit_entity_def comp_def if_distrib cong: if_cong)

lemma inv_delete_entities: "rabbit_inv t \<Longrightarrow> delete_entities gone t = Inr (u, t') \<Longrightarrow> rabbit_inv t'"
  by (auto simp: rabbit_inv_def vhosts_ok_def entities_ok_def delete_entities_def distinct_map_filter)


lemma inv_map_entities:
  assumes i: "rabbit_inv t" and e: "rabbit_entities t' = map f (rabbit_entities t)"
    and v: "vhosts t' = vhosts t" "rabbit_instances t' = rabbit_instances t"
    and f: "\<And>d. d \<in> set (rabbit_entities t) \<Longrightarrow> re_id (f d) = re_id d \<and> re_vhost (f d) = re_vhost d \<and> entity_wf (f d)"
    and a: "\<And>d d'. d \<in> set (rabbit_entities t) \<Longrightarrow> d' \<in> set (rabbit_entities t) \<Longrightarrow> re_id d \<noteq> re_id d' \<Longrightarrow>
      \<not> same_client (f d) (f d') \<and> \<not> same_named (f d) (f d')"
  shows "rabbit_inv t'"
proof -
  have "map re_id (map f (rabbit_entities t)) = map re_id (rabbit_entities t)" using f by simp
  then have "distinct (map re_id (map f (rabbit_entities t)))"
    using i by (simp only: rabbit_inv_def entities_ok_def)
  with i f a show ?thesis
    unfolding rabbit_inv_def vhosts_ok_def entities_ok_def e v by (simp del: map_map)
qed

lemma named_wf:
  assumes "entity_wf d" "entity_wf x" "same_named d x"
  shows "entity_wf (d\<lparr>re_client := re_client x, re_rabbit := r\<rparr>)"
  using assms by (auto simp: entity_wf_def same_named_def same_text_def split: if_splits)

lemma updated_client:
  "same_named d x \<Longrightarrow> same_client (d\<lparr>re_client := re_client x\<rparr>) y = same_client x y"
  by (simp add: same_named_def same_client_def)

lemma inv_upsert_named:
  assumes i: "rabbit_inv t" and r: "upsert_named x t = Inr (u, t')" and x: "entity_wf x"
  shows "rabbit_inv t'"
proof (cases "list_ex (\<lambda>d. same_named d x) (rabbit_entities t)")
  case False
  with r have "append_entity x t = Inr (u, t')" "\<forall>y \<in> set (rabbit_entities t). \<not> same_client y x \<and> \<not> same_named y x"
    by (auto simp: upsert_named_def list_ex_iff split: if_splits)
  with inv_append_entity [OF i _ x] show ?thesis by blast
next
  case True
  let ?f = "\<lambda>d. if same_named d x then d\<lparr>re_client := re_client x, re_rabbit := re_rabbit x\<rparr> else d"
  have t: "t' = t\<lparr>rabbit_entities := map ?f (rabbit_entities t)\<rparr>"
    and c: "\<And>d. d \<in> set (rabbit_entities t) \<Longrightarrow> same_client d x \<Longrightarrow> same_named d x"
    using r True by (auto simp: upsert_named_def list_ex_iff split: if_splits)
  have e: "entities_ok t" using i by (simp add: rabbit_inv_def)
  have id [simp]: "re_id (?f d) = re_id d" "re_vhost (?f d) = re_vhost d" for d by simp_all
  have uniq: "d = d'" if "d \<in> set (rabbit_entities t)" "d' \<in> set (rabbit_entities t)" "same_named d x" "same_named d' x" for d d'
  proof (rule ccontr)
    assume "d \<noteq> d'"
    moreover have "inj_on re_id (set (rabbit_entities t))" using e by (simp add: entities_ok_def distinct_map)
    ultimately have "re_id d \<noteq> re_id d'" using that(1,2) by (blast dest: inj_onD)
    moreover have "same_named d d'" using that(3,4) by (cases "re_name x") (auto simp: same_named_def same_text_def)
    ultimately show False using e that(1,2) by (auto simp: entities_ok_def)
  qed
  have apart: "\<not> same_client (?f d) (?f d') \<and> \<not> same_named (?f d) (?f d')"
    if d: "d \<in> set (rabbit_entities t)" "d' \<in> set (rabbit_entities t)" "re_id d \<noteq> re_id d'" for d d'
  proof -
    have o: "\<not> same_client d d' \<and> \<not> same_named d d'" using e d by (simp add: entities_ok_def)
    have n: "same_named (?f d) (?f d') = same_named d d'" by (simp add: same_named_def)
    have nb: "\<not> (same_named d x \<and> same_named d' x)" using uniq d by blast
    have "same_client (?f d) (?f d') \<Longrightarrow> False"
    proof (cases "same_named d x")
      case True
      assume "same_client (?f d) (?f d')"
      moreover have "\<not> same_named d' x" using True nb by blast
      ultimately have "same_client x d'" using True by (simp add: updated_client)
      with c d(2) True nb show False by (auto simp: same_sym [of x])
    next
      case False
      assume s: "same_client (?f d) (?f d')"
      show False
      proof (cases "same_named d' x")
        case True
        with s False have "same_client (d'\<lparr>re_client := re_client x\<rparr>) d" by (simp add: same_sym(1) [of d])
        with True have "same_client d x" by (simp add: updated_client same_sym(1) [of d])
        with c d(1) False show False by blast
      next
        case f2: False
        with s False o show False by simp
      qed
    qed
    with n o show ?thesis by blast
  qed
  show ?thesis
  proof (rule inv_map_entities [OF i])
    show "rabbit_entities t' = map ?f (rabbit_entities t)" by (simp add: t)
    show "re_id (?f d) = re_id d \<and> re_vhost (?f d) = re_vhost d \<and> entity_wf (?f d)" if "d \<in> set (rabbit_entities t)" for d
      using e that named_wf [OF _ x] by (simp add: entities_ok_def)
  qed (use apart in \<open>simp_all add: t\<close>)
qed

section \<open>Operations\<close>

lemma rabbit_inv_upd [simp]:
  "rabbit_inv (t\<lparr>next_id := n\<rparr>) = rabbit_inv t" "rabbit_inv (t\<lparr>rabbit_designators := ds\<rparr>) = rabbit_inv t"
  "rabbit_inv (t\<lparr>rabbit_selectors := ss\<rparr>) = rabbit_inv t"
  by (simp_all add: rabbit_inv_def vhosts_ok_def entities_ok_def)

lemma rabbit_inv_instances:
  "rabbit_inv t \<Longrightarrow> ri_id ` set (rabbit_instances t) \<subseteq> ri_id ` set ins \<Longrightarrow> rabbit_inv (t\<lparr>rabbit_instances := ins\<rparr>)"
  by (rule rabbit_inv_same [of _ t]) simp_all

lemma rabbit_inv_renamed:
  "rabbit_inv t \<Longrightarrow> (\<And>j. ri_id (f j) = ri_id j) \<Longrightarrow> rabbit_inv (t\<lparr>rabbit_instances := map f (rabbit_instances t)\<rparr>)"
  by (rule rabbit_inv_instances) (simp_all add: image_image)

lemma inv_of_instances:
  "rabbit_inv t \<Longrightarrow> insert_rabbit i t = Inr (u, t') \<Longrightarrow> rabbit_inv t'"
  "rabbit_inv t \<Longrightarrow> save_rabbit i t = Inr (u, t') \<Longrightarrow> rabbit_inv t'"
  "rabbit_inv t \<Longrightarrow> update_rabbit_default iid t = Inr (n, t') \<Longrightarrow> rabbit_inv t'"
  "rabbit_inv t \<Longrightarrow> rabbit_inv (clear_rabbit_default t)"
  by (auto simp: insert_rabbit_def save_rabbit_def update_rabbit_default_def mark_rabbit_default_def clear_rabbit_default_def
      split: if_splits intro!: rabbit_inv_instances [where ins = "_ @ _"] rabbit_inv_renamed)

lemma inv_delete_rabbit:
  assumes i: "rabbit_inv t" and r: "delete_rabbit iid t = Inr (n, t')"
  shows "rabbit_inv t'"
proof -
  have t: "vhosts t' = vhosts t" "rabbit_entities t' = rabbit_entities t"
    "ri_id ` set (rabbit_instances t') = ri_id ` set (rabbit_instances t) - {iid}"
    using r by (auto simp: delete_rabbit_def split: if_splits)
  have "vh_instance v \<noteq> iid" if v: "v \<in> set (vhosts t)" for v
  proof
    assume h: "vh_instance v = iid"
    then have "rabbit_referenced iid t" using v by (auto simp: rabbit_referenced_def list_ex_iff)
    moreover have "list_ex (\<lambda>j. ri_id j = iid) (rabbit_instances t)"
      using i v h by (force simp: rabbit_inv_def vhosts_ok_def list_ex_iff)
    ultimately show False using r by (simp add: delete_rabbit_def)
  qed
  with i t show ?thesis by (simp add: rabbit_inv_def vhosts_ok_def entities_ok_def)
qed

lemma inv_of_designators:
  "rabbit_inv t \<Longrightarrow> upsert_rabbit_designator d t = Inr (n, t') \<Longrightarrow> rabbit_inv t'"
  "rabbit_inv t \<Longrightarrow> insert_rabbit_selectors n ss t = Inr (u, t') \<Longrightarrow> rabbit_inv t'"
  "rabbit_inv t \<Longrightarrow> delete_rabbit_designator ns t = Inr (u, t') \<Longrightarrow> rabbit_inv t'"
  by (auto simp: upsert_rabbit_designator_def insert_rabbit_selectors_def
      delete_rabbit_designator_def Let_def split: if_splits option.splits)

text \<open>What a computation returned says more about what comes after it.\<close>

lemma keeps_bind_result:
  assumes "keeps P m" "\<And>a s s'. m s = (Inr a, s') \<Longrightarrow> keeps P (f a)"
  shows "keeps P (bind_io m f)"
  using assms by (fastforce simp: keeps_def bind_io_def split: prod.split sum.split)

lemma named_row_wf:
  assumes "NewRabbitEntity x created ty vid ns cl = Inr row"
  shows "entity_wf row"
proof -
  obtain fs where c: "x = JObj fs" using assms
    by (auto simp: NewRabbitEntity_def fields_or_panic_def split: sum.splits if_splits json.splits prod.splits)
  have n: "n \<noteq> []" if "ExtractName y = Inr n" for y n
    using that by (auto simp: ExtractName_def split: sum.splits if_splits)
  have sd: "s \<noteq> [] \<and> d \<noteq> []" if "ExtractSourceAndDestination y = Inr (s, d)" for y s d
    using that by (auto simp: ExtractSourceAndDestination_def split: sum.splits if_splits)
  show ?thesis
  proof (cases "ty = BindingType")
    case True
    then show ?thesis using assms c
      by (auto simp: NewRabbitEntity_def entity_wf_def null_string_def fields_or_panic_def split: sum.splits dest: sd)
  next
    case False
    then show ?thesis using assms c
      by (auto simp: NewRabbitEntity_def entity_wf_def null_string_def fields_or_panic_def split: sum.splits dest: n)
  qed
qed

lemma binding_row_wf:
  assumes "CreateNormalOrLazyBinding h fs k = (Inr created, k')"
  shows "entity_wf (binding_row v fs created)"
proof -
  obtain s d where e: "ExtractSourceAndDestination (JObj fs) = Inr (s, d)"
    using assms by (auto simp: CreateNormalOrLazyBinding_def bind_io_run lift_io_def split: sum.splits)
  then have "s \<noteq> []" "d \<noteq> []" by (auto simp: ExtractSourceAndDestination_def split: sum.splits if_splits)
  with e show ?thesis by (simp add: binding_row_def entity_wf_def null_string_def)
qed

lemma lift_result: "lift_io r s = (Inr a, s') \<Longrightarrow> r = Inr a"
  by (cases r) (simp_all add: lift_io_def)

lemma on_broker_result: "on_broker g w = (Inr a, w') \<Longrightarrow> \<exists>k k'. g k = (Inr a, k')"
  by (auto simp: on_broker_def split: prod.splits)

section \<open>Reads\<close>

lemma inv_on_broker [keeps_intros]: "keeps (all_tabs I) (on_broker g)"
  by (rule keepsI) (auto simp: on_broker_def all_tabs_def committed_def split: prod.splits option.splits)

lemma inv_rabbit_reads [keeps_intros]:
  "keeps (all_tabs I) (r_GetById iid)" "keeps (all_tabs I) r_GetDefault" "keeps (all_tabs I) (GetRabbitInstanceDesignatorByNamespace ns)"
  "keeps (all_tabs I) (LoadRabbitInstance v)" "keeps (all_tabs I) (dao_FindVhostByClassifier role cl)"
  "keeps (all_tabs I) (dao_FindVhostsByNamespace role ns)" "keeps (all_tabs I) (FindVhostsByNamespace e ns)"
  "keeps (all_tabs I) (FindVhostWithSearchForm role s)" "keeps (all_tabs I) (r_dao_GetInstanceById iid)"
  unfolding rabbit_instance_defs vhost_search_defs Let_def by (intro keeps_intros)+

lemma inv_domain_origin [keeps_intros]: "keeps (all_tabs I) (domain_origin ns)"
  unfolding domain_origin_def FindByNamespace_def by (intro keeps_intros)

lemma inv_match [keeps_intros]: "keeps (all_tabs I) (match_selectors domain_origin cl ss)"
  by (induction ss) (unfold match_selectors.simps, (intro keeps_intros; assumption?)+)

lemma inv_helper_for [keeps_intros]: "keeps (all_tabs I) (helper_for e cl)"
  unfolding helper_for_def FindVhostByClassifierForHelper_def by (intro keeps_intros)

lemma inv_bg_state [keeps_intros]: "keeps (all_tabs I) (GetCurrentBgStateByNamespace ns)"
  unfolding GetCurrentBgStateByNamespace_def dao_GetState_def by (intro keeps_intros)

lemma quiet_keeps:
  assumes "quiet rb" "(n, cb) \<in> set (bc_listeners rb)"
  shows "keeps (all_tabs I) (cb d)"
proof (rule keepsI)
  fix w r w'
  assume w: "all_tabs I w" and "cb d w = (r, w')"
  moreover have "tabs (snd (cb d w)) = tabs w" "txc (snd (cb d w)) = txc w" using assms unfolding quiet_def by blast+
  ultimately show "all_tabs I w'" by (auto simp: all_tabs_def committed_def split: option.splits)
qed

section \<open>Requests\<close>

text \<open>
  What every statement on registrations, entities and instances keeps, every request of the
  service keeps, whatever is below it and whatever fails.
\<close>

locale statements_keep =
  fixes I :: "tables \<Rightarrow> bool"
  assumes kept_vhost: "I t \<Longrightarrow> insert_vhost v t = Inr (n, t') \<Longrightarrow> I t'" "I t \<Longrightarrow> save_vhost v t = Inr (u, t') \<Longrightarrow> I t'"
      "I t \<Longrightarrow> delete_vhost vid t = Inr (u, t') \<Longrightarrow> I t'"
    and kept_entity: "I t \<Longrightarrow> insert_lazy x t = Inr (u, t') \<Longrightarrow> entity_wf x \<Longrightarrow> I t'"
      "I t \<Longrightarrow> upsert_named x t = Inr (u, t') \<Longrightarrow> entity_wf x \<Longrightarrow> I t'"
      "I t \<Longrightarrow> set_rabbit_entity x t = Inr (u, t') \<Longrightarrow> I t'" "I t \<Longrightarrow> delete_entities lost t = Inr (u, t') \<Longrightarrow> I t'"
    and kept_configs: "I t \<Longrightarrow> I (delete_configs dropped t)"
    and kept_instance: "I t \<Longrightarrow> insert_rabbit i t = Inr (u, t') \<Longrightarrow> I t'" "I t \<Longrightarrow> save_rabbit i t = Inr (u, t') \<Longrightarrow> I t'"
      "I t \<Longrightarrow> update_rabbit_default iid t = Inr (n, t') \<Longrightarrow> I t'" "I t \<Longrightarrow> delete_rabbit iid t = Inr (n, t') \<Longrightarrow> I t'"
      "I t \<Longrightarrow> I (clear_rabbit_default t)"
    and kept_designator: "I t \<Longrightarrow> upsert_rabbit_designator (d :: rabbit_instance designator) t = Inr (n, t') \<Longrightarrow> I t'"
      "I t \<Longrightarrow> insert_rabbit_selectors m (ss :: rabbit_instance selector list) t = Inr (u, t') \<Longrightarrow> I t'" "I t \<Longrightarrow> delete_rabbit_designator ns t = Inr (u, t') \<Longrightarrow> I t'"
begin

lemma inv_statements [keeps_intros]:
  "keeps (all_tabs I) (sql_write (insert_vhost v))" "keeps (all_tabs I) (sql_write (save_vhost v))"
  "keeps (all_tabs I) (sql_write (delete_vhost vid))" "keeps (all_tabs I) (sql_write (set_rabbit_entity x))"
  "keeps (all_tabs I) (sql_write (delete_entities lost))"
  "keeps (all_tabs I) (sql_write (insert_rabbit i))" "keeps (all_tabs I) (sql_write (save_rabbit i))"
  "keeps (all_tabs I) (sql_write (update_rabbit_default iid))" "keeps (all_tabs I) (sql_write (delete_rabbit iid))"
  "keeps (all_tabs I) (sql_write (upsert_rabbit_designator (d :: rabbit_instance designator)))" "keeps (all_tabs I) (sql_write (insert_rabbit_selectors m (ss :: rabbit_instance selector list)))"
  "keeps (all_tabs I) (sql_write (delete_rabbit_designator ns))"
  by (rule keeps_sql_write_inv, erule (1) kept_vhost kept_entity(3,4) kept_instance kept_designator)+

lemma inv_updates [keeps_intros]:
  "keeps (all_tabs I) (sql_write (\<lambda>t. Inr ((), delete_configs dropped t)))"
  "keeps (all_tabs I) (sql_write (\<lambda>t. Inr ((), clear_rabbit_default t)))"
  by (rule keeps_sql_write_inv, auto intro: kept_configs kept_instance(5))+

lemma inv_entity_statements:
  "entity_wf x \<Longrightarrow> keeps (all_tabs I) (sql_write (insert_lazy x))"
  "entity_wf x \<Longrightarrow> keeps (all_tabs I) (sql_write (upsert_named x))"
  by (rule keeps_sql_write_inv, erule (2) kept_entity)+

lemma inv_vhost_requests [keeps_intros]:
  "keeps (all_tabs I) (InsertVhostRegistration v ext1)" if "\<And>v. keeps (all_tabs I) (ext1 v)" for ext1
  unfolding InsertVhostRegistration_def by (intro keeps_intros that)

lemma inv_vhost_update [keeps_intros]:
  "keeps (all_tabs I) (UpdateVhostRegistration v ext1)" if "\<And>v. keeps (all_tabs I) (ext1 v)" for ext1
  unfolding UpdateVhostRegistration_def by (intro keeps_intros that)

lemma inv_vhost_create [keeps_intros]:
  "keeps (all_tabs I) (getOrCreateVhostInternal e iid cl version)" "keeps (all_tabs I) (CloneVhost e iid cl version)"
  "keeps (all_tabs I) (GetOrCreateVhost e c iid cl version)" "keeps (all_tabs I) (DeleteVhostRegistration v)"
proof -
  have r: "keeps (all_tabs I) (resolveRabbitInstance iid cl ns)" for iid cl ns
    unfolding resolveRabbitInstance_def MatchDesignator_def by (intro keeps_intros)
  have d: "keeps (all_tabs I) (DeleteVhostRegistration v)" for v
    unfolding DeleteVhostRegistration_def by (intro keeps_intros)
  have c: "keeps (all_tabs I) (create_vhost e iid cl version)" for iid cl version
    unfolding create_vhost_def choose_instance_def CreateAndRegisterVHost_def CompactUuid_def Let_def by (intro keeps_intros r)
  have g: "keeps (all_tabs I) (get_or_create_vhost e iid cl version)" for iid cl version
    unfolding get_or_create_vhost_def by (intro keeps_intros c d)
  show g1: "keeps (all_tabs I) (getOrCreateVhostInternal e iid cl version)" for iid cl version
    unfolding getOrCreateVhostInternal_def locked_def by (intro keeps_intros g)
  show "keeps (all_tabs I) (CloneVhost e iid cl version)" unfolding CloneVhost_def locked_def by (intro keeps_intros g)
  show "keeps (all_tabs I) (GetOrCreateVhost e c iid cl version)"
    unfolding GetOrCreateVhost_def CheckSecurityForSingleNamespace_def GetAllowedNamespaces_def by (intro keeps_intros g1)
  show "keeps (all_tabs I) (DeleteVhostRegistration v)" by (rule d)
qed

lemma inv_vhost_delete [keeps_intros]:
  "keeps (all_tabs I) (DeleteVHost e v)" "keeps (all_tabs I) (RemoveVHosts e c s ns)"
  "keeps (all_tabs I) (rabbit_CleanupNamespace e c ns)" "keeps (all_tabs I) (rabbit_DestroyDomain e n)"
  "keeps (all_tabs I) (RotatePasswords e c s)"
proof -
  show d: "keeps (all_tabs I) (DeleteVHost e v)" for v
    unfolding DeleteVHost_def delete_exported_shovels_def Let_def by (intro keeps_intros)
  show r: "keeps (all_tabs I) (RemoveVHosts e c s ns)" for s ns
    unfolding RemoveVHosts_def locked_def by (intro keeps_intros d)
  show "keeps (all_tabs I) (rabbit_CleanupNamespace e c ns)"
    unfolding rabbit_CleanupNamespace_def DeleteMsConfigsByNamespace_def by (intro keeps_intros r)
  show "keeps (all_tabs I) (rabbit_DestroyDomain e n)"
    unfolding rabbit_DestroyDomain_def no_vhosts_in_def by (intro keeps_intros)
  show "keeps (all_tabs I) (RotatePasswords e c s)"
    unfolding RotatePasswords_def rotate_password_def CompactUuid_def by (intro keeps_intros)
qed

lemma inv_upsert_row: "entity_wf row \<Longrightarrow> keeps (all_tabs I) (UpsertNamedRabbitEntity row)"
  unfolding UpsertNamedRabbitEntity_def by (intro keeps_intros inv_entity_statements)

lemma inv_entities [keeps_intros]:
  "keeps (all_tabs I) (CreateOrUpdateEntitiesV1 e v en)" "keeps (all_tabs I) (GetRabbitEntitiesByVhostId vid)"
  "keeps (all_tabs I) (GetRabbitVersEntitiesByVhost vid)" "keeps (all_tabs I) (DeleteEntities e cl rd)"
  "keeps (all_tabs I) (ApplyPolicies e cl ps)"
proof -
  have n: "keeps (all_tabs I) (declare_named create ty v ent)" for create ty v ent
    unfolding declare_named_def
    by (rule keeps_bind, rule inv_on_broker, rule keeps_prod, rule keeps_bind, rule keeps_deref, rule keeps_bind, rule keeps_lift,
        rule keeps_bind_result, rule keeps_lift) (auto intro!: keeps_intros inv_upsert_row dest!: lift_result intro: named_row_wf)
  have b: "keeps (all_tabs I) (declare_binding h v ent)" for h v ent
    unfolding declare_binding_def InsertLazyBinding_def
    by (rule keeps_bind, rule keeps_lift, rule keeps_bind_result, rule inv_on_broker)
      (auto intro!: keeps_intros inv_entity_statements dest!: on_broker_result intro: binding_row_wf)
  show "keeps (all_tabs I) (CreateOrUpdateEntitiesV1 e v en)"
    unfolding CreateOrUpdateEntitiesV1_def retry_lazy_def UpdateLazyBinding_def GetNotCreatedLazyBindingsByClassifier_def
    by (intro keeps_intros n b)
  show "keeps (all_tabs I) (GetRabbitEntitiesByVhostId vid)" "keeps (all_tabs I) (GetRabbitVersEntitiesByVhost vid)"
    unfolding GetRabbitEntitiesByVhostId_def GetRabbitVersEntitiesByVhost_def by (intro keeps_intros)+
  have d: "keeps (all_tabs I) (remove_named hd ty cl ent)" "keeps (all_tabs I) (remove_binding h cl ent)" for hd ty cl ent h
    unfolding remove_named_def remove_binding_def DeleteNamedRabbitEntity_def DeleteLazyBindingBySourceAndDestinationAndClassifier_def
    by (intro keeps_intros)+
  show "keeps (all_tabs I) (DeleteEntities e cl rd)"
    unfolding DeleteEntities_def remove_all_def by (intro keeps_intros d)
  show "keeps (all_tabs I) (ApplyPolicies e cl ps)" unfolding ApplyPolicies_def by (intro keeps_intros)
qed

lemma inv_recovery [keeps_intros]: "keeps (all_tabs I) (recover_vhosts e ns)"
  unfolding recover_vhosts_def recover_vhost_def by (intro keeps_intros)

lemma inv_collect [keeps_intros]: "keeps (all_tabs I) (collect_exports e st cl nss acc)"
  by (induction nss arbitrary: acc) (unfold collect_exports.simps, (intro keeps_intros; assumption?)+)

lemma inv_exported [keeps_intros]: "keeps (all_tabs I) (ProcessExportedVhost e ns)"
  unfolding ProcessExportedVhost_def process_vhost_def process_exported_def locked_def Let_def by (intro keeps_intros)

lemma inv_blue_green:
  "keeps (all_tabs I) (rabbit_Commit e st)" "keeps (all_tabs I) (rabbit_Warmup e st)"
  "keeps (all_tabs I) (rabbit_Promote e st)" "keeps (all_tabs I) (rabbit_Rollback e st)"
  unfolding rabbit_Commit_def rabbit_Warmup_def rabbit_Promote_def rabbit_Rollback_def clone_with_entities_def
    switch_exported_def ChangeExportedExchangesActiveVersionBg2_def Let_def
  by (intro keeps_intros)+


lemma inv_designators:
  "keeps (all_tabs I) (UpsertRabbitInstanceDesignator d ns)" "keeps (all_tabs I) (DeleteRabbitInstanceDesignatorByNamespace ns)"
proof -
  have g: "keeps (all_tabs I) (r_dao_GetRabbitInstanceDesignatorByNamespace ns)" for ns
    unfolding rabbit_instance_defs by (intro keeps_intros)
  show "keeps (all_tabs I) (UpsertRabbitInstanceDesignator d ns)"
    unfolding UpsertRabbitInstanceDesignator_def r_dao_InsertInstanceDesignatorRabbit_def
      r_dao_DeleteRabbitInstanceDesignatorByNamespace_def Let_def
    by (intro keeps_intros g; erule (1) kept_designator)
  show "keeps (all_tabs I) (DeleteRabbitInstanceDesignatorByNamespace ns)"
    unfolding DeleteRabbitInstanceDesignatorByNamespace_def r_dao_DeleteRabbitInstanceDesignatorByNamespace_def
    by (intro keeps_intros; erule (1) kept_designator)
qed

lemma inv_registry:
  assumes "quiet rb"
  shows "keeps (all_tabs I) (r_Register rb rh uuid j)" "keeps (all_tabs I) (r_Update rb rh j)"
    "keeps (all_tabs I) (r_SetDefault rb j)" "keeps (all_tabs I) (r_Unregister rb n)"
proof -
  have l: "keeps (all_tabs I) (ExecuteListeners rb d)" for d
    by (rule keeps_ExecuteListeners) (rule quiet_keeps [OF assms])
  have d: "keeps (all_tabs I) (r_dao_SetDefaultInstance j)" for j
    unfolding r_dao_SetDefaultInstance_def r_default_body_def by (intro keeps_intros)
  have i: "keeps (all_tabs I) (r_dao_InsertInstanceRegistration j)"
      "keeps (all_tabs I) (r_dao_UpdateInstanceRegistration j)" "keeps (all_tabs I) (r_dao_RemoveInstanceRegistration n)" for j n
    unfolding r_dao_InsertInstanceRegistration_def r_insert_body_def r_dao_UpdateInstanceRegistration_def r_update_body_def
      r_dao_RemoveInstanceRegistration_def r_remove_body_def r_dao_GetRabbitInstanceRegistrations_def
    by (intro keeps_intros d)+
  show "keeps (all_tabs I) (r_Register rb rh uuid j)" "keeps (all_tabs I) (r_Update rb rh j)"
    "keeps (all_tabs I) (r_SetDefault rb j)" "keeps (all_tabs I) (r_Unregister rb n)"
    unfolding r_Register_def r_Update_def r_SetDefault_def r_Unregister_def r_performOperation_def Let_def
    by (intro keeps_intros l i d)+
qed

end

interpretation registered: statements_keep rabbit_inv
  by unfold_locales (fact inv_insert_vhost inv_save_vhost inv_delete_vhost inv_insert_lazy inv_upsert_named inv_set_rabbit_entity
    inv_delete_entities inv_delete_configs inv_of_instances inv_delete_rabbit inv_of_designators)+

section \<open>Outside transactions\<close>

lemma top_on_broker [keeps_intros]: "keeps (\<lambda>w. txc w = None) (on_broker g)"
  by (rule keepsI) (auto simp: on_broker_def split: prod.splits)

lemma top_rabbit_reads [keeps_intros]:
  "keeps (\<lambda>w. txc w = None) (r_GetById iid)" "keeps (\<lambda>w. txc w = None) r_GetDefault"
  "keeps (\<lambda>w. txc w = None) (dao_FindVhostByClassifier role cl)" "keeps (\<lambda>w. txc w = None) (FindVhostWithSearchForm role s)"
  "keeps (\<lambda>w. txc w = None) (helper_for e cl)" "keeps (\<lambda>w. txc w = None) (LoadRabbitInstance v)"
  unfolding helper_for_def rabbit_instance_defs vhost_search_defs Let_def by (intro keeps_intros)+

end
