(* ===== verification/Maas_Rabbit_Props.thy ===== *)
theory Maas_Rabbit_Props
  imports Maas_Rabbit_Rules
begin

text \<open>
  What the RabbitMQ service promises in every state its requests can reach: one registration for a
  classifier, on an instance that is registered, entities recorded under the names they have, no
  virtual host left in a domain that is destroyed; that the recreation of an entity ends; and the
  table of entities as a map.
\<close>

section \<open>Outside transactions\<close>

abbreviation at_top :: "'k world \<Rightarrow> bool" where
  "at_top w \<equiv> txc w = None"

lemma top_reads [keeps_intros]:
  "keeps at_top (GetRabbitInstanceDesignatorByNamespace ns)" "keeps at_top (r_dao_GetInstanceById iid)"
  "keeps at_top (dao_FindVhostsByNamespace role ns)" "keeps at_top (FindVhostsByNamespace e ns)"
  "keeps at_top (GetCurrentBgStateByNamespace ns)" "keeps at_top (domain_origin ns)"
  unfolding rabbit_instance_defs vhost_search_defs Let_def GetCurrentBgStateByNamespace_def dao_GetState_def
    domain_origin_def FindByNamespace_def dao_FindByNamespace_def
  by (intro keeps_intros)+

lemma top_match [keeps_intros]: "keeps at_top (match_selectors domain_origin cl ss)"
  by (induction ss) (unfold match_selectors.simps, (intro keeps_intros; assumption?)+)

lemma top_vhosts [keeps_intros]:
  "keeps at_top (GetOrCreateVhost e c iid cl version)" "keeps at_top (getOrCreateVhostInternal e iid cl version)"
  "keeps at_top (CloneVhost e iid cl version)" "keeps at_top (DeleteVHost e v)"
  unfolding GetOrCreateVhost_def CheckSecurityForSingleNamespace_def GetAllowedNamespaces_def vhost_creation_defs Let_def
    DeleteVHost_def delete_exported_shovels_def
  by (intro keeps_intros)+

lemma top_vhost_requests:
  "keeps at_top (RemoveVHosts e c s ns)" "keeps at_top (rabbit_CleanupNamespace e c ns)"
  "keeps at_top (rabbit_DestroyDomain e n)" "keeps at_top (RotatePasswords e c s)"
  unfolding rabbit_CleanupNamespace_def RemoveVHosts_def DeleteMsConfigsByNamespace_def locked_def
    rabbit_DestroyDomain_def no_vhosts_in_def RotatePasswords_def rotate_password_def UpdateVhostRegistration_def
    CompactUuid_def
  by (intro keeps_intros)+

lemma top_entities [keeps_intros]:
  "keeps at_top (CreateOrUpdateEntitiesV1 e v en)" "keeps at_top (DeleteEntities e cl rd)" "keeps at_top (ApplyPolicies e cl ps)"
  "keeps at_top (GetRabbitEntitiesByVhostId vid)" "keeps at_top (GetRabbitVersEntitiesByVhost vid)"
  unfolding CreateOrUpdateEntitiesV1_def DeleteEntities_def ApplyPolicies_def entity_defs Let_def remove_all_def
    remove_named_def remove_binding_def
  by (intro keeps_intros)+

lemma top_recovery: "keeps at_top (recover_vhosts e ns)"
  unfolding recover_vhosts_def recover_vhost_def by (intro keeps_intros)

lemma top_collect [keeps_intros]: "keeps at_top (collect_exports e st cl nss acc)"
  by (induction nss arbitrary: acc) (unfold collect_exports.simps, (intro keeps_intros; assumption?)+)

lemma top_exported [keeps_intros]: "keeps at_top (ProcessExportedVhost e ns)"
  unfolding ProcessExportedVhost_def process_vhost_def locked_def Let_def by (intro keeps_intros)

lemma top_blue_green:
  "keeps at_top (rabbit_Commit e st)" "keeps at_top (rabbit_Warmup e st)"
  "keeps at_top (rabbit_Promote e st)" "keeps at_top (rabbit_Rollback e st)"
  unfolding rabbit_Commit_def rabbit_Warmup_def rabbit_Promote_def rabbit_Rollback_def clone_with_entities_def
    switch_exported_def ChangeExportedExchangesActiveVersionBg2_def Let_def
  by (intro keeps_intros)+

lemma top_designators:
  "keeps at_top (UpsertRabbitInstanceDesignator d ns)" "keeps at_top (DeleteRabbitInstanceDesignatorByNamespace ns)"
  unfolding UpsertRabbitInstanceDesignator_def DeleteRabbitInstanceDesignatorByNamespace_def
    r_dao_InsertInstanceDesignatorRabbit_def r_dao_DeleteRabbitInstanceDesignatorByNamespace_def Let_def
  by (intro keeps_intros)+

lemma quiet_top:
  assumes "quiet rb" "(n, cb) \<in> set (bc_listeners rb)"
  shows "keeps at_top (cb d)"
proof (rule keepsI)
  fix w r w'
  assume "at_top w" "cb d w = (r, w')"
  moreover have "txc (snd (cb d w)) = txc w" using assms unfolding quiet_def by blast
  ultimately show "at_top w'" by simp
qed

lemma top_registry:
  assumes "quiet rb"
  shows "keeps at_top (r_Register rb rh uuid j)" "keeps at_top (r_Update rb rh j)"
    "keeps at_top (r_SetDefault rb j)" "keeps at_top (r_Unregister rb n)"
proof -
  have l: "keeps at_top (ExecuteListeners rb d)" for d by (rule keeps_ExecuteListeners) (rule quiet_top [OF assms])
  show "keeps at_top (r_Register rb rh uuid j)" "keeps at_top (r_Update rb rh j)"
    "keeps at_top (r_SetDefault rb j)" "keeps at_top (r_Unregister rb n)"
    unfolding r_Register_def r_Update_def r_SetDefault_def r_Unregister_def r_performOperation_def Let_def
      r_dao_InsertInstanceRegistration_def r_dao_UpdateInstanceRegistration_def r_dao_RemoveInstanceRegistration_def
      r_dao_SetDefaultInstance_def
    by (intro keeps_intros l)+
qed

section \<open>Reachable states\<close>

text \<open>
  The service starts with tables that hold no virtual hosts.  Its steps are its operations, each
  with any outcome, the operations of the registry of instances, and what happens around them:
  faults, a master lost or regained, changes of the brokers and of every other table.
\<close>

definition beside :: "'k world \<Rightarrow> 'k world \<Rightarrow> bool" where
  "beside w w' \<longleftrightarrow> txc w' = None \<and> vhosts (tabs w') = vhosts (tabs w) \<and> rabbit_entities (tabs w') = rabbit_entities (tabs w) \<and>
     rabbit_instances (tabs w') = rabbit_instances (tabs w)"

inductive rabbit_step :: "'k rabbit_env \<Rightarrow> 'k world \<Rightarrow> 'k world \<Rightarrow> bool" for e where
  rs_beside: "beside w w' \<Longrightarrow> rabbit_step e w w'"
| rs_registry: "quiet rb \<Longrightarrow> w' \<in> {snd (r_Register rb rh uuid j w), snd (r_Update rb rh j w), snd (r_SetDefault rb j w),
    snd (r_Unregister rb n w)} \<Longrightarrow> rabbit_step e w w'"
| rs_designator: "w' \<in> {snd (UpsertRabbitInstanceDesignator d ns w), snd (DeleteRabbitInstanceDesignatorByNamespace ns w)} \<Longrightarrow>
    rabbit_step e w w'"
| rs_vhost: "w' \<in> {snd (GetOrCreateVhost e c iid cl version w), snd (RemoveVHosts e c s ns w), snd (DeleteVHost e v w),
    snd (rabbit_CleanupNamespace e c ns w), snd (RotatePasswords e c s w), snd (rabbit_DestroyDomain e bns w)} \<Longrightarrow> rabbit_step e w w'"
| rs_entities: "w' \<in> {snd (CreateOrUpdateEntitiesV1 e v en w), snd (DeleteEntities e cl rd w), snd (ApplyPolicies e cl ps w),
    snd (recover_vhosts e ns w)} \<Longrightarrow> rabbit_step e w w'"
| rs_blue_green: "w' \<in> {snd (rabbit_Warmup e st w), snd (rabbit_Commit e st w), snd (rabbit_Promote e st w),
    snd (rabbit_Rollback e st w), snd (ProcessExportedVhost e ns w)} \<Longrightarrow> rabbit_step e w w'"

inductive rabbit_reachable :: "'k rabbit_env \<Rightarrow> 'k world \<Rightarrow> bool" for e where
  rr_start: "vhosts (tabs w) = [] \<Longrightarrow> rabbit_entities (tabs w) = [] \<Longrightarrow> txc w = None \<Longrightarrow> rabbit_reachable e w"
| rr_step: "rabbit_reachable e w \<Longrightarrow> rabbit_step e w w' \<Longrightarrow> rabbit_reachable e w'"

definition rabbit_ok :: "'k world \<Rightarrow> bool" where
  "rabbit_ok w \<longleftrightarrow> all_tabs rabbit_inv w \<and> at_top w"

lemma ok_after: "keeps (all_tabs rabbit_inv) m \<Longrightarrow> keeps at_top m \<Longrightarrow> rabbit_ok w \<Longrightarrow> rabbit_ok (snd (m w))"
  by (simp add: rabbit_ok_def keeps_def)

lemmas ok_requests =
  ok_after [OF registered.inv_designators(1) top_designators(1)] ok_after [OF registered.inv_designators(2) top_designators(2)]
  ok_after [OF registered.inv_vhost_create(3) top_vhosts(1)] ok_after [OF registered.inv_vhost_delete(2) top_vhost_requests(1)]
  ok_after [OF registered.inv_vhost_delete(1) top_vhosts(4)] ok_after [OF registered.inv_vhost_delete(3) top_vhost_requests(2)]
  ok_after [OF registered.inv_vhost_delete(5) top_vhost_requests(4)] ok_after [OF registered.inv_vhost_delete(4) top_vhost_requests(3)]
  ok_after [OF registered.inv_entities(1) top_entities(1)] ok_after [OF registered.inv_entities(4) top_entities(2)]
  ok_after [OF registered.inv_entities(5) top_entities(3)] ok_after [OF registered.inv_recovery top_recovery]
  ok_after [OF registered.inv_blue_green(2) top_blue_green(2)] ok_after [OF registered.inv_blue_green(1) top_blue_green(1)]
  ok_after [OF registered.inv_blue_green(3) top_blue_green(3)] ok_after [OF registered.inv_blue_green(4) top_blue_green(4)]
  ok_after [OF registered.inv_exported top_exported]

lemma rabbit_step_ok: "rabbit_step e w w' \<Longrightarrow> rabbit_ok w \<Longrightarrow> rabbit_ok w'"
proof (induction rule: rabbit_step.induct)
  case (rs_beside w w')
  then have "rabbit_inv (tabs w')"
    unfolding beside_def rabbit_ok_def all_tabs_def by (elim conjE) (rule rabbit_inv_same [of "tabs w'" "tabs w"], simp_all)
  with rs_beside show ?case by (simp add: beside_def rabbit_ok_def all_tabs_def committed_def)
next
  case (rs_registry rb w' rh uuid j w n)
  note r = registered.inv_registry [OF rs_registry(1)] and t = top_registry [OF rs_registry(1)]
  from rs_registry(2) show ?case
    by (elim insertE emptyE; simp only:) (rule ok_after [OF r(1) t(1) rs_registry(3)] ok_after [OF r(2) t(2) rs_registry(3)]
      ok_after [OF r(3) t(3) rs_registry(3)] ok_after [OF r(4) t(4) rs_registry(3)])+
qed (elim insertE emptyE; simp only:; erule ok_requests)+

lemma rabbit_reachable_ok: "rabbit_reachable e w \<Longrightarrow> rabbit_ok w"
proof (induction rule: rabbit_reachable.induct)
  case (rr_start w)
  then show ?case by (simp add: rabbit_ok_def all_tabs_def committed_def rabbit_inv_def vhosts_ok_def entities_ok_def)
qed (rule rabbit_step_ok)

section \<open>Registrations and entities\<close>

text \<open>
  C23 In every state the RabbitMQ service can reach, whatever requests run in whatever order and
  whatever fails in them: a classifier has one virtual host registration, a registration has an
  identifier of its own, and the instance it is on is registered.
\<close>

theorem one_vhost_per_classifier:
  assumes "rabbit_reachable e w"
  shows "distinct (map vh_classifier (vhosts (tabs w))) \<and> distinct (map vh_id (vhosts (tabs w))) \<and>
    vh_instance ` set (vhosts (tabs w)) \<subseteq> ri_id ` set (rabbit_instances (tabs w))"
  using rabbit_reachable_ok [OF assms] by (auto simp: rabbit_ok_def all_tabs_def rabbit_inv_def vhosts_ok_def)

text \<open>
  C24 In every reachable state each recorded entity has the form its type asks for: its JSON
  object is there, an exchange or queue is recorded under the name in that object and has no ends,
  a binding has the two ends its object names and no name; it belongs to a registered virtual
  host; and no two rows of a virtual host have the same object, or the same type and name.
\<close>

theorem recorded_entities_typed:
  assumes "rabbit_reachable e w"
  shows "(\<forall>x \<in> set (rabbit_entities (tabs w)). entity_wf x \<and> re_vhost x \<in> vh_id ` set (vhosts (tabs w))) \<and>
    (\<forall>x \<in> set (rabbit_entities (tabs w)). \<forall>y \<in> set (rabbit_entities (tabs w)).
       same_client x y \<or> same_named x y \<longrightarrow> x = y)"
proof -
  let ?es = "rabbit_entities (tabs w)"
  have ok: "entities_ok (tabs w)"
    using rabbit_reachable_ok [OF assms] by (simp add: rabbit_ok_def all_tabs_def rabbit_inv_def)
  then have "inj_on re_id (set ?es)" by (simp add: entities_ok_def distinct_map)
  then have "re_id x \<noteq> re_id y" if "x \<in> set ?es" "y \<in> set ?es" "x \<noteq> y" for x y using that by (blast dest: inj_onD)
  with ok show ?thesis unfolding entities_ok_def by blast
qed

section \<open>A broker to run on\<close>

text \<open>It keeps what is put under a path, answers it, and forgets what is deleted.\<close>

definition reply :: "nat \<Rightarrow> string \<Rightarrow> json option \<Rightarrow> http_reply" where
  "reply c s x = \<lparr>hr_code = c, hr_text = s, hr_json = x, hr_location = ''/key''\<rparr>"

definition shelf_http :: "(string \<times> json) list http_client" where
  "shelf_http q k = (case hq_method q of
      PUT \<Rightarrow> (Inr (reply 201 [] None), AList.update (hq_url q) (case hq_body q of None \<Rightarrow> JNull | Some x \<Rightarrow> x) k)
    | POST \<Rightarrow> (Inr (reply 201 [] None), AList.update (hq_url q @ ''/key'') (case hq_body q of None \<Rightarrow> JNull | Some x \<Rightarrow> x) k)
    | GET \<Rightarrow> (Inr (case map_of k (hq_url q) of None \<Rightarrow> reply 404 [] None | Some x \<Rightarrow> reply 200 ''body'' (Some x)), k)
    | DELETE \<Rightarrow> (Inr (reply 204 [] None), AList.delete (hq_url q) k))"

definition shelf_env :: "(string \<times> json) list rabbit_env" where
  "shelf_env = \<lparr>rb_http = shelf_http, rb_depth = 3, rb_role = ''maas'', rb_uuid = (\<lambda>k. (''0123456789abcdef'', k)), rb_order = id\<rparr>"

definition shelf_instance :: rabbit_instance where
  "shelf_instance = rabbit_a\<lparr>ri_api_url := ''http://a/api'', ri_default := True\<rparr>"

definition shelf_start :: "(string \<times> json) list world" where
  "shelf_start = mk_world (empty_tables\<lparr>rabbit_instances := [shelf_instance]\<rparr>) []"

definition orders_cl :: classifier where
  "orders_cl = \<lparr>c_name = ''orders'', c_namespace = ''org'', c_tenant = []\<rparr>"

definition shelf_vhost :: "(string \<times> json) list world" where
  "shelf_vhost = snd (GetOrCreateVhost shelf_env demo_ctx [] orders_cl None shelf_start)"

definition orders_vhost :: vhost where
  "orders_vhost = hd (vhosts (tabs shelf_vhost))"

definition exchange_json :: json where
  "exchange_json = JObj [(''name'', JStr ''events''), (''type'', JStr ''direct'')]"

definition shelf_entities :: "(string \<times> json) list world" where
  "shelf_entities = snd (CreateOrUpdateEntitiesV1 shelf_env orders_vhost
     \<lparr>en_exchanges = [exchange_json], en_queues = [JObj [(''name'', JStr ''inbox'')]],
      en_bindings = [JObj [(''destination'', JStr ''inbox''), (''source'', JStr ''events'')]]\<rparr> shelf_vhost)"

lemma shelf_reachable: "rabbit_reachable shelf_env shelf_start" "rabbit_reachable shelf_env shelf_vhost" "rabbit_reachable shelf_env shelf_entities"
proof -
  show 1: "rabbit_reachable shelf_env shelf_start" by (rule rr_start) (simp_all add: shelf_start_def empty_tables_def)
  show 2: "rabbit_reachable shelf_env shelf_vhost"
    unfolding shelf_vhost_def by (rule rr_step [OF 1]) (rule rs_vhost, blast)
  show "rabbit_reachable shelf_env shelf_entities"
    unfolding shelf_entities_def by (rule rr_step [OF 2]) (rule rs_entities, blast)
qed

theorem one_vhost_per_classifier_witness:
  "map vh_vhost (vhosts (tabs shelf_vhost)) = [''maas.org.orders''] \<and>
   vh_instance ` set (vhosts (tabs shelf_vhost)) \<subseteq> ri_id ` set (rabbit_instances (tabs shelf_vhost))"
proof
  show "map vh_vhost (vhosts (tabs shelf_vhost)) = [''maas.org.orders'']" by code_simp
  show "vh_instance ` set (vhosts (tabs shelf_vhost)) \<subseteq> ri_id ` set (rabbit_instances (tabs shelf_vhost))"
    using one_vhost_per_classifier [OF shelf_reachable(2)] by blast
qed

theorem recorded_entities_typed_witness:
  "map re_name (rabbit_entities (tabs shelf_entities)) = [Some ''events'', Some ''inbox'', None] \<and>
   list_all entity_wf (rabbit_entities (tabs shelf_entities))"
proof
  show "map re_name (rabbit_entities (tabs shelf_entities)) = [Some ''events'', Some ''inbox'', None]" by code_simp
  show "list_all entity_wf (rabbit_entities (tabs shelf_entities))"
    using recorded_entities_typed [OF shelf_reachable(3)] by (simp add: list_all_iff)
qed

section \<open>Destroyed domains\<close>

text \<open>Without a cache to fall back on, a search at the top of a request sees the master's tables.\<close>

lemma search_top:
  assumes "txc w = None" "conn w = Master" "cache w = None" "FindVhostWithSearchForm role s w = (Inr found, w')"
    "master_alive w"
  shows "found = [v \<leftarrow> vhosts (tabs w). vhost_matches role s v] \<and> tabs w' = tabs w \<and> txc w' = None \<and> conn w' = Master \<and>
    cache w' = None \<and> master_alive w'"
proof -
  let ?q = "\<lambda>t. filter (vhost_matches role s) (vhosts t)"
  obtain w1 where 1: "using_db [] (sql_read ?q) w = (Inr found, w1)" "w' = w1"
    using assms(4) by (auto simp: FindVhostWithSearchForm_def bind_io_run split: prod.splits sum.splits if_splits)
  then show ?thesis using assms(1-3,5)
    by (auto simp: using_db_def on_conn_def tx_conn_def sql_read_def Let_def pop_fault_def kill_tx_def
        split: list.splits option.splits if_splits prod.splits sum.splits)
qed

lemma no_vhosts_top:
  assumes "txc w = None" "conn w = Master" "cache w = None" "master_alive w" "no_vhosts_in e ns w = (Inr (), w')"
  shows "(\<forall>v \<in> set (vhosts (tabs w)). vh_namespace v \<noteq> ns) \<and> tabs w' = tabs w \<and> txc w' = None \<and> conn w' = Master \<and>
    cache w' = None \<and> master_alive w'"
proof -
  have f: "FindVhostWithSearchForm (rb_role e) (empty_form\<lparr>sf_namespace := ns\<rparr>) w = (Inr [], w')"
    using assms(5) by (auto simp: no_vhosts_in_def dao_FindVhostsByNamespace_def bind_io_run wrap_io_run
        split: prod.splits sum.splits if_splits)
  have "vhost_matches (rb_role e) (empty_form\<lparr>sf_namespace := ns\<rparr>) v \<longleftrightarrow> ns = [] \<or> vh_namespace v = ns" for v
    by (simp add: vhost_matches_def empty_form_def no_classifier_def classifier_IsEmpty_def)
  with search_top [OF assms(1-3) f assms(4)] show ?thesis
    by (simp add: filter_empty_conv eq_commute [of "[]" "filter P xs" for P xs])
qed



section \<open>The recreation of an entity ends\<close>

text \<open>
  \<open>createEntity\<close> without a bound: the outcomes its recursion reaches.  A refusal for an
  inequivalent argument deletes the entity and starts over.
\<close>

inductive creates ::
    "'k rabbit_helper \<Rightarrow> (json \<Rightarrow> http_request) \<Rightarrow> (json \<Rightarrow> ('k, json option) io) option \<Rightarrow>
     (json \<Rightarrow> ('k, json option) io) option \<Rightarrow> json \<Rightarrow> 'k \<Rightarrow> (json option \<times> string) outcome \<times> 'k \<Rightarrow> bool" for h q g d x where
  accepted: "DoRequest (rh_http h) (q x) [200, 201, 204] k = (Inr r, k') \<Longrightarrow>
    creates h q g d x k (created_entity x (hq_url (q x)) g r k')"
| refused: "DoRequest (rh_http h) (q x) [200, 201, 204] k = (Inl failure, k') \<Longrightarrow>
    d = None \<or> (case failure of NoReply _ \<Rightarrow> True | BadStatus r \<Rightarrow> \<not> inequivalent r) \<Longrightarrow>
    creates h q g d x k (Inl (http_err failure), k')"
| undeleted: "DoRequest (rh_http h) (q x) [200, 201, 204] k = (Inl (BadStatus r), k') \<Longrightarrow> inequivalent r \<Longrightarrow>
    d = Some del \<Longrightarrow> del x k' = (Inl err, k'') \<Longrightarrow> creates h q g d x k (Inl err, k'')"
| again: "DoRequest (rh_http h) (q x) [200, 201, 204] k = (Inl (BadStatus r), k') \<Longrightarrow> inequivalent r \<Longrightarrow>
    d = Some del \<Longrightarrow> del x k' = (Inr gone, k'') \<Longrightarrow> creates h q g d x k'' res \<Longrightarrow>
    creates h q g d x k (bind_io (\<lambda>_. res) (\<lambda>(response, _). bind_io (lift_io (reason_of r)) (\<lambda>reason. ret_io (response, reason))) k'')"

definition deletion_helps ::
    "('k \<Rightarrow> nat) \<Rightarrow> 'k rabbit_helper \<Rightarrow> (json \<Rightarrow> http_request) \<Rightarrow> (json \<Rightarrow> ('k, json option) io) option \<Rightarrow> json \<Rightarrow> bool" where
  "deletion_helps rank h q d x \<longleftrightarrow> (\<forall>k r k' del gone k''.
     DoRequest (rh_http h) (q x) [200, 201, 204] k = (Inl (BadStatus r), k') \<and> inequivalent r \<and> d = Some del \<and>
     del x k' = (Inr gone, k'') \<longrightarrow> rank k'' < rank k)"

lemma creates_bounded:
  assumes "deletion_helps rank h q d x" "rank k < n"
  shows "creates h q g d x k (createEntity n h q g d x k)"
  using assms(2)
proof (induction n arbitrary: k)
  case (Suc n)
  obtain res k' where dr: "DoRequest (rh_http h) (q x) [200, 201, 204] k = (res, k')" by (metis surj_pair)
  show ?case
  proof (cases res)
    case (Inr r)
    with dr accepted [of h q x k r k' g d] show ?thesis by simp
  next
    case (Inl f)
    show ?thesis
    proof (cases "d = None \<or> (case f of NoReply _ \<Rightarrow> True | BadStatus r \<Rightarrow> \<not> inequivalent r)")
      case True
      then have "createEntity (Suc n) h q g d x k = (Inl (http_err f), k')"
        using dr Inl by (auto split: option.split http_failure.splits)
      with True dr Inl refused [of h q x k f k' d g] show ?thesis by simp
    next
      case False
      then obtain del r where d: "d = Some del" "f = BadStatus r" "inequivalent r" by (auto split: http_failure.splits)
      note dr = dr [unfolded Inl d(2)]
      obtain res2 k2 where 2: "del x k' = (res2, k2)" by (metis surj_pair)
      show ?thesis
      proof (cases res2)
        case (Inl err)
        have "creates h q g d x k (Inl err, k2)"
          by (rule undeleted [where r = r and k' = k' and del = del]) (use dr d 2 Inl in simp_all)
        then show ?thesis using dr d 2 Inl by (simp add: bind_io_run)
      next
        case (Inr gone)
        have "rank k2 < rank k" using assms(1) dr d 2 Inr unfolding deletion_helps_def by blast
        then have "rank k2 < n" using Suc.prems by linarith
        note rest = Suc.IH [OF this]
        have e: "createEntity (Suc n) h q g d x k = bind_io (\<lambda>_. createEntity n h q g d x k2)
            (\<lambda>(response, _). bind_io (lift_io (reason_of r)) (\<lambda>reason. ret_io (response, reason))) k2"
          using dr d 2 Inr by (simp add: bind_io_run)
        show ?thesis unfolding e
          by (rule again [where r = r and k' = k' and del = del and gone = gone]) (use dr d 2 Inr rest in simp_all)
      qed
    qed
  qed
qed simp

lemma from_depth:
  assumes "\<And>m. n \<le> m \<Longrightarrow> P (Suc m)"
  shows "\<exists>n. \<forall>m \<ge> n. P m"
proof (intro exI allI impI)
  fix m
  assume "Suc n \<le> m"
  then show "P m" using assms by (cases m) auto
qed

lemma creates_depth: "creates h q g d x k res \<Longrightarrow> \<exists>n. \<forall>m \<ge> n. createEntity m h q g d x k = res"
proof (induction rule: creates.induct)
  case (accepted k r k')
  then show ?case by (intro from_depth [of 0]) simp
next
  case (refused k failure k')
  then show ?case by (intro from_depth [of 0]) (auto split: option.split http_failure.splits)
next
  case (undeleted k r k' del err k'')
  then show ?case by (intro from_depth [of 0]) (simp add: bind_io_run)
next
  case (again k r k' del gone k'' res)
  then obtain n where n: "\<And>m. n \<le> m \<Longrightarrow> createEntity m h q g d x k'' = res" by blast
  show ?case
  proof (rule from_depth)
    fix m
    assume "n \<le> m"
    then show "createEntity (Suc m) h q g d x k = bind_io (\<lambda>_. res) (\<lambda>(response, _). bind_io (lift_io (reason_of r))
      (\<lambda>reason. ret_io (response, reason))) k''" using again(1-4) n by (simp add: bind_io_run)
  qed
qed

lemma creates_unique:
  assumes "creates h q g d x k res" "creates h q g d x k res'"
  shows "res = res'"
proof -
  obtain n where n: "\<forall>m \<ge> n. createEntity m h q g d x k = res" using creates_depth [OF assms(1)] by (rule exE)
  obtain n' where n': "\<forall>m \<ge> n'. createEntity m h q g d x k = res'" using creates_depth [OF assms(2)] by (rule exE)
  have "createEntity (max n n') h q g d x k = res" using n by simp
  moreover have "createEntity (max n n') h q g d x k = res'" using n' by simp
  ultimately show ?thesis by simp
qed



text \<open>A broker that refuses a queue twice, each time until it was deleted.\<close>

definition stubborn_http :: "nat http_client" where
  "stubborn_http q k = (case hq_method q of
      PUT \<Rightarrow> (Inr (if k = 0 then reply 201 [] None
                 else reply 400 ''inequivalent arg'' (Some (JObj [(''reason'', JStr ''durable'')]))), k)
    | DELETE \<Rightarrow> (Inr (reply 204 [] None), k - 1)
    | _ \<Rightarrow> (Inr (reply 200 ''body'' (Some (JObj [(''name'', JStr ''inbox'')]))), k))"

definition stubborn_helper :: "nat rabbit_helper" where
  "stubborn_helper = NewRabbitHelper stubborn_http 9 shelf_instance no_vhost"

definition inbox_json :: json where
  "inbox_json = JObj [(''name'', JStr ''inbox'')]"

definition inbox_request :: "json \<Rightarrow> http_request" where
  "inbox_request x = as_user stubborn_helper PUT ''queues//inbox'' (Some x)"

lemma stubborn_refuses:
  "deletion_helps id stubborn_helper inbox_request (Some (DeleteQueue stubborn_helper)) inbox_json"
proof -
  have n: "ExtractName inbox_json = Inr ''inbox''" by code_simp
  have d: "DeleteQueue stubborn_helper inbox_json k = (Inr (Some inbox_json), k - 1)" for k
    by (simp add: DeleteQueue_def n bind_io_run DeleteEntity_def deleteEntity_def request_io_def DoRequest_def stubborn_helper_def
        stubborn_http_def NewRabbitHelper_def as_user_def intInSlice_def reply_def)
  have r: "k' = k \<and> k \<noteq> 0" if "DoRequest (rh_http stubborn_helper) (inbox_request inbox_json) [200, 201, 204] k = (Inl f, k')" for k k' f
    using that by (auto simp: DoRequest_def stubborn_http_def stubborn_helper_def NewRabbitHelper_def inbox_request_def
        as_user_def intInSlice_def reply_def split: if_splits)
  show ?thesis unfolding deletion_helps_def by (auto simp: d dest!: r)
qed


text \<open>
  A refusal that deletion does not help against is repeated for ever: the recursion has no outcome,
  and the code runs until its stack is full.
\<close>

lemma recreation_may_not_end:
  assumes "\<And>k. DoRequest (rh_http h) (q x) [200, 201, 204] k = (Inl (BadStatus r), k)" "inequivalent r" "\<And>k. del x k = (Inr gone, k)"
  shows "\<not> creates h q g (Some del) x k res"
proof
  assume "creates h q g (Some del) x k res"
  then show False
    by (induction k res rule: creates.induct) (use assms in auto)
qed

section \<open>The table of entities as a map\<close>

text \<open>
  What the table means: for a virtual host, a type and a name, the classifier it was recorded for and the
  JSON object; for a virtual host and the JSON object of a binding, its classifier and its ends.
\<close>

record entity_store =
  st_named :: "nat \<times> entity_type \<times> string \<Rightarrow> (classifier \<times> jobject) option"
  st_bound :: "nat \<times> jobject \<Rightarrow> (classifier \<times> string option \<times> string option) option"

definition named_row :: "nat \<times> entity_type \<times> string \<Rightarrow> rabbit_entity \<Rightarrow> bool" where
  "named_row key x = (case key of (vid, ty, n) \<Rightarrow> re_vhost x = vid \<and> re_type x = ty \<and> re_name x = Some n)"

definition bound_row :: "nat \<times> jobject \<Rightarrow> rabbit_entity \<Rightarrow> bool" where
  "bound_row key x = (case key of (vid, fs) \<Rightarrow> re_vhost x = vid \<and> re_type x = BindingType \<and> re_client x = Some fs)"

definition fields_in :: "rabbit_entity \<Rightarrow> jobject" where
  "fields_in x = (case re_client x of None \<Rightarrow> [] | Some fs \<Rightarrow> fs)"

definition entity_view :: "tables \<Rightarrow> entity_store" where
  "entity_view t = \<lparr>st_named = (\<lambda>key. map_option (\<lambda>x. (re_classifier x, fields_in x)) (find (named_row key) (rabbit_entities t))),
     st_bound = (\<lambda>key. map_option (\<lambda>x. (re_classifier x, re_source x, re_destination x)) (find (bound_row key) (rabbit_entities t)))\<rparr>"

text \<open>
  Recording an exchange or a queue: nothing when the virtual host has the same object, of whatever
  kind; else the object is what its name stands for from then on, and a row keeps its classifier.
\<close>

definition known_object :: "nat \<Rightarrow> jobject \<Rightarrow> entity_store \<Rightarrow> bool" where
  "known_object vid fs s \<longleftrightarrow> (\<exists>ty n c. st_named s (vid, ty, n) = Some (c, fs)) \<or> st_bound s (vid, fs) \<noteq> None"

definition put_named :: "nat \<times> entity_type \<times> string \<Rightarrow> classifier \<Rightarrow> jobject \<Rightarrow> entity_store \<Rightarrow> entity_store" where
  "put_named key cl fs s =
     (if known_object (fst key) fs s then s
      else s\<lparr>st_named := (st_named s)(key \<mapsto> (case st_named s key of None \<Rightarrow> (cl, fs) | Some (c, _) \<Rightarrow> (c, fs)))\<rparr>)"

text \<open>Deleting one: every row of the classifier with that type and name goes, and the bindings at that end.\<close>

definition drop_named :: "classifier \<Rightarrow> entity_type \<Rightarrow> string \<Rightarrow> entity_store \<Rightarrow> entity_store" where
  "drop_named cl ty n s =
     \<lparr>st_named = (\<lambda>(vid, ty', n'). case st_named s (vid, ty', n') of
          Some (c, fs) \<Rightarrow> if c = cl \<and> ty' = ty \<and> n' = n then None else Some (c, fs) | None \<Rightarrow> None),
      st_bound = (\<lambda>key. case st_bound s key of
          Some (c, src, dst) \<Rightarrow> if c = cl \<and> (ty = ExchangeType \<and> src = Some n \<or> ty = QueueType \<and> dst = Some n) then None else Some (c, src, dst)
        | None \<Rightarrow> None)\<rparr>"

lemma find_append_one: "find P (xs @ [y]) = (case find P xs of Some x \<Rightarrow> Some x | None \<Rightarrow> if P y then Some y else None)"
  by (induction xs) auto

lemma find_map_same: "(\<And>x. x \<in> set xs \<Longrightarrow> P (f x) = P x) \<Longrightarrow> find P (map f xs) = map_option f (find P xs)"
  by (induction xs) auto

lemma find_filter_unique:
  "(\<And>x y. x \<in> set xs \<Longrightarrow> y \<in> set xs \<Longrightarrow> P x \<Longrightarrow> P y \<Longrightarrow> x = y) \<Longrightarrow>
   find P (filter Q xs) = (case find P xs of Some x \<Rightarrow> if Q x then Some x else None | None \<Rightarrow> None)"
proof (induction xs)
  case (Cons a xs)
  show ?case
  proof (cases "P a")
    case True
    have "find P (filter Q xs) = None" if "\<not> Q a"
      using Cons.prems [of a] True that by (force simp: find_None_iff)
    with True show ?thesis by auto
  next
    case False
    have "find P (filter Q xs) = (case find P xs of Some x \<Rightarrow> if Q x then Some x else None | None \<Rightarrow> None)"
      by (rule Cons.IH) (use Cons.prems in auto)
    with False show ?thesis by auto
  qed
qed simp

lemma rows_distinct:
  assumes "rabbit_inv t" "x \<in> set (rabbit_entities t)" "y \<in> set (rabbit_entities t)" "same_client x y \<or> same_named x y"
  shows "x = y"
proof -
  have ok: "entities_ok t" using assms(1) by (simp add: rabbit_inv_def)
  then have "inj_on re_id (set (rabbit_entities t))" by (simp add: entities_ok_def distinct_map)
  with ok assms(2-4) show ?thesis unfolding entities_ok_def by (metis inj_onD)
qed

lemma unique_rows:
  assumes "rabbit_inv t" "x \<in> set (rabbit_entities t)" "y \<in> set (rabbit_entities t)"
  shows "named_row key x \<Longrightarrow> named_row key y \<Longrightarrow> x = y" "bound_row key2 x \<Longrightarrow> bound_row key2 y \<Longrightarrow> x = y"
proof -
  show "x = y" if "named_row key x" "named_row key y"
    using that by (intro rows_distinct [OF assms]) (auto simp: named_row_def same_named_def same_text_def split: prod.splits)
  show "x = y" if "bound_row key2 x" "bound_row key2 y"
    using that by (intro rows_distinct [OF assms]) (auto simp: bound_row_def same_client_def same_text_def split: prod.splits)
qed

lemma view_of_filter:
  assumes "rabbit_inv t" "rabbit_entities t' = filter Q (rabbit_entities t)"
  shows "entity_view t' =
    \<lparr>st_named = (\<lambda>key. case find (named_row key) (rabbit_entities t) of
       Some x \<Rightarrow> if Q x then Some (re_classifier x, fields_in x) else None | None \<Rightarrow> None),
     st_bound = (\<lambda>key. case find (bound_row key) (rabbit_entities t) of
       Some x \<Rightarrow> if Q x then Some (re_classifier x, re_source x, re_destination x) else None | None \<Rightarrow> None)\<rparr>"
proof -
  have n: "find (named_row key) (filter Q (rabbit_entities t)) =
      (case find (named_row key) (rabbit_entities t) of Some x \<Rightarrow> if Q x then Some x else None | None \<Rightarrow> None)" for key
    by (rule find_filter_unique) (rule unique_rows(1) [OF assms(1)])
  have b: "find (bound_row key) (filter Q (rabbit_entities t)) =
      (case find (bound_row key) (rabbit_entities t) of Some x \<Rightarrow> if Q x then Some x else None | None \<Rightarrow> None)" for key
    by (rule find_filter_unique) (rule unique_rows(2) [OF assms(1)])
  show ?thesis unfolding entity_view_def assms(2) n b by (auto split: option.split)
qed

lemma known_object_iff:
  assumes i: "rabbit_inv t" and x: "re_client x = Some fs"
  shows "known_object (re_vhost x) fs (entity_view t) \<longleftrightarrow> (\<exists>d \<in> set (rabbit_entities t). same_client d x)"
proof
  assume "known_object (re_vhost x) fs (entity_view t)"
  then show "\<exists>d \<in> set (rabbit_entities t). same_client d x"
  proof (unfold known_object_def, elim disjE exE)
    fix ty n c
    assume "st_named (entity_view t) (re_vhost x, ty, n) = Some (c, fs)"
    then obtain d where d: "find (named_row (re_vhost x, ty, n)) (rabbit_entities t) = Some d" "fields_in d = fs"
      by (auto simp: entity_view_def)
    then have "d \<in> set (rabbit_entities t)" "named_row (re_vhost x, ty, n) d" by (auto simp: find_Some_iff)
    moreover have "re_client d = Some (fields_in d)" using i calculation(1)
      by (auto simp: rabbit_inv_def entities_ok_def entity_wf_def fields_in_def)
    ultimately show ?thesis using x d(2) by (auto simp: named_row_def same_client_def same_text_def)
  next
    assume "st_bound (entity_view t) (re_vhost x, fs) \<noteq> None"
    then obtain d where "find (bound_row (re_vhost x, fs)) (rabbit_entities t) = Some d" by (auto simp: entity_view_def)
    then have "d \<in> set (rabbit_entities t)" "bound_row (re_vhost x, fs) d" by (auto simp: find_Some_iff)
    then show ?thesis using x by (auto simp: bound_row_def same_client_def same_text_def)
  qed
next
  assume "\<exists>d \<in> set (rabbit_entities t). same_client d x"
  then obtain d where d: "d \<in> set (rabbit_entities t)" "re_vhost d = re_vhost x" "re_client d = Some fs"
    using x by (auto simp: same_client_def same_text_def)
  have wf: "entity_wf d" using i d(1) by (simp add: rabbit_inv_def entities_ok_def)
  show "known_object (re_vhost x) fs (entity_view t)"
  proof (cases "re_type d = BindingType")
    case True
    have "find (bound_row (re_vhost x, fs)) (rabbit_entities t) \<noteq> None"
      using d True by (auto simp: find_None_iff bound_row_def)
    then show ?thesis by (simp add: known_object_def entity_view_def)
  next
    case False
    then obtain n where n: "re_name d = Some n" using wf by (auto simp: entity_wf_def)
    have r: "named_row (re_vhost x, re_type d, n) d" using d n by (simp add: named_row_def)
    obtain d' where f: "find (named_row (re_vhost x, re_type d, n)) (rabbit_entities t) = Some d'"
      using d(1) r by (metis find_None_iff not_None_eq)
    then have "d' = d" using unique_rows(1) [OF i _ d(1) _ r, of d'] by (auto simp: find_Some_iff)
    with f d(3) have "st_named (entity_view t) (re_vhost x, re_type d, n) = Some (re_classifier d, fs)"
      by (simp add: entity_view_def fields_in_def)
    then show ?thesis unfolding known_object_def by blast
  qed
qed

lemma view_named: "entity_wf x \<Longrightarrow> re_type x \<noteq> BindingType \<Longrightarrow> \<exists>n fs. re_name x = Some n \<and> re_client x = Some fs"
  by (auto simp: entity_wf_def)

lemma view_append:
  assumes x: "re_type x \<noteq> BindingType" "re_name x = Some n" "re_client x = Some fs"
    and new: "\<forall>d \<in> set (rabbit_entities t). \<not> same_named d x"
    and t: "rabbit_entities t' = rabbit_entities t @ [x\<lparr>re_id := m\<rparr>]"
  shows "entity_view t' = (entity_view t)\<lparr>st_named := (st_named (entity_view t))((re_vhost x, re_type x, n) \<mapsto> (re_classifier x, fs))\<rparr>"
    and "st_named (entity_view t) (re_vhost x, re_type x, n) = None"
proof -
  have none: "find (named_row (re_vhost x, re_type x, n)) (rabbit_entities t) = None"
    using new x by (auto simp: find_None_iff named_row_def same_named_def same_text_def)
  then show "st_named (entity_view t) (re_vhost x, re_type x, n) = None" by (simp add: entity_view_def)
  have b: "\<not> bound_row key (x\<lparr>re_id := m\<rparr>)" for key using x(1) by (auto simp: bound_row_def split: prod.splits)
  have r: "named_row key (x\<lparr>re_id := m\<rparr>) \<longleftrightarrow> key = (re_vhost x, re_type x, n)" for key
    using x(2) by (auto simp: named_row_def split: prod.splits)
  show "entity_view t' = (entity_view t)\<lparr>st_named := (st_named (entity_view t))((re_vhost x, re_type x, n) \<mapsto> (re_classifier x, fs))\<rparr>"
    using none x(3) unfolding entity_view_def t find_append_one
    by (auto simp: b r fields_in_def fun_eq_iff split: option.split)
qed

lemma view_update:
  assumes i: "rabbit_inv t" and x: "re_type x \<noteq> BindingType" "re_name x = Some n" "re_client x = Some fs"
    and d: "d \<in> set (rabbit_entities t)" "same_named d x"
    and t: "rabbit_entities t' = map (\<lambda>d. if same_named d x then d\<lparr>re_client := Some fs, re_rabbit := b\<rparr> else d) (rabbit_entities t)"
  shows "entity_view t' = (entity_view t)\<lparr>st_named := (st_named (entity_view t))((re_vhost x, re_type x, n) \<mapsto> (re_classifier d, fs))\<rparr>"
    and "\<exists>fs'. st_named (entity_view t) (re_vhost x, re_type x, n) = Some (re_classifier d, fs')"
proof -
  let ?f = "\<lambda>d. if same_named d x then d\<lparr>re_client := Some fs, re_rabbit := b\<rparr> else d"
  let ?key = "(re_vhost x, re_type x, n)"
  have s: "same_named y x \<longleftrightarrow> named_row ?key y" for y
    using x(2) by (auto simp: same_named_def same_text_def named_row_def)
  have nr: "named_row key (?f y) = named_row key y" for key y by (auto simp: named_row_def split: prod.splits)
  have br: "bound_row key (?f y) = bound_row key y" for key y
    using x(1) by (auto simp: bound_row_def same_named_def split: prod.splits)
  obtain z where z: "find (named_row ?key) (rabbit_entities t) = Some z"
    using d s by (metis find_None_iff not_None_eq)
  have zd: "z = d" using unique_rows(1) [OF i _ d(1), of z ?key] z d s by (auto simp: find_Some_iff)
  then show "\<exists>fs'. st_named (entity_view t) ?key = Some (re_classifier d, fs')" using z by (simp add: entity_view_def)
  have nk: "find (named_row key) (map ?f (rabbit_entities t)) = map_option ?f (find (named_row key) (rabbit_entities t))" for key
    by (rule find_map_same) (rule nr)
  have bk: "find (bound_row key) (map ?f (rabbit_entities t)) = map_option ?f (find (bound_row key) (rabbit_entities t))" for key
    by (rule find_map_same) (rule br)
  have apart: "\<not> same_named y x" if "find (named_row key) (rabbit_entities t) = Some y" "key \<noteq> ?key" for key y
  proof
    assume "same_named y x"
    then have "named_row ?key y" by (simp add: s)
    moreover have "named_row key y" using that(1) by (auto simp: find_Some_iff)
    ultimately show False using that(2) by (auto simp: named_row_def split: prod.splits)
  qed
  have bound: "?f y = y" if "find (bound_row key) (rabbit_entities t) = Some y" for key y
  proof -
    have "bound_row key y" using that by (auto simp: find_Some_iff)
    then have "re_type y = BindingType" by (simp add: bound_row_def split: prod.splits)
    then show ?thesis using x(1) by (simp add: same_named_def)
  qed
  have n: "map_option (\<lambda>x. (re_classifier x, fields_in x)) (map_option ?f (find (named_row key) (rabbit_entities t))) =
      ((\<lambda>key. map_option (\<lambda>x. (re_classifier x, fields_in x)) (find (named_row key) (rabbit_entities t)))(?key \<mapsto> (re_classifier d, fs))) key" for key
  proof (cases "key = ?key")
    case True
    then show ?thesis using z zd d(2) by (simp add: fields_in_def)
  next
    case False
    then show ?thesis using apart [OF _ False] by (cases "find (named_row key) (rabbit_entities t)") auto
  qed
  have b: "map_option ?f (find (bound_row key) (rabbit_entities t)) = find (bound_row key) (rabbit_entities t)" for key
    using bound [of key] by (cases "find (bound_row key) (rabbit_entities t)") auto
  show "entity_view t' = (entity_view t)\<lparr>st_named := (st_named (entity_view t))(?key \<mapsto> (re_classifier d, fs))\<rparr>"
    unfolding entity_view_def t nk bk n b by (simp add: fun_eq_iff)
qed

lemma view_upsert:
  assumes i: "rabbit_inv t" and x: "re_type x \<noteq> BindingType" "re_name x = Some n" "re_client x = Some fs"
    and new: "\<not> (\<exists>d \<in> set (rabbit_entities t). same_client d x)" and r: "upsert_named x t = Inr (u, t')"
  shows "entity_view t' = put_named (re_vhost x, re_type x, n) (re_classifier x) fs (entity_view t)"
proof -
  have k: "\<not> known_object (re_vhost x) fs (entity_view t)" using known_object_iff [OF i x(3)] new by simp
  show ?thesis
  proof (cases "\<exists>d \<in> set (rabbit_entities t). same_named d x")
    case True
    then obtain d where d: "d \<in> set (rabbit_entities t)" "same_named d x" by blast
    have t: "rabbit_entities t' = map (\<lambda>d. if same_named d x then d\<lparr>re_client := Some fs, re_rabbit := re_rabbit x\<rparr> else d) (rabbit_entities t)"
      using r x(3) True by (auto simp: upsert_named_def list_ex_iff split: if_splits)
    obtain fs' where "st_named (entity_view t) (re_vhost x, re_type x, n) = Some (re_classifier d, fs')"
      using view_update(2) [OF i x d t] by blast
    with view_update(1) [OF i x d t] k show ?thesis by (simp add: put_named_def)
  next
    case False
    then have "append_entity x t = Inr (u, t')" using r new by (auto simp: upsert_named_def list_ex_iff split: if_splits)
    then obtain m where t: "rabbit_entities t' = rabbit_entities t @ [x\<lparr>re_id := m\<rparr>]" by (auto simp: append_entity_def split: if_splits)
    have f: "\<forall>d \<in> set (rabbit_entities t). \<not> same_named d x" using False by blast
    from view_append [OF x f t] k show ?thesis by (simp add: put_named_def)
  qed
qed

lemma view_delete:
  assumes i: "rabbit_inv t" and n: "re_name x = Some n" and ty: "re_type x \<noteq> BindingType"
    and t: "rabbit_entities t' = [y \<leftarrow> rabbit_entities t. \<not> (re_type x = ExchangeType \<and> re_classifier y = re_classifier x \<and>
        re_type y = BindingType \<and> same_text (re_source y) (re_name x)) \<and>
      \<not> (re_type x = QueueType \<and> re_classifier y = re_classifier x \<and> re_type y = BindingType \<and> same_text (re_destination y) (re_name x)) \<and>
      \<not> (re_classifier y = re_classifier x \<and> same_text (re_name y) (re_name x) \<and> re_type y = re_type x)]"
  shows "entity_view t' = drop_named (re_classifier x) (re_type x) n (entity_view t)"
proof -
  have row: "named_row key y" if "find (named_row key) (rabbit_entities t) = Some y" for key y
    using that by (auto simp: find_Some_iff)
  have brow: "bound_row key y" if "find (bound_row key) (rabbit_entities t) = Some y" for key y
    using that by (auto simp: find_Some_iff)
  have name: "re_type y \<noteq> BindingType" if "find (named_row key) (rabbit_entities t) = Some y" for key y
  proof
    assume "re_type y = BindingType"
    moreover have "entity_wf y" using that i by (auto simp: find_Some_iff rabbit_inv_def entities_ok_def)
    ultimately show False using row [OF that] by (auto simp: entity_wf_def named_row_def split: prod.splits)
  qed
  have tx: "same_text u (re_name x) \<longleftrightarrow> u = Some n" for u using n by (auto simp: same_text_def)
  let ?gone = "\<lambda>y. (re_type x = ExchangeType \<and> re_classifier y = re_classifier x \<and>
        re_type y = BindingType \<and> same_text (re_source y) (re_name x)) \<or>
      (re_type x = QueueType \<and> re_classifier y = re_classifier x \<and> re_type y = BindingType \<and> same_text (re_destination y) (re_name x)) \<or>
      (re_classifier y = re_classifier x \<and> same_text (re_name y) (re_name x) \<and> re_type y = re_type x)"
  have 1: "?gone y \<longleftrightarrow> re_classifier y = re_classifier x \<and> ty' = re_type x \<and> n' = n"
    if "find (named_row (vid, ty', n')) (rabbit_entities t) = Some y" for vid ty' n' y
    using name [OF that] row [OF that] by (auto simp: named_row_def tx)
  have 2: "?gone y \<longleftrightarrow> re_classifier y = re_classifier x \<and> (re_type x = ExchangeType \<and> re_source y = Some n \<or> re_type x = QueueType \<and> re_destination y = Some n)"
    if "find (bound_row key) (rabbit_entities t) = Some y" for key y
  proof -
    have "re_type y = BindingType" using brow [OF that] by (simp add: bound_row_def split: prod.splits)
    then show ?thesis using ty tx by auto
  qed
  have t2: "rabbit_entities t' = [y \<leftarrow> rabbit_entities t. \<not> ?gone y]" unfolding t by (rule filter_cong) auto
  have named: "(\<lambda>key. case find (named_row key) (rabbit_entities t) of Some x' \<Rightarrow> if \<not> ?gone x' then Some (re_classifier x', fields_in x') else None | None \<Rightarrow> None) =
      (\<lambda>(vid, ty', n'). case st_named (entity_view t) (vid, ty', n') of
          Some (c, fs) \<Rightarrow> if c = re_classifier x \<and> ty' = re_type x \<and> n' = n then None else Some (c, fs) | None \<Rightarrow> None)"
  proof (rule ext, clarify)
    fix vid ty' n'
    show "(case find (named_row (vid, ty', n')) (rabbit_entities t) of Some x' \<Rightarrow> if \<not> ?gone x' then Some (re_classifier x', fields_in x') else None | None \<Rightarrow> None) =
      (case st_named (entity_view t) (vid, ty', n') of
          Some (c, fs) \<Rightarrow> if c = re_classifier x \<and> ty' = re_type x \<and> n' = n then None else Some (c, fs) | None \<Rightarrow> None)"
      using 1 [of vid ty' n'] by (cases "find (named_row (vid, ty', n')) (rabbit_entities t)") (simp_all add: entity_view_def)
  qed
  have bound: "(\<lambda>key. case find (bound_row key) (rabbit_entities t) of Some x' \<Rightarrow> if \<not> ?gone x' then Some (re_classifier x', re_source x', re_destination x') else None | None \<Rightarrow> None) =
      (\<lambda>key. case st_bound (entity_view t) key of
          Some (c, src, dst) \<Rightarrow> if c = re_classifier x \<and> (re_type x = ExchangeType \<and> src = Some n \<or> re_type x = QueueType \<and> dst = Some n)
            then None else Some (c, src, dst)
        | None \<Rightarrow> None)"
  proof (rule ext)
    fix key
    show "(case find (bound_row key) (rabbit_entities t) of Some x' \<Rightarrow> if \<not> ?gone x' then Some (re_classifier x', re_source x', re_destination x') else None | None \<Rightarrow> None) =
      (case st_bound (entity_view t) key of
          Some (c, src, dst) \<Rightarrow> if c = re_classifier x \<and> (re_type x = ExchangeType \<and> src = Some n \<or> re_type x = QueueType \<and> dst = Some n)
            then None else Some (c, src, dst)
        | None \<Rightarrow> None)"
      using 2 [of key] by (cases "find (bound_row key) (rabbit_entities t)") (simp_all add: entity_view_def)
  qed
  show ?thesis unfolding view_of_filter [OF i t2] drop_named_def named bound ..
qed

lemma tx_upsert_named:
  assumes i: "rabbit_inv t0" and x: "re_type x \<noteq> BindingType" "re_name x = Some n" "re_client x = Some fs"
  shows "tx_rule (\<lambda>t. t = t0) (bind_io (wrap_io (sql_read (\<lambda>t. length [d \<leftarrow> rabbit_entities t. same_client d x])))
        (\<lambda>k. if k = 1 then ret_io () else sql_write (upsert_named x)))
     (\<lambda>_ t. entity_view t = put_named (re_vhost x, re_type x, n) (re_classifier x) fs (entity_view t0))"
proof (rule tx_bind [where R = "\<lambda>k t. t = t0 \<and> k = length [d \<leftarrow> rabbit_entities t0. same_client d x]"])
  let ?same = "[d \<leftarrow> rabbit_entities t0. same_client d x]"
  note known = known_object_iff [OF i x(3)]
  have one: "length ?same = 1 \<longleftrightarrow> (\<exists>d \<in> set (rabbit_entities t0). same_client d x)"
  proof
    assume "length ?same = 1"
    then obtain d where "?same = [d]" by (cases ?same) auto
    then have "d \<in> set ?same" by simp
    then show "\<exists>d \<in> set (rabbit_entities t0). same_client d x" by auto
  next
    assume "\<exists>d \<in> set (rabbit_entities t0). same_client d x"
    then obtain d where d: "d \<in> set (rabbit_entities t0)" "same_client d x" by blast
    have "same_client y d" if "same_client y x" for y using that d(2) x(3) by (simp add: same_client_def same_text_def)
    then have "set ?same = {d}" using d rows_distinct [OF i _ d(1)] by auto
    moreover have "distinct ?same" using i by (auto simp: rabbit_inv_def entities_ok_def distinct_map intro: distinct_filter)
    ultimately show "length ?same = 1" by (metis card_1_singleton_iff distinct_card One_nat_def)
  qed
  show "tx_rule (\<lambda>t. t = t0) (wrap_io (sql_read (\<lambda>t. length [d \<leftarrow> rabbit_entities t. same_client d x]))) (\<lambda>k t. t = t0 \<and> k = length ?same)"
    by (rule tx_wrap, rule tx_read) simp
  show "tx_rule (\<lambda>t. t = t0 \<and> k = length ?same) (if k = 1 then ret_io () else sql_write (upsert_named x))
      (\<lambda>_ t. entity_view t = put_named (re_vhost x, re_type x, n) (re_classifier x) fs (entity_view t0))" for k
  proof (rule tx_if)
    assume "k = 1"
    then show "tx_rule (\<lambda>t. t = t0 \<and> k = length ?same) (ret_io ())
        (\<lambda>_ t. entity_view t = put_named (re_vhost x, re_type x, n) (re_classifier x) fs (entity_view t0))"
      by (intro tx_ret) (use one known in \<open>auto simp: put_named_def\<close>)
  next
    assume "k \<noteq> 1"
    then show "tx_rule (\<lambda>t. t = t0 \<and> k = length ?same) (sql_write (upsert_named x))
        (\<lambda>_ t. entity_view t = put_named (re_vhost x, re_type x, n) (re_classifier x) fs (entity_view t0))"
      by (intro tx_write) (use one view_upsert [OF i x] in auto)
  qed
qed

lemma tx_delete_named:
  assumes i: "rabbit_inv t0" and x: "re_type x \<noteq> BindingType" "re_name x = Some n"
  shows "tx_rule (\<lambda>t. t = t0) (then_io (when_io (re_type x = ExchangeType) (sql_write (delete_entities (\<lambda>e.
          re_classifier e = re_classifier x \<and> re_type e = BindingType \<and> same_text (re_source e) (re_name x)))))
     (then_io (when_io (re_type x = QueueType) (sql_write (delete_entities (\<lambda>e.
          re_classifier e = re_classifier x \<and> re_type e = BindingType \<and> same_text (re_destination e) (re_name x)))))
       (sql_write (delete_entities (\<lambda>e.
          re_classifier e = re_classifier x \<and> same_text (re_name e) (re_name x) \<and> re_type e = re_type x)))))
     (\<lambda>_ t. entity_view t = drop_named (re_classifier x) (re_type x) n (entity_view t0))"
proof -
  let ?g1 = "\<lambda>e. re_type x = ExchangeType \<and> re_classifier e = re_classifier x \<and> re_type e = BindingType \<and> same_text (re_source e) (re_name x)"
  let ?g2 = "\<lambda>e. re_type x = QueueType \<and> re_classifier e = re_classifier x \<and> re_type e = BindingType \<and> same_text (re_destination e) (re_name x)"
  let ?g3 = "\<lambda>e. re_classifier e = re_classifier x \<and> same_text (re_name e) (re_name x) \<and> re_type e = re_type x"
  have last: "entity_view t = drop_named (re_classifier x) (re_type x) n (entity_view t0)"
    if "rabbit_entities t = [y \<leftarrow> rabbit_entities t0. \<not> ?g1 y \<and> \<not> ?g2 y \<and> \<not> ?g3 y]" for t
    by (rule view_delete [OF i x(2,1) that])
  show ?thesis
    by (intro tx_then [where R = "\<lambda>t. rabbit_entities t = [y \<leftarrow> rabbit_entities t0. \<not> ?g1 y]"]
        tx_then [where R = "\<lambda>t. rabbit_entities t = [y \<leftarrow> rabbit_entities t0. \<not> ?g1 y \<and> \<not> ?g2 y]"] tx_when tx_write last)
      (auto simp: delete_entities_def filter_filter intro!: filter_cong)
qed



text \<open>A queue with the JSON object of the exchange: the broker has it, the table does not get it.\<close>

definition same_object_row :: rabbit_entity where
  "same_object_row = (hd (rabbit_entities (tabs shelf_entities)))\<lparr>re_type := QueueType\<rparr>"


section \<open>A virtual host for every request\<close>

definition accepting :: "'k http_client \<Rightarrow> bool" where
  "accepting http \<longleftrightarrow> (\<forall>q k. hq_method q = PUT \<longrightarrow> (\<exists>r k'. http q k = (Inr r, k') \<and> (hr_code r = 201 \<or> hr_code r = 204)))"

lemma accepted_request:
  assumes "accepting http" "hq_method q = PUT" "201 \<in> set codes" "204 \<in> set codes"
  shows "\<exists>r k'. request_io http q codes k = (Inr r, k')"
proof -
  obtain r k' where "http q k = (Inr r, k')" "hr_code r = 201 \<or> hr_code r = 204"
    using assms(1,2) unfolding accepting_def by blast
  then show ?thesis using assms(3,4)
    by (auto simp: request_io_def DoRequest_def intInSlice_def list_ex_iff)
qed

lemma accepted_vhost:
  assumes "accepting (rh_http h)"
  shows "\<exists>k'. CreateVHost h k = (Inr (), k')"
proof -
  have r: "\<exists>r k'. request_io (rh_http h) (as_admin h PUT p b) codes k = (Inr r, k')" if "201 \<in> set codes" "204 \<in> set codes" for p b codes k
    by (rule accepted_request [OF assms _ that]) (simp add: as_admin_def)
  let ?v = "vhost_name h" and ?u = "vh_user (rh_vhost h)" and ?p = "vh_password (rh_vhost h)"
  obtain r1 k1 where 1: "request_io (rh_http h) (as_admin h PUT (''vhosts/'' @ ?v) (Some (JObj [(''name'', JStr ?v)]))) [201, 204] k = (Inr r1, k1)"
    using r by fastforce
  obtain r2 k2 where 2: "request_io (rh_http h) (as_admin h PUT (''users/'' @ ?u) (Some (user_body ?u ?p))) [201, 200, 204] k1 = (Inr r2, k2)"
    using r by fastforce
  obtain r3 k3 where 3: "request_io (rh_http h) (as_admin h PUT (''users/'' @ ?u) (Some (user_body ?u ?p))) [201, 200, 204] k2 = (Inr r3, k3)"
    using r by fastforce
  obtain r4 k4 where 4: "request_io (rh_http h) (as_admin h PUT (''permissions/'' @ ?v @ ''/'' @ ?u) (Some (permissions_body ?v ?u))) [204, 201, 200] k3 = (Inr r4, k4)"
    using r by fastforce
  show ?thesis unfolding CreateVHost_def CreateVHostAndReturnStatus_def CreateOrUpdateUser_def Let_def
    by (simp only: bind_io_run then_io_run wrap_io_run 1 2 3 4 prod.case sum.case ret_io_run, rule exI, rule refl)
qed

lemma search_run [run_simps]:
  assumes "serves u" "\<not> classifier_IsEmpty cl" "length [v \<leftarrow> vhosts (tabs u). vh_classifier v = cl] \<le> 1"
  shows "dao_FindVhostByClassifier role cl u = (Inr (case [v \<leftarrow> vhosts (tabs u). vh_classifier v = cl] of [] \<Rightarrow> None | v # _ \<Rightarrow> Some v), u)"
proof -
  have m: "vhost_matches role (empty_form\<lparr>sf_classifier := cl\<rparr>) v \<longleftrightarrow> vh_classifier v = cl" for v
    using assms(2) by (auto simp: vhost_matches_def empty_form_def)
  have f: "filter (vhost_matches role (empty_form\<lparr>sf_classifier := cl\<rparr>)) vs = [v \<leftarrow> vs. vh_classifier v = cl]" for vs
    by (rule filter_cong [OF refl m])
  let ?xs = "[v \<leftarrow> vhosts (tabs u). vh_classifier v = cl]"
  have "?xs = [] \<or> length ?xs = 1" using assms(3) by (cases ?xs) auto
  then show ?thesis using assms(1,2)
    by (auto simp: dao_FindVhostByClassifier_def FindVhostWithSearchForm_def bind_io_run wrap_io_run f
        using_db_Inr [OF _ sql_read_serves] serves_facts split: list.split)
qed

lemma no_designator_run [run_simps]:
  assumes "serves u" "\<forall>r \<in> set (rabbit_designators (tabs u)). dg_namespace r \<noteq> ns"
  shows "GetRabbitInstanceDesignatorByNamespace ns u = (Inr None, u)"
proof -
  have "find (\<lambda>r. dg_namespace r = ns) (rabbit_designators (tabs u)) = None" using assms(2) by (auto simp: find_None_iff)
  then have "using_db zero (bind_io (sql_first (\<lambda>t. find (\<lambda>r. dg_namespace r = ns) (rabbit_designators t))) f) u = (Inl RecordNotFound, u)"
    for zero :: "rabbit_instance designator" and f
    using assms(1) by (intro using_db_Inl) (simp_all add: bind_io_run sql_first_serves serves_facts)
  then show ?thesis
    by (simp add: GetRabbitInstanceDesignatorByNamespace_def r_dao_GetRabbitInstanceDesignatorByNamespace_def bind_io_run
        attempt_io_run is_record_not_found_def)
qed

lemma r_default_live [run_simps]:
  assumes "live u" "find ri_default (rabbit_instances (tabs u)) = Some i"
  shows "r_GetDefault u = (Inr (Some i), u)"
proof -
  have "with_tx zero_rabbit (sql_first (\<lambda>t. find ri_default (rabbit_instances t))) u = (Inr i, u)"
    using assms by (intro with_tx_Inr) (simp_all add: sql_first_serves serves_facts)
  then show ?thesis
    by (simp add: r_GetDefault_def r_dao_GetDefaultInstance_def defaultInstance_def bind_io_run attempt_io_run)
qed

definition created_row :: "'k rabbit_env \<Rightarrow> rabbit_instance \<Rightarrow> classifier \<Rightarrow> string option \<Rightarrow> 'k world \<Rightarrow> vhost" where
  "created_row e i cl version u = (case rb_uuid e (broker u) of (password, k) \<Rightarrow>
     case rb_uuid e k of (user, _) \<Rightarrow> (new_vhost i cl version password user)\<lparr>vh_id := next_id (tabs u)\<rparr>)"

lemma create_live:
  assumes u: "live u" and b: "accepting (rb_http e)" and n: "\<forall>v \<in> set (vhosts (tabs u)). vh_id v \<noteq> next_id (tabs u) \<and> vh_classifier v \<noteq> cl"
    and i: "find ri_default (rabbit_instances (tabs u)) = Some i" and cl: "\<not> classifier_IsEmpty cl"
    and d: "\<forall>r \<in> set (rabbit_designators (tabs u)). dg_namespace r \<noteq> c_namespace cl"
  shows "\<exists>k'. create_vhost e [] cl version u = (Inr (False, Some (created_row e i cl version u)),
    u\<lparr>tabs := (tabs u)\<lparr>next_id := next_id (tabs u) + 1, vhosts := vhosts (tabs u) @ [created_row e i cl version u]\<rparr>, broker := k'\<rparr>)"
proof -
  obtain password k1 where 1: "rb_uuid e (broker u) = (password, k1)" by (metis surj_pair)
  obtain user k2 where 2: "rb_uuid e k1 = (user, k2)" by (metis surj_pair)
  let ?v = "new_vhost i cl version password user"
  let ?r = "?v\<lparr>vh_id := next_id (tabs u)\<rparr>"
  let ?t = "(tabs u)\<lparr>next_id := next_id (tabs u) + 1, vhosts := vhosts (tabs u) @ [?r]\<rparr>"
  have r: "created_row e i cl version u = ?r" by (simp add: created_row_def 1 2)
  obtain k3 where 3: "CreateVHost (new_helper e i ?v) k2 = (Inr (), k3)"
    using accepted_vhost [of "new_helper e i ?v" k2] b by (auto simp: new_helper_def NewRabbitHelper_def)
  have s: "serves u" using u by simp
  have ch: "choose_instance [] cl u = (Inr i, u)"
    using no_designator_run [OF s d] r_default_live [OF u i]
    by (simp add: choose_instance_def resolveRabbitInstance_def bind_io_run wrap_io_run)
  have mem: "i \<in> set (rabbit_instances (tabs u))" using i by (auto simp: find_Some_iff)
  have ins: "insert_vhost ?v (tabs u) = Inr (next_id (tabs u), ?t)"
    using n mem by (auto simp: insert_vhost_def list_ex_iff new_vhost_def)
  let ?u2 = "u\<lparr>broker := k2\<rparr>"
  let ?u3 = "u\<lparr>tabs := ?t, broker := k3\<rparr>"
  have "with_tx () (bind_io (map_err_io unique_as_conflict (sql_write (insert_vhost ?v)))
      (\<lambda>vid. on_broker (CreateVHost (new_helper e i ?v)))) ?u2 = (Inr (), ?u3)"
    by (rule with_tx_Inr) (use u ins 3 in \<open>simp_all add: bind_io_run map_err_io_def sql_write_live on_broker_def serves_facts\<close>)
  then have reg: "InsertVhostRegistration ?v (\<lambda>reg. on_broker (CreateVHost (new_helper e i ?v))) ?u2 = (Inr (), ?u3)"
    by (simp add: InsertVhostRegistration_def wrap_io_run)
  have car: "CreateAndRegisterVHost e i cl version u = (Inr \<lparr>vr_cnn = FormatCnnUrl (new_helper e i ?v) (vh_vhost ?v), vr_username = vh_user ?v, vr_password = vh_password ?v\<rparr>, ?u3)"
    using reg by (simp add: CreateAndRegisterVHost_def CompactUuid_def bind_io_run then_io_run on_broker_def 1 2 Let_def)
  have only: "[v \<leftarrow> vhosts (tabs ?u3). vh_classifier v = cl] = [?r]"
    using n by (auto simp: filter_empty_conv new_vhost_def)
  have s3: "serves ?u3" using s by simp
  have "dao_FindVhostByClassifier (rb_role e) cl ?u3 = (Inr (Some ?r), ?u3)"
    using search_run [OF s3 cl, of "rb_role e"] by (simp only: only) simp
  with ch car show ?thesis unfolding r
    by (intro exI [of _ k3]) (simp add: create_vhost_def bind_io_run then_io_run)
qed


lemma filter_key: "distinct (map f xs) \<Longrightarrow> v \<in> set xs \<Longrightarrow> [u \<leftarrow> xs. f u = f v] = [v]"
proof (induction xs)
  case (Cons a xs)
  show ?case
  proof (cases "v = a")
    case True
    then have "[u \<leftarrow> xs. f u = f v] = []" using Cons.prems(1) by (auto simp: filter_empty_conv image_iff)
    with True show ?thesis by simp
  next
    case False
    then have "v \<in> set xs" "f a \<noteq> f v" using Cons.prems by auto
    with Cons show ?thesis by simp
  qed
qed simp

lemma found_body:
  assumes u: "live u" and v: "[v \<leftarrow> vhosts (tabs u). vh_classifier v = cl] = [v]" and cl: "\<not> classifier_IsEmpty cl"
  shows "get_or_create_vhost e [] cl version u = (Inr (True, Some v), u)"
  using search_run [of u cl "rb_role e"] u v cl by (simp add: get_or_create_vhost_def bind_io_run)

text \<open>The transaction around a request, on a healthy database.\<close>

lemma locked_run:
  assumes w: "healthy w" and run: "f (enter_tx w) = (Inr a, u)" and u: "live u" "committed u = tabs w" "composites (tabs u) = composites (tabs w)"
  shows "locked z f w = (Inr a, u\<lparr>txc := None\<rparr>)"
  unfolding locked_def
proof (rule with_tx_healthy [OF w _ u(1,2)])
  show "then_io (wrap_io (sql_read (\<lambda>_. ()))) f (enter_tx w) = (Inr a, u)"
    using w run by (simp add: then_io_run wrap_io_run sql_read_serves)
  show "deferred_ok (tabs w) (tabs u)" by (rule deferred_ok_same) (rule u(3))
qed

lemma request_allowed:
  assumes "ctx_request c = Some rc" "CheckAllowedNamespaces cl [rc_namespace rc] = Inr ()"
  shows "GetOrCreateVhost e c iid cl version w = getOrCreateVhostInternal e iid cl version w"
  using assms by (simp add: GetOrCreateVhost_def CheckSecurityForSingleNamespace_def bind_io_run then_io_run wrap_io_run)

lemma found_again:
  assumes "healthy w" "[v \<leftarrow> vhosts (tabs w). vh_classifier v = cl] = [v]" "\<not> classifier_IsEmpty cl"
  shows "getOrCreateVhostInternal e [] cl version w = (Inr (True, Some v), w)"
proof -
  have "getOrCreateVhostInternal e [] cl version w = (Inr (True, Some v), enter_tx w\<lparr>txc := None\<rparr>)"
    unfolding getOrCreateVhostInternal_def
    by (rule locked_run [OF assms(1)]) (use assms in \<open>simp_all add: found_body\<close>)
  then show ?thesis using assms(1) by simp
qed



lemma shelf_accepts: "accepting (rb_http shelf_env)"
  by (auto simp: accepting_def shelf_env_def shelf_http_def reply_def)


end
