(* ===== verification/Maas_CR.thy ===== *)
theory Maas_CR
  imports Maas_Frames
begin

text \<open>
  Custom resources (service/cr): a declaration is applied by the handler of its kind; one whose
  dependency is missing waits in a list, which is retried whenever another declaration of its
  namespace has been applied.

  Decoding a specification into the type of its handler (mapstructure, then the validator) is a
  parameter; the adapters, which put the name and namespace of the resource into a configuration
  object, and the dispatch to the configurator are modelled.
\<close>

section \<open>Data access (dao.go)\<close>

text \<open>
  The list has at most one entry for a name and namespace; an insert that would make a second
  does nothing.
\<close>

definition wait_clash :: "wait_row \<Rightarrow> wait_row \<Rightarrow> bool" where
  "wait_clash x y = (wt_id x = wt_id y \<or>
     rs_name (wt_resource x) = rs_name (wt_resource y) \<and> rs_namespace (wt_resource x) = rs_namespace (wt_resource y))"

definition insert_wait :: "wait_row \<Rightarrow> tables \<Rightarrow> (nat option \<times> tables) outcome" where
  "insert_wait x t =
     (let row = x\<lparr>wt_id := (if wt_id x = 0 then next_id t else wt_id x)\<rparr> in
      if length (wt_namespace x) > 63 then Inl Generic
      else if list_ex (wait_clash row) (waits t) then Inr (None, t)
      else Inr (Some (wt_id row), t\<lparr>next_id := next_id t + 1, waits := waits t @ [row]\<rparr>))"

definition update_wait :: "nat \<Rightarrow> (wait_row \<Rightarrow> wait_row) \<Rightarrow> tables \<Rightarrow> (wait_row list \<times> tables) outcome" where
  "update_wait n f t = Inr (map f [x \<leftarrow> waits t. wt_id x = n],
     t\<lparr>waits := map (\<lambda>x. if wt_id x = n then f x else x) (waits t)\<rparr>)"

definition delete_waits :: "(wait_row \<Rightarrow> bool) \<Rightarrow> tables \<Rightarrow> (unit \<times> tables) outcome" where
  "delete_waits P t = Inr ((), t\<lparr>waits := [x \<leftarrow> waits t. \<not> P x]\<rparr>)"

definition zero_wait :: wait_row where
  "zero_wait = \<lparr>wt_id = 0, wt_resource = \<lparr>rs_api_version = [], rs_kind = [], rs_sub_kind = [], rs_name = [], rs_namespace = [], rs_spec = []\<rparr>,
     wt_namespace = [], wt_reason = Generic, wt_status = NotStarted\<rparr>"

definition FindByNamespaceAndStatus :: "string \<Rightarrow> wait_status list \<Rightarrow> ('k, wait_row list) dbio" where
  "FindByNamespaceAndStatus ns statuses =
     wrap_io (using_db [] (sql_read (\<lambda>t. [x \<leftarrow> waits t. wt_namespace x = ns \<and> wt_status x \<in> set statuses])))"

definition GetByTrackingId :: "nat \<Rightarrow> ('k, wait_row option) dbio" where
  "GetByTrackingId n = wrap_io (using_db None (sql_read (\<lambda>t. find (\<lambda>x. wt_id x = n) (waits t))))"

text \<open>
  When nothing was inserted the entry is looked up by the whole resource; when the stored one
  differs, the entry of the caller stays as it was, without a number.
\<close>

definition wait_Create :: "wait_row \<Rightarrow> ('k, wait_row) dbio" where
  "wait_Create x = wrap_io (with_tx x
     (bind_io (wrap_io (sql_write (insert_wait x))) (\<lambda>inserted.
        case inserted of
          Some n \<Rightarrow> ret_io (x\<lparr>wt_id := n\<rparr>)
        | None \<Rightarrow> bind_io (sql_read (\<lambda>t. find (\<lambda>y. wt_resource y = wt_resource x) (waits t))) (\<lambda>found.
            ret_io (case found of None \<Rightarrow> x | Some y \<Rightarrow> y)))))"

definition update_one :: "nat \<Rightarrow> (wait_row \<Rightarrow> wait_row) \<Rightarrow> ('k, wait_row) dbio" where
  "update_one n f = wrap_io (with_tx zero_wait
     (bind_io (sql_write (update_wait n f)) (\<lambda>rows. case rows of [] \<Rightarrow> raise_io BadRequest | x # _ \<Rightarrow> ret_io x)))"

definition UpdateStatusAndReason :: "nat \<Rightarrow> wait_status \<Rightarrow> err \<Rightarrow> ('k, wait_row) dbio" where
  "UpdateStatusAndReason n st reason = update_one n (\<lambda>x. x\<lparr>wt_status := st, wt_reason := reason\<rparr>)"

definition UpdateStatus :: "nat \<Rightarrow> wait_status \<Rightarrow> ('k, wait_row) dbio" where
  "UpdateStatus n st = update_one n (\<lambda>x. x\<lparr>wt_status := st\<rparr>)"

definition DeleteByNamespace :: "string \<Rightarrow> ('k, unit) dbio" where
  "DeleteByNamespace ns = wrap_io (with_tx () (wrap_io (sql_write (delete_waits (\<lambda>x. wt_namespace x = ns)))))"

definition DeleteByNameAndNamespace :: "string \<Rightarrow> string \<Rightarrow> ('k, unit) dbio" where
  "DeleteByNameAndNamespace name ns = wrap_io (with_tx ()
     (wrap_io (sql_write (delete_waits (\<lambda>x. rs_name (wt_resource x) = name \<and> wt_namespace x = ns)))))"

section \<open>Handlers (kafka.go, rabbit.go)\<close>

datatype cr_action = ActionCreate | ActionDelete

datatype cr_handler =
    HandleTopicConfiguration | HandleTopicTemplateConfiguration | HandleLazyTopicConfiguration | HandleTenantTopicConfiguration
  | HandleDeleteTopicConfiguration | HandleDeleteTopicTemplateConfiguration | HandleDeleteTenantTopicConfiguration
  | HandleVhostConfiguration

text \<open>
  \<open>KafkaTopicConfig\<close>: the fields of the specification as they go into the request, the template
  once more as the pointer it is checked by, and the name of the classifier.
\<close>

record kafka_topic_config =
  kt_spec :: reg_dto
  kt_on_exists :: "on_exists option"
  kt_template :: "string option"
  kt_classifier :: "string option"

datatype 's cr_spec = TopicSpec kafka_topic_config | TemplateSpec topic_settings | VhostSpec 's

definition named :: "string \<Rightarrow> string \<Rightarrow> classifier" where
  "named name ns = \<lparr>c_name = name, c_namespace = ns, c_tenant = []\<rparr>"

definition adaptTopicConfig :: "kafka_topic_config \<Rightarrow> string \<Rightarrow> string \<Rightarrow> topic_config" where
  "adaptTopicConfig cfg name ns = \<lparr>cfg_on_exists = kt_on_exists cfg,
     cfg_spec = (kt_spec cfg)\<lparr>rq_classifier := named (case kt_classifier cfg of None \<Rightarrow> name | Some n \<Rightarrow> n) ns\<rparr>\<rparr>"

definition adaptTopicTemplateConfig :: "topic_settings \<Rightarrow> string \<Rightarrow> template_config" where
  "adaptTopicTemplateConfig settings name = \<lparr>tc_name = name, tc_settings = settings\<rparr>"

definition adaptDeleteTopicConfig :: "string \<Rightarrow> string \<Rightarrow> delete_criteria" where
  "adaptDeleteTopicConfig name ns = \<lparr>dl_classifier = named name ns, dl_leave_intact = False\<rparr>"

definition checkTopicTemplate :: "kafka_topic_config \<Rightarrow> string \<Rightarrow> ('k, unit) dbio" where
  "checkTopicTemplate cfg ns =
     (case kt_template cfg of
        None \<Rightarrow> ret_io ()
      | Some name \<Rightarrow> bind_io (FindTopicTemplateByNameAndNamespace name ns) (\<lambda>tmpl.
          case tmpl of None \<Rightarrow> raise_io DependencyNotFound | Some _ \<Rightarrow> ret_io ()))"

text \<open>The virtual host of a resource: its adapter makes a configuration of the specification, the name and the namespace.\<close>

record ('k, 's, 'v) cr_env =
  ce_helper :: "'k kafka_helper"
  ce_rabbit :: "('k, 'v) rabbit_ops"
  ce_decode :: "cr_handler \<Rightarrow> string \<Rightarrow> 's cr_spec option"
  ce_vhost :: "'s \<Rightarrow> string \<Rightarrow> string \<Rightarrow> 'v"

fun handled :: "('k, 's, 'v) cr_env \<Rightarrow> cr_handler \<Rightarrow> 's cr_spec \<Rightarrow> string \<Rightarrow> string \<Rightarrow> 'v payload option" where
  "handled env HandleTopicConfiguration (TopicSpec cfg) name ns = Some (Topic (adaptTopicConfig cfg name ns))"
| "handled env HandleLazyTopicConfiguration (TopicSpec cfg) name ns = Some (LazyTopic (adaptTopicConfig cfg name ns))"
| "handled env HandleTenantTopicConfiguration (TopicSpec cfg) name ns = Some (TenantTopic (adaptTopicConfig cfg name ns))"
| "handled env HandleTopicTemplateConfiguration (TemplateSpec s) name ns = Some (TopicTemplate (adaptTopicTemplateConfig s name))"
| "handled env HandleDeleteTopicConfiguration (TopicSpec cfg) name ns = Some (TopicDelete (Some (adaptDeleteTopicConfig name ns)))"
| "handled env HandleDeleteTenantTopicConfiguration (TopicSpec cfg) name ns = Some (TenantTopicDelete (Some (adaptDeleteTopicConfig name ns)))"
| "handled env HandleDeleteTopicTemplateConfiguration (TemplateSpec s) name ns = Some (TopicTemplateDelete (Some name))"
| "handled env HandleVhostConfiguration (VhostSpec v) name ns = Some (Vhost (ce_vhost env v name ns))"
| "handled env _ _ name ns = None"

text \<open>Topics, lazy topics and tenant topics have their template checked first.\<close>

definition precheck :: "cr_handler \<Rightarrow> 's cr_spec \<Rightarrow> string \<Rightarrow> ('k, unit) dbio" where
  "precheck hnd spec ns =
     (case spec of
        TopicSpec cfg \<Rightarrow>
          if hnd \<in> {HandleTopicConfiguration, HandleLazyTopicConfiguration, HandleTenantTopicConfiguration}
          then checkTopicTemplate cfg ns else ret_io ()
      | _ \<Rightarrow> ret_io ())"

definition run_handler :: "('k, 's, 'v) cr_env \<Rightarrow> ctx \<Rightarrow> cr_handler \<Rightarrow> custom_resource \<Rightarrow> ('k, config_result) dbio" where
  "run_handler env c hnd res =
     (case ce_decode env hnd (rs_spec res) of
        None \<Rightarrow> raise_io BadRequest
      | Some spec \<Rightarrow>
          then_io (precheck hnd spec (rs_namespace res))
            (case handled env hnd spec (rs_name res) (rs_namespace res) of
               None \<Rightarrow> raise_io BadRequest
             | Some p \<Rightarrow> apply_payload (ce_helper env) (ce_rabbit env) c (rs_namespace res) p))"

section \<open>Application (applier.go)\<close>

definition core_nc_v1 :: string where "core_nc_v1 = ''core.netcracker.com/v1''"

definition handler_registry :: "((string \<times> string \<times> cr_action) \<times> cr_handler) list" where
  "handler_registry =
     [((core_nc_v1, ''Topic'', ActionCreate), HandleTopicConfiguration),
      ((core_nc_v1, ''TopicTemplate'', ActionCreate), HandleTopicTemplateConfiguration),
      ((core_nc_v1, ''LazyTopic'', ActionCreate), HandleLazyTopicConfiguration),
      ((core_nc_v1, ''TenantTopic'', ActionCreate), HandleTenantTopicConfiguration),
      ((core_nc_v1, ''Topic'', ActionDelete), HandleDeleteTopicConfiguration),
      ((core_nc_v1, ''TopicTemplate'', ActionDelete), HandleDeleteTopicTemplateConfiguration),
      ((core_nc_v1, ''TenantTopic'', ActionDelete), HandleDeleteTenantTopicConfiguration),
      ((core_nc_v1, ''VHost'', ActionCreate), HandleVhostConfiguration)]"

definition getHandlerForCustomResource :: "custom_resource \<Rightarrow> cr_action \<Rightarrow> cr_handler outcome" where
  "getHandlerForCustomResource res a =
     (case map_of handler_registry (rs_api_version res, rs_sub_kind res, a) of
        None \<Rightarrow> Inl BadRequest | Some hnd \<Rightarrow> Inr hnd)"

definition putToWaitList :: "custom_resource \<Rightarrow> string \<Rightarrow> err \<Rightarrow> ('k, wait_row) dbio" where
  "putToWaitList res ns reason = wait_Create
     \<lparr>wt_id = 0, wt_resource = res, wt_namespace = ns, wt_reason = reason, wt_status = InProgress\<rparr>"

text \<open>
  One entry of the list.  After a failure other than a missing dependency the entry is marked
  failed, and then, as after a success, completed.
\<close>

definition retry :: "('k, 's, 'v) cr_env \<Rightarrow> ctx \<Rightarrow> wait_row \<Rightarrow> ('k, unit) dbio" where
  "retry env c x =
     bind_io (lift_io (getHandlerForCustomResource (wt_resource x) ActionCreate)) (\<lambda>hnd.
     bind_io (attempt_io (run_handler env c hnd (wt_resource x))) (\<lambda>res.
       if res = Inl DependencyNotFound then ret_io ()
       else then_io (case res of Inl e \<Rightarrow> then_io (UpdateStatusAndReason (wt_id x) Failed e) (ret_io ()) | Inr _ \<Rightarrow> ret_io ())
          (then_io (UpdateStatus (wt_id x) Completed) (ret_io ()))))"

definition applyFromWaitList :: "('k, 's, 'v) cr_env \<Rightarrow> ctx \<Rightarrow> string \<Rightarrow> ('k, unit) dbio" where
  "applyFromWaitList env c ns =
     bind_io (FindByNamespaceAndStatus ns [InProgress]) (\<lambda>entries. for_each (retry env c) entries)"

definition applier_apply :: "('k, 's, 'v) cr_env \<Rightarrow> ctx \<Rightarrow> custom_resource \<Rightarrow> cr_action \<Rightarrow> ('k, wait_row option) dbio" where
  "applier_apply env c res a =
     bind_io (lift_io (getHandlerForCustomResource res a)) (\<lambda>hnd.
     bind_io (attempt_io (run_handler env c hnd res)) (\<lambda>r.
       case r of
         Inl e \<Rightarrow> if e = DependencyNotFound then bind_io (putToWaitList res (rs_namespace res) e) (\<lambda>x. ret_io (Some x)) else raise_io e
       | Inr _ \<Rightarrow> then_io (applyFromWaitList env c (rs_namespace res)) (ret_io None)))"

section \<open>Service (service.go)\<close>

definition checkNamespacePermission :: "ctx \<Rightarrow> string \<Rightarrow> ('k, unit) dbio" where
  "checkNamespacePermission c ns = (if UserHasAccessToNamespace (ctx_security c) ns then ret_io () else raise_io AuthError)"

definition cr_Apply :: "('k, 's, 'v) cr_env \<Rightarrow> ctx \<Rightarrow> custom_resource \<Rightarrow> cr_action \<Rightarrow> ('k, wait_row option) dbio" where
  "cr_Apply env c res a =
     then_io (checkNamespacePermission c (rs_namespace res))
     (bind_io (applier_apply env c res a) (\<lambda>entry.
        if entry = None then then_io (DeleteByNameAndNamespace (rs_name res) (rs_namespace res)) (ret_io None)
        else ret_io entry))"

definition cr_GetStatus :: "ctx \<Rightarrow> nat \<Rightarrow> ('k, wait_row) dbio" where
  "cr_GetStatus c n =
     bind_io (GetByTrackingId n) (\<lambda>found.
       case found of
         None \<Rightarrow> raise_io NotFound
       | Some x \<Rightarrow> then_io (checkNamespacePermission c (wt_namespace x)) (ret_io x))"

definition cr_Terminate :: "ctx \<Rightarrow> nat \<Rightarrow> ('k, wait_row) dbio" where
  "cr_Terminate c n =
     bind_io (UpdateStatus n Terminated) (\<lambda>x.
       then_io (checkNamespacePermission c (wt_namespace x)) (ret_io x))"

definition cr_CleanupNamespace :: "string \<Rightarrow> ('k, unit) dbio" where
  "cr_CleanupNamespace ns = wrap_io (DeleteByNamespace ns)"

section \<open>What the handlers leave alone\<close>

text \<open>
  The operations on virtual hosts are parameters: they keep to their own tables and leave the
  surroundings of the request as they are.
\<close>

definition rabbit_minds_own :: "('k, 'v) rabbit_ops \<Rightarrow> bool" where
  "rabbit_minds_own r \<longleftrightarrow> (\<forall>J b i d ns c v.
     keeps (undisturbed J b i) (ro_designator r d ns) \<and> keeps (undisturbed J b i) (ro_vhost r c v ns))"

lemma template_check_keep [keeps_intros]: "keeps (undisturbed J b i) (checkTopicTemplate cfg ns)"
  unfolding checkTopicTemplate_def by (intro keeps_intros)

lemma precheck_keep [keeps_intros]: "keeps (undisturbed J b i) (precheck hnd spec ns)"
  by (cases spec) (simp_all add: precheck_def, (intro keeps_intros conjI impI)+)

lemma handler_keep [keeps_intros]:
  assumes "rabbit_minds_own (ce_rabbit env)"
  shows "keeps (undisturbed J b i) (run_handler env c hnd res)"
  unfolding run_handler_def using assms [unfolded rabbit_minds_own_def]
  by (intro keeps_intros payload_keep) blast+

text \<open>In particular whatever holds of the wait list.\<close>

abbreviation waits_fixed :: "(wait_row list \<Rightarrow> bool) \<Rightarrow> 'k world \<Rightarrow> bool" where
  "waits_fixed J \<equiv> all_tabs (\<lambda>t. J (waits t))"

lemma waits_handler [keeps_intros]:
  assumes "rabbit_minds_own (ce_rabbit env)"
  shows "keeps (waits_fixed J) (run_handler env c hnd res)"
proof (rule keepsI)
  fix w r w'
  assume w: "waits_fixed J w" and run: "run_handler env c hnd res w = (r, w')"
  have "undisturbed (\<lambda>t. J (waits t)) (master_alive w', cache w') (txc w' \<noteq> None) w'"
    using keepsD [OF handler_keep [OF assms] run, of "\<lambda>t. J (waits t)" "(master_alive w, cache w)" "txc w \<noteq> None"] w
    by (simp add: undisturbed_def all_tabs_def)
  then show "waits_fixed J w'" by (simp add: undisturbed_def all_tabs_def)
qed

section \<open>The wait list stays well formed\<close>

definition wait_key :: "wait_row \<Rightarrow> string \<times> string" where
  "wait_key x = (rs_name (wt_resource x), rs_namespace (wt_resource x))"

definition wait_ok :: "wait_row \<Rightarrow> bool" where
  "wait_ok x \<longleftrightarrow> wt_namespace x = rs_namespace (wt_resource x) \<and> wt_status x \<noteq> NotStarted \<and>
     (wt_status x = InProgress \<longrightarrow> wt_reason x = DependencyNotFound)"

definition waits_ok :: "wait_row list \<Rightarrow> bool" where
  "waits_ok ws \<longleftrightarrow> distinct (map wt_id ws) \<and> distinct (map wait_key ws) \<and> list_all wait_ok ws"

lemma waits_ok_filter: "waits_ok ws \<Longrightarrow> waits_ok (filter P ws)"
  by (auto simp: waits_ok_def list_all_iff distinct_map inj_on_def)

lemma waits_ok_update:
  assumes "waits_ok ws" and "\<And>x. wait_ok x \<Longrightarrow> wait_ok (f x) \<and> wt_id (f x) = wt_id x \<and> wait_key (f x) = wait_key x"
  shows "waits_ok (map (\<lambda>x. if wt_id x = n then f x else x) ws)"
proof -
  have "map wt_id (map (\<lambda>x. if wt_id x = n then f x else x) ws) = map wt_id ws"
    "map wait_key (map (\<lambda>x. if wt_id x = n then f x else x) ws) = map wait_key ws"
    using assms by (auto simp: waits_ok_def list_all_iff)
  moreover have "list_all wait_ok (map (\<lambda>x. if wt_id x = n then f x else x) ws)"
    using assms by (auto simp: waits_ok_def list_all_iff)
  ultimately show ?thesis using assms(1) unfolding waits_ok_def by presburger
qed

lemma waits_ok_insert:
  "waits_ok ws \<Longrightarrow> wait_ok x \<Longrightarrow> \<not> list_ex (wait_clash x) ws \<Longrightarrow> waits_ok (ws @ [x])"
  by (auto simp: waits_ok_def wait_clash_def wait_key_def list_ex_iff)

lemma inv_insert [keeps_intros]: "wait_ok x \<Longrightarrow> keeps (waits_fixed waits_ok) (sql_write (insert_wait x))"
  by (rule keeps_sql_write_inv)
    (auto simp: insert_wait_def Let_def split: if_splits intro!: waits_ok_insert, simp_all add: wait_ok_def)

lemma inv_delete [keeps_intros]: "keeps (waits_fixed waits_ok) (sql_write (delete_waits P))"
  by (rule keeps_sql_write_inv) (auto simp: delete_waits_def intro: waits_ok_filter)

lemma inv_update [keeps_intros]:
  "(\<And>x. wait_ok x \<Longrightarrow> wait_ok (f x) \<and> wt_id (f x) = wt_id x \<and> wait_key (f x) = wait_key x) \<Longrightarrow>
   keeps (waits_fixed waits_ok) (update_one n f)"
  unfolding update_one_def
  by (intro keeps_wrap keeps_with_tx_inv keeps_bind keeps_sql_write_inv, auto simp: update_wait_def intro!: waits_ok_update)
    (intro keeps_intros)

lemma inv_statuses [keeps_intros]:
  "keeps (waits_fixed waits_ok) (UpdateStatus n Completed)" "keeps (waits_fixed waits_ok) (UpdateStatus n Terminated)"
  "keeps (waits_fixed waits_ok) (UpdateStatusAndReason n Failed e)"
  unfolding UpdateStatus_def UpdateStatusAndReason_def by (intro keeps_intros; simp add: wait_ok_def wait_key_def)+

lemma inv_retry [keeps_intros]:
  "rabbit_minds_own (ce_rabbit env) \<Longrightarrow> keeps (waits_fixed waits_ok) (retry env c x)"
  unfolding retry_def by (intro keeps_intros)

lemma inv_requests [keeps_intros]:
  assumes "rabbit_minds_own (ce_rabbit env)"
  shows "keeps (waits_fixed waits_ok) (cr_Apply env c res a)" "keeps (waits_fixed waits_ok) (cr_GetStatus c n)"
    "keeps (waits_fixed waits_ok) (cr_Terminate c n)" "keeps (waits_fixed waits_ok) (cr_CleanupNamespace ns)"
  unfolding cr_Apply_def applier_apply_def applyFromWaitList_def FindByNamespaceAndStatus_def putToWaitList_def wait_Create_def
    cr_GetStatus_def GetByTrackingId_def cr_Terminate_def cr_CleanupNamespace_def DeleteByNamespace_def
    DeleteByNameAndNamespace_def checkNamespacePermission_def
  by (intro keeps_intros assms; simp add: wait_ok_def)+

text \<open>
  The requests on custom resources, between any other requests and failures, which leave the list
  alone and happen outside of every transaction.
\<close>

inductive cr_step :: "('k, 's, 'v) cr_env \<Rightarrow> 'k world \<Rightarrow> 'k world \<Rightarrow> bool" for env where
  cr_around: "waits (tabs w') = waits (tabs w) \<Longrightarrow> txc w' = None \<Longrightarrow> cr_step env w w'"
| cr_request: "w' \<in> {snd (cr_Apply env c res a w), snd (cr_GetStatus c n w), snd (cr_Terminate c n w), snd (cr_CleanupNamespace ns w)} \<Longrightarrow>
    cr_step env w w'"

inductive cr_reachable :: "('k, 's, 'v) cr_env \<Rightarrow> 'k world \<Rightarrow> bool" for env where
  cr_start: "waits (tabs w) = [] \<Longrightarrow> txc w = None \<Longrightarrow> cr_reachable env w"
| cr_more: "cr_reachable env w \<Longrightarrow> cr_step env w w' \<Longrightarrow> cr_reachable env w'"

lemma cr_reachable_inv:
  assumes "cr_reachable env w" and r: "rabbit_minds_own (ce_rabbit env)"
  shows "waits_fixed waits_ok w"
  using assms(1)
proof induction
  case (cr_start w)
  then show ?case by (simp add: all_tabs_def committed_def waits_ok_def)
next
  case (cr_more w w')
  from cr_more(2) show ?case
  proof cases
    case cr_around
    with cr_more(3) show ?thesis by (simp add: all_tabs_def committed_def)
  qed (auto intro!: keeps_snd [of "waits_fixed waits_ok" _ w, OF _ cr_more(3)] inv_requests r)
qed

section \<open>Retrying\<close>

text \<open>
  What a pass over the list may make of one of its rows: a row that is not waiting stays as it
  is; one that is waiting stays too, or is completed, perhaps with the error that was met; when
  the pass itself failed, the row it failed on may be left as failed.
\<close>

inductive retried :: "bool \<Rightarrow> wait_row \<Rightarrow> wait_row \<Rightarrow> bool" where
  stays_waiting: "retried failed x x"
| completed: "retried failed x (x\<lparr>wt_status := Completed\<rparr>)"
| completed_with: "retried failed x (x\<lparr>wt_status := Completed, wt_reason := e\<rparr>)"
| left_failed: "retried True x (x\<lparr>wt_status := Failed, wt_reason := e\<rparr>)"

lemma retried_both: "retried b x (x\<lparr>wt_reason := e, wt_status := Completed\<rparr>)"
  using completed_with [of b x e] by (cases x) simp

lemma retried_id: "retried b x y \<Longrightarrow> wt_id y = wt_id x"
  by (auto elim: retried.cases)

text \<open>A step of the list at the rows with the given numbers.\<close>

definition pass_of :: "bool \<Rightarrow> nat set \<Rightarrow> wait_row list \<Rightarrow> wait_row list \<Rightarrow> bool" where
  "pass_of failed ns xs ys \<longleftrightarrow> list_all2 (\<lambda>x y. if wt_id x \<in> ns then retried failed x y else y = x) xs ys"

lemma pass_refl: "pass_of b ns xs xs"
  by (auto simp: pass_of_def list_all2_same intro: retried.intros)

lemma pass_append:
  assumes "pass_of False ns xs ys" "pass_of b ms ys zs" "ns \<inter> ms = {}"
  shows "pass_of b (ns \<union> ms) xs zs"
  unfolding pass_of_def
proof (rule list_all2_trans [OF _ assms(1,2) [unfolded pass_of_def]])
  fix x y z
  assume 1: "if wt_id x \<in> ns then retried False x y else y = x" and 2: "if wt_id y \<in> ms then retried b y z else z = y"
  have "retried b x y" if "retried False x y" using that by (cases rule: retried.cases) (auto intro: retried.intros)
  moreover have "wt_id y = wt_id x" using 1 retried_id by (auto split: if_splits)
  ultimately show "if wt_id x \<in> ns \<union> ms then retried b x z else z = x"
    using 1 2 assms(3) by (auto split: if_splits)
qed

lemma pass_weaken: "pass_of False ns xs ys \<Longrightarrow> pass_of b ns xs ys"
  unfolding pass_of_def
  by (erule list_all2_mono) (auto elim!: retried.cases intro: retried.intros split: if_splits)

lemma pass_map: "(\<And>x. retried b x (f x)) \<Longrightarrow> pass_of b {n} xs (map (\<lambda>x. if wt_id x = n then f x else x) xs)"
  by (auto simp: pass_of_def list_all2_conv_all_nth)

lemma pass_map2:
  assumes "\<And>x. wt_id (f x) = wt_id x" "\<And>x. retried b x (g (f x))"
  shows "pass_of b {n} xs (map (\<lambda>x. if wt_id (if wt_id x = n then f x else x) = n then g (if wt_id x = n then f x else x) else (if wt_id x = n then f x else x)) xs)"
  using assms by (auto simp: pass_of_def list_all2_conv_all_nth)

lemma update_one_effect:
  assumes run: "update_one n f w = (r, w')" and w: "txc w = None" "master_alive w"
  shows "txc w' = None \<and> master_alive w' \<and>
    waits (tabs w') = (if isl r then waits (tabs w) else map (\<lambda>x. if wt_id x = n then f x else x) (waits (tabs w)))"
proof -
  let ?new = "map (\<lambda>x. if wt_id x = n then f x else x) (waits (tabs w))"
  let ?body = "bind_io (sql_write (update_wait n f)) (\<lambda>rows. case rows of [] \<Rightarrow> raise_io BadRequest | x # _ \<Rightarrow> ret_io x)"
  obtain r1 where 1: "with_tx zero_wait ?body w = (r1, w')" and e: "isl r1 = isl r"
    using run that by (auto simp: update_one_def wrap_io_def map_err_io_def isl_map_sum split: prod.splits)
  have body: "tx_rule (\<lambda>t. waits t = waits (tabs w)) ?body (\<lambda>_ t. waits t = ?new)"
    by (rule tx_bind [where R = "\<lambda>_ t. waits t = ?new"])
      (auto intro!: tx_write tx_ret tx_raise simp: update_wait_def split: list.split)
  have "keeps (alive_is (master_alive w)) (with_tx zero_wait ?body)" by (intro keeps_intros)
  from keepsD [OF this 1] have "master_alive w'" using w by (simp add: alive_is_def)
  with with_tx_sound_alive [OF body w(1) 1] w(2) e show ?thesis by (cases r1) auto
qed

lemma handler_effect:
  assumes r: "rabbit_minds_own (ce_rabbit env)" and run: "run_handler env c hnd res w = (r, w')"
    and w: "txc w = None" "master_alive w"
  shows "txc w' = None \<and> master_alive w' \<and> waits (tabs w') = waits (tabs w)"
  using keepsD [OF handler_keep [OF r] run, of "\<lambda>t. waits t = waits (tabs w)" "(master_alive w, cache w)" False] w
  by (simp add: undisturbed_def committed_def)

lemma retry_effect:
  assumes r: "rabbit_minds_own (ce_rabbit env)" and run: "retry env c x w = (r, w')"
    and w: "txc w = None" "master_alive w"
  shows "txc w' = None \<and> master_alive w' \<and> pass_of (isl r) {wt_id x} (waits (tabs w)) (waits (tabs w'))"
proof (cases "getHandlerForCustomResource (wt_resource x) ActionCreate")
  case (Inl e)
  with run w show ?thesis by (simp add: retry_def bind_io_run lift_io_def pass_refl)
next
  case (Inr hnd)
  obtain r1 w1 where 1: "run_handler env c hnd (wt_resource x) w = (r1, w1)" by (metis surj_pair)
  note w1 = handler_effect [OF r 1 w]
  note run = run [unfolded retry_def bind_io_run lift_io_def Inr attempt_io_def 1 then_io_run UpdateStatus_def UpdateStatusAndReason_def]
  show ?thesis
  proof (cases r1)
    case (Inl e)
    obtain r2 w2 where 2: "update_one (wt_id x) (\<lambda>x. x\<lparr>wt_status := Failed, wt_reason := e\<rparr>) w1 = (r2, w2)" by (metis surj_pair)
    obtain r3 w3 where 3: "update_one (wt_id x) (\<lambda>x. x\<lparr>wt_status := Completed\<rparr>) w2 = (r3, w3)" by (metis surj_pair)
    note u2 = update_one_effect [OF 2] and u3 = update_one_effect [OF 3]
    show ?thesis
    proof (cases "e = DependencyNotFound \<or> e = GoPanic \<or> isl r2")
      case True
      then consider "e = DependencyNotFound" | "e = GoPanic" | "e \<noteq> DependencyNotFound" "e \<noteq> GoPanic" "isl r2" by blast
      then show ?thesis
      proof cases
        case 3
        then obtain e2 where "r2 = Inl e2" by (cases r2) auto
        with 3 have "isl r" "w' = w2" using run 1 Inl 2 by auto
        with 3 w1 u2 show ?thesis by (simp add: pass_refl)
      qed (use run 1 Inl w1 in \<open>auto simp: ret_io_def pass_refl\<close>)
    next
      case False
      then obtain y where "r2 = Inr y" by (cases r2) auto
      with False have "isl r = isl r3" "w' = w3" using run 1 Inl 2 3 by (auto simp: ret_io_def split: sum.splits)
      with False u2 u3 w1 show ?thesis
        by (auto simp: comp_def intro!: pass_map pass_map2 retried_both retried.intros)
    qed
  next
    case (Inr res)
    obtain r3 w3 where 3: "update_one (wt_id x) (\<lambda>x. x\<lparr>wt_status := Completed\<rparr>) w1 = (r3, w3)" by (metis surj_pair)
    note u3 = update_one_effect [OF 3]
    from run 1 Inr 3 u3 w1 show ?thesis
      by (auto simp: ret_io_def pass_refl intro!: pass_map retried.intros split: sum.splits)
  qed
qed

lemma pass_ids: "pass_of b ns xs ys \<Longrightarrow> map wt_id ys = map wt_id xs"
  unfolding pass_of_def
  by (induction rule: list_all2_induct) (auto dest: retried_id split: if_splits)

lemma retries_effect:
  assumes r: "rabbit_minds_own (ce_rabbit env)"
  shows "distinct (map wt_id entries) \<Longrightarrow> txc w = None \<Longrightarrow> master_alive w \<Longrightarrow> for_each (retry env c) entries w = (r, w') \<Longrightarrow>
    txc w' = None \<and> master_alive w' \<and> pass_of (isl r) (wt_id ` set entries) (waits (tabs w)) (waits (tabs w'))"
proof (induction entries arbitrary: w)
  case Nil
  then show ?case by (simp add: ret_io_def pass_refl)
next
  case (Cons x xs)
  obtain r1 w1 where 1: "retry env c x w = (r1, w1)" by (metis surj_pair)
  note e1 = retry_effect [OF r 1 Cons.prems(2,3)]
  show ?case
  proof (cases r1)
    case (Inl e)
    then have p: "pass_of True {wt_id x} (waits (tabs w)) (waits (tabs w1))" and "r = Inl e" "w' = w1"
      using 1 e1 Cons.prems(4) by (auto simp: then_io_run)
    have "pass_of True (insert (wt_id x) N) (waits (tabs w)) (waits (tabs w1))" for N
      using p unfolding pass_of_def by (rule list_all2_mono) (auto intro: retried.intros split: if_splits)
    with e1 \<open>r = Inl e\<close> \<open>w' = w1\<close> show ?thesis by simp
  next
    case (Inr u)
    then have "for_each (retry env c) xs w1 = (r, w')" using 1 Cons.prems(4) by (simp add: then_io_run)
    with Cons.IH [of w1] Cons.prems(1) e1 have i: "txc w' = None \<and> master_alive w' \<and>
        pass_of (isl r) (wt_id ` set xs) (waits (tabs w1)) (waits (tabs w'))" by simp
    have "pass_of False {wt_id x} (waits (tabs w)) (waits (tabs w1))" using e1 Inr by simp
    from pass_append [OF this] i Cons.prems(1) show ?thesis by simp
  qed
qed

text \<open>What a pass over the wait list makes of each row.\<close>

lemma pass_outcomes:
  assumes "rabbit_minds_own (ce_rabbit env)" "txc w = None" "master_alive w" "cache w = None" "distinct (map wt_id (waits (tabs w)))"
    and run: "applyFromWaitList env c ns w = (r, w')"
  shows "list_all2 (\<lambda>x y. if wt_namespace x = ns \<and> wt_status x = InProgress then retried (isl r) x y else y = x)
    (waits (tabs w)) (waits (tabs w'))"
proof -
  let ?q = "\<lambda>t. [x \<leftarrow> waits t. wt_namespace x = ns \<and> wt_status x \<in> set [InProgress]]"
  obtain r1 w1 where 1: "FindByNamespaceAndStatus ns [InProgress] w = (r1, w1)" by (metis surj_pair)
  have f: "txc w1 = None" "master_alive w1" "waits (tabs w1) = waits (tabs w)"
  proof -
    have "keeps (undisturbed J b i) (FindByNamespaceAndStatus ns [InProgress])" for J b i
      unfolding FindByNamespaceAndStatus_def by (intro keeps_intros)
    from keepsD [OF this 1, of "\<lambda>t. waits t = waits (tabs w)" "(master_alive w, cache w)" False] assms(2,3)
    show "txc w1 = None" "master_alive w1" "waits (tabs w1) = waits (tabs w)" by (auto simp: undisturbed_def committed_def)
  qed
  have found: "r1 = Inr entries \<Longrightarrow> entries = ?q (tabs w)" for entries
    using 1 assms(2-4)
    by (auto simp: FindByNamespaceAndStatus_def wrap_io_run using_db_def on_conn_def sql_read_def tx_conn_def kill_tx_def pop_fault_def Let_def
        split: prod.splits sum.splits if_splits list.splits option.splits)
  show ?thesis
  proof (cases r1)
    case (Inl e)
    with run 1 f show ?thesis
      by (auto simp: applyFromWaitList_def bind_io_run list_all2_same intro: retried.intros)
  next
    case (Inr entries)
    then have "for_each (retry env c) (?q (tabs w)) w1 = (r, w')"
      using run 1 found by (simp add: applyFromWaitList_def bind_io_run)
    from retries_effect [OF assms(1) _ f(1,2) this] assms(5) f(3)
    have p: "pass_of (isl r) (wt_id ` set (?q (tabs w))) (waits (tabs w)) (waits (tabs w'))"
      by (simp add: distinct_map inj_on_def)
    have "wt_id x \<in> wt_id ` set (?q (tabs w)) \<longleftrightarrow> wt_namespace x = ns \<and> wt_status x = InProgress" if "x \<in> set (waits (tabs w))" for x
      using that assms(5) by (auto simp: distinct_map inj_on_def)
    then show ?thesis
      using p unfolding pass_of_def by (auto simp: list_all2_conv_all_nth)
  qed
qed

lemma reachable_wait_list:
  assumes "rabbit_minds_own (ce_rabbit env)" "cr_reachable env w"
  shows "distinct (map wt_id (waits (tabs w))) \<and>
    distinct (map (\<lambda>x. (rs_name (wt_resource x), rs_namespace (wt_resource x))) (waits (tabs w))) \<and>
    list_all (\<lambda>x. wt_namespace x = rs_namespace (wt_resource x) \<and> wt_status x \<noteq> NotStarted) (waits (tabs w)) \<and>
    list_all (\<lambda>x. wt_reason x = DependencyNotFound) [x \<leftarrow> waits (tabs w). wt_status x = InProgress]"
  using cr_reachable_inv [OF assms(2,1)]
  by (auto simp: all_tabs_def waits_ok_def wait_ok_def list_all_iff wait_key_def [abs_def])

lemma one_row: "distinct (map f xs) \<Longrightarrow> x \<in> set xs \<Longrightarrow> [y \<leftarrow> xs. f y = f x] = [x]"
  by (induction xs) (auto simp: filter_empty_conv image_iff)

lemma update_one_healthy:
  assumes w: "healthy w" and d: "distinct (map wt_id (waits (tabs w)))" "x \<in> set (waits (tabs w))"
  shows "update_one (wt_id x) f w = (Inr (f x),
    w\<lparr>tabs := (tabs w)\<lparr>waits := map (\<lambda>y. if wt_id y = wt_id x then f y else y) (waits (tabs w))\<rparr>\<rparr>)"
proof -
  have f: "[y \<leftarrow> waits (tabs w). wt_id y = wt_id x] = [x]" by (rule one_row [OF d])
  have "deferred_ok t (t\<lparr>waits := ws\<rparr>)" for t ws by (rule deferred_ok_same) simp
  with w f show ?thesis
    by (simp add: update_one_def wrap_io_run with_tx_healthy bind_io_run sql_write_live update_wait_def ret_io_def)
qed

text \<open>
  A caller without access to the namespace of a waiting resource who asks for its termination
  is refused, but the row of the resource, and no other, is terminated by then.
\<close>

theorem terminate_before_check:
  assumes "healthy w" "distinct (map wt_id (waits (tabs w)))" "x \<in> set (waits (tabs w))"
    and "\<not> UserHasAccessToNamespace (ctx_security c) (wt_namespace x)"
  shows "cr_Terminate c (wt_id x) w = (Inl AuthError,
    w\<lparr>tabs := (tabs w)\<lparr>waits := map (\<lambda>y. if wt_id y = wt_id x then y\<lparr>wt_status := Terminated\<rparr> else y) (waits (tabs w))\<rparr>\<rparr>)"
  using update_one_healthy [OF assms(1-3), of "\<lambda>y. y\<lparr>wt_status := Terminated\<rparr>"] assms(4)
  by (simp add: cr_Terminate_def UpdateStatus_def bind_io_run then_io_run checkNamespacePermission_def raise_io_def)

section \<open>A namespace with one template\<close>

text \<open>The text of a specification is the name of the template the topic asks for.\<close>

definition shop_spec :: "string \<Rightarrow> kafka_topic_config" where
  "shop_spec tmpl = \<lparr>kt_spec = sample_request [] tmpl, kt_on_exists = None, kt_template = (if tmpl = [] then None else Some tmpl),
     kt_classifier = None\<rparr>"

definition shop_decode :: "cr_handler \<Rightarrow> string \<Rightarrow> 's cr_spec option" where
  "shop_decode hnd spec = Some (case hnd of HandleTopicTemplateConfiguration \<Rightarrow> TemplateSpec no_settings | _ \<Rightarrow> TopicSpec (shop_spec spec))"

definition shop_env :: "(string list, unit, unit) cr_env" where
  "shop_env = \<lparr>ce_helper = demo_helper, ce_rabbit = no_rabbit, ce_decode = shop_decode,
     ce_vhost = (\<lambda>v name ns. v)\<rparr>"

definition topic_resource :: "string \<Rightarrow> custom_resource" where
  "topic_resource tmpl = \<lparr>rs_api_version = core_nc_v1, rs_kind = ''MaaS'', rs_sub_kind = ''Topic'', rs_name = ''orders'',
     rs_namespace = ''org'', rs_spec = tmpl\<rparr>"

definition template_resource :: custom_resource where
  "template_resource = \<lparr>rs_api_version = core_nc_v1, rs_kind = ''MaaS'', rs_sub_kind = ''TopicTemplate'', rs_name = ''big'',
     rs_namespace = ''org'', rs_spec = []\<rparr>"

definition namespace_ctx :: "string \<Rightarrow> ctx" where
  "namespace_ctx ns = demo_ctx\<lparr>ctx_security := Some \<lparr>sc_account = Some \<lparr>a_username = ''user'', a_roles = Some [], a_salt = [],
     a_password = [], a_namespace = ns, a_domain_namespaces = []\<rparr>, sc_isolation_disabled = False\<rparr>\<rparr>"

definition shop_waiting :: "string list world" where
  "shop_waiting = snd (cr_Apply shop_env (namespace_ctx ''org'') (topic_resource ''big'') ActionCreate demo_start)"

definition shop_applied :: "string list world" where
  "shop_applied = snd (cr_Apply shop_env (namespace_ctx ''org'') template_resource ActionCreate shop_waiting)"

definition shop_template :: "string list world" where
  "shop_template = snd (run_handler shop_env (namespace_ctx ''org'') HandleTopicTemplateConfiguration template_resource shop_waiting)"

theorem terminate_before_check_witness:
  "fst (cr_Terminate (namespace_ctx ''elsewhere'') 1 shop_waiting) = Inl AuthError \<and>
   map wt_status (waits (tabs (snd (cr_Terminate (namespace_ctx ''elsewhere'') 1 shop_waiting)))) = [Terminated]"
proof -
  let ?c = "namespace_ctx ''elsewhere''"
  have m: "map wt_id (waits (tabs shop_waiting)) = [1]" "map wt_namespace (waits (tabs shop_waiting)) = [''org'']"
    by code_simp+
  then obtain x where x: "waits (tabs shop_waiting) = [x]" "wt_id x = 1" "wt_namespace x = ''org''"
    by (auto simp: map_eq_Cons_conv)
  have "master_alive shop_waiting" "conn shop_waiting = Master" "faults shop_waiting = []" by code_simp+
  moreover have "txc shop_waiting = None" by code_simp
  ultimately have h: "healthy shop_waiting" by (simp add: healthy_def serves_def dead_def tx_conn_def)
  have "\<not> UserHasAccessToNamespace (ctx_security ?c) ''org''" by code_simp
  with terminate_before_check [OF h, of x ?c] x show ?thesis by simp
qed

text \<open>
  A second resource of the same name with another specification is answered with a row in
  progress that has no number and is not in the list.
\<close>

lemma second_specification_lost:
  "map_option wt_id (case_sum (\<lambda>_. None) id (fst (cr_Apply shop_env (namespace_ctx ''org'') (topic_resource ''small'') ActionCreate shop_waiting))) = Some 0 \<and>
   waits (tabs (snd (cr_Apply shop_env (namespace_ctx ''org'') (topic_resource ''small'') ActionCreate shop_waiting))) = waits (tabs shop_waiting)"
  by code_simp

text \<open>
  A newer specification without a template is applied, and then the older one that waited: the
  topic ends with the template of the older one.
\<close>

lemma older_specification_wins:
  "fst (cr_Apply shop_env (namespace_ctx ''org'') (topic_resource []) ActionCreate shop_template) = Inr None \<and>
   map t_template (topics (tabs (snd (cr_Apply shop_env (namespace_ctx ''org'') (topic_resource []) ActionCreate shop_template)))) =
     map (Some \<circ> tt_id) (topic_templates (tabs shop_template))"
  by code_simp

text \<open>
  A completed row answers for every later application of the same resource: with the template
  and the topic gone, the answer is \<open>COMPLETED\<close> and there is no topic.
\<close>

definition shop_emptied :: "string list world" where
  "shop_emptied = shop_applied\<lparr>tabs := (tabs shop_applied)\<lparr>topic_templates := [], topics := [], topic_classifiers := []\<rparr>, broker := []\<rparr>"

lemma completed_without_topic:
  "map_option wt_status (case_sum (\<lambda>_. None) id (fst (cr_Apply shop_env (namespace_ctx ''org'') (topic_resource ''big'') ActionCreate shop_emptied))) = Some Completed \<and>
   topics (tabs (snd (cr_Apply shop_env (namespace_ctx ''org'') (topic_resource ''big'') ActionCreate shop_emptied))) = []"
  by code_simp

end
