(* ===== verification/Maas_Rabbit_Config.thy ===== *)
theory Maas_Rabbit_Config
  imports Maas_Rabbit_Props Maas_CR
begin

text \<open>
  The RabbitMQ half of the configurator (configurator_service.go): the configuration of a virtual
  host and the instance designator.  With them the operations the configurator and the custom
  resources are parametrised by are the service's own, so that what was shown of the wait list
  holds of the program without a hypothesis on RabbitMQ.
\<close>

section \<open>Configuration of a virtual host\<close>

text \<open>\<open>ApplyRabbitConfigReqDto\<close>; this operation does not look at the versioned entities.\<close>

record vhost_spec =
  vs_classifier :: classifier
  vs_instance :: string
  vs_versioned :: "rabbit_entities_dto option"
  vs_entities :: "rabbit_entities_dto option"
  vs_policies :: "json list option"
  vs_deletions :: "rabbit_deletions option"

record rabbit_result =
  ra_vhost :: vhost_response
  ra_registration :: vhost
  ra_entities :: "rabbit_entities_dto option"
  ra_updates :: "update_status list"
  ra_policies :: "json list option"
  ra_deletions :: "(json list \<times> json list \<times> json list \<times> json list) option"

text \<open>The tags of the classifier: its name and its namespace are required.\<close>

definition valid_spec :: "vhost_spec \<Rightarrow> bool" where
  "valid_spec s = (c_name (vs_classifier s) \<noteq> [] \<and> c_namespace (vs_classifier s) \<noteq> [])"

definition apply_sections :: "'k rabbit_env \<Rightarrow> vhost_spec \<Rightarrow> string \<Rightarrow> vhost \<Rightarrow> ('k, rabbit_result) dbio" where
  "apply_sections e s ns v =
     bind_io (GetConnectionUrl e v) (\<lambda>cnn.
     bind_io (case vs_deletions s of None \<Rightarrow> ret_io None | Some rd \<Rightarrow> DeleteEntities e (vs_classifier s) rd) (\<lambda>gone.
     bind_io (case vs_policies s of
         None \<Rightarrow> ret_io None
       | Some ps \<Rightarrow> bind_io (ApplyPolicies e (vs_classifier s) ps) (\<lambda>rs. ret_io (Some rs))) (\<lambda>policies.
     bind_io (case vs_entities s of None \<Rightarrow> ret_io (None, []) | Some en \<Rightarrow> CreateOrUpdateEntitiesV1 e v en) (\<lambda>(made, updates).
     then_io (wrap_io (ProcessExportedVhost e ns))
       (ret_io \<lparr>ra_vhost = \<lparr>vr_cnn = cnn, vr_username = vh_user v, vr_password = vh_password v\<rparr>, ra_registration = v,
          ra_entities = made, ra_updates = updates, ra_policies = policies, ra_deletions = gone\<rparr>)))))"

definition ApplyRabbitConfiguration :: "'k rabbit_env \<Rightarrow> ctx \<Rightarrow> vhost_spec \<Rightarrow> string \<Rightarrow> ('k, rabbit_result) dbio" where
  "ApplyRabbitConfiguration e c s ns =
     (if \<not> valid_spec s then raise_io Generic
      else then_io (lift_io (CheckAllowedNamespaces (vs_classifier s) [ns]))
        (bind_io (GetOrCreateVhost e c (vs_instance s) (vs_classifier s) None) (\<lambda>(found, registration).
         bind_io (deref_io registration) (apply_sections e s ns))))"

definition applyInstanceDesignatorRabbit :: "rabbit_instance designator \<Rightarrow> string \<Rightarrow> ('k, unit) dbio" where
  "applyInstanceDesignatorRabbit d ns = UpsertRabbitInstanceDesignator d ns"

text \<open>
  The operations of the configurator.  The one on all virtual hosts of an aggregated configuration
  goes through the versioned entities of the first blue/green scheme; it is a parameter here, which
  a later theory fills in, and what is shown of the wait list does not depend on it.
\<close>

type_synonym 'k all_vhosts = "ctx \<Rightarrow> string \<Rightarrow> vhost_spec service_config list \<Rightarrow> string \<Rightarrow>
  ('k, (vhost_spec service_config \<times> config_result outcome) list \<times> err option) dbio"

definition rabbit_ops_of :: "'k rabbit_env \<Rightarrow> 'k all_vhosts \<Rightarrow> ('k, vhost_spec) rabbit_ops" where
  "rabbit_ops_of e many = \<lparr>ro_designator = applyInstanceDesignatorRabbit,
     ro_vhost = (\<lambda>c s ns. then_io (ApplyRabbitConfiguration e c s ns) (ret_io ())), ro_vhosts = many\<rparr>"

section \<open>Custom resources of virtual hosts (service/cr/rabbit.go)\<close>

text \<open>
  \<open>RabbitVhostConfigSpec\<close>, its entities being maps.  A section of the deletions that is missing
  becomes an empty one.
\<close>

record vhost_resource =
  vc_instance :: string
  vc_entities :: "(jobject list \<times> jobject list \<times> jobject list) option"
  vc_policies :: "json list option"
  vc_deletions :: "(jobject list \<times> jobject list \<times> jobject list \<times> jobject list) option"
  vc_classifier :: "string option"

definition toSpecMapSlice :: "jobject list \<Rightarrow> json list" where
  "toSpecMapSlice = map JObj"

definition convertEntities :: "jobject list \<times> jobject list \<times> jobject list \<Rightarrow> rabbit_entities_dto" where
  "convertEntities = (\<lambda>(xs, qs, bs). \<lparr>en_exchanges = toSpecMapSlice xs, en_queues = toSpecMapSlice qs, en_bindings = toSpecMapSlice bs\<rparr>)"

definition adaptVhostConfig :: "vhost_resource \<Rightarrow> string \<Rightarrow> string \<Rightarrow> vhost_spec" where
  "adaptVhostConfig r name ns =
     \<lparr>vs_classifier = \<lparr>c_name = (case vc_classifier r of None \<Rightarrow> name | Some n \<Rightarrow> n), c_namespace = ns, c_tenant = []\<rparr>,
      vs_instance = vc_instance r, vs_versioned = None, vs_entities = map_option convertEntities (vc_entities r), vs_policies = vc_policies r,
      vs_deletions = map_option (\<lambda>(xs, qs, bs, ps). \<lparr>rd_exchanges = Some (toSpecMapSlice xs), rd_queues = Some (toSpecMapSlice qs),
        rd_bindings = Some (toSpecMapSlice bs), rd_policies = Some (toSpecMapSlice ps)\<rparr>) (vc_deletions r)\<rparr>"

section \<open>What they leave alone\<close>

lemma undisturbed_vhost_writes [keeps_intros]:
  "keeps (undisturbed J b i) (sql_write (insert_vhost v))" "keeps (undisturbed J b i) (sql_write (delete_vhost n))"
  "keeps (undisturbed J b i) (sql_write (insert_lazy x))" "keeps (undisturbed J b i) (sql_write (set_rabbit_entity x))"
  "keeps (undisturbed J b i) (sql_write (upsert_named x))" "keeps (undisturbed J b i) (sql_write (delete_entities P))"
  "keeps (undisturbed J b i) (sql_write (delete_rabbit_designator ns))"
  "keeps (undisturbed J b i) (sql_write (upsert_rabbit_designator d))"
  "keeps (undisturbed J b i) (sql_write (insert_rabbit_selectors n ss))"
  by (rule undisturbed_write, auto simp: insert_vhost_def delete_vhost_def delete_configs_def insert_lazy_def append_entity_def
      set_rabbit_entity_def upsert_named_def delete_entities_def delete_rabbit_designator_def upsert_rabbit_designator_def
      insert_rabbit_selectors_def Let_def split: if_splits option.splits)+

lemma rabbit_reads_keep [keeps_intros]:
  "keeps (undisturbed J b i) (r_GetById iid)" "keeps (undisturbed J b i) r_GetDefault"
  "keeps (undisturbed J b i) (GetRabbitInstanceDesignatorByNamespace ns)" "keeps (undisturbed J b i) (LoadRabbitInstance v)"
  "keeps (undisturbed J b i) (dao_FindVhostByClassifier role cl)" "keeps (undisturbed J b i) (dao_FindVhostsByNamespace role ns)"
  "keeps (undisturbed J b i) (GetCurrentBgStateByNamespace ns)" "keeps (undisturbed J b i) (GetConnectionUrl e v)"
  unfolding rabbit_instance_defs vhost_search_defs Let_def GetCurrentBgStateByNamespace_def dao_GetState_def
    dao_FindByNamespace_def GetConnectionUrl_def ResolveRabbitInstanceById_def
  by (intro keeps_intros)+

lemma match_keep [keeps_intros]: "keeps (undisturbed J b i) (match_selectors domain_origin cl ss)"
  by (induction ss) (unfold match_selectors.simps, (intro keeps_intros; assumption?)+)

lemma vhosts_keep [keeps_intros]:
  "keeps (undisturbed J b i) (GetOrCreateVhost e c iid cl version)" "keeps (undisturbed J b i) (getOrCreateVhostInternal e iid cl version)"
  "keeps (undisturbed J b i) (helper_for e cl)"
  unfolding GetOrCreateVhost_def CheckSecurityForSingleNamespace_def GetAllowedNamespaces_def vhost_creation_defs Let_def
    helper_for_def FindVhostByClassifierForHelper_def
  by (intro keeps_intros)+

lemma entities_keep [keeps_intros]:
  "keeps (undisturbed J b i) (CreateOrUpdateEntitiesV1 e v en)" "keeps (undisturbed J b i) (DeleteEntities e cl rd)"
  "keeps (undisturbed J b i) (ApplyPolicies e cl ps)" "keeps (undisturbed J b i) (GetRabbitEntitiesByVhostId vid)"
  "keeps (undisturbed J b i) (GetRabbitVersEntitiesByVhost vid)"
  unfolding CreateOrUpdateEntitiesV1_def DeleteEntities_def ApplyPolicies_def entity_defs Let_def remove_all_def
    remove_named_def remove_binding_def
  by (intro keeps_intros)+

lemma collect_keep [keeps_intros]: "keeps (undisturbed J b i) (collect_exports e st cl nss acc)"
  by (induction nss arbitrary: acc) (unfold collect_exports.simps, (intro keeps_intros; assumption?)+)

lemma vhost_configuration_keep [keeps_intros]: "keeps (undisturbed J b i) (ApplyRabbitConfiguration e c s ns)"
proof -
  have "keeps (undisturbed J b i) (ProcessExportedVhost e ns)"
    unfolding ProcessExportedVhost_def process_vhost_def process_exported_def FindVhostsByNamespace_def locked_def Let_def
    by (intro keeps_intros)
  then show ?thesis unfolding ApplyRabbitConfiguration_def apply_sections_def by (intro keeps_intros)
qed

lemma designator_keep [keeps_intros]: "keeps (undisturbed J b i) (applyInstanceDesignatorRabbit d ns)"
  unfolding applyInstanceDesignatorRabbit_def UpsertRabbitInstanceDesignator_def r_dao_InsertInstanceDesignatorRabbit_def
    r_dao_DeleteRabbitInstanceDesignatorByNamespace_def r_dao_GetRabbitInstanceDesignatorByNamespace_def Let_def
    r_dao_GetInstanceById_def dao_FindByNamespace_def
  by (intro keeps_intros)

lemma rabbit_ops_mind_own: "rabbit_minds_own (rabbit_ops_of e many)"
  by (auto simp: rabbit_minds_own_def rabbit_ops_of_def intro!: keeps_intros)

section \<open>The wait list of the program\<close>

text \<open>
  C21 With the RabbitMQ service as it is, in every state the requests on custom resources can
  reach, whatever runs between them and whatever fails, the wait list has one row for a name and
  namespace, no number twice, every row stands in the namespace of its resource, and a row in
  progress waits for a dependency.
\<close>

theorem wait_list_well_formed:
  assumes "ce_rabbit env = rabbit_ops_of e many" "cr_reachable env w"
  shows "distinct (map wt_id (waits (tabs w))) \<and>
    distinct (map (\<lambda>x. (rs_name (wt_resource x), rs_namespace (wt_resource x))) (waits (tabs w))) \<and>
    list_all (\<lambda>x. wt_namespace x = rs_namespace (wt_resource x) \<and> wt_status x \<noteq> NotStarted) (waits (tabs w)) \<and>
    list_all (\<lambda>x. wt_reason x = DependencyNotFound) [x \<leftarrow> waits (tabs w). wt_status x = InProgress]"
  by (rule reachable_wait_list [OF _ assms(2)]) (simp add: assms(1) rabbit_ops_mind_own)


text \<open>A namespace whose RabbitMQ does not answer.\<close>

definition desk_env :: "(string list, vhost_resource, vhost_spec) cr_env" where
  "desk_env = \<lparr>ce_helper = demo_helper, ce_rabbit = rabbit_ops_of mute_env (\<lambda>c version scs ns. ret_io ([], None)),
     ce_decode = shop_decode, ce_vhost = adaptVhostConfig\<rparr>"

definition desk_waiting :: "string list world" where
  "desk_waiting = snd (cr_Apply desk_env (namespace_ctx ''org'') (topic_resource ''big'') ActionCreate demo_start)"

definition desk_applied :: "string list world" where
  "desk_applied = snd (cr_Apply desk_env (namespace_ctx ''org'') template_resource ActionCreate desk_waiting)"

lemma desk_reachable: "cr_reachable desk_env desk_waiting" "cr_reachable desk_env desk_applied"
proof -
  have "cr_reachable desk_env demo_start" by (rule cr_start) (simp_all add: demo_start_def empty_tables_def)
  then show w: "cr_reachable desk_env desk_waiting"
    by (rule cr_more) (auto simp: desk_waiting_def intro: cr_step.intros)
  show "cr_reachable desk_env desk_applied"
    by (rule cr_more [OF w]) (auto simp: desk_applied_def intro: cr_step.intros)
qed

lemma desk_rabbit: "ce_rabbit desk_env = rabbit_ops_of mute_env (\<lambda>c version scs ns. ret_io ([], None))"
  by (simp add: desk_env_def)

text \<open>The topic waits for its template; when that is applied the topic is created and the row is completed.\<close>

theorem wait_list_well_formed_witness:
  "distinct (map wt_id (waits (tabs desk_waiting))) \<and> map wt_status (waits (tabs desk_waiting)) = [InProgress] \<and>
   distinct (map wt_id (waits (tabs desk_applied))) \<and> map wt_status (waits (tabs desk_applied)) = [Completed] \<and>
   map t_topic (topics (tabs desk_applied)) = [''maas.org.orders'']"
proof -
  have "map wt_status (waits (tabs desk_waiting)) = [InProgress]" by code_simp
  moreover have "map wt_status (waits (tabs desk_applied)) = [Completed]" by code_simp
  moreover have "map t_topic (topics (tabs desk_applied)) = [''maas.org.orders'']" by code_simp
  moreover have "distinct (map wt_id (waits (tabs desk_waiting)))"
    using wait_list_well_formed [OF desk_rabbit desk_reachable(1)] by blast
  moreover have "distinct (map wt_id (waits (tabs desk_applied)))"
    using wait_list_well_formed [OF desk_rabbit desk_reachable(2)] by blast
  ultimately show ?thesis by blast
qed

text \<open>A retry that fails, because the broker already has the topic: the row is completed all the same.\<close>

definition desk_blocked :: "string list world" where
  "desk_blocked = (snd (run_handler desk_env (namespace_ctx ''org'') HandleTopicTemplateConfiguration template_resource desk_waiting))
     \<lparr>broker := [''maas.org.orders'']\<rparr>"


section \<open>Configuring a virtual host is safe\<close>

lemma keeps_after_step: "(\<And>w. rabbit_step e w (snd (m w))) \<Longrightarrow> keeps (rabbit_reachable e) m"
  unfolding keeps_def by (blast intro: rr_step)

lemma reachable_steps:
  "keeps (rabbit_reachable e) (GetOrCreateVhost e c iid cl version)" "keeps (rabbit_reachable e) (CreateOrUpdateEntitiesV1 e v en)"
  "keeps (rabbit_reachable e) (DeleteEntities e cl rd)" "keeps (rabbit_reachable e) (ApplyPolicies e cl ps)"
  "keeps (rabbit_reachable e) (ProcessExportedVhost e ns)"
  by (rule keeps_after_step; blast intro: rs_vhost rs_entities rs_blue_green)+

lemma reading_reachable:
  assumes "\<And>I. keeps (all_tabs I) m" "keeps at_top m"
  shows "keeps (rabbit_reachable e) m"
proof (rule keepsI)
  fix w r w'
  assume w: "rabbit_reachable e w" and run: "m w = (r, w')"
  have "at_top w" using rabbit_reachable_ok [OF w] by (simp add: rabbit_ok_def)
  then have "all_tabs (\<lambda>t. t = tabs w) w'" "at_top w'"
    using keepsD [OF assms(1) run, of "\<lambda>t. t = tabs w"] keepsD [OF assms(2) run] by (auto simp: all_tabs_def committed_def)
  then show "rabbit_reachable e w'" by (intro rr_step [OF w] rs_beside) (simp add: beside_def all_tabs_def)
qed

lemma connection_url_reachable: "keeps (rabbit_reachable e) (GetConnectionUrl e' v)"
  unfolding GetConnectionUrl_def ResolveRabbitInstanceById_def
  by (rule reading_reachable) (intro keeps_intros)+

lemma configuration_reachable: "keeps (rabbit_reachable e) (ApplyRabbitConfiguration e c s ns)"
  unfolding ApplyRabbitConfiguration_def apply_sections_def
  by (intro keeps_intros reachable_steps connection_url_reachable)

lemma configuration_others: "others (tabs (snd (ApplyRabbitConfiguration e c s ns w))) = others (tabs w)" if "txc w = None"
proof -
  have "undisturbed (\<lambda>t. t = others (tabs w)) (master_alive w, cache w) False w" using that by (simp add: undisturbed_def committed_def)
  from vhost_configuration_keep [unfolded keeps_def, rule_format, OF this] show ?thesis by (simp add: undisturbed_def)
qed

text \<open>
  Configuring a virtual host, with any outcome: a specification without a name or namespace, or
  one for another namespace than that of the request, is refused and nothing at all has changed;
  in every case the state reached is one of those of the RabbitMQ service, so that its invariants
  hold, and accounts, domains and their states, composite registrations, tenants, the wait list
  and the registered instances are as they were.
\<close>

theorem vhost_configuration_guarded:
  assumes "rabbit_reachable e w" "ApplyRabbitConfiguration e c s ns w = (r, w')"
  shows "rabbit_reachable e w' \<and> others (tabs w') = others (tabs w) \<and>
    (c_name (vs_classifier s) = [] \<or> c_namespace (vs_classifier s) = [] \<or> c_namespace (vs_classifier s) \<noteq> ns \<longrightarrow> isl r \<and> w' = w)"
proof (intro conjI impI)
  show "rabbit_reachable e w'" by (rule keepsD [OF configuration_reachable assms(2,1)])
  show "others (tabs w') = others (tabs w)"
    using configuration_others [of w e c s ns] rabbit_reachable_ok [OF assms(1)] assms(2) by (simp add: rabbit_ok_def)
next
  assume "c_name (vs_classifier s) = [] \<or> c_namespace (vs_classifier s) = [] \<or> c_namespace (vs_classifier s) \<noteq> ns"
  with assms(2) have "isl r \<and> w' = w"
    by (auto simp: ApplyRabbitConfiguration_def valid_spec_def then_io_run raise_io_def lift_io_run CheckAllowedNamespaces_def
        split: if_splits)
  then show "isl r" "w' = w" by simp_all
qed

definition shelf_spec :: vhost_spec where
  "shelf_spec = adaptVhostConfig \<lparr>vc_instance = [], vc_entities = Some ([[(''name'', JStr ''events'')]], [[(''name'', JStr ''inbox'')]], []),
     vc_policies = None, vc_deletions = None, vc_classifier = None\<rparr> ''orders'' ''org''"

definition shelf_configured :: "err + rabbit_result" where
  "shelf_configured = fst (ApplyRabbitConfiguration shelf_env demo_ctx shelf_spec ''org'' shelf_start)"

theorem vhost_configuration_guarded_witness:
  "map_sum id (\<lambda>a. (vh_vhost (ra_registration a), ra_policies a)) shelf_configured = Inr (''maas.org.orders'', None) \<and>
   map re_name (rabbit_entities (tabs (snd (ApplyRabbitConfiguration shelf_env demo_ctx shelf_spec ''org'' shelf_start)))) =
     [Some ''events'', Some ''inbox''] \<and>
   others (tabs (snd (ApplyRabbitConfiguration shelf_env demo_ctx shelf_spec ''org'' shelf_start))) = others (tabs shelf_start) \<and>
   ApplyRabbitConfiguration shelf_env demo_ctx shelf_spec ''peer'' shelf_start =
     (fst (ApplyRabbitConfiguration shelf_env demo_ctx shelf_spec ''peer'' shelf_start), shelf_start)"
proof (intro conjI)
  show "map_sum id (\<lambda>a. (vh_vhost (ra_registration a), ra_policies a)) shelf_configured = Inr (''maas.org.orders'', None)" by code_simp
  show "map re_name (rabbit_entities (tabs (snd (ApplyRabbitConfiguration shelf_env demo_ctx shelf_spec ''org'' shelf_start)))) =
     [Some ''events'', Some ''inbox'']" by code_simp
  show "others (tabs (snd (ApplyRabbitConfiguration shelf_env demo_ctx shelf_spec ''org'' shelf_start))) = others (tabs shelf_start)"
    using vhost_configuration_guarded [OF shelf_reachable(1) surjective_pairing] by blast
  have "c_namespace (vs_classifier shelf_spec) \<noteq> ''peer''" by (simp add: shelf_spec_def adaptVhostConfig_def)
  then show "ApplyRabbitConfiguration shelf_env demo_ctx shelf_spec ''peer'' shelf_start =
     (fst (ApplyRabbitConfiguration shelf_env demo_ctx shelf_spec ''peer'' shelf_start), shelf_start)"
    using vhost_configuration_guarded [OF shelf_reachable(1) surjective_pairing] by (metis prod.collapse)
qed

end
