(* ===== verification/Maas_Monitoring.thy ===== *)
theory Maas_Monitoring
  imports Maas_Rabbit_Entities
begin

text \<open>
  Monitoring: the counters of requests and the listings (monitoring), the health of the brokers
  (watchdog), and the comparison of the database with the brokers (monitoring/discrepancy).
  Prometheus is outside; what is handed to its gauges is the result of the definitions here.
\<close>

section \<open>Counters of requests: data access (dao.go)\<close>

definition stat_key :: "request_stat \<Rightarrow> string \<times> string \<times> stat_type \<times> string" where
  "stat_key s = (es_namespace s, es_microservice s, es_type s, es_name s)"

definition stat_fits :: "request_stat \<Rightarrow> bool" where
  "stat_fits s = (length (es_namespace s) \<le> 100 \<and> length (es_microservice s) \<le> 100 \<and> length (es_name s) \<le> 255 \<and>
     length (es_instance s) \<le> 100)"

text \<open>
  \<open>insert ... on conflict do update\<close> of the counter, a \<open>bigint\<close>, and of the time; a new row takes the defaults of
  both.
\<close>

definition max_bigint :: nat where
  "max_bigint = 2 ^ 63 - 1"

definition upsert_stat :: "int \<Rightarrow> request_stat \<Rightarrow> tables \<Rightarrow> (unit \<times> tables) outcome" where
  "upsert_stat now s t =
     (if \<not> stat_fits s then Inl Generic
      else if list_ex (\<lambda>r. stat_key r = stat_key s) (request_stats t)
      then (if list_ex (\<lambda>r. stat_key r = stat_key s \<and> es_total r = max_bigint) (request_stats t) then Inl Generic
            else Inr ((), t\<lparr>request_stats := map (\<lambda>r. if stat_key r = stat_key s
                   then r\<lparr>es_total := es_total r + 1, es_last := now\<rparr> else r) (request_stats t)\<rparr>))
      else Inr ((), t\<lparr>request_stats := request_stats t @ [s\<lparr>es_total := 1, es_last := now\<rparr>]\<rparr>))"

definition dao_AddEntityRequestStat :: "int \<Rightarrow> request_stat \<Rightarrow> ('k, unit) dbio" where
  "dao_AddEntityRequestStat now s = with_tx () (sql_write (upsert_stat now s))"

definition dao_GetAllEntityRequestsStat :: "('k, request_stat list) dbio" where
  "dao_GetAllEntityRequestsStat = with_tx [] (sql_read request_stats)"

definition DeleteEntityRequestsStatByNamespace :: "string \<Rightarrow> ('k, unit) dbio" where
  "DeleteEntityRequestsStatByNamespace ns = with_tx ()
     (sql_write (\<lambda>t. Inr ((), t\<lparr>request_stats := [s \<leftarrow> request_stats t. es_namespace s \<noteq> ns]\<rparr>)))"

record monitoring_vhost =
  mv_namespace :: string
  mv_microservice :: string
  mv_broker_host :: string
  mv_vhost :: string
  mv_instance :: string

record monitoring_topic =
  mt_namespace :: string
  mt_broker_host :: string
  mt_topic :: string
  mt_instance :: string

text \<open>
  The left joins: a virtual host once for each microservice with a configuration, and once without
  a name when there is none; the address of an instance that is missing is null, scanned as empty.
\<close>

definition vhost_lines :: "tables \<Rightarrow> monitoring_vhost list" where
  "vhost_lines t = concat (map (\<lambda>v.
     let names = remdups [mc_name m. m \<leftarrow> ms_configs t, mc_vhost m = vh_id v];
         host = (case find (\<lambda>i. ri_id i = vh_instance v) (rabbit_instances t) of None \<Rightarrow> [] | Some i \<Rightarrow> ri_amqp_url i)
     in map (\<lambda>n. \<lparr>mv_namespace = vh_namespace v, mv_microservice = n, mv_broker_host = host, mv_vhost = vh_vhost v,
          mv_instance = vh_instance v\<rparr>) (if names = [] then [[]] else names)) (vhosts t))"

definition GetMonitoringVhosts :: "('k, monitoring_vhost list) dbio" where
  "GetMonitoringVhosts = wrap_io (using_db [] (sql_read vhost_lines))"

text \<open>The addresses are shown as the JSON text of their column.\<close>

definition topic_lines :: "((string \<times> string list) list \<Rightarrow> string) \<Rightarrow> tables \<Rightarrow> monitoring_topic list" where
  "topic_lines addresses_text t = map (\<lambda>x. \<lparr>mt_namespace = t_namespace x,
     mt_broker_host = (case find (\<lambda>i. ki_id i = t_instance x) (kafka_instances t) of
        None \<Rightarrow> [] | Some i \<Rightarrow> addresses_text (ki_addresses i)),
     mt_topic = t_topic x, mt_instance = t_instance x\<rparr>) (topics t)"

definition GetMonitoringTopics :: "((string \<times> string list) list \<Rightarrow> string) \<Rightarrow> ('k, monitoring_topic list) dbio" where
  "GetMonitoringTopics addresses_text = wrap_io (using_db [] (sql_read (topic_lines addresses_text)))"

section \<open>Health of the brokers (watchdog)\<close>

datatype health = UNKNOWN | UP | WARNING | PROBLEM

primrec health_Int :: "health \<Rightarrow> nat" where
  "health_Int UNKNOWN = 0"
| "health_Int UP = 10"
| "health_Int WARNING = 20"
| "health_Int PROBLEM = 30"

record status_detailed =
  sd_status :: health
  sd_details :: string

datatype broker_type = Kafka | RabbitMQ

record broker_status =
  bk_type :: broker_type
  bk_status :: status_detailed

text \<open>
  The monitor: the statuses by the identifier of the instance, how many refreshes are due, the
  instances it last saw, and the gauges.  The fields the code loads from empty pointers before
  the first refresh are \<open>None\<close>.
\<close>

type_synonym gauges = "((broker_type \<times> string) \<times> nat) list"

record monitor =
  mo_statuses :: "(string \<times> broker_status) list option"
  mo_refresh :: int
  mo_kafka :: "kafka_instance list option"
  mo_rabbit :: "rabbit_instance list option"
  mo_metrics :: gauges

definition NewBrokerInstancesMonitor :: monitor where
  "NewBrokerInstancesMonitor = \<lparr>mo_statuses = None, mo_refresh = 1, mo_kafka = None, mo_rabbit = None, mo_metrics = []\<rparr>"

definition enqueueInstanceListUpdate :: "monitor \<Rightarrow> monitor" where
  "enqueueInstanceListUpdate m = m\<lparr>mo_refresh := mo_refresh m + 1\<rparr>"

text \<open>The checks of the two services, and the text of an error.\<close>

record 'k health_env =
  he_kafka :: "kafka_instance \<Rightarrow> ('k, unit) dbio"
  he_rabbit :: "rabbit_instance \<Rightarrow> ('k, unit) dbio"
  he_text :: "err \<Rightarrow> string"

definition refreshBrokerList :: "monitor \<Rightarrow> ('k, monitor) dbio" where
  "refreshBrokerList m =
     bind_io (wrap_io k_GetKafkaInstances) (\<lambda>ks.
     bind_io (wrap_io r_GetRabbitInstances) (\<lambda>rs.
       ret_io (m\<lparr>mo_kafka := Some ks, mo_rabbit := Some rs,
         mo_metrics := fold (\<lambda>k. AList.update k 0) (map (\<lambda>i. (Kafka, ki_id i)) ks @ map (\<lambda>i. (RabbitMQ, ri_id i)) rs) []\<rparr>)))"

definition getHealth :: "(err \<Rightarrow> string) \<Rightarrow> broker_type \<Rightarrow> string \<Rightarrow> unit outcome \<Rightarrow> broker_status" where
  "getHealth text ty iid res = \<lparr>bk_type = ty, bk_status = (case res of
      Inl e \<Rightarrow> \<lparr>sd_status = PROBLEM, sd_details = iid @ '': '' @ text e\<rparr>
    | Inr _ \<Rightarrow> \<lparr>sd_status = UP, sd_details = []\<rparr>)\<rparr>"

text \<open>The statuses of both kinds of brokers go into one map, under the identifier alone.\<close>

primrec check_instances :: "(err \<Rightarrow> string) \<Rightarrow> broker_type \<Rightarrow> ('i \<Rightarrow> string) \<Rightarrow> ('i \<Rightarrow> ('k, unit) dbio) \<Rightarrow> 'i list \<Rightarrow>
    (string \<times> broker_status) list \<times> gauges \<Rightarrow> ('k, (string \<times> broker_status) list \<times> gauges) dbio" where
  "check_instances text ty iid check [] acc = ret_io acc"
| "check_instances text ty iid check (i # is) acc =
     bind_io (attempt_io (check i)) (\<lambda>res.
       let health = getHealth text ty (iid i) res in
       check_instances text ty iid check is
         (AList.update (iid i) health (fst acc),
          if map_of (snd acc) (ty, iid i) = None then snd acc
          else AList.update (ty, iid i) (health_Int (sd_status (bk_status health))) (snd acc)))"

definition refresh_if_due :: "monitor \<Rightarrow> ('k, monitor) dbio" where
  "refresh_if_due m =
     (if mo_refresh m > 0
      then bind_io (attempt_io (refreshBrokerList m)) (\<lambda>res.
             ret_io (case res of Inl e \<Rightarrow> m | Inr m' \<Rightarrow> m'\<lparr>mo_refresh := mo_refresh m' - 1\<rparr>))
      else ret_io m)"

definition updateStatusCache :: "'k health_env \<Rightarrow> monitor \<Rightarrow> ('k, monitor) dbio" where
  "updateStatusCache env m =
     bind_io (refresh_if_due m) (\<lambda>m1.
     bind_io (deref_io (mo_rabbit m1)) (\<lambda>rs.
     bind_io (check_instances (he_text env) RabbitMQ ri_id (he_rabbit env) rs ([], mo_metrics m1)) (\<lambda>acc.
     bind_io (deref_io (mo_kafka m1)) (\<lambda>ks.
     bind_io (check_instances (he_text env) Kafka ki_id (he_kafka env) ks acc) (\<lambda>(statuses, metrics).
       ret_io (m1\<lparr>mo_statuses := Some statuses, mo_metrics := metrics\<rparr>))))))"

definition GetStatus :: "monitor \<Rightarrow> string \<Rightarrow> health" where
  "GetStatus m iid = (case mo_statuses m of
      None \<Rightarrow> UNKNOWN
    | Some ss \<Rightarrow> (case map_of ss iid of None \<Rightarrow> UNKNOWN | Some b \<Rightarrow> sd_status (bk_status b)))"

text \<open>A Go map is ranged over in any order; here in that of the keys' first insertion.\<close>

definition all_statuses :: "monitor \<Rightarrow> broker_status list" where
  "all_statuses m = (case mo_statuses m of None \<Rightarrow> [] | Some ss \<Rightarrow> map snd ss)"

section \<open>Aggregated health (health_aggregator.go)\<close>

record aggregated_status =
  ha_status :: health
  ha_postgres :: status_detailed
  ha_kafka :: "status_detailed option"
  ha_rabbit :: "status_detailed option"

definition aggregate :: "status_detailed option \<Rightarrow> broker_status \<Rightarrow> status_detailed option" where
  "aggregate agg appl = Some (case agg of
      None \<Rightarrow> bk_status appl
    | Some a \<Rightarrow>
        \<lparr>sd_status = (if health_Int (sd_status a) < health_Int (sd_status (bk_status appl)) then sd_status (bk_status appl) else sd_status a),
         sd_details = (if sd_details (bk_status appl) = [] then sd_details a
           else (if sd_details a = [] then [] else sd_details a @ '', '') @ sd_details (bk_status appl))\<rparr>)"

definition max_status :: "health list \<Rightarrow> health" where
  "max_status ss = fold (\<lambda>e r. if health_Int r < health_Int e then e else r) ss UP"

definition add_broker :: "broker_status \<Rightarrow> aggregated_status \<Rightarrow> aggregated_status" where
  "add_broker b a = (case bk_type b of
      RabbitMQ \<Rightarrow> a\<lparr>ha_rabbit := aggregate (ha_rabbit a) b\<rparr>
    | Kafka \<Rightarrow> a\<lparr>ha_kafka := aggregate (ha_kafka a) b\<rparr>)"

definition opt_max :: "status_detailed option \<Rightarrow> health \<Rightarrow> health" where
  "opt_max x s = (case x of None \<Rightarrow> s | Some d \<Rightarrow> max_status [s, sd_status d])"

definition aggregated_Status :: "(err \<Rightarrow> string) \<Rightarrow> unit outcome \<Rightarrow> broker_status list \<Rightarrow> aggregated_status" where
  "aggregated_Status text db brokers =
     (let pg = (case db of Inr _ \<Rightarrow> \<lparr>sd_status = UP, sd_details = []\<rparr> | Inl e \<Rightarrow> \<lparr>sd_status = PROBLEM, sd_details = text e\<rparr>);
          a = fold add_broker brokers \<lparr>ha_status = UP, ha_postgres = pg, ha_kafka = None, ha_rabbit = None\<rparr>
      in a\<lparr>ha_status := opt_max (ha_kafka a) (opt_max (ha_rabbit a) (sd_status pg))\<rparr>)"

section \<open>Auditor (service.go)\<close>

text \<open>
  A request is counted outside of its own transaction, by a goroutine whose failure is only
  logged: \<open>counted_request\<close> is what it will record, and \<open>record_request\<close> the recording, which runs
  later and at the top level.
\<close>

definition counted_request :: "dr_mode \<Rightarrow> ctx \<Rightarrow> stat_type \<Rightarrow> string \<Rightarrow> string \<Rightarrow> request_stat option outcome" where
  "counted_request mode c ty name inst =
     (if mode \<noteq> Active then Inr None
      else case ctx_request c of
        None \<Rightarrow> Inl GoPanic
      | Some rc \<Rightarrow> Inr (Some \<lparr>es_namespace = rc_namespace rc, es_microservice = rc_microservice rc, es_type = ty, es_name = name,
          es_instance = inst, es_last = 0, es_total = 0\<rparr>))"

definition record_request :: "int \<Rightarrow> request_stat \<Rightarrow> ('k, unit) dbio" where
  "record_request now s = bind_io (attempt_io (dao_AddEntityRequestStat now s)) (\<lambda>_. ret_io ())"

definition GetAllEntityRequestsStat :: "('k, request_stat list) dbio" where
  "GetAllEntityRequestsStat = wrap_io dao_GetAllEntityRequestsStat"

record kafka_stat_line =
  kl_namespace :: string
  kl_broker_host :: string
  kl_topic :: string
  kl_status :: health

record vhost_stat_line =
  vl_namespace :: string
  vl_broker_host :: string
  vl_microservice :: string
  vl_vhost :: string
  vl_status :: health

definition GetKafkaMonitoringEntities ::
    "((string \<times> string list) list \<Rightarrow> string) \<Rightarrow> (string \<Rightarrow> health) \<Rightarrow> ('k, kafka_stat_line list) dbio" where
  "GetKafkaMonitoringEntities addresses_text statusResolver =
     bind_io (wrap_io (GetMonitoringTopics addresses_text)) (\<lambda>ts. ret_io (map (\<lambda>x. \<lparr>kl_namespace = mt_namespace x,
       kl_broker_host = mt_broker_host x, kl_topic = mt_topic x, kl_status = statusResolver (mt_instance x)\<rparr>) ts))"

definition GetRabbitMonitoringEntities :: "(string \<Rightarrow> health) \<Rightarrow> ('k, vhost_stat_line list) dbio" where
  "GetRabbitMonitoringEntities statusResolver =
     bind_io (wrap_io GetMonitoringVhosts) (\<lambda>vs. ret_io (map (\<lambda>x. \<lparr>vl_namespace = mv_namespace x, vl_broker_host = mv_broker_host x,
       vl_microservice = mv_microservice x, vl_vhost = mv_vhost x, vl_status = statusResolver (mv_instance x)\<rparr>) vs))"

definition CleanupData :: "string \<Rightarrow> ('k, unit) dbio" where
  "CleanupData ns = DeleteEntityRequestsStatByNamespace ns"

section \<open>Discrepancies (discrepancy/collector.go)\<close>

type_synonym scope = "string \<times> string"

record ns_counts =
  nc_registered :: nat
  nc_lost :: nat

definition count_entity :: "('e \<Rightarrow> scope) \<Rightarrow> ('e \<Rightarrow> bool) \<Rightarrow> 'e \<Rightarrow> (scope \<times> ns_counts) list \<Rightarrow> (scope \<times> ns_counts) list" where
  "count_entity scope_of exists e m =
     (let c = (case map_of m (scope_of e) of None \<Rightarrow> \<lparr>nc_registered = 0, nc_lost = 0\<rparr> | Some c \<Rightarrow> c)
      in AList.update (scope_of e) \<lparr>nc_registered = nc_registered c + 1, nc_lost = nc_lost c + (if exists e then 0 else 1)\<rparr> m)"

definition count_scopes :: "('e \<Rightarrow> scope) \<Rightarrow> ('e \<Rightarrow> bool) \<Rightarrow> 'e list \<Rightarrow> (scope \<times> ns_counts) list" where
  "count_scopes scope_of exists es = fold (count_entity scope_of exists) es []"

type_synonym discrepancies = "((broker_type \<times> string) \<times> (scope \<times> ns_counts) list) list"

definition topic_scope :: "topic \<Rightarrow> scope" where
  "topic_scope t = (t_namespace t, c_tenant (t_classifier t))"

definition vhost_scope :: "vhost \<Rightarrow> scope" where
  "vhost_scope v = (vh_namespace v, c_tenant (vh_classifier v))"

text \<open>
  An instance that cannot be read, from the database or from its broker, is left out.  Which of
  some topics exist is asked of the broker.
\<close>

primrec collect_topics :: "'k kafka_helper \<Rightarrow> kafka_instance list \<Rightarrow> discrepancies \<Rightarrow>
    ('k, discrepancies) dbio" where
  "collect_topics h [] result = ret_io result"
| "collect_topics h (i # is) result =
     bind_io (attempt_io (SearchTopicsInDB (no_search\<lparr>ts_instance := ki_id i\<rparr>))) (\<lambda>res.
       case res of
         Inl e \<Rightarrow> collect_topics h is result
       | Inr ts \<Rightarrow> bind_io (attempt_io (on_broker (h_GetExistingTopics h (Some i) (map t_topic ts)))) (\<lambda>on_broker.
           case on_broker of
             Inl e \<Rightarrow> collect_topics h is result
           | Inr names \<Rightarrow> collect_topics h is
               (AList.update (Kafka, ki_id i) (count_scopes topic_scope (\<lambda>t. t_topic t \<in> set names) ts) result)))"

definition collectKafka :: "'k kafka_helper \<Rightarrow> discrepancies \<Rightarrow> ('k, discrepancies) dbio" where
  "collectKafka h result =
     bind_io (attempt_io k_GetKafkaInstances) (\<lambda>res.
       case res of Inl e \<Rightarrow> ret_io result | Inr is \<Rightarrow> collect_topics h is result)"

primrec collect_vhosts :: "'k rabbit_env \<Rightarrow> vhost list \<Rightarrow> rabbit_instance list \<Rightarrow> discrepancies \<Rightarrow> ('k, discrepancies) dbio" where
  "collect_vhosts e vs [] result = ret_io result"
| "collect_vhosts e vs (i # is) result =
     bind_io (attempt_io (on_broker (GetAllVhosts (new_helper e i no_vhost)))) (\<lambda>res.
       case res of
         Inl err \<Rightarrow> collect_vhosts e vs is result
       | Inr names \<Rightarrow> collect_vhosts e vs is (AList.update (RabbitMQ, ri_id i)
           (count_scopes vhost_scope (\<lambda>v. vh_vhost v \<in> set names) [v \<leftarrow> vs. vh_instance v = ri_id i]) result))"

definition collectRabbit :: "'k rabbit_env \<Rightarrow> discrepancies \<Rightarrow> ('k, discrepancies) dbio" where
  "collectRabbit e result =
     bind_io (attempt_io r_GetRabbitInstances) (\<lambda>res.
       case res of
         Inl err \<Rightarrow> ret_io result
       | Inr is \<Rightarrow> bind_io (attempt_io (FindVhostWithSearchForm (rb_role e) empty_form)) (\<lambda>found.
           case found of Inl err \<Rightarrow> ret_io result | Inr vs \<Rightarrow> collect_vhosts e vs is result))"

definition Collect :: "'k kafka_helper \<Rightarrow> 'k rabbit_env \<Rightarrow> ('k, discrepancies) dbio" where
  "Collect h e = bind_io (collectKafka h []) (collectRabbit e)"

section \<open>The overall health\<close>

lemma health_Int_max: "health_Int (if health_Int r < health_Int e then e else r) = max (health_Int r) (health_Int e)"
  by simp

lemma health_Int_fold:
  "health_Int (fold (\<lambda>e r. if health_Int r < health_Int e then e else r) ss r) = fold max (map health_Int ss) (health_Int r)"
proof (induction ss arbitrary: r)
  case (Cons e ss)
  show ?case unfolding fold_simps list.map comp_def Cons.IH health_Int_max by (simp add: max.commute)
qed simp

lemma max_status_two: "health_Int (max_status [s, t]) = max 10 (max (health_Int s) (health_Int t))"
  unfolding max_status_def health_Int_fold by (simp add: max.commute max.left_commute)

definition part_health :: "status_detailed option \<Rightarrow> nat" where
  "part_health x = (case x of None \<Rightarrow> 0 | Some d \<Rightarrow> health_Int (sd_status d))"

lemma part_health_aggregate: "part_health (aggregate x b) = max (part_health x) (health_Int (sd_status (bk_status b)))"
  by (simp add: part_health_def aggregate_def split: option.splits)

lemma add_broker_parts:
  "max (part_health (ha_kafka (add_broker b a))) (part_health (ha_rabbit (add_broker b a))) =
     max (health_Int (sd_status (bk_status b))) (max (part_health (ha_kafka a)) (part_health (ha_rabbit a)))"
  "ha_postgres (add_broker b a) = ha_postgres a"
  by (simp_all add: add_broker_def part_health_aggregate max.commute max.left_commute split: broker_type.split)

lemma add_brokers_parts:
  "max (part_health (ha_kafka (fold add_broker bs a))) (part_health (ha_rabbit (fold add_broker bs a))) =
     fold max (map (\<lambda>b. health_Int (sd_status (bk_status b))) bs) (max (part_health (ha_kafka a)) (part_health (ha_rabbit a)))"
  by (induction bs arbitrary: a) (simp_all add: add_broker_parts)

lemma opt_max_health: "10 \<le> health_Int s \<Longrightarrow> health_Int (opt_max x s) = max (health_Int s) (part_health x)"
  by (cases x) (simp_all add: opt_max_def part_health_def max_status_two max.absorb2 le_max_iff_disj)

text \<open>
  The overall status of the service is the worst of the database's and of all its brokers', whatever
  their kinds and the order they come in; a broker of unknown status does not count as worse than one
  that is up.
\<close>

theorem overall_health_is_worst:
  "health_Int (ha_status (aggregated_Status text db brokers)) =
     Max (insert (if isl db then 30 else 10) ((\<lambda>b. health_Int (sd_status (bk_status b))) ` set brokers))"
proof -
  let ?pg = "case db of Inr _ \<Rightarrow> \<lparr>sd_status = UP, sd_details = []\<rparr> | Inl e \<Rightarrow> \<lparr>sd_status = PROBLEM, sd_details = text e\<rparr>"
  let ?z = "\<lparr>ha_status = UP, ha_postgres = ?pg, ha_kafka = None, ha_rabbit = None\<rparr>"
  let ?a = "fold add_broker brokers ?z" and ?hs = "map (\<lambda>b. health_Int (sd_status (bk_status b))) brokers"
  have pg: "health_Int (sd_status ?pg) = (if isl db then 30 else 10)" by (cases db) simp_all
  have r: "health_Int (opt_max (ha_rabbit ?a) (sd_status ?pg)) = max (health_Int (sd_status ?pg)) (part_health (ha_rabbit ?a))"
    by (rule opt_max_health) (simp add: pg)
  have "health_Int (ha_status (aggregated_Status text db brokers)) =
      max (health_Int (sd_status ?pg)) (max (part_health (ha_kafka ?a)) (part_health (ha_rabbit ?a)))"
    unfolding aggregated_Status_def Let_def by (simp add: opt_max_health r pg max.commute max.left_commute le_max_iff_disj)
  also have "\<dots> = max (health_Int (sd_status ?pg)) (fold max ?hs 0)"
    unfolding add_brokers_parts by (simp add: part_health_def)
  also have "fold max ?hs 0 = Max (insert 0 (set ?hs))" using Max.set_eq_fold [of 0 ?hs] by simp
  also have "max (health_Int (sd_status ?pg)) (Max (insert 0 (set ?hs))) = Max (insert (health_Int (sd_status ?pg)) (set ?hs))"
    by (cases "set ?hs = {}") (simp_all add: max.left_commute)
  finally show ?thesis by (simp add: pg)
qed

text \<open>An instance of either kind with the identifier of the other hides its status.\<close>

lemma shared_identifier_hides:
  "map_of (AList.update iid (getHealth text Kafka iid (Inr ())) (AList.update iid (getHealth text RabbitMQ iid (Inl e)) ss)) iid =
     Some (getHealth text Kafka iid (Inr ()))"
  by (simp add: update_Some_unfold)

section \<open>Discrepancies are exact\<close>

definition expected_counts :: "('e \<Rightarrow> scope) \<Rightarrow> ('e \<Rightarrow> bool) \<Rightarrow> 'e list \<Rightarrow> scope \<Rightarrow> ns_counts option" where
  "expected_counts scope_of exists es s =
     (let mine = [e \<leftarrow> es. scope_of e = s] in
      if mine = [] then None else Some \<lparr>nc_registered = length mine, nc_lost = length [e \<leftarrow> mine. \<not> exists e]\<rparr>)"

lemma count_scopes_exact: "map_of (count_scopes scope_of exists es) s = expected_counts scope_of exists es s"
proof (induction es rule: rev_induct)
  case (snoc e es)
  have "count_scopes scope_of exists (es @ [e]) = count_entity scope_of exists e (count_scopes scope_of exists es)"
    by (simp add: count_scopes_def)
  with snoc show ?case
    by (cases "scope_of e = s") (auto simp: count_entity_def Let_def update_conv' expected_counts_def filter_empty_conv split: option.splits if_splits)
qed (simp add: count_scopes_def expected_counts_def)

definition vhost_discrepancies :: "vhost list \<Rightarrow> (rabbit_instance \<Rightarrow> string list outcome) \<Rightarrow> rabbit_instance \<Rightarrow> (scope \<times> ns_counts) list option" where
  "vhost_discrepancies vs answer i = (case answer i of
      Inl e \<Rightarrow> None
    | Inr names \<Rightarrow> Some (count_scopes vhost_scope (\<lambda>v. vh_vhost v \<in> set names) [v \<leftarrow> vs. vh_instance v = ri_id i]))"

lemma collect_vhosts_run:
  assumes "list_all (\<lambda>i. GetAllVhosts (new_helper e i no_vhost) (broker w) = (answer i, broker w) \<and> answer i \<noteq> Inl GoPanic) is"
    "distinct (map ri_id is)"
  shows "\<exists>result'. collect_vhosts e vs is result w = (Inr result', w) \<and>
    (\<forall>i \<in> set is. map_of result' (RabbitMQ, ri_id i) =
       (case vhost_discrepancies vs answer i of None \<Rightarrow> map_of result (RabbitMQ, ri_id i) | Some m \<Rightarrow> Some m)) \<and>
    (\<forall>k. k \<notin> (\<lambda>i. (RabbitMQ, ri_id i)) ` set is \<longrightarrow> map_of result' k = map_of result k)"
  using assms
proof (induction "is" arbitrary: result)
  case (Cons i "is")
  have b: "on_broker (GetAllVhosts (new_helper e i no_vhost)) w = (answer i, w)" and np: "answer i \<noteq> Inl GoPanic"
    using Cons.prems(1) by (simp_all add: on_broker_def)
  let ?r = "case answer i of Inl x \<Rightarrow> result | Inr names \<Rightarrow> AList.update (RabbitMQ, ri_id i)
      (count_scopes vhost_scope (\<lambda>v. vh_vhost v \<in> set names) [v \<leftarrow> vs. vh_instance v = ri_id i]) result"
  have run: "collect_vhosts e vs (i # is) result w = collect_vhosts e vs is ?r w"
    using np by (cases "answer i") (simp_all add: bind_io_run attempt_io_run b)
  obtain result' where r: "collect_vhosts e vs is ?r w = (Inr result', w)"
    "\<forall>j \<in> set is. map_of result' (RabbitMQ, ri_id j) =
       (case vhost_discrepancies vs answer j of None \<Rightarrow> map_of ?r (RabbitMQ, ri_id j) | Some m \<Rightarrow> Some m)"
    "\<forall>k. k \<notin> (\<lambda>j. (RabbitMQ, ri_id j)) ` set is \<longrightarrow> map_of result' k = map_of ?r k"
    using Cons.IH [of ?r] Cons.prems by auto
  have old: "map_of ?r k = map_of result k" if "k \<noteq> (RabbitMQ, ri_id i)" for k
    using that by (cases "answer i") (simp_all add: update_conv')
  have new: "map_of ?r (RabbitMQ, ri_id i) = (case vhost_discrepancies vs answer i of None \<Rightarrow> map_of result (RabbitMQ, ri_id i) | Some m \<Rightarrow> Some m)"
    by (cases "answer i") (simp_all add: vhost_discrepancies_def update_conv')
  have i: "(RabbitMQ, ri_id i) \<notin> (\<lambda>j. (RabbitMQ, ri_id j)) ` set is" using Cons.prems(2) by auto
  then have ne: "(RabbitMQ, ri_id j) \<noteq> (RabbitMQ, ri_id i)" if "j \<in> set is" for j using that Cons.prems(2) by (auto simp: image_iff)
  have r2: "\<forall>j \<in> set is. map_of result' (RabbitMQ, ri_id j) =
       (case vhost_discrepancies vs answer j of None \<Rightarrow> map_of result (RabbitMQ, ri_id j) | Some m \<Rightarrow> Some m)"
  proof
    fix j assume j: "j \<in> set is"
    with ne have "(RabbitMQ, ri_id j) \<noteq> (RabbitMQ, ri_id i)" by blast
    from old [OF this] bspec [OF r(2) j] show "map_of result' (RabbitMQ, ri_id j) =
       (case vhost_discrepancies vs answer j of None \<Rightarrow> map_of result (RabbitMQ, ri_id j) | Some m \<Rightarrow> Some m)"
      by (cases "vhost_discrepancies vs answer j") simp_all
  qed
  have "map_of result' (RabbitMQ, ri_id i) = map_of ?r (RabbitMQ, ri_id i)" using r(3) i by blast
  with r2 new have "\<forall>j \<in> set (i # is). map_of result' (RabbitMQ, ri_id j) =
       (case vhost_discrepancies vs answer j of None \<Rightarrow> map_of result (RabbitMQ, ri_id j) | Some m \<Rightarrow> Some m)"
    by (simp only: list.set ball_simps simp_thms)
  moreover have "\<forall>k. k \<notin> (\<lambda>j. (RabbitMQ, ri_id j)) ` set (i # is) \<longrightarrow> map_of result' k = map_of result k"
  proof (intro allI impI)
    fix k assume "k \<notin> (\<lambda>j. (RabbitMQ, ri_id j)) ` set (i # is)"
    then have "k \<noteq> (RabbitMQ, ri_id i)" "k \<notin> (\<lambda>j. (RabbitMQ, ri_id j)) ` set is" by simp_all
    then show "map_of result' k = map_of result k" using spec [OF r(3), of k] old [of k] by (simp only: simp_thms)
  qed
  ultimately show ?case unfolding run by (intro exI [of _ result'] conjI) (rule r(1))
qed simp

lemma serves_search_all: "serves w \<Longrightarrow> FindVhostWithSearchForm role empty_form w = (Inr (vhosts (tabs w)), w)"
  by (simp add: FindVhostWithSearchForm_def bind_io_run ret_io_run using_db_Inr [OF _ sql_read_serves] serves_facts vhost_matches_def empty_form_def no_classifier_def classifier_IsEmpty_def)

text \<open>
  C30 On a database that answers, while the brokers answer without changing, the collection of the RabbitMQ side
  reports for each instance whose broker could be read, and only for those, exactly how many of its
  virtual hosts are registered under each namespace and tenant, and how many of these the broker
  does not have.
\<close>

theorem vhost_discrepancies_exact:
  assumes "healthy w" "distinct (map ri_id (rabbit_instances (tabs w)))"
    "list_all (\<lambda>i. GetAllVhosts (new_helper e i no_vhost) (broker w) = (answer i, broker w) \<and> answer i \<noteq> Inl GoPanic)
       (rabbit_instances (tabs w))"
    "i \<in> set (rabbit_instances (tabs w))"
  shows "\<exists>result. collectRabbit e [] w = (Inr result, w) \<and>
    (case answer i of
       Inl failure \<Rightarrow> map_of result (RabbitMQ, ri_id i) = None
     | Inr names \<Rightarrow> \<exists>m. map_of result (RabbitMQ, ri_id i) = Some m \<and>
         map_of m = expected_counts vhost_scope (\<lambda>v. vh_vhost v \<in> set names) [v \<leftarrow> vhosts (tabs w). vh_instance v = ri_id i])"
proof -
  obtain result where r: "collect_vhosts e (vhosts (tabs w)) (rabbit_instances (tabs w)) [] w = (Inr result, w)"
    "map_of result (RabbitMQ, ri_id i) = vhost_discrepancies (vhosts (tabs w)) answer i"
    using collect_vhosts_run [OF assms(3,2), of "vhosts (tabs w)" "[]"] assms(4) by (fastforce split: option.splits)
  have "serves w" using assms(1) by (simp add: healthy_def)
  then have "collectRabbit e [] w = (Inr result, w)"
    using r(1) by (simp add: collectRabbit_def r_GetRabbitInstances_def r_dao_GetRabbitInstanceRegistrations_def bind_io_run
        attempt_io_run using_db_Inr [OF _ sql_read_serves] serves_facts serves_search_all)
  with r(2) show ?thesis
    by (auto simp: vhost_discrepancies_def count_scopes_exact [abs_def] split: sum.splits)
qed

section \<open>Requests are counted\<close>

definition counted :: "string \<times> string \<times> stat_type \<times> string \<Rightarrow> tables \<Rightarrow> nat" where
  "counted k t = (case find (\<lambda>r. stat_key r = k) (request_stats t) of None \<Rightarrow> 0 | Some r \<Rightarrow> es_total r)"

lemma counted_same_keys:
  assumes "\<And>r. stat_key (f r) = stat_key r"
  shows "counted k (t\<lparr>request_stats := map f (request_stats t)\<rparr>) =
    (case find (\<lambda>r. stat_key r = k) (request_stats t) of None \<Rightarrow> 0 | Some r \<Rightarrow> es_total (f r))"
proof -
  have "find (\<lambda>r. stat_key r = k) (map f rs) = map_option f (find (\<lambda>r. stat_key r = k) rs)" for rs
    by (induction rs) (simp_all add: assms)
  then show ?thesis by (simp add: counted_def split: option.split)
qed

definition totals_below :: "nat \<Rightarrow> tables \<Rightarrow> bool" where
  "totals_below n t \<longleftrightarrow> (\<forall>r \<in> set (request_stats t). es_total r \<le> n)"

lemma upsert_stat_counts:
  assumes "stat_fits s" "totals_below n t" "n < max_bigint"
  shows "\<exists>t'. upsert_stat now s t = Inr ((), t') \<and> composites t' = composites t \<and> totals_below (n + 1) t' \<and>
    (\<forall>k. counted k t' = counted k t + (if stat_key s = k then 1 else 0))"
proof (cases "list_ex (\<lambda>r. stat_key r = stat_key s) (request_stats t)")
  case True
  let ?f = "\<lambda>r. if stat_key r = stat_key s then r\<lparr>es_total := es_total r + 1, es_last := now\<rparr> else r"
  have "\<not> list_ex (\<lambda>r. stat_key r = stat_key s \<and> es_total r = max_bigint) (request_stats t)"
    using assms(2,3) by (fastforce simp: list_ex_iff totals_below_def)
  then have u: "upsert_stat now s t = Inr ((), t\<lparr>request_stats := map ?f (request_stats t)\<rparr>)"
    using True assms(1) by (simp add: upsert_stat_def)
  have "counted k (t\<lparr>request_stats := map ?f (request_stats t)\<rparr>) = counted k t + (if stat_key s = k then 1 else 0)" for k
  proof -
    have key: "find (\<lambda>r. stat_key r = k) rs = Some r \<Longrightarrow> stat_key r = k" for r rs
      by (induction rs) (auto split: if_splits)
    have same: "stat_key (?f r) = stat_key r" for r by (simp add: stat_key_def)
    show ?thesis
    proof (cases "find (\<lambda>r. stat_key r = k) (request_stats t)")
      case None
      then have "stat_key s \<noteq> k" using True by (auto simp: list_ex_iff find_None_iff)
      with None show ?thesis unfolding counted_same_keys [of ?f, OF same] by (simp add: counted_def)
    next
      case (Some r)
      with key [OF Some] show ?thesis unfolding counted_same_keys [of ?f, OF same] by (simp add: counted_def)
    qed
  qed
  with u assms(2) show ?thesis by (auto simp: totals_below_def)
next
  case False
  let ?t = "t\<lparr>request_stats := request_stats t @ [s\<lparr>es_total := 1, es_last := now\<rparr>]\<rparr>"
  have u: "upsert_stat now s t = Inr ((), ?t)" using False assms(1) by (simp add: upsert_stat_def)
  have a: "find P (xs @ [y]) = (case find P xs of None \<Rightarrow> if P y then Some y else None | Some x \<Rightarrow> Some x)" for P y
      and xs :: "request_stat list"
    by (induction xs) simp_all
  have "find (\<lambda>r. stat_key r = stat_key s) (request_stats t) = None"
    using False by (simp add: find_None_iff list_ex_iff)
  then have "counted k ?t = counted k t + (if stat_key s = k then 1 else 0)" for k
    by (auto simp: counted_def a stat_key_def split: option.splits)
  with u assms(2) show ?thesis by (auto simp: totals_below_def)
qed

lemma record_request_run:
  assumes w: "healthy w" and s: "upsert_stat now s (tabs w) = Inr ((), t')" "composites t' = composites (tabs w)"
  shows "record_request now s w = (Inr (), w\<lparr>tabs := t'\<rparr>)"
proof -
  have "deferred_ok (tabs w) t'" by (rule deferred_ok_same) (rule s(2))
  with w s(1) have "dao_AddEntityRequestStat now s w = (Inr (), w\<lparr>tabs := t'\<rparr>)"
    by (simp add: dao_AddEntityRequestStat_def with_tx_healthy sql_write_live)
  then show ?thesis by (simp add: record_request_def bind_io_run attempt_io_run ret_io_run)
qed

text \<open>
  No counted request is lost or counted twice: after any sequence of recordings, on a database that answers, each
  counter (of a namespace, microservice, kind and name) has grown by exactly the number of
  recordings of its key, as long as the texts fit their columns and no counter leaves the range of
  its column.
\<close>

theorem requests_are_counted:
  assumes "healthy w" "list_all (\<lambda>r. stat_fits (snd r)) rs" "totals_below n (tabs w)" "n + length rs \<le> max_bigint"
  shows "\<exists>t'. for_each (\<lambda>r. record_request (fst r) (snd r)) rs w = (Inr (), w\<lparr>tabs := t'\<rparr>) \<and>
    (\<forall>k. counted k t' = counted k (tabs w) + length [r \<leftarrow> rs. stat_key (snd r) = k])"
  using assms
proof (induction rs arbitrary: w n)
  case Nil
  show ?case by (rule exI [of _ "tabs w"]) (simp add: ret_io_run)
next
  case (Cons r rs)
  obtain t1 where t1: "upsert_stat (fst r) (snd r) (tabs w) = Inr ((), t1)" "composites t1 = composites (tabs w)"
      "totals_below (n + 1) t1" "\<forall>k. counted k t1 = counted k (tabs w) + (if stat_key (snd r) = k then 1 else 0)"
    using upsert_stat_counts [of "snd r" n "tabs w" "fst r"] Cons.prems by auto
  have "healthy (w\<lparr>tabs := t1\<rparr>)" using Cons.prems(1) by simp
  from Cons.IH [OF this, of "n + 1"] Cons.prems(2,4) t1(3)
  obtain t' where t': "for_each (\<lambda>r. record_request (fst r) (snd r)) rs (w\<lparr>tabs := t1\<rparr>) = (Inr (), w\<lparr>tabs := t'\<rparr>)"
      "\<forall>k. counted k t' = counted k t1 + length [r \<leftarrow> rs. stat_key (snd r) = k]"
    by auto
  show ?case
    by (rule exI [of _ t']) (use t' t1(4) record_request_run [OF Cons.prems(1) t1(1,2)] in \<open>auto simp: then_io_run bind_io_run\<close>)
qed

section \<open>One namespace, watched\<close>

definition watch_stat :: "string \<Rightarrow> request_stat" where
  "watch_stat n = \<lparr>es_namespace = ''org'', es_microservice = ''svc'', es_type = EntityTypeTopic, es_name = n, es_instance = ''a'',
     es_last = 0, es_total = 0\<rparr>"

definition watch_start :: "unit world" where
  "watch_start = mk_world (empty_tables\<lparr>request_stats := [(watch_stat ''orders'')\<lparr>es_total := 5\<rparr>],
     rabbit_instances := [\<lparr>ri_id = ''a'', ri_api_url = ''http://a/api'', ri_amqp_url = ''amqp://a'', ri_user = [], ri_password = [], ri_default = True\<rparr>],
     vhosts := [\<lparr>vh_id = 1, vh_vhost = ''one'', vh_user = [], vh_password = [], vh_namespace = ''org'', vh_instance = ''a'',
         vh_classifier = no_classifier\<rparr>,
       \<lparr>vh_id = 2, vh_vhost = ''two'', vh_user = [], vh_password = [], vh_namespace = ''org'', vh_instance = ''a'',
         vh_classifier = no_classifier\<lparr>c_name := ''two''\<rparr>\<rparr>]\<rparr>) ()"

text \<open>A broker that lists one virtual host.\<close>

definition watch_env :: "unit rabbit_env" where
  "watch_env = \<lparr>rb_http = (\<lambda>q k. (Inr \<lparr>hr_code = 200, hr_text = ''body'', hr_json = Some (JArr [JObj [(''name'', JStr ''one'')]]),
     hr_location = []\<rparr>, k)), rb_depth = 1, rb_role = ''maas'', rb_uuid = (\<lambda>k. ([], k)), rb_order = id\<rparr>"

theorem requests_are_counted_witness:
  "counted (stat_key (watch_stat ''orders'')) (tabs (snd (for_each (\<lambda>r. record_request (fst r) (snd r))
     [(1 :: int, watch_stat ''orders''), (2, watch_stat ''bills''), (3, watch_stat ''orders'')] watch_start))) = 7"
proof -
  let ?rs = "[(1 :: int, watch_stat ''orders''), (2, watch_stat ''bills''), (3, watch_stat ''orders'')]"
  have h: "healthy watch_start" by (simp add: watch_start_def)
  have f: "list_all (\<lambda>r. stat_fits (snd r)) ?rs" by (simp add: stat_fits_def watch_stat_def)
  have b: "totals_below 5 (tabs watch_start)" by (simp add: totals_below_def watch_start_def)
  have n: "5 + length ?rs \<le> max_bigint" by (simp add: max_bigint_def)
  have c: "counted (stat_key (watch_stat ''orders'')) (tabs watch_start) = 5"
    by (simp add: counted_def watch_start_def watch_stat_def stat_key_def)
  have k: "length [r \<leftarrow> ?rs. stat_key (snd r) = stat_key (watch_stat ''orders'')] = 2" by (simp add: stat_key_def watch_stat_def)
  obtain t' where "for_each (\<lambda>r. record_request (fst r) (snd r)) ?rs watch_start = (Inr (), watch_start\<lparr>tabs := t'\<rparr>)"
      "\<forall>k. counted k t' = counted k (tabs watch_start) + length [r \<leftarrow> ?rs. stat_key (snd r) = k]"
    using requests_are_counted [OF h f b n] by blast
  then have "snd (for_each (\<lambda>r. record_request (fst r) (snd r)) ?rs watch_start) = watch_start\<lparr>tabs := t'\<rparr>"
      "counted (stat_key (watch_stat ''orders'')) t' = 5 + 2"
    unfolding c [symmetric] k [symmetric] by (simp del: for_each.simps, blast)
  then show ?thesis by (simp del: for_each.simps)
qed

theorem vhost_discrepancies_exact_witness:
  "\<exists>result m. collectRabbit watch_env [] watch_start = (Inr result, watch_start) \<and> map_of result (RabbitMQ, ''a'') = Some m \<and>
     map_of m (''org'', []) = Some \<lparr>nc_registered = 2, nc_lost = 1\<rparr>"
proof -
  let ?i = "hd (rabbit_instances (tabs watch_start))"
  have i: "rabbit_instances (tabs watch_start) = [?i]" "ri_id ?i = ''a''" by (simp_all add: watch_start_def)
  have a: "GetAllVhosts (new_helper watch_env ?i no_vhost) () = (Inr [''one''], ())" by code_simp
  have h: "healthy watch_start" by (simp add: watch_start_def)
  have d: "distinct (map ri_id (rabbit_instances (tabs watch_start)))" by (simp add: watch_start_def)
  have l: "list_all (\<lambda>i. GetAllVhosts (new_helper watch_env i no_vhost) (broker watch_start) = (Inr [''one''], broker watch_start) \<and>
      (Inr [''one''] :: string list outcome) \<noteq> Inl GoPanic) (rabbit_instances (tabs watch_start))"
    using a by (subst i) simp
  have e: "expected_counts vhost_scope (\<lambda>v. vh_vhost v \<in> set [''one'']) [v \<leftarrow> vhosts (tabs watch_start). vh_instance v = ri_id ?i] (''org'', []) =
      Some \<lparr>nc_registered = 2, nc_lost = 1\<rparr>" by code_simp
  have m: "?i \<in> set (rabbit_instances (tabs watch_start))" by (simp add: watch_start_def)
  from vhost_discrepancies_exact [where answer = "\<lambda>_. Inr [''one'']", OF h d l m] i(2) e
  show ?thesis by auto
qed

end
