(* ===== verification/Maas_Cleanup.thy ===== *)
theory Maas_Cleanup
  imports Maas_Rabbit_Config Maas_Monitoring
begin

text \<open>
  The statuses of the first blue/green scheme (service/bg_service) and the cleanup of a namespace
  (service/cleanup), which runs the cleanups of all services in one transaction.
\<close>

section \<open>Statuses: data access (bg_service_dao.go)\<close>

definition zero_bg_status :: bg_status where
  "zero_bg_status = \<lparr>sb_id = 0, sb_namespace = [], sb_time = 0, sb_active = [], sb_legacy = [], sb_candidates = []\<rparr>"

text \<open>The latest one; \<open>First\<close> adds the primary key to the order.\<close>

definition latest_bg_status :: "string \<Rightarrow> tables \<Rightarrow> bg_status option" where
  "latest_bg_status ns t = first_by (\<lambda>s. - sb_time s) (sort_key sb_id [s \<leftarrow> bg_statuses t. sb_namespace s = ns])"

definition dao_GetBgStatusByNamespace :: "string \<Rightarrow> ('k, bg_status option) dbio" where
  "dao_GetBgStatusByNamespace ns =
     bind_io (attempt_io (using_db zero_bg_status (sql_first (latest_bg_status ns)))) (\<lambda>res.
       case res of
         Inl e \<Rightarrow> if is_record_not_found e then ret_io None else raise_io e
       | Inr s \<Rightarrow> ret_io (Some s))"

definition dao_GetActiveVersionByNamespace :: "string \<Rightarrow> ('k, string) dbio" where
  "dao_GetActiveVersionByNamespace ns =
     bind_io (attempt_io (using_db zero_bg_status (sql_first (latest_bg_status ns)))) (\<lambda>res.
       case res of
         Inl e \<Rightarrow> if is_record_not_found e then ret_io [] else raise_io e
       | Inr s \<Rightarrow> ret_io (sb_active s))"

definition insert_bg_status :: "bg_status \<Rightarrow> tables \<Rightarrow> (unit \<times> tables) outcome" where
  "insert_bg_status s t = Inr ((), t\<lparr>next_id := next_id t + 1, bg_statuses := bg_statuses t @ [s\<lparr>sb_id := next_id t\<rparr>]\<rparr>)"

definition InsertBgStatus :: "bg_status \<Rightarrow> ('k, unit) dbio" where
  "InsertBgStatus s = with_tx () (sql_write (insert_bg_status s))"

definition DeleteCpMessagesByNamespace :: "string \<Rightarrow> ('k, unit) dbio" where
  "DeleteCpMessagesByNamespace ns = with_tx ()
     (sql_write (\<lambda>t. Inr ((), t\<lparr>bg_statuses := [s \<leftarrow> bg_statuses t. sb_namespace s \<noteq> ns]\<rparr>)))"

section \<open>Statuses: service (bg_service.go, model/rabbit_bg_model.go)\<close>

record deployment_version =
  cd_version :: string
  cd_stage :: string

definition add_stage :: "deployment_version \<Rightarrow> bg_status \<Rightarrow> bg_status" where
  "add_stage d s =
     (if cd_stage d = ''ACTIVE'' then s\<lparr>sb_active := cd_version d\<rparr>
      else if cd_stage d = ''LEGACY'' then s\<lparr>sb_legacy := cd_version d\<rparr>
      else if cd_stage d = ''CANDIDATE'' then s\<lparr>sb_candidates := sb_candidates s @ [cd_version d]\<rparr>
      else s)"

definition valid_version :: "string \<Rightarrow> bool" where
  "valid_version v = (\<not> isl (ParseVersion v))"

definition ConvertToBgStatus :: "deployment_version list \<Rightarrow> bg_status outcome" where
  "ConvertToBgStatus ds =
     (let s = fold add_stage ds zero_bg_status in
      case ParseVersion (sb_active s) of
        Inl e \<Rightarrow> Inl e
      | Inr active \<Rightarrow>
          if active = [] then Inl Generic
          else if \<not> valid_version (sb_legacy s) then Inl Generic
          else if \<not> list_all valid_version (sb_candidates s) then Inl Generic
          else Inr s)"

definition GetAllVersions :: "bg_status \<Rightarrow> string list" where
  "GetAllVersions s = [sb_active s, sb_legacy s] @ sb_candidates s"

record bg_status_change =
  sc_current :: bg_status
  sc_prev :: "bg_status option"
  sc_namespace :: string

text \<open>The listeners run before the new status is stored.\<close>

definition ApplyBgStatus :: "(bg_status_change \<Rightarrow> ('k, unit) dbio) broadcast \<Rightarrow> int \<Rightarrow> string \<Rightarrow> bg_status \<Rightarrow> ('k, unit) dbio" where
  "ApplyBgStatus listeners now ns s =
     (let current = s\<lparr>sb_namespace := ns, sb_time := now\<rparr> in
      bind_io (dao_GetBgStatusByNamespace ns) (\<lambda>prev.
      then_io (ExecuteListeners listeners \<lparr>sc_current = current, sc_prev = prev, sc_namespace = ns\<rparr>)
        (InsertBgStatus current)))"

definition GetBgStatusByNamespace :: "string \<Rightarrow> ('k, bg_status option) dbio" where
  "GetBgStatusByNamespace ns = wrap_io (dao_GetBgStatusByNamespace ns)"

definition GetActiveVersionByNamespace :: "string \<Rightarrow> ('k, string) dbio" where
  "GetActiveVersionByNamespace ns = wrap_io (dao_GetActiveVersionByNamespace ns)"

definition bg_CleanupNamespace :: "string \<Rightarrow> ('k, unit) dbio" where
  "bg_CleanupNamespace ns = wrap_io (DeleteCpMessagesByNamespace ns)"

section \<open>Cleanup of a namespace (cleanup_service.go, server.go)\<close>

definition DeleteNamespace :: "(string \<Rightarrow> ('k, unit) dbio) list \<Rightarrow> string \<Rightarrow> ('k, unit) dbio" where
  "DeleteNamespace executors ns = with_tx_ctx (for_each (\<lambda>f. wrap_io (f ns)) executors)"

definition server_executors :: "'k kafka_helper \<Rightarrow> 'k rabbit_env \<Rightarrow> ctx \<Rightarrow> (string \<Rightarrow> ('k, unit) dbio) list" where
  "server_executors h e c =
     [kafka_CleanupNamespace h, rabbit_CleanupNamespace e c, DeleteTenantsByNamespace, CleanupData, bg_CleanupNamespace,
      composite_CleanupNamespace, DeleteKafkaInstanceDesignatorByNamespace, DeleteRabbitInstanceDesignatorByNamespace,
      cr_CleanupNamespace]"

text \<open>What the cleanup relies on: an executor writes only what a failure of its caller's transaction undoes.\<close>

locale cleanup =
  fixes executors :: "(string \<Rightarrow> ('k, unit) dbio) list"
  assumes undone: "f \<in> set executors \<Longrightarrow> transactional (f ns)"
begin

lemma all_or_nothing:
  assumes "txc w = None" "DeleteNamespace executors ns w = (Inl err, w')"
  shows "tabs w' = tabs w \<and> txc w' = None"
proof -
  have "transactional (for_each (\<lambda>f. wrap_io (f ns)) executors)" by (intro transactional_intros undone)
  with with_tx_ctx_atomic [OF assms(1) transactionalD(1)] assms(2) show ?thesis unfolding DeleteNamespace_def by blast
qed

end

lemma transactional_write: "transactional (with_tx z (sql_write f))"
  by (intro transactional_intros keeps_intros)

lemma transactional_remove_vhosts [transactional_intros]: "transactional (RemoveVHosts e c s ns)"
proof -
  have d: "keeps (in_begun T) (DeleteVHost e v)" for T v by (rule transactionalD(2)) (intro transactional_intros)
  show ?thesis unfolding RemoveVHosts_def locked_def by (intro transactional_intros rabbit_begun d)
qed

lemma transactional_executors:
  "transactional (kafka_CleanupNamespace h ns)" "transactional (rabbit_CleanupNamespace e c ns)"
  "transactional (DeleteTenantsByNamespace ns)" "transactional (CleanupData ns)" "transactional (bg_CleanupNamespace ns)"
  "transactional (composite_CleanupNamespace ns)" "transactional (DeleteKafkaInstanceDesignatorByNamespace ns)"
  "transactional (DeleteRabbitInstanceDesignatorByNamespace ns)" "transactional (cr_CleanupNamespace ns)"
  unfolding kafka_CleanupNamespace_def DeleteTopicTemplatesByNamespace_def DeleteTopicDefinitionsByNamespace_def
    rabbit_CleanupNamespace_def DeleteMsConfigsByNamespace_def
    DeleteTenantsByNamespace_def dao_DeleteTenantsByNamespace_def CleanupData_def DeleteEntityRequestsStatByNamespace_def
    bg_CleanupNamespace_def DeleteCpMessagesByNamespace_def DeleteKafkaInstanceDesignatorByNamespace_def
    k_dao_DeleteKafkaInstanceDesignatorByNamespace_def DeleteRabbitInstanceDesignatorByNamespace_def
    r_dao_DeleteRabbitInstanceDesignatorByNamespace_def cr_CleanupNamespace_def DeleteByNamespace_def
  by (intro transactional_intros keeps_intros transactional_composite_cleanup)+

interpretation server_cleanup: cleanup "server_executors h e c" for h :: "'k kafka_helper" and e :: "'k rabbit_env" and c
  by unfold_locales (auto simp: server_executors_def transactional_executors)

text \<open>
  C29 The cleanup of a namespace, over topics, virtual hosts, tenants, statistics, statuses, composite
  registrations, designators and custom resources, is all or nothing in the database: when any of its steps
  fails, every table is as it was, also those that were already cleaned, and the transaction is closed.
\<close>

theorem namespace_cleanup_all_or_nothing:
  assumes "txc w = None" "DeleteNamespace (server_executors h e c) ns w = (Inl err, w')"
  shows "tabs w' = tabs w \<and> txc w' = None"
  by (rule server_cleanup.all_or_nothing [OF assms])

text \<open>
  The last step of a cleanup fails: the registrations are back, but the topic is gone from the
  broker, which no transaction covers.
\<close>

definition failing_cleanup :: "string list world" where
  "failing_cleanup = demo_created\<lparr>faults := replicate 16 None @ [Some Generic]\<rparr>"

theorem namespace_cleanup_all_or_nothing_witness:
  "tabs (snd (DeleteNamespace (server_executors demo_helper mute_env demo_ctx) ''org'' failing_cleanup)) = tabs demo_created \<and>
   map t_topic (topics (tabs demo_created)) = [''maas.org.orders''] \<and> broker demo_created = [''maas.org.orders''] \<and>
   broker (snd (DeleteNamespace (server_executors demo_helper mute_env demo_ctx) ''org'' failing_cleanup)) = []"
proof -
  let ?run = "DeleteNamespace (server_executors demo_helper mute_env demo_ctx) ''org'' failing_cleanup"
  have "fst ?run = Inl Generic" by code_simp
  then have e: "?run = (Inl Generic, snd ?run)" by (metis prod.collapse)
  have t: "txc failing_cleanup = None" by code_simp
  from namespace_cleanup_all_or_nothing [OF t e] have "tabs (snd ?run) = tabs demo_created" by (simp add: failing_cleanup_def)
  moreover have "map t_topic (topics (tabs demo_created)) = [''maas.org.orders'']" "broker demo_created = [''maas.org.orders'']"
    by code_simp+
  moreover have "broker (snd ?run) = []" by code_simp
  ultimately show ?thesis by blast
qed

end
