(* ===== verification/Maas_Versioned.thy ===== *)
theory Maas_Versioned
  imports Maas_Cleanup
begin

text \<open>
  The first blue/green scheme in RabbitMQ (rabbit_service_dao.go, rabbit_service.go; tables of
  dao/schema/10): a microservice configures versioned entities for a version of its namespace.
  Exchanges and queues get the version as a suffix; under its plain name stands a router that
  sends a message to the exchange of the version it names, or through its alternate exchange to
  that of the active version.
\<close>

section \<open>Configurations of microservices and their entities: data access\<close>

text \<open>
  A configuration with its virtual host and its entities, and an entity with its configuration and
  the virtual host of that, are what the preloads of a query give; a query with its preloads is one
  statement here.  The column \<open>config\<close>, a copy of the request that nothing reads, is left out.
\<close>

record loaded_config =
  lc_config :: ms_config
  lc_vhost :: "vhost option"
  lc_entities :: "versioned_entity list"

record placed_entity =
  pe_entity :: versioned_entity
  pe_config :: "ms_config option"
  pe_vhost :: "vhost option"

definition zero_config :: ms_config where
  "zero_config = \<lparr>mc_id = 0, mc_namespace = [], mc_name = [], mc_vhost = 0, mc_candidate = [], mc_actual = []\<rparr>"

definition vhost_of :: "tables \<Rightarrow> ms_config \<Rightarrow> vhost option" where
  "vhost_of t m = find (\<lambda>v. vh_id v = mc_vhost m) (vhosts t)"

definition load_config :: "tables \<Rightarrow> ms_config \<Rightarrow> loaded_config" where
  "load_config t m = \<lparr>lc_config = m, lc_vhost = vhost_of t m, lc_entities = [x \<leftarrow> vers_entities t. ve_config x = mc_id m]\<rparr>"

definition place_entity :: "tables \<Rightarrow> versioned_entity \<Rightarrow> placed_entity" where
  "place_entity t x = (let c = find (\<lambda>m. mc_id m = ve_config x) (ms_configs t) in
     \<lparr>pe_entity = x, pe_config = c, pe_vhost = (case c of None \<Rightarrow> None | Some m \<Rightarrow> vhost_of t m)\<rparr>)"

text \<open>The rows that join a configuration with some property.\<close>

definition entities_in :: "(ms_config \<Rightarrow> bool) \<Rightarrow> tables \<Rightarrow> versioned_entity list" where
  "entities_in P t = [x \<leftarrow> vers_entities t. list_ex (\<lambda>m. mc_id m = ve_config x \<and> P m) (ms_configs t)]"

text \<open>The configurations of a version in a virtual host.\<close>

definition release :: "nat \<Rightarrow> string \<Rightarrow> ms_config \<Rightarrow> bool" where
  "release vid version m = (mc_vhost m = vid \<and> mc_candidate m = version)"

text \<open>The unique index on name, virtual host and candidate version, and the foreign keys.\<close>

definition same_release :: "ms_config \<Rightarrow> ms_config \<Rightarrow> bool" where
  "same_release m n = (mc_name m = mc_name n \<and> mc_vhost m = mc_vhost n \<and> mc_candidate m = mc_candidate n)"

definition insert_config :: "ms_config \<Rightarrow> tables \<Rightarrow> (nat \<times> tables) outcome" where
  "insert_config m t =
     (if list_ex (\<lambda>n. mc_id n = next_id t \<or> same_release n m) (ms_configs t) then Inl UniqueViolation
      else if \<not> list_ex (\<lambda>v. vh_id v = mc_vhost m) (vhosts t) then Inl ForeignKeyViolation
      else Inr (next_id t, t\<lparr>next_id := next_id t + 1, ms_configs := ms_configs t @ [m\<lparr>mc_id := next_id t\<rparr>]\<rparr>))"

definition save_config :: "ms_config \<Rightarrow> tables \<Rightarrow> (unit \<times> tables) outcome" where
  "save_config m t =
     (if list_ex (\<lambda>n. mc_id n \<noteq> mc_id m \<and> same_release n m) (ms_configs t) then Inl UniqueViolation
      else if \<not> list_ex (\<lambda>v. vh_id v = mc_vhost m) (vhosts t) then Inl ForeignKeyViolation
      else if list_ex (\<lambda>n. mc_id n = mc_id m) (ms_configs t)
      then Inr ((), t\<lparr>ms_configs := map (\<lambda>n. if mc_id n = mc_id m then m else n) (ms_configs t)\<rparr>)
      else Inr ((), t\<lparr>ms_configs := ms_configs t @ [m]\<rparr>))"

definition has_config :: "nat \<Rightarrow> tables \<Rightarrow> bool" where
  "has_config cid t = list_ex (\<lambda>m. mc_id m = cid) (ms_configs t)"

definition insert_versioned :: "versioned_entity \<Rightarrow> tables \<Rightarrow> (unit \<times> tables) outcome" where
  "insert_versioned x t =
     (if list_ex (\<lambda>y. ve_id y = next_id t) (vers_entities t) then Inl UniqueViolation
      else if \<not> has_config (ve_config x) t then Inl ForeignKeyViolation
      else Inr ((), t\<lparr>next_id := next_id t + 1, vers_entities := vers_entities t @ [x\<lparr>ve_id := next_id t\<rparr>]\<rparr>))"

definition save_versioned :: "versioned_entity \<Rightarrow> tables \<Rightarrow> (unit \<times> tables) outcome" where
  "save_versioned x t =
     (if \<not> has_config (ve_config x) t then Inl ForeignKeyViolation
      else if list_ex (\<lambda>y. ve_id y = ve_id x) (vers_entities t)
      then Inr ((), t\<lparr>vers_entities := map (\<lambda>y. if ve_id y = ve_id x then x else y) (vers_entities t)\<rparr>)
      else Inr ((), t\<lparr>vers_entities := vers_entities t @ [x]\<rparr>))"

definition delete_versioned :: "(versioned_entity \<Rightarrow> bool) \<Rightarrow> tables \<Rightarrow> (unit \<times> tables) outcome" where
  "delete_versioned gone t = Inr ((), t\<lparr>vers_entities := [x \<leftarrow> vers_entities t. \<not> gone x]\<rparr>)"

definition InsertRabbitMsConfig :: "ms_config \<Rightarrow> ('k, nat) dbio" where
  "InsertRabbitMsConfig m = with_tx 0 (sql_write (insert_config m))"

definition InsertRabbitVersionedEntity :: "versioned_entity \<Rightarrow> ('k, unit) dbio" where
  "InsertRabbitVersionedEntity x = with_tx () (sql_write (insert_versioned x))"

definition GetMsConfigByVhostAndMsNameAndCandidateVersion :: "nat \<Rightarrow> string \<Rightarrow> string \<Rightarrow> ('k, loaded_config option) dbio" where
  "GetMsConfigByVhostAndMsNameAndCandidateVersion vid name version =
     bind_io (attempt_io (using_db \<lparr>lc_config = zero_config, lc_vhost = None, lc_entities = []\<rparr> (sql_first (\<lambda>t.
         map_option (load_config t) (first_by mc_id [m \<leftarrow> ms_configs t. release vid version m \<and> mc_name m = name]))))) (\<lambda>res.
       case res of
         Inl e \<Rightarrow> if is_record_not_found e then ret_io None else raise_io e
       | Inr m \<Rightarrow> ret_io (Some m))"

text \<open>
  \<open>except\<close> leaves each name once; it fixes no order, the model has that of the table.  A
  configuration that is gone by the second query is dereferenced.
\<close>

definition GetMsConfigsInActiveButNotInCandidateByVhost :: "nat \<Rightarrow> string \<Rightarrow> string \<Rightarrow> ('k, loaded_config list) dbio" where
  "GetMsConfigsInActiveButNotInCandidateByVhost vid active version =
     bind_io (using_db [] (sql_read (\<lambda>t. [n \<leftarrow> remdups (map mc_name [m \<leftarrow> ms_configs t. release vid active m]).
         \<not> list_ex (\<lambda>m. release vid version m \<and> mc_name m = n) (ms_configs t)]))) (\<lambda>names.
       map_io (\<lambda>n. bind_io (GetMsConfigByVhostAndMsNameAndCandidateVersion vid n active) deref_io) names)"

definition of_namespaces :: "string \<Rightarrow> bg_namespaces option \<Rightarrow> ms_config \<Rightarrow> bool" where
  "of_namespaces ns pair m = (case pair of
      None \<Rightarrow> mc_namespace m = ns
    | Some p \<Rightarrow> mc_namespace m = n_origin p \<or> mc_namespace m = n_peer p)"

definition GetMsConfigsByBgDomainAndCandidateVersion :: "string \<Rightarrow> string \<Rightarrow> ('k, loaded_config list) dbio" where
  "GetMsConfigsByBgDomainAndCandidateVersion ns version =
     bind_io (FindByNamespace ns) (\<lambda>pair. using_db [] (sql_read (\<lambda>t.
       map (load_config t) [m \<leftarrow> ms_configs t. mc_candidate m = version \<and> of_namespaces ns pair m])))"

definition GetMsConfigsByNamespace :: "string \<Rightarrow> ('k, loaded_config list) dbio" where
  "GetMsConfigsByNamespace ns =
     bind_io (FindByNamespace ns) (\<lambda>pair. using_db [] (sql_read (\<lambda>t.
       map (load_config t) [m \<leftarrow> ms_configs t. of_namespaces ns pair m])))"

text \<open>The error of these two updates is logged and not returned.\<close>

definition UpdateMsConfigActualVersion :: "ms_config \<Rightarrow> ('k, unit) dbio" where
  "UpdateMsConfigActualVersion m = bind_io (attempt_io (with_tx () (sql_write (save_config m)))) (\<lambda>_. ret_io ())"

definition UpdateRabbitVersionedEntity :: "versioned_entity \<Rightarrow> ('k, unit) dbio" where
  "UpdateRabbitVersionedEntity x = bind_io (attempt_io (with_tx () (sql_write (save_versioned x)))) (\<lambda>_. ret_io ())"

definition GetRabbitVersEntitiesByVhostAndNameAndType :: "nat \<Rightarrow> string \<Rightarrow> entity_type \<Rightarrow> ('k, placed_entity list) dbio" where
  "GetRabbitVersEntitiesByVhostAndNameAndType vid name ty = using_db [] (sql_read (\<lambda>t.
     map (place_entity t) [x \<leftarrow> entities_in (\<lambda>m. mc_vhost m = vid) t. ve_name x = name \<and> ve_type x = ty]))"

definition GetRabbitVersEntitiesByVhostAndNameAndTypeAndActualVersion ::
    "nat \<Rightarrow> string \<Rightarrow> entity_type \<Rightarrow> string \<Rightarrow> ('k, placed_entity list) dbio" where
  "GetRabbitVersEntitiesByVhostAndNameAndTypeAndActualVersion vid name ty actual = wrap_io (using_db [] (sql_read (\<lambda>t.
     map (place_entity t) [x \<leftarrow> entities_in (\<lambda>m. mc_vhost m = vid \<and> mc_actual m = actual) t. ve_name x = name \<and> ve_type x = ty])))"

definition GetRabbitVersEntitiesByMsConfigIdAndType :: "nat \<Rightarrow> entity_type \<Rightarrow> ('k, placed_entity list) dbio" where
  "GetRabbitVersEntitiesByMsConfigIdAndType cid ty = wrap_io (using_db [] (sql_read (\<lambda>t.
     map (place_entity t) [x \<leftarrow> vers_entities t. ve_config x = cid \<and> ve_type x = ty])))"

definition DeleteAllVersEntitiesByMsConfigId :: "nat \<Rightarrow> ('k, unit) dbio" where
  "DeleteAllVersEntitiesByMsConfigId cid = wrap_io (with_tx () (sql_write (delete_versioned (\<lambda>x. ve_config x = cid))))"

definition DeleteRabbitVersEntityFromDB :: "versioned_entity \<Rightarrow> ('k, unit) dbio" where
  "DeleteRabbitVersEntityFromDB x = wrap_io (with_tx () (sql_write (delete_versioned (\<lambda>y. ve_id y = ve_id x))))"

definition DeleteMsConfig :: "ms_config \<Rightarrow> ('k, unit) dbio" where
  "DeleteMsConfig m = wrap_io (with_tx () (sql_write (\<lambda>t. Inr ((), delete_configs (\<lambda>n. mc_id n = mc_id m) t))))"

text \<open>
  What the API calls lazy bindings: whatever entity of the namespace has nothing in RabbitMQ, the
  type is not asked for.
\<close>

record lazy_binding =
  lb_vhost :: string
  lb_entity :: "jobject option"
  lb_exchange_version :: string
  lb_queue_version :: string

definition lazy_rows :: "string \<Rightarrow> tables \<Rightarrow> lazy_binding list" where
  "lazy_rows ns t = [\<lparr>lb_vhost = (case vhost_of t m of None \<Rightarrow> [] | Some v \<Rightarrow> vh_vhost v), lb_entity = ve_client x,
       lb_exchange_version = mc_candidate m, lb_queue_version = mc_actual m\<rparr>.
     x \<leftarrow> vers_entities t, m \<leftarrow> ms_configs t, mc_id m = ve_config x \<and> mc_namespace m = ns \<and> ve_rabbit x = None]"

definition GetRabbitLazyBindings :: "string \<Rightarrow> ('k, lazy_binding list) dbio" where
  "GetRabbitLazyBindings ns = wrap_io (using_db [] (sql_read (lazy_rows ns)))"

section \<open>Validation queries\<close>

text \<open>The names that occur twice: the rows are grouped by name and type.\<close>

definition repeated_names :: "versioned_entity list \<Rightarrow> string list" where
  "repeated_names xs = [ve_name x. x \<leftarrow> xs, ve_name x \<noteq> [] \<and>
     1 < length [y \<leftarrow> xs. ve_name y = ve_name x \<and> ve_type y = ve_type x]]"

definition CheckExchangesAndQueuesHaveUniqueName :: "nat \<Rightarrow> string \<Rightarrow> ('k, unit) dbio" where
  "CheckExchangesAndQueuesHaveUniqueName vid version =
     bind_io (wrap_io (using_db [] (sql_read (\<lambda>t. repeated_names (entities_in (release vid version) t))))) (\<lambda>names.
       if names = [] then ret_io ()
       else bind_io (wrap_io (using_db [] (sql_read (\<lambda>t. [x \<leftarrow> entities_in (release vid version) t. ve_name x \<in> set names])))) (\<lambda>xs.
              if xs = [] then ret_io () else raise_io BadRequest))"

definition unbound_queues :: "versioned_entity list \<Rightarrow> versioned_entity list" where
  "unbound_queues xs = [x \<leftarrow> xs. ve_type x = QueueType \<and> \<not> list_ex (\<lambda>b. ve_destination b = ve_name x) xs]"

definition sourceless_bindings :: "versioned_entity list \<Rightarrow> versioned_entity list" where
  "sourceless_bindings xs = [x \<leftarrow> xs. ve_type x = BindingType \<and> \<not> list_ex (\<lambda>s. ve_name s = ve_source x) xs]"

definition dangling_bindings :: "versioned_entity list \<Rightarrow> versioned_entity list" where
  "dangling_bindings xs = [x \<leftarrow> xs. ve_type x = BindingType \<and> \<not> list_ex (\<lambda>d. ve_name d = ve_destination x) xs]"

definition foreign_bindings :: "versioned_entity list \<Rightarrow> versioned_entity list" where
  "foreign_bindings xs = [x \<leftarrow> xs. ve_type x = BindingType \<and>
     list_ex (\<lambda>q. ve_type q = QueueType \<and> ve_name q = ve_destination x \<and> ve_config q \<noteq> ve_config x) xs]"

definition refuse_any :: "(versioned_entity list \<Rightarrow> versioned_entity list) \<Rightarrow> nat \<Rightarrow> string \<Rightarrow> ('k, unit) dbio" where
  "refuse_any bad vid version =
     bind_io (wrap_io (using_db [] (sql_read (\<lambda>t. bad (entities_in (release vid version) t))))) (\<lambda>xs.
       if xs = [] then ret_io () else raise_io BadRequest)"

definition CheckNoQueuesWithoutBinding :: "nat \<Rightarrow> string \<Rightarrow> ('k, unit) dbio" where
  "CheckNoQueuesWithoutBinding = refuse_any unbound_queues"

definition CheckBindingsHaveExistingESource :: "nat \<Rightarrow> string \<Rightarrow> ('k, versioned_entity list) dbio" where
  "CheckBindingsHaveExistingESource vid version =
     wrap_io (using_db [] (sql_read (\<lambda>t. sourceless_bindings (entities_in (release vid version) t))))"

definition CheckBindingsHaveExistingQDestination :: "nat \<Rightarrow> string \<Rightarrow> ('k, unit) dbio" where
  "CheckBindingsHaveExistingQDestination = refuse_any dangling_bindings"

definition CheckBindingDeclaredInSameMsAsQ :: "nat \<Rightarrow> string \<Rightarrow> ('k, unit) dbio" where
  "CheckBindingDeclaredInSameMsAsQ = refuse_any foreign_bindings"

text \<open>A binding without its exchange is lazy, and so only a warning.\<close>

definition validate_vhost :: "string \<Rightarrow> nat \<Rightarrow> ('k, unit) dbio" where
  "validate_vhost version vid =
     then_io (wrap_io (CheckExchangesAndQueuesHaveUniqueName vid version))
     (then_io (wrap_io (CheckNoQueuesWithoutBinding vid version))
     (then_io (wrap_io (CheckBindingsHaveExistingESource vid version))
     (then_io (wrap_io (CheckBindingsHaveExistingQDestination vid version))
       (wrap_io (CheckBindingDeclaredInSameMsAsQ vid version)))))"

definition RabbitBgValidation :: "'k rabbit_env \<Rightarrow> string \<Rightarrow> string \<Rightarrow> ('k, unit) dbio" where
  "RabbitBgValidation e ns version =
     bind_io (wrap_io (dao_FindVhostsByNamespace (rb_role e) ns)) (\<lambda>vs. for_each (\<lambda>v. validate_vhost version (vh_id v)) vs)"

definition GetLazyBindings :: "string \<Rightarrow> ('k, lazy_binding list) dbio" where
  "GetLazyBindings ns = GetRabbitLazyBindings ns"

section \<open>Recording a configuration\<close>

definition getVersEntityNameByEntityNameAndVersion :: "string \<Rightarrow> string \<Rightarrow> string" where
  "getVersEntityNameByEntityNameAndVersion n version = n @ ''-'' @ version"

primrec ExtractNames :: "json list \<Rightarrow> string list outcome" where
  "ExtractNames [] = Inr []"
| "ExtractNames (x # xs) = (case ExtractName x of Inl e \<Rightarrow> Inl e | Inr n \<Rightarrow> map_sum id (Cons n) (ExtractNames xs))"

definition SubstractEntities :: "placed_entity list \<Rightarrow> string list \<Rightarrow> placed_entity list" where
  "SubstractEntities xs names = [x \<leftarrow> xs. \<not> contains names (ve_name (pe_entity x))]"

definition isDeployOrUpdateOfMs :: "ms_config option \<Rightarrow> bool \<times> bool" where
  "isDeployOrUpdateOfMs found = (case found of
      None \<Rightarrow> (True, False)
    | Some m \<Rightarrow> if mc_candidate m = mc_actual m then (False, True) else (False, False))"

definition versioned_row :: "entity_type \<Rightarrow> nat \<Rightarrow> json \<Rightarrow> versioned_entity outcome" where
  "versioned_row ty cid client =
     (case (if ty = BindingType
            then (case ExtractSourceAndDestination client of Inl e \<Rightarrow> Inl e | Inr (s, d) \<Rightarrow> Inr ([], s, d))
            else (case ExtractName client of Inl e \<Rightarrow> Inl e | Inr n \<Rightarrow> Inr (n, [], []))) of
        Inl e \<Rightarrow> Inl e
      | Inr (n, s, d) \<Rightarrow> (case fields_or_panic client of
          Inl e \<Rightarrow> Inl e
        | Inr fs \<Rightarrow> Inr \<lparr>ve_id = 0, ve_config = cid, ve_type = ty, ve_name = n, ve_source = s, ve_destination = d,
            ve_client = Some fs, ve_rabbit = None\<rparr>))"

definition add_versioned :: "nat \<Rightarrow> entity_type \<Rightarrow> json \<Rightarrow> ('k, unit) dbio" where
  "add_versioned cid ty x = wrap_io (bind_io (lift_io (versioned_row ty cid x)) InsertRabbitVersionedEntity)"

definition no_entities :: rabbit_entities_dto where
  "no_entities = \<lparr>en_exchanges = [], en_queues = [], en_bindings = []\<rparr>"

definition addAllEntitiesFromRabbitConfigToDb :: "nat \<Rightarrow> rabbit_entities_dto option \<Rightarrow> ('k, unit) dbio" where
  "addAllEntitiesFromRabbitConfigToDb cid sec = (case sec of
      None \<Rightarrow> ret_io ()
    | Some en \<Rightarrow>
        then_io (for_each (add_versioned cid ExchangeType) (en_exchanges en))
        (then_io (for_each (add_versioned cid QueueType) (en_queues en))
          (for_each (add_versioned cid BindingType) (en_bindings en))))"

text \<open>
  An update replaces the entities of the configuration and returns those RabbitMQ has to be rid
  of: exchanges and queues that are not declared any more, and all bindings.  The queues of a
  configuration that was taken over from the active version are not its own.
\<close>

definition redeclare :: "ms_config \<Rightarrow> rabbit_entities_dto \<Rightarrow> string \<Rightarrow> bool \<Rightarrow> ('k, placed_entity list) dbio" where
  "redeclare m en version wasDeployedBefore =
     bind_io (lift_io (ExtractNames (en_exchanges en))) (\<lambda>newExchangesNames.
     bind_io (GetRabbitVersEntitiesByMsConfigIdAndType (mc_id m) ExchangeType) (\<lambda>oldExchanges.
     bind_io (lift_io (ExtractNames (en_queues en))) (\<lambda>newQueuesNames.
     bind_io (GetRabbitVersEntitiesByMsConfigIdAndType (mc_id m) QueueType) (\<lambda>oldQueues.
     bind_io (GetRabbitVersEntitiesByMsConfigIdAndType (mc_id m) BindingType) (\<lambda>oldBindings.
     then_io (DeleteAllVersEntitiesByMsConfigId (mc_id m))
     (then_io (addAllEntitiesFromRabbitConfigToDb (mc_id m) (Some en))
     (then_io (when_io (\<not> wasDeployedBefore) (UpdateMsConfigActualVersion (m\<lparr>mc_actual := version\<rparr>)))
       (ret_io (SubstractEntities oldExchanges newExchangesNames @
          (if wasDeployedBefore then SubstractEntities oldQueues newQueuesNames else []) @ oldBindings)))))))))"

definition ApplyMsConfigAndVersionedEntitiesToDb ::
    "string \<Rightarrow> rabbit_entities_dto option \<Rightarrow> nat \<Rightarrow> string \<Rightarrow> string \<Rightarrow> ('k, placed_entity list) dbio" where
  "ApplyMsConfigAndVersionedEntitiesToDb serviceName sec vid version ns =
     bind_io (GetMsConfigByVhostAndMsNameAndCandidateVersion vid serviceName version) (\<lambda>found.
       case found of
         None \<Rightarrow>
           bind_io (InsertRabbitMsConfig \<lparr>mc_id = 0, mc_namespace = ns, mc_name = serviceName, mc_vhost = vid,
               mc_candidate = version, mc_actual = version\<rparr>) (\<lambda>cid.
             then_io (addAllEntitiesFromRabbitConfigToDb cid sec) (ret_io []))
       | Some lc \<Rightarrow> redeclare (lc_config lc) (case sec of None \<Rightarrow> no_entities | Some en \<Rightarrow> en) version
             (snd (isDeployOrUpdateOfMs (Some (lc_config lc)))))"

text \<open>
  A microservice the candidate version has no configuration of keeps that of the active version,
  with its entities and its actual version.
\<close>

definition take_over :: "string \<Rightarrow> loaded_config \<Rightarrow> ('k, unit) dbio" where
  "take_over version lc =
     bind_io (InsertRabbitMsConfig ((lc_config lc)\<lparr>mc_id := 0, mc_candidate := version\<rparr>)) (\<lambda>cid.
       for_each (\<lambda>x. InsertRabbitVersionedEntity (x\<lparr>ve_id := 0, ve_config := cid\<rparr>)) (lc_entities lc))"

definition ApplyMssInActiveButNotInCandidateForVhost :: "nat \<Rightarrow> string \<Rightarrow> string \<Rightarrow> ('k, unit) dbio" where
  "ApplyMssInActiveButNotInCandidateForVhost vid active version =
     bind_io (GetMsConfigsInActiveButNotInCandidateByVhost vid active version) (\<lambda>lcs. for_each (take_over version) lcs)"

section \<open>Entities in RabbitMQ\<close>

definition created_with_reason :: "(json \<Rightarrow> ('k, json option \<times> string) io) \<Rightarrow> json \<Rightarrow> ('k, json \<times> string) io" where
  "created_with_reason handler x =
     bind_io (handler x) (\<lambda>(y, reason). case y of None \<Rightarrow> raise_io Generic | Some z \<Rightarrow> ret_io (z, reason))"

definition bind_exchanges :: "'k rabbit_helper \<Rightarrow> json \<Rightarrow> ('k, json) io" where
  "bind_exchanges h b = entity_created (\<lambda>x. bind_io (CreateExchangeBinding h x) (\<lambda>y. ret_io (y, []))) b"

definition version_route :: "string \<Rightarrow> string \<Rightarrow> json" where
  "version_route n version = JObj (object_of [(''source'', JStr n),
     (''destination'', JStr (getVersEntityNameByEntityNameAndVersion n version)),
     (''arguments'', JObj [(''version'', JStr version)]), (''routing_key'', JStr ''*'')])"

definition default_route :: "string \<Rightarrow> string \<Rightarrow> json" where
  "default_route n version = JObj (object_of [(''source'', JStr (getAltExchNameByVersionRouter n)),
     (''destination'', JStr (getVersEntityNameByEntityNameAndVersion n version))])"

definition initial_version :: string where "initial_version = ''v1''"

text \<open>An entity as it was declared, and as RabbitMQ has it; a nil map is null.\<close>

definition client_fields :: "versioned_entity \<Rightarrow> jobject" where
  "client_fields x = (case ve_client x of None \<Rightarrow> [] | Some fs \<Rightarrow> fs)"

definition rabbit_value :: "versioned_entity \<Rightarrow> json" where
  "rabbit_value x = (case ve_rabbit x of None \<Rightarrow> JNull | Some fs \<Rightarrow> JObj fs)"

definition with_name :: "string \<Rightarrow> jobject \<Rightarrow> json" where
  "with_name n fs = JObj (insert_field ''name'' (JStr n) fs)"

text \<open>An exchange of the name that is no router is deleted and made one.\<close>

definition ensure_router :: "'k rabbit_helper \<Rightarrow> string \<Rightarrow> json \<Rightarrow> ('k, unit) io" where
  "ensure_router h n exchange =
     bind_io (checkExistenceOfVersionRouter h n) (\<lambda>(exists, router).
       if exists \<and> router then ret_io ()
       else then_io (when_io exists (then_io (wrap_io (DeleteExchange h exchange)) (ret_io ())))
              (createVersionRouterWithItsAE h n))"

text \<open>What was made: its type, as RabbitMQ has it, and why it had to be made anew.\<close>

type_synonym made = "entity_type \<times> json \<times> update_status list"

definition record_made :: "versioned_entity \<Rightarrow> json \<times> string \<Rightarrow> ('k, made) dbio" where
  "record_made x cr =
     bind_io (lift_io (case fst cr of JObj fs \<Rightarrow> Inr fs | _ \<Rightarrow> Inl Generic)) (\<lambda>fs.
     then_io (UpdateRabbitVersionedEntity (x\<lparr>ve_rabbit := Some fs\<rparr>))
       (ret_io (ve_type x, fst cr, if snd cr = [] then [] else [(fst cr, snd cr)])))"

definition create_exchange :: "'k rabbit_helper \<Rightarrow> string \<Rightarrow> versioned_entity \<Rightarrow> ('k, made list) dbio" where
  "create_exchange h version x =
     (let exchange = JObj (client_fields x) in
      bind_io (lift_io (ExtractName exchange)) (\<lambda>n.
      then_io (on_broker (ensure_router h n exchange))
      (bind_io (on_broker (created_with_reason (CreateExchange h)
          (with_name (getVersEntityNameByEntityNameAndVersion n version) (client_fields x)))) (\<lambda>cr.
       bind_io (record_made x cr) (\<lambda>made.
       then_io (on_broker (bind_exchanges h (version_route n version)))
       (then_io (when_io (version = initial_version) (then_io (on_broker (bind_exchanges h (default_route n version))) (ret_io ())))
         (ret_io [made])))))))"

definition create_queue :: "'k rabbit_helper \<Rightarrow> string \<Rightarrow> versioned_entity \<Rightarrow> ('k, made list) dbio" where
  "create_queue h version x =
     bind_io (lift_io (ExtractName (JObj (client_fields x)))) (\<lambda>n.
     bind_io (on_broker (created_with_reason (CreateQueue h)
         (with_name (getVersEntityNameByEntityNameAndVersion n version) (client_fields x)))) (\<lambda>cr.
     bind_io (record_made x cr) (\<lambda>made. ret_io [made])))"

definition create_named :: "'k rabbit_helper \<Rightarrow> string \<Rightarrow> ms_config \<Rightarrow> versioned_entity \<Rightarrow> ('k, made list) dbio" where
  "create_named h version m x = (case ve_type x of
      ExchangeType \<Rightarrow> create_exchange h version x
    | QueueType \<Rightarrow> if mc_candidate m \<noteq> mc_actual m then ret_io [] else create_queue h version x
    | BindingType \<Rightarrow> ret_io [])"

definition create_config :: "'k rabbit_env \<Rightarrow> string \<Rightarrow> loaded_config \<Rightarrow> ('k, made list) dbio" where
  "create_config e version lc =
     bind_io (deref_io (lc_vhost lc)) (\<lambda>v.
     bind_io (helper_for e (vh_classifier v)) (\<lambda>h.
     bind_io (map_io (create_named h version (lc_config lc)) (lc_entities lc)) (\<lambda>ms. ret_io (concat ms))))"

text \<open>
  A binding goes from the exchange of its version to the queue of the version that declared it.
  One without its exchange stays lazy.
\<close>

definition versioned_binding :: "ms_config \<Rightarrow> string \<Rightarrow> string \<Rightarrow> jobject \<Rightarrow> jobject" where
  "versioned_binding m s d fs =
     insert_field ''destination'' (JStr (getVersEntityNameByEntityNameAndVersion d (mc_actual m)))
       (insert_field ''source'' (JStr (getVersEntityNameByEntityNameAndVersion s (mc_candidate m))) fs)"

definition create_binding :: "'k rabbit_env \<Rightarrow> loaded_config \<times> versioned_entity \<Rightarrow> ('k, json list) dbio" where
  "create_binding e lx =
     (let x = snd lx; fs = client_fields x in
      bind_io (lift_io (ExtractSourceAndDestination (JObj fs))) (\<lambda>(s, d).
      bind_io (deref_io (lc_vhost (fst lx))) (\<lambda>v.
      bind_io (helper_for e (vh_classifier v)) (\<lambda>h.
      bind_io (on_broker (CreateNormalOrLazyBinding h (versioned_binding (lc_config (fst lx)) s d fs))) (\<lambda>created.
        case created of
          None \<Rightarrow> ret_io []
        | Some b \<Rightarrow> then_io (UpdateRabbitVersionedEntity (x\<lparr>ve_rabbit := Some b\<rparr>)) (ret_io [JObj b]))))))"

text \<open>Bindings come last, when all their ends have been made.\<close>

definition CreateVersionedEntities ::
    "'k rabbit_env \<Rightarrow> string \<Rightarrow> string \<Rightarrow> ('k, rabbit_entities_dto \<times> update_status list) dbio" where
  "CreateVersionedEntities e ns version =
     bind_io (GetMsConfigsByBgDomainAndCandidateVersion ns version) (\<lambda>lcs.
     bind_io (map_io (create_config e version) lcs) (\<lambda>mss.
     let ms = concat mss in
     bind_io (map_io (create_binding e) [(lc, x). lc \<leftarrow> lcs, x \<leftarrow> lc_entities lc, ve_type x = BindingType]) (\<lambda>bs.
       ret_io (\<lparr>en_exchanges = [x. (ty, x, u) \<leftarrow> ms, ty = ExchangeType], en_queues = [x. (ty, x, u) \<leftarrow> ms, ty = QueueType],
         en_bindings = concat bs\<rparr>, concat [u. (ty, x, u) \<leftarrow> ms]))))"

section \<open>Deleting\<close>

text \<open>The alternate exchange goes with the last versioned exchange of a name.\<close>

definition delete_placed :: "'k rabbit_env \<Rightarrow> placed_entity \<Rightarrow> ('k, entity_type \<times> json list) dbio" where
  "delete_placed e p = (case (pe_config p, pe_vhost p) of
      (Some m, Some v) \<Rightarrow>
        (let x = pe_entity p in
         bind_io (helper_for e (vh_classifier v)) (\<lambda>h.
           case ve_type x of
             ExchangeType \<Rightarrow>
               bind_io (on_broker (entity_deleted (DeleteExchange h) (rabbit_value x))) (\<lambda>gone.
               then_io (when_io (ve_name x \<noteq> [])
                   (bind_io (GetRabbitVersEntitiesByVhostAndNameAndType (mc_vhost m) (ve_name x) ExchangeType) (\<lambda>remaining.
                      when_io (remaining = []) (then_io (on_broker (DeleteExchange h (Maas_Rabbit_Bg.named (getAltExchNameByVersionRouter (ve_name x))))) (ret_io ())))))
                 (ret_io (ExchangeType, gone)))
           | QueueType \<Rightarrow> bind_io (on_broker (entity_deleted (DeleteQueue h) (rabbit_value x))) (\<lambda>gone. ret_io (QueueType, gone))
           | BindingType \<Rightarrow>
               if ve_rabbit x = None then ret_io (BindingType, [])
               else bind_io (on_broker (entity_deleted (DeleteBinding h) (rabbit_value x))) (\<lambda>gone. ret_io (BindingType, gone))))
    | _ \<Rightarrow> raise_io Generic)"

definition DeleteEntitiesByRabbitVersionedEntities :: "'k rabbit_env \<Rightarrow> placed_entity list \<Rightarrow> ('k, rabbit_entities_dto) dbio" where
  "DeleteEntitiesByRabbitVersionedEntities e ps =
     bind_io (map_io (delete_placed e) ps) (\<lambda>gone.
       let of_type = (\<lambda>k. concat [xs. (ty, xs) \<leftarrow> gone, ty = k]) in
       ret_io \<lparr>en_exchanges = of_type ExchangeType, en_queues = of_type QueueType, en_bindings = of_type BindingType\<rparr>)"

text \<open>
  A version that is given up: its rows are deleted one by one.  With the last exchange of a name
  its router goes, as if it were a versioned exchange; a queue goes when no other configuration
  of the same actual version has it; the bindings go with their ends.
\<close>

definition placed :: "loaded_config \<Rightarrow> versioned_entity \<Rightarrow> placed_entity" where
  "placed lc x = \<lparr>pe_entity = x, pe_config = Some (lc_config lc), pe_vhost = lc_vhost lc\<rparr>"

definition router_of :: "versioned_entity \<Rightarrow> versioned_entity" where
  "router_of x = \<lparr>ve_id = 0, ve_config = 0, ve_type = ExchangeType, ve_name = ve_name x, ve_source = [], ve_destination = [],
     ve_client = None, ve_rabbit = Some [(''name'', JStr (ve_name x))]\<rparr>"

definition retire_entity :: "loaded_config \<Rightarrow> versioned_entity \<Rightarrow> ('k, placed_entity list) dbio" where
  "retire_entity lc x =
     then_io (DeleteRabbitVersEntityFromDB x)
       (case ve_type x of
          ExchangeType \<Rightarrow>
            bind_io (GetRabbitVersEntitiesByVhostAndNameAndType (mc_vhost (lc_config lc)) (ve_name x) ExchangeType) (\<lambda>others.
              ret_io (placed lc x # (if others = [] then [placed lc (router_of x)] else [])))
        | QueueType \<Rightarrow>
            bind_io (GetRabbitVersEntitiesByVhostAndNameAndTypeAndActualVersion (mc_vhost (lc_config lc)) (ve_name x) QueueType
                (mc_actual (lc_config lc))) (\<lambda>others.
              ret_io (if others = [] then [placed lc x] else []))
        | BindingType \<Rightarrow> ret_io [])"

definition retire_config :: "loaded_config \<Rightarrow> ('k, placed_entity list) dbio" where
  "retire_config lc =
     bind_io (map_io (retire_entity lc) (lc_entities lc)) (\<lambda>gone.
     then_io (DeleteMsConfig (lc_config lc)) (ret_io (concat gone)))"

definition DeleteCandidateVersionRabbit :: "'k rabbit_env \<Rightarrow> string \<Rightarrow> string \<Rightarrow> ('k, unit) dbio" where
  "DeleteCandidateVersionRabbit e ns version =
     bind_io (GetMsConfigsByBgDomainAndCandidateVersion ns version) (\<lambda>lcs.
     bind_io (map_io retire_config lcs) (\<lambda>gone.
     then_io (DeleteEntitiesByRabbitVersionedEntities e (concat gone)) (ret_io ())))"

section \<open>A new active version\<close>

text \<open>
  First the alternate exchange of a router is bound to the exchange of the new version, which may
  not have one, then the other bindings of the alternate exchange are deleted.
\<close>

definition delete_other_route :: "'k rabbit_helper \<Rightarrow> string \<Rightarrow> json \<Rightarrow> ('k, unit) io" where
  "delete_other_route h destination b =
     bind_io (lift_io (fields_or_panic b)) (\<lambda>fs.
     bind_io (lift_io (string_field ''destination'' fs)) (\<lambda>d.
       if d = destination then ret_io ()
       else bind_io (DeleteExchangeBinding h b) (\<lambda>gone. if gone = None then raise_io Generic else ret_io ())))"

definition switch_route :: "'k rabbit_helper \<Rightarrow> string \<Rightarrow> string \<Rightarrow> ('k, unit) io" where
  "switch_route h n version =
     bind_io (attempt_io (bind_exchanges h (default_route n version))) (\<lambda>res.
     then_io (case res of
                Inl e \<Rightarrow> if e = HttpStatus 404 then ret_io () else raise_io (wrapped e)
              | Inr _ \<Rightarrow> ret_io ())
     (bind_io (GetExchangeSourceBindings h (Maas_Rabbit_Bg.named (getAltExchNameByVersionRouter n))) (\<lambda>bs.
       for_each (delete_other_route h (getVersEntityNameByEntityNameAndVersion n version)) bs)))"

definition switch_router :: "'k rabbit_helper \<Rightarrow> string \<Rightarrow> json \<Rightarrow> ('k, unit) io" where
  "switch_router h version x =
     bind_io (lift_io (fields_or_panic x)) (\<lambda>fs.
     bind_io (lift_io (string_field ''name'' fs)) (\<lambda>n.
       if system_exchange n then ret_io ()
       else bind_io (checkExistenceOfVersionRouter h n) (\<lambda>(exists, router).
              if exists \<and> \<not> router then ret_io () else switch_route h n version)))"

definition ChangeVersionRoutersActiveVersion :: "'k rabbit_env \<Rightarrow> classifier \<Rightarrow> string \<Rightarrow> ('k, unit) dbio" where
  "ChangeVersionRoutersActiveVersion e cl version =
     bind_io (helper_for e cl) (\<lambda>h.
       on_broker (bind_io (GetAllExchanges h) (\<lambda>xs. for_each (switch_router h version) xs)))"

text \<open>A change of the status: new routes, and the versions that are gone are deleted.\<close>

definition rabbit_ApplyBgStatus :: "'k rabbit_env \<Rightarrow> bg_status_change \<Rightarrow> ('k, unit) dbio" where
  "rabbit_ApplyBgStatus e change =
     (let ns = sc_namespace change; current = sc_current change in
      then_io (when_io (case sc_prev change of None \<Rightarrow> True | Some p \<Rightarrow> sb_active p \<noteq> sb_active current)
          (bind_io (wrap_io (FindVhostsByNamespace e ns)) (\<lambda>vs.
             for_each (\<lambda>v. wrap_io (ChangeVersionRoutersActiveVersion e (vh_classifier v) (sb_active current))) vs)))
        (case sc_prev change of
           None \<Rightarrow> ret_io ()
         | Some p \<Rightarrow> for_each (\<lambda>version. if version = [] then ret_io () else wrap_io (DeleteCandidateVersionRabbit e ns version))
             (SubstractStringsArray (GetAllVersions p) (GetAllVersions current))))"

text \<open>The service listens to the statuses; an error is logged.  It is the only listener of the server.\<close>

definition rabbit_listener :: "'k rabbit_env \<Rightarrow> bg_status_change \<Rightarrow> ('k, unit) dbio" where
  "rabbit_listener e change = bind_io (attempt_io (rabbit_ApplyBgStatus e change)) (\<lambda>_. ret_io ())"

definition status_listeners :: "'k rabbit_env \<Rightarrow> (bg_status_change \<Rightarrow> ('k, unit) dbio) broadcast" where
  "status_listeners e = snd (AddListener (rabbit_listener e) broadcast_new)"

section \<open>Recovery\<close>

definition all_versions :: "bg_status \<Rightarrow> string list" where
  "all_versions s = (if sb_active s \<noteq> [] then [sb_active s] else []) @ (if sb_legacy s \<noteq> [] then [sb_legacy s] else []) @ sb_candidates s"

definition RecoverVhostsByNamespace :: "'k rabbit_env \<Rightarrow> string \<Rightarrow> ('k, unit) dbio" where
  "RecoverVhostsByNamespace e ns =
     then_io (recover_vhosts e ns)
     (bind_io (GetBgStatusByNamespace ns) (\<lambda>status. case status of
        None \<Rightarrow> ret_io ()
      | Some s \<Rightarrow> for_each (\<lambda>version. then_io (CreateVersionedEntities e ns version) (ret_io ())) (all_versions s)))"

end
