(* ===== verification/Maas_Versioned_Config.thy ===== *)
theory Maas_Versioned_Config
  imports Maas_Versioned
begin

text \<open>
  Virtual hosts of an aggregated configuration (configurator_service.go): the configurations of
  all microservices of a namespace, applied together for one version of the first blue/green
  scheme, in one transaction.
\<close>

section \<open>A transaction whose result comes with its error (dao/tx.go)\<close>

text \<open>
  \<open>WithTransactionContextValue\<close> hands on the result also when there was an error, which rolls
  back; and when the commit fails.
\<close>

definition with_tx_ctx_both :: "('k, 'a \<times> err option) dbio \<Rightarrow> ('k, 'a \<times> err option) dbio" where
  "with_tx_ctx_both f w = (case txc w of
      None \<Rightarrow> (case f (open_ctx w) of
          (Inl p, w') \<Rightarrow> tx_end (Inl p) w'
        | (Inr (a, Some e), w') \<Rightarrow> (Inr (a, Some e), snd (tx_end (Inl e :: unit outcome) w'))
        | (Inr (a, None), w') \<Rightarrow> (case tx_end (Inr ()) w' of
              (Inl e, w'') \<Rightarrow> (Inr (a, Some e), w'')
            | (Inr _, w'') \<Rightarrow> (Inr (a, None), w'')))
    | Some c \<Rightarrow> (case f (w\<lparr>txc := Some (c\<lparr>nesting := nesting c + 1\<rparr>)\<rparr>) of (r, w') \<Rightarrow>
          (r, (case txc w' of None \<Rightarrow> w' | Some c' \<Rightarrow> w'\<lparr>txc := Some (c'\<lparr>nesting := nesting c' - 1\<rparr>)\<rparr>))))"

section \<open>One microservice after the other\<close>

text \<open>
  The first error ends the request.  Some errors are noted in the answer of the microservice, and
  some are not.
\<close>

type_synonym 'a noted = "(bool \<times> err) + 'a"

definition unnoted :: "('k, 'a) dbio \<Rightarrow> ('k, 'a noted) dbio" where
  "unnoted m = bind_io (attempt_io m) (\<lambda>r. ret_io (map_sum (\<lambda>e. (False, e)) id r))"

definition noted :: "('k, 'a) dbio \<Rightarrow> ('k, 'a noted) dbio" where
  "noted m = bind_io (attempt_io m) (\<lambda>r. ret_io (map_sum (\<lambda>e. (True, wrapped e)) id r))"

definition next_noted :: "('k, 'a noted) dbio \<Rightarrow> ('a \<Rightarrow> ('k, 'b noted) dbio) \<Rightarrow> ('k, 'b noted) dbio" where
  "next_noted m f = bind_io m (\<lambda>r. case r of Inl e \<Rightarrow> ret_io (Inl e) | Inr a \<Rightarrow> f a)"

text \<open>
  A microservice without configuration has none in any virtual host of the namespace.  A
  configuration that is shared has no name, and is refused.
\<close>

definition apply_service ::
    "'k rabbit_env \<Rightarrow> ctx \<Rightarrow> string \<Rightarrow> string \<Rightarrow> vhost_spec service_config \<Rightarrow> ('k, placed_entity list noted) dbio" where
  "apply_service e c ns version sc =
     (if sc_service sc = [] then ret_io (Inl (True, Generic))
      else case sc_payload sc of
        None \<Rightarrow>
          next_noted (unnoted (wrap_io (FindVhostsByNamespace e ns))) (\<lambda>vs. noted
            (bind_io (map_io (\<lambda>v. ApplyMsConfigAndVersionedEntitiesToDb (sc_service sc) None (vh_id v) version ns) vs) (\<lambda>ds.
               ret_io (concat ds))))
      | Some (Vhost s) \<Rightarrow>
          next_noted (unnoted (GetOrCreateVhost e c (vs_instance s) (vs_classifier s) None)) (\<lambda>(found, registration). noted
            (bind_io (deref_io registration) (\<lambda>v.
             bind_io (ApplyMsConfigAndVersionedEntitiesToDb (sc_service sc) (vs_versioned s) (vh_id v) version ns) (\<lambda>deleted.
             then_io (ApplyRabbitConfiguration e c s ns) (ret_io deleted)))))
      | Some _ \<Rightarrow> ret_io (Inl (False, Generic)))"

text \<open>The answers by the names of the microservices: the later of two with one name counts.\<close>

type_synonym results = "(string \<times> err option) list"

primrec applyRabbitConfigV1AndServiceConfigsToDb ::
    "'k rabbit_env \<Rightarrow> ctx \<Rightarrow> string \<Rightarrow> string \<Rightarrow> vhost_spec service_config list \<Rightarrow> results \<Rightarrow> placed_entity list \<Rightarrow>
     ('k, results \<times> placed_entity list \<times> err option) dbio" where
  "applyRabbitConfigV1AndServiceConfigsToDb e c ns version [] results deleted = ret_io (results, deleted, None)"
| "applyRabbitConfigV1AndServiceConfigsToDb e c ns version (sc # scs) results deleted =
     bind_io (apply_service e c ns version sc) (\<lambda>r. case r of
         Inl (note, err) \<Rightarrow> ret_io (if note then AList.update (sc_service sc) (Some err) results else results, deleted, Some err)
       | Inr gone \<Rightarrow> applyRabbitConfigV1AndServiceConfigsToDb e c ns version scs
             (if sc_payload sc = None then results else AList.update (sc_service sc) None results) (deleted @ gone))"

section \<open>The versioned part\<close>

text \<open>Before the first deployment there is no active version; it becomes the initial one.\<close>

definition active_version :: "'k rabbit_env \<Rightarrow> int \<Rightarrow> string \<Rightarrow> ('k, string) dbio" where
  "active_version e now ns =
     bind_io (wrap_io (GetActiveVersionByNamespace ns)) (\<lambda>active.
       if active = []
       then then_io (ApplyBgStatus (status_listeners e) now ns (zero_bg_status\<lparr>sb_active := initial_version\<rparr>)) (ret_io initial_version)
       else ret_io active)"

definition apply_versions :: "'k rabbit_env \<Rightarrow> int \<Rightarrow> string \<Rightarrow> string \<Rightarrow> placed_entity list \<Rightarrow> ('k, unit) dbio" where
  "apply_versions e now ns version deleted =
     bind_io (active_version e now ns) (\<lambda>active.
     then_io (when_io (active \<noteq> version)
         (bind_io (wrap_io (FindVhostsByNamespace e ns)) (\<lambda>vs.
            for_each (\<lambda>v. wrap_io (ApplyMssInActiveButNotInCandidateForVhost (vh_id v) active version)) vs)))
     (then_io (RabbitBgValidation e ns version)
     (then_io (wrap_io (DeleteEntitiesByRabbitVersionedEntities e deleted))
     (then_io (wrap_io (CreateVersionedEntities e ns version)) (ret_io ())))))"

definition applyRabbitConfigurationV2 ::
    "'k rabbit_env \<Rightarrow> int \<Rightarrow> ctx \<Rightarrow> string \<Rightarrow> vhost_spec service_config list \<Rightarrow> string \<Rightarrow> ('k, results \<times> err option) dbio" where
  "applyRabbitConfigurationV2 e now c version scs ns =
     bind_io (applyRabbitConfigV1AndServiceConfigsToDb e c ns version scs [] []) (\<lambda>(results, deleted, failed).
       case failed of
         Some err \<Rightarrow> ret_io (results, Some err)
       | None \<Rightarrow> bind_io (attempt_io (apply_versions e now ns version deleted)) (\<lambda>r.
           ret_io (results, case r of Inl err \<Rightarrow> Some err | Inr _ \<Rightarrow> None)))"

text \<open>
  The answers: a microservice without an error noted for it is answered with success, also when
  the request ended before it or was rolled back after it.
\<close>

definition response_of :: "results \<Rightarrow> vhost_spec service_config \<Rightarrow> vhost_spec service_config \<times> config_result outcome" where
  "response_of results sc = (sc, case map_of results (sc_service sc) of
      Some (Some err) \<Rightarrow> Inl (opaque err)
    | _ \<Rightarrow> Inr NoResult)"

definition apply_all_vhosts :: "'k rabbit_env \<Rightarrow> int \<Rightarrow> 'k all_vhosts" where
  "apply_all_vhosts e now c version scs ns =
     bind_io (with_tx_ctx_both (applyRabbitConfigurationV2 e now c version scs ns)) (\<lambda>(results, err).
       ret_io (map (response_of results) scs, map_option opaque err))"

text \<open>The operations of the configurator, as the server wires them.\<close>

definition program_ops :: "'k rabbit_env \<Rightarrow> int \<Rightarrow> ('k, vhost_spec) rabbit_ops" where
  "program_ops e now = rabbit_ops_of e (apply_all_vhosts e now)"

end
