(* ===== verification/Maas_Versioned_Props.thy ===== *)
theory Maas_Versioned_Props
  imports Maas_Versioned_Config
begin

text \<open>
  What the first blue/green scheme promises: an aggregated configuration is recorded as a whole or
  not at all; validation decides what it says; what a microservice declared is what is recorded;
  the candidate version takes over what it does not configure; and a version that is given up
  leaves no rows.
\<close>

section \<open>In one transaction\<close>

text \<open>The case distinctions of this scheme, on types of its own.\<close>

lemma transactional_entity_type [transactional_intros]:
  "transactional x \<Longrightarrow> transactional q \<Longrightarrow> transactional b \<Longrightarrow>
   transactional (case ty of ExchangeType \<Rightarrow> x | QueueType \<Rightarrow> q | BindingType \<Rightarrow> b)"
  by (cases ty) auto

lemma transactional_versioned_reads [transactional_intros]:
  "transactional (GetMsConfigByVhostAndMsNameAndCandidateVersion vid n version)"
  "transactional (GetMsConfigsInActiveButNotInCandidateByVhost vid active version)"
  "transactional (GetMsConfigsByBgDomainAndCandidateVersion ns version)"
  "transactional (GetRabbitVersEntitiesByVhostAndNameAndType vid n ty)"
  "transactional (GetRabbitVersEntitiesByVhostAndNameAndTypeAndActualVersion vid n ty version)"
  "transactional (GetRabbitVersEntitiesByMsConfigIdAndType cid ty)"
  "transactional (dao_GetBgStatusByNamespace ns)" "transactional (GetActiveVersionByNamespace ns)"
  unfolding GetMsConfigByVhostAndMsNameAndCandidateVersion_def GetMsConfigsInActiveButNotInCandidateByVhost_def
    GetMsConfigsByBgDomainAndCandidateVersion_def GetRabbitVersEntitiesByVhostAndNameAndType_def
    GetRabbitVersEntitiesByVhostAndNameAndTypeAndActualVersion_def GetRabbitVersEntitiesByMsConfigIdAndType_def
    dao_GetBgStatusByNamespace_def GetActiveVersionByNamespace_def dao_GetActiveVersionByNamespace_def
  by (intro transactional_intros transactional_domain)+

lemma transactional_versioned_writes [transactional_intros]:
  "transactional (InsertRabbitMsConfig m)" "transactional (InsertRabbitVersionedEntity x)"
  "transactional (UpdateMsConfigActualVersion m)" "transactional (UpdateRabbitVersionedEntity x)"
  "transactional (DeleteAllVersEntitiesByMsConfigId cid)" "transactional (DeleteRabbitVersEntityFromDB x)"
  "transactional (DeleteMsConfig m)" "transactional (InsertBgStatus s)"
  unfolding InsertRabbitMsConfig_def InsertRabbitVersionedEntity_def UpdateMsConfigActualVersion_def UpdateRabbitVersionedEntity_def
    DeleteAllVersEntitiesByMsConfigId_def DeleteRabbitVersEntityFromDB_def DeleteMsConfig_def InsertBgStatus_def
  by (intro transactional_intros transactional_write)+

lemma transactional_recording [transactional_intros]:
  "transactional (ApplyMsConfigAndVersionedEntitiesToDb n section vid version ns)"
  "transactional (ApplyMssInActiveButNotInCandidateForVhost vid active version)"
  unfolding ApplyMsConfigAndVersionedEntitiesToDb_def redeclare_def addAllEntitiesFromRabbitConfigToDb_def add_versioned_def
    ApplyMssInActiveButNotInCandidateForVhost_def take_over_def
  by (intro transactional_intros)+

lemma transactional_validation [transactional_intros]: "transactional (RabbitBgValidation e ns version)"
  unfolding RabbitBgValidation_def validate_vhost_def CheckExchangesAndQueuesHaveUniqueName_def CheckNoQueuesWithoutBinding_def
    CheckBindingsHaveExistingESource_def CheckBindingsHaveExistingQDestination_def CheckBindingDeclaredInSameMsAsQ_def refuse_any_def
  by (intro transactional_intros)

lemma transactional_broker_part [transactional_intros]:
  "transactional (CreateVersionedEntities e ns version)" "transactional (DeleteEntitiesByRabbitVersionedEntities e ps)"
  "transactional (DeleteCandidateVersionRabbit e ns version)"
proof -
  show "transactional (CreateVersionedEntities e ns version)"
    unfolding CreateVersionedEntities_def create_config_def create_named_def create_exchange_def create_queue_def record_made_def
      create_binding_def Let_def
    by (intro transactional_intros)
  have "transactional (delete_placed e p)" for p
    unfolding delete_placed_def Let_def by (intro transactional_intros)
  then show d: "transactional (DeleteEntitiesByRabbitVersionedEntities e ps)" for ps
    unfolding DeleteEntitiesByRabbitVersionedEntities_def Let_def by (intro transactional_intros)
  show "transactional (DeleteCandidateVersionRabbit e ns version)"
    unfolding DeleteCandidateVersionRabbit_def retire_config_def retire_entity_def by (intro transactional_intros d)
qed

lemma transactional_statuses [transactional_intros]: "transactional (ApplyBgStatus (status_listeners e) now ns s)"
proof -
  have "transactional (rabbit_ApplyBgStatus e change)" for change
    unfolding rabbit_ApplyBgStatus_def ChangeVersionRoutersActiveVersion_def Let_def by (intro transactional_intros)
  then have "transactional (rabbit_listener e change)" for change
    unfolding rabbit_listener_def by (intro transactional_intros)
  then have "transactional (ExecuteListeners (status_listeners e) change)" for change
    by (simp add: ExecuteListeners_def status_listeners_def AddListener_def broadcast_new_def) (intro transactional_intros)
  then show ?thesis unfolding ApplyBgStatus_def Let_def by (intro transactional_intros)
qed

lemma transactional_vhost_configuration [transactional_intros]:
  "transactional (GetOrCreateVhost e c iid cl version)" "transactional (ApplyRabbitConfiguration e c s ns)"
proof -
  show v: "transactional (GetOrCreateVhost e c iid cl version)" for iid cl version
    unfolding GetOrCreateVhost_def CheckSecurityForSingleNamespace_def GetAllowedNamespaces_def by (intro transactional_intros)
  have "transactional (DeleteEntities e cl rd)" "transactional (ApplyPolicies e cl ps)" for cl rd ps
    unfolding DeleteEntities_def ApplyPolicies_def entity_defs Let_def remove_all_def remove_named_def remove_binding_def
    by (intro transactional_intros rabbit_begun)+
  then show "transactional (ApplyRabbitConfiguration e c s ns)"
    unfolding ApplyRabbitConfiguration_def apply_sections_def GetConnectionUrl_def ResolveRabbitInstanceById_def
    by (intro transactional_intros v)
qed

lemma transactional_services: "transactional (applyRabbitConfigV1AndServiceConfigsToDb e c ns version scs results deleted)"
proof (induction scs arbitrary: results deleted)
  case Nil
  show ?case unfolding applyRabbitConfigV1AndServiceConfigsToDb.simps by (intro transactional_intros)
next
  case (Cons sc scs)
  have p: "transactional (apply_service e c ns version sc)"
    unfolding apply_service_def next_noted_def unnoted_def noted_def
    by (intro transactional_intros) (auto split: payload.split intro!: transactional_intros)
  show ?case unfolding applyRabbitConfigV1AndServiceConfigsToDb.simps by (intro transactional_intros p Cons.IH)
qed

lemma transactional_configurations: "transactional (applyRabbitConfigurationV2 e now c version scs ns)"
  unfolding applyRabbitConfigurationV2_def apply_versions_def active_version_def
  by (intro transactional_intros transactional_services)

lemma with_tx_ctx_both_top:
  assumes "txc w = None" "with_tx_ctx_both f w = (r, w')"
  obtains p w1 where "f (open_ctx w) = (Inl p, w1)" "tx_end (Inl p) w1 = (r, w')"
  | a e w1 q where "f (open_ctx w) = (Inr (a, Some e), w1)" "r = Inr (a, Some e)" "tx_end (Inl e :: unit outcome) w1 = (q, w')"
  | a w1 q where "f (open_ctx w) = (Inr (a, None), w1)" "tx_end (Inr () :: unit outcome) w1 = (q, w')"
      "r = Inr (a, case q of Inl e \<Rightarrow> Some e | Inr _ \<Rightarrow> None)"
proof -
  obtain r1 w1 where 1: "f (open_ctx w) = (r1, w1)" by (metis surj_pair)
  note both = assms(2) [unfolded with_tx_ctx_both_def assms(1) option.case 1 prod.case]
  show thesis
  proof (cases r1)
    case (Inl p)
    with both 1 show thesis by (intro that(1)) simp_all
  next
    case (Inr ae)
    obtain a oe where ae: "ae = (a, oe)" by (metis surj_pair)
    show thesis
    proof (cases oe)
      case None
      obtain q v where q: "tx_end (Inr () :: unit outcome) w1 = (q, v)" by (metis surj_pair)
      with both 1 Inr ae None show thesis by (intro that(3) [of a w1 q]) (auto split: sum.splits)
    next
      case (Some x)
      with both 1 Inr ae show thesis by (intro that(2) [of a x w1 "fst (tx_end (Inl x :: unit outcome) w1)"]) auto
    qed
  qed
qed

lemma with_tx_ctx_both_atomic:
  assumes "txc w = None" "transactional f" "with_tx_ctx_both f w = (r, w')"
  shows "txc w' = None \<and> (case r of Inl p \<Rightarrow> tabs w' = tabs w | Inr (a, e) \<Rightarrow> e \<noteq> None \<longrightarrow> tabs w' = tabs w)"
proof -
  have c: "committed w1 = tabs w" if "f (open_ctx w) = (r1, w1)" for r1 w1
    using keepsD [OF transactionalD(1) [OF assms(2)] that, of "tabs w"] in_ctx_open [of w 1 False]
    by (simp add: open_ctx_def in_ctx_def)
  show ?thesis
    by (rule with_tx_ctx_both_top [OF assms(1,3)])
      (auto dest!: tx_end_frame c split: sum.splits)
qed

section \<open>All or nothing\<close>

lemma noted_only_with_error:
  assumes "applyRabbitConfigV1AndServiceConfigsToDb e c ns version scs results deleted w = (Inr (res, gone, None), w')"
    "\<forall>n x. map_of results n \<noteq> Some (Some x)"
  shows "\<forall>n x. map_of res n \<noteq> Some (Some x)"
  using assms
proof (induction scs arbitrary: results deleted w)
  case (Cons sc scs)
  from Cons.prems(1) show ?case
    by (auto simp: bind_io_run update_conv' Cons.prems(2) split: prod.splits sum.splits if_splits dest!: Cons.IH)
qed (simp add: ret_io_def)

text \<open>
  C31 The configurations of an aggregated configuration are applied as a whole: every microservice
  gets its answer, in order; when the request fails, whatever failed, no table has changed, though
  brokers may have; and when it succeeds no microservice is answered with an error.
\<close>

theorem configurations_all_or_nothing:
  assumes "txc w = None" "apply_all_vhosts e now c version scs ns w = (r, w')"
  shows "txc w' = None \<and> (case r of
      Inl panic \<Rightarrow> tabs w' = tabs w
    | Inr (responses, failed) \<Rightarrow> map fst responses = scs \<and>
        (if failed = None then list_all (\<lambda>x. snd x = Inr NoResult) responses else tabs w' = tabs w))"
proof -
  let ?m = "applyRabbitConfigurationV2 e now c version scs ns"
  obtain r1 w1 where 1: "with_tx_ctx_both ?m w = (r1, w1)" by (metis surj_pair)
  note a = with_tx_ctx_both_atomic [OF assms(1) transactional_configurations 1]
  have run: "w' = w1" "r = map_sum id (\<lambda>(results, err). (map (response_of results) scs, map_option opaque err)) r1"
    using assms(2) 1 by (auto simp: apply_all_vhosts_def bind_io_run split: sum.splits prod.splits)
  have n: "map_of results n \<noteq> Some (Some x)" if r1: "r1 = Inr (results, None)" for results n x
  proof -
    have "\<exists>v. ?m (open_ctx w) = (Inr (results, None), v)"
      by (rule with_tx_ctx_both_top [OF assms(1) 1]) (use r1 in \<open>auto dest!: tx_end_frame\<close>)
    then obtain gone u' where "applyRabbitConfigV1AndServiceConfigsToDb e c ns version scs [] [] (open_ctx w) = (Inr (results, gone, None), u')"
      by (auto simp: applyRabbitConfigurationV2_def bind_io_run attempt_io_run split: prod.splits sum.splits option.splits if_splits)
    from noted_only_with_error [OF this] show ?thesis by simp
  qed
  have "snd (response_of results sc) = Inr NoResult" if "r1 = Inr (results, None)" for results sc
    using n [OF that] by (auto simp: response_of_def split: option.splits)
  with a run show ?thesis
    by (auto simp: list_all_iff comp_def response_of_def split: sum.splits)
qed

section \<open>Validation\<close>

lemma served_read: "serves w \<Longrightarrow> using_db z (sql_read q) w = (Inr (q (tabs w)), w)"
  by (rule using_db_Inr [OF _ sql_read_serves]) (simp_all add: serves_facts)

text \<open>
  What a version of a virtual host has to be: exchanges and queues with names of their own, queues
  that are bound, and bindings that end in something and stand with the queue they end in.
\<close>

definition valid_release :: "versioned_entity list \<Rightarrow> bool" where
  "valid_release xs \<longleftrightarrow>
     distinct [(ve_type x, ve_name x). x \<leftarrow> xs, ve_name x \<noteq> []] \<and>
     (\<forall>q \<in> set xs. ve_type q = QueueType \<longrightarrow> (\<exists>b \<in> set xs. ve_destination b = ve_name q)) \<and>
     (\<forall>b \<in> set xs. ve_type b = BindingType \<longrightarrow> (\<exists>d \<in> set xs. ve_name d = ve_destination b)) \<and>
     (\<forall>b \<in> set xs. \<forall>q \<in> set xs. ve_type b = BindingType \<and> ve_type q = QueueType \<and> ve_name q = ve_destination b \<longrightarrow>
        ve_config q = ve_config b)"

lemma distinct_iff_once: "distinct ys \<longleftrightarrow> (\<forall>y \<in> set ys. length [z \<leftarrow> ys. z = y] \<le> 1)"
proof (induction ys)
  case (Cons a ys)
  have 0: "length [z \<leftarrow> ys. z = y] = 0 \<longleftrightarrow> y \<notin> set ys" for y by (auto simp: filter_empty_conv)
  show ?case
  proof (cases "a \<in> set ys")
    case True
    then show ?thesis using 0 [of a] by (auto intro!: bexI [of _ a])
  next
    case False
    then have "length [z \<leftarrow> a # ys. z = y] = length [z \<leftarrow> ys. z = y]" if "y \<in> set ys" for y using that by auto
    with False Cons 0 [of a] show ?thesis by simp
  qed
qed simp

lemma selected: "[f x. x \<leftarrow> xs, P x] = map f [x \<leftarrow> xs. P x]"
  by (induction xs) auto

lemma repeated_none: "repeated_names xs = [] \<longleftrightarrow> distinct [(ve_type x, ve_name x). x \<leftarrow> xs, ve_name x \<noteq> []]"
proof -
  let ?key = "\<lambda>x. (ve_type x, ve_name x)"
  have k: "[?key x. x \<leftarrow> xs, ve_name x \<noteq> []] = map ?key [x \<leftarrow> xs. ve_name x \<noteq> []]" by (rule selected)
  have c: "length [z \<leftarrow> xs. ve_name z \<noteq> [] \<and> ve_type z = ve_type x \<and> ve_name z = ve_name x] =
      length [y \<leftarrow> xs. ve_name y = ve_name x \<and> ve_type y = ve_type x]" if "ve_name x \<noteq> []" for x
    by (rule arg_cong [where f = length], rule filter_cong) (use that in auto)
  have "repeated_names xs = [] \<longleftrightarrow>
      (\<forall>x \<in> set xs. ve_name x \<noteq> [] \<longrightarrow> length [y \<leftarrow> xs. ve_name y = ve_name x \<and> ve_type y = ve_type x] \<le> 1)"
    unfolding repeated_names_def selected by (auto simp: filter_empty_conv not_less)
  then show ?thesis unfolding k distinct_iff_once by (auto simp: c filter_map comp_def)
qed

lemma refuse_any_run:
  "serves w \<Longrightarrow> refuse_any bad vid version w =
     (if bad (entities_in (release vid version) (tabs w)) = [] then Inr () else Inl BadRequest, w)"
  by (simp add: refuse_any_def bind_io_run wrap_io_run served_read)

lemma unique_names_run:
  assumes "serves w"
  shows "CheckExchangesAndQueuesHaveUniqueName vid version w =
     (if repeated_names (entities_in (release vid version) (tabs w)) = [] then Inr () else Inl BadRequest, w)"
proof -
  let ?xs = "entities_in (release vid version) (tabs w)"
  have "[x \<leftarrow> ?xs. ve_name x \<in> set (repeated_names ?xs)] \<noteq> []" if "repeated_names ?xs \<noteq> []"
  proof -
    from that obtain n where "n \<in> set (repeated_names ?xs)" by (cases "repeated_names ?xs") auto
    moreover from this obtain x where "x \<in> set ?xs" "ve_name x = n" by (auto simp: repeated_names_def split: if_splits)
    ultimately show ?thesis by (auto simp: filter_empty_conv)
  qed
  then show ?thesis using assms
    by (simp add: CheckExchangesAndQueuesHaveUniqueName_def bind_io_run wrap_io_run served_read)
qed

lemma validate_vhost_run:
  assumes "serves w"
  shows "validate_vhost version vid w =
     (if valid_release (entities_in (release vid version) (tabs w)) then Inr () else Inl BadRequest, w)"
proof -
  let ?xs = "entities_in (release vid version) (tabs w)"
  have "valid_release ?xs \<longleftrightarrow> repeated_names ?xs = [] \<and> unbound_queues ?xs = [] \<and> dangling_bindings ?xs = [] \<and> foreign_bindings ?xs = []"
    unfolding valid_release_def repeated_none
    by (auto simp: unbound_queues_def dangling_bindings_def foreign_bindings_def filter_empty_conv list_ex_iff)
  then show ?thesis using assms
    by (simp add: validate_vhost_def then_io_run wrap_io_run unique_names_run CheckNoQueuesWithoutBinding_def refuse_any_run
        CheckBindingsHaveExistingESource_def served_read CheckBindingsHaveExistingQDestination_def CheckBindingDeclaredInSameMsAsQ_def)
qed

lemma vhosts_of_run:
  assumes "serves w" "ns \<noteq> []"
  shows "dao_FindVhostsByNamespace role ns w = (Inr [v \<leftarrow> vhosts (tabs w). vh_namespace v = ns], w)"
proof -
  have m: "vhost_matches role (empty_form\<lparr>sf_namespace := ns\<rparr>) = (\<lambda>v. vh_namespace v = ns)"
    using assms(2) by (intro ext) (simp add: vhost_matches_def empty_form_def no_classifier_def classifier_IsEmpty_def)
  have c: "classifier_IsEmpty (sf_classifier (empty_form\<lparr>sf_namespace := ns\<rparr>))"
    by (simp add: empty_form_def no_classifier_def classifier_IsEmpty_def)
  show ?thesis using assms c
    by (simp add: dao_FindVhostsByNamespace_def FindVhostWithSearchForm_def bind_io_run wrap_io_run served_read m)
qed


section \<open>Runs on a master that answers\<close>

text \<open>
  \<open>serving P m Q\<close>: where the master answers and no statement is going to fail, outside of a
  transaction or inside, \<open>m\<close> started from tables with \<open>P\<close> leaves, if it returns \<open>a\<close>, tables with
  \<open>Q a\<close>.  A computation that only reads, or works on the broker, keeps what holds of the tables.
\<close>

definition ready :: "'k world \<Rightarrow> bool" where
  "ready w \<longleftrightarrow> healthy w \<or> opened w \<or> live w"

definition serving :: "(tables \<Rightarrow> bool) \<Rightarrow> ('k, 'a) dbio \<Rightarrow> ('a \<Rightarrow> tables \<Rightarrow> bool) \<Rightarrow> bool" where
  "serving P m Q \<longleftrightarrow> (\<forall>w a w'. ready w \<and> P (tabs w) \<and> m w = (Inr a, w') \<longrightarrow> ready w' \<and> Q a (tabs w'))"

definition reading :: "('k, 'a) dbio \<Rightarrow> bool" where
  "reading m \<longleftrightarrow> (\<forall>T. keeps (\<lambda>w. ready w \<and> tabs w = T) m)"

lemma ready_serves: "ready w \<Longrightarrow> serves w"
  by (auto simp: ready_def)

lemma ready_upd [simp]: "ready (w\<lparr>tabs := t\<rparr>) = ready w" "ready (w\<lparr>broker := k\<rparr>) = ready w"
  by (simp_all add: ready_def del: state_serves)

lemma entered: "committed (enter_tx w\<lparr>tabs := t\<rparr>) = tabs w"
  by (simp add: committed_def enter_tx_def)

lemma write_ready:
  assumes "ready w" "f (tabs w) = Inr (a, t)" "composites t = composites (tabs w)"
  obtains w' where "with_tx z (sql_write f) w = (Inr a, w')" "ready w'" "tabs w' = t"
proof (cases "healthy w")
  case True
  let ?u = "enter_tx w\<lparr>tabs := t\<rparr>"
  have "sql_write f (enter_tx w) = (Inr a, ?u)" using True assms by (intro sql_write_live) simp_all
  then have "with_tx z (sql_write f) w = (Inr a, ?u\<lparr>txc := None\<rparr>)"
    using True assms(3) by (intro with_tx_healthy [OF True]) (simp_all add: deferred_ok_same entered)
  with True assms(1) that show ?thesis by simp
next
  case False
  then have o: "live w \<or> opened w" using assms(1) by (auto simp: ready_def)
  then have l: "live (begin_tx w)" by auto
  have "sql_write f (begin_tx w) = (Inr a, begin_tx w\<lparr>tabs := t\<rparr>)" using assms(2) by (intro sql_write_live [OF l]) simp
  from with_tx_Inr [where f = "sql_write f" and zero = z, OF o this] l serves_facts(2) [OF state_serves(1) [OF l]]
  have "with_tx z (sql_write f) w = (Inr a, begin_tx w\<lparr>tabs := t\<rparr>)" by simp
  moreover have "ready (begin_tx w\<lparr>tabs := t\<rparr>)" using l by (simp add: ready_def del: state_serves)
  ultimately show ?thesis by (intro that [of "begin_tx w\<lparr>tabs := t\<rparr>"]) simp_all
qed

lemma write_refused:
  assumes "ready w" "f (tabs w) = Inl x" "plain_err x"
  shows "fst (with_tx z (sql_write f) w) = Inl x"
proof (cases "healthy w")
  case True
  have l: "live (enter_tx w)" using True by simp
  have "sql_write f (enter_tx w) = (Inl x, kill_tx (enter_tx w))" using l assms(2) by (intro sql_write_err) simp_all
  then show ?thesis
    using True assms(3) by (subst with_tx_healthy_Inl [OF True]) (auto simp: committed_def enter_tx_def kill_tx_def in_tx_def serves_facts)
next
  case False
  then have o: "live w \<or> opened w" using assms(1) by (auto simp: ready_def)
  then have l: "live (begin_tx w)" by auto
  have "sql_write f (begin_tx w) = (Inl x, kill_tx (begin_tx w))" using l assms(2) by (intro sql_write_err) simp_all
  from with_tx_Inl [where f = "sql_write f" and zero = z, OF o this _ assms(3)] serves_facts(2) [OF state_serves(1) [OF l]] show ?thesis by simp
qed

named_theorems serving_intros \<open>rules that derive what a computation does to the tables where the master answers\<close>

lemma serving_ret [serving_intros]: "(\<And>t. P t \<Longrightarrow> Q a t) \<Longrightarrow> serving P (ret_io a) Q"
  by (simp add: serving_def)

lemma serving_lift [serving_intros]: "(\<And>a t. r = Inr a \<Longrightarrow> P t \<Longrightarrow> Q a t) \<Longrightarrow> serving P (lift_io r) Q"
  by (auto simp: serving_def)

lemma serving_bind:
  assumes m: "serving P m R" and f: "\<And>a. serving (R a) (f a) Q"
  shows "serving P (bind_io m f) Q"
  unfolding serving_def
proof (intro allI impI, elim conjE)
  fix w b w'
  assume w: "ready w" "P (tabs w)" and "bind_io m f w = (Inr b, w')"
  then obtain a v where v: "m w = (Inr a, v)" "f a v = (Inr b, w')"
    by (auto simp: bind_io_run split: prod.splits sum.splits)
  then have "ready v \<and> R a (tabs v)" using m w unfolding serving_def by blast
  with f [of a] v(2) show "ready w' \<and> Q b (tabs w')" unfolding serving_def by blast
qed

lemma serving_then: "serving P m (\<lambda>_. R) \<Longrightarrow> serving R k Q \<Longrightarrow> serving P (then_io m k) Q"
  unfolding then_io_def by (rule serving_bind)

lemma wrap_succeeds: "wrap_io m w = (Inr a, w') \<longleftrightarrow> m w = (Inr a, w')"
  by (auto simp: wrap_io_run split: prod.splits sum.splits)

lemma serving_wrap [serving_intros]: "serving P m Q \<Longrightarrow> serving P (wrap_io m) Q"
  by (simp add: serving_def wrap_succeeds)

lemma serving_weaken: "serving R m Q' \<Longrightarrow> (\<And>t. P t \<Longrightarrow> R t) \<Longrightarrow> (\<And>a t. Q' a t \<Longrightarrow> Q a t) \<Longrightarrow> serving P m Q"
  unfolding serving_def by blast

lemma serving_each:
  "(\<And>x. x \<in> set xs \<Longrightarrow> serving P (f x) (\<lambda>_. P)) \<Longrightarrow> serving P (for_each f xs) (\<lambda>_. P)"
proof (induction xs)
  case (Cons x xs)
  have "serving P (then_io (f x) (for_each f xs)) (\<lambda>_. P)" by (rule serving_then) (use Cons in auto)
  then show ?case by simp
qed (simp add: serving_ret)

lemma serving_read [serving_intros]: "(\<And>t. P t \<Longrightarrow> Q (q t) t) \<Longrightarrow> serving P (using_db z (sql_read q)) Q"
  by (auto simp: serving_def served_read ready_serves)

lemma serving_write:
  assumes "\<And>t. P t \<Longrightarrow> (case f t of Inl x \<Rightarrow> plain_err x | Inr (a, t') \<Rightarrow> composites t' = composites t \<and> Q a t')"
  shows "serving P (with_tx z (sql_write f)) Q"
proof -
  have "ready w' \<and> Q a (tabs w')" if w: "ready w" "P (tabs w)" and run: "with_tx z (sql_write f) w = (Inr a, w')" for w a w'
  proof (cases "f (tabs w)")
    case (Inl x)
    with assms [OF w(2)] have "fst (with_tx z (sql_write f) w) = Inl x" by (intro write_refused [OF w(1)]) simp_all
    with run show ?thesis by simp
  next
    case (Inr p)
    obtain b t where p: "p = (b, t)" by (metis surj_pair)
    have c: "composites t = composites (tabs w)" "Q b t" using assms [OF w(2)] Inr p by simp_all
    from write_ready [where f = f and z = z, OF w(1) Inr [unfolded p] c(1)] run c(2) show ?thesis by (metis Inr_inject Pair_inject)
  qed
  then show ?thesis unfolding serving_def by blast
qed

lemma serving_tried_write:
  assumes "\<And>t. P t \<Longrightarrow> \<exists>a t'. f t = Inr (a, t') \<and> composites t' = composites t \<and> Q t'"
  shows "serving P (bind_io (attempt_io (with_tx z (sql_write f))) (\<lambda>_. ret_io ())) (\<lambda>_. Q)"
proof -
  have "ready w' \<and> Q (tabs w')" if w: "ready w" "P (tabs w)"
    and run: "bind_io (attempt_io (with_tx z (sql_write f))) (\<lambda>_. ret_io ()) w = (Inr u, w')" for w u w'
  proof -
    obtain a t where t: "f (tabs w) = Inr (a, t)" "composites t = composites (tabs w)" "Q t" using assms [OF w(2)] by blast
    from write_ready [where f = f and z = z, OF w(1) t(1,2)] obtain v where
      v: "with_tx z (sql_write f) w = (Inr a, v)" "ready v" "tabs v = t" .
    then have "attempt_io (with_tx z (sql_write f)) w = (Inr (Inr a), v)" by simp
    with run v t(3) show ?thesis by simp
  qed
  then show ?thesis unfolding serving_def by blast
qed

lemma serving_reading: "reading m \<Longrightarrow> serving P m (\<lambda>_. P)"
  unfolding reading_def serving_def keeps_def by (metis snd_conv)

lemma keeps_ready_read [keeps_intros]:
  "keeps (\<lambda>w. ready w \<and> tabs w = T) (using_db z (sql_read q))" "keeps (\<lambda>w. ready w \<and> tabs w = T) (on_broker g)"
  "keeps (\<lambda>w. ready w \<and> tabs w = T) (using_db z2 (sql_first q2))"
proof -
  show "keeps (\<lambda>w. ready w \<and> tabs w = T) (using_db z (sql_read q))"
    by (simp add: keeps_def served_read ready_serves)
  show "keeps (\<lambda>w. ready w \<and> tabs w = T) (on_broker g)"
    by (auto simp: keeps_def on_broker_def split: prod.splits)
  have f: "using_db z2 (sql_first q2) w = (case q2 (tabs w) of None \<Rightarrow> (Inl RecordNotFound, w) | Some a \<Rightarrow> (Inr a, w))" if "ready w" for w
    using ready_serves [OF that] by (auto simp: sql_first_serves using_db_Inr using_db_Inl serves_facts split: option.splits)
  show "keeps (\<lambda>w. ready w \<and> tabs w = T) (using_db z2 (sql_first q2))"
    by (rule keepsI) (auto simp: f split: option.splits)
qed

lemma reading_helper: "reading (helper_for e cl)"
  unfolding reading_def helper_for_def FindVhostByClassifierForHelper_def rabbit_instance_defs vhost_search_defs Let_def
  by (intro allI keeps_intros)

section \<open>What is declared is what is recorded\<close>

text \<open>The keys and foreign keys of the two tables.\<close>

definition versioned_inv :: "tables \<Rightarrow> bool" where
  "versioned_inv t \<longleftrightarrow> distinct (map mc_id (ms_configs t)) \<and>
     distinct (map (\<lambda>m. (mc_name m, mc_vhost m, mc_candidate m)) (ms_configs t)) \<and>
     mc_vhost ` set (ms_configs t) \<subseteq> vh_id ` set (vhosts t) \<and>
     distinct (map ve_id (vers_entities t)) \<and> ve_config ` set (vers_entities t) \<subseteq> mc_id ` set (ms_configs t)"

definition declared_of :: "rabbit_entities_dto option \<Rightarrow> (entity_type \<times> json) list" where
  "declared_of section = (case section of None \<Rightarrow> [] | Some en \<Rightarrow>
     map (Pair ExchangeType) (en_exchanges en) @ map (Pair QueueType) (en_queues en) @ map (Pair BindingType) (en_bindings en))"

definition as_declared :: "versioned_entity \<Rightarrow> entity_type \<times> json" where
  "as_declared x = (ve_type x, JObj (client_fields x))"

definition recorded :: "nat \<Rightarrow> tables \<Rightarrow> (entity_type \<times> json) list" where
  "recorded cid t = map as_declared [x \<leftarrow> vers_entities t. ve_config x = cid]"

text \<open>The other configurations and their entities.\<close>

definition beyond :: "nat \<Rightarrow> tables \<Rightarrow> ms_config list \<times> versioned_entity list" where
  "beyond cid t = ([k \<leftarrow> ms_configs t. mc_id k \<noteq> cid], [x \<leftarrow> vers_entities t. ve_config x \<noteq> cid])"

definition declared_names :: "json list \<Rightarrow> string set" where
  "declared_names xs = {n. \<exists>x \<in> set xs. ExtractName x = Inr n}"

definition obsolete :: "bool \<Rightarrow> rabbit_entities_dto \<Rightarrow> versioned_entity \<Rightarrow> bool" where
  "obsolete own en x = (case ve_type x of
      ExchangeType \<Rightarrow> ve_name x \<notin> declared_names (en_exchanges en)
    | QueueType \<Rightarrow> own \<and> ve_name x \<notin> declared_names (en_queues en)
    | BindingType \<Rightarrow> True)"

lemma ExtractNames_set: "ExtractNames xs = Inr ns \<Longrightarrow> set ns = declared_names xs"
proof (induction xs arbitrary: ns)
  case (Cons x xs)
  then obtain n rest where "ExtractName x = Inr n" "ExtractNames xs = Inr rest" "ns = n # rest"
    by (cases "ExtractNames xs") (auto split: sum.splits)
  with Cons.IH [of rest] show ?case by (auto simp: declared_names_def)
qed (simp add: declared_names_def)

lemma versioned_row_fields:
  "versioned_row ty cid x = Inr r \<Longrightarrow> ve_config r = cid \<and> as_declared r = (ty, x)"
  by (auto simp: versioned_row_def as_declared_def client_fields_def fields_or_panic_def split: sum.splits prod.splits json.splits)

text \<open>Rows are added to the configuration at the end of the table.\<close>

definition grown :: "nat \<Rightarrow> tables \<Rightarrow> (entity_type \<times> json) list \<Rightarrow> tables \<Rightarrow> bool" where
  "grown cid t0 ds t \<longleftrightarrow> ms_configs t = ms_configs t0 \<and> vhosts t = vhosts t0 \<and>
     (\<exists>rows. vers_entities t = vers_entities t0 @ rows \<and> (\<forall>r \<in> set rows. ve_config r = cid) \<and> map as_declared rows = ds)"

lemma grown_insert:
  assumes "grown cid t0 ds t" "insert_versioned r t = Inr (u, t')" "ve_config r = cid" "as_declared r = d"
  shows "grown cid t0 (ds @ [d]) t'"
proof -
  obtain rows where rows: "vers_entities t = vers_entities t0 @ rows" "\<forall>r \<in> set rows. ve_config r = cid" "map as_declared rows = ds"
    using assms(1) by (auto simp: grown_def)
  have "t' = t\<lparr>next_id := Suc (next_id t), vers_entities := vers_entities t @ [r\<lparr>ve_id := next_id t\<rparr>]\<rparr>"
    using assms(2) by (auto simp: insert_versioned_def split: if_splits)
  with rows assms(1,3,4) show ?thesis
    by (auto simp: grown_def as_declared_def client_fields_def intro!: exI [of _ "rows @ [r\<lparr>ve_id := next_id t\<rparr>]"])
qed

lemma serving_add: "serving (grown cid t0 ds) (add_versioned cid ty x) (\<lambda>_. grown cid t0 (ds @ [(ty, x)]))"
  unfolding add_versioned_def
proof (intro serving_wrap serving_bind)
  show "serving (grown cid t0 ds) (lift_io (versioned_row ty cid x)) (\<lambda>r t. versioned_row ty cid x = Inr r \<and> grown cid t0 ds t)"
    by (rule serving_lift) simp
  fix r
  show "serving (\<lambda>t. versioned_row ty cid x = Inr r \<and> grown cid t0 ds t) (InsertRabbitVersionedEntity r) (\<lambda>_. grown cid t0 (ds @ [(ty, x)]))"
    unfolding InsertRabbitVersionedEntity_def
    by (rule serving_write) (auto split: sum.splits dest!: versioned_row_fields intro: grown_insert simp: insert_versioned_def split: if_splits)
qed

lemma serving_add_all: "serving (grown cid t0 ds) (for_each (add_versioned cid ty) xs) (\<lambda>_. grown cid t0 (ds @ map (Pair ty) xs))"
proof (induction xs arbitrary: ds)
  case (Cons x xs)
  have e: "ds @ map (Pair ty) (x # xs) = (ds @ [(ty, x)]) @ map (Pair ty) xs" by simp
  show ?case unfolding for_each.simps e by (rule serving_then, rule serving_add, rule Cons.IH)
qed (simp add: serving_ret)

lemma serving_section:
  "serving (grown cid t0 []) (addAllEntitiesFromRabbitConfigToDb cid sec) (\<lambda>_. grown cid t0 (declared_of sec))"
proof (cases sec)
  case (Some en)
  have "serving (grown cid t0 []) (addAllEntitiesFromRabbitConfigToDb cid sec)
      (\<lambda>_. grown cid t0 ((([] @ map (Pair ExchangeType) (en_exchanges en)) @ map (Pair QueueType) (en_queues en)) @ map (Pair BindingType) (en_bindings en)))"
    unfolding addAllEntitiesFromRabbitConfigToDb_def Some option.case by (rule serving_then serving_add_all)+
  then show ?thesis by (simp add: declared_of_def Some)
qed (simp add: addAllEntitiesFromRabbitConfigToDb_def declared_of_def serving_ret)

lemma get_config_run:
  assumes "serves w"
  shows "GetMsConfigByVhostAndMsNameAndCandidateVersion vid n version w =
    (Inr (map_option (load_config (tabs w)) (first_by mc_id [m \<leftarrow> ms_configs (tabs w). release vid version m \<and> mc_name m = n])), w)"
proof (cases "first_by mc_id [m \<leftarrow> ms_configs (tabs w). release vid version m \<and> mc_name m = n]")
  case None
  with assms show ?thesis
    by (simp add: GetMsConfigByVhostAndMsNameAndCandidateVersion_def bind_io_run attempt_io_run sql_first_serves using_db_Inl serves_facts
        is_record_not_found_def)
next
  case (Some m)
  with assms show ?thesis
    by (simp add: GetMsConfigByVhostAndMsNameAndCandidateVersion_def bind_io_run attempt_io_run sql_first_serves using_db_Inr serves_facts)
qed

lemma serving_get_config:
  "(\<And>t. P t \<Longrightarrow> Q (map_option (load_config t) (first_by mc_id [m \<leftarrow> ms_configs t. release vid version m \<and> mc_name m = n])) t) \<Longrightarrow>
   serving P (GetMsConfigByVhostAndMsNameAndCandidateVersion vid n version) Q"
  by (auto simp: serving_def get_config_run ready_serves)

lemma serving_bind_lift: "(\<And>a. r = Inr a \<Longrightarrow> serving P (f a) Q) \<Longrightarrow> serving P (bind_io (lift_io r) f) Q"
  by (cases r) (auto simp: serving_def bind_io_run)

lemma serving_bind_read: "serving (\<lambda>t. t = t0) (f (q t0)) Q \<Longrightarrow> serving (\<lambda>t. t = t0) (bind_io (wrap_io (using_db z (sql_read q))) f) Q"
  by (auto simp: serving_def bind_io_run wrap_io_run served_read ready_serves)

lemma placed_rows: "map pe_entity (map (place_entity t) xs) = xs"
  by (simp add: comp_def place_entity_def Let_def)

lemma substracted: "map pe_entity (SubstractEntities (map (place_entity t) xs) ns) = [x \<leftarrow> xs. ve_name x \<notin> set ns]"
  by (induction xs) (simp_all add: SubstractEntities_def place_entity_def Let_def)

lemma release_of:
  "versioned_inv t \<Longrightarrow> m \<in> set (ms_configs t) \<Longrightarrow> k \<in> set (ms_configs t) \<Longrightarrow> same_release k m \<Longrightarrow> k = m"
  unfolding versioned_inv_def same_release_def distinct_map inj_on_def by auto

text \<open>The configuration is then of the version it is recorded for.\<close>

lemma save_actual:
  assumes i: "versioned_inv t0" and m: "m \<in> set (ms_configs t0)" and t: "ms_configs t = ms_configs t0" "vhosts t = vhosts t0"
  shows "save_config (m\<lparr>mc_actual := version\<rparr>) t =
    Inr ((), t\<lparr>ms_configs := map (\<lambda>k. if mc_id k = mc_id m then m\<lparr>mc_actual := version\<rparr> else k) (ms_configs t0)\<rparr>)"
proof -
  have "\<not> list_ex (\<lambda>n. mc_id n \<noteq> mc_id m \<and> same_release n (m\<lparr>mc_actual := version\<rparr>)) (ms_configs t)"
    using release_of [OF i m] t(1) by (auto simp: list_ex_iff same_release_def)
  moreover have "mc_vhost m \<in> vh_id ` set (vhosts t)" using i m t(2) by (auto simp: versioned_inv_def)
  then have "list_ex (\<lambda>v. vh_id v = mc_vhost m) (vhosts t)" by (force simp: list_ex_iff)
  moreover have "list_ex (\<lambda>n. mc_id n = mc_id m) (ms_configs t)" using m t(1) by (auto simp: list_ex_iff)
  ultimately show ?thesis by (simp add: save_config_def t(1))
qed

lemma serving_redeclare:
  fixes en :: rabbit_entities_dto
  assumes i: "versioned_inv t0" and m: "m \<in> set (ms_configs t0)" "mc_candidate m = version"
  shows "serving (\<lambda>t. t = t0) (redeclare m en version (mc_candidate m = mc_actual m)) (\<lambda>gone t.
     m\<lparr>mc_actual := version\<rparr> \<in> set (ms_configs t) \<and> recorded (mc_id m) t = declared_of (Some en) \<and> beyond (mc_id m) t = beyond (mc_id m) t0 \<and>
     pe_entity ` set gone = {x \<in> set (vers_entities t0). ve_config x = mc_id m \<and> obsolete (mc_actual m = version) en x})"
    (is "serving _ _ ?Q")
proof -
  let ?t1 = "t0\<lparr>vers_entities := [x \<leftarrow> vers_entities t0. ve_config x \<noteq> mc_id m]\<rparr>"
  let ?set = "map (\<lambda>k. if mc_id k = mc_id m then m\<lparr>mc_actual := version\<rparr> else k) (ms_configs t0)"
  let ?own = "mc_candidate m = mc_actual m"
  let ?done = "\<lambda>t. \<exists>u. grown (mc_id m) ?t1 (declared_of (Some en)) u \<and> (if ?own then t = u else t = u\<lparr>ms_configs := ?set\<rparr>)"
  have del: "serving (\<lambda>t. t = t0) (DeleteAllVersEntitiesByMsConfigId (mc_id m)) (\<lambda>_. grown (mc_id m) ?t1 [])"
    unfolding DeleteAllVersEntitiesByMsConfigId_def
    by (intro serving_wrap serving_write) (simp add: delete_versioned_def grown_def)
  have upd: "serving (grown (mc_id m) ?t1 (declared_of (Some en))) (when_io (\<not> ?own) (UpdateMsConfigActualVersion (m\<lparr>mc_actual := version\<rparr>))) (\<lambda>_. ?done)"
  proof (cases ?own)
    case True
    then show ?thesis by (auto simp: when_io_def serving_ret)
  next
    case False
    have "serving (grown (mc_id m) ?t1 (declared_of (Some en))) (UpdateMsConfigActualVersion (m\<lparr>mc_actual := version\<rparr>)) (\<lambda>_. ?done)"
      unfolding UpdateMsConfigActualVersion_def
    proof (rule serving_tried_write)
      fix t
      assume g: "grown (mc_id m) ?t1 (declared_of (Some en)) t"
      then have "ms_configs t = ms_configs t0" "vhosts t = vhosts t0" by (simp_all add: grown_def)
      from save_actual [OF i m(1) this] g False
      show "\<exists>a t'. save_config (m\<lparr>mc_actual := version\<rparr>) t = Inr (a, t') \<and> composites t' = composites t \<and> ?done t'" by auto
    qed
    with False show ?thesis by (simp add: when_io_def)
  qed
  have fin: "?Q gone t" if d: "?done t" and g: "pe_entity ` set gone = {x \<in> set (vers_entities t0). ve_config x = mc_id m \<and> obsolete (mc_actual m = version) en x}" for gone t
  proof -
    from d obtain u where u: "grown (mc_id m) ?t1 (declared_of (Some en)) u" "if ?own then t = u else t = u\<lparr>ms_configs := ?set\<rparr>" by blast
    obtain rows where rows: "vers_entities u = vers_entities ?t1 @ rows" "\<forall>r \<in> set rows. ve_config r = mc_id m" "map as_declared rows = declared_of (Some en)"
      using u(1) by (auto simp: grown_def)
    have c: "ms_configs u = ms_configs t0" using u(1) by (simp add: grown_def)
    have same: "m\<lparr>mc_actual := version\<rparr> = m" if ?own using that m(2) by (cases m) simp
    have v: "vers_entities t = vers_entities u" using u(2) by (auto split: if_splits)
    have "recorded (mc_id m) t = declared_of (Some en)"
      using rows by (simp add: recorded_def v filter_False filter_True)
    moreover have "[x \<leftarrow> vers_entities t. ve_config x \<noteq> mc_id m] = [x \<leftarrow> vers_entities t0. ve_config x \<noteq> mc_id m]"
      using rows by (simp add: v filter_False)
    moreover have "m\<lparr>mc_actual := version\<rparr> \<in> set (ms_configs t)"
      using u(2) m(1) c same by (auto split: if_splits)
    moreover have "[k \<leftarrow> ms_configs t. mc_id k \<noteq> mc_id m] = [k \<leftarrow> ms_configs t0. mc_id k \<noteq> mc_id m]"
    proof (cases ?own)
      case True
      with u(2) c show ?thesis by simp
    next
      case False
      have "[k \<leftarrow> map (\<lambda>k. if mc_id k = mc_id m then m\<lparr>mc_actual := version\<rparr> else k) ks. mc_id k \<noteq> mc_id m] = [k \<leftarrow> ks. mc_id k \<noteq> mc_id m]" for ks
        by (induction ks) auto
      with False u(2) show ?thesis by simp
    qed
    ultimately show ?thesis using g by (simp add: beyond_def)
  qed
  let ?rows = "\<lambda>ty. map (place_entity t0) [x \<leftarrow> vers_entities t0. ve_config x = mc_id m \<and> ve_type x = ty]"
  have gone: "pe_entity ` set (SubstractEntities (?rows ExchangeType) ns @ (if ?own then SubstractEntities (?rows QueueType) qs else []) @ ?rows BindingType) =
      {x \<in> set (vers_entities t0). ve_config x = mc_id m \<and> obsolete (mc_actual m = version) en x}"
    if "set ns = declared_names (en_exchanges en)" "set qs = declared_names (en_queues en)" for ns qs
  proof -
    have "(x \<in> pe_entity ` set (SubstractEntities (?rows ExchangeType) ns @ (if ?own then SubstractEntities (?rows QueueType) qs else []) @ ?rows BindingType)) =
        (x \<in> set (vers_entities t0) \<and> ve_config x = mc_id m \<and> obsolete (mc_actual m = version) en x)" for x
      unfolding set_map [symmetric] map_append if_distrib [of "map pe_entity"] substracted placed_rows
      using that m(2) by (cases "ve_type x") (auto simp: obsolete_def)
    then show ?thesis by blast
  qed
  show ?thesis
    unfolding redeclare_def GetRabbitVersEntitiesByMsConfigIdAndType_def
  proof (intro serving_bind_lift serving_bind_read)
    fix ns qs
    assume n: "ExtractNames (en_exchanges en) = Inr ns" "ExtractNames (en_queues en) = Inr qs"
    note g = gone [OF ExtractNames_set [OF n(1)] ExtractNames_set [OF n(2)]]
    show "serving (\<lambda>t. t = t0) (then_io (DeleteAllVersEntitiesByMsConfigId (mc_id m))
        (then_io (addAllEntitiesFromRabbitConfigToDb (mc_id m) (Some en))
        (then_io (when_io (\<not> ?own) (UpdateMsConfigActualVersion (m\<lparr>mc_actual := version\<rparr>)))
          (ret_io (SubstractEntities (?rows ExchangeType) ns @ (if ?own then SubstractEntities (?rows QueueType) qs else []) @ ?rows BindingType))))) ?Q"
      by (rule serving_then [OF del], rule serving_then [OF serving_section], rule serving_then [OF upd], rule serving_ret, erule fin [OF _ g])
  qed
qed

text \<open>Whether the configuration was of the version before.\<close>

definition deployed :: "nat \<Rightarrow> string \<Rightarrow> tables \<Rightarrow> bool" where
  "deployed cid version t = list_ex (\<lambda>k. mc_id k = cid \<and> mc_actual k = version) (ms_configs t)"

definition config_recorded ::
    "string \<Rightarrow> rabbit_entities_dto option \<Rightarrow> nat \<Rightarrow> string \<Rightarrow> tables \<Rightarrow> placed_entity list \<Rightarrow> tables \<Rightarrow> bool" where
  "config_recorded n sec vid version t0 gone t \<longleftrightarrow>
     (\<exists>m \<in> set (ms_configs t). mc_name m = n \<and> release vid version m \<and> mc_actual m = version \<and>
        recorded (mc_id m) t = declared_of sec \<and> beyond (mc_id m) t = beyond (mc_id m) t0 \<and>
        pe_entity ` set gone = {x \<in> set (vers_entities t0). ve_config x = mc_id m \<and>
          obsolete (deployed (mc_id m) version t0) (case sec of None \<Rightarrow> no_entities | Some en \<Rightarrow> en) x})"

lemma config_of_id: "versioned_inv t \<Longrightarrow> m \<in> set (ms_configs t) \<Longrightarrow> k \<in> set (ms_configs t) \<Longrightarrow> mc_id k = mc_id m \<Longrightarrow> k = m"
  unfolding versioned_inv_def distinct_map inj_on_def by auto

lemma deployed_config: "versioned_inv t \<Longrightarrow> m \<in> set (ms_configs t) \<Longrightarrow> deployed (mc_id m) version t = (mc_actual m = version)"
  unfolding deployed_def list_ex_iff using config_of_id by blast

lemma serving_deploy:
  assumes i: "versioned_inv t0"
  shows "serving (\<lambda>t. t = t0)
    (bind_io (InsertRabbitMsConfig \<lparr>mc_id = 0, mc_namespace = ns, mc_name = n, mc_vhost = vid, mc_candidate = version, mc_actual = version\<rparr>)
       (\<lambda>cid. then_io (addAllEntitiesFromRabbitConfigToDb cid sec) (ret_io [])))
    (config_recorded n sec vid version t0)"
proof -
  let ?m = "\<lambda>cid. \<lparr>mc_id = cid, mc_namespace = ns, mc_name = n, mc_vhost = vid, mc_candidate = version, mc_actual = version\<rparr>"
  let ?t1 = "\<lambda>cid. t0\<lparr>next_id := Suc cid, ms_configs := ms_configs t0 @ [?m cid]\<rparr>"
  let ?new = "\<lambda>cid ds t. cid \<notin> mc_id ` set (ms_configs t0) \<and> grown cid (?t1 cid) ds t"
  have ins: "serving (\<lambda>t. t = t0) (InsertRabbitMsConfig (?m 0)) (\<lambda>cid. ?new cid [])"
    unfolding InsertRabbitMsConfig_def
    by (rule serving_write) (auto simp: insert_config_def grown_def list_ex_iff)
  have add: "serving (?new cid []) (addAllEntitiesFromRabbitConfigToDb cid sec) (\<lambda>_. ?new cid (declared_of sec))" for cid
    using serving_section [of cid "?t1 cid" sec] by (auto simp: serving_def)
  have fin: "config_recorded n sec vid version t0 [] t" if g: "?new cid (declared_of sec) t" for cid t
  proof -
    obtain rows where rows: "vers_entities t = vers_entities t0 @ rows" "\<forall>r \<in> set rows. ve_config r = cid" "map as_declared rows = declared_of sec"
      "ms_configs t = ms_configs t0 @ [?m cid]"
      using g by (auto simp: grown_def)
    have none: "ve_config x \<noteq> cid" if "x \<in> set (vers_entities t0)" for x
      using i that g by (auto simp: versioned_inv_def)
    then have "[x \<leftarrow> vers_entities t0. ve_config x = cid] = []" by (auto simp: filter_empty_conv)
    then have "recorded cid t = declared_of sec" using rows by (simp add: recorded_def filter_True)
    moreover have "beyond cid t = beyond cid t0"
      using rows by (auto simp: beyond_def filter_False)
    ultimately show ?thesis
      unfolding config_recorded_def using rows none by (intro bexI [of _ "?m cid"]) (auto simp: release_def)
  qed
  show ?thesis
    by (rule serving_bind [OF ins], rule serving_then [OF add], rule serving_ret, erule fin)
qed

lemma serving_record:
  assumes i: "versioned_inv t0"
  shows "serving (\<lambda>t. t = t0) (ApplyMsConfigAndVersionedEntitiesToDb n sec vid version ns) (config_recorded n sec vid version t0)"
  unfolding ApplyMsConfigAndVersionedEntitiesToDb_def
proof (rule serving_bind)
  show "serving (\<lambda>t. t = t0) (GetMsConfigByVhostAndMsNameAndCandidateVersion vid n version)
     (\<lambda>found t. t = t0 \<and> found = map_option (load_config t0) (first_by mc_id [m \<leftarrow> ms_configs t0. release vid version m \<and> mc_name m = n]))"
    by (rule serving_get_config) simp
  fix found
  let ?f = "first_by mc_id [m \<leftarrow> ms_configs t0. release vid version m \<and> mc_name m = n]"
  show "serving (\<lambda>t. t = t0 \<and> found = map_option (load_config t0) ?f)
     (case found of None \<Rightarrow> bind_io (InsertRabbitMsConfig \<lparr>mc_id = 0, mc_namespace = ns, mc_name = n, mc_vhost = vid, mc_candidate = version, mc_actual = version\<rparr>)
         (\<lambda>cid. then_io (addAllEntitiesFromRabbitConfigToDb cid sec) (ret_io []))
      | Some lc \<Rightarrow> redeclare (lc_config lc) (case sec of None \<Rightarrow> no_entities | Some en \<Rightarrow> en) version (snd (isDeployOrUpdateOfMs (Some (lc_config lc)))))
     (config_recorded n sec vid version t0)"
  proof (cases found)
    case None
    then show ?thesis using serving_deploy [OF i, of ns n vid version sec] by (auto simp: serving_def)
  next
    case (Some lc)
    show ?thesis
    proof (cases "found = map_option (load_config t0) ?f")
      case True
      with Some obtain m where m: "?f = Some m" "lc = load_config t0 m" by auto
      from first_by_Some [OF m(1)] have in0: "m \<in> set (ms_configs t0)" "release vid version m" "mc_name m = n" by auto
      let ?en = "case sec of None \<Rightarrow> no_entities | Some en \<Rightarrow> en"
      have d: "declared_of (Some ?en) = declared_of sec" by (cases sec) (simp_all add: declared_of_def no_entities_def)
      have r: "serving (\<lambda>t. t = t0) (redeclare m ?en version (mc_candidate m = mc_actual m)) (config_recorded n sec vid version t0)"
        by (rule serving_weaken [OF serving_redeclare [OF i in0(1)]])
          (use in0 in \<open>auto simp: config_recorded_def release_def d deployed_config [OF i in0(1)] intro!: bexI [of _ "m\<lparr>mc_actual := version\<rparr>"]\<close>)
      have "snd (isDeployOrUpdateOfMs (Some m)) = (mc_candidate m = mc_actual m)" by (simp add: isDeployOrUpdateOfMs_def)
      with Some m(2) serving_weaken [OF r, of "\<lambda>t. t = t0 \<and> found = map_option (load_config t0) ?f"] show ?thesis
        by (simp add: load_config_def)
    next
      case False
      then show ?thesis by (simp add: serving_def)
    qed
  qed
qed

text \<open>
  C32 When the configuration of a microservice is recorded for a version, the virtual host has a
  row of that microservice and version afterwards, which is actual; its entities are exactly what
  the configuration declares, in that order; the rows and entities of every other configuration
  are as they were.  What is returned for removal is what the earlier declaration had and the new
  one has not: exchanges by name, queues only if this version had declared them itself, and all
  bindings.
\<close>

theorem configuration_recorded:
  assumes "ready w" "versioned_inv (tabs w)"
    and "ApplyMsConfigAndVersionedEntitiesToDb n sec vid version ns w = (Inr gone, w')"
  shows "config_recorded n sec vid version (tabs w) gone (tabs w')"
  using serving_record [OF assms(2), of n sec vid version ns] assms unfolding serving_def by blast

section \<open>The candidate takes over what it does not configure\<close>

text \<open>An entity without its place in the table.\<close>

definition content :: "versioned_entity \<Rightarrow> versioned_entity" where
  "content x = x\<lparr>ve_id := 0, ve_config := 0\<rparr>"

definition contents :: "nat \<Rightarrow> tables \<Rightarrow> versioned_entity list" where
  "contents cid t = map content [x \<leftarrow> vers_entities t. ve_config x = cid]"

text \<open>
  Rows and entities are added at the end, and each added row is that of a microservice in the
  active version, with its entities and its actual version, for the candidate.
\<close>

definition taken_from :: "nat \<Rightarrow> string \<Rightarrow> string \<Rightarrow> tables \<Rightarrow> tables \<Rightarrow> ms_config \<Rightarrow> bool" where
  "taken_from vid active version t0 t k \<longleftrightarrow>
     release vid version k \<and> (\<exists>m \<in> set (ms_configs t0). release vid active m \<and> mc_name k = mc_name m \<and>
       mc_actual k = mc_actual m \<and> contents (mc_id k) t = contents (mc_id m) t0)"

definition taken_over :: "nat \<Rightarrow> string \<Rightarrow> string \<Rightarrow> tables \<Rightarrow> tables \<Rightarrow> bool" where
  "taken_over vid active version t0 t \<longleftrightarrow>
     (\<exists>ks xs. ms_configs t = ms_configs t0 @ ks \<and> vers_entities t = vers_entities t0 @ xs \<and>
        (\<forall>k \<in> set ks. taken_from vid active version t0 t k)) \<and>
     (\<forall>m \<in> set (ms_configs t0). release vid active m \<longrightarrow>
        list_ex (\<lambda>k. release vid version k \<and> mc_name k = mc_name m) (ms_configs t))"

text \<open>The state between two of them: these rows were added, for these configurations.\<close>

definition copies :: "string \<Rightarrow> tables \<Rightarrow> loaded_config list \<Rightarrow> ms_config list \<Rightarrow> versioned_entity list \<Rightarrow> bool" where
  "copies version t0 lcs ks xs \<longleftrightarrow> distinct (map mc_id ks) \<and> mc_id ` set ks \<inter> mc_id ` set (ms_configs t0) = {} \<and>
     ve_config ` set xs \<subseteq> mc_id ` set ks \<and>
     list_all2 (\<lambda>lc k. k = (lc_config lc)\<lparr>mc_id := mc_id k, mc_candidate := version\<rparr> \<and>
       map content [x \<leftarrow> xs. ve_config x = mc_id k] = map content (lc_entities lc)) lcs ks"

definition copied :: "string \<Rightarrow> tables \<Rightarrow> loaded_config list \<Rightarrow> tables \<Rightarrow> bool" where
  "copied version t0 lcs t \<longleftrightarrow> (\<exists>ks xs. ms_configs t = ms_configs t0 @ ks \<and> vers_entities t = vers_entities t0 @ xs \<and>
     copies version t0 lcs ks xs)"

definition copying :: "string \<Rightarrow> tables \<Rightarrow> loaded_config list \<Rightarrow> ms_config \<Rightarrow> versioned_entity list \<Rightarrow> tables \<Rightarrow> bool" where
  "copying version t0 lcs k ds t \<longleftrightarrow> (\<exists>ks xs ys. ms_configs t = ms_configs t0 @ ks @ [k] \<and> vers_entities t = vers_entities t0 @ xs @ ys \<and>
     copies version t0 lcs ks xs \<and> mc_id k \<notin> mc_id ` set (ms_configs t0 @ ks) \<and>
     (\<forall>y \<in> set ys. ve_config y = mc_id k) \<and> map content ys = map content ds)"

lemma copies_more:
  assumes "copies version t0 lcs ks xs" "mc_id k \<notin> mc_id ` set (ms_configs t0 @ ks)"
    "\<forall>y \<in> set ys. ve_config y = mc_id k" "map content ys = map content (lc_entities lc)"
    "k = (lc_config lc)\<lparr>mc_id := mc_id k, mc_candidate := version\<rparr>"
  shows "copies version t0 (lcs @ [lc]) (ks @ [k]) (xs @ ys)"
proof -
  have new: "[y \<leftarrow> ys. ve_config y = c] = (if c = mc_id k then ys else [])" for c
    using assms(3) by (auto simp: filter_empty_conv)
  have "ve_config x \<in> mc_id ` set ks" if "x \<in> set xs" for x using assms(1) that by (auto simp: copies_def)
  moreover have "mc_id k \<notin> mc_id ` set ks" using assms(2) by auto
  ultimately have old: "[x \<leftarrow> xs. ve_config x = mc_id k] = []"
    unfolding filter_empty_conv by metis
  have ne: "mc_id k' \<noteq> mc_id k" if "k' \<in> set ks" for k' using assms(2) imageI [OF that, of mc_id] by auto
  let ?R = "\<lambda>lc k'. k' = (lc_config lc)\<lparr>mc_id := mc_id k', mc_candidate := version\<rparr> \<and>
       map content [x \<leftarrow> xs @ ys. ve_config x = mc_id k'] = map content (lc_entities lc)"
  have "list_all2 ?R lcs ks"
    using assms(1) unfolding copies_def
    by (elim conjE list.rel_mono_strong) (simp add: new ne)
  moreover have "?R lc k" using assms(4,5) old by (simp add: new)
  ultimately have "list_all2 ?R (lcs @ [lc]) (ks @ [k])" by (intro list_all2_appendI) simp_all
  moreover have "distinct (map mc_id (ks @ [k]))" "mc_id ` set (ks @ [k]) \<inter> mc_id ` set (ms_configs t0) = {}"
    "ve_config ` set (xs @ ys) \<subseteq> mc_id ` set (ks @ [k])"
    using assms(1-3) unfolding copies_def by auto
  ultimately show ?thesis unfolding copies_def by blast
qed

lemma serving_copy_entity:
  "serving (copying version t0 lcs k ds) (InsertRabbitVersionedEntity (x\<lparr>ve_id := 0, ve_config := mc_id k\<rparr>))
     (\<lambda>_. copying version t0 lcs k (ds @ [x]))"
  unfolding InsertRabbitVersionedEntity_def
proof (rule serving_write)
  fix t
  let ?x = "x\<lparr>ve_id := 0, ve_config := mc_id k\<rparr>"
  assume c: "copying version t0 lcs k ds t"
  then obtain ks xs ys where rows: "ms_configs t = ms_configs t0 @ ks @ [k]" "vers_entities t = vers_entities t0 @ xs @ ys"
    "copies version t0 lcs ks xs" "mc_id k \<notin> mc_id ` set (ms_configs t0 @ ks)"
    "\<forall>y \<in> set ys. ve_config y = mc_id k" "map content ys = map content ds"
    unfolding copying_def by blast
  have "copying version t0 lcs k (ds @ [x]) (t\<lparr>next_id := next_id t + 1, vers_entities := vers_entities t @ [?x\<lparr>ve_id := next_id t\<rparr>]\<rparr>)"
    unfolding copying_def
    by (rule exI [of _ ks], rule exI [of _ xs], rule exI [of _ "ys @ [?x\<lparr>ve_id := next_id t\<rparr>]"]) (use rows in \<open>auto simp: content_def\<close>)
  then show "case insert_versioned ?x t of Inl e \<Rightarrow> plain_err e | Inr (a, t') \<Rightarrow> composites t' = composites t \<and> copying version t0 lcs k (ds @ [x]) t'"
    by (simp add: insert_versioned_def)
qed

lemma serving_copy_entities:
  "serving (copying version t0 lcs k ds) (for_each (\<lambda>x. InsertRabbitVersionedEntity (x\<lparr>ve_id := 0, ve_config := mc_id k\<rparr>)) es)
     (\<lambda>_. copying version t0 lcs k (ds @ es))"
proof (induction es arbitrary: ds)
  case (Cons e es)
  have "ds @ e # es = (ds @ [e]) @ es" by simp
  then show ?case unfolding for_each.simps by (simp only:) (rule serving_then, rule serving_copy_entity, rule Cons.IH)
qed (simp add: serving_ret)

lemma serving_take_over:
  assumes i: "versioned_inv t0"
  shows "serving (copied version t0 lcs) (take_over version lc) (\<lambda>_. copied version t0 (lcs @ [lc]))"
proof -
  let ?k = "\<lambda>cid. (lc_config lc)\<lparr>mc_id := cid, mc_candidate := version\<rparr>"
  have ins: "serving (copied version t0 lcs) (InsertRabbitMsConfig (?k 0)) (\<lambda>cid. copying version t0 lcs (?k cid) [])"
    unfolding InsertRabbitMsConfig_def
  proof (rule serving_write)
    fix t
    assume "copied version t0 lcs t"
    then show "case insert_config (?k 0) t of Inl e \<Rightarrow> plain_err e
      | Inr (cid, t') \<Rightarrow> composites t' = composites t \<and> copying version t0 lcs (?k cid) [] t'"
      by (fastforce simp: insert_config_def copied_def copying_def list_ex_iff)
  qed
  have each: "serving (copying version t0 lcs (?k cid) []) (for_each (\<lambda>x. InsertRabbitVersionedEntity (x\<lparr>ve_id := 0, ve_config := cid\<rparr>)) (lc_entities lc))
      (\<lambda>_. copying version t0 lcs (?k cid) (lc_entities lc))" for cid
    using serving_copy_entities [of version t0 lcs "?k cid" "[]" "lc_entities lc"] by simp
  have fin: "copied version t0 (lcs @ [lc]) t" if c: "copying version t0 lcs (?k cid) (lc_entities lc) t" for cid t
  proof -
    obtain ks xs ys where rows: "ms_configs t = ms_configs t0 @ ks @ [?k cid]" "vers_entities t = vers_entities t0 @ xs @ ys"
      "copies version t0 lcs ks xs" "mc_id (?k cid) \<notin> mc_id ` set (ms_configs t0 @ ks)"
      "\<forall>y \<in> set ys. ve_config y = mc_id (?k cid)" "map content ys = map content (lc_entities lc)"
      using c unfolding copying_def by blast
    from copies_more [OF rows(3-6)] rows(1,2) show ?thesis unfolding copied_def by fastforce
  qed
  show ?thesis
    unfolding take_over_def by (rule serving_bind [OF ins], rule serving_weaken [OF each _ fin])
qed

lemma serving_take_over_all:
  "versioned_inv t0 \<Longrightarrow> serving (copied version t0 old) (for_each (take_over version) lcs) (\<lambda>_. copied version t0 (old @ lcs))"
proof (induction lcs arbitrary: old)
  case (Cons lc lcs)
  have "old @ lc # lcs = (old @ [lc]) @ lcs" by simp
  then show ?case unfolding for_each.simps
    by (simp only:) (rule serving_then, rule serving_take_over [OF Cons.prems], rule Cons.IH [OF Cons.prems])
qed (simp add: serving_ret)

text \<open>The names of the active version that the candidate has no configuration of.\<close>

definition missing :: "nat \<Rightarrow> string \<Rightarrow> string \<Rightarrow> tables \<Rightarrow> string list" where
  "missing vid active version t = [n \<leftarrow> remdups (map mc_name [m \<leftarrow> ms_configs t. release vid active m]).
     \<not> list_ex (\<lambda>m. release vid version m \<and> mc_name m = n) (ms_configs t)]"

definition active_config :: "nat \<Rightarrow> string \<Rightarrow> tables \<Rightarrow> string \<Rightarrow> loaded_config \<Rightarrow> bool" where
  "active_config vid active t n lc \<longleftrightarrow>
     (\<exists>m \<in> set (ms_configs t). lc = load_config t m \<and> release vid active m \<and> mc_name m = n)"

lemma serving_pure: "serving P m Q \<Longrightarrow> serving (\<lambda>t. P t \<and> b) m (\<lambda>a t. Q a t \<and> b)"
  unfolding serving_def by blast

lemma serving_map:
  "(\<And>x. serving P (f x) (\<lambda>y t. P t \<and> R x y)) \<Longrightarrow> serving P (map_io f xs) (\<lambda>ys t. P t \<and> list_all2 R xs ys)"
proof (induction xs)
  case (Cons x xs)
  have rest: "serving (\<lambda>t. P t \<and> R x y) (bind_io (map_io f xs) (\<lambda>ys. ret_io (y # ys))) (\<lambda>ys t. P t \<and> list_all2 R (x # xs) ys)" for y
    by (rule serving_bind, rule serving_pure, rule Cons.IH [OF Cons.prems], rule serving_ret) simp
  show ?case unfolding map_io.simps by (rule serving_bind [OF Cons.prems rest])
qed (simp add: serving_ret)

lemma serving_missing:
  "serving (\<lambda>t. t = t0) (GetMsConfigsInActiveButNotInCandidateByVhost vid active version)
     (\<lambda>lcs t. t = t0 \<and> list_all2 (active_config vid active t0) (missing vid active version t0) lcs)"
  unfolding GetMsConfigsInActiveButNotInCandidateByVhost_def missing_def [symmetric]
proof (rule serving_bind)
  show "serving (\<lambda>t. t = t0) (using_db [] (sql_read (missing vid active version))) (\<lambda>names t. t = t0 \<and> names = missing vid active version t0)"
    by (rule serving_read) simp
  have one: "serving (\<lambda>t. t = t0) (bind_io (GetMsConfigByVhostAndMsNameAndCandidateVersion vid n active) deref_io)
      (\<lambda>lc t. t = t0 \<and> active_config vid active t0 n lc)" for n
  proof (rule serving_bind)
    show "serving (\<lambda>t. t = t0) (GetMsConfigByVhostAndMsNameAndCandidateVersion vid n active)
        (\<lambda>found t. t = t0 \<and> (\<forall>lc. found = Some lc \<longrightarrow> active_config vid active t0 n lc))"
      by (rule serving_get_config) (auto simp: active_config_def dest!: first_by_Some)
    show "serving (\<lambda>t. t = t0 \<and> (\<forall>lc. found = Some lc \<longrightarrow> active_config vid active t0 n lc)) (deref_io found)
        (\<lambda>lc t. t = t0 \<and> active_config vid active t0 n lc)" for found
      by (cases found) (auto simp: serving_def)
  qed
  show "serving (\<lambda>t. t = t0 \<and> names = missing vid active version t0)
      (map_io (\<lambda>n. bind_io (GetMsConfigByVhostAndMsNameAndCandidateVersion vid n active) deref_io) names)
      (\<lambda>lcs t. t = t0 \<and> list_all2 (active_config vid active t0) (missing vid active version t0) lcs)" for names
    using serving_map [where P = "\<lambda>t. t = t0" and R = "active_config vid active t0" and xs = names, OF one]
    by (auto simp: serving_def)
qed

lemma list_all2_set1: "list_all2 R xs ys \<Longrightarrow> x \<in> set xs \<Longrightarrow> \<exists>y \<in> set ys. R x y"
  by (induction rule: list_all2_induct) auto

lemma list_all2_set2: "list_all2 R xs ys \<Longrightarrow> y \<in> set ys \<Longrightarrow> \<exists>x \<in> set xs. R x y"
  by (induction rule: list_all2_induct) auto

lemma copies_taken:
  assumes i: "versioned_inv t0" and c: "copied version t0 lcs t"
    and l: "list_all2 (active_config vid active t0) (missing vid active version t0) lcs"
  shows "taken_over vid active version t0 t"
proof -
  obtain ks xs where rows: "ms_configs t = ms_configs t0 @ ks" "vers_entities t = vers_entities t0 @ xs" "copies version t0 lcs ks xs"
    using c unfolding copied_def by blast
  note all = rows(3) [unfolded copies_def, THEN conjunct2, THEN conjunct2, THEN conjunct2]
  have new: "[x \<leftarrow> vers_entities t0. ve_config x = mc_id k] = []" if "k \<in> set ks" for k
  proof -
    have "ve_config x \<in> mc_id ` set (ms_configs t0)" if "x \<in> set (vers_entities t0)" for x
      using i that by (auto simp: versioned_inv_def)
    moreover have "mc_id k \<notin> mc_id ` set (ms_configs t0)" using rows(3) that by (auto simp: copies_def)
    ultimately show ?thesis unfolding filter_empty_conv by metis
  qed
  have came: "taken_from vid active version t0 t k" if k: "k \<in> set ks" for k
  proof -
    from list_all2_set2 [OF all k] obtain lc where lc: "lc \<in> set lcs" "k = (lc_config lc)\<lparr>mc_id := mc_id k, mc_candidate := version\<rparr>"
      "map content [x \<leftarrow> xs. ve_config x = mc_id k] = map content (lc_entities lc)" by blast
    from list_all2_set2 [OF l lc(1)] obtain m where m: "m \<in> set (ms_configs t0)" "lc = load_config t0 m" "release vid active m"
      unfolding active_config_def by blast
    have f: "mc_vhost k = mc_vhost m" "mc_candidate k = version" "mc_name k = mc_name m" "mc_actual k = mc_actual m"
      by (subst lc(2), simp add: m(2) load_config_def)+
    moreover have "contents (mc_id k) t = contents (mc_id m) t0"
      using lc(3) by (simp add: contents_def rows(2) new [OF k] m(2) load_config_def)
    ultimately show ?thesis using m(1,3) unfolding taken_from_def release_def by auto
  qed
  have "list_ex (\<lambda>k. release vid version k \<and> mc_name k = mc_name m) (ms_configs t)"
    if m: "m \<in> set (ms_configs t0)" "release vid active m" for m
  proof (cases "list_ex (\<lambda>k. release vid version k \<and> mc_name k = mc_name m) (ms_configs t0)")
    case True
    then show ?thesis by (simp add: rows(1))
  next
    case False
    with m have "mc_name m \<in> set (missing vid active version t0)" by (auto simp: missing_def)
    from list_all2_set1 [OF l this] obtain lc where lc: "lc \<in> set lcs" "active_config vid active t0 (mc_name m) lc" by blast
    from list_all2_set1 [OF all lc(1)] obtain k where k: "k \<in> set ks" "k = (lc_config lc)\<lparr>mc_id := mc_id k, mc_candidate := version\<rparr>" by blast
    have "mc_name k = mc_name m" using lc(2) by (subst k(2)) (auto simp: active_config_def load_config_def)
    moreover have "release vid version k" using came [OF k(1)] by (simp add: taken_from_def)
    ultimately show ?thesis using k(1) by (auto simp: rows(1) list_ex_iff)
  qed
  with rows(1,2) came show ?thesis unfolding taken_over_def by blast
qed

text \<open>
  C33 After a candidate version has taken over the active one in a virtual host, every
  microservice of the active version has a configuration of the candidate.  What it had configured
  itself, and everything else, is as it was; what was taken over has the actual version and the
  entities it has in the active version.
\<close>

theorem candidate_takes_over:
  assumes "ready w" "versioned_inv (tabs w)"
    and "ApplyMssInActiveButNotInCandidateForVhost vid active version w = (Inr u, w')"
  shows "taken_over vid active version (tabs w) (tabs w')"
proof -
  let ?t = "tabs w"
  have "serving (\<lambda>t. t = ?t) (ApplyMssInActiveButNotInCandidateForVhost vid active version) (\<lambda>_. taken_over vid active version ?t)"
    unfolding ApplyMssInActiveButNotInCandidateForVhost_def
  proof (rule serving_bind [OF serving_missing])
    fix lcs
    have "copied version ?t [] ?t" by (simp add: copied_def copies_def)
    then show "serving (\<lambda>t. t = ?t \<and> list_all2 (active_config vid active ?t) (missing vid active version ?t) lcs)
        (for_each (take_over version) lcs) (\<lambda>_. taken_over vid active version ?t)"
      using serving_take_over_all [OF assms(2), of version "[]" lcs] copies_taken [OF assms(2)]
      unfolding serving_def by fastforce
  qed
  with assms show ?thesis unfolding serving_def by blast
qed

section \<open>A version that is given up\<close>

text \<open>The configurations of the version, in the namespace or in both of its domain.\<close>

definition bound_pair :: "string \<Rightarrow> tables \<Rightarrow> bg_namespaces option" where
  "bound_pair ns t = map_option toValue (first_by d_id [d \<leftarrow> bg_domains t. domain_has ns d])"

definition of_version :: "string \<Rightarrow> string \<Rightarrow> tables \<Rightarrow> ms_config \<Rightarrow> bool" where
  "of_version ns version t m \<longleftrightarrow> mc_candidate m = version \<and> of_namespaces ns (bound_pair ns t) m"

definition remaining :: "tables \<Rightarrow> nat set \<Rightarrow> nat set \<Rightarrow> tables \<Rightarrow> bool" where
  "remaining t0 D E t \<longleftrightarrow> t = t0\<lparr>ms_configs := [m \<leftarrow> ms_configs t0. mc_id m \<notin> D], vers_entities := [x \<leftarrow> vers_entities t0. ve_id x \<notin> E]\<rparr>"

lemma keeps_entity_type [keeps_intros]:
  "keeps P x \<Longrightarrow> keeps P q \<Longrightarrow> keeps P b \<Longrightarrow> keeps P (case ty of ExchangeType \<Rightarrow> x | QueueType \<Rightarrow> q | BindingType \<Rightarrow> b)"
  by (cases ty) auto

lemma serving_retire_entity: "serving (remaining t0 D E) (retire_entity lc x) (\<lambda>_. remaining t0 D (insert (ve_id x) E))"
proof -
  have del: "serving (remaining t0 D E) (DeleteRabbitVersEntityFromDB x) (\<lambda>_. remaining t0 D (insert (ve_id x) E))"
    unfolding DeleteRabbitVersEntityFromDB_def
    by (intro serving_wrap serving_write) (simp add: remaining_def delete_versioned_def conj_commute)
  have r: "reading (case ve_type x of
      ExchangeType \<Rightarrow>
        bind_io (GetRabbitVersEntitiesByVhostAndNameAndType (mc_vhost (lc_config lc)) (ve_name x) ExchangeType) (\<lambda>others.
          ret_io (placed lc x # (if others = [] then [placed lc (router_of x)] else [])))
    | QueueType \<Rightarrow>
        bind_io (GetRabbitVersEntitiesByVhostAndNameAndTypeAndActualVersion (mc_vhost (lc_config lc)) (ve_name x) QueueType
            (mc_actual (lc_config lc))) (\<lambda>others. ret_io (if others = [] then [placed lc x] else []))
    | BindingType \<Rightarrow> ret_io [])"
    unfolding reading_def GetRabbitVersEntitiesByVhostAndNameAndType_def GetRabbitVersEntitiesByVhostAndNameAndTypeAndActualVersion_def
    by (intro allI keeps_intros)
  show ?thesis
    unfolding retire_entity_def by (rule serving_then [OF del serving_reading [OF r]])
qed

lemma serving_retire_entities: "serving (remaining t0 D E) (map_io (retire_entity lc) xs) (\<lambda>_. remaining t0 D (E \<union> ve_id ` set xs))"
proof (induction xs arbitrary: E)
  case (Cons x xs)
  have e: "E \<union> ve_id ` set (x # xs) = insert (ve_id x) E \<union> ve_id ` set xs" by auto
  show ?case unfolding map_io.simps e
    by (rule serving_bind [OF serving_retire_entity], rule serving_bind [OF Cons.IH], rule serving_ret)
qed (simp add: serving_ret)

lemma serving_retire_config:
  "serving (remaining t0 D E) (retire_config (load_config t0 m))
     (\<lambda>_. remaining t0 (insert (mc_id m) D) (E \<union> ve_id ` {x \<in> set (vers_entities t0). ve_config x = mc_id m}))"
proof -
  let ?F = "E \<union> ve_id ` {x \<in> set (vers_entities t0). ve_config x = mc_id m}"
  have del: "serving (remaining t0 D ?F) (DeleteMsConfig m) (\<lambda>_. remaining t0 (insert (mc_id m) D) ?F)"
    unfolding DeleteMsConfig_def
  proof (intro serving_wrap serving_write)
    fix t
    assume t: "remaining t0 D ?F t"
    then have rows: "vers_entities t = [x \<leftarrow> vers_entities t0. ve_id x \<notin> ?F]" "ms_configs t = [k \<leftarrow> ms_configs t0. mc_id k \<notin> D]"
      by (simp_all add: remaining_def)
    have "[x \<leftarrow> vers_entities t. \<not> list_ex (\<lambda>n. mc_id n = mc_id m \<and> mc_id n = ve_config x) (ms_configs t)] = vers_entities t"
      by (rule filter_True) (auto simp: list_ex_iff rows(1))
    moreover have "[k \<leftarrow> ms_configs t. mc_id k \<noteq> mc_id m] = [k \<leftarrow> ms_configs t0. mc_id k \<notin> insert (mc_id m) D]"
      by (simp add: rows(2) conj_commute)
    ultimately have "delete_configs (\<lambda>n. mc_id n = mc_id m) t = t\<lparr>ms_configs := [k \<leftarrow> ms_configs t0. mc_id k \<notin> insert (mc_id m) D]\<rparr>"
      by (simp only: delete_configs_def) simp
    with t have "remaining t0 (insert (mc_id m) D) ?F (delete_configs (\<lambda>n. mc_id n = mc_id m) t)"
      unfolding remaining_def by simp
    then show "case Inr ((), delete_configs (\<lambda>n. mc_id n = mc_id m) t) of Inl e \<Rightarrow> plain_err e
        | Inr (a, t') \<Rightarrow> composites t' = composites t \<and> remaining t0 (insert (mc_id m) D) ?F t'"
      by (simp add: delete_configs_def)
  qed
  have all: "serving (remaining t0 D E) (map_io (retire_entity lc) (lc_entities (load_config t0 m))) (\<lambda>_. remaining t0 D ?F)" for lc
    using serving_retire_entities [of t0 D E lc "lc_entities (load_config t0 m)"] by (simp add: load_config_def)
  show ?thesis
    unfolding retire_config_def
    by (rule serving_bind [OF all], rule serving_then) (simp_all add: load_config_def, rule del, rule serving_ret)
qed

lemma serving_retire_configs:
  "serving (remaining t0 D E) (map_io retire_config (map (load_config t0) ms))
     (\<lambda>_. remaining t0 (D \<union> mc_id ` set ms) (E \<union> ve_id ` {x \<in> set (vers_entities t0). ve_config x \<in> mc_id ` set ms}))"
proof (induction ms arbitrary: D E)
  case (Cons m ms)
  have e: "D \<union> mc_id ` set (m # ms) = insert (mc_id m) D \<union> mc_id ` set ms"
    "E \<union> ve_id ` {x \<in> set (vers_entities t0). ve_config x \<in> mc_id ` set (m # ms)} =
     (E \<union> ve_id ` {x \<in> set (vers_entities t0). ve_config x = mc_id m}) \<union> ve_id ` {x \<in> set (vers_entities t0). ve_config x \<in> mc_id ` set ms}"
    by auto
  show ?case unfolding list.map map_io.simps e
    by (rule serving_bind [OF serving_retire_config], rule serving_bind [OF Cons.IH], rule serving_ret)
qed (simp add: serving_ret)

lemma find_pair: "ready w \<Longrightarrow> FindByNamespace ns w = (Inr (bound_pair ns (tabs w)), w)"
  by (simp add: FindByNamespace_def bind_io_run wrap_io_run FindByNamespace_run ready_serves bound_pair_def)

lemma serving_configs_of_version:
  "serving (\<lambda>t. t = t0) (GetMsConfigsByBgDomainAndCandidateVersion ns version)
     (\<lambda>lcs t. t = t0 \<and> lcs = map (load_config t0) [m \<leftarrow> ms_configs t0. of_version ns version t0 m])"
  by (auto simp: serving_def GetMsConfigsByBgDomainAndCandidateVersion_def bind_io_run find_pair served_read ready_serves of_version_def)

lemma reading_delete_placed: "reading (DeleteEntitiesByRabbitVersionedEntities e ps)"
  unfolding reading_def DeleteEntitiesByRabbitVersionedEntities_def delete_placed_def helper_for_def FindVhostByClassifierForHelper_def
    rabbit_instance_defs vhost_search_defs GetRabbitVersEntitiesByVhostAndNameAndType_def Let_def
  by (intro allI keeps_intros)

text \<open>
  C35 Where the master answers, giving up a version deletes exactly its configurations, of the
  namespace or of both namespaces of its domain, with their entities.
\<close>

theorem version_given_up:
  assumes "ready w" "versioned_inv (tabs w)" "DeleteCandidateVersionRabbit e ns version w = (Inr u, w')"
  shows "tabs w' = delete_configs (of_version ns version (tabs w)) (tabs w)"
proof -
  let ?t = "tabs w"
  let ?ms = "[m \<leftarrow> ms_configs ?t. of_version ns version ?t m]"
  have "serving (\<lambda>t. t = ?t) (DeleteCandidateVersionRabbit e ns version)
      (\<lambda>_. remaining ?t (mc_id ` set ?ms) (ve_id ` {x \<in> set (vers_entities ?t). ve_config x \<in> mc_id ` set ?ms}))"
    unfolding DeleteCandidateVersionRabbit_def
  proof (rule serving_bind [OF serving_configs_of_version])
    fix lcs
    show "serving (\<lambda>t. t = ?t \<and> lcs = map (load_config ?t) ?ms)
       (bind_io (map_io retire_config lcs) (\<lambda>gone. then_io (DeleteEntitiesByRabbitVersionedEntities e (concat gone)) (ret_io ())))
       (\<lambda>_. remaining ?t (mc_id ` set ?ms) (ve_id ` {x \<in> set (vers_entities ?t). ve_config x \<in> mc_id ` set ?ms}))"
    proof (cases "lcs = map (load_config ?t) ?ms")
      case True
      have "serving (remaining ?t {} {}) (map_io retire_config lcs)
          (\<lambda>_. remaining ?t (mc_id ` set ?ms) (ve_id ` {x \<in> set (vers_entities ?t). ve_config x \<in> mc_id ` set ?ms}))"
        using serving_retire_configs [of ?t "{}" "{}" ?ms] unfolding True by simp
      then have "serving (remaining ?t {} {}) (bind_io (map_io retire_config lcs) (\<lambda>gone. then_io (DeleteEntitiesByRabbitVersionedEntities e (concat gone)) (ret_io ())))
          (\<lambda>_. remaining ?t (mc_id ` set ?ms) (ve_id ` {x \<in> set (vers_entities ?t). ve_config x \<in> mc_id ` set ?ms}))"
        by (rule serving_bind) (rule serving_then, rule serving_reading [OF reading_delete_placed], rule serving_ret)
      then show ?thesis by (rule serving_weaken) (simp_all add: remaining_def)
    qed (simp add: serving_def)
  qed
  with assms(1,3) have l: "remaining ?t (mc_id ` set ?ms) (ve_id ` {x \<in> set (vers_entities ?t). ve_config x \<in> mc_id ` set ?ms}) (tabs w')"
    unfolding serving_def by blast
  have "[m \<leftarrow> ms_configs ?t. mc_id m \<notin> mc_id ` set ?ms] = [m \<leftarrow> ms_configs ?t. \<not> of_version ns version ?t m]"
    using config_of_id [OF assms(2)] by (intro filter_cong) auto
  moreover have "[x \<leftarrow> vers_entities ?t. ve_id x \<notin> ve_id ` {x \<in> set (vers_entities ?t). ve_config x \<in> mc_id ` set ?ms}] =
      [x \<leftarrow> vers_entities ?t. \<not> list_ex (\<lambda>m. of_version ns version ?t m \<and> mc_id m = ve_config x) (ms_configs ?t)]"
  proof (intro filter_cong refl)
    fix x
    assume x: "x \<in> set (vers_entities ?t)"
    have "inj_on ve_id (set (vers_entities ?t))" using assms(2) by (simp add: versioned_inv_def distinct_map)
    with x have "ve_id x \<in> ve_id ` {x \<in> set (vers_entities ?t). ve_config x \<in> mc_id ` set ?ms} \<longleftrightarrow> ve_config x \<in> mc_id ` set ?ms"
      by (blast dest: inj_onD)
    then show "(ve_id x \<notin> ve_id ` {x \<in> set (vers_entities ?t). ve_config x \<in> mc_id ` set ?ms}) =
        (\<not> list_ex (\<lambda>m. of_version ns version ?t m \<and> mc_id m = ve_config x) (ms_configs ?t))"
      by (simp add: list_ex_iff image_iff) metis
  qed
  ultimately show ?thesis using l by (simp add: remaining_def delete_configs_def)
qed

section \<open>Examples\<close>

text \<open>A broker that also lists the bindings between two ends, and configurations of one virtual host.\<close>

definition hub_http :: "(string \<times> json) list http_client" where
  "hub_http q k = (case (hq_method q, hq_body q) of
      (POST, Some b) \<Rightarrow> (Inr (reply 201 [] None), AList.update (hq_url q) (JArr [b]) (AList.update (hq_url q @ ''/key'') b k))
    | _ \<Rightarrow> shelf_http q k)"

definition hub_env :: "(string \<times> json) list rabbit_env" where
  "hub_env = shelf_env\<lparr>rb_http := hub_http\<rparr>"

definition named_json :: "string \<Rightarrow> json" where
  "named_json n = JObj [(''name'', JStr n)]"

definition bound_json :: "string \<Rightarrow> string \<Rightarrow> json" where
  "bound_json s d = JObj [(''destination'', JStr d), (''source'', JStr s)]"

definition orders_section :: rabbit_entities_dto where
  "orders_section = \<lparr>en_exchanges = [named_json ''events''], en_queues = [named_json ''inbox''], en_bindings = [bound_json ''events'' ''inbox'']\<rparr>"

definition orders_service :: "rabbit_entities_dto \<Rightarrow> string \<Rightarrow> vhost_spec service_config" where
  "orders_service en n = \<lparr>sc_service = n, sc_kind = vhosts_kind, sc_payload = Some (Vhost \<lparr>vs_classifier = orders_cl, vs_instance = [],
     vs_versioned = Some en, vs_entities = None, vs_policies = None, vs_deletions = None\<rparr>)\<rparr>"

definition unbound_section :: rabbit_entities_dto where
  "unbound_section = \<lparr>en_exchanges = [], en_queues = [named_json ''lost''], en_bindings = []\<rparr>"

text \<open>A queue without a binding: the request is rolled back, and the microservice is answered with success.\<close>

theorem configurations_all_or_nothing_witness:
  "fst (apply_all_vhosts hub_env 5 demo_ctx ''v1'' [orders_service unbound_section ''a''] ''org'' shelf_start) =
     Inr ([(orders_service unbound_section ''a'', Inr NoResult)], Some Generic) \<and>
   tabs (snd (apply_all_vhosts hub_env 5 demo_ctx ''v1'' [orders_service unbound_section ''a''] ''org'' shelf_start)) = tabs shelf_start"
proof -
  let ?run = "apply_all_vhosts hub_env 5 demo_ctx ''v1'' [orders_service unbound_section ''a''] ''org'' shelf_start"
  have f: "fst ?run = Inr ([(orders_service unbound_section ''a'', Inr NoResult)], Some Generic)" by code_simp
  then have "?run = (Inr ([(orders_service unbound_section ''a'', Inr NoResult)], Some Generic), snd ?run)" by (metis prod.collapse)
  from configurations_all_or_nothing [OF _ this] have "tabs (snd ?run) = tabs shelf_start" by (simp add: shelf_start_def mk_world_def)
  with f show ?thesis by blast
qed

text \<open>Two versions: \<open>a\<close> and \<open>b\<close> in the active one, \<open>b\<close> alone in the candidate.\<close>

definition release_row :: vhost where
  "release_row = \<lparr>vh_id = 1, vh_vhost = ''maas.org.orders'', vh_user = ''u'', vh_password = ''plain:p'', vh_namespace = ''org'',
     vh_instance = ''a'', vh_classifier = orders_cl\<rparr>"

definition config_row :: "nat \<Rightarrow> string \<Rightarrow> string \<Rightarrow> string \<Rightarrow> ms_config" where
  "config_row cid n candidate actual = \<lparr>mc_id = cid, mc_namespace = ''org'', mc_name = n, mc_vhost = 1, mc_candidate = candidate, mc_actual = actual\<rparr>"

definition entity_row :: "nat \<Rightarrow> nat \<Rightarrow> entity_type \<Rightarrow> string \<Rightarrow> versioned_entity" where
  "entity_row i cid ty n = \<lparr>ve_id = i, ve_config = cid, ve_type = ty, ve_name = n, ve_source = [], ve_destination = [],
     ve_client = Some [(''name'', JStr n)], ve_rabbit = Some [(''name'', JStr (n @ ''-v1''))]\<rparr>"

definition binding_entity :: "nat \<Rightarrow> nat \<Rightarrow> string \<Rightarrow> string \<Rightarrow> versioned_entity" where
  "binding_entity i cid s d = \<lparr>ve_id = i, ve_config = cid, ve_type = BindingType, ve_name = [], ve_source = s, ve_destination = d,
     ve_client = Some [(''destination'', JStr d), (''source'', JStr s)], ve_rabbit = None\<rparr>"

definition release_world :: "(string \<times> json) list world" where
  "release_world = mk_world (empty_tables\<lparr>next_id := 9, rabbit_instances := [shelf_instance], vhosts := [release_row],
     ms_configs := [config_row 2 ''a'' ''v1'' ''v1'', config_row 6 ''b'' ''v1'' ''v1'', config_row 7 ''b'' ''v2'' ''v2''],
     vers_entities := [entity_row 3 2 ExchangeType ''events'', entity_row 4 2 QueueType ''inbox'',
       binding_entity 5 2 ''events'' ''inbox'', entity_row 8 7 ExchangeType ''audit'']\<rparr>) []"

lemma release_world_inv: "versioned_inv (tabs release_world)"
  by (simp add: versioned_inv_def release_world_def config_row_def entity_row_def binding_entity_def release_row_def)

lemma release_world_ready: "ready release_world" "serves release_world"
proof -
  show 1: "ready release_world" unfolding ready_def release_world_def by simp
  show "serves release_world" by (rule ready_serves [OF 1])
qed

definition outbox_section :: rabbit_entities_dto where
  "outbox_section = orders_section\<lparr>en_queues := [named_json ''outbox'']\<rparr>"

theorem configuration_recorded_witness:
  "\<exists>gone. fst (ApplyMsConfigAndVersionedEntitiesToDb ''a'' (Some outbox_section) 1 ''v1'' ''org'' release_world) = Inr gone \<and>
     map (ve_id \<circ> pe_entity) gone = [4, 5] \<and>
     config_recorded ''a'' (Some outbox_section) 1 ''v1'' (tabs release_world) gone
       (tabs (snd (ApplyMsConfigAndVersionedEntitiesToDb ''a'' (Some outbox_section) 1 ''v1'' ''org'' release_world)))"
proof -
  let ?run = "ApplyMsConfigAndVersionedEntitiesToDb ''a'' (Some outbox_section) 1 ''v1'' ''org'' release_world"
  have f: "case fst ?run of Inl err \<Rightarrow> False | Inr gone \<Rightarrow> map (ve_id \<circ> pe_entity) gone = [4, 5]" by code_simp
  then obtain gone where g: "fst ?run = Inr gone" "map (ve_id \<circ> pe_entity) gone = [4, 5]" by (cases "fst ?run") simp_all
  then have "?run = (Inr gone, snd ?run)" by (metis prod.collapse)
  from configuration_recorded [OF release_world_ready(1) release_world_inv this] g show ?thesis by (intro exI [of _ gone] conjI)
qed

theorem candidate_takes_over_witness:
  "taken_over 1 ''v1'' ''v2'' (tabs release_world) (tabs (snd (ApplyMssInActiveButNotInCandidateForVhost 1 ''v1'' ''v2'' release_world))) \<and>
   map (\<lambda>k. (mc_name k, mc_candidate k, mc_actual k))
     (ms_configs (tabs (snd (ApplyMssInActiveButNotInCandidateForVhost 1 ''v1'' ''v2'' release_world)))) =
     [(''a'', ''v1'', ''v1''), (''b'', ''v1'', ''v1''), (''b'', ''v2'', ''v2''), (''a'', ''v2'', ''v1'')]"
    (is "?over \<and> ?rows")
proof
  let ?run = "ApplyMssInActiveButNotInCandidateForVhost 1 ''v1'' ''v2'' release_world"
  have "fst ?run = Inr ()" by code_simp
  then have "?run = (Inr (), snd ?run)" by (metis prod.collapse)
  from candidate_takes_over [OF release_world_ready(1) release_world_inv this] show ?over .
  show ?rows by code_simp
qed


theorem version_given_up_witness:
  "tabs (snd (DeleteCandidateVersionRabbit hub_env ''org'' ''v2'' release_world)) =
     delete_configs (of_version ''org'' ''v2'' (tabs release_world)) (tabs release_world) \<and>
   map mc_id (ms_configs (tabs (snd (DeleteCandidateVersionRabbit hub_env ''org'' ''v2'' release_world)))) = [2, 6]"
    (is "?gone \<and> ?rows")
proof
  let ?run = "DeleteCandidateVersionRabbit hub_env ''org'' ''v2'' release_world"
  have "fst ?run = Inr ()" by code_simp
  then have "?run = (Inr (), snd ?run)" by (metis prod.collapse)
  from version_given_up [OF release_world_ready(1) release_world_inv this] show ?gone .
  show ?rows by code_simp
qed

end
