(* ===== verification/Maas_Versioned_States.thy ===== *)
theory Maas_Versioned_States
  imports Maas_Versioned_Props
begin

text \<open>
  The two tables of the first blue/green scheme are consistent in every state: every statement
  keeps their keys and references, and so does every operation, whatever fails in it.
\<close>

section \<open>Statements\<close>

lemma versioned_inv_same:
  "ms_configs t' = ms_configs t \<Longrightarrow> vers_entities t' = vers_entities t \<Longrightarrow>
   vh_id ` set (vhosts t) \<subseteq> vh_id ` set (vhosts t') \<Longrightarrow> versioned_inv t \<Longrightarrow> versioned_inv t'"
  by (simp add: versioned_inv_def, meson subset_trans)

lemma replaced_ids: "key ` (\<lambda>y. if key y = key x then x else y) ` S = key ` S"
  unfolding image_image by (rule image_cong) simp_all

lemma versioned_vhosts:
  "versioned_inv t \<Longrightarrow> insert_vhost v t = Inr (n, t') \<Longrightarrow> versioned_inv t'"
  "versioned_inv t \<Longrightarrow> save_vhost v t = Inr (u, t') \<Longrightarrow> versioned_inv t'"
proof -
  show "versioned_inv t \<Longrightarrow> insert_vhost v t = Inr (n, t') \<Longrightarrow> versioned_inv t'"
    by (erule versioned_inv_same [rotated 3]; auto simp: insert_vhost_def split: if_splits)
  show "versioned_inv t \<Longrightarrow> save_vhost v t = Inr (u, t') \<Longrightarrow> versioned_inv t'"
    by (erule versioned_inv_same [rotated 3]) (auto simp: save_vhost_def replaced_ids simp del: if_image_distrib split: if_splits)
qed

lemma versioned_delete_configs:
  assumes "versioned_inv t"
  shows "versioned_inv (delete_configs gone t)"
proof -
  have "ve_config x \<in> mc_id ` {m \<in> set (ms_configs t). \<not> gone m}"
    if x: "x \<in> set (vers_entities t)" "\<not> list_ex (\<lambda>m. gone m \<and> mc_id m = ve_config x) (ms_configs t)" for x
  proof -
    obtain m where "m \<in> set (ms_configs t)" "ve_config x = mc_id m" using assms x(1) by (auto simp: versioned_inv_def)
    with x(2) show ?thesis by (force simp: list_ex_iff)
  qed
  with assms show ?thesis by (auto simp: versioned_inv_def delete_configs_def distinct_map_filter)
qed

lemma versioned_delete_vhost: "versioned_inv t \<Longrightarrow> delete_vhost vid t = Inr (u, t') \<Longrightarrow> versioned_inv t'"
proof -
  assume i: "versioned_inv t" and r: "delete_vhost vid t = Inr (u, t')"
  have "mc_vhost m \<in> vh_id ` {v \<in> set (vhosts t). vh_id v \<noteq> vid}" if "m \<in> set (ms_configs t)" "mc_vhost m \<noteq> vid" for m
    using i that unfolding versioned_inv_def by force
  then have "mc_vhost ` set (ms_configs t') \<subseteq> vh_id ` set (vhosts t')"
    using r by (auto simp: delete_vhost_def delete_configs_def)
  moreover have "ms_configs t' = ms_configs (delete_configs (\<lambda>m. mc_vhost m = vid) t)"
    "vers_entities t' = vers_entities (delete_configs (\<lambda>m. mc_vhost m = vid) t)"
    using r by (auto simp: delete_vhost_def)
  ultimately show ?thesis using versioned_delete_configs [OF i, of "\<lambda>m. mc_vhost m = vid"] unfolding versioned_inv_def by simp
qed

lemma versioned_untouched:
  "versioned_inv t \<Longrightarrow> insert_lazy x t = Inr (u, t') \<Longrightarrow> versioned_inv t'"
  "versioned_inv t \<Longrightarrow> upsert_named x t = Inr (u, t') \<Longrightarrow> versioned_inv t'"
  "versioned_inv t \<Longrightarrow> set_rabbit_entity x t = Inr (u, t') \<Longrightarrow> versioned_inv t'"
  "versioned_inv t \<Longrightarrow> delete_entities lost t = Inr (u, t') \<Longrightarrow> versioned_inv t'"
  "versioned_inv t \<Longrightarrow> insert_rabbit i t = Inr (u, t') \<Longrightarrow> versioned_inv t'"
  "versioned_inv t \<Longrightarrow> save_rabbit i t = Inr (u, t') \<Longrightarrow> versioned_inv t'"
  "versioned_inv t \<Longrightarrow> update_rabbit_default iid t = Inr (n, t') \<Longrightarrow> versioned_inv t'"
  "versioned_inv t \<Longrightarrow> delete_rabbit iid t = Inr (n, t') \<Longrightarrow> versioned_inv t'"
  "versioned_inv t \<Longrightarrow> versioned_inv (clear_rabbit_default t)"
  "versioned_inv t \<Longrightarrow> upsert_rabbit_designator d t = Inr (n, t') \<Longrightarrow> versioned_inv t'"
  "versioned_inv t \<Longrightarrow> insert_rabbit_selectors m ss t = Inr (u, t') \<Longrightarrow> versioned_inv t'"
  "versioned_inv t \<Longrightarrow> delete_rabbit_designator ns t = Inr (u, t') \<Longrightarrow> versioned_inv t'"
  "versioned_inv t \<Longrightarrow> insert_bg_status s t = Inr (u, t') \<Longrightarrow> versioned_inv t'"
  by (erule versioned_inv_same [rotated 3]; auto simp: insert_lazy_def append_entity_def upsert_named_def set_rabbit_entity_def delete_entities_def
    insert_rabbit_def save_rabbit_def update_rabbit_default_def mark_rabbit_default_def delete_rabbit_def clear_rabbit_default_def
    upsert_rabbit_designator_def insert_rabbit_selectors_def delete_rabbit_designator_def insert_bg_status_def Let_def
    split: if_splits option.splits)+

lemma versioned_inserts:
  "versioned_inv t \<Longrightarrow> insert_config m t = Inr (cid, t') \<Longrightarrow> versioned_inv t'"
  "versioned_inv t \<Longrightarrow> insert_versioned x t = Inr (u, t') \<Longrightarrow> versioned_inv t'"
  "versioned_inv t \<Longrightarrow> delete_versioned lost t = Inr (u, t') \<Longrightarrow> versioned_inv t'"
  by (auto simp: versioned_inv_def insert_config_def insert_versioned_def delete_versioned_def has_config_def list_ex_iff
    same_release_def distinct_map_filter image_iff split: if_splits; force)+

lemma versioned_save_entity:
  assumes i: "versioned_inv t" and r: "save_versioned x t = Inr (u, t')"
  shows "versioned_inv t'"
proof (cases "list_ex (\<lambda>y. ve_id y = ve_id x) (vers_entities t)")
  case True
  let ?f = "\<lambda>y. if ve_id y = ve_id x then x else y"
  have t: "t' = t\<lparr>vers_entities := map ?f (vers_entities t)\<rparr>" "ve_config x \<in> mc_id ` set (ms_configs t)"
    using r True by (auto simp: save_versioned_def has_config_def list_ex_iff split: if_splits) (metis image_eqI)+
  have "distinct (map ve_id (vers_entities t'))" using i by (simp add: versioned_inv_def t(1) comp_def if_distrib [of ve_id] cong: if_cong)
  moreover have "ve_config (?f y) \<in> mc_id ` set (ms_configs t)" if "y \<in> set (vers_entities t)" for y
    using i t(2) that by (simp add: versioned_inv_def image_subset_iff)
  then have "ve_config ` set (vers_entities t') \<subseteq> mc_id ` set (ms_configs t')" by (auto simp: t(1) simp del: if_image_distrib)
  moreover have "ms_configs t' = ms_configs t" "vhosts t' = vhosts t" by (simp_all add: t(1))
  ultimately show ?thesis using i by (simp add: versioned_inv_def)
next
  case False
  have t: "t' = t\<lparr>vers_entities := vers_entities t @ [x]\<rparr>" "ve_config x \<in> mc_id ` set (ms_configs t)"
    using r False by (auto simp: save_versioned_def has_config_def list_ex_iff split: if_splits) (metis image_eqI)+
  moreover have "ve_id x \<notin> ve_id ` set (vers_entities t)" using False by (auto simp: list_ex_iff)
  ultimately show ?thesis using i by (simp add: versioned_inv_def)
qed

lemma versioned_save_config:
  assumes i: "versioned_inv t" and r: "save_config m t = Inr (u, t')"
  shows "versioned_inv t'"
proof (cases "list_ex (\<lambda>n. mc_id n = mc_id m) (ms_configs t)")
  case True
  let ?f = "\<lambda>n. if mc_id n = mc_id m then m else n"
  have t: "t' = t\<lparr>ms_configs := map ?f (ms_configs t)\<rparr>" "mc_vhost m \<in> vh_id ` set (vhosts t)"
    "\<And>n. n \<in> set (ms_configs t) \<Longrightarrow> mc_id n \<noteq> mc_id m \<Longrightarrow> \<not> same_release n m"
    using r True by (auto simp: save_config_def list_ex_iff split: if_splits) (metis image_eqI)+
  have "distinct (map (\<lambda>m. (mc_name m, mc_vhost m, mc_candidate m)) (map ?f (ms_configs t)))"
    using i t(3) by (intro distinct_replaced [where rid = mc_id]) (auto simp: versioned_inv_def same_release_def)
  moreover have e: "ms_configs t' = map ?f (ms_configs t)" by (simp add: t(1))
  ultimately have "distinct (map (\<lambda>m. (mc_name m, mc_vhost m, mc_candidate m)) (ms_configs t'))" by (simp only: e)
  moreover have "distinct (map mc_id (ms_configs t'))" "mc_id ` set (ms_configs t') = mc_id ` set (ms_configs t)"
    using i by (simp_all add: t(1) versioned_inv_def replaced_ids comp_def if_distrib [of mc_id] cong: if_cong del: if_image_distrib)
  moreover have "mc_vhost (?f n) \<in> vh_id ` set (vhosts t)" if "n \<in> set (ms_configs t)" for n
    using i t(2) that by (simp add: versioned_inv_def image_subset_iff)
  then have "mc_vhost ` set (ms_configs t') \<subseteq> vh_id ` set (vhosts t')" by (auto simp: t(1) simp del: if_image_distrib)
  moreover have "vers_entities t' = vers_entities t" by (simp add: t(1))
  ultimately show ?thesis using i by (simp add: versioned_inv_def)
next
  case False
  have t: "t' = t\<lparr>ms_configs := ms_configs t @ [m]\<rparr>" "mc_vhost m \<in> vh_id ` set (vhosts t)"
    "\<And>n. n \<in> set (ms_configs t) \<Longrightarrow> \<not> same_release n m"
    using r False by (auto simp: save_config_def list_ex_iff split: if_splits) (metis image_eqI)+
  moreover have "mc_id m \<notin> mc_id ` set (ms_configs t)" using False by (auto simp: list_ex_iff)
  moreover have "(mc_name m, mc_vhost m, mc_candidate m) \<notin> (\<lambda>m. (mc_name m, mc_vhost m, mc_candidate m)) ` set (ms_configs t)"
    by (rule notI, elim imageE, drule t(3)) (simp add: same_release_def)
  ultimately show ?thesis using i by (auto simp: versioned_inv_def)
qed

interpretation versions: statements_keep versioned_inv
  by unfold_locales (assumption | erule (1) versioned_vhosts versioned_delete_vhost versioned_untouched |
    erule versioned_delete_configs versioned_untouched)+

lemma versions_statements [keeps_intros]:
  "keeps (all_tabs versioned_inv) (sql_write (insert_config m))" "keeps (all_tabs versioned_inv) (sql_write (save_config m))"
  "keeps (all_tabs versioned_inv) (sql_write (insert_versioned x))" "keeps (all_tabs versioned_inv) (sql_write (save_versioned x))"
  "keeps (all_tabs versioned_inv) (sql_write (delete_versioned lost))" "keeps (all_tabs versioned_inv) (sql_write (insert_bg_status s))"
  by (rule keeps_sql_write_inv, erule (1) versioned_inserts versioned_save_entity versioned_save_config versioned_untouched)+

text \<open>The operations of the scheme keep it, with whatever outcome.\<close>

lemma keeps_after: "keeps P m \<Longrightarrow> P w \<Longrightarrow> P (snd (m w))"
  by (simp add: keeps_def)

lemma keeps_both:
  assumes k: "keeps (all_tabs I) f"
  shows "keeps (all_tabs I) (with_tx_ctx_both f)"
proof (rule keepsI)
  fix w r w'
  assume i: "all_tabs I w" and run: "with_tx_ctx_both f w = (r, w')"
  show "all_tabs I w'"
  proof (cases "txc w")
    case None
    have "all_tabs I (open_ctx w)" using i None by (simp add: open_ctx_def all_tabs_def committed_def)
    then have j: "all_tabs I w1" if "f (open_ctx w) = (r1, w1)" for r1 w1 using keepsD [OF k that] by blast
    have t: "all_tabs I v" if "all_tabs I w1" "tx_end q w1 = (q', v)" for q q' w1 v
      using tx_end_frame [OF that(2)] that(1) by (auto simp: all_tabs_def committed_def split: sum.splits)
    from None run show ?thesis by (rule with_tx_ctx_both_top) (rule t [OF j]; assumption)+
  next
    case (Some x)
    obtain r1 w1 where 1: "f (w\<lparr>txc := Some (x\<lparr>nesting := nesting x + 1\<rparr>)\<rparr>) = (r1, w1)" by (metis surj_pair)
    have "all_tabs I w1" using keepsD [OF k 1] i Some by (cases "begun x") (auto simp: all_tabs_def committed_def)
    with run Some 1 show ?thesis
      by (auto simp: with_tx_ctx_both_def all_tabs_def committed_def split: option.splits)
  qed
qed

lemma versions_reads [keeps_intros]:
  "keeps (all_tabs I) (GetMsConfigByVhostAndMsNameAndCandidateVersion vid n version)"
  "keeps (all_tabs I) (GetMsConfigsInActiveButNotInCandidateByVhost vid active version)"
  "keeps (all_tabs I) (GetMsConfigsByBgDomainAndCandidateVersion ns version)"
  "keeps (all_tabs I) (GetRabbitVersEntitiesByVhostAndNameAndType vid n ty)"
  "keeps (all_tabs I) (GetRabbitVersEntitiesByVhostAndNameAndTypeAndActualVersion vid n ty version)"
  "keeps (all_tabs I) (GetRabbitVersEntitiesByMsConfigIdAndType cid ty)"
  "keeps (all_tabs I) (dao_GetBgStatusByNamespace ns)" "keeps (all_tabs I) (GetActiveVersionByNamespace ns)"
  "keeps (all_tabs I) (GetBgStatusByNamespace ns)"
  unfolding GetMsConfigByVhostAndMsNameAndCandidateVersion_def GetMsConfigsInActiveButNotInCandidateByVhost_def
    GetMsConfigsByBgDomainAndCandidateVersion_def GetRabbitVersEntitiesByVhostAndNameAndType_def
    GetRabbitVersEntitiesByVhostAndNameAndTypeAndActualVersion_def GetRabbitVersEntitiesByMsConfigIdAndType_def
    dao_GetBgStatusByNamespace_def GetActiveVersionByNamespace_def dao_GetActiveVersionByNamespace_def GetBgStatusByNamespace_def
    FindByNamespace_def
  by (intro keeps_intros)+

lemma versions_validation [keeps_intros]: "keeps (all_tabs I) (RabbitBgValidation e ns version)"
  unfolding RabbitBgValidation_def validate_vhost_def CheckExchangesAndQueuesHaveUniqueName_def CheckNoQueuesWithoutBinding_def
    CheckBindingsHaveExistingESource_def CheckBindingsHaveExistingQDestination_def CheckBindingDeclaredInSameMsAsQ_def refuse_any_def
  by (intro keeps_intros)

lemma versions_writes [keeps_intros]:
  "keeps (all_tabs versioned_inv) (InsertRabbitMsConfig m)" "keeps (all_tabs versioned_inv) (InsertRabbitVersionedEntity x)"
  "keeps (all_tabs versioned_inv) (UpdateMsConfigActualVersion m)" "keeps (all_tabs versioned_inv) (UpdateRabbitVersionedEntity x)"
  "keeps (all_tabs versioned_inv) (DeleteAllVersEntitiesByMsConfigId cid)" "keeps (all_tabs versioned_inv) (DeleteRabbitVersEntityFromDB x)"
  "keeps (all_tabs versioned_inv) (DeleteMsConfig m)" "keeps (all_tabs versioned_inv) (InsertBgStatus s)"
  unfolding InsertRabbitMsConfig_def InsertRabbitVersionedEntity_def UpdateMsConfigActualVersion_def UpdateRabbitVersionedEntity_def
    DeleteAllVersEntitiesByMsConfigId_def DeleteRabbitVersEntityFromDB_def DeleteMsConfig_def InsertBgStatus_def
  by (intro keeps_intros)+

lemma versions_recording [keeps_intros]:
  "keeps (all_tabs versioned_inv) (ApplyMsConfigAndVersionedEntitiesToDb n sec vid version ns)"
  "keeps (all_tabs versioned_inv) (ApplyMssInActiveButNotInCandidateForVhost vid active version)"
  unfolding ApplyMsConfigAndVersionedEntitiesToDb_def redeclare_def addAllEntitiesFromRabbitConfigToDb_def add_versioned_def
    ApplyMssInActiveButNotInCandidateForVhost_def take_over_def
  by (intro keeps_intros)+

lemma versions_broker [keeps_intros]:
  "keeps (all_tabs versioned_inv) (CreateVersionedEntities e ns version)"
  "keeps (all_tabs versioned_inv) (DeleteEntitiesByRabbitVersionedEntities e ps)"
  "keeps (all_tabs versioned_inv) (DeleteCandidateVersionRabbit e ns version)"
proof -
  show "keeps (all_tabs versioned_inv) (CreateVersionedEntities e ns version)"
    unfolding CreateVersionedEntities_def create_config_def create_named_def create_exchange_def create_queue_def record_made_def
      create_binding_def Let_def
    by (intro keeps_intros)
  have "keeps (all_tabs versioned_inv) (delete_placed e p)" for p
    unfolding delete_placed_def Let_def by (intro keeps_intros)
  then show d: "keeps (all_tabs versioned_inv) (DeleteEntitiesByRabbitVersionedEntities e ps)" for ps
    unfolding DeleteEntitiesByRabbitVersionedEntities_def Let_def by (intro keeps_intros)
  show "keeps (all_tabs versioned_inv) (DeleteCandidateVersionRabbit e ns version)"
    unfolding DeleteCandidateVersionRabbit_def retire_config_def retire_entity_def by (intro keeps_intros d)
qed

lemma versions_statuses [keeps_intros]: "keeps (all_tabs versioned_inv) (ApplyBgStatus (status_listeners e) now ns s)"
proof -
  have l: "keeps (all_tabs versioned_inv) (rabbit_listener e change)" for change
    unfolding rabbit_listener_def rabbit_ApplyBgStatus_def ChangeVersionRoutersActiveVersion_def Let_def by (intro keeps_intros)
  show ?thesis
    unfolding ApplyBgStatus_def Let_def by (intro keeps_intros) (auto simp: status_listeners_def AddListener_def broadcast_new_def l)
qed

lemma versions_configuration [keeps_intros]: "keeps (all_tabs versioned_inv) (ApplyRabbitConfiguration e c s ns)"
  unfolding ApplyRabbitConfiguration_def apply_sections_def GetConnectionUrl_def ResolveRabbitInstanceById_def
  by (intro keeps_intros)

lemma versions_services [keeps_intros]:
  "keeps (all_tabs versioned_inv) (applyRabbitConfigV1AndServiceConfigsToDb e c ns version scs results deleted)"
proof (induction scs arbitrary: results deleted)
  case Nil
  show ?case unfolding applyRabbitConfigV1AndServiceConfigsToDb.simps by (intro keeps_intros)
next
  case (Cons sc scs)
  have "keeps (all_tabs versioned_inv) (apply_service e c ns version sc)"
    unfolding apply_service_def next_noted_def unnoted_def noted_def
    by (intro keeps_intros) (auto split: payload.split intro!: keeps_intros)
  then show ?case unfolding applyRabbitConfigV1AndServiceConfigsToDb.simps by (intro keeps_intros Cons.IH)
qed

lemma versions_all_vhosts: "keeps (all_tabs versioned_inv) (apply_all_vhosts e now c version scs ns)"
proof -
  have "keeps (all_tabs versioned_inv) (applyRabbitConfigurationV2 e now c version scs ns)"
    unfolding applyRabbitConfigurationV2_def apply_versions_def active_version_def by (intro keeps_intros)
  then show ?thesis unfolding apply_all_vhosts_def by (intro keeps_intros keeps_both)
qed

lemma versions_recovery: "keeps (all_tabs versioned_inv) (RecoverVhostsByNamespace e ns)"
  unfolding RecoverVhostsByNamespace_def by (intro keeps_intros)

text \<open>
  The steps: the operations of the RabbitMQ service and of the scheme with any outcome, and what
  happens beside them: faults, other tables, a registration of a virtual host that is added.
\<close>

definition aside :: "'k world \<Rightarrow> 'k world \<Rightarrow> bool" where
  "aside w w' \<longleftrightarrow> txc w' = None \<and> ms_configs (tabs w') = ms_configs (tabs w) \<and> vers_entities (tabs w') = vers_entities (tabs w) \<and>
     vh_id ` set (vhosts (tabs w)) \<subseteq> vh_id ` set (vhosts (tabs w'))"

inductive version_step :: "'k rabbit_env \<Rightarrow> 'k world \<Rightarrow> 'k world \<Rightarrow> bool" for e where
  vs_aside: "aside w w' \<Longrightarrow> version_step e w w'"
| vs_vhost: "w' \<in> {snd (GetOrCreateVhost e c iid cl v w), snd (RemoveVHosts e c s ns w), snd (DeleteVHost e r w),
    snd (rabbit_CleanupNamespace e c ns w), snd (RotatePasswords e c s w), snd (rabbit_DestroyDomain e bns w)} \<Longrightarrow> version_step e w w'"
| vs_entities: "w' \<in> {snd (CreateOrUpdateEntitiesV1 e r en w), snd (DeleteEntities e cl rd w), snd (ApplyPolicies e cl ps w),
    snd (ApplyRabbitConfiguration e c spec ns w)} \<Longrightarrow> version_step e w w'"
| vs_blue_green: "w' \<in> {snd (rabbit_Warmup e st w), snd (rabbit_Commit e st w), snd (rabbit_Promote e st w),
    snd (rabbit_Rollback e st w), snd (ProcessExportedVhost e ns w)} \<Longrightarrow> version_step e w w'"
| vs_scheme: "w' \<in> {snd (apply_all_vhosts e now c version scs ns w), snd (ApplyBgStatus (status_listeners e) now ns status w),
    snd (RecoverVhostsByNamespace e ns w), snd (DeleteCandidateVersionRabbit e ns version w)} \<Longrightarrow> version_step e w w'"

inductive version_reachable :: "'k rabbit_env \<Rightarrow> 'k world \<Rightarrow> bool" for e where
  vr_start: "ms_configs (tabs w) = [] \<Longrightarrow> vers_entities (tabs w) = [] \<Longrightarrow> txc w = None \<Longrightarrow> version_reachable e w"
| vr_step: "version_reachable e w \<Longrightarrow> version_step e w w' \<Longrightarrow> version_reachable e w'"

lemma version_step_inv: "version_step e w w' \<Longrightarrow> all_tabs versioned_inv w \<Longrightarrow> all_tabs versioned_inv w'"
proof (induction rule: version_step.induct)
  case (vs_aside w w')
  then have "versioned_inv (tabs w')"
    unfolding aside_def all_tabs_def by (elim conjE) (rule versioned_inv_same [of "tabs w'" "tabs w"], simp_all)
  with vs_aside show ?case by (simp add: aside_def all_tabs_def committed_def)
qed (elim insertE emptyE; simp only:; erule keeps_after [rotated]; intro keeps_intros versions.inv_blue_green versions_all_vhosts versions_recovery)+

text \<open>
  C36 In every state the RabbitMQ service can reach, whatever requests run in whatever order and
  whatever fails in them: a microservice has one configuration for a version and a virtual host,
  configurations and versioned entities have identifiers of their own, and refer to a virtual
  host and a configuration that exist.
\<close>

theorem versions_consistent:
  assumes "version_reachable e w"
  shows "versioned_inv (tabs w)"
proof -
  have "all_tabs versioned_inv w"
    using assms
  proof (induction rule: version_reachable.induct)
    case (vr_start w)
    then show ?case by (simp add: all_tabs_def committed_def versioned_inv_def)
  next
    case (vr_step w w')
    from version_step_inv [OF vr_step(2,3)] show ?case .
  qed
  then show ?thesis by (simp add: all_tabs_def)
qed

definition orders_release :: "(string \<times> json) list world" where
  "orders_release = snd (apply_all_vhosts hub_env 5 demo_ctx ''v1'' [orders_service orders_section ''a''] ''org'' shelf_start)"

theorem versions_consistent_witness:
  "versioned_inv (tabs orders_release) \<and>
   map (\<lambda>x. (ve_type x, ve_config x)) (vers_entities (tabs orders_release)) =
     [(ExchangeType, 2), (QueueType, 2), (BindingType, 2)]"
proof
  have "version_reachable hub_env shelf_start"
    by (rule vr_start) (simp_all add: shelf_start_def empty_tables_def mk_world_def)
  then have "version_reachable hub_env orders_release"
    unfolding orders_release_def by (rule vr_step) (rule vs_scheme, blast)
  then show "versioned_inv (tabs orders_release)" by (rule versions_consistent)
  show "map (\<lambda>x. (ve_type x, ve_config x)) (vers_entities (tabs orders_release)) =
      [(ExchangeType, 2), (QueueType, 2), (BindingType, 2)]"
    by code_simp
qed

end
