(* ===== verification/Maas_Postdeploy.thy ===== *)
theory Maas_Postdeploy
  imports Maas_Kafka_Props Maas_Auth Maas_Instance
begin

text \<open>
  What the service does when it starts in active mode (postdeploy, utils/maas_secret_files.go): the
  accounts and broker instances of the mounted secret files are created or brought up to date.

  A file is what \<open>os.Stat\<close> and \<open>os.ReadFile\<close> say of its path.  Decoding of the JSON of an instance
  is a parameter, as are key derivation and the UUIDs drawn.
\<close>

section \<open>Secret files\<close>

datatype secret_file = Missing | Unstatable | Unreadable | Contents string

type_synonym files = "string \<Rightarrow> secret_file"

definition MaasSecretsDir :: string where "MaasSecretsDir = ''/var/run/secrets/maas''"

definition PathInstanceRegistrations :: "string \<Rightarrow> string" where
  "PathInstanceRegistrations fileName = MaasSecretsDir @ ''/maas-instance-registrations/'' @ fileName"

definition PathMaasAccount :: "string \<Rightarrow> string \<Rightarrow> string" where
  "PathMaasAccount acc suffix = MaasSecretsDir @ ''/maas-accounts/'' @ acc @ ''-'' @ suffix"

definition ReadFileWithProcessor :: "files \<Rightarrow> string \<Rightarrow> (string \<Rightarrow> ('k, unit) dbio) \<Rightarrow> ('k, unit) dbio" where
  "ReadFileWithProcessor fs path processor =
     (case fs path of
        Missing \<Rightarrow> ret_io ()
      | Unstatable \<Rightarrow> raise_io Generic
      | Unreadable \<Rightarrow> raise_io Generic
      | Contents body \<Rightarrow> if body = [] then ret_io () else processor body)"

text \<open>Secrets that are required; a file that cannot be stated cannot be read either.\<close>

definition read_file :: "files \<Rightarrow> string \<Rightarrow> string outcome" where
  "read_file fs path = (case fs path of Contents body \<Rightarrow> Inr body | _ \<Rightarrow> Inl Generic)"

definition ReadSecretFromFileRequired :: "files \<Rightarrow> string \<Rightarrow> string outcome" where
  "ReadSecretFromFileRequired fs path =
     (case read_file fs path of
        Inl e \<Rightarrow> Inl e
      | Inr b \<Rightarrow> let s = trim_space b in if s = [] then Inl Generic else Inr s)"

definition ReadSecretBoolFromFileRequired :: "files \<Rightarrow> string \<Rightarrow> bool outcome" where
  "ReadSecretBoolFromFileRequired fs path =
     (case read_file fs path of
        Inl e \<Rightarrow> Inl e
      | Inr b \<Rightarrow> let s = trim_space (to_lower b) in
          if s = [] then Inl Generic else Inr (s = ''true'' \<or> s = ''1'' \<or> s = ''yes''))"

section \<open>Accounts (accounts.go)\<close>

definition createAccounts ::
    "(string \<Rightarrow> string \<Rightarrow> string) \<Rightarrow> string \<Rightarrow> files \<Rightarrow> string \<Rightarrow> (string \<Rightarrow> string \<Rightarrow> ('k, unit) dbio) \<Rightarrow> ('k, unit) dbio" where
  "createAccounts kdf uuid fs acc finalizer =
     ReadFileWithProcessor fs (PathMaasAccount acc ''username'') (\<lambda>username.
     ReadFileWithProcessor fs (PathMaasAccount acc ''password'') (\<lambda>password.
       bind_io (wrap_io (dao_GetAccountByUsername username)) (\<lambda>found.
         case found of
           Some _ \<Rightarrow> wrap_io (UpdateUserPassword kdf uuid username password)
         | None \<Rightarrow> finalizer username password)))"

definition create_manager_account :: "(string \<Rightarrow> string \<Rightarrow> string) \<Rightarrow> string \<Rightarrow> files \<Rightarrow> ('k, unit) dbio" where
  "create_manager_account kdf uuid fs =
     createAccounts kdf uuid fs ''manager'' (\<lambda>username password.
       then_io (wrap_io (CreateNewManager kdf uuid \<lparr>ma_username = username, ma_password = password\<rparr>)) (ret_io ()))"

definition createDeployerAccount :: "(string \<Rightarrow> string \<Rightarrow> string) \<Rightarrow> string \<Rightarrow> files \<Rightarrow> ('k, unit) dbio" where
  "createDeployerAccount kdf uuid fs =
     createAccounts kdf uuid fs ''deployer'' (\<lambda>username password.
       then_io (wrap_io (CreateUserAccount kdf uuid
           \<lparr>ca_username = username, ca_password = password, ca_namespace = ManagerAccountNamespace,
            ca_roles = Some [ManagerRole, AgentRole]\<rparr>)) (ret_io ()))"

section \<open>Broker instances (broker_registration.go)\<close>

record ('k, 'i) instance_service =
  bs_GetById :: "string \<Rightarrow> ('k, 'i option) dbio"
  bs_Update :: "'i \<Rightarrow> ('k, 'i) dbio"
  bs_Register :: "string \<Rightarrow> 'i \<Rightarrow> ('k, 'i) dbio"
  bs_GetDefault :: "('k, 'i option) dbio"
  bs_GetId :: "'i \<Rightarrow> string"
  bs_SetDefault :: "bool \<Rightarrow> 'i \<Rightarrow> 'i"

text \<open>
  \<open>json.Unmarshal\<close> into a slice gives what it decoded and whether it failed; an element \<open>null\<close>
  is a nil pointer.
\<close>

record 'i decoder =
  decode_all :: "string \<Rightarrow> 'i option list \<times> bool"
  decode_one :: "string \<Rightarrow> 'i option outcome"

definition readInstance ::
    "'i decoder \<Rightarrow> files \<Rightarrow> string \<Rightarrow> ('i option list \<Rightarrow> ('k, unit) dbio) \<Rightarrow> ('k, unit) dbio" where
  "readInstance dec fs path processor =
     ReadFileWithProcessor fs path (\<lambda>body.
       case decode_all dec body of
         (objects, False) \<Rightarrow> processor objects
       | (objects, True) \<Rightarrow>
           (case decode_one dec body of
              Inl e \<Rightarrow> raise_io Generic
            | Inr obj \<Rightarrow> processor (objects @ [obj])))"

text \<open>The default of the database has priority over the flags of the file.\<close>

definition mark_instances ::
    "('k, 'i) instance_service \<Rightarrow> 'i option \<Rightarrow> 'i option list \<Rightarrow> ('k, 'i option list) dbio" where
  "mark_instances svc dflt instances =
     (case dflt of
        None \<Rightarrow> ret_io instances
      | Some d \<Rightarrow> map_io (\<lambda>p. bind_io (deref_io p) (\<lambda>i.
          ret_io (Some (bs_SetDefault svc (bs_GetId svc i = bs_GetId svc d) i)))) instances)"

definition install_instance :: "('k, 'i) instance_service \<Rightarrow> string \<Rightarrow> 'i option \<Rightarrow> ('k, unit) dbio" where
  "install_instance svc uuid p =
     bind_io (deref_io p) (\<lambda>i.
     bind_io (wrap_io (bs_GetById svc (bs_GetId svc i))) (\<lambda>existing.
       then_io (case existing of
           None \<Rightarrow> wrap_io (bs_Register svc uuid i)
         | Some _ \<Rightarrow> wrap_io (bs_Update svc i))
         (ret_io ())))"

definition registerInstance ::
    "('k, 'i) instance_service \<Rightarrow> 'i decoder \<Rightarrow> (nat \<Rightarrow> string) \<Rightarrow> files \<Rightarrow> string \<Rightarrow> ('k, unit) dbio" where
  "registerInstance svc dec uuids fs path =
     readInstance dec fs path (\<lambda>instances.
       bind_io (opaque_io (bs_GetDefault svc)) (\<lambda>dflt.
       bind_io (mark_instances svc dflt instances) (\<lambda>marked.
         for_each (\<lambda>(n, p). install_instance svc (uuids n) p) (enumerate 0 marked))))"

definition processInstanceRegistrationFiles ::
    "string \<Rightarrow> ('k, 'i) instance_service \<Rightarrow> 'i decoder \<Rightarrow> (string \<Rightarrow> nat \<Rightarrow> string) \<Rightarrow> files \<Rightarrow> ('k, unit) dbio" where
  "processInstanceRegistrationFiles name svc dec fresh fs =
     (let path = PathInstanceRegistrations (''maas-'' @ name @ ''-instance-body'') in
      then_io (registerInstance svc dec (fresh path) fs path)
        (registerInstance svc dec (fresh (path @ ''-2'')) fs (path @ ''-2'')))"

definition kafka_instance_service ::
    "('k, kafka_instance) listeners \<Rightarrow> (kafka_instance \<Rightarrow> unit outcome) \<Rightarrow> ('k, kafka_instance) instance_service" where
  "kafka_instance_service bc health =
     \<lparr>bs_GetById = k_GetById, bs_Update = k_Update bc health, bs_Register = k_Register bc health,
      bs_GetDefault = k_GetDefault, bs_GetId = ki_id, bs_SetDefault = (\<lambda>b i. i\<lparr>ki_default := b\<rparr>)\<rparr>"

definition rabbit_instance_service ::
    "('k, rabbit_instance) listeners \<Rightarrow> (rabbit_instance \<Rightarrow> unit outcome) \<Rightarrow> ('k, rabbit_instance) instance_service" where
  "rabbit_instance_service bc health =
     \<lparr>bs_GetById = r_GetById, bs_Update = r_Update bc health, bs_Register = r_Register bc health,
      bs_GetDefault = r_GetDefault, bs_GetId = ri_id, bs_SetDefault = (\<lambda>b i. i\<lparr>ri_default := b\<rparr>)\<rparr>"

text \<open>\<open>fresh path n\<close> is the UUID drawn for the n-th object of a file.\<close>

definition RunPostdeployScripts ::
    "(string \<Rightarrow> string \<Rightarrow> string) \<Rightarrow> (string \<Rightarrow> nat \<Rightarrow> string) \<Rightarrow> rabbit_instance decoder \<Rightarrow> kafka_instance decoder \<Rightarrow>
     ('k, rabbit_instance) instance_service \<Rightarrow> ('k, kafka_instance) instance_service \<Rightarrow> files \<Rightarrow> ('k, unit) dbio" where
  "RunPostdeployScripts kdf fresh rdec kdec rabbit kafka fs =
     then_io (create_manager_account kdf (fresh (PathMaasAccount ''manager'' ''username'') 0) fs)
     (then_io (createDeployerAccount kdf (fresh (PathMaasAccount ''deployer'' ''username'') 0) fs)
     (then_io (processInstanceRegistrationFiles ''rabbit'' rabbit rdec fresh fs)
       (processInstanceRegistrationFiles ''kafka'' kafka kdec fresh fs)))"

section \<open>Defaults are kept\<close>

text \<open>
  \<open>kept ks rs\<close>: the registries are in order, and the instances of \<open>ks\<close> and \<open>rs\<close> are the defaults.
  A broker that is not told to move a default keeps them, as every statement is undone with its transaction.
\<close>

definition defaults_are :: "string set \<Rightarrow> string set \<Rightarrow> tables \<Rightarrow> bool" where
  "defaults_are ks rs t \<longleftrightarrow> (\<forall>d \<in> ks. (d, True) \<in> set (k_flags t)) \<and> (\<forall>d \<in> rs. (d, True) \<in> set (r_flags t))"

definition settled :: "string set \<Rightarrow> string set \<Rightarrow> tables \<Rightarrow> bool" where
  "settled ks rs t \<longleftrightarrow> both_ok t \<and> defaults_are ks rs t"

lemma tx_conj: "tx_rule P f Q \<Longrightarrow> tx_rule R f S \<Longrightarrow> tx_rule (\<lambda>t. P t \<and> R t) f (\<lambda>a t. Q a t \<and> S a t)"
  unfolding tx_rule_def by blast

context default_registry
begin

lemma default_marked: "(i, d) \<in> set (flags t) \<Longrightarrow> (i, True) \<in> set (flags (mark i (clear t)))"
  using mark [of i "clear t"] clear [of t] by (auto simp: image_image intro!: rev_image_eqI [where x = "(i, d)"])

lemma default_added: "add x t = Inr (u, t') \<Longrightarrow> (d, True) \<in> set (flags t) \<Longrightarrow> (d, True) \<in> set (flags t') \<and> ident x \<noteq> d"
  using add [of x t u t'] by force

lemma default_saved:
  assumes "save x t = Inr (u, t')" "ident x \<in> fst ` set (flags t)" "(d, True) \<in> set (flags t)" "ident x = d \<longrightarrow> dflt x"
  shows "(d, True) \<in> set (flags t')"
  using save [OF assms(1,2)] assms(3,4) by (auto intro!: rev_image_eqI [where x = "(d, True)"])

end

lemma k_marked_keeps:
  assumes "defaults_are ks rs s" "ks \<subseteq> {i}" "update_kafka_default i (clear_kafka_default s) = Inr (row, t')" "row \<noteq> None"
  shows "defaults_are ks rs t'"
proof -
  have t': "t' = mark_kafka_default i (clear_kafka_default s)"
    using assms(3,4) by (simp add: update_kafka_default_def split: if_splits)
  have r: "r_flags t' = r_flags s" using kafka.mark [of i "clear_kafka_default s"] kafka.clear [of s] t' by simp
  have "(d, True) \<in> set (k_flags t')" if "d \<in> ks" for d
    using kafka.default_marked [of i True s] assms(1,2) that t' by (auto simp: defaults_are_def)
  with assms(1) r show ?thesis by (simp add: defaults_are_def)
qed

lemma k_default_keeps:
  "tx_rule (\<lambda>t. defaults_are ks rs t \<and> ks \<subseteq> {ki_id i}) (k_default_body i) (\<lambda>_. defaults_are ks rs)"
  unfolding k_default_body_def
  by (intro tx_rules tx_then [where R = "\<lambda>t. \<exists>s. (defaults_are ks rs s \<and> ks \<subseteq> {ki_id i}) \<and> t = clear_kafka_default s"]
      tx_bind [where R = "\<lambda>r t. \<forall>row. r = Inr (Some row) \<longrightarrow> defaults_are ks rs t"] tx_write)
    (auto dest: k_marked_keeps)

lemma k_SetDefault_keeps:
  "tx_rule (\<lambda>t. defaults_are ks rs t \<and> ks \<subseteq> {ki_id i}) (k_dao_SetDefaultInstance i) (\<lambda>_. defaults_are ks rs)"
  unfolding k_dao_SetDefaultInstance_def by (rule tx_with_tx [OF k_default_keeps])

lemma k_insert_keeps:
  assumes i: "\<forall>d \<in> ks. ki_default i \<longrightarrow> ki_id i = d"
  shows "tx_rule (defaults_are ks rs) (k_insert_body i) (\<lambda>_. defaults_are ks rs)"
  unfolding k_insert_body_def
proof (rule tx_bind [where R = "\<lambda>b t. defaults_are ks rs t \<and> (b \<longrightarrow> ks = {})"])
  show "tx_rule (defaults_are ks rs) (sql_read (\<lambda>t. length (kafka_instances t) = 0)) (\<lambda>b t. defaults_are ks rs t \<and> (b \<longrightarrow> ks = {}))"
    by (rule tx_read) (auto simp: defaults_are_def k_flags_def)
  fix b
  let ?R = "\<lambda>t. defaults_are ks rs t \<and> (ki_default i \<or> b \<longrightarrow> ks = {})"
  have add: "?R t'" if t: "defaults_are ks rs t \<and> (b \<longrightarrow> ks = {})" and a: "insert_kafka i t = Inr (u, t')" for t t' u
  proof -
    have "(d, True) \<in> set (k_flags t') \<and> ki_id i \<noteq> d" if "d \<in> ks" for d
      using kafka.default_added [OF a, of d] t that by (simp add: defaults_are_def)
    moreover have "r_flags t' = r_flags t" using kafka.add [OF a] by simp
    ultimately show ?thesis using t i by (auto simp: defaults_are_def)
  qed
  show "tx_rule (\<lambda>t. defaults_are ks rs t \<and> (b \<longrightarrow> ks = {})) (then_io (map_err_io unique_as_bad_request (sql_write (insert_kafka i)))
      (if ki_default i \<or> b then k_dao_SetDefaultInstance i else ret_io i)) (\<lambda>_. defaults_are ks rs)"
  proof (rule tx_then [where R = ?R])
    show "tx_rule (\<lambda>t. defaults_are ks rs t \<and> (b \<longrightarrow> ks = {})) (map_err_io unique_as_bad_request (sql_write (insert_kafka i))) (\<lambda>_. ?R)"
      by (intro tx_map_err tx_write) (erule (1) add | simp)+
    show "tx_rule ?R (if ki_default i \<or> b then k_dao_SetDefaultInstance i else ret_io i) (\<lambda>_. defaults_are ks rs)"
      by (intro tx_if tx_ret tx_weaken [OF k_SetDefault_keeps]) auto
  qed
qed

lemma k_save_keeps:
  assumes "\<forall>d \<in> ks. ki_id i = d \<longrightarrow> ki_default i" "defaults_are ks rs t" "ki_id i \<in> fst ` set (k_flags t)" "save_kafka i t = Inr (u, t')"
  shows "defaults_are ks rs t'"
  using kafka.default_saved [OF assms(4,3)] kafka.save [OF assms(4,3)] assms(1,2) by (simp add: defaults_are_def)

lemma k_update_keeps:
  assumes i: "\<forall>d \<in> ks. ki_default i = (ki_id i = d)"
  shows "tx_rule (defaults_are ks rs) (k_update_body i) (\<lambda>_. defaults_are ks rs)"
  unfolding k_update_body_def
proof (rule tx_bind [OF tx_k_GetById], rule tx_option, goal_cases)
  case 1
  show ?case by (rule tx_raise) simp
next
  case (2 found old)
  let ?P = "\<lambda>t. defaults_are ks rs t \<and> ki_id i \<in> fst ` set (k_flags t)"
  have w: "tx_rule ?P (wrap_io (sql_write (save_kafka i))) (\<lambda>_. defaults_are ks rs)"
    by (intro tx_wrap tx_write) (use i in \<open>auto intro: k_save_keeps\<close>)
  have d: "tx_rule (defaults_are ks rs) (if ki_default i then wrap_io (k_dao_SetDefaultInstance i) else ret_io i) (\<lambda>_. defaults_are ks rs)"
    by (intro tx_if tx_ret tx_wrap tx_weaken [OF k_SetDefault_keeps]) (use i in auto)
  have "tx_rule ?P (if ki_default old \<and> \<not> ki_default i then raise_io BadRequest
           else then_io (wrap_io (sql_write (save_kafka i)))
                  (if ki_default i then wrap_io (k_dao_SetDefaultInstance i) else ret_io i)) (\<lambda>_. defaults_are ks rs)"
    by (intro tx_if tx_raise tx_then [OF w d]) simp
  then show ?case by (rule tx_weaken) (use 2 in \<open>auto intro: rev_image_eqI\<close>)
qed

lemma r_marked_keeps:
  assumes "defaults_are ks rs s" "rs \<subseteq> {i}" "update_rabbit_default i (clear_rabbit_default s) = Inr (1, t')"
  shows "defaults_are ks rs t'"
proof -
  have t': "t' = mark_rabbit_default i (clear_rabbit_default s)"
    using assms(3) by (simp add: update_rabbit_default_def split: if_splits)
  have r: "k_flags t' = k_flags s" using rabbit.mark [of i "clear_rabbit_default s"] rabbit.clear [of s] t' by simp
  have "(d, True) \<in> set (r_flags t')" if "d \<in> rs" for d
    using rabbit.default_marked [of i True s] assms(1,2) that t' by (auto simp: defaults_are_def)
  with assms(1) r show ?thesis by (simp add: defaults_are_def)
qed

lemma r_SetDefault_keeps:
  "tx_rule (\<lambda>t. defaults_are ks rs t \<and> rs \<subseteq> {ri_id i}) (r_dao_SetDefaultInstance i)
     (\<lambda>j t. defaults_are ks rs t \<and> j = i\<lparr>ri_default := True\<rparr>)"
  unfolding r_dao_SetDefaultInstance_def r_default_body_def
  by (intro tx_with_tx tx_then [where R = "\<lambda>t. \<exists>s. (defaults_are ks rs s \<and> rs \<subseteq> {ri_id i}) \<and> t = clear_rabbit_default s"]
      tx_bind [where R = "\<lambda>r t. r = Inr 1 \<longrightarrow> defaults_are ks rs t"] tx_wrap tx_attempt tx_write tx_sum tx_if tx_raise tx_ret)
    (auto dest: r_marked_keeps)

lemma r_insert_keeps:
  assumes i: "\<forall>d \<in> rs. ri_default i \<longrightarrow> ri_id i = d"
  shows "tx_rule (defaults_are ks rs) (r_insert_body i) (\<lambda>_. defaults_are ks rs)"
  unfolding r_insert_body_def
proof (rule tx_bind [where R = "\<lambda>b t. defaults_are ks rs t \<and> (b \<longrightarrow> rs = {})"])
  show "tx_rule (defaults_are ks rs) (sql_read (\<lambda>t. length (rabbit_instances t) = 0)) (\<lambda>b t. defaults_are ks rs t \<and> (b \<longrightarrow> rs = {}))"
    by (rule tx_read) (auto simp: defaults_are_def r_flags_def)
  fix b
  let ?R = "\<lambda>t. defaults_are ks rs t \<and> (ri_default i \<or> b \<longrightarrow> rs = {})"
  have add: "?R t'" if t: "defaults_are ks rs t \<and> (b \<longrightarrow> rs = {})" and a: "insert_rabbit i t = Inr (u, t')" for t t' u
  proof -
    have "(d, True) \<in> set (r_flags t') \<and> ri_id i \<noteq> d" if "d \<in> rs" for d
      using rabbit.default_added [OF a, of d] t that by (simp add: defaults_are_def)
    moreover have "k_flags t' = k_flags t" using rabbit.add [OF a] by simp
    ultimately show ?thesis using t i by (auto simp: defaults_are_def)
  qed
  show "tx_rule (\<lambda>t. defaults_are ks rs t \<and> (b \<longrightarrow> rs = {})) (then_io (map_err_io unique_as_bad_request (sql_write (insert_rabbit i)))
      (if ri_default i \<or> b then r_dao_SetDefaultInstance i else ret_io i)) (\<lambda>_. defaults_are ks rs)"
  proof (rule tx_then [where R = ?R])
    show "tx_rule (\<lambda>t. defaults_are ks rs t \<and> (b \<longrightarrow> rs = {})) (map_err_io unique_as_bad_request (sql_write (insert_rabbit i))) (\<lambda>_. ?R)"
      by (intro tx_map_err tx_write) (erule (1) add | simp)+
    show "tx_rule ?R (if ri_default i \<or> b then r_dao_SetDefaultInstance i else ret_io i) (\<lambda>_. defaults_are ks rs)"
      by (intro tx_if tx_ret tx_weaken [OF r_SetDefault_keeps]) auto
  qed
qed

lemma r_save_keeps:
  assumes "\<forall>d \<in> rs. ri_id i = d \<longrightarrow> ri_default i" "defaults_are ks rs t" "ri_id i \<in> fst ` set (r_flags t)" "save_rabbit i t = Inr (u, t')"
  shows "defaults_are ks rs t'"
  using rabbit.default_saved [OF assms(4,3)] rabbit.save [OF assms(4,3)] assms(1,2) by (simp add: defaults_are_def)

text \<open>Moving the default leaves the identifiers alone.\<close>

lemma r_SetDefault_inv:
  assumes "\<And>t. I t \<Longrightarrow> I (clear_rabbit_default t)" "\<And>t n t'. update_rabbit_default (ri_id i) t = Inr (n, t') \<Longrightarrow> I t \<Longrightarrow> I t'"
  shows "tx_rule I (r_dao_SetDefaultInstance i) (\<lambda>_. I)"
  unfolding r_dao_SetDefaultInstance_def r_default_body_def
  by (intro tx_with_tx tx_then [where R = I] tx_bind [where R = "\<lambda>r t. r = Inr 1 \<longrightarrow> I t"]
      tx_wrap tx_attempt tx_write tx_sum tx_if tx_raise tx_ret) (auto intro: assms)

lemma r_SetDefault_ids:
  "tx_rule (\<lambda>t. x \<in> fst ` set (r_flags t)) (r_dao_SetDefaultInstance i) (\<lambda>_ t. x \<in> fst ` set (r_flags t))"
proof (rule r_SetDefault_inv)
  show "x \<in> fst ` set (r_flags (clear_rabbit_default t))" if "x \<in> fst ` set (r_flags t)" for t
    using that rabbit.clear [of t] by (simp add: image_image case_prod_beta)
  show "x \<in> fst ` set (r_flags t')"
    if "update_rabbit_default (ri_id i) t = Inr (n, t')" "x \<in> fst ` set (r_flags t)" for t n t'
    using that rabbit.mark [of "ri_id i" t] by (simp add: update_rabbit_default_def image_image case_prod_beta split: if_splits)
qed

lemma r_update_keeps:
  assumes i: "\<forall>d \<in> rs. ri_default i = (ri_id i = d)"
  shows "tx_rule (defaults_are ks rs) (r_update_body i) (\<lambda>_. defaults_are ks rs)"
  unfolding r_update_body_def
proof (rule tx_bind [OF tx_r_GetById], rule tx_option, goal_cases)
  case 1
  show ?case by (rule tx_raise) simp
next
  case (2 found old)
  let ?P = "\<lambda>t. defaults_are ks rs t \<and> ri_id i \<in> fst ` set (r_flags t)"
  let ?j = "\<lambda>j. ri_default j = ri_default i \<and> ri_id j = ri_id i"
  have "tx_rule ?P (if ri_default i then r_dao_SetDefaultInstance i else ret_io i)
      (\<lambda>j t. (defaults_are ks rs t \<and> j = i\<lparr>ri_default := True\<rparr>) \<and> ri_id i \<in> fst ` set (r_flags t))" if "ri_default i"
    unfolding if_P [OF that] by (rule tx_weaken [OF tx_conj [OF r_SetDefault_keeps r_SetDefault_ids]]) (use i that in auto)
  then have d: "tx_rule ?P (if ri_default i then r_dao_SetDefaultInstance i else ret_io i) (\<lambda>j t. ?P t \<and> ?j j)"
    by (cases "ri_default i") (auto elim!: tx_weaken intro: tx_ret)
  have w: "tx_rule (\<lambda>t. ?P t \<and> ?j j) (then_io (wrap_io (sql_write (save_rabbit j))) (ret_io j)) (\<lambda>_. defaults_are ks rs)" for j
  proof -
    have "defaults_are ks rs t'" if "?P t \<and> ?j j" "save_rabbit j t = Inr (u, t')" for t t' u
      using r_save_keeps [OF _ _ _ that(2)] that(1) i by simp
    then show ?thesis by (intro tx_then [where R = "defaults_are ks rs"] tx_wrap tx_write tx_ret) blast+
  qed
  have "tx_rule ?P (if ri_default old \<and> \<not> ri_default i then raise_io BadRequest
           else bind_io (if ri_default i then r_dao_SetDefaultInstance i else ret_io i) (\<lambda>j.
                  then_io (wrap_io (sql_write (save_rabbit j))) (ret_io j))) (\<lambda>_. defaults_are ks rs)"
    by (intro tx_if tx_raise tx_bind [OF d w]) simp
  then show ?case by (rule tx_weaken) (use 2 in \<open>auto intro: rev_image_eqI\<close>)
qed

section \<open>The environment of a request\<close>

text \<open>
  \<open>calm_master\<close>: the master is alive, and no statement fails with the error \<open>First\<close> reserves for a
  missing row.  No request changes that.
\<close>

definition calm_master :: "'k world \<Rightarrow> bool" where
  "calm_master w \<longleftrightarrow> master_alive w \<and> Some RecordNotFound \<notin> set (faults w)"

lemma calm_master_upd [simp]:
  "calm_master (w\<lparr>tabs := t\<rparr>) = calm_master w" "calm_master (w\<lparr>txc := x\<rparr>) = calm_master w"
  "calm_master (w\<lparr>conn := c\<rparr>) = calm_master w"
  by (simp_all add: calm_master_def)

lemma calm_master_pop [simp]: "calm_master w \<Longrightarrow> calm_master (pop_fault w)"
  by (cases "faults w") (auto simp: calm_master_def pop_fault_def)

lemma calm_master_kill [simp]: "calm_master w \<Longrightarrow> calm_master (kill_tx w)"
  by (simp add: kill_tx_def split: option.split)

lemma calm_statements [keeps_intros]: "keeps calm_master (sql_read q)" "keeps calm_master (sql_write f)"
  by (rule keepsI, auto simp: sql_read_def sql_write_def Let_def split: list.splits option.splits if_splits sum.splits)+

lemma calm_first [keeps_intros]: "keeps calm_master (sql_first q)"
  unfolding sql_first_def by (intro keeps_intros)

lemma calm_using_db [keeps_intros]: "keeps calm_master m \<Longrightarrow> keeps calm_master (using_db z m)"
  by (rule keeps_using_db_gen) simp_all

lemma calm_tx_end: "tx_end r1 w1 = (r, w') \<Longrightarrow> calm_master w1 \<Longrightarrow> calm_master w'"
  by (auto simp: tx_end_def tx_commit_def Let_def split: option.splits sum.splits prod.splits list.splits if_splits)

lemma calm_tx_ctx [keeps_intros]:
  assumes m: "keeps calm_master m"
  shows "keeps calm_master (with_tx_ctx m)"
proof (rule keepsI)
  fix w r w'
  assume w: "calm_master w" and run: "with_tx_ctx m w = (r, w')"
  have k: "calm_master w1" if "m (w\<lparr>txc := x\<rparr>) = (r1, w1)" for x r1 w1 using keepsD [OF m that] w by simp
  show "calm_master w'"
  proof (cases "txc w")
    case None
    with run obtain r1 w1 where "m (w\<lparr>txc := Some \<lparr>nesting = 1, begun = None, tx_dead = False\<rparr>\<rparr>) = (r1, w1)" "tx_end r1 w1 = (r, w')"
      by (auto simp: with_tx_ctx_def split: prod.splits)
    then show ?thesis using k calm_tx_end by blast
  next
    case (Some c)
    with run obtain w1 where "m (w\<lparr>txc := Some (c\<lparr>nesting := nesting c + 1\<rparr>)\<rparr>) = (r, w1)"
      "w' = (case txc w1 of None \<Rightarrow> w1 | Some c' \<Rightarrow> w1\<lparr>txc := Some (c'\<lparr>nesting := nesting c' - 1\<rparr>)\<rparr>)"
      by (auto simp: with_tx_ctx_def split: prod.splits)
    then show ?thesis using k by (auto split: option.splits)
  qed
qed

lemma calm_with_tx [keeps_intros]:
  assumes m: "keeps calm_master m"
  shows "keeps calm_master (with_tx z m)"
proof -
  have "keeps calm_master tx_begin" by (rule keepsI) (auto simp: tx_begin_def split: option.splits prod.splits)
  then have u: "keeps calm_master (using_db z (then_io tx_begin m))" by (intro keeps_intros m)
  show ?thesis by (rule keepsI, use keepsD [OF u] keepsD [OF calm_tx_ctx [OF u]] in \<open>auto simp: with_tx_def Let_def split: if_splits\<close>)
qed

section \<open>Reading the default\<close>

lemma translated_not_found: "translateDRModeError d e = RecordNotFound \<longleftrightarrow> e = RecordNotFound"
  by (cases e) simp_all

lemma begun_first_missing:
  assumes "calm_master v" "txc v = Some \<lparr>nesting = 1, begun = None, tx_dead = False\<rparr>"
    "on_conn Master (then_io tx_begin (sql_first q)) v = (Inl RecordNotFound, v')"
  shows "q (tabs v) = None"
  using assms
  by (auto simp: on_conn_def tx_begin_def sql_first_def sql_read_def bind_io_run then_io_run dead_def pop_fault_def Let_def calm_master_def
      split: list.splits option.splits sum.splits prod.splits)

lemma end_not_found:
  assumes "calm_master w" "tx_end r w = (Inl RecordNotFound, w')"
  shows "r = Inl RecordNotFound"
proof -
  have "fst (tx_commit old w) \<noteq> Some RecordNotFound" for old
    using assms(1) by (auto simp: tx_commit_def calm_master_def Let_def split: list.splits option.splits)
  then show ?thesis using assms(2)
    by (auto simp: tx_end_def split: option.splits sum.splits prod.splits) (metis fst_conv)
qed

lemma missing_row_is_missing:
  assumes w: "calm_master w" "txc w = None" and run: "with_tx z (sql_first q) w = (Inl RecordNotFound, w')"
  shows "q (tabs w) = None"
proof -
  let ?g = "then_io tx_begin (sql_first q)" and ?v = "w\<lparr>txc := Some \<lparr>nesting = 1, begun = None, tx_dead = False\<rparr>\<rparr>"
  have k: "keeps calm_master (using_db z ?g)"
    by (intro keeps_intros keepsI) (auto simp: tx_begin_def split: option.splits prod.splits)
  have "with_tx_ctx (using_db z ?g) w = (Inl RecordNotFound, w')" using run w(2) by (simp add: with_tx_def Let_def)
  then obtain r2 w2 where u: "using_db z ?g ?v = (r2, w2)" and e: "tx_end r2 w2 = (Inl RecordNotFound, w')"
    using with_tx_ctx_top [OF w(2)] by metis
  have "r2 = Inl RecordNotFound" using end_not_found [OF _ e] keepsD [OF k u] w(1) by simp
  moreover obtain r1 w1 where 1: "on_conn Master ?g ?v = (r1, w1)" by (metis surj_pair)
  moreover have "master_alive ?v" "tx_conn ?v = Master" using w(1) by (simp_all add: calm_master_def tx_conn_def)
  ultimately have "r1 = Inl RecordNotFound"
    using u by (cases r1) (auto simp: using_db_def cache_answer_def translated_not_found split: if_splits sum.splits prod.splits)
  with begun_first_missing [of ?v q w1] 1 w(1) show ?thesis by simp
qed

lemma default_read:
  assumes w: "calm_master w" "txc w = None" and run: "defaultInstance z q w = (r, w')"
  shows "tabs w' = tabs w" "r = Inr a \<Longrightarrow> a = q (tabs w)"
proof -
  obtain r1 w1 where 1: "with_tx z (sql_first q) w = (r1, w1)" by (metis surj_pair)
  have rule: "tx_rule (\<lambda>t. t = tabs w) (sql_first q) (\<lambda>x t. t = tabs w \<and> q t = Some x)" by (rule tx_first) simp
  have s: "tabs w1 = tabs w" using with_tx_sound [OF rule w(2) 1] by auto
  have w1: "w' = w1" using run 1 by (auto simp: defaultInstance_def bind_io_run attempt_io_run split: sum.splits if_splits)
  with s show "tabs w' = tabs w" by simp
  show "a = q (tabs w)" if a: "r = Inr a"
  proof (cases r1)
    case (Inr x)
    with with_tx_alive [OF rule w(2), of z x w1] 1 w(1) have "q (tabs w) = Some x" by (auto simp: calm_master_def)
    with Inr run 1 a show ?thesis by (simp add: defaultInstance_def bind_io_run attempt_io_run)
  next
    case (Inl e)
    with run 1 a have "e = RecordNotFound" "a = None"
      by (auto simp: defaultInstance_def bind_io_run attempt_io_run is_record_not_found_def split: if_splits)
    with missing_row_is_missing [OF w, of z q w1] 1 Inl show ?thesis by simp
  qed
qed

section \<open>A start keeps the defaults\<close>

definition ready_to_start :: "string set \<Rightarrow> string set \<Rightarrow> 'k world \<Rightarrow> bool" where
  "ready_to_start ks rs w \<longleftrightarrow> at_rest (settled ks rs) w \<and> calm_master w"

lemma ready_keeps: "keeps (at_rest (settled ks rs)) m \<Longrightarrow> keeps calm_master m \<Longrightarrow> keeps (ready_to_start ks rs) m"
  unfolding ready_to_start_def by (rule keeps_conj)

text \<open>Listeners that touch neither the database nor its availability.\<close>

definition steady :: "('k, 'i) listeners \<Rightarrow> bool" where
  "steady bc \<longleftrightarrow> quiet bc \<and> (\<forall>(n, cb) \<in> set (bc_listeners bc). \<forall>d w.
     master_alive (snd (cb d w)) = master_alive w \<and> faults (snd (cb d w)) = faults w)"

lemma ready_listeners: "steady bc \<Longrightarrow> keeps (ready_to_start ks rs) (ExecuteListeners bc d)"
  by (rule keeps_ExecuteListeners)
    (fastforce simp: steady_def quiet_def keeps_def ready_to_start_def at_rest_def calm_master_def)

lemma ready_tx:
  assumes f: "tx_rule (settled ks rs) f (\<lambda>_. settled ks rs)" and k: "keeps calm_master f"
  shows "keeps (ready_to_start ks rs) (with_tx_ctx (with_tx z f))"
proof (rule ready_keeps)
  show "keeps (at_rest (settled ks rs)) (with_tx_ctx (with_tx z f))"
    by (rule keepsI) (metis at_rest_def keepsD rest_with_tx [OF f] with_tx_ctx_with_tx)
qed (intro keeps_intros k)

lemma settled_tx:
  "tx_rule both_ok f (\<lambda>_. both_ok) \<Longrightarrow> tx_rule (defaults_are ks rs) f (\<lambda>_. defaults_are ks rs) \<Longrightarrow>
   tx_rule (settled ks rs) f (\<lambda>_. settled ks rs)"
  unfolding settled_def by (rule tx_conj)

lemma calm_registry:
  "keeps calm_master (k_dao_GetInstanceById n)" "keeps calm_master (r_dao_GetInstanceById n)"
  "keeps calm_master (k_insert_body i)" "keeps calm_master (k_update_body i)"
  "keeps calm_master (r_insert_body j)" "keeps calm_master (r_update_body j)"
proof -
  have d: "keeps calm_master (k_dao_SetDefaultInstance i)" "keeps calm_master (r_dao_SetDefaultInstance j)" for i j
    unfolding k_dao_SetDefaultInstance_def r_dao_SetDefaultInstance_def k_default_body_def r_default_body_def by (intro keeps_intros)+
  show g: "keeps calm_master (k_dao_GetInstanceById n)" "keeps calm_master (r_dao_GetInstanceById n)" for n
    unfolding k_dao_GetInstanceById_def r_dao_GetInstanceById_def by (intro keeps_intros)+
  show "keeps calm_master (k_insert_body i)" "keeps calm_master (k_update_body i)"
    "keeps calm_master (r_insert_body j)" "keeps calm_master (r_update_body j)"
    unfolding k_insert_body_def k_update_body_def r_insert_body_def r_update_body_def by (intro keeps_intros d g)+
qed

lemma ready_kafka:
  assumes bc: "steady bc" and i: "\<forall>d \<in> ks. ki_default i = (ki_id i = d)" "[] \<notin> ks"
  shows "keeps (ready_to_start ks rs) (k_Register bc health uuid i)" "keeps (ready_to_start ks rs) (k_Update bc health i)"
proof -
  have f: "ki_id (kafka_FillDefaults j) = ki_id j" "ki_default (kafka_FillDefaults j) = ki_default j" for j
    by (simp_all add: kafka_FillDefaults_def Let_def)
  have perform: "keeps (ready_to_start ks rs) (k_performOperation bc j reg)"
    if "keeps (ready_to_start ks rs) (reg (kafka_FillDefaults j))" for j reg
    unfolding k_performOperation_def by (intro keeps_if keeps_raise keeps_bind keeps_then keeps_ret that ready_listeners bc)
  have "keeps (ready_to_start ks rs) (k_dao_InsertInstanceRegistration (kafka_FillDefaults j))"
    if "\<forall>d \<in> ks. ki_default j \<longrightarrow> ki_id j = d" for j
    unfolding k_dao_InsertInstanceRegistration_def
    by (intro keeps_wrap ready_tx settled_tx tx_k_insert k_insert_keeps calm_registry) (use that f in auto)
  moreover have "\<forall>d \<in> ks. ki_default (if ki_id i = [] then i\<lparr>ki_id := uuid\<rparr> else i) \<longrightarrow>
      ki_id (if ki_id i = [] then i\<lparr>ki_id := uuid\<rparr> else i) = d" using i by auto
  ultimately have "keeps (ready_to_start ks rs) (k_performOperation bc (if ki_id i = [] then i\<lparr>ki_id := uuid\<rparr> else i) k_dao_InsertInstanceRegistration)"
    by (intro perform)
  then show "keeps (ready_to_start ks rs) (k_Register bc health uuid i)"
    unfolding k_Register_def Let_def by (intro keeps_sum keeps_raise)
  have "keeps (ready_to_start ks rs) (k_dao_UpdateInstanceRegistration (kafka_FillDefaults i))"
    unfolding k_dao_UpdateInstanceRegistration_def
    by (intro keeps_wrap ready_tx settled_tx tx_k_update k_update_keeps calm_registry) (use i f in auto)
  then show "keeps (ready_to_start ks rs) (k_Update bc health i)"
    unfolding k_Update_def by (intro keeps_sum keeps_raise perform)
qed

lemma ready_rabbit:
  assumes bc: "steady bc" and i: "\<forall>d \<in> rs. ri_default i = (ri_id i = d)" "[] \<notin> rs"
  shows "keeps (ready_to_start ks rs) (r_Register bc health uuid i)" "keeps (ready_to_start ks rs) (r_Update bc health i)"
proof -
  have f: "ri_id (rabbit_FillDefaults j) = ri_id j" "ri_default (rabbit_FillDefaults j) = ri_default j" for j
    by (simp_all add: rabbit_FillDefaults_def Let_def)
  have perform: "keeps (ready_to_start ks rs) (r_performOperation bc j reg)"
    if "keeps (ready_to_start ks rs) (reg (rabbit_FillDefaults j))" for j reg
    unfolding r_performOperation_def by (intro keeps_if keeps_raise keeps_bind keeps_then keeps_ret that ready_listeners bc)
  have "keeps (ready_to_start ks rs) (r_dao_InsertInstanceRegistration (rabbit_FillDefaults j))"
    if "\<forall>d \<in> rs. ri_default j \<longrightarrow> ri_id j = d" for j
    unfolding r_dao_InsertInstanceRegistration_def
    by (intro keeps_wrap ready_tx settled_tx tx_r_insert r_insert_keeps calm_registry) (use that f in auto)
  moreover have "\<forall>d \<in> rs. ri_default (if ri_id i = [] then i\<lparr>ri_id := uuid\<rparr> else i) \<longrightarrow>
      ri_id (if ri_id i = [] then i\<lparr>ri_id := uuid\<rparr> else i) = d" using i by auto
  ultimately have "keeps (ready_to_start ks rs) (r_performOperation bc (if ri_id i = [] then i\<lparr>ri_id := uuid\<rparr> else i) r_dao_InsertInstanceRegistration)"
    by (intro perform)
  then show "keeps (ready_to_start ks rs) (r_Register bc health uuid i)"
    unfolding r_Register_def Let_def by (intro keeps_sum keeps_raise)
  have "keeps (ready_to_start ks rs) (r_dao_UpdateInstanceRegistration (rabbit_FillDefaults i))"
    unfolding r_dao_UpdateInstanceRegistration_def
    by (intro keeps_wrap ready_tx settled_tx tx_r_update r_update_keeps calm_registry) (use i f in auto)
  then show "keeps (ready_to_start ks rs) (r_Update bc health i)"
    unfolding r_Update_def by (intro keeps_sum keeps_raise perform)
qed

text \<open>
  The registration of the instances of a file, for a broker whose service is given by its record:
  its default \<open>d \<in> D\<close> is read, the flags of the file follow it, and only such instances are sent
  to the service.
\<close>

definition follows :: "('k, 'i) instance_service \<Rightarrow> ('i \<Rightarrow> bool) \<Rightarrow> string set \<Rightarrow> 'i option \<Rightarrow> bool" where
  "follows svc flag D p \<longleftrightarrow> (\<forall>i. p = Some i \<longrightarrow> (\<forall>d \<in> D. flag i = (bs_GetId svc i = d)))"

lemma map_io_all:
  assumes "\<And>p m w w'. f p w = (Inr m, w') \<Longrightarrow> Q m" "map_io f ps w = (Inr ms, w')" "m \<in> set ms"
  shows "Q m"
  using assms(2,3)
proof (induction ps arbitrary: ms w w')
  case (Cons p ps)
  then show ?case using assms(1) by (auto simp: bind_io_run split: sum.splits prod.splits)
qed simp

lemma marked_follow:
  assumes set: "\<And>b i. flag (bs_SetDefault svc b i) = b" "\<And>b i. bs_GetId svc (bs_SetDefault svc b i) = bs_GetId svc i"
    and d: "\<forall>k \<in> D. \<exists>x. dflt = Some x \<and> bs_GetId svc x = k"
    and run: "mark_instances svc dflt ps w = (Inr ms, w')" and m: "m \<in> set ms"
  shows "follows svc flag D m"
proof (cases dflt)
  case None
  with d show ?thesis by (auto simp: follows_def)
next
  case (Some x)
  let ?f = "\<lambda>p. bind_io (deref_io p) (\<lambda>i. ret_io (Some (bs_SetDefault svc (bs_GetId svc i = bs_GetId svc x) i)))"
  have "follows svc flag D y" if "?f p v = (Inr y, v')" for p y v v'
    using that d Some set by (cases p) (auto simp: bind_io_run deref_io_def follows_def)
  from map_io_all [where f = ?f, OF this _ m] run Some show ?thesis by (simp add: mark_instances_def)
qed

lemma registerInstance_keeps:
  fixes svc :: "('k, 'i) instance_service"
  assumes set: "\<And>b i. flag (bs_SetDefault svc b i) = b" "\<And>b i. bs_GetId svc (bs_SetDefault svc b i) = bs_GetId svc i"
    and get: "\<And>n. keeps P (bs_GetById svc n)"
    and dflt: "\<And>w r w'. P w \<Longrightarrow> bs_GetDefault svc w = (r, w') \<Longrightarrow>
      P w' \<and> (\<forall>a. r = Inr a \<longrightarrow> (\<forall>k \<in> D. \<exists>x. a = Some x \<and> bs_GetId svc x = k))"
    and ops: "\<And>i u. \<forall>d \<in> D. flag i = (bs_GetId svc i = d) \<Longrightarrow> keeps P (bs_Register svc u i)"
      "\<And>i. \<forall>d \<in> D. flag i = (bs_GetId svc i = d) \<Longrightarrow> keeps P (bs_Update svc i)"
  shows "keeps P (registerInstance svc dec uuids fs path)"
proof -
  have one: "keeps P (install_instance svc u p)" if "follows svc flag D p" for u p
  proof (cases p)
    case (Some i)
    with that have "\<forall>d \<in> D. flag i = (bs_GetId svc i = d)" by (simp add: follows_def)
    then have "keeps P (bind_io (wrap_io (bs_GetById svc (bs_GetId svc i))) (\<lambda>existing.
       then_io (case existing of None \<Rightarrow> wrap_io (bs_Register svc u i) | Some _ \<Rightarrow> wrap_io (bs_Update svc i)) (ret_io ())))"
      by (intro keeps_intros get ops)
    with Some show ?thesis by (simp add: install_instance_def deref_io_def keeps_def bind_io_run)
  qed (simp add: install_instance_def deref_io_def keeps_def bind_io_run)
  let ?each = "\<lambda>ms. for_each (\<lambda>(n, p). install_instance svc (uuids n) p) (enumerate 0 ms)"
  let ?proc = "\<lambda>ps. bind_io (opaque_io (bs_GetDefault svc)) (\<lambda>d. bind_io (mark_instances svc d ps) ?each)"
  have proc: "keeps P (?proc ps)" for ps
  proof (rule keepsI)
    fix w r w'
    assume w: "P w" and run: "bind_io (opaque_io (bs_GetDefault svc)) (\<lambda>d. bind_io (mark_instances svc d ps) ?each) w = (r, w')"
    obtain r1 w1 where 1: "bs_GetDefault svc w = (r1, w1)" by (metis surj_pair)
    note d = dflt [OF w 1]
    show "P w'"
    proof (cases r1)
      case (Inl e)
      with run 1 d show ?thesis by (simp add: bind_io_run opaque_io_def map_err_io_def)
    next
      case (Inr a)
      obtain r2 w2 where 2: "mark_instances svc a ps w1 = (r2, w2)" by (metis surj_pair)
      have "keeps P (mark_instances svc a ps)" unfolding mark_instances_def by (intro keeps_intros)
      from keepsD [OF this 2 conjunct1 [OF d]] have w2: "P w2" .
      show ?thesis
      proof (cases r2)
        case Inl
        with run 1 2 Inr w2 show ?thesis by (simp add: bind_io_run opaque_io_def map_err_io_def)
      next
        case ms: (Inr ms)
        have f: "follows svc flag D m" if "m \<in> set ms" for m
          by (rule marked_follow [where dflt = a, OF set]) (use d Inr 2 ms that in auto)
        have "keeps P (case x of (n, p) \<Rightarrow> install_instance svc (uuids n) p)" if "x \<in> set (enumerate 0 ms)" for x
        proof (cases x)
          case (Pair n p)
          with that have "p \<in> set ms" by (auto simp: in_set_enumerate_eq)
          with Pair one [OF f] show ?thesis by simp
        qed
        then have "keeps P (?each ms)" by (rule keeps_for_each)
        moreover have "?each ms w2 = (r, w')" using run 1 2 Inr ms by (simp add: bind_io_run opaque_io_def map_err_io_def)
        ultimately show ?thesis using w2 by (rule keepsD)
      qed
    qed
  qed
  show ?thesis unfolding registerInstance_def readInstance_def ReadFileWithProcessor_def
  proof (cases "fs path")
    case (Contents body)
    have body: "keeps P (case decode_all dec body of (objects, False) \<Rightarrow> f objects
        | (objects, True) \<Rightarrow> (case decode_one dec body of Inl e \<Rightarrow> raise_io Generic | Inr obj \<Rightarrow> f (objects @ [obj])))"
      if "\<And>ps. keeps P (f ps)" for f :: "'i option list \<Rightarrow> ('k, unit) dbio"
      using that by (auto split: prod.split bool.split sum.split intro: keeps_raise)
    from body [of ?proc, OF proc] Contents show "keeps P (case fs path of Missing \<Rightarrow> ret_io ()
        | Contents body \<Rightarrow> if body = [] then ret_io () else (case decode_all dec body of
            (objects, False) \<Rightarrow> ?proc objects
          | (objects, True) \<Rightarrow> (case decode_one dec body of Inl e \<Rightarrow> raise_io Generic | Inr obj \<Rightarrow> ?proc (objects @ [obj])))
        | _ \<Rightarrow> raise_io Generic)"
      by (simp add: keeps_ret)
  qed (simp_all add: keeps_ret keeps_raise)
qed

lemma rest_GetById: "keeps (at_rest I) (k_GetById n)" "keeps (at_rest I) (r_GetById n)"
  unfolding k_GetById_def r_GetById_def k_dao_GetInstanceById_def r_dao_GetInstanceById_def by (intro keeps_intros)+

lemma default_found:
  assumes o: "one_default (map (\<lambda>i. (f i, g i)) xs)" and k: "(k, True) \<in> set (map (\<lambda>i. (f i, g i)) xs)"
  shows "\<exists>x. find g xs = Some x \<and> f x = k"
proof -
  obtain y where y: "y \<in> set xs" "g y" "f y = k" using k by auto
  then obtain x where x: "find g xs = Some x" by (cases "find g xs") (auto simp: find_None_iff)
  then have gx: "x \<in> set xs" "g x" by (auto simp: find_Some_iff)
  have "xs \<noteq> []" using y by auto
  with o have "length (filter g xs) = 1" by (auto simp: one_default_def filter_map comp_def)
  then obtain z where z: "filter g xs = [z]" by (auto simp: length_Suc_conv)
  have "x \<in> set (filter g xs)" "y \<in> set (filter g xs)" using y gx by simp_all
  then have "x = y" unfolding z by simp
  with x y show ?thesis by simp
qed

lemma rest_default: "keeps (at_rest I) (defaultInstance z q)" "keeps calm_master (defaultInstance z q)"
  unfolding defaultInstance_def by (intro keeps_intros stays_intros)+

lemma ready_flags: "ready_to_start ks rs w \<Longrightarrow> both_ok (tabs w)" "ready_to_start ks rs w \<Longrightarrow> defaults_are ks rs (tabs w)"
  by (simp_all add: ready_to_start_def at_rest_def settled_def)

lemma ready_default:
  assumes w: "ready_to_start ks rs w" and run: "defaultInstance z q w = (r, w')"
  shows "ready_to_start ks rs w' \<and> (\<forall>a. r = Inr a \<longrightarrow> a = q (tabs w))"
  using default_read(2) [of w z q r w'] keepsD [OF rest_default(1) run] keepsD [OF rest_default(2) run] w run
  by (auto simp: ready_to_start_def at_rest_def)

lemma ready_files:
  assumes "steady kb" "steady rb" "[] \<notin> ks" "[] \<notin> rs"
  shows "keeps (ready_to_start ks rs) (registerInstance (kafka_instance_service kb kh) kdec uuids fs path)"
    "keeps (ready_to_start ks rs) (registerInstance (rabbit_instance_service rb rh) rdec uuids fs path)"
proof -
  have g: "keeps (ready_to_start ks rs) (k_GetById n)" "keeps (ready_to_start ks rs) (r_GetById n)" for n
    by (intro ready_keeps rest_GetById; unfold k_GetById_def r_GetById_def; intro keeps_intros calm_registry)+
  show "keeps (ready_to_start ks rs) (registerInstance (kafka_instance_service kb kh) kdec uuids fs path)"
  proof (rule registerInstance_keeps [where flag = ki_default and D = ks])
    fix w r w' assume w: "ready_to_start ks rs w" and "bs_GetDefault (kafka_instance_service kb kh) w = (r, w')"
    then have run: "defaultInstance zero_kafka (\<lambda>t. find ki_default (kafka_instances t)) w = (r, w')"
      by (simp add: kafka_instance_service_def k_GetDefault_def k_dao_GetDefaultInstance_def)
    moreover have "\<exists>x. find ki_default (kafka_instances (tabs w)) = Some x \<and> ki_id x = k" if "k \<in> ks" for k
      by (rule default_found) (use ready_flags [OF w] that in \<open>simp_all add: both_ok_def defaults_are_def k_flags_def\<close>)
    ultimately show "ready_to_start ks rs w' \<and> (\<forall>a. r = Inr a \<longrightarrow> (\<forall>k \<in> ks. \<exists>x. a = Some x \<and> bs_GetId (kafka_instance_service kb kh) x = k))"
      using ready_default [OF w run] by (auto simp: kafka_instance_service_def)
  qed (simp_all add: kafka_instance_service_def g ready_kafka assms)
  show "keeps (ready_to_start ks rs) (registerInstance (rabbit_instance_service rb rh) rdec uuids fs path)"
  proof (rule registerInstance_keeps [where flag = ri_default and D = rs])
    fix w r w' assume w: "ready_to_start ks rs w" and "bs_GetDefault (rabbit_instance_service rb rh) w = (r, w')"
    then have run: "defaultInstance zero_rabbit (\<lambda>t. find ri_default (rabbit_instances t)) w = (r, w')"
      by (simp add: rabbit_instance_service_def r_GetDefault_def r_dao_GetDefaultInstance_def)
    moreover have "\<exists>x. find ri_default (rabbit_instances (tabs w)) = Some x \<and> ri_id x = k" if "k \<in> rs" for k
      by (rule default_found) (use ready_flags [OF w] that in \<open>simp_all add: both_ok_def defaults_are_def r_flags_def\<close>)
    ultimately show "ready_to_start ks rs w' \<and> (\<forall>a. r = Inr a \<longrightarrow> (\<forall>k \<in> rs. \<exists>x. a = Some x \<and> bs_GetId (rabbit_instance_service rb rh) x = k))"
      using ready_default [OF w run] by (auto simp: rabbit_instance_service_def)
  qed (simp_all add: rabbit_instance_service_def g ready_rabbit assms)
qed

text \<open>Setting up the accounts leaves the registries alone.\<close>

lemma ready_accounts: "keeps (ready_to_start ks rs) (create_manager_account kdf uuid fs)" "keeps (ready_to_start ks rs) (createDeployerAccount kdf uuid fs)"
proof -
  have row: "settled ks rs t'" if "settled ks rs t" "insert_account a t = Inr (u, t') \<or> update_password n p s t = Inr (k, t')" for t t' a u n p s k
    using that by (auto simp: settled_def both_ok_def defaults_are_def k_flags_def r_flags_def insert_account_def update_password_def split: if_splits)
  have get: "keeps (all_tabs (settled ks rs)) (dao_GetAccountByUsername n)" "keeps calm_master (dao_GetAccountByUsername n)"
    "keeps (\<lambda>w. txc w = None) (dao_GetAccountByUsername n)" for n
    unfolding dao_GetAccountByUsername_def by (intro keeps_intros)+
  have ops: "keeps (all_tabs (settled ks rs)) (UpdateUserPassword kdf uuid n p)" "keeps (all_tabs (settled ks rs)) (CreateUserAccount kdf uuid c)"
    "keeps (all_tabs (settled ks rs)) (CreateNewManager kdf uuid m)" for n p c m
    unfolding UpdateUserPassword_def dao_UpdateUserPassword_def CreateUserAccount_def CreateNewManager_def createManagerAccount_def
      createAccount_def SaveAccount_def Let_def
    by (intro keeps_intros get; use row in blast)+
  have calm: "keeps calm_master (UpdateUserPassword kdf uuid n p)" "keeps calm_master (CreateUserAccount kdf uuid c)"
    "keeps calm_master (CreateNewManager kdf uuid m)" for n p c m
    unfolding UpdateUserPassword_def dao_UpdateUserPassword_def CreateUserAccount_def CreateNewManager_def createManagerAccount_def
      createAccount_def SaveAccount_def Let_def
    by (intro keeps_intros get)+
  have at: "keeps (ready_to_start ks rs) m"
    if "keeps (all_tabs (settled ks rs)) m" "keeps (\<lambda>w. txc w = None) m" "keeps calm_master m" for m :: "('k, 'x) dbio"
  proof (rule ready_keeps [OF _ that(3)], rule keepsI)
    fix w r w' assume w: "at_rest (settled ks rs) w" "m w = (r, w')"
    then have "all_tabs (settled ks rs) w \<and> txc w = None" by (simp add: all_tabs_def at_rest_def committed_def)
    from top_inv [OF that(1,2) this w(2)] show "at_rest (settled ks rs) w'" by (simp add: all_tabs_def at_rest_def)
  qed
  have read: "keeps (ready_to_start ks rs) (ReadFileWithProcessor fs p f)" if "\<And>b. keeps (ready_to_start ks rs) (f b)" for p f
    unfolding ReadFileWithProcessor_def using that by (cases "fs p") (auto intro: keeps_ret keeps_raise)
  show "keeps (ready_to_start ks rs) (create_manager_account kdf uuid fs)" "keeps (ready_to_start ks rs) (createDeployerAccount kdf uuid fs)"
    unfolding create_manager_account_def createDeployerAccount_def createAccounts_def
    by (intro read keeps_bind keeps_wrap keeps_option keeps_then keeps_ret at get ops top_auth calm)+
qed

lemma ready_start:
  assumes "steady kb" "steady rb" "[] \<notin> ks" "[] \<notin> rs"
  shows "keeps (ready_to_start ks rs) (RunPostdeployScripts kdf fresh rdec kdec (rabbit_instance_service rb rh) (kafka_instance_service kb kh) fs)"
  unfolding RunPostdeployScripts_def processInstanceRegistrationFiles_def Let_def
  by (intro keeps_then ready_accounts ready_files(1) [OF assms] ready_files(2) [OF assms])

lemma same_default:
  assumes o: "one_default (map (\<lambda>i. (f i, g i)) ys)" and n: "map f (filter g xs) = [d]"
    and k: "(d, True) \<in> set (map (\<lambda>i. (f i, g i)) ys)"
  shows "map f (filter g ys) = map f (filter g xs)"
proof -
  have "length (filter g ys) = 1" using o k by (auto simp: one_default_def filter_map comp_def)
  then obtain z where z: "filter g ys = [z]" by (auto simp: length_Suc_conv)
  obtain y where "y \<in> set ys" "g y" "f y = d" using k by auto
  then have "y \<in> set (filter g ys)" by simp
  then have "y = z" unfolding z by simp
  with z n \<open>f y = d\<close> show ?thesis by simp
qed

text \<open>
  C39 Whatever the secret files say and whichever statements fail, a start of the service never
  moves the default of a registry that has one, and leaves both registries in order: what an
  operator chose in the database has priority over the flags of the files.
\<close>

theorem start_keeps_defaults:
  assumes w: "registries_ok w" "calm_master w" "[] \<notin> ki_id ` set (kafka_instances (tabs w))" "[] \<notin> ri_id ` set (rabbit_instances (tabs w))"
    and bc: "steady kb" "steady rb"
    and run: "RunPostdeployScripts kdf fresh rdec kdec (rabbit_instance_service rb rh) (kafka_instance_service kb kh) fs w = (r, w')"
  shows "registries_ok w' \<and>
    (kafka_instances (tabs w) \<noteq> [] \<longrightarrow>
      map ki_id (filter ki_default (kafka_instances (tabs w'))) = map ki_id (filter ki_default (kafka_instances (tabs w)))) \<and>
    (rabbit_instances (tabs w) \<noteq> [] \<longrightarrow>
      map ri_id (filter ri_default (rabbit_instances (tabs w'))) = map ri_id (filter ri_default (rabbit_instances (tabs w))))"
proof -
  let ?ks = "ki_id ` {i \<in> set (kafka_instances (tabs w)). ki_default i}" and ?rs = "ri_id ` {i \<in> set (rabbit_instances (tabs w)). ri_default i}"
  have ok: "txc w = None" "both_ok (tabs w)" using w(1) by (simp_all add: registries_ok_def)
  have "ready_to_start ?ks ?rs w" using ok w(2)
    by (auto simp: ready_to_start_def at_rest_def settled_def defaults_are_def k_flags_def r_flags_def)
  moreover have "[] \<notin> ?ks" "[] \<notin> ?rs" using w(3,4) by auto
  ultimately have a: "ready_to_start ?ks ?rs w'" using keepsD [OF ready_start [OF bc] run] by blast
  then have o: "registries_ok w'" by (simp add: ready_to_start_def at_rest_def settled_def registries_ok_def)
  note b = ready_flags [OF a]
  have k: "map ki_id (filter ki_default (kafka_instances (tabs w'))) = map ki_id (filter ki_default (kafka_instances (tabs w)))"
    if "kafka_instances (tabs w) \<noteq> []"
  proof -
    have "length (filter ki_default (kafka_instances (tabs w))) = 1"
      using ok(2) that by (simp add: both_ok_def one_default_def k_flags_def filter_map comp_def)
    then obtain x where x: "filter ki_default (kafka_instances (tabs w)) = [x]" by (auto simp: length_Suc_conv)
    then have "x \<in> set (kafka_instances (tabs w))" "ki_default x" by (auto dest: filter_eq_ConsD)
    then show ?thesis using b x
      by (intro same_default [where d = "ki_id x"]) (auto simp: both_ok_def defaults_are_def k_flags_def)
  qed
  have r: "map ri_id (filter ri_default (rabbit_instances (tabs w'))) = map ri_id (filter ri_default (rabbit_instances (tabs w)))"
    if "rabbit_instances (tabs w) \<noteq> []"
  proof -
    have "length (filter ri_default (rabbit_instances (tabs w))) = 1"
      using ok(2) that by (simp add: both_ok_def one_default_def r_flags_def filter_map comp_def)
    then obtain x where x: "filter ri_default (rabbit_instances (tabs w)) = [x]" by (auto simp: length_Suc_conv)
    then have "x \<in> set (rabbit_instances (tabs w))" "ri_default x" by (auto dest: filter_eq_ConsD)
    then show ?thesis using b x
      by (intro same_default [where d = "ri_id x"]) (auto simp: both_ok_def defaults_are_def r_flags_def)
  qed
  show ?thesis using o k r by blast
qed

section \<open>Accounts of a start\<close>

definition with_password :: "string \<Rightarrow> string \<Rightarrow> string \<Rightarrow> tables \<Rightarrow> tables" where
  "with_password username password salt t = t\<lparr>accounts := map (\<lambda>a. if a_username a = username
     then a\<lparr>a_salt := salt, a_password := password\<rparr> else a) (accounts t)\<rparr>"

lemma UpdateUserPassword_run:
  assumes h: "healthy w" and p: "p \<noteq> []" "generateSalt uuid \<noteq> []" "kdf p (generateSalt uuid) \<noteq> []"
  shows "UpdateUserPassword kdf uuid n p w =
    (if n \<in> a_username ` set (accounts (tabs w))
     then (Inr (), w\<lparr>tabs := with_password n (kdf p (generateSalt uuid)) (generateSalt uuid) (tabs w)\<rparr>)
     else (Inl NotFound, w))"
proof -
  let ?s = "generateSalt uuid" and ?hit = "[a \<leftarrow> accounts (tabs w). a_username a = n]"
  let ?t = "with_password n (kdf p ?s) ?s (tabs w)"
  have l: "length ?s \<le> 64" by (simp add: generateSalt_def)
  have "update_password n (kdf p ?s) ?s (tabs w) = Inr (length ?hit, ?t)"
    using l p by (simp add: update_password_def with_password_def)
  then have u: "sql_write (update_password n (kdf p ?s) ?s) (enter_tx w) = (Inr (length ?hit), enter_tx w\<lparr>tabs := ?t\<rparr>)"
    using h by (intro sql_write_live) simp_all
  have hit: "length ?hit = 0 \<longleftrightarrow> n \<notin> a_username ` set (accounts (tabs w))" by (auto simp: filter_empty_conv)
  have d: "deferred_ok (tabs w) ?t" by (simp add: deferred_ok_def with_password_def)
  show ?thesis
  proof (cases "n \<in> a_username ` set (accounts (tabs w))")
    case True
    then have "with_tx () (bind_io (attempt_io (sql_write (update_password n (kdf p ?s) ?s))) (\<lambda>res.
       case res of Inl e \<Rightarrow> raise_io NotFound | Inr affected \<Rightarrow> if affected = 0 then raise_io NotFound else ret_io ())) (open_ctx w) =
       (Inr (), enter_tx w\<lparr>tabs := ?t\<rparr>)"
      using h hit by (intro with_tx_Inr) (simp_all add: bind_io_run attempt_io_run u serves_facts)
    moreover have "tx_end (Inr ()) (enter_tx w\<lparr>tabs := ?t\<rparr>) = (Inr (), w\<lparr>tabs := ?t\<rparr>)"
      using h d tx_end_live [of "enter_tx w\<lparr>tabs := ?t\<rparr>" "()"] by simp
    ultimately show ?thesis using True h p
      by (simp add: UpdateUserPassword_def dao_UpdateUserPassword_def with_tx_ctx_open healthy_txc wrap_io_run Let_def)
  next
    case False
    then have "with_tx () (bind_io (attempt_io (sql_write (update_password n (kdf p ?s) ?s))) (\<lambda>res.
       case res of Inl e \<Rightarrow> raise_io NotFound | Inr affected \<Rightarrow> if affected = 0 then raise_io NotFound else ret_io ())) (open_ctx w) =
       (Inl NotFound, enter_tx w\<lparr>tabs := ?t\<rparr>)"
      using h hit by (intro with_tx_Inl) (simp_all add: bind_io_run attempt_io_run u serves_facts)
    moreover have "tx_end (Inl NotFound :: unit outcome) (enter_tx w\<lparr>tabs := ?t\<rparr>) = (Inl NotFound, w)"
      using h by (subst tx_end_Inl) simp_all
    ultimately show ?thesis using False h p
      by (simp add: UpdateUserPassword_def dao_UpdateUserPassword_def with_tx_ctx_open healthy_txc wrap_io_run Let_def)
  qed
qed

definition deployer :: "string \<Rightarrow> string \<Rightarrow> client_account" where
  "deployer username password = \<lparr>ca_username = username, ca_password = password,
     ca_namespace = ManagerAccountNamespace, ca_roles = Some [ManagerRole, AgentRole]\<rparr>"

lemma found_or_free: "find_account n t = None \<Longrightarrow> name_free n t"
  by (auto simp: find_account_def name_free_def first_by_None filter_empty_conv)

text \<open>
  C40 On a healthy database the deployer account of the secret files is created when no account has
  its name in any spelling, and gets the password of the file when an account has exactly its
  name; when the name is only taken in another spelling, the start fails and changes nothing.
\<close>

theorem deployer_at_start:
  assumes h: "healthy w" and u: "fs (PathMaasAccount ''deployer'' ''username'') = Contents u" "u \<noteq> []" "length u \<le> 128"
    and p: "fs (PathMaasAccount ''deployer'' ''password'') = Contents p" "p \<noteq> []"
    and k: "generateSalt uuid \<noteq> []" "kdf p (generateSalt uuid) \<noteq> []"
  shows "createDeployerAccount kdf uuid fs w =
    (if find_account u (tabs w) = None
     then (Inr (), w\<lparr>tabs := (tabs w)\<lparr>accounts := accounts (tabs w) @ [stored_account kdf uuid (deployer u p)]\<rparr>\<rparr>)
     else if u \<in> a_username ` set (accounts (tabs w))
     then (Inr (), w\<lparr>tabs := with_password u (kdf p (generateSalt uuid)) (generateSalt uuid) (tabs w)\<rparr>)
     else (Inl NotFound, w))"
proof -
  have run: "createDeployerAccount kdf uuid fs w = (case find_account u (tabs w) of
      Some _ \<Rightarrow> wrap_io (UpdateUserPassword kdf uuid u p) w
    | None \<Rightarrow> then_io (wrap_io (CreateUserAccount kdf uuid (deployer u p))) (ret_io ()) w)"
    using h u p by (simp add: createDeployerAccount_def createAccounts_def ReadFileWithProcessor_def deployer_def
        wrap_io_run GetAccount_run bind_io_run split: option.split)
  show ?thesis
  proof (cases "find_account u (tabs w)")
    case None
    have "complete_request (deployer u p)"
      using u p by (simp add: complete_request_def deployer_def ManagerAccountNamespace_def)
    with CreateUserAccount_new [OF h this] None found_or_free [OF None] show ?thesis
      unfolding run by (simp add: wrap_io_run then_io_run deployer_def)
  next
    case (Some a)
    with UpdateUserPassword_run [of w p uuid kdf u, OF h p(2) k] show ?thesis unfolding run by (auto simp: wrap_io_run)
  qed
qed

section \<open>Examples\<close>

definition demo_files :: files where
  "demo_files p =
     (if p = PathMaasAccount ''deployer'' ''username'' then Contents ''deployer''
      else if p = PathMaasAccount ''deployer'' ''password'' then Contents ''s''
      else if p = PathInstanceRegistrations ''maas-kafka-instance-body'' then Contents ''b''
      else Missing)"

text \<open>The file asks for \<open>b\<close> as the default; the database has \<open>a\<close>.\<close>

definition demo_decoder :: "kafka_instance decoder" where
  "demo_decoder = \<lparr>decode_all = (\<lambda>s. ([Some (kafka_b\<lparr>ki_default := True\<rparr>)], False)), decode_one = (\<lambda>_. Inl Generic)\<rparr>"

definition no_decoder :: "rabbit_instance decoder" where
  "no_decoder = \<lparr>decode_all = (\<lambda>s. ([], True)), decode_one = (\<lambda>_. Inl Generic)\<rparr>"

definition start_world :: "unit world" where
  "start_world = mk_world (empty_tables\<lparr>kafka_instances := [kafka_a], accounts := [zero_account\<lparr>a_username := ''Deployer''\<rparr>]\<rparr>) ()"

definition demo_fresh :: "string \<Rightarrow> nat \<Rightarrow> string" where
  "demo_fresh p n = ''u''"

definition all_well :: "'i \<Rightarrow> unit outcome" where
  "all_well i = Inr ()"

definition demo_run_start :: "files \<Rightarrow> unit outcome \<times> unit world" where
  "demo_run_start fs = RunPostdeployScripts demo_kdf demo_fresh no_decoder demo_decoder
     (rabbit_instance_service broadcast_new all_well) (kafka_instance_service broadcast_new all_well) fs start_world"

definition instance_file :: files where
  "instance_file = demo_files (PathMaasAccount ''deployer'' ''username'' := Missing)"

lemma steady_new: "steady broadcast_new"
  using quiet_new by (simp add: steady_def) (simp add: broadcast_new_def)

theorem start_keeps_defaults_witness:
  "fst (demo_run_start instance_file) = Inr () \<and> length (kafka_instances (tabs (snd (demo_run_start instance_file)))) = 2 \<and>
   map ki_id (filter ki_default (kafka_instances (tabs (snd (demo_run_start instance_file))))) = [''a'']"
proof -
  have "fst (demo_run_start instance_file) = Inr ()" "length (kafka_instances (tabs (snd (demo_run_start instance_file)))) = 2"
    by code_simp+
  moreover have "registries_ok start_world" by (simp add: registries_ok_def both_ok_def one_default_def start_world_def k_flags_def r_flags_def kafka_a_def zero_kafka_def empty_tables_def)
  moreover have "calm_master start_world" by (simp add: calm_master_def start_world_def)
  moreover have "[] \<notin> ki_id ` set (kafka_instances (tabs start_world))" "[] \<notin> ri_id ` set (rabbit_instances (tabs start_world))"
    by (simp_all add: start_world_def kafka_a_def empty_tables_def)
  moreover have "map ki_id (filter ki_default (kafka_instances (tabs start_world))) = [''a'']" "kafka_instances (tabs start_world) \<noteq> []"
    by (simp_all add: start_world_def kafka_a_def)
  ultimately show ?thesis
    using start_keeps_defaults [OF _ _ _ _ steady_new steady_new surjective_pairing [of "demo_run_start instance_file", unfolded demo_run_start_def]]
    by (simp add: demo_run_start_def)
qed

theorem deployer_at_start_witness:
  "createDeployerAccount demo_kdf ''u'' demo_files start_world = (Inl NotFound, start_world)"
proof -
  have "createDeployerAccount demo_kdf ''u'' demo_files start_world =
    (if find_account ''deployer'' (tabs start_world) = None
     then (Inr (), start_world\<lparr>tabs := (tabs start_world)\<lparr>accounts := accounts (tabs start_world) @ [stored_account demo_kdf ''u'' (deployer ''deployer'' ''s'')]\<rparr>\<rparr>)
     else if ''deployer'' \<in> a_username ` set (accounts (tabs start_world))
     then (Inr (), start_world\<lparr>tabs := with_password ''deployer'' (demo_kdf ''s'' (generateSalt ''u'')) (generateSalt ''u'') (tabs start_world)\<rparr>)
     else (Inl NotFound, start_world))"
    by (rule deployer_at_start) (simp_all add: start_world_def demo_files_def PathMaasAccount_def generateSalt_def demo_kdf_def)
  moreover have "find_account ''deployer'' (tabs start_world) \<noteq> None" by code_simp
  moreover have "''deployer'' \<notin> a_username ` set (accounts (tabs start_world))" by (simp add: start_world_def)
  ultimately show ?thesis by simp
qed

end
