(* ===== verification/Maas_Web.thy ===== *)
theory Maas_Web
  imports Maas_Auth
begin

text \<open>
  The common part of the HTTP interface (controller/controller_common_funcs.go, utils/utils.go): the
  middleware that authorises a request and sets its contexts, and the status of an error.

  The web framework is a parameter: a record of functions to read a header, add one and read the
  body.  So is the base64 decoder.  A handler is a computation over the exchange: the request, the
  values of its context, and the world of the service.
\<close>

section \<open>Exchanges\<close>

record 'rq http =
  Peek :: "'rq \<Rightarrow> string \<Rightarrow> string"
  AddHeader :: "string \<Rightarrow> string \<Rightarrow> 'rq \<Rightarrow> 'rq"
  Body :: "'rq \<Rightarrow> string"

record ('rq, 'k) exchange =
  ex_request :: 'rq
  ex_ctx :: ctx
  ex_world :: "'k world"

type_synonym ('rq, 'k, 'a) web = "(('rq, 'k) exchange, 'a) io"

definition service :: "('k, 'a) dbio \<Rightarrow> ('rq, 'k, 'a) web" where
  "service m ex = (case m (ex_world ex) of (r, w) \<Rightarrow> (r, ex\<lparr>ex_world := w\<rparr>))"

definition modify_ctx :: "(ctx \<Rightarrow> ctx) \<Rightarrow> ('rq, 'k, unit) web" where
  "modify_ctx f ex = (Inr (), ex\<lparr>ex_ctx := f (ex_ctx ex)\<rparr>)"

definition modify_request :: "('rq \<Rightarrow> 'rq) \<Rightarrow> ('rq, 'k, unit) web" where
  "modify_request f ex = (Inr (), ex\<lparr>ex_request := f (ex_request ex)\<rparr>)"

definition header :: "'rq http \<Rightarrow> string \<Rightarrow> ('rq, 'k, string) web" where
  "header h name = gets_io (\<lambda>ex. Peek h (ex_request ex) name)"

definition HeaderXNamespace :: string where "HeaderXNamespace = ''X-Origin-Namespace''"
definition HeaderXMicroservice :: string where "HeaderXMicroservice = ''X-Origin-Microservice''"
definition HeaderXVersion :: string where "HeaderXVersion = ''X-Version''"
definition HeaderXCompositeIsolationDisabled :: string where "HeaderXCompositeIsolationDisabled = ''X-Composite-Isolation''"
definition HeaderAuthorization :: string where "HeaderAuthorization = ''Authorization''"

lemma service_run [run_simps]: "service m ex = (case m (ex_world ex) of (r, w) \<Rightarrow> (r, ex\<lparr>ex_world := w\<rparr>))"
  by (simp add: service_def)

lemma header_run [simp]: "header h n ex = (Inr (Peek h (ex_request ex) n), ex)"
  by (simp add: header_def gets_io_def)

lemma modify_run [simp]:
  "modify_ctx f ex = (Inr (), ex\<lparr>ex_ctx := f (ex_ctx ex)\<rparr>)"
  "modify_request g ex = (Inr (), ex\<lparr>ex_request := g (ex_request ex)\<rparr>)"
  by (simp_all add: modify_ctx_def modify_request_def)

section \<open>Basic credentials (GetBasicAuth)\<close>

text \<open>A header that is no base64 is reported without the sentinel of an authentication error.\<close>

definition colon_char :: char where "colon_char = CHR '':''"

definition GetBasicAuth :: "(string \<Rightarrow> string option) \<Rightarrow> string \<Rightarrow> (string \<times> string) outcome" where
  "GetBasicAuth base64 auth =
     (if length auth = 0 then Inl AuthError
      else case ParseAuthHeader auth of
        None \<Rightarrow> Inl AuthError
      | Some (scheme, creds) \<Rightarrow>
          if to_lower scheme \<noteq> ''basic'' then Inl AuthError
          else case base64 creds of
            None \<Rightarrow> Inl Generic
          | Some payload \<Rightarrow>
              let username = takeWhile (\<lambda>c. c \<noteq> colon_char) payload;
                  rest = dropWhile (\<lambda>c. c \<noteq> colon_char) payload in
              if rest = [] then Inl AuthError
              else if username = [] \<or> tl rest = [] then Inl AuthError
              else Inr (username, tl rest))"

section \<open>Middleware\<close>

text \<open>
  Authorisation by name and password, or by token when the mode of machine-to-machine
  authentication accepts tokens.
\<close>

type_synonym 'k by_password = "string \<Rightarrow> string \<Rightarrow> string \<Rightarrow> string list \<Rightarrow> ('k, account) dbio"
type_synonym 'k by_token = "string \<Rightarrow> string list \<Rightarrow> ('k, account) dbio"

definition authorised :: "account \<Rightarrow> bool \<Rightarrow> ('rq, 'k, 'a) web \<Rightarrow> ('rq, 'k, 'a) web" where
  "authorised acc isolationDisabled next =
     then_io (modify_ctx (\<lambda>c. c\<lparr>ctx_security := Some \<lparr>sc_account = Some acc, sc_isolation_disabled = isolationDisabled\<rparr>\<rparr>)) next"

definition as_unauthorised :: "err \<Rightarrow> err" where
  "as_unauthorised e = (if e = GoPanic then GoPanic else UnauthorizedError)"

definition SecurityMiddleware ::
    "'rq http \<Rightarrow> (string \<Rightarrow> string option) \<Rightarrow> string list \<Rightarrow> 'k by_password \<Rightarrow> 'k by_token option \<Rightarrow>
     ('rq, 'k, 'a) web \<Rightarrow> ('rq, 'k, 'a) web" where
  "SecurityMiddleware h base64 roles withBasic withToken next =
     bind_io (header h HeaderAuthorization) (\<lambda>authHeader.
       case ParseAuthHeader authHeader of
         None \<Rightarrow> if contains roles AnonymousRole then next else raise_io AuthError
       | Some (authScheme, creds) \<Rightarrow>
           if to_lower authScheme = ''basic'' then
             bind_io (wrap_io (lift_io (GetBasicAuth base64 authHeader))) (\<lambda>(username, password).
             bind_io (header h HeaderXNamespace) (\<lambda>ns.
             bind_io (wrap_io (service (withBasic username password ns roles))) (\<lambda>acc.
             bind_io (header h HeaderXCompositeIsolationDisabled) (\<lambda>isolation.
               authorised acc (to_lower isolation = ''disabled'') next))))
           else if to_lower authScheme = ''bearer'' then
             (case withToken of
                None \<Rightarrow> raise_io UnauthorizedError
              | Some f \<Rightarrow>
                  bind_io (map_err_io as_unauthorised (service (f creds roles))) (\<lambda>acc.
                  then_io (modify_request (AddHeader h HeaderXNamespace (a_namespace acc) \<circ> AddHeader h HeaderXMicroservice (a_username acc)))
                  (then_io (modify_ctx (\<lambda>c. c\<lparr>ctx_request := map_option
                       (\<lambda>rc. rc\<lparr>rc_namespace := a_namespace acc, rc_microservice := a_username acc\<rparr>) (ctx_request c)\<rparr>))
                    (authorised acc False next))))
           else raise_io AuthError)"

definition ExtractRequestContext :: "'rq http \<Rightarrow> ('rq, 'k, 'a) web \<Rightarrow> ('rq, 'k, 'a) web" where
  "ExtractRequestContext h next =
     bind_io (header h HeaderXNamespace) (\<lambda>ns.
     bind_io (header h HeaderXMicroservice) (\<lambda>microservice.
     bind_io (header h HeaderXVersion) (\<lambda>rawVersion.
       case ParseVersion rawVersion of
         Inl e \<Rightarrow> raise_io BadRequest
       | Inr version \<Rightarrow>
           then_io (modify_ctx (\<lambda>c. c\<lparr>ctx_request := Some \<lparr>rc_namespace = ns, rc_microservice = microservice, rc_version = version\<rparr>\<rparr>))
             next)))"

definition RequiresNamespaceHeader :: "'rq http \<Rightarrow> ('rq, 'k, 'a) web \<Rightarrow> ('rq, 'k, 'a) web" where
  "RequiresNamespaceHeader h next =
     bind_io (header h HeaderAuthorization) (\<lambda>authHeader.
       if (case ParseAuthHeader authHeader of None \<Rightarrow> False | Some (scheme, creds) \<Rightarrow> to_lower scheme = ''bearer'') then next
       else bind_io (gets_io (ctx_request \<circ> ex_ctx)) (\<lambda>rc.
         case rc of
           None \<Rightarrow> raise_io Generic
         | Some r \<Rightarrow> if rc_namespace r = [] then raise_io BadRequest else next))"

text \<open>
  For the aggregated configuration: the contexts come from the body.  \<open>parse\<close> is the normalisation
  and decoding of the YAML into its objects, each with the namespace and the version of its specification.
\<close>

definition ParseRequestParametersFromConfig ::
    "'rq http \<Rightarrow> (string \<Rightarrow> (string \<times> string) outcome list outcome) \<Rightarrow> ('rq, 'k, 'a) web \<Rightarrow> ('rq, 'k, 'a) web" where
  "ParseRequestParametersFromConfig h parse next =
     bind_io (gets_io (\<lambda>ex. parse (Body h (ex_request ex)))) (\<lambda>objects.
       case objects of
         Inr [Inr (specNamespace, rawVersion)] \<Rightarrow>
           bind_io (header h HeaderXNamespace) (\<lambda>headerNamespace.
             let ns = (if specNamespace = [] then headerNamespace else specNamespace) in
             if ns = [] then raise_io BadRequest
             else case ParseVersion rawVersion of
               Inl e \<Rightarrow> raise_io BadRequest
             | Inr version \<Rightarrow>
                 then_io (modify_ctx (\<lambda>c. c\<lparr>ctx_request := Some \<lparr>rc_namespace = ns, rc_microservice = [], rc_version = []\<rparr>\<rparr>)) next)
       | _ \<Rightarrow> raise_io BadRequest)"

section \<open>Errors as statuses (TmfErrorHandler)\<close>

text \<open>
  Errors that reach the framework: those of the service, of the validator library, and of the
  framework itself.  The answer is the status and whether it is marked as a validation error.
\<close>

datatype web_error = ValidationErrors | FiberError nat | ServiceError err

definition TmfErrorHandler :: "web_error \<Rightarrow> nat \<times> bool" where
  "TmfErrorHandler e =
     (case e of
        ValidationErrors \<Rightarrow> (400, False)
      | FiberError code \<Rightarrow> (code, False)
      | ServiceError s \<Rightarrow>
          if s = BadRequest then (400, True)
          else if s = NotFound then (404, False)
          else if s = Conflict then (409, False)
          else if s = AuthError then (403, False)
          else if s = Gone then (410, False)
          else if s = UnauthorizedError then (401, False)
          else if s = MasterDatabaseUnavailable \<or> s = MasterDatabaseUnavailableForUpdate then (503, False)
          else if s = DatabaseIsNotActive then (405, False)
          else if s = DatabaseIsReadonly then (405, False)
          else (500, False))"

section \<open>Who a handler runs for\<close>

lemma deciding_keeps_tables:
  "keeps (\<lambda>w. tabs w = T) (IsAccessGrantedWithBasic kdf u p ns roles)" "keeps (\<lambda>w. tabs w = T) (IsAccessGrantedWithToken oidc raw roles)"
proof -
  have r: "keeps (\<lambda>w. tabs w = T) (sql_first q)" for q
    unfolding sql_first_def
    by (intro keeps_intros keepsI) (auto simp: sql_read_def kill_tx_def pop_fault_def Let_def split: list.splits option.splits if_splits)
  have u: "keeps (\<lambda>w. tabs w = T) (using_db z (sql_first q))" for z q
    by (rule keeps_using_db_gen [OF _ r]) simp
  have c: "keeps (\<lambda>w. tabs w = T) (checkAccountPermissions acc ns roles)" for acc ns
    unfolding checkAccountPermissions_def FindByNamespace_def dao_FindByNamespace_def by (intro keeps_intros u)
  show "keeps (\<lambda>w. tabs w = T) (IsAccessGrantedWithBasic kdf u p ns roles)"
    unfolding IsAccessGrantedWithBasic_def dao_GetAccountByUsername_def by (intro keeps_intros u c)
  show "keeps (\<lambda>w. tabs w = T) (IsAccessGrantedWithToken oidc raw roles)"
    unfolding IsAccessGrantedWithToken_def by (intro keeps_intros c)
qed

definition secured :: "account \<Rightarrow> bool \<Rightarrow> ctx \<Rightarrow> ctx" where
  "secured acc isolationDisabled c = c\<lparr>ctx_security := Some \<lparr>sc_account = Some acc, sc_isolation_disabled = isolationDisabled\<rparr>\<rparr>"

lemma password_run:
  assumes "ParseAuthHeader (Peek h (ex_request ex) HeaderAuthorization) = Some (scheme, creds)" "to_lower scheme = ''basic''"
  shows "SecurityMiddleware h base64 roles withBasic withToken next ex =
    (case GetBasicAuth base64 (Peek h (ex_request ex) HeaderAuthorization) of
       Inl e \<Rightarrow> (Inl (wrapped e), ex)
     | Inr (u, p) \<Rightarrow> (case withBasic u p (Peek h (ex_request ex) HeaderXNamespace) roles (ex_world ex) of
         (Inl e, w) \<Rightarrow> (Inl (wrapped e), ex\<lparr>ex_world := w\<rparr>)
       | (Inr acc, w) \<Rightarrow> next (ex\<lparr>ex_world := w,
           ex_ctx := secured acc (to_lower (Peek h (ex_request ex) HeaderXCompositeIsolationDisabled) = ''disabled'') (ex_ctx ex)\<rparr>)))"
  using assms
  by (auto simp: SecurityMiddleware_def bind_io_run then_io_run wrap_io_run lift_io_def service_run authorised_def secured_def
      split: sum.split prod.split)

lemma token_run:
  assumes "ParseAuthHeader (Peek h (ex_request ex) HeaderAuthorization) = Some (scheme, creds)" "to_lower scheme = ''bearer''"
  shows "SecurityMiddleware h base64 roles withBasic withToken next ex =
    (case withToken of None \<Rightarrow> (Inl UnauthorizedError, ex)
     | Some f \<Rightarrow> (case f creds roles (ex_world ex) of
         (Inl e, w) \<Rightarrow> (Inl (as_unauthorised e), ex\<lparr>ex_world := w\<rparr>)
       | (Inr acc, w) \<Rightarrow> next \<lparr>
           ex_request = AddHeader h HeaderXNamespace (a_namespace acc) (AddHeader h HeaderXMicroservice (a_username acc) (ex_request ex)),
           ex_ctx = secured acc False ((ex_ctx ex)\<lparr>ctx_request := map_option
             (\<lambda>rc. rc\<lparr>rc_namespace := a_namespace acc, rc_microservice := a_username acc\<rparr>) (ctx_request (ex_ctx ex))\<rparr>),
           ex_world = w\<rparr>))"
  using assms
  by (cases ex) (auto simp: SecurityMiddleware_def bind_io_run then_io_run map_err_io_def service_run authorised_def secured_def
      split: sum.split prod.split option.split)

definition entitled ::
    "(string \<Rightarrow> string \<Rightarrow> string) \<Rightarrow> 't oidc option \<Rightarrow> (string \<Rightarrow> string option) \<Rightarrow> string \<Rightarrow> string \<Rightarrow> 'k world \<Rightarrow> account \<Rightarrow> bool" where
  "entitled kdf oidc base64 auth ns w acc \<longleftrightarrow>
     (\<exists>u p. GetBasicAuth base64 auth = Inr (u, p) \<and> sees w (\<lambda>t. acc \<in> set (accounts t)) \<and> to_lower (a_username acc) = to_lower u \<and>
        kdf p (a_salt acc) = a_password acc \<and> reaches w acc ns) \<or>
     (\<exists>tokens scheme creds tok. oidc = Some tokens \<and> ParseAuthHeader auth = Some (scheme, creds) \<and> Verify tokens creds = Inr tok \<and>
        ServiceAccountName tokens tok = Inr (a_username acc) \<and> TokenNamespace tokens tok = Inr (a_namespace acc) \<and>
        reaches w acc (a_namespace acc))"

text \<open>
  Behind the authorisation for roles without the anonymous one, a handler runs only for an
  account that holds one of them: stored, with the password of the request and within reach of the
  namespace of its header, or named by a token that was verified.  Every other request ends with
  an error, and with the tables as they were.
\<close>

lemma handler_needs_account:
  assumes roles: "AnonymousRole \<notin> set roles"
    and run: "SecurityMiddleware h base64 roles (IsAccessGrantedWithBasic kdf) (map_option IsAccessGrantedWithToken oidc) next ex = (r, ex')"
  shows "(\<exists>e. r = Inl e \<and> tabs (ex_world ex') = tabs (ex_world ex)) \<or>
    (\<exists>acc ex1. entitled kdf oidc base64 (Peek h (ex_request ex) HeaderAuthorization) (Peek h (ex_request ex) HeaderXNamespace) (ex_world ex) acc \<and>
       HasRoles acc roles \<and> tabs (ex_world ex1) = tabs (ex_world ex) \<and>
       map_option sc_account (ctx_security (ex_ctx ex1)) = Some (Some acc) \<and> next ex1 = (r, ex'))"
proof (cases "ParseAuthHeader (Peek h (ex_request ex) HeaderAuthorization)")
  case None
  with run roles show ?thesis by (auto simp: SecurityMiddleware_def bind_io_run)
next
  case (Some sc)
  obtain scheme creds where sc: "sc = (scheme, creds)" by (cases sc)
  let ?auth = "Peek h (ex_request ex) HeaderAuthorization" and ?ns = "Peek h (ex_request ex) HeaderXNamespace"
  have p: "ParseAuthHeader ?auth = Some (scheme, creds)" using Some sc by simp
  from ParseAuthHeader_sound [OF p] consider (basic) "to_lower scheme = ''basic''" | (bearer) "to_lower scheme = ''bearer''" by auto
  then show ?thesis
  proof cases
    case basic
    note run = run [unfolded password_run [OF p basic]]
    show ?thesis
    proof (cases "GetBasicAuth base64 ?auth")
      case (Inl e)
      with run show ?thesis by auto
    next
      case (Inr up)
      obtain u pw where up: "up = (u, pw)" by (cases up)
      obtain r1 w1 where 1: "IsAccessGrantedWithBasic kdf u pw ?ns roles (ex_world ex) = (r1, w1)" by (metis surj_pair)
      have t: "tabs w1 = tabs (ex_world ex)" using keepsD [OF deciding_keeps_tables(1) 1] by simp
      show ?thesis
      proof (cases r1)
        case e: (Inl e)
        with run Inr up 1 t show ?thesis by auto
      next
        case acc: (Inr acc)
        have "entitled kdf oidc base64 ?auth ?ns (ex_world ex) acc \<and> HasRoles acc roles"
          using granted_with_password [of kdf u pw ?ns roles "ex_world ex" acc w1] 1 acc Inr up by (auto simp: entitled_def)
        moreover from run Inr up 1 acc obtain b where "next (ex\<lparr>ex_world := w1, ex_ctx := secured acc b (ex_ctx ex)\<rparr>) = (r, ex')" by simp
        then have "\<exists>ex1. tabs (ex_world ex1) = tabs (ex_world ex) \<and> map_option sc_account (ctx_security (ex_ctx ex1)) = Some (Some acc) \<and> next ex1 = (r, ex')"
          by (intro exI [of _ "ex\<lparr>ex_world := w1, ex_ctx := secured acc b (ex_ctx ex)\<rparr>"]) (simp add: secured_def t)
        ultimately show ?thesis by blast
      qed
    qed
  next
    case bearer
    note run = run [unfolded token_run [OF p bearer]]
    show ?thesis
    proof (cases oidc)
      case None
      with run show ?thesis by auto
    next
      case tokens: (Some tokens)
      obtain r1 w1 where 1: "IsAccessGrantedWithToken tokens creds roles (ex_world ex) = (r1, w1)" by (metis surj_pair)
      have t: "tabs w1 = tabs (ex_world ex)" using keepsD [OF deciding_keeps_tables(2) 1] by simp
      show ?thesis
      proof (cases r1)
        case e: (Inl e)
        with run tokens 1 t show ?thesis by auto
      next
        case acc: (Inr acc)
        have "entitled kdf oidc base64 ?auth ?ns (ex_world ex) acc \<and> HasRoles acc roles"
          using token_access_sound [of tokens creds roles "ex_world ex" acc w1] 1 acc p tokens by (auto simp: entitled_def)
        moreover from run tokens 1 acc obtain rq c where "next \<lparr>ex_request = rq, ex_ctx = secured acc False c, ex_world = w1\<rparr> = (r, ex')" by simp
        then have "\<exists>ex1. tabs (ex_world ex1) = tabs (ex_world ex) \<and> map_option sc_account (ctx_security (ex_ctx ex1)) = Some (Some acc) \<and> next ex1 = (r, ex')"
          by (intro exI [of _ "\<lparr>ex_request = rq, ex_ctx = secured acc False c, ex_world = w1\<rparr>"]) (simp add: secured_def t)
        ultimately show ?thesis by blast
      qed
    qed
  qed
qed

end
