(* ===== verification/Maas_Routes.thy ===== *)
theory Maas_Routes
  imports Maas_Web
begin

text \<open>
  The table of routes (router/api.go, router/v1.go): which middleware stands in front of which
  operation, and what follows for requests without an account.

  A group registers its middleware for the paths its prefix covers, a route for its own path; the
  framework runs what covers a path in the order of registration.  Which paths a prefix covers is
  the framework's affair, a parameter \<open>covers\<close>; \<open>prefix_semantics\<close> states what is documented of it.
\<close>

section \<open>Guards\<close>

datatype guard = Roles "string list" | NamespaceHeader | ConfigParameters

datatype m2m_mode = Legacy | Hybrid | K8s

record ('rq, 'k) web_env =
  env_http :: "'rq http"
  env_base64 :: "string \<Rightarrow> string option"
  env_mode :: m2m_mode
  env_by_password :: "'k by_password"
  env_by_token :: "'k by_token"
  env_parse :: "string \<Rightarrow> (string \<times> string) outcome list outcome"

definition roles_handler :: "('rq, 'k) web_env \<Rightarrow> string list \<Rightarrow> ('rq, 'k, 'a) web \<Rightarrow> ('rq, 'k, 'a) web" where
  "roles_handler e roles next = SecurityMiddleware (env_http e) (env_base64 e) roles (env_by_password e)
     (case env_mode e of Legacy \<Rightarrow> None | Hybrid \<Rightarrow> Some (env_by_token e) | K8s \<Rightarrow> Some (env_by_token e)) next"

definition guard_handler :: "('rq, 'k) web_env \<Rightarrow> guard \<Rightarrow> ('rq, 'k, 'a) web \<Rightarrow> ('rq, 'k, 'a) web" where
  "guard_handler e g next = (case g of
     Roles roles \<Rightarrow> roles_handler e roles next
   | NamespaceHeader \<Rightarrow> RequiresNamespaceHeader (env_http e) next
   | ConfigParameters \<Rightarrow> ParseRequestParametersFromConfig (env_http e) (env_parse e) next)"

text \<open>A request on a route: its context is extracted, then the guards run in order.\<close>

definition run_route :: "('rq, 'k) web_env \<Rightarrow> guard list \<Rightarrow> ('rq, 'k, 'a) web \<Rightarrow> ('rq, 'k, 'a) web" where
  "run_route e gs operation = ExtractRequestContext (env_http e) (foldr (guard_handler e) gs operation)"

section \<open>The table\<close>

datatype entry = Group string "guard list" | Route string string "guard list"

definition manager :: "guard list" where "manager = [Roles [ManagerRole]]"
definition agent :: "guard list" where "agent = [Roles [AgentRole]]"
definition agent_ns :: "guard list" where "agent_ns = [Roles [AgentRole], NamespaceHeader]"
definition operator :: "guard list" where "operator = [Roles [AnonymousRole, BgOperatorRole]]"

definition app_routes :: "entry list" where
  "app_routes = [Route ''GET'' ''/swagger-ui/swagger.json'' [], Route ''GET'' ''/api-version'' []]"

definition createV1Api :: "entry list" where
  "createV1Api =
    [Route ''DELETE'' ''/api/v1/namespace'' manager,
     Route ''POST'' ''/api/v1/auth/account/client'' manager,
     Route ''DELETE'' ''/api/v1/auth/account/client'' manager,
     Route ''GET'' ''/api/v1/auth/accounts'' manager,
     Route ''POST'' ''/api/v1/auth/account/manager'' [],
     Group ''/api/v1/rabbit/instance*'' manager,
     Route ''GET'' ''/api/v1/rabbit/instances'' [],
     Route ''POST'' ''/api/v1/rabbit/instance'' [],
     Route ''PUT'' ''/api/v1/rabbit/instance'' [],
     Route ''DELETE'' ''/api/v1/rabbit/instance'' [],
     Route ''PUT'' ''/api/v1/rabbit/instance/default'' [],
     Group ''/api/v1/rabbit/vhost'' agent_ns,
     Route ''POST'' ''/api/v1/rabbit/vhost/get-by-classifier'' [],
     Route ''POST'' ''/api/v1/rabbit/vhost'' [],
     Route ''DELETE'' ''/api/v1/rabbit/vhost'' [],
     Group ''/api/v1/kafka/instance*'' manager,
     Route ''GET'' ''/api/v1/kafka/instances'' [],
     Route ''POST'' ''/api/v1/kafka/instance'' [],
     Route ''PUT'' ''/api/v1/kafka/instance'' [],
     Route ''DELETE'' ''/api/v1/kafka/instance'' [],
     Route ''PUT'' ''/api/v1/kafka/instance/default'' [],
     Group ''/api/v1/kafka/topic*'' agent_ns,
     Route ''POST'' ''/api/v1/kafka/topic/get-by-classifier'' [],
     Route ''POST'' ''/api/v1/kafka/topic/search'' [],
     Route ''POST'' ''/api/v1/kafka/topic'' [],
     Route ''DELETE'' ''/api/v1/kafka/topic'' [],
     Group ''/api/v1/kafka/topic-template*'' agent_ns,
     Route ''GET'' ''/api/v1/kafka/topic-templates'' [],
     Route ''DELETE'' ''/api/v1/kafka/topic-template'' [],
     Group ''/api/v1/kafka/lazy-topic*'' agent_ns,
     Route ''POST'' ''/api/v1/kafka/lazy-topic/definition'' [],
     Route ''POST'' ''/api/v1/kafka/lazy-topic'' [],
     Route ''GET'' ''/api/v1/kafka/lazy-topics/definitions'' [],
     Route ''DELETE'' ''/api/v1/kafka/lazy-topic/definition'' [],
     Route ''GET'' ''/api/v1/kafka/tenant-topics'' agent_ns,
     Group ''/api/v1/kafka/instance-designator*'' agent_ns,
     Route ''GET'' ''/api/v1/kafka/instance-designator'' [],
     Route ''DELETE'' ''/api/v1/kafka/instance-designator'' [],
     Group ''/api/v1/rabbit/instance-designator*'' agent_ns,
     Route ''GET'' ''/api/v1/rabbit/instance-designator'' [],
     Route ''DELETE'' ''/api/v1/rabbit/instance-designator'' [],
     Route ''POST'' ''/api/v1/config'' agent_ns,
     Route ''POST'' ''/api/v1/synchronize-tenants'' agent_ns,
     Route ''GET'' ''/api/v1/tenants'' agent_ns,
     Route ''POST'' ''/api/v1/bg-status'' agent_ns,
     Route ''GET'' ''/api/v1/bg-status'' agent_ns]"

definition api_v2 :: "entry list" where
  "api_v2 =
    [Route ''DELETE'' ''/api/v2/namespace'' manager,
     Route ''POST'' ''/api/v2/config'' [Roles [AgentRole], ConfigParameters],
     Route ''POST'' ''/api/v2/auth/account/client'' manager,
     Route ''DELETE'' ''/api/v2/auth/account/client'' manager,
     Route ''GET'' ''/api/v2/auth/accounts'' manager,
     Route ''POST'' ''/api/v2/auth/account/manager'' [],
     Route ''PUT'' ''/api/v2/auth/account/manager/:name/password'' manager,
     Group ''/api/v2/rabbit/instance*'' manager,
     Route ''GET'' ''/api/v2/rabbit/instances'' [],
     Route ''POST'' ''/api/v2/rabbit/instance'' [],
     Route ''PUT'' ''/api/v2/rabbit/instance'' [],
     Route ''DELETE'' ''/api/v2/rabbit/instance'' [],
     Route ''PUT'' ''/api/v2/rabbit/instance/default'' [],
     Group ''/api/v2/rabbit/vhost'' agent_ns,
     Route ''POST'' ''/api/v2/rabbit/vhost/get-by-classifier'' [],
     Route ''POST'' ''/api/v2/rabbit/vhost'' [],
     Route ''POST'' ''/api/v2/rabbit/vhost/search'' [],
     Route ''DELETE'' ''/api/v2/rabbit/vhost'' [],
     Group ''/api/v2/rabbit/instance-designator*'' agent_ns,
     Route ''GET'' ''/api/v2/rabbit/instance-designator'' [],
     Route ''DELETE'' ''/api/v2/rabbit/instance-designator'' [],
     Group ''/api/v2/rabbit'' agent_ns,
     Route ''GET'' ''/api/v2/rabbit/validations'' [],
     Route ''POST'' ''/api/v2/rabbit/recovery/:namespace'' [],
     Route ''POST'' ''/api/v2/rabbit/password-rotation'' [],
     Group ''/api/v2/kafka/instance*'' manager,
     Route ''GET'' ''/api/v2/kafka/instances'' [],
     Route ''POST'' ''/api/v2/kafka/instance'' [],
     Route ''PUT'' ''/api/v2/kafka/instance'' [],
     Route ''DELETE'' ''/api/v2/kafka/instance'' [],
     Route ''PUT'' ''/api/v2/kafka/instance/default'' [],
     Group ''/api/v2/kafka/topic-template*'' agent_ns,
     Route ''GET'' ''/api/v2/kafka/topic-templates'' [],
     Route ''DELETE'' ''/api/v2/kafka/topic-template'' [],
     Group ''/api/v2/kafka/lazy-topic*'' agent_ns,
     Route ''POST'' ''/api/v2/kafka/lazy-topic/definition'' [],
     Route ''POST'' ''/api/v2/kafka/lazy-topic'' [],
     Route ''GET'' ''/api/v2/kafka/lazy-topics/definitions'' [],
     Route ''DELETE'' ''/api/v2/kafka/lazy-topic/definition'' [],
     Route ''GET'' ''/api/v2/kafka/tenant-topics'' agent_ns,
     Route ''DELETE'' ''/api/v2/kafka/tenant-topic'' agent_ns,
     Group ''/api/v2/kafka/instance-designator*'' agent_ns,
     Route ''GET'' ''/api/v2/kafka/instance-designator'' [],
     Route ''DELETE'' ''/api/v2/kafka/instance-designator'' [],
     Group ''/api/v2/kafka/topic*'' agent_ns,
     Route ''DELETE'' ''/api/v2/kafka/topic'' [],
     Route ''POST'' ''/api/v2/kafka/topic/watch-create'' [NamespaceHeader],
     Route ''POST'' ''/api/v2/kafka/topic'' [],
     Route ''POST'' ''/api/v2/kafka/topic/search'' [],
     Route ''POST'' ''/api/v2/kafka/topic/get-by-classifier'' [],
     Route ''POST'' ''/api/v2/kafka/topic/sync/:namespace'' [],
     Route ''POST'' ''/api/v2/kafka/recovery/:namespace'' [],
     Route ''POST'' ''/api/v2/kafka/recover-topic'' [],
     Route ''GET'' ''/api/v2/kafka/discrepancy-report/:namespace'' [],
     Route ''POST'' ''/api/v2/synchronize-tenants'' agent_ns,
     Route ''GET'' ''/api/v2/tenants'' agent_ns,
     Route ''POST'' ''/api/v2/bg-status'' agent_ns,
     Route ''GET'' ''/api/v2/bg-status'' agent_ns,
     Route ''GET'' ''/api/v2/monitoring/entity-distribution'' manager,
     Route ''GET'' ''/api/v2/monitoring/entity-request-audit'' []]"

definition api_rest :: "entry list" where
  "api_rest =
    [Route ''GET'' ''/api/bluegreen/v1/operation/list-domains'' operator,
     Route ''POST'' ''/api/bluegreen/v1/operation/init-domain'' operator,
     Route ''POST'' ''/api/bluegreen/v1/operation/warmup'' operator,
     Route ''POST'' ''/api/bluegreen/v1/operation/promote'' operator,
     Route ''POST'' ''/api/bluegreen/v1/operation/rollback'' operator,
     Route ''POST'' ''/api/bluegreen/v1/operation/commit'' operator,
     Route ''DELETE'' ''/api/bluegreen/v1/operation/destroy-domain'' operator,
     Route ''POST'' ''/api/declarations/v1/apply'' agent,
     Route ''DELETE'' ''/api/declarations/v1/apply'' agent,
     Route ''GET'' ''/api/declarations/v1/operation/:trackingId/status'' agent,
     Route ''POST'' ''/api/declarations/v1/operation/:trackingId/terminate'' agent,
     Route ''GET'' ''/api/composite/v1/structure/:id'' agent,
     Route ''GET'' ''/api/composite/v1/structures/:id'' agent,
     Route ''GET'' ''/api/composite/v1/structures/'' agent,
     Route ''DELETE'' ''/api/composite/v1/structure/:id'' agent,
     Route ''DELETE'' ''/api/composite/v1/structures/:id/delete'' agent,
     Route ''POST'' ''/api/composite/v1/structure'' agent,
     Route ''POST'' ''/api/composite/v1/structures'' agent]"

definition CreateApi :: "entry list" where
  "CreateApi = app_routes @ createV1Api @ api_v2 @ api_rest"

text \<open>The guards in front of each route: of the groups registered before it that cover it, then its own.\<close>

fun routes_from :: "(string \<Rightarrow> string \<Rightarrow> bool) \<Rightarrow> (string \<times> guard list) list \<Rightarrow> entry list \<Rightarrow> (string \<times> string \<times> guard list) list" where
  "routes_from covers groups [] = []"
| "routes_from covers groups (Group prefix gs # es) = routes_from covers (groups @ [(prefix, gs)]) es"
| "routes_from covers groups (Route verb path gs # es) =
     (verb, path, concat (map snd [g \<leftarrow> groups. covers (fst g) path]) @ gs) # routes_from covers groups es"

definition routes :: "(string \<Rightarrow> string \<Rightarrow> bool) \<Rightarrow> (string \<times> string \<times> guard list) list" where
  "routes covers = routes_from covers [] CreateApi"

section \<open>Prefixes\<close>

definition static_part :: "string \<Rightarrow> string" where
  "static_part prefix = (if prefix \<noteq> [] \<and> last prefix = star_char then butlast prefix else prefix)"

text \<open>
  A trailing star stands for any rest; a prefix without one covers itself and what follows it
  behind a slash; nothing is covered that does not start with the prefix.
\<close>

definition surely_covers :: "string \<Rightarrow> string \<Rightarrow> bool" where
  "surely_covers prefix path =
     (if prefix \<noteq> [] \<and> last prefix = star_char then has_prefix path (butlast prefix)
      else path = prefix \<or> has_prefix path (prefix @ [slash_char]))"

definition prefix_semantics :: "(string \<Rightarrow> string \<Rightarrow> bool) \<Rightarrow> bool" where
  "prefix_semantics covers \<longleftrightarrow> (\<forall>prefix path.
     (surely_covers prefix path \<longrightarrow> covers prefix path) \<and> (covers prefix path \<longrightarrow> has_prefix path (static_part prefix)))"

text \<open>On the paths of the table the two bounds agree, so every such framework runs the same guards.\<close>

fun determined :: "string list \<Rightarrow> entry list \<Rightarrow> bool" where
  "determined prefixes [] = True"
| "determined prefixes (Group prefix gs # es) = determined (prefixes @ [prefix]) es"
| "determined prefixes (Route verb path gs # es) =
     (list_all (\<lambda>p. has_prefix path (static_part p) = surely_covers p path) prefixes \<and> determined prefixes es)"

lemma determined_routes:
  assumes "prefix_semantics covers" "determined (map fst groups) es"
  shows "routes_from covers groups es = routes_from surely_covers groups es"
  using assms(2)
proof (induction surely_covers groups es rule: routes_from.induct)
  case (3 groups verb path gs es)
  have "covers p path = surely_covers p path" if "p \<in> fst ` set groups" for p
    using 3(2) assms(1) that by (auto simp: prefix_semantics_def list_all_iff)
  then have "[g \<leftarrow> groups. covers (fst g) path] = [g \<leftarrow> groups. surely_covers (fst g) path]"
    by (intro filter_cong) auto
  with 3 show ?case by simp
qed simp_all

lemma table_determined: "determined [] CreateApi"
  by code_simp

lemma routes_determined: "prefix_semantics covers \<Longrightarrow> routes covers = routes surely_covers"
  unfolding routes_def using determined_routes [of covers "[]"] table_determined by simp

section \<open>Who may call what\<close>

definition open_guard :: "guard \<Rightarrow> bool" where
  "open_guard g = (case g of Roles roles \<Rightarrow> contains roles AnonymousRole | NamespaceHeader \<Rightarrow> True | ConfigParameters \<Rightarrow> True)"

definition public :: "guard list \<Rightarrow> bool" where
  "public gs = list_all open_guard gs"

definition public_routes :: "(string \<times> string) list" where
  "public_routes =
    [(''GET'', ''/swagger-ui/swagger.json''), (''GET'', ''/api-version''),
     (''POST'', ''/api/v1/auth/account/manager''), (''POST'', ''/api/v2/auth/account/manager''),
     (''POST'', ''/api/v2/kafka/recovery/:namespace''), (''POST'', ''/api/v2/kafka/recover-topic''),
     (''GET'', ''/api/v2/kafka/discrepancy-report/:namespace''), (''GET'', ''/api/v2/monitoring/entity-request-audit''),
     (''GET'', ''/api/bluegreen/v1/operation/list-domains''), (''POST'', ''/api/bluegreen/v1/operation/init-domain''),
     (''POST'', ''/api/bluegreen/v1/operation/warmup''), (''POST'', ''/api/bluegreen/v1/operation/promote''),
     (''POST'', ''/api/bluegreen/v1/operation/rollback''), (''POST'', ''/api/bluegreen/v1/operation/commit''),
     (''DELETE'', ''/api/bluegreen/v1/operation/destroy-domain'')]"

text \<open>Every guarded route begins with roles that do not include the anonymous one.\<close>

definition needs_account :: "guard list \<Rightarrow> bool" where
  "needs_account gs = (case gs of Roles roles # rest \<Rightarrow> \<not> contains roles AnonymousRole | _ \<Rightarrow> False)"

definition table :: "(string \<times> string \<times> guard list) list" where
  "table = routes surely_covers"

lemma table_checked:
  "map (\<lambda>(verb, path, gs). (verb, path)) (filter (\<lambda>(verb, path, gs). public gs) table) = public_routes \<and>
   list_all (\<lambda>(verb, path, gs). public gs \<or> needs_account gs) table"
  by code_simp

text \<open>The prefix of the instances also covers the instance designators: they ask for both roles.\<close>

lemma designators_checked:
  "map (\<lambda>(verb, path, gs). gs) (filter (\<lambda>(verb, path, gs). has_prefix (rev path) (rev ''/instance-designator'')) table) =
   replicate 8 (manager @ agent_ns)"
  by code_simp


lemma run_route_run:
  "run_route e gs operation ex =
    (case ParseVersion (Peek (env_http e) (ex_request ex) HeaderXVersion) of
       Inl err \<Rightarrow> (Inl BadRequest, ex)
     | Inr version \<Rightarrow> foldr (guard_handler e) gs operation (ex\<lparr>ex_ctx := (ex_ctx ex)\<lparr>ctx_request := Some
         \<lparr>rc_namespace = Peek (env_http e) (ex_request ex) HeaderXNamespace,
          rc_microservice = Peek (env_http e) (ex_request ex) HeaderXMicroservice, rc_version = version\<rparr>\<rparr>\<rparr>))"
  by (simp add: run_route_def ExtractRequestContext_def bind_io_run then_io_run split: sum.split)

definition accepted_tokens :: "m2m_mode \<Rightarrow> 't oidc \<Rightarrow> 't oidc option" where
  "accepted_tokens mode oidc = (if mode = Legacy then None else Some oidc)"

lemma roles_handler_auth:
  assumes "env_by_password e = IsAccessGrantedWithBasic kdf" "env_by_token e = IsAccessGrantedWithToken oidc"
  shows "roles_handler e roles next = SecurityMiddleware (env_http e) (env_base64 e) roles (IsAccessGrantedWithBasic kdf)
    (map_option IsAccessGrantedWithToken (accepted_tokens (env_mode e) oidc)) next"
  using assms by (cases "env_mode e") (simp_all add: roles_handler_def accepted_tokens_def)

text \<open>
  C37 Every other operation runs only for an account that the credentials of the request entitle:
  stored, with its password and within reach of the namespace of the header, or named by a
  verified token where tokens are accepted; and the account holds one of the roles the route asks
  for first.  Any other request ends with an error and leaves the tables as they were.
\<close>

theorem other_operations_need_account:
  assumes covers: "prefix_semantics covers" and route: "(verb, path, gs) \<in> set (routes covers)" "\<not> public gs"
    and auth: "env_by_password e = IsAccessGrantedWithBasic kdf" "env_by_token e = IsAccessGrantedWithToken oidc"
    and run: "run_route e gs operation ex = (r, ex')"
  shows "(\<exists>err. r = Inl err \<and> tabs (ex_world ex') = tabs (ex_world ex)) \<or>
    (\<exists>roles rest acc ex1. gs = Roles roles # rest \<and> AnonymousRole \<notin> set roles \<and> HasRoles acc roles \<and>
       entitled kdf (accepted_tokens (env_mode e) oidc) (env_base64 e) (Peek (env_http e) (ex_request ex) HeaderAuthorization)
         (Peek (env_http e) (ex_request ex) HeaderXNamespace) (ex_world ex) acc \<and>
       tabs (ex_world ex1) = tabs (ex_world ex) \<and> map_option sc_account (ctx_security (ex_ctx ex1)) = Some (Some acc) \<and>
       foldr (guard_handler e) rest operation ex1 = (r, ex'))"
proof -
  have "list_all (\<lambda>(verb, path, gs). public gs \<or> needs_account gs) (routes covers)"
    using table_checked unfolding table_def routes_determined [OF covers] by (rule conjunct2)
  with route have "needs_account gs" by (auto simp: list_all_iff)
  then obtain roles rest where gs: "gs = Roles roles # rest" and a: "AnonymousRole \<notin> set roles"
    by (auto simp: needs_account_def contains_def split: list.splits guard.splits)
  show ?thesis
  proof (cases "ParseVersion (Peek (env_http e) (ex_request ex) HeaderXVersion)")
    case (Inl err)
    with run show ?thesis by (auto simp: run_route_run)
  next
    case (Inr version)
    let ?ex = "ex\<lparr>ex_ctx := (ex_ctx ex)\<lparr>ctx_request := Some
         \<lparr>rc_namespace = Peek (env_http e) (ex_request ex) HeaderXNamespace,
          rc_microservice = Peek (env_http e) (ex_request ex) HeaderXMicroservice, rc_version = version\<rparr>\<rparr>\<rparr>"
    have "SecurityMiddleware (env_http e) (env_base64 e) roles (IsAccessGrantedWithBasic kdf)
      (map_option IsAccessGrantedWithToken (accepted_tokens (env_mode e) oidc)) (foldr (guard_handler e) rest operation) ?ex = (r, ex')"
      using run Inr gs by (simp add: run_route_run guard_handler_def roles_handler_auth [OF auth])
    from handler_needs_account [OF a this] gs a show ?thesis by simp blast
  qed
qed

section \<open>Example\<close>

text \<open>Requests as lists of headers, base64 as the identity.\<close>

definition list_http :: "(string \<times> string) list http" where
  "list_http = \<lparr>Peek = (\<lambda>rq n. case map_of rq n of None \<Rightarrow> [] | Some v \<Rightarrow> v),
     AddHeader = (\<lambda>n v rq. rq @ [(n, v)]), Body = (\<lambda>rq. [])\<rparr>"

definition no_tokens :: "unit oidc" where
  "no_tokens = \<lparr>Verify = (\<lambda>_. Inl Generic), ServiceAccountName = (\<lambda>_. Inl Generic), TokenNamespace = (\<lambda>_. Inl Generic)\<rparr>"

definition demo_env :: "((string \<times> string) list, unit) web_env" where
  "demo_env = \<lparr>env_http = list_http, env_base64 = Some, env_mode = Hybrid,
     env_by_password = IsAccessGrantedWithBasic demo_kdf, env_by_token = IsAccessGrantedWithToken no_tokens,
     env_parse = (\<lambda>_. Inl Generic)\<rparr>"

definition bobs_request :: "((string \<times> string) list, unit) exchange" where
  "bobs_request = \<lparr>ex_request = [(HeaderAuthorization, ''Basic bob:secret''), (HeaderXNamespace, ''ns1'')],
     ex_ctx = \<lparr>ctx_security = None, ctx_request = None\<rparr>, ex_world = login_world\<rparr>"

definition read_namespace :: "((string \<times> string) list, unit, string) web" where
  "read_namespace = gets_io (\<lambda>ex. case ctx_request (ex_ctx ex) of None \<Rightarrow> [] | Some rc \<Rightarrow> rc_namespace rc)"

lemma surely_prefix_semantics: "prefix_semantics surely_covers"
proof -
  have pre: "has_prefix path prefix" if "has_prefix path (prefix @ xs)" for path prefix xs
  proof -
    have "path = (prefix @ xs) @ drop (length (prefix @ xs)) path"
      using that by (metis append_take_drop_id has_prefix_def)
    then show ?thesis by (metis append.assoc append_eq_conv_conj has_prefix_def)
  qed
  moreover have "has_prefix p p" for p by (simp add: has_prefix_def)
  ultimately show ?thesis by (auto simp: prefix_semantics_def surely_covers_def static_part_def dest: pre split: if_splits)
qed


theorem other_operations_need_account_witness:
  "\<exists>acc. HasRoles acc [AgentRole] \<and> fst (run_route demo_env agent_ns read_namespace bobs_request) = Inr ''ns1'' \<and>
     entitled demo_kdf (Some no_tokens) Some ''Basic bob:secret'' ''ns1'' login_world acc"
proof -
  have run: "fst (run_route demo_env agent_ns read_namespace bobs_request) = Inr ''ns1''" by code_simp
  have "list_ex (\<lambda>(verb, path, gs). path = ''/api/v2/tenants'' \<and> gs = agent_ns) table" by code_simp
  then obtain verb where r: "(verb, ''/api/v2/tenants'', agent_ns) \<in> set (routes surely_covers)"
    by (auto simp: list_ex_iff table_def)
  have p: "\<not> public agent_ns" by code_simp
  have a: "env_by_password demo_env = IsAccessGrantedWithBasic demo_kdf" "env_by_token demo_env = IsAccessGrantedWithToken no_tokens"
    by (simp_all add: demo_env_def)
  have h: "accepted_tokens (env_mode demo_env) no_tokens = Some no_tokens" "env_base64 demo_env = Some"
    "Peek (env_http demo_env) (ex_request bobs_request) HeaderAuthorization = ''Basic bob:secret''"
    "Peek (env_http demo_env) (ex_request bobs_request) HeaderXNamespace = ''ns1''" "ex_world bobs_request = login_world"
    by (simp_all add: demo_env_def accepted_tokens_def list_http_def bobs_request_def HeaderAuthorization_def HeaderXNamespace_def)
  have "run_route demo_env agent_ns read_namespace bobs_request = (Inr ''ns1'', snd (run_route demo_env agent_ns read_namespace bobs_request))"
    using run by (metis prod.collapse)
  from other_operations_need_account [OF surely_prefix_semantics r p a this]
  obtain roles rest acc where g: "agent_ns = Roles roles # rest" "HasRoles acc roles"
    "entitled demo_kdf (Some no_tokens) Some ''Basic bob:secret'' ''ns1'' login_world acc"
    unfolding h by auto
  with run show ?thesis by (auto simp: agent_ns_def)
qed

end
